(* ===== verification/Rust_Prelude.thy ===== *)
theory Rust_Prelude
  imports Complex_Main "HOL-Library.Word" "HOL-Library.Monad_Syntax"
begin

unbundle bit_operations_syntax

text \<open>
  The part of the Rust language and of its standard library that the modelled
  sources use, and the lemmas every component theory shares.

  Unsigned integers are \<open>word\<close>s of their width. Both Cargo profiles set
  \<open>overflow-checks = false\<close>, so \<open>+\<close>, \<open>-\<close> and \<open>*\<close> wrap around, which is what
  the operations on words do. \<open>as\<close> between unsigned widths is \<^const>\<open>ucast\<close>:
  it widens or truncates. Signed integers are \<open>int\<close> with the wrap-around
  written out (\<open>wrap_i32\<close>, \<open>wrap_i64\<close>) and Rust's truncating division.
  \<open>Result\<close> is the sum type with \<open>Inl\<close> for \<open>Err\<close>, and \<open>and_then\<close> is the
  \<open>?\<close> operator. An \<open>f64\<close> is a \<open>real\<close>: floating-point rounding is not
  modelled, and no property rests on the value of such a field beyond the range
  it is clamped to.

  The collection \<open>unat_simps\<close> holds the rules that read a word expression
  as a natural number; \<open>rust_bounds\<close> holds upper bounds of words.
\<close>

section \<open>Types\<close>

type_synonym u8 = "8 word"
type_synonym u16 = "16 word"
type_synonym u32 = "32 word"
type_synonym u64 = "64 word"
type_synonym u128 = "128 word"
type_synonym i32 = int
type_synonym i64 = int
type_synonym i128 = int
type_synonym f64 = real
type_synonym bytes = "u8 list"

named_theorems unat_simps
named_theorems rust_bounds

abbreviation u64_max :: nat where
  "u64_max \<equiv> 2 ^ 64 - 1"

abbreviation u128_max :: nat where
  "u128_max \<equiv> 2 ^ 128 - 1"

section \<open>Integer operations of the standard library\<close>

definition saturating_sub :: "'a::len word \<Rightarrow> 'a word \<Rightarrow> 'a word" where
  "saturating_sub a b = (if b \<le> a then a - b else 0)"

definition saturating_add :: "'a::len word \<Rightarrow> 'a word \<Rightarrow> 'a word" where
  "saturating_add a b = (if unat a + unat b < 2 ^ LENGTH('a) then a + b else - 1)"

definition saturating_mul :: "'a::len word \<Rightarrow> 'a word \<Rightarrow> 'a word" where
  "saturating_mul a b = (if unat a * unat b < 2 ^ LENGTH('a) then a * b else - 1)"

definition checked_add :: "'a::len word \<Rightarrow> 'a word \<Rightarrow> 'a word option" where
  "checked_add a b = (if unat a + unat b < 2 ^ LENGTH('a) then Some (a + b) else None)"

definition checked_sub :: "'a::len word \<Rightarrow> 'a word \<Rightarrow> 'a word option" where
  "checked_sub a b = (if b \<le> a then Some (a - b) else None)"

definition checked_mul :: "'a::len word \<Rightarrow> 'a word \<Rightarrow> 'a word option" where
  "checked_mul a b = (if unat a * unat b < 2 ^ LENGTH('a) then Some (a * b) else None)"

definition checked_div :: "'a::len word \<Rightarrow> 'a word \<Rightarrow> 'a word option" where
  "checked_div a b = (if b = 0 then None else Some (a div b))"

text \<open>
  \<open>checked_shl\<close> and \<open>checked_shr\<close> fail only on a shift amount that is not below
  the width. Bits that are shifted out are lost, never reported.
\<close>

definition checked_shl :: "'a::len word \<Rightarrow> nat \<Rightarrow> 'a word option" where
  "checked_shl a n = (if n < LENGTH('a) then Some (push_bit n a) else None)"

definition checked_shr :: "'a::len word \<Rightarrow> nat \<Rightarrow> 'a word option" where
  "checked_shr a n = (if n < LENGTH('a) then Some (drop_bit n a) else None)"

text \<open>\<open>div_ceil\<close>, for a divisor that is not zero (the source panics on zero).\<close>

definition div_ceil :: "'a::len word \<Rightarrow> 'a word \<Rightarrow> 'a word" where
  "div_ceil a b = (if a mod b = 0 then a div b else a div b + 1)"

definition try_into_u64 :: "u128 \<Rightarrow> u64 option" where
  "try_into_u64 x = (if unat x < 2 ^ 64 then Some (ucast x) else None)"

text \<open>\<open>u128::checked_add_signed\<close>.\<close>

definition checked_add_signed :: "u128 \<Rightarrow> i128 \<Rightarrow> u128 option" where
  "checked_add_signed a d =
     (if 0 \<le> int (unat a) + d \<and> int (unat a) + d < 2 ^ 128
      then Some (of_int (int (unat a) + d)) else None)"

text \<open>Signed arithmetic: wrap-around and truncating division.\<close>

definition wrap_i32 :: "int \<Rightarrow> i32" where
  "wrap_i32 x = (x + 2 ^ 31) mod 2 ^ 32 - 2 ^ 31"

definition wrap_i64 :: "int \<Rightarrow> i64" where
  "wrap_i64 x = (x + 2 ^ 63) mod 2 ^ 64 - 2 ^ 63"

definition wrap_i128 :: "int \<Rightarrow> i128" where
  "wrap_i128 x = (x + 2 ^ 127) mod 2 ^ 128 - 2 ^ 127"

definition in_i32 :: "int \<Rightarrow> bool" where
  "in_i32 x \<longleftrightarrow> - (2 ^ 31) \<le> x \<and> x < 2 ^ 31"

definition in_i64 :: "int \<Rightarrow> bool" where
  "in_i64 x \<longleftrightarrow> - (2 ^ 63) \<le> x \<and> x < 2 ^ 63"

definition in_i128 :: "int \<Rightarrow> bool" where
  "in_i128 x \<longleftrightarrow> - (2 ^ 127) \<le> x \<and> x < 2 ^ 127"

definition trunc_div :: "int \<Rightarrow> int \<Rightarrow> int" where
  "trunc_div a b = (if (a < 0) = (b < 0) then \<bar>a\<bar> div \<bar>b\<bar> else - (\<bar>a\<bar> div \<bar>b\<bar>))"

definition trunc_mod :: "int \<Rightarrow> int \<Rightarrow> int" where
  "trunc_mod a b = a - b * trunc_div a b"

section \<open>Results\<close>

definition and_then :: "'e + 'a \<Rightarrow> ('a \<Rightarrow> 'e + 'b) \<Rightarrow> 'e + 'b" where
  "and_then r f = (case r of Inl e \<Rightarrow> Inl e | Inr x \<Rightarrow> f x)"

definition ok_or :: "'a option \<Rightarrow> 'e \<Rightarrow> 'e + 'a" where
  "ok_or r e = (case r of None \<Rightarrow> Inl e | Some x \<Rightarrow> Inr x)"

definition unwrap_or :: "'a option \<Rightarrow> 'a \<Rightarrow> 'a" where
  "unwrap_or r d = (case r of None \<Rightarrow> d | Some x \<Rightarrow> x)"

lemma and_then_Inl [simp]: "and_then (Inl e) f = Inl e"
  by (simp add: and_then_def)

lemma and_then_Inr [simp]: "and_then (Inr x) f = f x"
  by (simp add: and_then_def)

lemma ok_or_None [simp]: "ok_or None e = Inl e"
  by (simp add: ok_or_def)

lemma ok_or_Some [simp]: "ok_or (Some x) e = Inr x"
  by (simp add: ok_or_def)

lemma unwrap_or_None [simp]: "unwrap_or None d = d"
  by (simp add: unwrap_or_def)

lemma unwrap_or_Some [simp]: "unwrap_or (Some x) d = x"
  by (simp add: unwrap_or_def)

lemma and_then_eq_Inr [simp]:
  "and_then r f = Inr y \<longleftrightarrow> (\<exists>x. r = Inr x \<and> f x = Inr y)"
  by (cases r) auto

lemma and_then_eq_Inl [simp]:
  "and_then r f = Inl e \<longleftrightarrow> r = Inl e \<or> (\<exists>x. r = Inr x \<and> f x = Inl e)"
  by (cases r) auto

lemma ok_or_eq_Inr [simp]: "ok_or r e = Inr x \<longleftrightarrow> r = Some x"
  by (cases r) auto

lemma ok_or_eq_Inl [simp]: "ok_or r e = Inl e' \<longleftrightarrow> r = None \<and> e' = e"
  by (cases r) auto

lemma and_then_cong [fundef_cong]:
  "r = r' \<Longrightarrow> (\<And>x. r' = Inr x \<Longrightarrow> f x = f' x) \<Longrightarrow> and_then r f = and_then r' f'"
  by (cases r') auto

section \<open>Words read as natural numbers\<close>

lemma word_unat_bound [rust_bounds]: "unat (w :: 'a::len word) < 2 ^ LENGTH('a)"
  by (rule unsigned_less)

lemma u64_bound [rust_bounds]: "unat (w :: u64) < 18446744073709551616"
  using unsigned_less [of w] by simp

lemma u128_bound [rust_bounds]: "unat (w :: u128) < 340282366920938463463374607431768211456"
  using unsigned_less [of w] by simp

lemma u32_bound [rust_bounds]: "unat (w :: u32) < 4294967296"
  using unsigned_less [of w] by simp

lemma u16_bound [rust_bounds]: "unat (w :: u16) < 65536"
  using unsigned_less [of w] by simp

lemma word_nat_eqI: "unat (a :: 'a::len word) = unat b \<Longrightarrow> a = b"
  by (simp add: word_unat_eq_iff)

lemma unat_all_ones [unat_simps]: "unat (- 1 :: 'a::len word) = 2 ^ LENGTH('a) - 1"
  by (simp add: unsigned_minus_1_eq_mask mask_eq_exp_minus_1)

lemma unat_min_word [unat_simps]: "unat (min a b) = min (unat a) (unat (b :: 'a::len word))"
  by (simp add: min_def word_le_nat_alt)

lemma unat_max_word [unat_simps]: "unat (max a b) = max (unat a) (unat (b :: 'a::len word))"
  by (simp add: max_def word_le_nat_alt)

lemma unat_saturating_sub [unat_simps]: "unat (saturating_sub a b) = unat a - unat b"
  by (auto simp: saturating_sub_def unat_sub word_le_nat_alt)

lemma unat_saturating_add [unat_simps]:
  "unat (saturating_add a b) = min (unat a + unat b) (2 ^ LENGTH('a) - 1)"
  for a b :: "'a::len word"
  by (auto simp: saturating_add_def unat_all_ones unat_word_ariths)

lemma unat_saturating_mul [unat_simps]:
  "unat (saturating_mul a b) = min (unat a * unat b) (2 ^ LENGTH('a) - 1)"
  for a b :: "'a::len word"
  by (auto simp: saturating_mul_def unat_all_ones unat_word_ariths)

lemma checked_add_Some:
  "checked_add a b = Some c \<longleftrightarrow> unat a + unat b < 2 ^ LENGTH('a) \<and> unat c = unat a + unat b"
  for a b c :: "'a::len word"
  by (auto simp: checked_add_def unat_word_ariths word_unat_eq_iff split: if_splits)

lemma checked_sub_Some:
  "checked_sub a b = Some c \<longleftrightarrow> unat b \<le> unat a \<and> unat c = unat a - unat b"
  for a b c :: "'a::len word"
  by (auto simp: checked_sub_def unat_sub word_le_nat_alt word_unat_eq_iff split: if_splits)

lemma checked_mul_Some:
  "checked_mul a b = Some c \<longleftrightarrow> unat a * unat b < 2 ^ LENGTH('a) \<and> unat c = unat a * unat b"
  for a b c :: "'a::len word"
  by (auto simp: checked_mul_def unat_word_ariths word_unat_eq_iff split: if_splits)

lemma unat_drop_bit_div [unat_simps]: "unat (drop_bit n w) = unat w div 2 ^ n"
  for w :: "'a::len word"
  by (subst unat_drop_bit_eq) (rule drop_bit_eq_div)

lemma unat_push_bit_mod [unat_simps]:
  "unat (push_bit n w) = (unat w * 2 ^ n) mod 2 ^ LENGTH('a)" for w :: "'a::len word"
  by (subst unsigned_push_bit_eq) (simp add: push_bit_eq_mult take_bit_eq_mod)

lemma unat_ucast_mod: "unat (ucast w :: 'b::len word) = unat w mod 2 ^ LENGTH('b)"
  for w :: "'a::len word"
  by (simp add: unsigned_ucast_eq take_bit_eq_mod)

lemma unat_widen:
  "LENGTH('a) \<le> LENGTH('b) \<Longrightarrow> unat (ucast w :: 'b::len word) = unat w" for w :: "'a::len word"
proof -
  assume "LENGTH('a) \<le> LENGTH('b)"
  then have "(2::nat) ^ LENGTH('a) \<le> 2 ^ LENGTH('b)" by simp
  then have "unat w < 2 ^ LENGTH('b)" using word_unat_bound [of w] by linarith
  then show ?thesis by (simp add: unat_ucast_mod)
qed

lemma unat_widen_128 [unat_simps]:
  "unat (ucast (w64 :: u64) :: u128) = unat w64"
  "unat (ucast (w32 :: u32) :: u128) = unat w32"
  "unat (ucast (w16 :: u16) :: u128) = unat w16"
  by (simp_all add: unat_widen)

lemma unat_widen_64 [unat_simps]:
  "unat (ucast (w32 :: u32) :: u64) = unat w32"
  "unat (ucast (w16 :: u16) :: u64) = unat w16"
  by (simp_all add: unat_widen)

lemma unat_narrow_64: "unat x < 2 ^ 64 \<Longrightarrow> unat (ucast (x :: u128) :: u64) = unat x"
  by (simp add: unat_ucast_mod)

lemma try_into_u64_Some: "try_into_u64 x = Some y \<longleftrightarrow> unat x = unat y"
proof -
  have "unat x < 2 ^ 64 \<Longrightarrow> ucast x = y \<longleftrightarrow> unat x = unat y"
    by (simp add: word_unat_eq_iff unat_narrow_64)
  then show ?thesis
    using u64_bound [of y] by (auto simp: try_into_u64_def)
qed

text \<open>A product of two \<open>u64\<close> values always fits a \<open>u128\<close>.\<close>

lemma nat_mult_less_square: "(a :: nat) < m \<Longrightarrow> b < m \<Longrightarrow> a * b < m * m"
  by (simp add: mult_strict_mono)

lemma unat_mult_u64 [unat_simps]:
  "unat ((ucast (a :: u64) :: u128) * ucast (b :: u64)) = unat a * unat b"
proof -
  have "unat a * unat b < 2 ^ 128"
    using nat_mult_less_square [OF u64_bound u64_bound, of a b] by simp
  then show ?thesis
    by (simp add: unat_word_ariths unat_simps)
qed

lemma unat_add_u64 [unat_simps]:
  "unat ((ucast (a :: u64) :: u128) + ucast (b :: u64)) = unat a + unat b"
  using u64_bound [of a] u64_bound [of b] by (simp add: unat_word_ariths unat_simps)

text \<open>Ceiling division on natural numbers, and what it bounds.\<close>

definition ceil_nat :: "nat \<Rightarrow> nat \<Rightarrow> nat" where
  "ceil_nat n d = (n + d - 1) div d"

lemma ceil_nat_decomp: "r < d \<Longrightarrow> ceil_nat (d * q + r) d = (if r = 0 then q else Suc q)"
proof -
  assume r: "r < d"
  show ?thesis
  proof (cases "r = 0")
    case True
    then have "(d * q + r + d - 1) div d = q"
      using r by (intro div_nat_eqI) auto
    then show ?thesis using True by (simp add: ceil_nat_def)
  next
    case False
    then have "(d * q + r + d - 1) div d = Suc q"
      using r by (intro div_nat_eqI) auto
    then show ?thesis using False by (simp add: ceil_nat_def)
  qed
qed

lemma ceil_nat_eq: "0 < d \<Longrightarrow> ceil_nat n d = (if n mod d = 0 then n div d else Suc (n div d))"
  using ceil_nat_decomp [of "n mod d" d "n div d"] by (simp add: mult_div_mod_eq)

lemma ceil_nat_ge: "0 < d \<Longrightarrow> n \<le> ceil_nat n d * d"
proof -
  assume d: "0 < d"
  have "(n + d - 1) = ((n + d - 1) div d) * d + (n + d - 1) mod d"
    by simp
  moreover have "(n + d - 1) mod d < d" using d by simp
  ultimately show ?thesis unfolding ceil_nat_def by linarith
qed

lemma ceil_nat_less: "0 < d \<Longrightarrow> ceil_nat n d * d < n + d"
proof -
  assume d: "0 < d"
  have "((n + d - 1) div d) * d \<le> n + d - 1" by simp
  then show ?thesis using d unfolding ceil_nat_def by linarith
qed

lemma ceil_nat_le_iff: "0 < d \<Longrightarrow> ceil_nat n d \<le> k \<longleftrightarrow> n \<le> k * d"
proof
  assume d: "0 < d"
  show "n \<le> k * d" if "ceil_nat n d \<le> k"
    using mult_le_mono1 [OF that, of d] ceil_nat_ge [OF d, of n] by linarith
  show "ceil_nat n d \<le> k" if "n \<le> k * d"
  proof -
    have "ceil_nat n d * d < Suc k * d"
      using that ceil_nat_less [OF d, of n] by simp
    then show ?thesis using d mult_less_cancel2 by (metis less_Suc_eq_le)
  qed
qed

lemma ceil_nat_mono: "m \<le> n \<Longrightarrow> ceil_nat m d \<le> ceil_nat n d"
  by (simp add: ceil_nat_def div_le_mono)

lemma ceil_nat_le_self: "1 \<le> d \<Longrightarrow> ceil_nat n d \<le> n"
  by (simp add: ceil_nat_le_iff)

lemma ceil_nat_0 [simp]: "0 < d \<Longrightarrow> ceil_nat 0 d = 0"
  by (simp add: ceil_nat_def)

lemma div_le_ceil_nat: "0 < d \<Longrightarrow> n div d \<le> ceil_nat n d"
  by (simp add: ceil_nat_eq)

text \<open>What is left after taking a share rounded up grows with the amount.\<close>

lemma rest_of_share_mono:
  assumes "x \<le> y" and "0 < d"
  shows "x - ceil_nat (x * r) d \<le> y - ceil_nat (y * r) d"
proof (cases "r \<le> d")
  case True
  have "(y - x) * r \<le> (y - x) * d" using True by simp
  moreover have "x * r \<le> ceil_nat (x * r) d * d" using assms by (simp add: ceil_nat_ge)
  moreover have "y * r = x * r + (y - x) * r"
    using assms(1) by (simp add: diff_mult_distrib)
  ultimately have "y * r \<le> (ceil_nat (x * r) d + (y - x)) * d"
    by (simp only: add_mult_distrib)
  then have "ceil_nat (y * r) d \<le> ceil_nat (x * r) d + (y - x)"
    using assms(2) by (simp add: ceil_nat_le_iff)
  then show ?thesis using assms(1) by linarith
next
  case False
  then have "x * d \<le> ceil_nat (x * r) d * d"
    using ceil_nat_ge [OF assms(2), of "x * r"] mult_le_mono2 [of d r x] by linarith
  then have "x \<le> ceil_nat (x * r) d" using assms(2) by simp
  then show ?thesis by simp
qed

lemma unat_div_ceil [unat_simps]:
  "b \<noteq> 0 \<Longrightarrow> unat (div_ceil a b) = ceil_nat (unat a) (unat b)" for a b :: "'a::len word"
proof -
  assume "b \<noteq> 0"
  then have b: "0 < unat b" by (simp add: unat_gt_0)
  have zero: "a mod b = 0 \<longleftrightarrow> unat a mod unat b = 0"
    by (simp add: word_unat_eq_iff unat_mod)
  show ?thesis
  proof (cases "unat a mod unat b = 0")
    case True
    then show ?thesis using zero b by (simp add: div_ceil_def unat_div ceil_nat_eq)
  next
    case False
    then have "Suc (unat a div unat b) \<le> unat a"
      using ceil_nat_le_self [of "unat b" "unat a"] b by (simp add: ceil_nat_eq)
    then have "Suc (unat a div unat b) < 2 ^ LENGTH('a)"
      using word_unat_bound [of a] by linarith
    then have "unat (a div b + 1) = Suc (unat a div unat b)"
      by (simp add: unat_word_ariths(1) unat_div)
    then show ?thesis using False zero b by (simp add: div_ceil_def ceil_nat_eq)
  qed
qed

section \<open>Signed integers\<close>

lemma wrap_i32_id: "in_i32 x \<Longrightarrow> wrap_i32 x = x"
  by (simp add: in_i32_def wrap_i32_def)

lemma in_i32_wrap: "in_i32 (wrap_i32 x)"
  unfolding in_i32_def wrap_i32_def
  using pos_mod_bound [of "2^32::int" "x + 2^31"] pos_mod_sign [of "2^32::int" "x + 2^31"] by simp

lemma trunc_div_pos: "0 < b \<Longrightarrow> trunc_div a b = (if a < 0 then - ((- a) div b) else a div b)"
  by (simp add: trunc_div_def)

lemma uint_word_of_int_u128: "0 \<le> k \<Longrightarrow> k < 2 ^ 128 \<Longrightarrow> uint (word_of_int k :: u128) = k"
  by (simp add: uint_word_of_int_eq take_bit_eq_mod)

lemma checked_add_signed_Some:
  "checked_add_signed a d = Some b \<longleftrightarrow> int (unat b) = int (unat a) + d"
proof -
  have b: "0 \<le> uint b" "uint b < 2 ^ 128"
    using unsigned_less [of b, where 'a = int] by simp_all
  have eq: "word_of_int k = b \<longleftrightarrow> uint b = k" if "0 \<le> k" "k < 2 ^ 128" for k
    using uint_word_of_int_u128 [OF that] by auto
  show ?thesis
  proof (cases "0 \<le> int (unat a) + d \<and> int (unat a) + d < 2 ^ 128")
    case True
    then show ?thesis using eq [of "int (unat a) + d"] by (simp only: checked_add_signed_def if_True simp_thms option.inject of_nat_unat)
  next
    case False
    then have "uint b \<noteq> int (unat a) + d" using b by metis
    then show ?thesis
      using False by (simp only: checked_add_signed_def if_False option.distinct of_nat_unat)
  qed
qed

text \<open>Correcting a truncating division by one gives the floor.\<close>

lemma floor_from_trunc:
  assumes "0 < b"
  shows "(if a < 0 \<and> trunc_mod a b \<noteq> 0 then trunc_div a b - 1 else trunc_div a b) = a div b"
proof (cases "a < 0")
  case True
  have t: "trunc_div a b = - ((- a) div b)" using True assms by (simp add: trunc_div_pos)
  have m: "trunc_mod a b = - ((- a) mod b)"
    by (simp add: trunc_mod_def t minus_mult_div_eq_mod [symmetric])
  have "b \<noteq> a mod b" using pos_mod_bound [OF assms, of a] by linarith
  then show ?thesis
    using True assms unfolding t m by (simp add: zdiv_zminus1_eq_if zmod_zminus1_eq_if)
next
  case False
  then show ?thesis using assms by (simp add: trunc_div_pos)
qed

section \<open>Vectors\<close>

text \<open>
  \<open>sort_by_key\<close> is stable, like \<^const>\<open>sort_key\<close>. \<open>dedup_by_key\<close> removes all but the
  first of consecutive elements with the same key.
\<close>

fun dedup_by_key :: "('a \<Rightarrow> 'k) \<Rightarrow> 'a list \<Rightarrow> 'a list" where
  "dedup_by_key f (x # y # zs) =
     (if f x = f y then dedup_by_key f (x # zs) else x # dedup_by_key f (y # zs))"
| "dedup_by_key f xs = xs"

lemma set_dedup_by_key: "set (dedup_by_key f xs) \<subseteq> set xs"
  by (induction f xs rule: dedup_by_key.induct) auto

lemma dedup_keys: "f ` set (dedup_by_key f xs) = f ` set xs"
  by (induction f xs rule: dedup_by_key.induct) auto

lemma dedup_sorted_strict:
  fixes f :: "'a \<Rightarrow> 'k::linorder"
  shows "sorted (map f xs) \<Longrightarrow> sorted_wrt (\<lambda>x y. f x < f y) (dedup_by_key f xs)"
proof (induction f xs rule: dedup_by_key.induct)
  case (1 f x y zs)
  show ?case
  proof (cases "f x = f y")
    case True
    then have "sorted (map f (x # zs))" using "1.prems" by simp
    then show ?thesis using True "1.IH"(1) by (simp del: sorted_wrt.simps)
  next
    case False
    then have lt: "f x < f y" using "1.prems" by auto
    have "f x < f z" if "z \<in> set (dedup_by_key f (y # zs))" for z
    proof -
      have "z \<in> set (y # zs)" using that by (rule subsetD [OF set_dedup_by_key])
      moreover have "sorted (map f (y # zs))" using "1.prems" by simp
      ultimately have "f y \<le> f z" by auto
      then show ?thesis using lt by simp
    qed
    moreover have "sorted_wrt (\<lambda>x y. f x < f y) (dedup_by_key f (y # zs))"
      using "1.IH"(2) [OF False] "1.prems" by simp
    ultimately show ?thesis using False by simp
  qed
qed simp_all

end
