(* ===== verification/Float_Value.thy ===== *)
theory Float_Value
  imports Rust_Prelude
begin

text \<open>
  Floating-point values where the code distinguishes the ones that are not finite. A finite
  \<open>f64\<close> is a real number: rounding and the overflow of a finite operation are not modelled, and
  there is one zero. The values that are not finite follow IEEE 754: a comparison with a NaN is
  false, and an operation without a value is a NaN.
\<close>

datatype flt = Fin real | PosInf | NegInf | NaN

fun is_finite :: "flt \<Rightarrow> bool" where
  "is_finite (Fin _) = True"
| "is_finite _ = False"

fun flt_le :: "flt \<Rightarrow> flt \<Rightarrow> bool" where
  "flt_le (Fin a) (Fin b) \<longleftrightarrow> a \<le> b"
| "flt_le NaN _ \<longleftrightarrow> False"
| "flt_le _ NaN \<longleftrightarrow> False"
| "flt_le NegInf _ \<longleftrightarrow> True"
| "flt_le _ PosInf \<longleftrightarrow> True"
| "flt_le _ _ \<longleftrightarrow> False"

fun flt_lt :: "flt \<Rightarrow> flt \<Rightarrow> bool" where
  "flt_lt (Fin a) (Fin b) \<longleftrightarrow> a < b"
| "flt_lt NaN _ \<longleftrightarrow> False"
| "flt_lt _ NaN \<longleftrightarrow> False"
| "flt_lt NegInf b \<longleftrightarrow> b \<noteq> NegInf"
| "flt_lt a PosInf \<longleftrightarrow> a \<noteq> PosInf"
| "flt_lt _ _ \<longleftrightarrow> False"

fun flt_neg :: "flt \<Rightarrow> flt" where
  "flt_neg (Fin a) = Fin (- a)"
| "flt_neg PosInf = NegInf"
| "flt_neg NegInf = PosInf"
| "flt_neg NaN = NaN"

fun flt_add :: "flt \<Rightarrow> flt \<Rightarrow> flt" where
  "flt_add (Fin a) (Fin b) = Fin (a + b)"
| "flt_add NaN _ = NaN"
| "flt_add _ NaN = NaN"
| "flt_add PosInf NegInf = NaN"
| "flt_add NegInf PosInf = NaN"
| "flt_add PosInf _ = PosInf"
| "flt_add _ PosInf = PosInf"
| "flt_add _ _ = NegInf"

definition flt_sub :: "flt \<Rightarrow> flt \<Rightarrow> flt" where
  "flt_sub a b = flt_add a (flt_neg b)"

text \<open>An infinity of the given sign, or a NaN for a zero.\<close>

definition inf_of_sign :: "real \<Rightarrow> flt" where
  "inf_of_sign a = (if 0 < a then PosInf else if a < 0 then NegInf else NaN)"

fun sign_of :: "flt \<Rightarrow> real" where
  "sign_of (Fin a) = sgn a"
| "sign_of PosInf = 1"
| "sign_of NegInf = - 1"
| "sign_of NaN = 0"

fun flt_mul :: "flt \<Rightarrow> flt \<Rightarrow> flt" where
  "flt_mul (Fin a) (Fin b) = Fin (a * b)"
| "flt_mul a b = inf_of_sign (sign_of a * sign_of b)"

text \<open>The only zero is the positive one, so a division by zero takes the sign of its numerator.\<close>

fun flt_div :: "flt \<Rightarrow> flt \<Rightarrow> flt" where
  "flt_div (Fin a) (Fin b) = (if b = 0 then inf_of_sign a else Fin (a / b))"
| "flt_div NaN _ = NaN"
| "flt_div _ NaN = NaN"
| "flt_div (Fin _) _ = Fin 0"
| "flt_div a (Fin b) = inf_of_sign (sign_of a * (if b < 0 then - 1 else 1))"
| "flt_div _ _ = NaN"

text \<open>\<open>f64::total_cmp\<close>, with a NaN above every number.\<close>

fun total_le :: "flt \<Rightarrow> flt \<Rightarrow> bool" where
  "total_le _ NaN \<longleftrightarrow> True"
| "total_le NaN _ \<longleftrightarrow> False"
| "total_le a b \<longleftrightarrow> flt_le a b"

abbreviation usable :: "flt \<Rightarrow> bool" where
  "usable price \<equiv> is_finite price \<and> flt_lt (Fin 0) price"

section \<open>Lemmas\<close>

lemma flt_sub_Fin [simp]: "flt_sub (Fin a) (Fin b) = Fin (a - b)"
  by (simp add: flt_sub_def)

lemma is_finite_iff: "is_finite x \<longleftrightarrow> (\<exists>r. x = Fin r)"
  by (cases x) simp_all

lemma usable_iff: "usable x \<longleftrightarrow> (\<exists>r. x = Fin r \<and> 0 < r)"
  by (cases x) simp_all

lemma positive_iff: "\<not> flt_le x (Fin 0) \<and> is_finite x \<longleftrightarrow> (\<exists>r. x = Fin r \<and> 0 < r)"
  by (cases x) auto

lemma flt_lt_irrefl [simp]: "\<not> flt_lt a a"
  by (cases a) simp_all

lemma total_le_Fin [simp]: "total_le (Fin a) (Fin b) \<longleftrightarrow> a \<le> b"
  by simp

lemma total_le_refl: "total_le a a"
  by (cases a) simp_all

lemma total_le_linear: "\<not> total_le a b \<Longrightarrow> total_le b a"
  by (cases a; cases b) simp_all

lemma total_le_trans: "total_le a b \<Longrightarrow> total_le b c \<Longrightarrow> total_le a c"
  by (cases a; cases b; cases c) simp_all

lemma flt_lt_trans: "flt_lt a b \<Longrightarrow> flt_lt b c \<Longrightarrow> flt_lt a c"
  by (cases a; cases b; cases c) simp_all

end
