(* ===== verification/Trader_Config.thy ===== *)
theory Trader_Config
  imports Float_Value
begin

text \<open>
  The trader section of the configuration, \<open>src/config/schemas/trader.rs\<close>: the units and bases a
  user names, the steps of the take-profit and DCA ladders, the trailing bands, and the fields the
  exit rules and the DCA ladder read. Fields that only other parts of the trader read are left
  out. The checks of the section are in the theory of its validation, because they build the exit
  policy of the section.
\<close>

section \<open>Named choices\<close>

datatype time_unit = Seconds | Minutes | Hours | Days

fun to_seconds :: "time_unit \<Rightarrow> flt \<Rightarrow> flt" where
  "to_seconds Seconds v = v"
| "to_seconds Minutes v = flt_mul v (Fin 60)"
| "to_seconds Hours v = flt_mul v (Fin 3600)"
| "to_seconds Days v = flt_mul v (Fin 86400)"

fun time_unit_as_str :: "time_unit \<Rightarrow> string" where
  "time_unit_as_str Seconds = ''seconds''"
| "time_unit_as_str Minutes = ''minutes''"
| "time_unit_as_str Hours = ''hours''"
| "time_unit_as_str Days = ''days''"

text \<open>\<open>str::to_lowercase\<close> on the ASCII letters, the only ones the names have.\<close>

definition to_lowercase :: "string \<Rightarrow> string" where
  "to_lowercase name =
     map (\<lambda>c. let n = of_char c :: nat in if 65 \<le> n \<and> n \<le> 90 then char_of (n + 32) else c) name"

definition time_unit_from_name :: "string \<Rightarrow> time_unit option" where
  "time_unit_from_name name =
     (let n = to_lowercase name in
      if n \<in> {''seconds'', ''s'', ''sec''} then Some Seconds
      else if n \<in> {''minutes'', ''m'', ''min''} then Some Minutes
      else if n \<in> {''hours'', ''h'', ''hr''} then Some Hours
      else if n \<in> {''days'', ''d'', ''day''} then Some Days
      else None)"

datatype dca_measure_from = MeasureAverage | MeasureFirstEntry

fun measure_from_as_str :: "dca_measure_from \<Rightarrow> string" where
  "measure_from_as_str MeasureAverage = ''average''"
| "measure_from_as_str MeasureFirstEntry = ''first_entry''"

definition measure_from_of_name :: "string \<Rightarrow> dca_measure_from option" where
  "measure_from_of_name name =
     (let n = to_lowercase name in
      if n = ''average'' then Some MeasureAverage
      else if n = ''first_entry'' then Some MeasureFirstEntry
      else None)"

section \<open>Ladders and bands\<close>

definition TAKE_PROFIT_MAX_STEPS :: nat where "TAKE_PROFIT_MAX_STEPS = 4"
definition TAKE_PROFIT_PROFIT_PCT_MIN :: flt where "TAKE_PROFIT_PROFIT_PCT_MIN = Fin 1"
definition TAKE_PROFIT_PROFIT_PCT_MAX :: flt where "TAKE_PROFIT_PROFIT_PCT_MAX = Fin 1000"
definition TAKE_PROFIT_SELL_PCT_MIN :: flt where "TAKE_PROFIT_SELL_PCT_MIN = Fin 5"
definition TAKE_PROFIT_SELL_PCT_MAX :: flt where "TAKE_PROFIT_SELL_PCT_MAX = Fin 100"
definition DCA_MAX_STEPS :: nat where "DCA_MAX_STEPS = 5"
definition DCA_DROP_PCT_MIN :: flt where "DCA_DROP_PCT_MIN = Fin (- 95)"
definition DCA_DROP_PCT_MAX :: flt where "DCA_DROP_PCT_MAX = Fin (- 1)"
definition DCA_SIZE_MULTIPLIER_MIN :: flt where "DCA_SIZE_MULTIPLIER_MIN = Fin (1 / 10)"
definition DCA_SIZE_MULTIPLIER_MAX :: flt where "DCA_SIZE_MULTIPLIER_MAX = Fin 5"
definition DCA_MIN_HOLD_MINUTES_MIN :: i64 where "DCA_MIN_HOLD_MINUTES_MIN = 0"
definition DCA_MIN_HOLD_MINUTES_MAX :: i64 where "DCA_MIN_HOLD_MINUTES_MAX = 1440"
definition TRAILING_STOP_MAX_BANDS :: nat where "TRAILING_STOP_MAX_BANDS = 3"
definition TRAILING_STOP_BAND_PROFIT_PCT_MIN :: flt where "TRAILING_STOP_BAND_PROFIT_PCT_MIN = Fin 1"
definition TRAILING_STOP_BAND_PROFIT_PCT_MAX :: flt where "TRAILING_STOP_BAND_PROFIT_PCT_MAX = Fin 1000"
definition TRAILING_STOP_BAND_DISTANCE_PCT_MIN :: flt where "TRAILING_STOP_BAND_DISTANCE_PCT_MIN = Fin 1"
definition TRAILING_STOP_BAND_DISTANCE_PCT_MAX :: flt where "TRAILING_STOP_BAND_DISTANCE_PCT_MAX = Fin 90"
definition BREAK_EVEN_TRIGGER_PCT_MIN :: flt where "BREAK_EVEN_TRIGGER_PCT_MIN = Fin (1 / 2)"
definition BREAK_EVEN_TRIGGER_PCT_MAX :: flt where "BREAK_EVEN_TRIGGER_PCT_MAX = Fin 1000"
definition BREAK_EVEN_OFFSET_PCT_MIN :: flt where "BREAK_EVEN_OFFSET_PCT_MIN = Fin 0"
definition BREAK_EVEN_OFFSET_PCT_MAX :: flt where "BREAK_EVEN_OFFSET_PCT_MAX = Fin 50"
definition TIME_EXIT_STAGNATION_MINUTES_MIN :: flt where "TIME_EXIT_STAGNATION_MINUTES_MIN = Fin 5"
definition TIME_EXIT_STAGNATION_MINUTES_MAX :: flt where "TIME_EXIT_STAGNATION_MINUTES_MAX = Fin 43200"
definition TIME_EXIT_STAGNATION_BAND_PCT_MIN :: flt where "TIME_EXIT_STAGNATION_BAND_PCT_MIN = Fin (1 / 2)"
definition TIME_EXIT_STAGNATION_BAND_PCT_MAX :: flt where "TIME_EXIT_STAGNATION_BAND_PCT_MAX = Fin 50"
definition PAPER_STARTING_BALANCE_SOL_MIN :: flt where "PAPER_STARTING_BALANCE_SOL_MIN = Fin (1 / 100)"
definition PAPER_STARTING_BALANCE_SOL_MAX :: flt where "PAPER_STARTING_BALANCE_SOL_MAX = Fin 1000"
definition MAX_LANDING_DELAY_MS :: u64 where "MAX_LANDING_DELAY_MS = 30000"
definition READINESS_ROUNDS_MIN :: nat where "READINESS_ROUNDS_MIN = 1"
definition READINESS_ROUNDS_MAX :: nat where "READINESS_ROUNDS_MAX = 500"

lemmas config_constants =
  TAKE_PROFIT_MAX_STEPS_def TAKE_PROFIT_PROFIT_PCT_MIN_def TAKE_PROFIT_PROFIT_PCT_MAX_def
  TAKE_PROFIT_SELL_PCT_MIN_def TAKE_PROFIT_SELL_PCT_MAX_def DCA_MAX_STEPS_def DCA_DROP_PCT_MIN_def
  DCA_DROP_PCT_MAX_def DCA_SIZE_MULTIPLIER_MIN_def DCA_SIZE_MULTIPLIER_MAX_def
  DCA_MIN_HOLD_MINUTES_MIN_def DCA_MIN_HOLD_MINUTES_MAX_def TRAILING_STOP_MAX_BANDS_def
  TRAILING_STOP_BAND_PROFIT_PCT_MIN_def TRAILING_STOP_BAND_PROFIT_PCT_MAX_def
  TRAILING_STOP_BAND_DISTANCE_PCT_MIN_def TRAILING_STOP_BAND_DISTANCE_PCT_MAX_def
  BREAK_EVEN_TRIGGER_PCT_MIN_def BREAK_EVEN_TRIGGER_PCT_MAX_def BREAK_EVEN_OFFSET_PCT_MIN_def
  BREAK_EVEN_OFFSET_PCT_MAX_def TIME_EXIT_STAGNATION_MINUTES_MIN_def
  TIME_EXIT_STAGNATION_MINUTES_MAX_def TIME_EXIT_STAGNATION_BAND_PCT_MIN_def
  TIME_EXIT_STAGNATION_BAND_PCT_MAX_def PAPER_STARTING_BALANCE_SOL_MIN_def
  PAPER_STARTING_BALANCE_SOL_MAX_def MAX_LANDING_DELAY_MS_def READINESS_ROUNDS_MIN_def
  READINESS_ROUNDS_MAX_def

record dca_level =
  dl_drop_pct :: flt
  dl_size_multiplier :: flt

definition add_size_native :: "dca_level \<Rightarrow> flt \<Rightarrow> flt" where
  "add_size_native level first_buy_native = flt_mul first_buy_native (dl_size_multiplier level)"

record trailing_stop_band =
  tsb_profit_pct :: flt
  tsb_distance_pct :: flt

record take_profit_level =
  tpl_profit_pct :: flt
  tpl_sell_pct :: flt

definition sell_all_at :: "flt \<Rightarrow> take_profit_level" where
  "sell_all_at profit_pct = \<lparr>tpl_profit_pct = profit_pct, tpl_sell_pct = TAKE_PROFIT_SELL_PCT_MAX\<rparr>"

section \<open>The section\<close>

record paper_trading_config =
  ptc_starting_balance_sol :: flt
  ptc_landing_delay_ms :: u64
  ptc_readiness_min_closed_rounds :: nat

record trader_config =
  tc_paper :: paper_trading_config
  tc_take_profit_enabled :: bool
  tc_take_profit_levels_pct :: "flt list"
  tc_take_profit_sell_pct :: "flt list"
  tc_time_override_enabled :: bool
  tc_time_override_duration :: flt
  tc_time_override_unit :: time_unit
  tc_time_override_loss_threshold_percent :: flt
  tc_time_exit_stagnation_enabled :: bool
  tc_time_exit_stagnation_minutes :: flt
  tc_time_exit_stagnation_band_pct :: flt
  tc_stop_loss_enabled :: bool
  tc_stop_loss_threshold_pct :: flt
  tc_stop_loss_allow_partial :: bool
  tc_stop_loss_partial_pct :: flt
  tc_stop_loss_min_hold_seconds :: u64
  tc_trailing_stop_enabled :: bool
  tc_trailing_stop_activation_pct :: flt
  tc_trailing_stop_distance_pct :: flt
  tc_trailing_stop_band_profit_pct :: "flt list"
  tc_trailing_stop_band_distance_pct :: "flt list"
  tc_break_even_enabled :: bool
  tc_break_even_trigger_pct :: flt
  tc_break_even_offset_pct :: flt
  tc_dca_enabled :: bool
  tc_dca_levels_pct :: "flt list"
  tc_dca_size_multipliers :: "flt list"
  tc_dca_measure_from :: dca_measure_from
  tc_dca_min_hold_minutes :: i64
  tc_dca_cooldown_minutes :: i64

definition take_profit_levels :: "trader_config \<Rightarrow> take_profit_level list" where
  "take_profit_levels c =
     map (\<lambda>(profit_pct, sell_pct). \<lparr>tpl_profit_pct = profit_pct, tpl_sell_pct = sell_pct\<rparr>)
       (zip (tc_take_profit_levels_pct c) (tc_take_profit_sell_pct c))"

definition trailing_stop_bands :: "trader_config \<Rightarrow> trailing_stop_band list" where
  "trailing_stop_bands c =
     map (\<lambda>(profit_pct, distance_pct). \<lparr>tsb_profit_pct = profit_pct, tsb_distance_pct = distance_pct\<rparr>)
       (zip (tc_trailing_stop_band_profit_pct c) (tc_trailing_stop_band_distance_pct c))"

definition dca_levels :: "trader_config \<Rightarrow> dca_level list" where
  "dca_levels c =
     map (\<lambda>(drop_pct, size_multiplier). \<lparr>dl_drop_pct = drop_pct, dl_size_multiplier = size_multiplier\<rparr>)
       (zip (tc_dca_levels_pct c) (tc_dca_size_multipliers c))"

section \<open>Names\<close>

text \<open>What is written is read back, for both named choices.\<close>

lemma time_unit_round_trip: "time_unit_from_name (time_unit_as_str u) = Some u"
  by (cases u) (simp_all add: time_unit_from_name_def to_lowercase_def)

lemma measure_from_round_trip: "measure_from_of_name (measure_from_as_str b) = Some b"
  by (cases b) (simp_all add: measure_from_of_name_def to_lowercase_def)

lemma to_seconds_Fin: "\<exists>k > 0. \<forall>v. to_seconds u (Fin v) = Fin (v * k)"
  by (cases u) (auto intro: exI [of _ 1] exI [of _ 60] exI [of _ 3600] exI [of _ 86400])

end
