(* ===== verification/Exit_Policy.thy ===== *)
theory Exit_Policy
  imports Trader_Config
begin

text \<open>
  The exit policy of a position, \<open>src/trader/policy.rs\<close>: the rules' settings, read from the trader
  section or overlaid with the overrides of a copy task, and their validation. Reading the task
  of a position out of its database is not modelled; overlaying the overrides it holds is.

  The lemmas show which policies pass validation, and that the overrides of a task never turn a
  valid policy into one that is not.
\<close>

section \<open>Policies\<close>

record stop_loss_policy =
  slp_enabled :: bool
  slp_threshold_pct :: flt
  slp_min_hold_seconds :: u64
  slp_allow_partial :: bool
  slp_partial_exit_default_pct :: flt

record trailing_policy =
  trp_enabled :: bool
  trp_activation_pct :: flt
  trp_distance_pct :: flt
  trp_bands :: "trailing_stop_band list"

record break_even_policy =
  bep_enabled :: bool
  bep_trigger_pct :: flt
  bep_offset_pct :: flt

record take_profit_policy =
  tpp_enabled :: bool
  tpp_levels :: "take_profit_level list"

record time_policy =
  tip_enabled :: bool
  tip_loss_threshold_pct :: flt
  tip_duration_seconds :: flt

record time_stagnation_policy =
  tsp_enabled :: bool
  tsp_duration_seconds :: flt
  tsp_band_pct :: flt

record dca_config_snapshot =
  dcs_enabled :: bool
  dcs_levels :: "dca_level list"
  dcs_measure_from :: dca_measure_from
  dcs_cooldown_minutes :: i64
  dcs_min_hold_minutes :: i64

record exit_policy =
  ep_stop_loss :: stop_loss_policy
  ep_trailing :: trailing_policy
  ep_break_even :: break_even_policy
  ep_take_profit :: take_profit_policy
  ep_time :: time_policy
  ep_time_stagnation :: time_stagnation_policy
  ep_dca :: dca_config_snapshot

definition from_trader_config :: "trader_config \<Rightarrow> exit_policy" where
  "from_trader_config c = \<lparr>
     ep_stop_loss = \<lparr>slp_enabled = tc_stop_loss_enabled c, slp_threshold_pct = tc_stop_loss_threshold_pct c,
       slp_min_hold_seconds = tc_stop_loss_min_hold_seconds c,
       slp_allow_partial = tc_stop_loss_allow_partial c,
       slp_partial_exit_default_pct = tc_stop_loss_partial_pct c\<rparr>,
     ep_trailing = \<lparr>trp_enabled = tc_trailing_stop_enabled c,
       trp_activation_pct = tc_trailing_stop_activation_pct c,
       trp_distance_pct = tc_trailing_stop_distance_pct c, trp_bands = trailing_stop_bands c\<rparr>,
     ep_break_even = \<lparr>bep_enabled = tc_break_even_enabled c, bep_trigger_pct = tc_break_even_trigger_pct c,
       bep_offset_pct = tc_break_even_offset_pct c\<rparr>,
     ep_take_profit = \<lparr>tpp_enabled = tc_take_profit_enabled c, tpp_levels = take_profit_levels c\<rparr>,
     ep_time = \<lparr>tip_enabled = tc_time_override_enabled c,
       tip_loss_threshold_pct = tc_time_override_loss_threshold_percent c,
       tip_duration_seconds = to_seconds (tc_time_override_unit c) (tc_time_override_duration c)\<rparr>,
     ep_time_stagnation = \<lparr>tsp_enabled = tc_time_exit_stagnation_enabled c,
       tsp_duration_seconds = flt_mul (tc_time_exit_stagnation_minutes c) (Fin 60),
       tsp_band_pct = tc_time_exit_stagnation_band_pct c\<rparr>,
     ep_dca = \<lparr>dcs_enabled = tc_dca_enabled c, dcs_levels = dca_levels c,
       dcs_measure_from = tc_dca_measure_from c, dcs_cooldown_minutes = tc_dca_cooldown_minutes c,
       dcs_min_hold_minutes = tc_dca_min_hold_minutes c\<rparr>\<rparr>"

section \<open>Validation\<close>

datatype exit_policy_fault =
    StopLossThreshold flt
  | PartialShare flt
  | TakeProfitTarget flt
  | TrailingActivation flt
  | TrailingDistance flt
  | TrailingDistanceNotBelowActivation flt flt
  | TrailingBandCount nat
  | TrailingBandOrder flt flt
  | TrailingBandDistance flt flt
  | TimeDuration flt
  | TimeLossThreshold flt

definition percent_in_range :: "flt \<Rightarrow> bool" where
  "percent_in_range v \<longleftrightarrow> is_finite v \<and> flt_lt (Fin 0) v \<and> flt_le v (Fin 100)"

definition stop_loss_validate :: "stop_loss_policy \<Rightarrow> exit_policy_fault + unit" where
  "stop_loss_validate p =
     (if slp_enabled p \<and> \<not> percent_in_range (slp_threshold_pct p)
      then Inl (StopLossThreshold (slp_threshold_pct p)) else Inr ())"

text \<open>The loop of \<open>validate_bands\<close>, with the threshold of the band before as its floor.\<close>

fun bands_ascend :: "trailing_stop_band list \<Rightarrow> flt \<Rightarrow> exit_policy_fault + unit" where
  "bands_ascend [] lowest = Inr ()"
| "bands_ascend (band # rest) lowest =
     (if \<not> is_finite (tsb_profit_pct band) \<or> flt_le (tsb_profit_pct band) lowest
      then Inl (TrailingBandOrder (tsb_profit_pct band) lowest)
      else if \<not> is_finite (tsb_distance_pct band) \<or> flt_le (tsb_distance_pct band) (Fin 0)
        \<or> flt_le (tsb_profit_pct band) (tsb_distance_pct band)
      then Inl (TrailingBandDistance (tsb_profit_pct band) (tsb_distance_pct band))
      else bands_ascend rest (tsb_profit_pct band))"

definition validate_bands :: "trailing_policy \<Rightarrow> exit_policy_fault + unit" where
  "validate_bands p =
     (if TRAILING_STOP_MAX_BANDS < length (trp_bands p) then Inl (TrailingBandCount (length (trp_bands p)))
      else bands_ascend (trp_bands p) (trp_activation_pct p))"

definition trailing_validate :: "trailing_policy \<Rightarrow> exit_policy_fault + unit" where
  "trailing_validate p =
     (if \<not> trp_enabled p then Inr ()
      else if \<not> percent_in_range (trp_activation_pct p) then Inl (TrailingActivation (trp_activation_pct p))
      else if \<not> percent_in_range (trp_distance_pct p) then Inl (TrailingDistance (trp_distance_pct p))
      else if flt_le (trp_activation_pct p) (trp_distance_pct p)
      then Inl (TrailingDistanceNotBelowActivation (trp_distance_pct p) (trp_activation_pct p))
      else validate_bands p)"

definition time_validate :: "time_policy \<Rightarrow> exit_policy_fault + unit" where
  "time_validate p =
     (if \<not> tip_enabled p then Inr ()
      else if \<not> is_finite (tip_duration_seconds p) \<or> flt_le (tip_duration_seconds p) (Fin 0)
      then Inl (TimeDuration (tip_duration_seconds p))
      else if \<not> is_finite (tip_loss_threshold_pct p)
        \<or> \<not> (flt_le (Fin (- 100)) (tip_loss_threshold_pct p) \<and> flt_le (tip_loss_threshold_pct p) (Fin 0))
      then Inl (TimeLossThreshold (tip_loss_threshold_pct p))
      else Inr ())"

definition exit_policy_validate :: "exit_policy \<Rightarrow> exit_policy_fault + unit" where
  "exit_policy_validate p =
     and_then (stop_loss_validate (ep_stop_loss p)) (\<lambda>_.
     and_then (trailing_validate (ep_trailing p)) (\<lambda>_.
     time_validate (ep_time p)))"

text \<open>\<open>Iterator::max_by\<close> keeps the later of two equal elements.\<close>

definition highest_band :: "trailing_stop_band list \<Rightarrow> trailing_stop_band option" where
  "highest_band bands =
     fold (\<lambda>band best. case best of
         None \<Rightarrow> Some band
       | Some b \<Rightarrow> if total_le (tsb_profit_pct b) (tsb_profit_pct band) then Some band else Some b) bands None"

definition distance_in_force :: "trailing_policy \<Rightarrow> flt \<Rightarrow> flt" where
  "distance_in_force p peak_profit_pct =
     (case highest_band (filter (\<lambda>band. flt_le (tsb_profit_pct band) peak_profit_pct) (trp_bands p)) of
        None \<Rightarrow> trp_distance_pct p
      | Some band \<Rightarrow> tsb_distance_pct band)"

section \<open>Overrides of a copy task\<close>

record stop_loss_overrides =
  slo_enabled :: "bool option"
  slo_threshold_pct :: "flt option"
  slo_min_hold_seconds :: "u64 option"
  slo_allow_partial :: "bool option"
  slo_partial_exit_default_pct :: "flt option"

record trailing_overrides =
  tro_enabled :: "bool option"
  tro_activation_pct :: "flt option"
  tro_distance_pct :: "flt option"

record roi_overrides =
  roi_enabled :: "bool option"
  roi_target_profit_pct :: "flt option"

record time_overrides =
  tio_enabled :: "bool option"
  tio_loss_threshold_pct :: "flt option"
  tio_duration_seconds :: "flt option"

record exit_overrides =
  eo_stop_loss :: stop_loss_overrides
  eo_trailing :: trailing_overrides
  eo_roi :: roi_overrides
  eo_time :: time_overrides

definition override_with :: "'a \<Rightarrow> 'a option \<Rightarrow> 'a" where
  "override_with target v = (case v of Some x \<Rightarrow> x | None \<Rightarrow> target)"

definition merge_overrides :: "exit_policy \<Rightarrow> exit_overrides \<Rightarrow> exit_policy" where
  "merge_overrides p overrides =
     (let sl = ep_stop_loss p; slo = eo_stop_loss overrides; tr = ep_trailing p; tro = eo_trailing overrides;
          tp = ep_take_profit p; roi = eo_roi overrides; ti = ep_time p; tio = eo_time overrides
      in p\<lparr>ep_stop_loss := sl\<lparr>slp_enabled := override_with (slp_enabled sl) (slo_enabled slo),
             slp_threshold_pct := override_with (slp_threshold_pct sl) (slo_threshold_pct slo),
             slp_min_hold_seconds := override_with (slp_min_hold_seconds sl) (slo_min_hold_seconds slo),
             slp_allow_partial := override_with (slp_allow_partial sl) (slo_allow_partial slo),
             slp_partial_exit_default_pct :=
               override_with (slp_partial_exit_default_pct sl) (slo_partial_exit_default_pct slo)\<rparr>,
           ep_trailing := tr\<lparr>trp_enabled := override_with (trp_enabled tr) (tro_enabled tro),
             trp_activation_pct := override_with (trp_activation_pct tr) (tro_activation_pct tro),
             trp_distance_pct := override_with (trp_distance_pct tr) (tro_distance_pct tro),
             trp_bands := (if tro_activation_pct tro \<noteq> None \<or> tro_distance_pct tro \<noteq> None then []
               else trp_bands tr)\<rparr>,
           ep_take_profit := tp\<lparr>tpp_enabled := override_with (tpp_enabled tp) (roi_enabled roi),
             tpp_levels := (case roi_target_profit_pct roi of
                 Some profit_pct \<Rightarrow> [sell_all_at profit_pct] | None \<Rightarrow> tpp_levels tp)\<rparr>,
           ep_time := ti\<lparr>tip_enabled := override_with (tip_enabled ti) (tio_enabled tio),
             tip_loss_threshold_pct := override_with (tip_loss_threshold_pct ti) (tio_loss_threshold_pct tio),
             tip_duration_seconds := override_with (tip_duration_seconds ti) (tio_duration_seconds tio)\<rparr>\<rparr>)"

definition apply_overrides :: "exit_policy \<Rightarrow> exit_overrides \<Rightarrow> exit_policy" where
  "apply_overrides base overrides =
     (let p = merge_overrides base overrides;
          p = (if isl (stop_loss_validate (ep_stop_loss p)) then p\<lparr>ep_stop_loss := ep_stop_loss base\<rparr> else p);
          p = (if isl (trailing_validate (ep_trailing p)) then p\<lparr>ep_trailing := ep_trailing base\<rparr> else p)
      in if isl (time_validate (ep_time p)) then p\<lparr>ep_time := ep_time base\<rparr> else p)"

definition validate_over :: "exit_overrides \<Rightarrow> exit_policy \<Rightarrow> exit_policy_fault + exit_policy" where
  "validate_over overrides base =
     (let slo = eo_stop_loss overrides; tro = eo_trailing overrides; tio = eo_time overrides in
      and_then (case slo_partial_exit_default_pct slo of
          Some v \<Rightarrow> if is_finite v \<and> flt_lt (Fin 0) v \<and> flt_lt v (Fin 100) then Inr () else Inl (PartialShare v)
        | None \<Rightarrow> Inr ()) (\<lambda>_.
      and_then (case roi_target_profit_pct (eo_roi overrides) of
          Some v \<Rightarrow> if is_finite v \<and> flt_lt (Fin 0) v then Inr () else Inl (TakeProfitTarget v)
        | None \<Rightarrow> Inr ()) (\<lambda>_.
      let merged = merge_overrides base overrides;
          sl = ep_stop_loss merged; tr = ep_trailing merged; ti = ep_time merged;
          checked = merged\<lparr>
            ep_stop_loss := sl\<lparr>slp_enabled := slp_enabled sl \<or> slo_threshold_pct slo \<noteq> None\<rparr>,
            ep_trailing := tr\<lparr>trp_enabled := trp_enabled tr \<or> tro_activation_pct tro \<noteq> None
              \<or> tro_distance_pct tro \<noteq> None\<rparr>,
            ep_time := ti\<lparr>tip_enabled := tip_enabled ti \<or> tio_loss_threshold_pct tio \<noteq> None
              \<or> tio_duration_seconds tio \<noteq> None\<rparr>\<rparr> in
      and_then (exit_policy_validate checked) (\<lambda>_. Inr merged))))"


section \<open>Lemmas\<close>

lemma percent_in_range_iff: "percent_in_range v \<longleftrightarrow> (\<exists>r. v = Fin r \<and> 0 < r \<and> r \<le> 100)"
  by (cases v) (auto simp: percent_in_range_def)

lemma stop_loss_validate_ok:
  "stop_loss_validate p = Inr () \<longleftrightarrow> (slp_enabled p \<longrightarrow> percent_in_range (slp_threshold_pct p))"
  by (simp add: stop_loss_validate_def)

lemma time_validate_ok:
  "time_validate p = Inr () \<longleftrightarrow> (tip_enabled p \<longrightarrow>
     (\<exists>d l. tip_duration_seconds p = Fin d \<and> 0 < d \<and> tip_loss_threshold_pct p = Fin l \<and> - 100 \<le> l \<and> l \<le> 0))"
  by (cases "tip_duration_seconds p"; cases "tip_loss_threshold_pct p") (auto simp: time_validate_def)

text \<open>The bands that pass: finite, strictly ascending above the floor, each with room to trail in.\<close>

lemma bands_ascend_ok:
  assumes "bands_ascend bands (Fin lowest) = Inr ()" and "band \<in> set bands"
  shows "\<exists>p d. tsb_profit_pct band = Fin p \<and> lowest < p \<and> tsb_distance_pct band = Fin d \<and> 0 < d \<and> d < p"
  using assms
proof (induction bands "Fin lowest" arbitrary: lowest rule: bands_ascend.induct)
  case (2 b rest)
  from 2(2) obtain p d where b: "tsb_profit_pct b = Fin p" "tsb_distance_pct b = Fin d"
    "lowest < p" "0 < d" "d < p" "bands_ascend rest (Fin p) = Inr ()"
    by (cases "tsb_profit_pct b"; cases "tsb_distance_pct b") (auto split: if_splits)
  then show ?case using 2(1) [of p] 2(3) by fastforce
qed simp

lemma validate_bands_ok:
  assumes "validate_bands p = Inr ()" and "trp_activation_pct p = Fin a" and "band \<in> set (trp_bands p)"
  shows "\<exists>r d. tsb_profit_pct band = Fin r \<and> a < r \<and> tsb_distance_pct band = Fin d \<and> 0 < d \<and> d < r"
  using assms bands_ascend_ok by (auto simp: validate_bands_def split: if_splits)

lemma trailing_validate_ok:
  assumes "trailing_validate p = Inr ()" and "trp_enabled p"
  obtains a d where "trp_activation_pct p = Fin a" and "trp_distance_pct p = Fin d"
    and "0 < d" and "d < a" and "a \<le> 100" and "validate_bands p = Inr ()"
  using assms by (auto simp: trailing_validate_def percent_in_range_iff split: if_splits)

text \<open>The band in force is one of the policy's that the peak has reached, and none reached is higher.\<close>

definition keep_higher :: "trailing_stop_band \<Rightarrow> trailing_stop_band option \<Rightarrow> trailing_stop_band option" where
  "keep_higher band best = (case best of
         None \<Rightarrow> Some band
       | Some b \<Rightarrow> if total_le (tsb_profit_pct b) (tsb_profit_pct band) then Some band else Some b)"

lemma keep_higher_fold:
  "\<exists>b. fold keep_higher bands (Some b0) = Some b \<and> b \<in> insert b0 (set bands)
     \<and> (\<forall>x \<in> insert b0 (set bands). total_le (tsb_profit_pct x) (tsb_profit_pct b))"
proof (induction bands arbitrary: b0)
  case (Cons c bands)
  define best where "best = (if total_le (tsb_profit_pct b0) (tsb_profit_pct c) then c else b0)"
  have best: "total_le (tsb_profit_pct b0) (tsb_profit_pct best)" "total_le (tsb_profit_pct c) (tsb_profit_pct best)"
    "best \<in> {b0, c}" using total_le_linear by (auto simp: best_def)
  have step: "fold keep_higher (c # bands) (Some b0) = fold keep_higher bands (Some best)"
    by (simp add: keep_higher_def best_def)
  obtain b where b: "fold keep_higher bands (Some best) = Some b" "b \<in> insert best (set bands)"
    "\<forall>x \<in> insert best (set bands). total_le (tsb_profit_pct x) (tsb_profit_pct b)"
    using Cons.IH [of best] by blast
  have "total_le (tsb_profit_pct b0) (tsb_profit_pct b)" "total_le (tsb_profit_pct c) (tsb_profit_pct b)"
    using best b(3) total_le_trans by blast+
  then show ?case using b best(3) unfolding step by auto
qed (use total_le_refl in simp)

lemma highest_band_spec:
  "(highest_band bands = None \<longleftrightarrow> bands = [])
   \<and> (\<forall>b. highest_band bands = Some b \<longrightarrow> b \<in> set bands
        \<and> (\<forall>x \<in> set bands. total_le (tsb_profit_pct x) (tsb_profit_pct b)))"
proof (cases bands)
  case (Cons c rest)
  have "highest_band bands = fold keep_higher rest (Some c)"
    by (simp add: highest_band_def keep_higher_def [abs_def] Cons)
  then show ?thesis using keep_higher_fold [of rest c] Cons by auto
qed (simp add: highest_band_def)

lemma distance_in_force_cases:
  obtains (base) "distance_in_force p peak = trp_distance_pct p"
      "\<And>x. x \<in> set (trp_bands p) \<Longrightarrow> \<not> flt_le (tsb_profit_pct x) peak"
    | (band) b where "distance_in_force p peak = tsb_distance_pct b" "b \<in> set (trp_bands p)"
        "flt_le (tsb_profit_pct b) peak"
        "\<And>x. x \<in> set (trp_bands p) \<Longrightarrow> flt_le (tsb_profit_pct x) peak
          \<Longrightarrow> total_le (tsb_profit_pct x) (tsb_profit_pct b)"
proof (cases "highest_band (filter (\<lambda>b. flt_le (tsb_profit_pct b) peak) (trp_bands p))")
  case None
  then have "filter (\<lambda>b. flt_le (tsb_profit_pct b) peak) (trp_bands p) = []" using highest_band_spec by blast
  then have "\<And>x. x \<in> set (trp_bands p) \<Longrightarrow> \<not> flt_le (tsb_profit_pct x) peak"
    by (simp add: filter_empty_conv)
  then show ?thesis using base None by (simp add: distance_in_force_def)
next
  case (Some b)
  then have "b \<in> set (filter (\<lambda>b. flt_le (tsb_profit_pct b) peak) (trp_bands p))"
    and "\<forall>x \<in> set (filter (\<lambda>b. flt_le (tsb_profit_pct b) peak) (trp_bands p)).
      total_le (tsb_profit_pct x) (tsb_profit_pct b)" using highest_band_spec by blast+
  then show ?thesis using band [of b] Some by (simp add: distance_in_force_def)
qed

section \<open>Overrides\<close>

text \<open>Switching a rule on can only make its validation stricter.\<close>

lemma validate_when_on:
  "stop_loss_validate (s\<lparr>slp_enabled := slp_enabled s \<or> x\<rparr>) = Inr () \<Longrightarrow> stop_loss_validate s = Inr ()"
  "trailing_validate (t\<lparr>trp_enabled := trp_enabled t \<or> x\<rparr>) = Inr () \<Longrightarrow> trailing_validate t = Inr ()"
  "time_validate (u\<lparr>tip_enabled := tip_enabled u \<or> x\<rparr>) = Inr () \<Longrightarrow> time_validate u = Inr ()"
  by (auto simp: stop_loss_validate_def trailing_validate_def validate_bands_def time_validate_def split: if_splits)

lemma exit_policy_validate_ok:
  "exit_policy_validate p = Inr () \<longleftrightarrow> stop_loss_validate (ep_stop_loss p) = Inr ()
     \<and> trailing_validate (ep_trailing p) = Inr () \<and> time_validate (ep_time p) = Inr ()"
  by (auto simp: exit_policy_validate_def)

lemma isl_unit_iff: "\<not> isl (r :: 'e + unit) \<longleftrightarrow> r = Inr ()"
  by (cases r) auto

text \<open>Each rule of the overlaid policy is the task's where that is valid, else the base's.\<close>

lemma apply_overrides_rules:
  "ep_stop_loss (apply_overrides base o') = (if stop_loss_validate (ep_stop_loss (merge_overrides base o')) = Inr ()
     then ep_stop_loss (merge_overrides base o') else ep_stop_loss base)"
  "ep_trailing (apply_overrides base o') = (if trailing_validate (ep_trailing (merge_overrides base o')) = Inr ()
     then ep_trailing (merge_overrides base o') else ep_trailing base)"
  "ep_time (apply_overrides base o') = (if time_validate (ep_time (merge_overrides base o')) = Inr ()
     then ep_time (merge_overrides base o') else ep_time base)"
  "ep_take_profit (apply_overrides base o') = ep_take_profit (merge_overrides base o')"
  "ep_break_even (apply_overrides base o') = ep_break_even base"
  "ep_time_stagnation (apply_overrides base o') = ep_time_stagnation base"
  "ep_dca (apply_overrides base o') = ep_dca base"
  by (auto simp: apply_overrides_def Let_def isl_unit_iff [symmetric] merge_overrides_def)

section \<open>Properties\<close>

text \<open>
  Overlaying a copy task's overrides never breaks a policy: a valid policy stays valid
  whatever the task holds, the rules a task cannot override keep their settings, and each rule it
  can override is wholly the task's or wholly the base's.
\<close>

theorem overrides_keep_valid:
  assumes "exit_policy_validate base = Inr ()"
  shows "exit_policy_validate (apply_overrides base overrides) = Inr ()
    \<and> ep_break_even (apply_overrides base overrides) = ep_break_even base
    \<and> ep_time_stagnation (apply_overrides base overrides) = ep_time_stagnation base
    \<and> ep_dca (apply_overrides base overrides) = ep_dca base
    \<and> ep_stop_loss (apply_overrides base overrides)
        \<in> {ep_stop_loss (merge_overrides base overrides), ep_stop_loss base}
    \<and> ep_trailing (apply_overrides base overrides)
        \<in> {ep_trailing (merge_overrides base overrides), ep_trailing base}
    \<and> ep_time (apply_overrides base overrides) \<in> {ep_time (merge_overrides base overrides), ep_time base}"
  using assms unfolding exit_policy_validate_ok by (simp add: apply_overrides_rules)

text \<open>
  A task whose overrides pass their check is run with exactly those overrides: overlaying them
  on the policy they were checked against drops none of them.
\<close>

theorem accepted_overrides_apply:
  assumes "validate_over overrides base = Inr p"
  shows "apply_overrides base overrides = p \<and> p = merge_overrides base overrides \<and> exit_policy_validate p = Inr ()"
proof -
  let ?m = "merge_overrides base overrides"
  have p: "p = ?m" using assms by (auto simp: validate_over_def Let_def)
  have valid: "stop_loss_validate (ep_stop_loss ?m) = Inr ()" "trailing_validate (ep_trailing ?m) = Inr ()"
    "time_validate (ep_time ?m) = Inr ()"
    using assms validate_when_on by (auto simp: validate_over_def Let_def exit_policy_validate_ok)
  then have "apply_overrides base overrides = ?m" by (simp add: apply_overrides_def Let_def isl_unit_iff [symmetric])
  then show ?thesis using p valid by (simp add: exit_policy_validate_ok)
qed

text \<open>A policy with every rule on, and a task that narrows its stop loss and trails at its own distance.\<close>

definition sample_exit_policy :: exit_policy where
  "sample_exit_policy = \<lparr>
     ep_stop_loss = \<lparr>slp_enabled = True, slp_threshold_pct = Fin 50, slp_min_hold_seconds = 0,
       slp_allow_partial = True, slp_partial_exit_default_pct = Fin 25\<rparr>,
     ep_trailing = \<lparr>trp_enabled = True, trp_activation_pct = Fin 20, trp_distance_pct = Fin 10,
       trp_bands = [\<lparr>tsb_profit_pct = Fin 50, tsb_distance_pct = Fin 8\<rparr>]\<rparr>,
     ep_break_even = \<lparr>bep_enabled = True, bep_trigger_pct = Fin 15, bep_offset_pct = Fin 1\<rparr>,
     ep_take_profit = \<lparr>tpp_enabled = True, tpp_levels = [sell_all_at (Fin 200)]\<rparr>,
     ep_time = \<lparr>tip_enabled = True, tip_loss_threshold_pct = Fin (- 40), tip_duration_seconds = Fin 3600\<rparr>,
     ep_time_stagnation = \<lparr>tsp_enabled = True, tsp_duration_seconds = Fin 14400, tsp_band_pct = Fin 5\<rparr>,
     ep_dca = \<lparr>dcs_enabled = False, dcs_levels = [], dcs_measure_from = MeasureAverage, dcs_cooldown_minutes = 30,
       dcs_min_hold_minutes = 0\<rparr>\<rparr>"

definition sample_overrides :: "flt \<Rightarrow> exit_overrides" where
  "sample_overrides distance = \<lparr>
     eo_stop_loss = \<lparr>slo_enabled = None, slo_threshold_pct = Some (Fin 30), slo_min_hold_seconds = None,
       slo_allow_partial = None, slo_partial_exit_default_pct = None\<rparr>,
     eo_trailing = \<lparr>tro_enabled = None, tro_activation_pct = None, tro_distance_pct = Some distance\<rparr>,
     eo_roi = \<lparr>roi_enabled = None, roi_target_profit_pct = None\<rparr>,
     eo_time = \<lparr>tio_enabled = None, tio_loss_threshold_pct = None, tio_duration_seconds = None\<rparr>\<rparr>"

lemma sample_exit_policy_valid: "exit_policy_validate sample_exit_policy = Inr ()"
  by (simp add: exit_policy_validate_ok sample_exit_policy_def stop_loss_validate_ok time_validate_ok
      trailing_validate_def percent_in_range_iff validate_bands_def TRAILING_STOP_MAX_BANDS_def)

text \<open>A distance above the activation is dropped with its rule; the stop loss of the task still applies.\<close>

theorem overrides_keep_valid_witness:
  "exit_policy_validate (apply_overrides sample_exit_policy (sample_overrides (Fin 25))) = Inr ()
   \<and> trp_distance_pct (ep_trailing (apply_overrides sample_exit_policy (sample_overrides (Fin 25)))) = Fin 10
   \<and> slp_threshold_pct (ep_stop_loss (apply_overrides sample_exit_policy (sample_overrides (Fin 25)))) = Fin 30"
  using overrides_keep_valid [OF sample_exit_policy_valid, of "sample_overrides (Fin 25)"]
  by (simp add: apply_overrides_rules merge_overrides_def sample_exit_policy_def sample_overrides_def override_with_def
      stop_loss_validate_ok trailing_validate_def percent_in_range_iff)

theorem accepted_overrides_apply_witness:
  "\<exists>p. validate_over (sample_overrides (Fin 12)) sample_exit_policy = Inr p
     \<and> apply_overrides sample_exit_policy (sample_overrides (Fin 12)) = p
     \<and> trp_distance_pct (ep_trailing p) = Fin 12"
proof -
  have "validate_over (sample_overrides (Fin 12)) sample_exit_policy
      = Inr (merge_overrides sample_exit_policy (sample_overrides (Fin 12)))"
    by (simp add: validate_over_def Let_def exit_policy_validate_def stop_loss_validate_def trailing_validate_def
        time_validate_def percent_in_range_iff validate_bands_def merge_overrides_def override_with_def sample_overrides_def
        sample_exit_policy_def)
  from this accepted_overrides_apply [OF this] show ?thesis
    by (simp add: merge_overrides_def sample_overrides_def override_with_def)
qed

end
