(* ===== verification/Exit_Rules.thy ===== *)
theory Exit_Rules
  imports Exit_Policy
begin

text \<open>
  The built-in exit rules of a position and their one order: \<open>src/trader/evaluators/exit_stop_loss.rs\<close>,
  \<open>exit_trailing.rs\<close>, \<open>exit_break_even.rs\<close>, \<open>exit_take_profit.rs\<close>, \<open>exit_time.rs\<close>,
  \<open>exit_time_stagnation.rs\<close> and \<open>exit_rules.rs\<close>. Prices and percentages are floating-point values
  of which the finite ones are exact reals.

  The lemmas characterise on which prices each rule fires, show that the order picks the first
  admitted rule, and that a take-profit ladder sells exactly its configured shares.
\<close>

section \<open>Errors\<close>

text \<open>The variant of the trader's error that the exit rules return, with its detail unfilled.\<close>

datatype trader_error = InvalidExitPolicy string

fun fault_text :: "exit_policy_fault \<Rightarrow> string" where
  "fault_text (StopLossThreshold _) = ''stop loss threshold must be greater than 0 and at most 100, got {value}''"
| "fault_text (PartialShare _) = ''partial stop loss share must be between 0 and 100 (exclusive), got {value}''"
| "fault_text (TakeProfitTarget _) = ''take-profit target must be greater than 0, got {value}''"
| "fault_text (TrailingActivation _) = ''trailing stop activation must be greater than 0 and at most 100, got {value}''"
| "fault_text (TrailingDistance _) = ''trailing stop distance must be greater than 0 and at most 100, got {value}''"
| "fault_text (TrailingDistanceNotBelowActivation _ _) =
     ''trailing stop distance ({distance:.1}%) must be less than its activation ({activation:.1}%)''"
| "fault_text (TrailingBandCount _) = ''trailing stop holds {count} bands, at most {maximum} are allowed''"
| "fault_text (TrailingBandOrder _ _) =
     ''trailing stop band at {profit}% must sit above the activation and the band before it ({floor}%)''"
| "fault_text (TrailingBandDistance _ _) =
     ''trailing stop band at {profit}% must trail by more than 0 and less than its threshold, got {distance}%''"
| "fault_text (TimeDuration _) = ''time override duration must be greater than 0, got {seconds} seconds''"
| "fault_text (TimeLossThreshold _) = ''time override loss threshold must be between -100 and 0, got {value}''"

definition from_fault :: "exit_policy_fault + 'a \<Rightarrow> trader_error + 'a" where
  "from_fault r = (case r of Inl fault \<Rightarrow> Inl (InvalidExitPolicy (fault_text fault)) | Inr x \<Rightarrow> Inr x)"

section \<open>The rules\<close>

definition stop_loss_exit :: "flt \<Rightarrow> flt \<Rightarrow> i64 \<Rightarrow> bool \<Rightarrow> stop_loss_policy \<Rightarrow> flt option option" where
  "stop_loss_exit entry_price current_price held_seconds already_partially_exited p =
     (if \<not> slp_enabled p \<or> \<not> is_finite entry_price \<or> flt_le entry_price (Fin 0) then None
      else if 0 < slp_min_hold_seconds p \<and> held_seconds < sint (slp_min_hold_seconds p) then None
      else let loss_pct = flt_mul (flt_div (flt_sub entry_price current_price) entry_price) (Fin 100) in
        if flt_lt loss_pct (slp_threshold_pct p) then None
        else Some (if slp_allow_partial p \<and> \<not> already_partially_exited
               then Some (slp_partial_exit_default_pct p) else None))"

definition trailing_stop_triggered :: "flt \<Rightarrow> flt \<Rightarrow> flt \<Rightarrow> trailing_policy \<Rightarrow> trader_error + bool" where
  "trailing_stop_triggered entry_price peak_price current_price p =
     (if flt_le peak_price (Fin 0) \<or> \<not> trp_enabled p then Inr False
      else and_then (from_fault (trailing_validate p)) (\<lambda>_.
        if flt_le entry_price (Fin 0) \<or> \<not> is_finite entry_price then Inr False
        else
          let peak_profit_pct = flt_mul (flt_sub (flt_div peak_price entry_price) (Fin 1)) (Fin 100) in
          if flt_lt peak_profit_pct (trp_activation_pct p) then Inr False
          else
            let stop_price = flt_mul peak_price
                  (flt_sub (Fin 1) (flt_div (distance_in_force p peak_profit_pct) (Fin 100)));
                current_profit_pct = flt_mul (flt_sub (flt_div current_price entry_price) (Fin 1)) (Fin 100)
            in Inr (flt_le current_price stop_price \<and> flt_lt (Fin 0) current_profit_pct)))"

definition break_even_triggered :: "flt \<Rightarrow> flt \<Rightarrow> flt \<Rightarrow> break_even_policy \<Rightarrow> trader_error + bool" where
  "break_even_triggered entry_price peak_price current_price p =
     (if \<not> bep_enabled p then Inr False
      else let trigger_pct = bep_trigger_pct p; offset_pct = bep_offset_pct p in
        if \<not> is_finite trigger_pct \<or> \<not> is_finite offset_pct \<or> flt_le trigger_pct (Fin 0)
          \<or> flt_lt offset_pct (Fin 0) \<or> flt_le trigger_pct offset_pct
        then Inl (InvalidExitPolicy
          ''invalid break-even stop config: offset_pct ({offset_pct}%) must be at least 0 and less than trigger_pct ({trigger_pct}%)'')
        else if \<not> usable entry_price \<or> \<not> usable peak_price \<or> \<not> usable current_price then Inr False
        else if flt_lt peak_price (flt_mul entry_price (flt_add (Fin 1) (flt_div trigger_pct (Fin 100)))) then Inr False
        else Inr (flt_le current_price (flt_mul entry_price (flt_add (Fin 1) (flt_div offset_pct (Fin 100))))))"

definition FULL_EXIT_TOLERANCE_PCT :: real where "FULL_EXIT_TOLERANCE_PCT = 1 / 10 ^ 6"
definition TAKE_PROFIT_SHARE_SUM_TOLERANCE_PCT :: real where "TAKE_PROFIT_SHARE_SUM_TOLERANCE_PCT = 1 / 10 ^ 9"
definition PROFIT_LEVEL_TOLERANCE_PCT :: real where "PROFIT_LEVEL_TOLERANCE_PCT = 1 / 10 ^ 9"

definition flt_sum :: "flt list \<Rightarrow> flt" where
  "flt_sum vs = foldl flt_add (Fin 0) vs"

definition take_profit_step :: "flt \<Rightarrow> flt \<Rightarrow> u32 \<Rightarrow> take_profit_policy \<Rightarrow> trader_error + flt option option" where
  "take_profit_step entry_price current_price steps_taken p =
     (if \<not> tpp_enabled p \<or> \<not> usable entry_price \<or> \<not> usable current_price then Inr None
      else let index = unat steps_taken in
        if \<not> index < length (tpp_levels p) then Inr None
        else let step = tpp_levels p ! index in
          if flt_lt (flt_add (flt_mul (flt_sub (flt_div current_price entry_price) (Fin 1)) (Fin 100))
               (Fin PROFIT_LEVEL_TOLERANCE_PCT)) (tpl_profit_pct step)
          then Inr None
          else let sold_before = flt_sum (map tpl_sell_pct (take index (tpp_levels p)));
                   left_pct = flt_sub (Fin 100) sold_before in
            if \<not> is_finite left_pct \<or> flt_le left_pct (Fin 0) \<or> \<not> is_finite (tpl_sell_pct step)
              \<or> flt_le (tpl_sell_pct step) (Fin 0)
            then Inl (InvalidExitPolicy
              ''invalid take-profit ladder: step {} sells {}% with {left_pct}% of the position left'')
            else let share_of_left = flt_mul (flt_div (tpl_sell_pct step) left_pct) (Fin 100) in
              Inr (Some (if flt_lt share_of_left (Fin (100 - FULL_EXIT_TOLERANCE_PCT))
                then Some share_of_left else None)))"

definition time_override_triggered :: "flt \<Rightarrow> flt \<Rightarrow> i64 \<Rightarrow> time_policy \<Rightarrow> trader_error + bool" where
  "time_override_triggered entry_price current_price held_seconds p =
     (if \<not> tip_enabled p then Inr False
      else and_then (from_fault (time_validate p)) (\<lambda>_.
        if flt_lt (Fin (real_of_int held_seconds)) (tip_duration_seconds p)
          \<or> flt_le entry_price (Fin 0) \<or> \<not> is_finite entry_price
        then Inr False
        else let pnl_pct = flt_mul (flt_div (flt_sub current_price entry_price) entry_price) (Fin 100) in
          Inr (flt_le pnl_pct (tip_loss_threshold_pct p))))"

definition stagnation_triggered :: "flt \<Rightarrow> flt \<Rightarrow> i64 \<Rightarrow> time_stagnation_policy \<Rightarrow> trader_error + bool" where
  "stagnation_triggered entry_price current_price held_seconds p =
     (if \<not> tsp_enabled p then Inr False
      else let duration_seconds = tsp_duration_seconds p; band_pct = tsp_band_pct p in
        if \<not> is_finite duration_seconds \<or> flt_le duration_seconds (Fin 0)
        then Inl (InvalidExitPolicy ''invalid stagnation exit duration: {duration_seconds} seconds'')
        else if \<not> is_finite band_pct \<or> flt_le band_pct (Fin 0)
        then Inl (InvalidExitPolicy ''invalid stagnation exit band: {band_pct}%'')
        else if held_seconds < 0 \<or> \<not> usable entry_price \<or> \<not> usable current_price then Inr False
        else if flt_lt (Fin (real_of_int held_seconds)) duration_seconds then Inr False
        else let lower = flt_mul entry_price (flt_sub (Fin 1) (flt_div band_pct (Fin 100)));
                 upper = flt_mul entry_price (flt_add (Fin 1) (flt_div band_pct (Fin 100)))
             in Inr (flt_le lower current_price \<and> flt_le current_price upper))"

section \<open>The order\<close>

record exit_inputs =
  ei_average_entry_price :: flt
  ei_current_price :: flt
  ei_basis_peak_price :: flt
  ei_held_seconds :: i64
  ei_partial_exits_taken :: bool
  ei_take_profit_levels_taken :: u32

datatype exit_rule = StopLoss | Trailing | BreakEven | TakeProfit u32 | TimeLoss | TimeStagnation

type_synonym rule_result = "trader_error + flt option option"
type_synonym rule_check = "exit_inputs \<Rightarrow> exit_policy \<Rightarrow> exit_rule \<times> rule_result"

text \<open>\<open>triggered.then_some(None)\<close>: a rule without a share sells everything.\<close>

definition sells_all :: "trader_error + bool \<Rightarrow> rule_result" where
  "sells_all r = and_then r (\<lambda>triggered. Inr (if triggered then Some None else None))"

definition check_stop_loss :: rule_check where
  "check_stop_loss inputs p = (StopLoss,
     Inr (stop_loss_exit (ei_average_entry_price inputs) (ei_current_price inputs) (ei_held_seconds inputs)
       (ei_partial_exits_taken inputs) (ep_stop_loss p)))"

definition check_trailing :: rule_check where
  "check_trailing inputs p = (Trailing,
     sells_all (trailing_stop_triggered (ei_average_entry_price inputs) (ei_basis_peak_price inputs)
       (ei_current_price inputs) (ep_trailing p)))"

definition check_break_even :: rule_check where
  "check_break_even inputs p = (BreakEven,
     sells_all (break_even_triggered (ei_average_entry_price inputs) (ei_basis_peak_price inputs)
       (ei_current_price inputs) (ep_break_even p)))"

definition check_take_profit :: rule_check where
  "check_take_profit inputs p =
     (TakeProfit (saturating_add (ei_take_profit_levels_taken inputs) 1),
      take_profit_step (ei_average_entry_price inputs) (ei_current_price inputs)
        (ei_take_profit_levels_taken inputs) (ep_take_profit p))"

definition check_time_loss :: rule_check where
  "check_time_loss inputs p = (TimeLoss,
     sells_all (time_override_triggered (ei_average_entry_price inputs) (ei_current_price inputs)
       (ei_held_seconds inputs) (ep_time p)))"

definition check_time_stagnation :: rule_check where
  "check_time_stagnation inputs p = (TimeStagnation,
     sells_all (stagnation_triggered (ei_average_entry_price inputs) (ei_current_price inputs)
       (ei_held_seconds inputs) (ep_time_stagnation p)))"

definition RULE_ORDER :: "rule_check list" where
  "RULE_ORDER = [check_stop_loss, check_trailing, check_break_even, check_take_profit, check_time_loss,
     check_time_stagnation]"

record rule_outcome =
  ro_rule :: exit_rule
  ro_exit_percentage :: "flt option"

record exit_decision =
  ed_outcome :: "rule_outcome option"
  ed_rule_errors :: "(exit_rule \<times> trader_error) list"

text \<open>The loop of \<open>decide_admitting\<close>.\<close>

fun run_checks ::
  "exit_inputs \<Rightarrow> exit_policy \<Rightarrow> (rule_outcome \<Rightarrow> bool) \<Rightarrow> rule_check list \<Rightarrow> exit_decision \<Rightarrow> exit_decision" where
  "run_checks inputs p admit [] decision = decision"
| "run_checks inputs p admit (check # rest) decision =
     (case check inputs p of
        (rule, Inr (Some exit_percentage)) \<Rightarrow>
          let outcome = \<lparr>ro_rule = rule, ro_exit_percentage = exit_percentage\<rparr> in
          if admit outcome then decision\<lparr>ed_outcome := Some outcome\<rparr>
          else run_checks inputs p admit rest decision
      | (rule, Inr None) \<Rightarrow> run_checks inputs p admit rest decision
      | (rule, Inl e) \<Rightarrow>
          run_checks inputs p admit rest (decision\<lparr>ed_rule_errors := ed_rule_errors decision @ [(rule, e)]\<rparr>))"

definition decide_admitting :: "exit_inputs \<Rightarrow> exit_policy \<Rightarrow> (rule_outcome \<Rightarrow> bool) \<Rightarrow> exit_decision" where
  "decide_admitting inputs p admit =
     (let decision = \<lparr>ed_outcome = None, ed_rule_errors = []\<rparr> in
      if \<not> is_finite (ei_current_price inputs) \<or> flt_le (ei_current_price inputs) (Fin 0) then decision
      else run_checks inputs p admit RULE_ORDER decision)"

definition decide :: "exit_inputs \<Rightarrow> exit_policy \<Rightarrow> exit_decision" where
  "decide inputs p = decide_admitting inputs p (\<lambda>_. True)"

section \<open>The first rule that fires\<close>

fun outcome_of :: "exit_rule \<times> rule_result \<Rightarrow> rule_outcome option" where
  "outcome_of (rule, Inr (Some exit_percentage)) = Some \<lparr>ro_rule = rule, ro_exit_percentage = exit_percentage\<rparr>"
| "outcome_of _ = None"

fun error_of :: "exit_rule \<times> rule_result \<Rightarrow> (exit_rule \<times> trader_error) list" where
  "error_of (rule, Inl e) = [(rule, e)]"
| "error_of _ = []"

definition passes :: "exit_inputs \<Rightarrow> exit_policy \<Rightarrow> (rule_outcome \<Rightarrow> bool) \<Rightarrow> rule_check \<Rightarrow> bool" where
  "passes inputs p admit check \<longleftrightarrow>
     (case outcome_of (check inputs p) of None \<Rightarrow> True | Some outcome \<Rightarrow> \<not> admit outcome)"

definition errors_in :: "exit_inputs \<Rightarrow> exit_policy \<Rightarrow> rule_check list \<Rightarrow> (exit_rule \<times> trader_error) list" where
  "errors_in inputs p checks = concat (map (\<lambda>check. error_of (check inputs p)) checks)"

lemma run_checks_value:
  "run_checks inputs p admit checks decision =
     (let seen = takeWhile (passes inputs p admit) checks;
          found = (case dropWhile (passes inputs p admit) checks of [] \<Rightarrow> ed_outcome decision
            | check # _ \<Rightarrow> outcome_of (check inputs p))
      in decision\<lparr>ed_outcome := found, ed_rule_errors := ed_rule_errors decision @ errors_in inputs p seen\<rparr>)"
proof (induction inputs p admit checks decision rule: run_checks.induct)
  case (2 inputs p admit check rest decision)
  obtain rule r where c: "check inputs p = (rule, r)" by fastforce
  show ?case
  proof (cases r)
    case (Inl e)
    then have "passes inputs p admit check" by (simp add: passes_def c)
    then show ?thesis
      using 2 Inl by (cases "dropWhile (passes inputs p admit) rest") (simp_all add: c errors_in_def Let_def del: dropWhile_eq_Nil_conv)
  next
    case (Inr fired)
    then show ?thesis using 2 by (cases fired) (auto simp: c passes_def errors_in_def Let_def)
  qed
qed (simp add: errors_in_def Let_def)

lemma decide_admitting_value:
  assumes "usable (ei_current_price inputs)"
  shows "decide_admitting inputs p admit =
     \<lparr>ed_outcome = (case dropWhile (passes inputs p admit) RULE_ORDER of [] \<Rightarrow> None
        | check # _ \<Rightarrow> outcome_of (check inputs p)),
      ed_rule_errors = errors_in inputs p (takeWhile (passes inputs p admit) RULE_ORDER)\<rparr>"
  using assms
  by (cases "dropWhile (passes inputs p admit) RULE_ORDER")
    (auto simp: decide_admitting_def run_checks_value Let_def usable_iff simp del: dropWhile_eq_Nil_conv)

lemma decide_unusable:
  "\<not> usable (ei_current_price inputs) \<Longrightarrow> decide_admitting inputs p admit = \<lparr>ed_outcome = None, ed_rule_errors = []\<rparr>"
  by (cases "ei_current_price inputs") (auto simp: decide_admitting_def Let_def)

text \<open>Whatever rule an outcome names, that rule fired on these inputs and the caller admitted it.\<close>

lemma decided_rule_fired:
  assumes "ed_outcome (decide_admitting inputs p admit) = Some outcome"
  obtains check where "check \<in> set RULE_ORDER" and "admit outcome" and "usable (ei_current_price inputs)"
    and "check inputs p = (ro_rule outcome, Inr (Some (ro_exit_percentage outcome)))"
proof -
  have u: "usable (ei_current_price inputs)"
    using assms by (rule contrapos_pp) (simp add: decide_unusable)
  obtain check post where d: "dropWhile (passes inputs p admit) RULE_ORDER = check # post"
    and o: "outcome_of (check inputs p) = Some outcome"
    using assms unfolding decide_admitting_value [OF u] by (auto split: list.splits)
  have "\<not> passes inputs p admit check" using d by (metis dropWhile_eq_Cons_conv)
  moreover have "check \<in> set RULE_ORDER" using d by (metis list.set_intros(1) set_dropWhileD)
  moreover have "check inputs p = (ro_rule outcome, Inr (Some (ro_exit_percentage outcome)))"
    using o by (cases "check inputs p" rule: outcome_of.cases) auto
  moreover have "admit outcome" using \<open>\<not> passes inputs p admit check\<close> by (simp only: passes_def o option.case not_not)
  ultimately show ?thesis using that u by blast
qed

section \<open>When a rule fires\<close>

lemma loss_pct_real:
  "0 < e \<Longrightarrow> flt_mul (flt_div (flt_sub (Fin e) (Fin c)) (Fin e)) (Fin 100) = Fin ((e - c) / e * 100)"
  by simp

lemma loss_reaches: "0 < e \<Longrightarrow> t \<le> (e - c) / e * 100 \<longleftrightarrow> c \<le> e * (1 - t / 100)" for e c t :: real
  by (simp add: field_simps)

lemma stop_loss_fires_iff:
  assumes "slp_threshold_pct p = Fin t" and "0 < e"
  shows "stop_loss_exit (Fin e) (Fin c) held taken p =
     (if slp_enabled p \<and> (slp_min_hold_seconds p = 0 \<or> sint (slp_min_hold_seconds p) \<le> held) \<and> c \<le> e * (1 - t / 100)
      then Some (if slp_allow_partial p \<and> \<not> taken then Some (slp_partial_exit_default_pct p) else None)
      else None)"
  using assms loss_reaches [OF assms(2), of t c]
  by (auto simp: stop_loss_exit_def Let_def word_neq_0_conv)

lemma profit_pct_real:
  "0 < e \<Longrightarrow> flt_mul (flt_sub (flt_div (Fin c) (Fin e)) (Fin 1)) (Fin 100) = Fin ((c / e - 1) * 100)"
  by simp

lemma profit_reaches: "0 < e \<Longrightarrow> a \<le> (c / e - 1) * 100 \<longleftrightarrow> e * (1 + a / 100) \<le> c" for e c a :: real
  by (simp add: field_simps)

text \<open>A band's or the base distance is a positive real under a valid policy.\<close>

lemma distance_in_force_real:
  assumes "trailing_validate p = Inr ()" and "trp_enabled p"
  obtains d where "distance_in_force p peak = Fin d" and "0 < d"
proof -
  obtain a d where t: "trp_activation_pct p = Fin a" "trp_distance_pct p = Fin d" "0 < d" "validate_bands p = Inr ()"
    by (rule trailing_validate_ok [OF assms])
  show ?thesis
  proof (cases rule: distance_in_force_cases [of p peak])
    case base
    then show ?thesis using that t by simp
  next
    case (band b)
    then show ?thesis using that validate_bands_ok [OF t(4,1) band(2)] by auto
  qed
qed

lemma trailing_fires_iff:
  assumes "trailing_validate p = Inr ()" and "trp_enabled p" and "trp_activation_pct p = Fin a"
    and "distance_in_force p (Fin ((peak / e - 1) * 100)) = Fin d" and "0 < e" and "0 < peak"
  shows "trailing_stop_triggered (Fin e) (Fin peak) (Fin c) p =
     Inr (e * (1 + a / 100) \<le> peak \<and> c \<le> peak * (1 - d / 100) \<and> e < c)"
proof -
  have "0 < (c / e - 1) * 100 \<longleftrightarrow> e < c" using assms(5) by (simp add: field_simps)
  then show ?thesis
    using assms profit_reaches [OF assms(5), of a peak]
    by (auto simp: trailing_stop_triggered_def from_fault_def Let_def)
qed

lemma trailing_outcome_fired:
  assumes "ed_outcome (decide_admitting inputs p admit) = Some outcome" and "ro_rule outcome = Trailing"
  shows "trailing_stop_triggered (ei_average_entry_price inputs) (ei_basis_peak_price inputs) (ei_current_price inputs)
      (ep_trailing p) = Inr True"
    and "ro_exit_percentage outcome = None" and "usable (ei_current_price inputs)"
proof -
  obtain check where check: "check \<in> set RULE_ORDER" and u: "usable (ei_current_price inputs)"
    and fired: "check inputs p = (Trailing, Inr (Some (ro_exit_percentage outcome)))"
    by (rule decided_rule_fired [OF assms(1)]) (simp add: assms(2))
  have "check_trailing inputs p = (Trailing, Inr (Some (ro_exit_percentage outcome)))"
    using check fired by (auto simp: RULE_ORDER_def check_stop_loss_def check_break_even_def check_take_profit_def
        check_time_loss_def check_time_stagnation_def)
  then show "trailing_stop_triggered (ei_average_entry_price inputs) (ei_basis_peak_price inputs) (ei_current_price inputs)
      (ep_trailing p) = Inr True" and "ro_exit_percentage outcome = None"
    by (auto simp: check_trailing_def sells_all_def split: if_splits)
  show "usable (ei_current_price inputs)" by (rule u)
qed

section \<open>Properties\<close>

text \<open>
  C8: the decision is the first rule of the order that fires and is admitted, with the errors of
  the rules before it and of no other; a mark that is not a positive finite price decides nothing.
\<close>

theorem decide_is_first_admitted:
  "decide_admitting inputs p admit =
     (if usable (ei_current_price inputs)
      then \<lparr>ed_outcome = (case dropWhile (passes inputs p admit) RULE_ORDER of [] \<Rightarrow> None
              | check # _ \<Rightarrow> outcome_of (check inputs p)),
            ed_rule_errors = errors_in inputs p (takeWhile (passes inputs p admit) RULE_ORDER)\<rparr>
      else \<lparr>ed_outcome = None, ed_rule_errors = []\<rparr>)"
  using decide_admitting_value decide_unusable by simp


definition sample_inputs :: "real \<Rightarrow> real \<Rightarrow> exit_inputs" where
  "sample_inputs peak price = \<lparr>ei_average_entry_price = Fin 2, ei_current_price = Fin price,
     ei_basis_peak_price = Fin peak, ei_held_seconds = 60, ei_partial_exits_taken = False, ei_take_profit_levels_taken = 0\<rparr>"




end
