(* ===== verification/Trader_Validation.thy ===== *)
theory Trader_Validation
  imports Exit_Rules
begin

text \<open>
  The validation of the trader section, \<open>validate\<close> of \<open>PaperTradingConfig\<close> and \<open>TraderConfig\<close> in
  \<open>src/config/schemas/trader.rs\<close>, every check in its order.

  The lemmas show what a section that passes guarantees of the rules that run on it: no rule of
  the policy it describes ever reports an impossible configuration, and its take-profit ladder
  sells exactly the configured shares of the position as opened.
\<close>

section \<open>Validation\<close>

datatype config_error = ConfigGeneric string

definition in_range :: "flt \<Rightarrow> flt \<Rightarrow> flt \<Rightarrow> bool" where
  "in_range v lo hi \<longleftrightarrow> is_finite v \<and> flt_le lo v \<and> flt_le v hi"

definition refuse :: "bool \<Rightarrow> string \<Rightarrow> config_error + unit" where
  "refuse bad message = (if bad then Inl (ConfigGeneric message) else Inr ())"

definition paper_validate :: "paper_trading_config \<Rightarrow> config_error + unit" where
  "paper_validate c =
     and_then (refuse (\<not> is_finite (ptc_starting_balance_sol c)
         \<or> \<not> (flt_le PAPER_STARTING_BALANCE_SOL_MIN (ptc_starting_balance_sol c)
              \<and> flt_le (ptc_starting_balance_sol c) PAPER_STARTING_BALANCE_SOL_MAX))
       ''trader.paper.starting_balance_sol must be between {PAPER_STARTING_BALANCE_SOL_MIN} and {PAPER_STARTING_BALANCE_SOL_MAX}'') (\<lambda>_.
     and_then (refuse (MAX_LANDING_DELAY_MS < ptc_landing_delay_ms c)
       ''trader.paper.landing_delay_ms must be between 0 and {MAX_LANDING_DELAY_MS}'') (\<lambda>_.
     refuse (\<not> (READINESS_ROUNDS_MIN \<le> ptc_readiness_min_closed_rounds c
         \<and> ptc_readiness_min_closed_rounds c \<le> READINESS_ROUNDS_MAX))
       ''trader.paper.readiness_min_closed_rounds must be between {} and {}''))"

text \<open>\<open>values.windows(2).any(bad)\<close>.\<close>

fun any_pair :: "('a \<Rightarrow> 'a \<Rightarrow> bool) \<Rightarrow> 'a list \<Rightarrow> bool" where
  "any_pair bad (x # y # rest) \<longleftrightarrow> bad x y \<or> any_pair bad (y # rest)"
| "any_pair bad _ \<longleftrightarrow> False"

definition validate_dca :: "trader_config \<Rightarrow> config_error + unit" where
  "validate_dca c =
     (let steps = length (tc_dca_levels_pct c) in
      and_then (refuse (\<not> (1 \<le> steps \<and> steps \<le> DCA_MAX_STEPS))
        ''trader.dca_levels_pct must hold between 1 and {DCA_MAX_STEPS} steps'') (\<lambda>_.
      and_then (refuse (length (tc_dca_size_multipliers c) \<noteq> steps)
        ''trader.dca_size_multipliers must hold one size per DCA level'') (\<lambda>_.
      and_then (refuse (\<not> list_all (\<lambda>d. in_range d DCA_DROP_PCT_MIN DCA_DROP_PCT_MAX) (tc_dca_levels_pct c))
        ''trader.dca_levels_pct values must be between {DCA_DROP_PCT_MIN} and {DCA_DROP_PCT_MAX}'') (\<lambda>_.
      and_then (refuse (\<not> list_all (\<lambda>s. in_range s DCA_SIZE_MULTIPLIER_MIN DCA_SIZE_MULTIPLIER_MAX)
          (tc_dca_size_multipliers c))
        ''trader.dca_size_multipliers values must be between {DCA_SIZE_MULTIPLIER_MIN} and {DCA_SIZE_MULTIPLIER_MAX}'') (\<lambda>_.
      and_then (refuse (tc_dca_measure_from c = MeasureFirstEntry
          \<and> any_pair (\<lambda>a b. flt_le a b) (tc_dca_levels_pct c))
        ''trader.dca_levels_pct must reach a deeper drop at every step when measured from the first entry'') (\<lambda>_.
      refuse (\<not> (DCA_MIN_HOLD_MINUTES_MIN \<le> tc_dca_min_hold_minutes c
          \<and> tc_dca_min_hold_minutes c \<le> DCA_MIN_HOLD_MINUTES_MAX))
        ''trader.dca_min_hold_minutes must be between {DCA_MIN_HOLD_MINUTES_MIN} and {DCA_MIN_HOLD_MINUTES_MAX}''))))))"

definition validate_trailing_bands :: "trader_config \<Rightarrow> config_error + unit" where
  "validate_trailing_bands c =
     (let bands = length (tc_trailing_stop_band_profit_pct c) in
      and_then (refuse (TRAILING_STOP_MAX_BANDS < bands)
        ''trader.trailing_stop_band_profit_pct must hold at most {TRAILING_STOP_MAX_BANDS} bands'') (\<lambda>_.
      and_then (refuse (length (tc_trailing_stop_band_distance_pct c) \<noteq> bands)
        ''trader.trailing_stop_band_distance_pct must hold one distance per trailing band'') (\<lambda>_.
      and_then (refuse (\<not> list_all
          (\<lambda>v. in_range v TRAILING_STOP_BAND_PROFIT_PCT_MIN TRAILING_STOP_BAND_PROFIT_PCT_MAX)
          (tc_trailing_stop_band_profit_pct c))
        ''trader.{field} values must be between {min} and {max}'') (\<lambda>_.
      and_then (refuse (\<not> list_all
          (\<lambda>v. in_range v TRAILING_STOP_BAND_DISTANCE_PCT_MIN TRAILING_STOP_BAND_DISTANCE_PCT_MAX)
          (tc_trailing_stop_band_distance_pct c))
        ''trader.{field} values must be between {min} and {max}'') (\<lambda>_.
      case validate_bands (ep_trailing (from_trader_config c)) of
        Inl fault \<Rightarrow> Inl (ConfigGeneric (''trader: '' @ fault_text fault))
      | Inr u \<Rightarrow> Inr u)))))"

text \<open>The loop of \<open>validate\<close> over the four bounded fields.\<close>

fun fields_in_range :: "(flt \<times> flt \<times> flt) list \<Rightarrow> config_error + unit" where
  "fields_in_range [] = Inr ()"
| "fields_in_range ((v, lo, hi) # rest) =
     and_then (refuse (\<not> in_range v lo hi) ''trader.{field} must be between {min} and {max}'') (\<lambda>_.
     fields_in_range rest)"

definition validate_take_profit :: "trader_config \<Rightarrow> config_error + unit" where
  "validate_take_profit c =
     (let steps = length (tc_take_profit_levels_pct c) in
      and_then (refuse (\<not> (1 \<le> steps \<and> steps \<le> TAKE_PROFIT_MAX_STEPS))
        ''trader.take_profit_levels_pct must hold between 1 and {TAKE_PROFIT_MAX_STEPS} steps'') (\<lambda>_.
      and_then (refuse (length (tc_take_profit_sell_pct c) \<noteq> steps)
        ''trader.take_profit_sell_pct must hold one share per take-profit level'') (\<lambda>_.
      and_then (refuse (\<not> list_all (\<lambda>v. in_range v TAKE_PROFIT_PROFIT_PCT_MIN TAKE_PROFIT_PROFIT_PCT_MAX)
          (tc_take_profit_levels_pct c))
        ''trader.take_profit_levels_pct values must be between {TAKE_PROFIT_PROFIT_PCT_MIN} and {TAKE_PROFIT_PROFIT_PCT_MAX}'') (\<lambda>_.
      and_then (refuse (\<not> list_all (\<lambda>v. in_range v TAKE_PROFIT_SELL_PCT_MIN TAKE_PROFIT_SELL_PCT_MAX)
          (tc_take_profit_sell_pct c))
        ''trader.take_profit_sell_pct values must be between {TAKE_PROFIT_SELL_PCT_MIN} and {TAKE_PROFIT_SELL_PCT_MAX}'') (\<lambda>_.
      and_then (refuse (any_pair (\<lambda>a b. flt_le b a) (tc_take_profit_levels_pct c))
        ''trader.take_profit_levels_pct must be strictly ascending'') (\<lambda>_.
      refuse (flt_lt (flt_add TAKE_PROFIT_SELL_PCT_MAX (Fin TAKE_PROFIT_SHARE_SUM_TOLERANCE_PCT))
          (flt_sum (tc_take_profit_sell_pct c)))
        ''trader.take_profit_sell_pct shares must add up to at most {TAKE_PROFIT_SELL_PCT_MAX}''))))))"

definition trader_validate :: "trader_config \<Rightarrow> config_error + unit" where
  "trader_validate c =
     and_then (paper_validate (tc_paper c)) (\<lambda>_.
     and_then (validate_dca c) (\<lambda>_.
     and_then (validate_trailing_bands c) (\<lambda>_.
     and_then (case exit_policy_validate (from_trader_config c) of
         Inl fault \<Rightarrow> Inl (ConfigGeneric (''trader: '' @ fault_text fault)) | Inr u \<Rightarrow> Inr u) (\<lambda>_.
     and_then (validate_take_profit c) (\<lambda>_.
     and_then (fields_in_range
       [(tc_break_even_trigger_pct c, BREAK_EVEN_TRIGGER_PCT_MIN, BREAK_EVEN_TRIGGER_PCT_MAX),
        (tc_break_even_offset_pct c, BREAK_EVEN_OFFSET_PCT_MIN, BREAK_EVEN_OFFSET_PCT_MAX),
        (tc_time_exit_stagnation_minutes c, TIME_EXIT_STAGNATION_MINUTES_MIN, TIME_EXIT_STAGNATION_MINUTES_MAX),
        (tc_time_exit_stagnation_band_pct c, TIME_EXIT_STAGNATION_BAND_PCT_MIN, TIME_EXIT_STAGNATION_BAND_PCT_MAX)]) (\<lambda>_.
     refuse (flt_le (tc_break_even_trigger_pct c) (tc_break_even_offset_pct c))
       ''trader.break_even_offset_pct must be below trader.break_even_trigger_pct''))))))"

section \<open>What a valid section gives\<close>

lemma refuse_ok [simp]: "refuse bad message = Inr u \<longleftrightarrow> \<not> bad"
  by (simp add: refuse_def)

lemma in_range_Fin: "in_range v (Fin lo) (Fin hi) \<longleftrightarrow> (\<exists>r. v = Fin r \<and> lo \<le> r \<and> r \<le> hi)"
  by (cases v) (auto simp: in_range_def)

lemma flt_sum_Fin: "flt_sum (map Fin vs) = Fin (sum_list vs)"
proof -
  have "foldl flt_add (Fin a) (map Fin vs) = Fin (a + sum_list vs)" for a
    by (induction vs arbitrary: a) (simp_all add: algebra_simps)
  then show ?thesis by (simp add: flt_sum_def)
qed

lemma finite_list:
  "list_all (\<lambda>v. in_range v (Fin lo) (Fin hi)) vs \<Longrightarrow> \<exists>rs. vs = map Fin rs \<and> (\<forall>r \<in> set rs. lo \<le> r \<and> r \<le> hi)"
proof (induction vs)
  case (Cons v vs)
  then obtain rs r where "vs = map Fin rs" "\<forall>r \<in> set rs. lo \<le> r \<and> r \<le> hi" "v = Fin r" "lo \<le> r" "r \<le> hi"
    by (auto simp: in_range_Fin)
  then show ?case by (intro exI [of _ "r # rs"]) simp
qed simp

text \<open>The ladder of a valid section: as many shares as levels, each at least five, at most all.\<close>

lemma valid_ladder:
  assumes "trader_validate c = Inr ()"
  obtains profits shares where "tc_take_profit_levels_pct c = map Fin profits"
    and "tc_take_profit_sell_pct c = map Fin shares" and "length shares = length profits"
    and "length shares \<le> 4" and "\<forall>s \<in> set shares. 5 \<le> s"
    and "sum_list shares \<le> 100 + 1 / 10 ^ 9"
proof -
  have v: "length (tc_take_profit_sell_pct c) = length (tc_take_profit_levels_pct c)"
    "length (tc_take_profit_levels_pct c) \<le> 4"
    "list_all (\<lambda>v. in_range v (Fin 1) (Fin 1000)) (tc_take_profit_levels_pct c)"
    "list_all (\<lambda>v. in_range v (Fin 5) (Fin 100)) (tc_take_profit_sell_pct c)"
    "\<not> flt_lt (Fin (100 + 1 / 10 ^ 9)) (flt_sum (tc_take_profit_sell_pct c))"
    using assms by (auto simp: trader_validate_def validate_take_profit_def Let_def config_constants
        TAKE_PROFIT_SHARE_SUM_TOLERANCE_PCT_def)
  obtain profits where p: "tc_take_profit_levels_pct c = map Fin profits" using finite_list [OF v(3)] by blast
  obtain shares where s: "tc_take_profit_sell_pct c = map Fin shares" "\<forall>s \<in> set shares. 5 \<le> s \<and> s \<le> 100"
    using finite_list [OF v(4)] by blast
  show ?thesis using that [OF p s(1)] v(1,2,5) s(2) p s(1) by (simp add: flt_sum_Fin)
qed

lemma take_profit_levels_real:
  assumes "tc_take_profit_levels_pct c = map Fin profits" and "tc_take_profit_sell_pct c = map Fin shares"
    and "length shares = length profits"
  shows "length (take_profit_levels c) = length shares"
    and "i < length shares \<Longrightarrow> tpl_sell_pct (take_profit_levels c ! i) = Fin (shares ! i)"
    and "i < length shares \<Longrightarrow> tpl_profit_pct (take_profit_levels c ! i) = Fin (profits ! i)"
    and "map tpl_sell_pct (take i (take_profit_levels c)) = map Fin (take i shares)"
proof -
  show l: "length (take_profit_levels c) = length shares" by (simp add: take_profit_levels_def assms)
  show "i < length shares \<Longrightarrow> tpl_sell_pct (take_profit_levels c ! i) = Fin (shares ! i)"
    "i < length shares \<Longrightarrow> tpl_profit_pct (take_profit_levels c ! i) = Fin (profits ! i)"
    by (simp_all add: take_profit_levels_def assms)
  have "map tpl_sell_pct (take_profit_levels c) = map Fin shares"
    by (rule nth_equalityI) (simp_all add: take_profit_levels_def assms)
  then show "map tpl_sell_pct (take i (take_profit_levels c)) = map Fin (take i shares)"
    by (simp flip: take_map)
qed

text \<open>What is left for a step is what the steps from it on sell, give or take the tolerance.\<close>

lemma sum_list_at:
  "i < length vs \<Longrightarrow> sum_list vs = sum_list (take i vs) + vs ! i + sum_list (drop (Suc i) vs)" for vs :: "real list"
proof -
  assume "i < length vs"
  then have "drop i vs = vs ! i # drop (Suc i) vs" by (simp add: Cons_nth_drop_Suc)
  then show ?thesis using arg_cong [OF append_take_drop_id [of i vs], of sum_list] by simp
qed

lemma ladder_left_pct:
  assumes "\<forall>s \<in> set shares. 5 \<le> s" and "sum_list shares \<le> (100 + 1 / 10 ^ 9 :: real)" and "i < length shares"
  shows "5 - 1 / 10 ^ 9 \<le> 100 - sum_list (take i shares)"
    and "Suc i < length shares \<Longrightarrow> 5 - 1 / 10 ^ 9 \<le> 100 - sum_list (take i shares) - shares ! i"
    and "0 \<le> sum_list (take i shares)" and "5 \<le> shares ! i"
proof -
  have pos: "0 \<le> sum_list (take k shares)" "0 \<le> sum_list (drop k shares)" for k
    by (rule sum_list_nonneg, use assms(1) in \<open>force dest: in_set_takeD in_set_dropD\<close>)+
  show n: "5 \<le> shares ! i" using assms(1,3) by simp
  show "0 \<le> sum_list (take i shares)" by (rule pos)
  note split = sum_list_at [OF assms(3)]
  show "5 - 1 / 10 ^ 9 \<le> 100 - sum_list (take i shares)"
    using split pos(2) [of "Suc i"] n assms(2) by linarith
  show "5 - 1 / 10 ^ 9 \<le> 100 - sum_list (take i shares) - shares ! i" if l: "Suc i < length shares"
  proof -
    have "sum_list (drop (Suc i) shares) = shares ! Suc i + sum_list (drop (Suc (Suc i)) shares)"
      by (simp add: Cons_nth_drop_Suc [OF l, symmetric])
    moreover have "5 \<le> shares ! Suc i" using assms(1) l by simp
    ultimately show ?thesis using split pos(2) [of "Suc (Suc i)"] assms(2) by linarith
  qed
qed

text \<open>One due step of a valid ladder, on a price that has reached its level.\<close>

lemma valid_step:
  assumes "tc_take_profit_levels_pct c = map Fin profits" and "tc_take_profit_sell_pct c = map Fin shares"
    and "length shares = length profits" and "\<forall>s \<in> set shares. 5 \<le> s"
    and "sum_list shares \<le> 100 + 1 / 10 ^ 9" and "unat k < length shares" and "0 < e" and "0 < price"
    and "tc_take_profit_enabled c"
  shows "take_profit_step (Fin e) (Fin price) k (ep_take_profit (from_trader_config c)) =
     Inr (if (price / e - 1) * 100 + 1 / 10 ^ 9 < profits ! unat k then None
       else Some (let share = shares ! unat k / (100 - sum_list (take (unat k) shares)) * 100 in
         if share < 100 - 1 / 10 ^ 6 then Some (Fin share) else None))"
proof -
  have left: "0 < 100 - sum_list (take (unat k) shares)" "0 < shares ! unat k"
    using ladder_left_pct [of shares "unat k"] assms(4-6) by fastforce+
  show ?thesis
    using left assms take_profit_levels_real [OF assms(1-3)]
    by (simp add: take_profit_step_def from_trader_config_def Let_def flt_sum_Fin
        PROFIT_LEVEL_TOLERANCE_PCT_def FULL_EXIT_TOLERANCE_PCT_def)
qed

section \<open>No rule of a valid section errs\<close>

lemma valid_section:
  assumes "trader_validate c = Inr ()"
  shows "exit_policy_validate (from_trader_config c) = Inr ()"
    and "\<exists>t o'. tc_break_even_trigger_pct c = Fin t \<and> tc_break_even_offset_pct c = Fin o' \<and> 0 < t \<and> 0 \<le> o' \<and> o' < t"
    and "\<exists>m b. tc_time_exit_stagnation_minutes c = Fin m \<and> tc_time_exit_stagnation_band_pct c = Fin b \<and> 0 < m \<and> 0 < b"
proof -
  have v: "exit_policy_validate (from_trader_config c) = Inr ()"
    "in_range (tc_break_even_trigger_pct c) (Fin (1 / 2)) (Fin 1000)" "in_range (tc_break_even_offset_pct c) (Fin 0) (Fin 50)"
    "in_range (tc_time_exit_stagnation_minutes c) (Fin 5) (Fin 43200)"
    "in_range (tc_time_exit_stagnation_band_pct c) (Fin (1 / 2)) (Fin 50)"
    "\<not> flt_le (tc_break_even_trigger_pct c) (tc_break_even_offset_pct c)"
    using assms by (auto simp: trader_validate_def config_constants split: sum.splits)
  show "exit_policy_validate (from_trader_config c) = Inr ()" by (rule v)
  show "\<exists>t o'. tc_break_even_trigger_pct c = Fin t \<and> tc_break_even_offset_pct c = Fin o' \<and> 0 < t \<and> 0 \<le> o' \<and> o' < t"
    using v(2,3,6) by (auto simp: in_range_Fin)
  show "\<exists>m b. tc_time_exit_stagnation_minutes c = Fin m \<and> tc_time_exit_stagnation_band_pct c = Fin b \<and> 0 < m \<and> 0 < b"
    using v(4,5) by (fastforce simp: in_range_Fin)
qed

lemma break_even_no_error:
  assumes "bep_trigger_pct p = Fin t" and "bep_offset_pct p = Fin o'" and "0 < t" and "0 \<le> o'" and "o' < t"
  shows "\<exists>b. break_even_triggered e k q p = Inr b"
  using assms by (auto simp: break_even_triggered_def Let_def)

lemma stagnation_no_error:
  assumes "tsp_duration_seconds p = Fin d" and "tsp_band_pct p = Fin b" and "0 < d" and "0 < b"
  shows "\<exists>b. stagnation_triggered e q h p = Inr b"
  using assms by (auto simp: stagnation_triggered_def Let_def)

lemma trailing_no_error: "trailing_validate p = Inr () \<Longrightarrow> \<exists>b. trailing_stop_triggered e k c p = Inr b"
  by (auto simp: trailing_stop_triggered_def from_fault_def Let_def)

lemma time_no_error: "time_validate p = Inr () \<Longrightarrow> \<exists>b. time_override_triggered e c h p = Inr b"
  by (auto simp: time_override_triggered_def from_fault_def Let_def)

lemma valid_ladder_no_error:
  assumes "trader_validate c = Inr ()"
  shows "\<exists>fired. take_profit_step entry price k (ep_take_profit (from_trader_config c)) = Inr fired"
proof -
  obtain profits shares where l: "tc_take_profit_levels_pct c = map Fin profits" "tc_take_profit_sell_pct c = map Fin shares"
    "length shares = length profits" "\<forall>s \<in> set shares. 5 \<le> s" "sum_list shares \<le> 100 + 1 / 10 ^ 9"
    by (rule valid_ladder [OF assms]) blast
  show ?thesis
  proof (cases "tc_take_profit_enabled c \<and> usable entry \<and> usable price \<and> unat k < length shares")
    case True
    then obtain e q where "entry = Fin e" "0 < e" "price = Fin q" "0 < q" by (auto simp: usable_iff)
    then show ?thesis using valid_step [OF l(1-5), of k e q] True by simp
  next
    case False
    have "length (tpp_levels (ep_take_profit (from_trader_config c))) = length shares"
      using take_profit_levels_real(1) [OF l(1-3)] by (simp add: from_trader_config_def)
    then show ?thesis using False by (auto simp: take_profit_step_def from_trader_config_def Let_def)
  qed
qed

lemma valid_checks_no_error:
  assumes "trader_validate c = Inr ()" and "check \<in> set RULE_ORDER"
  shows "error_of (check inputs (from_trader_config c)) = []"
proof -
  note v = valid_section [OF assms(1)]
  let ?p = "from_trader_config c" and ?e = "ei_average_entry_price inputs" and ?q = "ei_current_price inputs"
    and ?k = "ei_basis_peak_price inputs" and ?h = "ei_held_seconds inputs"
  obtain be where be: "break_even_triggered ?e ?k ?q (ep_break_even ?p) = Inr be"
    using v(2) break_even_no_error [of "ep_break_even ?p"] by (fastforce simp: from_trader_config_def)
  obtain st where st: "stagnation_triggered ?e ?q ?h (ep_time_stagnation ?p) = Inr st"
    using v(3) stagnation_no_error [of "ep_time_stagnation ?p"] by (fastforce simp: from_trader_config_def)
  obtain tr ti where tr: "trailing_stop_triggered ?e ?k ?q (ep_trailing ?p) = Inr tr"
    and ti: "time_override_triggered ?e ?q ?h (ep_time ?p) = Inr ti"
    using v(1) trailing_no_error time_no_error unfolding exit_policy_validate_ok by metis
  obtain tp where tp: "take_profit_step ?e ?q (ei_take_profit_levels_taken inputs) (ep_take_profit ?p) = Inr tp"
    using valid_ladder_no_error [OF assms(1)] by blast
  have "error_of (check_stop_loss inputs ?p) = []" "error_of (check_trailing inputs ?p) = []"
    "error_of (check_break_even inputs ?p) = []" "error_of (check_take_profit inputs ?p) = []"
    "error_of (check_time_loss inputs ?p) = []" "error_of (check_time_stagnation inputs ?p) = []"
    unfolding check_stop_loss_def check_trailing_def check_break_even_def check_take_profit_def check_time_loss_def
      check_time_stagnation_def sells_all_def be st tr ti tp by simp_all
  then show ?thesis using assms(2) unfolding RULE_ORDER_def by auto
qed

section \<open>The ladder of a valid section\<close>

text \<open>The share of the position as opened that is left after the first \<open>n\<close> steps sold at a price.\<close>

fun ladder_left :: "trader_config \<Rightarrow> real \<Rightarrow> real \<Rightarrow> nat \<Rightarrow> real" where
  "ladder_left c entry price 0 = 1"
| "ladder_left c entry price (Suc k) =
     (case take_profit_step (Fin entry) (Fin price) (of_nat k) (ep_take_profit (from_trader_config c)) of
        Inr (Some (Some (Fin share))) \<Rightarrow> ladder_left c entry price k * (1 - share / 100)
      | Inr (Some None) \<Rightarrow> 0
      | _ \<Rightarrow> ladder_left c entry price k)"

lemma ladder_left_step:
  assumes "tc_take_profit_levels_pct c = map Fin profits" and "tc_take_profit_sell_pct c = map Fin shares"
    and "length shares = length profits" and "length shares \<le> 4" and "\<forall>s \<in> set shares. 5 \<le> s"
    and "sum_list shares \<le> 100 + 1 / 10 ^ 9" and "tc_take_profit_enabled c" and "0 < entry" and "0 < price"
    and "\<And>k. k < length profits \<Longrightarrow> profits ! k \<le> (price / entry - 1) * 100" and "k < length shares"
  shows "ladder_left c entry price (Suc k) =
     (if shares ! k / (100 - sum_list (take k shares)) * 100 < 100 - 1 / 10 ^ 6
      then ladder_left c entry price k * (1 - shares ! k / (100 - sum_list (take k shares))) else 0)"
proof -
  have u: "unat (of_nat k :: u32) = k" using assms(4,11) by (simp add: unat_of_nat)
  have "\<not> (price / entry - 1) * 100 + 1 / 10 ^ 9 < profits ! k" using assms(10) [of k] assms(3,11) by simp
  moreover define x where "x = shares ! k / (100 - sum_list (take k shares))"
  ultimately have "take_profit_step (Fin entry) (Fin price) (of_nat k) (ep_take_profit (from_trader_config c)) =
      Inr (Some (if x * 100 < 100 - 1 / 10 ^ 6 then Some (Fin (x * 100)) else None))"
    using valid_step [OF assms(1-3,5,6) _ assms(8,9,7), of "of_nat k"] assms(11) unfolding u Let_def by simp
  then show ?thesis unfolding ladder_left.simps x_def [symmetric] by simp
qed

lemma ladder_left_exact:
  assumes "tc_take_profit_levels_pct c = map Fin profits" and "tc_take_profit_sell_pct c = map Fin shares"
    and "length shares = length profits" and "length shares \<le> 4" and "\<forall>s \<in> set shares. 5 \<le> s"
    and "sum_list shares \<le> 100 + 1 / 10 ^ 9" and "tc_take_profit_enabled c" and "0 < entry" and "0 < price"
    and "\<And>k. k < length profits \<Longrightarrow> profits ! k \<le> (price / entry - 1) * 100"
  shows "n < length shares \<Longrightarrow> ladder_left c entry price n = 1 - sum_list (take n shares) / 100"
proof (induction n)
  case (Suc k)
  let ?left = "100 - sum_list (take k shares)"
  have k: "k < length shares" using Suc.prems by simp
  note l = ladder_left_pct [OF assms(5,6) k]
  have pos: "0 < ?left" using l(1) by simp
  have "shares ! k / ?left * 100 < 100 - 1 / 10 ^ 6"
    using l(2) [OF Suc.prems] l(3) pos by (simp add: field_simps)
  then have "ladder_left c entry price (Suc k) = ?left / 100 * (1 - shares ! k / ?left)"
    using ladder_left_step [OF assms(1-10) k] Suc.IH [OF k] by (simp add: diff_divide_distrib del: ladder_left.simps)
  also have "\<dots> = (?left - shares ! k) / 100" using pos by (simp add: field_simps)
  finally show ?case by (simp add: take_Suc_conv_app_nth [OF k] diff_divide_distrib add_divide_distrib del: ladder_left.simps)
qed simp

lemma ladder_left_last:
  assumes "tc_take_profit_levels_pct c = map Fin profits" and "tc_take_profit_sell_pct c = map Fin shares"
    and "length shares = length profits" and "length shares \<le> 4" and "\<forall>s \<in> set shares. 5 \<le> s"
    and "sum_list shares \<le> 100 + 1 / 10 ^ 9" and "tc_take_profit_enabled c" and "0 < entry" and "0 < price"
    and "\<And>k. k < length profits \<Longrightarrow> profits ! k \<le> (price / entry - 1) * 100" and "k < length shares"
  shows "\<bar>ladder_left c entry price (Suc k) - (1 - sum_list (take (Suc k) shares) / 100)\<bar> \<le> 1 / 10 ^ 8"
proof -
  let ?left = "100 - sum_list (take k shares)"
  note l = ladder_left_pct [OF assms(5,6,11)]
  have pos: "0 < ?left" "?left \<le> 100" using l(1,3) by simp_all
  have at: "1 - sum_list (take (Suc k) shares) / 100 = (?left - shares ! k) / 100"
    by (simp add: take_Suc_conv_app_nth [OF assms(11)] field_simps)
  have low: "- (1 / 10 ^ 9) \<le> ?left - shares ! k"
    using sum_list_at [OF assms(11)] assms(5,6)
    by (smt (verit) sum_list_nonneg in_set_dropD)
  show ?thesis
  proof (cases "shares ! k / ?left * 100 < 100 - 1 / 10 ^ 6")
    case True
    have "ladder_left c entry price (Suc k) = ?left / 100 * (1 - shares ! k / ?left)"
      using ladder_left_step [OF assms] ladder_left_exact [OF assms(1-10) assms(11)] True
      by (simp add: diff_divide_distrib del: ladder_left.simps)
    also have "\<dots> = (?left - shares ! k) / 100" using pos by (simp add: field_simps)
    finally have eq: "ladder_left c entry price (Suc k) = (?left - shares ! k) / 100" .
    show ?thesis unfolding at eq by simp
  next
    case False
    then have "ladder_left c entry price (Suc k) = 0" using ladder_left_step [OF assms] by (simp del: ladder_left.simps)
    moreover have "?left - shares ! k \<le> ?left / 10 ^ 8" using False pos by (simp add: field_simps)
    moreover have "?left / 10 ^ 8 \<le> 1 / 10 ^ 6" using pos by simp
    ultimately have zero: "ladder_left c entry price (Suc k) = 0" and "?left - shares ! k \<le> 1 / 10 ^ 6" by linarith+
    then have "\<bar>(?left - shares ! k) / 100\<bar> \<le> 1 / 10 ^ 8" using low unfolding abs_le_iff by (auto simp: field_simps)
    then show ?thesis unfolding at zero by (simp only: diff_0 abs_minus_cancel)
  qed
qed

section \<open>Properties\<close>

text \<open>
  C28: a validated trader section never meets an impossible rule: whatever the position, its prices
  and what the caller admits, no rule of the policy it describes reports an error.
\<close>

theorem valid_section_never_errs:
  assumes "trader_validate c = Inr ()"
  shows "ed_rule_errors (decide_admitting inputs (from_trader_config c) admit) = []"
proof (cases "usable (ei_current_price inputs)")
  case True
  have "errors_in inputs (from_trader_config c) checks = []" if sub: "set checks \<subseteq> set RULE_ORDER" for checks
    using valid_checks_no_error [OF assms] sub by (auto simp: errors_in_def)
  moreover have "set (takeWhile P RULE_ORDER) \<subseteq> set RULE_ORDER" for P :: "rule_check \<Rightarrow> bool"
    by (auto dest: set_takeWhileD)
  ultimately show ?thesis by (simp add: decide_admitting_value [OF True])
qed (simp add: decide_unusable)

text \<open>
  The take-profit ladder of a validated section sells the configured shares of the position as
  opened: on a price that has reached every level, the part left after the first steps is exactly
  one minus their shares, and after the last one within the tolerance that avoids dust.
\<close>

theorem ladder_sells_shares:
  assumes "trader_validate c = Inr ()" and "tc_take_profit_enabled c" and "0 < entry" and "0 < price"
    and "list_all (\<lambda>level. flt_le level (Fin ((price / entry - 1) * 100))) (tc_take_profit_levels_pct c)"
    and "n \<le> length (tc_take_profit_levels_pct c)"
  shows "\<exists>sold. flt_sum (take n (tc_take_profit_sell_pct c)) = Fin sold
    \<and> (n < length (tc_take_profit_levels_pct c) \<longrightarrow> ladder_left c entry price n = 1 - sold / 100)
    \<and> \<bar>ladder_left c entry price n - (1 - sold / 100)\<bar> \<le> 1 / 10 ^ 8"
proof -
  obtain profits shares where l: "tc_take_profit_levels_pct c = map Fin profits" "tc_take_profit_sell_pct c = map Fin shares"
    "length shares = length profits" "length shares \<le> 4" "\<forall>s \<in> set shares. 5 \<le> s" "sum_list shares \<le> 100 + 1 / 10 ^ 9"
    by (rule valid_ladder [OF assms(1)]) blast
  have reached: "\<And>k. k < length profits \<Longrightarrow> profits ! k \<le> (price / entry - 1) * 100"
    using assms(5) by (simp add: l(1) list_all_length)
  note exact = ladder_left_exact [OF l assms(2-4) reached]
  have "\<bar>ladder_left c entry price n - (1 - sum_list (take n shares) / 100)\<bar> \<le> 1 / 10 ^ 8"
  proof (cases n)
    case (Suc k)
    then show ?thesis using ladder_left_last [OF l assms(2-4) reached, of k] assms(6) l(1,3) by simp
  qed simp
  then show ?thesis using exact [of n] assms(6) l(1-3) by (auto simp: take_map flt_sum_Fin)
qed

text \<open>The defaults of the section, with a ladder of three steps in place of one.\<close>

definition sample_trader :: trader_config where
  "sample_trader = \<lparr>
     tc_paper = \<lparr>ptc_starting_balance_sol = Fin 1, ptc_landing_delay_ms = 1000, ptc_readiness_min_closed_rounds = 10\<rparr>,
     tc_take_profit_enabled = True, tc_take_profit_levels_pct = [Fin 20, Fin 50, Fin 100],
     tc_take_profit_sell_pct = [Fin 30, Fin 30, Fin 40],
     tc_time_override_enabled = True, tc_time_override_duration = Fin 168, tc_time_override_unit = Hours,
     tc_time_override_loss_threshold_percent = Fin (- 40),
     tc_time_exit_stagnation_enabled = False, tc_time_exit_stagnation_minutes = Fin 240,
     tc_time_exit_stagnation_band_pct = Fin 5,
     tc_stop_loss_enabled = True, tc_stop_loss_threshold_pct = Fin 50, tc_stop_loss_allow_partial = False,
     tc_stop_loss_partial_pct = Fin 50, tc_stop_loss_min_hold_seconds = 0,
     tc_trailing_stop_enabled = True, tc_trailing_stop_activation_pct = Fin 10,
     tc_trailing_stop_distance_pct = Fin 5, tc_trailing_stop_band_profit_pct = [Fin 50],
     tc_trailing_stop_band_distance_pct = [Fin 10],
     tc_break_even_enabled = False, tc_break_even_trigger_pct = Fin 15, tc_break_even_offset_pct = Fin 1,
     tc_dca_enabled = False, tc_dca_levels_pct = [Fin (- 10), Fin (- 10)],
     tc_dca_size_multipliers = [Fin (1 / 2), Fin (1 / 2)], tc_dca_measure_from = MeasureAverage,
     tc_dca_min_hold_minutes = 0, tc_dca_cooldown_minutes = 30\<rparr>"

lemma sample_policy_valid: "exit_policy_validate (from_trader_config sample_trader) = Inr ()"
  by (simp add: exit_policy_validate_ok from_trader_config_def sample_trader_def stop_loss_validate_ok
      trailing_validate_def validate_bands_def trailing_stop_bands_def time_validate_ok percent_in_range_iff
      config_constants)

lemma sample_bands_valid: "validate_bands (ep_trailing (from_trader_config sample_trader)) = Inr ()"
  using sample_policy_valid
  by (simp add: exit_policy_validate_ok trailing_validate_def from_trader_config_def sample_trader_def split: if_splits)

lemma sample_trader_valid: "trader_validate sample_trader = Inr ()"
  unfolding trader_validate_def validate_trailing_bands_def Let_def sample_policy_valid sample_bands_valid
  by (simp add: paper_validate_def validate_dca_def validate_take_profit_def config_constants sample_trader_def
      in_range_def flt_sum_def TAKE_PROFIT_SHARE_SUM_TOLERANCE_PCT_def)

text \<open>The last step sells what is left as a whole, so no rounding of the shares leaves dust.\<close>

lemma sample_ladder:
  "tc_take_profit_enabled sample_trader" "tc_take_profit_levels_pct sample_trader = [Fin 20, Fin 50, Fin 100]"
  "tc_take_profit_sell_pct sample_trader = [Fin 30, Fin 30, Fin 40]"
  by (simp_all add: sample_trader_def)

theorem ladder_sells_shares_witness:
  "ladder_left sample_trader 1 3 2 = 2 / 5 \<and> \<bar>ladder_left sample_trader 1 3 3\<bar> \<le> 1 / 10 ^ 8"
proof -
  have "n \<le> 3 \<Longrightarrow> \<exists>sold. flt_sum (take n [Fin 30, Fin 30, Fin 40]) = Fin sold
    \<and> (n < 3 \<longrightarrow> ladder_left sample_trader 1 3 n = 1 - sold / 100)
    \<and> \<bar>ladder_left sample_trader 1 3 n - (1 - sold / 100)\<bar> \<le> 1 / 10 ^ 8" for n
    using ladder_sells_shares [OF sample_trader_valid, of 1 3 n]
    by (simp add: sample_ladder eval_nat_numeral del: ladder_left.simps)
  from this [of 2] this [of 3] show ?thesis by (simp add: flt_sum_def eval_nat_numeral del: ladder_left.simps)
qed

theorem valid_section_never_errs_witness:
  "ed_rule_errors (decide \<lparr>ei_average_entry_price = Fin 1, ei_current_price = Fin (2 / 5), ei_basis_peak_price = Fin 1,
     ei_held_seconds = 60, ei_partial_exits_taken = False, ei_take_profit_levels_taken = 0\<rparr>
     (from_trader_config sample_trader)) = []"
  unfolding decide_def by (rule valid_section_never_errs [OF sample_trader_valid])

end
