(* ===== verification/Layout.thy ===== *)
theory Layout
  imports Rust_Prelude
begin

text \<open>
  \<open>src/chains/solana/layout.rs\<close>: fixed-offset reads over raw account data, and
  the little-endian conversions of the standard library they use. Every read is
  bounds-checked and returns \<^const>\<open>None\<close> past the end. The lemmas show that a
  read returns exactly the value whose bytes were written at its offset, and fails
  exactly when the data is too short.
\<close>

section \<open>Little-endian conversions\<close>

fun le_nat :: "bytes \<Rightarrow> nat" where
  "le_nat [] = 0"
| "le_nat (b # bs) = unat b + 256 * le_nat bs"

fun le_bytes :: "nat \<Rightarrow> nat \<Rightarrow> bytes" where
  "le_bytes 0 x = []"
| "le_bytes (Suc n) x = of_nat (x mod 256) # le_bytes n (x div 256)"

definition u32_to_le_bytes :: "u32 \<Rightarrow> bytes" where
  "u32_to_le_bytes x = le_bytes 4 (unat x)"

definition u64_to_le_bytes :: "u64 \<Rightarrow> bytes" where
  "u64_to_le_bytes x = le_bytes 8 (unat x)"

definition u128_to_le_bytes :: "u128 \<Rightarrow> bytes" where
  "u128_to_le_bytes x = le_bytes 16 (unat x)"

text \<open>Two's complement of a given number of bits.\<close>

definition signed_of :: "nat \<Rightarrow> nat \<Rightarrow> int" where
  "signed_of bits x = (if 2 * x < 2 ^ bits then int x else int x - 2 ^ bits)"

definition unsigned_of :: "nat \<Rightarrow> int \<Rightarrow> nat" where
  "unsigned_of bits x = nat (x mod 2 ^ bits)"

definition i32_to_be_bytes :: "i32 \<Rightarrow> bytes" where
  "i32_to_be_bytes x = rev (le_bytes 4 (unsigned_of 32 x))"

definition i64_to_le_bytes :: "i64 \<Rightarrow> bytes" where
  "i64_to_le_bytes x = le_bytes 8 (unsigned_of 64 x)"

section \<open>Reads at a fixed offset\<close>

definition get_range :: "bytes \<Rightarrow> nat \<Rightarrow> nat \<Rightarrow> bytes option" where
  "get_range data offset n =
     (if offset + n \<le> length data then Some (take n (drop offset data)) else None)"

type_synonym pubkey = bytes

definition pubkey_at :: "bytes \<Rightarrow> nat \<Rightarrow> pubkey option" where
  "pubkey_at data offset = get_range data offset 32"

definition u64_at :: "bytes \<Rightarrow> nat \<Rightarrow> u64 option" where
  "u64_at data offset = map_option (\<lambda>bs. of_nat (le_nat bs)) (get_range data offset 8)"

definition u128_at :: "bytes \<Rightarrow> nat \<Rightarrow> u128 option" where
  "u128_at data offset = map_option (\<lambda>bs. of_nat (le_nat bs)) (get_range data offset 16)"

definition i128_at :: "bytes \<Rightarrow> nat \<Rightarrow> i128 option" where
  "i128_at data offset = map_option (\<lambda>bs. signed_of 128 (le_nat bs)) (get_range data offset 16)"

definition u16_at :: "bytes \<Rightarrow> nat \<Rightarrow> u16 option" where
  "u16_at data offset = map_option (\<lambda>bs. of_nat (le_nat bs)) (get_range data offset 2)"

definition u32_at :: "bytes \<Rightarrow> nat \<Rightarrow> u32 option" where
  "u32_at data offset = map_option (\<lambda>bs. of_nat (le_nat bs)) (get_range data offset 4)"

definition i32_at :: "bytes \<Rightarrow> nat \<Rightarrow> i32 option" where
  "i32_at data offset = map_option (\<lambda>bs. signed_of 32 (le_nat bs)) (get_range data offset 4)"

definition i64_at :: "bytes \<Rightarrow> nat \<Rightarrow> i64 option" where
  "i64_at data offset = map_option (\<lambda>bs. signed_of 64 (le_nat bs)) (get_range data offset 8)"

definition u8_at :: "bytes \<Rightarrow> nat \<Rightarrow> u8 option" where
  "u8_at data offset = (if offset < length data then Some (data ! offset) else None)"

definition mint_decimals :: "bytes \<Rightarrow> u8 option" where
  "mint_decimals data = u8_at data 44"

definition token_account_amount :: "bytes \<Rightarrow> u64 option" where
  "token_account_amount data = u64_at data 64"

section \<open>Cursor reads\<close>

datatype decode_error = Decode string

definition read_u8_at_offset :: "bytes \<Rightarrow> nat \<Rightarrow> decode_error + (u8 \<times> nat)" where
  "read_u8_at_offset data offset =
     and_then (ok_or (u8_at data offset) (Decode ''u8'')) (\<lambda>value. Inr (value, offset + 1))"

definition read_u64_at_offset :: "bytes \<Rightarrow> nat \<Rightarrow> decode_error + (u64 \<times> nat)" where
  "read_u64_at_offset data offset =
     and_then (ok_or (u64_at data offset) (Decode ''u64'')) (\<lambda>value. Inr (value, offset + 8))"

definition read_bool_at_offset :: "bytes \<Rightarrow> nat \<Rightarrow> decode_error + (bool \<times> nat)" where
  "read_bool_at_offset data offset =
     and_then (ok_or (u8_at data offset) (Decode ''bool'')) (\<lambda>value. Inr (value \<noteq> 0, offset + 1))"

section \<open>Round trips\<close>

lemma length_le_bytes [simp]: "length (le_bytes n x) = n"
  by (induction n arbitrary: x) auto

lemma le_nat_le_bytes: "le_nat (le_bytes n x) = x mod 256 ^ n"
proof (induction n arbitrary: x)
  case 0
  then show ?case by simp
next
  case (Suc n)
  have "x mod 256 ^ Suc n = x mod 256 + 256 * (x div 256 mod 256 ^ n)"
    using mod_mult2_eq [of x 256 "256 ^ n"] by simp
  then show ?case using Suc.IH [of "x div 256"] by (simp add: unat_of_nat)
qed

lemma le_nat_bound: "le_nat bs < 256 ^ length bs"
proof (induction bs)
  case Nil
  then show ?case by simp
next
  case (Cons b bs)
  have "unat b < 256" using word_unat_bound [of b] by simp
  with Cons show ?case by simp
qed

lemma length_get_range: "get_range data offset n = Some bs \<Longrightarrow> length bs = n"
  by (auto simp: get_range_def split: if_splits)

lemma get_range_None [simp]: "get_range data offset n = None \<longleftrightarrow> length data < offset + n"
  by (auto simp: get_range_def)

lemma get_range_append: "length bs = n \<Longrightarrow> get_range (pre @ bs @ post) (length pre) n = Some bs"
  by (simp add: get_range_def)

lemma get_range_append_at:
  "length pre = k \<Longrightarrow> length bs = n \<Longrightarrow> get_range (pre @ bs @ post) k n = Some bs"
  using get_range_append by blast

lemma u64_at_written: "length pre = k \<Longrightarrow> u64_at (pre @ u64_to_le_bytes x @ post) k = Some x"
proof -
  have "le_nat (le_bytes 8 (unat x)) = unat x"
    using u64_bound [of x] by (simp add: le_nat_le_bytes)
  then show "length pre = k \<Longrightarrow> ?thesis"
    by (simp add: u64_at_def u64_to_le_bytes_def get_range_append_at)
qed

text \<open>The arguments of a swap instruction: two \<open>u64\<close> values after the discriminator.\<close>

lemma swap_data_read:
  assumes "length disc = n"
  shows "u64_at (disc @ u64_to_le_bytes x @ u64_to_le_bytes y @ post) n = Some x"
    and "u64_at (disc @ u64_to_le_bytes x @ u64_to_le_bytes y @ post) (n + 8) = Some y"
  using u64_at_written [OF assms] u64_at_written [of "disc @ u64_to_le_bytes x" "n + 8" y post] assms
  by (simp_all add: u64_to_le_bytes_def)

lemma u32_at_written: "length pre = k \<Longrightarrow> u32_at (pre @ u32_to_le_bytes x @ post) k = Some x"
proof -
  have "le_nat (le_bytes 4 (unat x)) = unat x"
    using u32_bound [of x] by (simp add: le_nat_le_bytes)
  then show "length pre = k \<Longrightarrow> ?thesis"
    by (simp add: u32_at_def u32_to_le_bytes_def get_range_append_at)
qed

lemma u128_at_written: "length pre = k \<Longrightarrow> u128_at (pre @ u128_to_le_bytes x @ post) k = Some x"
proof -
  have "le_nat (le_bytes 16 (unat x)) = unat x"
    using u128_bound [of x] by (simp add: le_nat_le_bytes)
  then show "length pre = k \<Longrightarrow> ?thesis"
    by (simp add: u128_at_def u128_to_le_bytes_def get_range_append_at)
qed

lemma signed_of_unsigned_of:
  "- (2 ^ (bits - 1)) \<le> x \<Longrightarrow> x < 2 ^ (bits - 1) \<Longrightarrow> 0 < bits \<Longrightarrow> signed_of bits (unsigned_of bits x) = x"
proof -
  assume lo: "- (2 ^ (bits - 1)) \<le> x" and hi: "x < 2 ^ (bits - 1)" and "0 < bits"
  then obtain k where k: "bits = Suc k" by (cases bits) auto
  show ?thesis
  proof (cases "x < 0")
    case True
    then have "x mod 2 ^ bits = x + 2 ^ bits"
      using lo k mod_pos_pos_trivial [of "x + 2 ^ bits" "2 ^ bits"] by simp
    then show ?thesis
      using True lo k by (simp add: signed_of_def unsigned_of_def nat_mult_distrib [symmetric]
          zless_nat_eq_int_zless [symmetric] of_nat_diff)
  next
    case False
    then have "x mod 2 ^ bits = x" using hi k by simp
    then show ?thesis
      using False hi k by (simp add: signed_of_def unsigned_of_def)
  qed
qed

lemma i64_at_written:
  "in_i64 x \<Longrightarrow> length pre = k \<Longrightarrow> i64_at (pre @ i64_to_le_bytes x @ post) k = Some x"
proof -
  assume "in_i64 x"
  then have "signed_of 64 (unsigned_of 64 x) = x"
    by (intro signed_of_unsigned_of) (simp_all add: in_i64_def)
  moreover have "unsigned_of 64 x < 256 ^ 8"
    by (simp add: unsigned_of_def nat_less_iff)
  ultimately show "length pre = k \<Longrightarrow> ?thesis"
    by (simp add: i64_at_def i64_to_le_bytes_def get_range_append_at le_nat_le_bytes)
qed

lemma i32_at_range: "i32_at data k = Some x \<Longrightarrow> in_i32 x"
proof -
  assume "i32_at data k = Some x"
  then obtain bs where bs: "get_range data k 4 = Some bs" and x: "x = signed_of 32 (le_nat bs)"
    by (auto simp: i32_at_def)
  have "le_nat bs < 4294967296"
    using le_nat_bound [of bs] length_get_range [OF bs] by simp
  then show ?thesis by (simp add: x signed_of_def in_i32_def)
qed

section \<open>Presence of a read\<close>

text \<open>The collection \<open>read_at\<close> decides whether a read at an offset returns a value.\<close>

named_theorems read_at

lemma reads_None [read_at]:
  "pubkey_at data k = None \<longleftrightarrow> length data < k + 32"
  "u128_at data k = None \<longleftrightarrow> length data < k + 16"
  "i128_at data k = None \<longleftrightarrow> length data < k + 16"
  "u64_at data k = None \<longleftrightarrow> length data < k + 8"
  "i64_at data k = None \<longleftrightarrow> length data < k + 8"
  "u32_at data k = None \<longleftrightarrow> length data < k + 4"
  "i32_at data k = None \<longleftrightarrow> length data < k + 4"
  "u16_at data k = None \<longleftrightarrow> length data < k + 2"
  "u8_at data k = None \<longleftrightarrow> length data < k + 1"
  by (auto simp: pubkey_at_def u128_at_def i128_at_def u64_at_def i64_at_def u32_at_def i32_at_def
      u16_at_def u8_at_def)

lemma reads_Some [read_at]:
  "(\<exists>y. pubkey_at data k = Some y) \<longleftrightarrow> k + 32 \<le> length data"
  "(\<exists>y. u128_at data k = Some y) \<longleftrightarrow> k + 16 \<le> length data"
  "(\<exists>y. i128_at data k = Some y) \<longleftrightarrow> k + 16 \<le> length data"
  "(\<exists>y. u64_at data k = Some y) \<longleftrightarrow> k + 8 \<le> length data"
  "(\<exists>y. i64_at data k = Some y) \<longleftrightarrow> k + 8 \<le> length data"
  "(\<exists>y. u32_at data k = Some y) \<longleftrightarrow> k + 4 \<le> length data"
  "(\<exists>y. i32_at data k = Some y) \<longleftrightarrow> k + 4 \<le> length data"
  "(\<exists>y. u16_at data k = Some y) \<longleftrightarrow> k + 2 \<le> length data"
  "(\<exists>y. u8_at data k = Some y) \<longleftrightarrow> k + 1 \<le> length data"
  using reads_None [of data k] not_None_eq by (metis not_less)+

lemma bind_None_iff [read_at]: "Option.bind x f = None \<longleftrightarrow> x = None \<or> (\<exists>y. x = Some y \<and> f y = None)"
  by (cases x) auto

lemma ex_Some_and [read_at]: "(\<exists>y. x = Some y \<and> P) \<longleftrightarrow> x \<noteq> None \<and> P"
  by auto

section \<open>Properties\<close>

text \<open>
  An integer written in little-endian order at any place of an account is read back
  unchanged by the reader of its width.
\<close>

theorem written_integers_read_back:
  "u32_at (pre @ u32_to_le_bytes a @ post) (length pre) = Some a
   \<and> u64_at (pre @ u64_to_le_bytes b @ post) (length pre) = Some b
   \<and> u128_at (pre @ u128_to_le_bytes c @ post) (length pre) = Some c"
  by (simp add: u32_at_written u64_at_written u128_at_written)

end
