(* ===== verification/Direct_Types.thy ===== *)
theory Direct_Types
  imports Layout
begin

text \<open>
  The shared vocabulary of the direct pool-swap engine under
  \<open>src/chains/solana/swaps/direct\<close>: the typed failures of \<open>error.rs\<close>, the
  accounts and instructions the venues build, the interfaces \<open>PoolMarket\<close> and
  \<open>AccountReader\<close> of \<open>venue.rs\<close>, and the functions of the Solana SDK the engine
  calls, which are not part of the sources and are fields of the parameter
  \<open>sdk\<close>.

  The \<open>detail\<close> of an error is the literal of its message without the values that
  \<open>format!\<close> interpolates. \<open>Panic\<close> is the one value with no source constructor:
  it stands for an abort of the process (\<open>panic = "abort"\<close>), so that a division by
  zero or an index past the end is a branch of the model.
\<close>

section \<open>Errors\<close>

datatype direct_swap_error =
    UnsupportedVenue pubkey
  | PoolUndecodable pubkey string
  | PairNotInPool pubkey pubkey pubkey
  | PoolNotTradable pubkey string
  | InsufficientLiquidity pubkey u64 string
  | InvalidRequest string
  | AccountUnavailable pubkey string
  | NodeUnavailable string string
  | QuoteMath string
  | Build string
  | SimulationRejected string "string list"
  | TransactionTooLarge nat nat
  | SimulationUnavailable string
  | SubmitFailed string
  | BlockhashExpired string u64 u64
  | ConfirmationTimeout string u64
  | TransactionFailed string string
  | OutputNotReceived string u64 u64
  | InsufficientBalance pubkey u64 u64
  | MarketMoved pubkey u64 u64
  | Panic string

type_synonym 'a direct_swap_result = "direct_swap_error + 'a"

fun submitted :: "direct_swap_error \<Rightarrow> bool" where
  "submitted (ConfirmationTimeout _ _) = True"
| "submitted (TransactionFailed _ _) = True"
| "submitted (OutputNotReceived _ _ _) = True"
| "submitted _ = False"

fun is_token_fault :: "direct_swap_error \<Rightarrow> bool" where
  "is_token_fault (PairNotInPool _ _ _) = True"
| "is_token_fault (PoolNotTradable _ _) = True"
| "is_token_fault (InsufficientLiquidity _ _ _) = True"
| "is_token_fault _ = False"

fun settled_signature :: "direct_swap_error \<Rightarrow> string option" where
  "settled_signature (ConfirmationTimeout signature _) = Some signature"
| "settled_signature (OutputNotReceived signature _ _) = Some signature"
| "settled_signature _ = None"

fun error_signature :: "direct_swap_error \<Rightarrow> string option" where
  "error_signature (BlockhashExpired signature _ _) = Some signature"
| "error_signature (ConfirmationTimeout signature _) = Some signature"
| "error_signature (TransactionFailed signature _) = Some signature"
| "error_signature (OutputNotReceived signature _ _) = Some signature"
| "error_signature _ = None"

fun safe_to_fallback :: "direct_swap_error \<Rightarrow> bool" where
  "safe_to_fallback (UnsupportedVenue _) = True"
| "safe_to_fallback (PoolUndecodable _ _) = True"
| "safe_to_fallback (PairNotInPool _ _ _) = True"
| "safe_to_fallback (PoolNotTradable _ _) = True"
| "safe_to_fallback (InsufficientLiquidity _ _ _) = True"
| "safe_to_fallback (QuoteMath _) = True"
| "safe_to_fallback (InvalidRequest _) = True"
| "safe_to_fallback (InsufficientBalance _ _ _) = True"
| "safe_to_fallback (AccountUnavailable _ _) = True"
| "safe_to_fallback (NodeUnavailable _ _) = True"
| "safe_to_fallback (MarketMoved _ _ _) = True"
| "safe_to_fallback (Build _) = True"
| "safe_to_fallback (SimulationRejected _ _) = True"
| "safe_to_fallback (TransactionTooLarge _ _) = True"
| "safe_to_fallback (SimulationUnavailable _) = True"
| "safe_to_fallback (SubmitFailed _) = True"
| "safe_to_fallback (BlockhashExpired _ _ _) = True"
| "safe_to_fallback (TransactionFailed _ _) = True"
| "safe_to_fallback _ = False"

section \<open>Accounts and instructions\<close>

definition default_pubkey :: pubkey where
  "default_pubkey = replicate 32 0"

record account =
  acc_data :: bytes
  acc_owner :: pubkey

record account_meta =
  meta_pubkey :: pubkey
  meta_signer :: bool
  meta_writable :: bool

definition meta_new :: "pubkey \<Rightarrow> bool \<Rightarrow> account_meta" where
  "meta_new key signer = \<lparr>meta_pubkey = key, meta_signer = signer, meta_writable = True\<rparr>"

definition meta_new_readonly :: "pubkey \<Rightarrow> bool \<Rightarrow> account_meta" where
  "meta_new_readonly key signer =
     \<lparr>meta_pubkey = key, meta_signer = signer, meta_writable = False\<rparr>"

record instruction =
  ix_program_id :: pubkey
  ix_accounts :: "account_meta list"
  ix_data :: bytes

text \<open>The external functions, each named after the call it stands for.\<close>

record sdk =
  pubkey_from_str :: "string \<Rightarrow> pubkey"
  find_program_address :: "bytes list \<Rightarrow> pubkey \<Rightarrow> pubkey"
  associated_token_address :: "pubkey \<Rightarrow> pubkey \<Rightarrow> pubkey \<Rightarrow> pubkey"
  create_ata_idempotent :: "pubkey \<Rightarrow> pubkey \<Rightarrow> pubkey \<Rightarrow> pubkey \<Rightarrow> instruction"
  system_transfer :: "pubkey \<Rightarrow> pubkey \<Rightarrow> u64 \<Rightarrow> instruction"
  token_transfer_checked ::
    "pubkey \<Rightarrow> pubkey \<Rightarrow> pubkey \<Rightarrow> pubkey \<Rightarrow> u64 \<Rightarrow> u8 \<Rightarrow> instruction option"
  token_sync_native :: "pubkey \<Rightarrow> instruction option"
  token_close_account :: "pubkey \<Rightarrow> pubkey \<Rightarrow> pubkey \<Rightarrow> instruction option"
  set_compute_unit_limit :: "u32 \<Rightarrow> instruction"
  set_compute_unit_price :: "u64 \<Rightarrow> instruction"
  spl_token_id :: pubkey
  spl_token_2022_id :: pubkey
  mint_transfer_fees :: "bytes \<Rightarrow> ((u16 \<times> u64) \<times> (u16 \<times> u64)) option"
  mint_transfer_hook :: "bytes \<Rightarrow> bool"

section \<open>Program kinds\<close>

datatype program_kind =
    RaydiumCpmm | RaydiumLegacyAmm | RaydiumClmm | OrcaWhirlpool | MeteoraDamm | MeteoraDlmm
  | MeteoraDbc | PumpFunAmm | PumpFunLegacy | Moonit | FluxbeamAmm | Unknown

fun program_id_str :: "program_kind \<Rightarrow> string" where
  "program_id_str RaydiumCpmm = ''CPMMoo8L3F4NbTegBCKVNunggL7H1ZpdTHKxQB5qKP1C''"
| "program_id_str RaydiumLegacyAmm = ''675kPX9MHTjS2zt1qfr1NYHuzeLXfQM9H24wFSUt1Mp8''"
| "program_id_str RaydiumClmm = ''CAMMCzo5YL8w4VFF8KVHrK22GGUsp5VTaW7grrKgrWqK''"
| "program_id_str OrcaWhirlpool = ''whirLbMiicVdio4qvUfM5KAg6Ct8VwpYzGff3uctyCc''"
| "program_id_str MeteoraDamm = ''cpamdpZCGKUy5JxQXB4dcpGPiikHawvSWAd6mEn1sGG''"
| "program_id_str MeteoraDlmm = ''LBUZKhRxPF3XUpBCjp4YzTKgLccjZhTSDM9YuVaPwxo''"
| "program_id_str MeteoraDbc = ''dbcij3LWUppWqq96dh6gJWwBifmcGfLSB5D4DuSMaqN''"
| "program_id_str PumpFunAmm = ''pAMMBay6oceH9fJKBRHGP5D4bD4sWpmSwMn52FMfXEA''"
| "program_id_str PumpFunLegacy = ''6EF8rrecthR5Dkzon8Nwu78hRvfCKubJ14M5uBEwF6P''"
| "program_id_str Moonit = ''MoonCVVNZFSYkqNXP6bxHLPL6QQJiMagDL3qcqUQTrG''"
| "program_id_str FluxbeamAmm = ''FLUXubRmkEi2q6K3Y9kBPg9248ggaZVsoSFhtJHSrm1X''"
| "program_id_str Unknown = ''''"

section \<open>The market and reader interfaces\<close>

record venue_quote =
  vq_amount_in :: u64
  vq_expected_out :: u64
  vq_lp_fee :: u64
  vq_price_impact_pct :: f64

record swap_accounts =
  sa_owner :: pubkey
  sa_input_mint :: pubkey
  sa_output_mint :: pubkey
  sa_input_token_account :: pubkey
  sa_output_token_account :: pubkey

record pool_market =
  pm_program :: program_kind
  pm_pool :: pubkey
  pm_mints :: "pubkey \<times> pubkey"
  pm_token_program :: "pubkey \<Rightarrow> pubkey option"
  pm_decimals :: "pubkey \<Rightarrow> u8 option"
  pm_quote :: "pubkey \<Rightarrow> u64 \<Rightarrow> venue_quote direct_swap_result"
  pm_swap_instruction :: "swap_accounts \<Rightarrow> u64 \<Rightarrow> u64 \<Rightarrow> instruction direct_swap_result"
  pm_compute_units :: u32
  pm_settles_native_sol :: bool

definition trades :: "pool_market \<Rightarrow> pubkey \<Rightarrow> pubkey \<Rightarrow> bool" where
  "trades market input_mint output_mint =
     (case pm_mints market of (a, b) \<Rightarrow>
        (input_mint = a \<and> output_mint = b) \<or> (input_mint = b \<and> output_mint = a))"

text \<open>
  Which side of a pool a mint is on, and the check that opens every
  \<open>swap_instruction\<close>: both mints belong to the pool, on different sides. The venues
  repeat both; the definitions here are shared by their models.
\<close>

definition side_of :: "pubkey \<Rightarrow> pubkey \<Rightarrow> pubkey \<Rightarrow> bool option" where
  "side_of mint_0 mint_1 mint =
     (if mint = mint_0 then Some True else if mint = mint_1 then Some False else None)"

definition oriented_pair ::
  "pubkey \<Rightarrow> (pubkey \<Rightarrow> bool option) \<Rightarrow> swap_accounts \<Rightarrow> bool direct_swap_result" where
  "oriented_pair pool side accounts =
     (let mismatch = PairNotInPool pool (sa_input_mint accounts) (sa_output_mint accounts) in
      and_then (ok_or (side (sa_input_mint accounts)) mismatch) (\<lambda>input_is_0.
      and_then (ok_or (side (sa_output_mint accounts)) mismatch) (\<lambda>output_is_0.
      if input_is_0 = output_is_0 then Inl mismatch else Inr input_is_0)))"

text \<open>A reader answers one batch of addresses, or fails as a whole.\<close>

type_synonym account_reader = "pubkey list \<Rightarrow> account option list direct_swap_result"

definition MAX_ACCOUNTS_PER_REQUEST :: nat where
  "MAX_ACCOUNTS_PER_REQUEST = 50"

text \<open>\<open>slice::chunks\<close>.\<close>

function chunks :: "nat \<Rightarrow> 'a list \<Rightarrow> 'a list list" where
  "chunks n xs = (if n = 0 \<or> xs = [] then [] else take n xs # chunks n (drop n xs))"
  by pat_completeness auto
termination
  by (relation "measure (\<lambda>(n, xs). length xs)") auto

declare chunks.simps [simp del]

fun read_chunks ::
  "('p list \<Rightarrow> ('e + 'a list)) \<Rightarrow> 'p list list \<Rightarrow> 'a list \<Rightarrow> 'e + 'a list" where
  "read_chunks fetch [] accounts = Inr accounts"
| "read_chunks fetch (chunk # rest) accounts =
     and_then (fetch chunk) (\<lambda>got. read_chunks fetch rest (accounts @ got))"

definition read_in_chunks ::
  "'p list \<Rightarrow> ('p list \<Rightarrow> ('e + 'a list)) \<Rightarrow> 'e + 'a list" where
  "read_in_chunks addresses fetch = read_chunks fetch (chunks MAX_ACCOUNTS_PER_REQUEST addresses) []"

text \<open>\<open>accounts.get(index).and_then(Option::as_ref).ok_or(AccountUnavailable ...)\<close>.\<close>

definition required ::
  "pubkey list \<Rightarrow> account option list \<Rightarrow> string \<Rightarrow> nat \<Rightarrow> account direct_swap_result" where
  "required addresses accounts detail index =
     (if index < length accounts then
        (case accounts ! index of
           Some account \<Rightarrow> Inr account
         | None \<Rightarrow> if index < length addresses
                    then Inl (AccountUnavailable (addresses ! index) detail)
                    else Inl (Panic ''index out of bounds''))
      else if index < length addresses
           then Inl (AccountUnavailable (addresses ! index) detail)
           else Inl (Panic ''index out of bounds''))"

section \<open>Lemmas\<close>

subsection \<open>Error classes\<close>

lemma settled_not_fallback:
  "settled_signature e = Some s \<Longrightarrow> \<not> safe_to_fallback e \<and> submitted e \<and> error_signature e = Some s"
  by (cases e) auto

lemma fallback_or_settled:
  "e \<noteq> Panic d \<Longrightarrow> \<not> safe_to_fallback e \<longleftrightarrow> settled_signature e \<noteq> None \<or> (\<exists>d'. e = Panic d')"
  by (cases e) auto

lemma submitted_signature: "submitted e \<Longrightarrow> error_signature e \<noteq> None"
  by (cases e) auto

lemma token_fault_not_submitted: "is_token_fault e \<Longrightarrow> \<not> submitted e \<and> safe_to_fallback e"
  by (cases e) auto

subsection \<open>Chunked reads\<close>

lemma concat_chunks: "0 < n \<Longrightarrow> concat (chunks n xs) = xs"
proof (induction n xs rule: chunks.induct)
  case (1 n xs)
  then show ?case by (subst chunks.simps) auto
qed

lemma chunks_bounds: "c \<in> set (chunks n xs) \<Longrightarrow> length c \<le> n \<and> c \<noteq> []"
proof (induction n xs rule: chunks.induct)
  case (1 n xs)
  from "1.prems" have "n \<noteq> 0 \<and> xs \<noteq> []" by (subst (asm) chunks.simps) (auto split: if_splits)
  with "1" show ?case by (subst (asm) (2) chunks.simps) auto
qed

lemma read_chunks_pointwise:
  assumes "\<And>c. c \<in> set cs \<Longrightarrow> fetch c = Inr (map f c)"
  shows "read_chunks fetch cs acc = Inr (acc @ map f (concat cs))"
  using assms by (induction cs arbitrary: acc) simp_all

lemma read_chunks_error:
  assumes "read_chunks fetch cs acc = Inl e"
  shows "\<exists>c \<in> set cs. fetch c = Inl e"
  using assms by (induction cs arbitrary: acc) auto

subsection \<open>Sides\<close>

lemma side_of_None [simp]: "side_of a b mint = None \<longleftrightarrow> mint \<noteq> a \<and> mint \<noteq> b"
  by (simp add: side_of_def)

lemma side_of_Some: "side_of a b mint = Some s \<Longrightarrow> mint = (if s then a else b)"
  by (auto simp: side_of_def split: if_splits)

lemma oriented_pair_ok:
  "oriented_pair pool (side_of a b) accounts = Inr s \<longleftrightarrow>
     a \<noteq> b \<and> sa_input_mint accounts = (if s then a else b)
       \<and> sa_output_mint accounts = (if s then b else a)"
  by (cases s) (auto simp: oriented_pair_def side_of_def Let_def split: if_splits)

lemma oriented_pair_trades:
  "oriented_pair pool (side_of a b) accounts = Inr s \<Longrightarrow> pm_mints market = (a, b) \<Longrightarrow>
     trades market (sa_input_mint accounts) (sa_output_mint accounts)"
  by (cases s) (simp_all add: oriented_pair_ok trades_def)

definition oriented :: "bool \<Rightarrow> 'a \<times> 'a \<Rightarrow> 'a \<times> 'a" where
  "oriented input_is_0 p = (if input_is_0 then p else (snd p, fst p))"

lemma oriented_simps [simp]: "oriented True p = p" "oriented False p = (snd p, fst p)"
  by (simp_all add: oriented_def)

lemma oriented_pair_error:
  "oriented_pair pool side accounts = Inl e \<Longrightarrow>
     e = PairNotInPool pool (sa_input_mint accounts) (sa_output_mint accounts)"
  by (auto simp: oriented_pair_def Let_def split: if_splits)

subsection \<open>Required accounts\<close>

lemma required_ok: "required as accs d i = Inr a \<longleftrightarrow> i < length accs \<and> accs ! i = Some a"
  by (auto simp: required_def split: option.splits)

lemma required_no_panic:
  "i < length as \<Longrightarrow> required as accs d i = Inl e \<Longrightarrow> e = AccountUnavailable (as ! i) d"
  by (auto simp: required_def split: option.splits if_splits)

section \<open>A concrete SDK\<close>

text \<open>
  One instance of the external functions, with the documented encoding of the
  compute-budget instructions, on which the examples of the other theories are evaluated.
  Keys are the first 32 characters of their text, padded with zeros.
\<close>

definition sample_key :: "string \<Rightarrow> pubkey" where
  "sample_key s = take 32 (map of_char s @ replicate 32 0)"

definition sample_instruction :: "string \<Rightarrow> pubkey list \<Rightarrow> bytes \<Rightarrow> instruction" where
  "sample_instruction program keys data =
     \<lparr>ix_program_id = sample_key program, ix_accounts = map (\<lambda>key. meta_new key False) keys, ix_data = data\<rparr>"

definition sample_sdk :: sdk where
  "sample_sdk =
     \<lparr>pubkey_from_str = sample_key,
      find_program_address = (\<lambda>seeds program. take 32 (concat seeds @ program @ replicate 32 0)),
      associated_token_address = (\<lambda>owner mint program. take 16 owner @ take 16 mint),
      create_ata_idempotent = (\<lambda>payer owner mint program.
        sample_instruction ''ata'' [payer, owner, mint, program] [1]),
      system_transfer = (\<lambda>source destination lamports.
        sample_instruction ''system'' [source, destination] ([2, 0, 0, 0] @ u64_to_le_bytes lamports)),
      token_transfer_checked = (\<lambda>source mint destination authority amount decimals.
        Some (sample_instruction ''token'' [source, mint, destination, authority]
          ([12] @ u64_to_le_bytes amount @ [decimals]))),
      token_sync_native = (\<lambda>account. Some (sample_instruction ''token'' [account] [17])),
      token_close_account = (\<lambda>account destination owner.
        Some (sample_instruction ''token'' [account, destination, owner] [9])),
      set_compute_unit_limit = (\<lambda>limit. sample_instruction ''budget'' [] (2 # u32_to_le_bytes limit)),
      set_compute_unit_price = (\<lambda>price. sample_instruction ''budget'' [] (3 # u64_to_le_bytes price)),
      spl_token_id = sample_key ''TokenkegQfeZyiNwAJbNbGKPFXCWuBvf'',
      spl_token_2022_id = sample_key ''TokenzQdBNbLqP5VEhdkAS6EPFLC1PHn'',
      mint_transfer_fees = (\<lambda>data. Some ((100, 1000000000000), (200, 5))),
      mint_transfer_hook = (\<lambda>data. False)\<rparr>"

end
