(* ===== verification/Swap_Fee.thy ===== *)
theory Swap_Fee
  imports Direct_Types
begin

text \<open>
  The platform fee: the rate and the destinations of
  \<open>src/chains/solana/swaps/revenue.rs\<close> and the fee of a direct swap,
  \<open>src/chains/solana/swaps/direct/fee.rs\<close>. Which leg pays is decided from the
  mints alone; the amount is sized from the leg's base. The lemmas show that the
  side and the resolution agree, so that a resolved pair never fails, and where the
  fee can go.
\<close>

section \<open>Revenue\<close>

definition SOL_MINT :: string where
  "SOL_MINT = ''So11111111111111111111111111111111111111112''"

definition USDC_MINT :: string where
  "USDC_MINT = ''EPjFWdd5AufqSSqeM2qN1xzybapC8G4wEGGkZwyTDt1v''"

definition PLATFORM_FEE_BPS :: u16 where
  "PLATFORM_FEE_BPS = 50"

definition BPS_DENOMINATOR :: u64 where
  "BPS_DENOMINATOR = 10000"

definition FEE_WALLET :: string where
  "FEE_WALLET = ''D6g8i5HkpesqiYF6YVCL93QD3py5gYwYU9ZrcRfBSayN''"

definition FEE_TOKEN_ACCOUNT_WSOL :: string where
  "FEE_TOKEN_ACCOUNT_WSOL = ''9yiZThTzanryu3mg1VVu6Qy4HiqKhydCAUqcasLHPxWB''"

definition FEE_TOKEN_ACCOUNT_USDC :: string where
  "FEE_TOKEN_ACCOUNT_USDC = ''GqnJw7x5Ss6jR5XU65v3siWmWaMae5VanxaCv7XU742v''"

record fee_reference =
  fr_mint :: string
  fr_account :: string

definition account_pubkey :: "sdk \<Rightarrow> fee_reference \<Rightarrow> pubkey" where
  "account_pubkey sdk r = pubkey_from_str sdk (fr_account r)"

definition mint_pubkey :: "sdk \<Rightarrow> fee_reference \<Rightarrow> pubkey" where
  "mint_pubkey sdk r = pubkey_from_str sdk (fr_mint r)"

definition is_native_sol :: "fee_reference \<Rightarrow> bool" where
  "is_native_sol r \<longleftrightarrow> fr_mint r = SOL_MINT"

definition fee_wallet_pubkey :: "sdk \<Rightarrow> pubkey" where
  "fee_wallet_pubkey sdk = pubkey_from_str sdk FEE_WALLET"

definition WSOL_REFERENCE :: fee_reference where
  "WSOL_REFERENCE = \<lparr>fr_mint = SOL_MINT, fr_account = FEE_TOKEN_ACCOUNT_WSOL\<rparr>"

definition USDC_REFERENCE :: fee_reference where
  "USDC_REFERENCE = \<lparr>fr_mint = USDC_MINT, fr_account = FEE_TOKEN_ACCOUNT_USDC\<rparr>"

definition fee_reference_for_mint :: "string \<Rightarrow> fee_reference option" where
  "fee_reference_for_mint mint =
     (if mint = SOL_MINT then Some WSOL_REFERENCE
      else if mint = USDC_MINT then Some USDC_REFERENCE else None)"

definition fee_reference_for_pair :: "string \<Rightarrow> string \<Rightarrow> fee_reference option" where
  "fee_reference_for_pair input_mint output_mint =
     (case fee_reference_for_mint output_mint of
        Some r \<Rightarrow> Some r
      | None \<Rightarrow> fee_reference_for_mint input_mint)"

definition platform_fee_amount :: "u64 \<Rightarrow> u64" where
  "platform_fee_amount amount =
     ucast ((ucast amount * ucast PLATFORM_FEE_BPS :: u128) div ucast BPS_DENOMINATOR)"

section \<open>The fee of a direct swap\<close>

definition wsol_mint :: "sdk \<Rightarrow> pubkey" where
  "wsol_mint sdk = pubkey_from_str sdk SOL_MINT"

definition usdc_mint_key :: "sdk \<Rightarrow> pubkey" where
  "usdc_mint_key sdk = pubkey_from_str sdk USDC_MINT"

definition usdc_fee_account :: "sdk \<Rightarrow> pubkey" where
  "usdc_fee_account sdk = pubkey_from_str sdk FEE_TOKEN_ACCOUNT_USDC"

datatype fee_side = FeeInput | FeeOutput | FeeNone

definition is_reference_mint :: "sdk \<Rightarrow> pubkey \<Rightarrow> bool" where
  "is_reference_mint sdk mint \<longleftrightarrow> mint = wsol_mint sdk \<or> mint = usdc_mint_key sdk"

definition for_pair :: "sdk \<Rightarrow> pubkey \<Rightarrow> pubkey \<Rightarrow> fee_side" where
  "for_pair sdk input_mint output_mint =
     (if is_reference_mint sdk output_mint then FeeOutput
      else if is_reference_mint sdk input_mint then FeeInput
      else FeeNone)"

record platform_fee =
  pf_side :: fee_side
  pf_amount :: u64
  pf_mint :: "pubkey option"
  pf_destination :: "pubkey option"
  pf_decimals :: u8

definition no_fee :: platform_fee where
  "no_fee = \<lparr>pf_side = FeeNone, pf_amount = 0, pf_mint = None, pf_destination = None,
             pf_decimals = 0\<rparr>"

definition resolve_fee ::
  "sdk \<Rightarrow> fee_side \<Rightarrow> pubkey \<Rightarrow> pubkey \<Rightarrow> u64 \<Rightarrow> platform_fee direct_swap_result" where
  "resolve_fee sdk side input_mint output_mint base =
     (if side = FeeNone then Inr no_fee
      else let reference_mint = (if side = FeeInput then input_mint else output_mint) in
        and_then
          (if reference_mint = wsol_mint sdk
           then Inr (wsol_mint sdk, fee_wallet_pubkey sdk, 9)
           else if reference_mint = usdc_mint_key sdk
           then Inr (usdc_mint_key sdk, usdc_fee_account sdk, 6)
           else Inl (InvalidRequest
             ''fee side resolved without a reference mint on either leg''))
          (\<lambda>(mint, destination, decimals).
             Inr \<lparr>pf_side = side, pf_amount = platform_fee_amount base, pf_mint = Some mint,
                  pf_destination = Some destination, pf_decimals = decimals\<rparr>))"

definition is_collectible :: "platform_fee \<Rightarrow> bool" where
  "is_collectible fee \<longleftrightarrow>
     pf_amount fee > 0 \<and> pf_mint fee \<noteq> None \<and> pf_destination fee \<noteq> None"

definition is_native :: "sdk \<Rightarrow> platform_fee \<Rightarrow> bool" where
  "is_native sdk fee \<longleftrightarrow> pf_mint fee = Some (wsol_mint sdk)"

definition transfer_instruction ::
  "sdk \<Rightarrow> platform_fee \<Rightarrow> pubkey \<Rightarrow> pubkey \<Rightarrow> instruction option direct_swap_result" where
  "transfer_instruction sdk fee source authority =
     (if \<not> is_collectible fee then Inr None
      else case (pf_mint fee, pf_destination fee) of
        (Some mint, Some destination) \<Rightarrow>
          if is_native sdk fee
          then Inr (Some (system_transfer sdk authority destination (pf_amount fee)))
          else and_then
            (ok_or (token_transfer_checked sdk source mint destination authority
                      (pf_amount fee) (pf_decimals fee))
               (Build ''platform fee transfer could not be built''))
            (\<lambda>instruction. Inr (Some instruction))
      | _ \<Rightarrow> Inr None)"

section \<open>Lemmas\<close>

lemma unat_platform_fee_amount: "unat (platform_fee_amount a) = unat a * 50 div 10000"
proof -
  have "unat a * 50 < 2 ^ 128" using u64_bound [of a] by simp
  then have div: "unat ((ucast a * ucast PLATFORM_FEE_BPS :: u128) div ucast BPS_DENOMINATOR)
      = unat a * 50 div 10000"
    by (simp add: unat_div unat_word_ariths unat_simps PLATFORM_FEE_BPS_def BPS_DENOMINATOR_def)
  have "unat a * 50 div 10000 < 2 ^ 64" using u64_bound [of a] by simp
  then show ?thesis
    by (simp add: platform_fee_amount_def unat_narrow_64 div)
qed

lemma platform_fee_le: "unat (platform_fee_amount a) \<le> unat a"
  by (simp add: unat_platform_fee_amount)

lemma resolve_for_pair_ok:
  "\<exists>fee. resolve_fee sdk (for_pair sdk i out) i out base = Inr fee
     \<and> pf_side fee = for_pair sdk i out"
  by (auto simp: resolve_fee_def for_pair_def is_reference_mint_def no_fee_def Let_def)

lemma resolve_fee_amount:
  "resolve_fee sdk side i out base = Inr fee \<Longrightarrow>
     pf_amount fee = (if side = FeeNone then 0 else platform_fee_amount base) \<and> pf_side fee = side"
  by (auto simp: resolve_fee_def no_fee_def Let_def split: if_splits)

text \<open>A resolved fee is paid in WSOL or USDC, and only to the platform's accounts.\<close>

lemma resolve_fee_destination:
  assumes "resolve_fee sdk side i out base = Inr fee" and "side \<noteq> FeeNone"
  shows "(pf_mint fee = Some (wsol_mint sdk) \<and> pf_destination fee = Some (fee_wallet_pubkey sdk)
            \<and> pf_decimals fee = 9)
       \<or> (pf_mint fee = Some (usdc_mint_key sdk) \<and> pf_destination fee = Some (usdc_fee_account sdk)
            \<and> pf_decimals fee = 6)"
  using assms by (auto simp: resolve_fee_def Let_def split: if_splits)

lemma resolve_fee_reference:
  assumes "resolve_fee sdk side i out base = Inr fee" and "side \<noteq> FeeNone"
  shows "pf_mint fee = Some (if side = FeeInput then i else out)"
  using assms by (auto simp: resolve_fee_def Let_def split: if_splits)

section \<open>Properties\<close>

text \<open>
  Resolving the fee of the side chosen for a pair never fails. A pair with no reference
  mint pays nothing; every other pair pays half a percent of its base, rounded down, in WSOL
  to the fee wallet or in USDC to the platform's USDC account.
\<close>

theorem platform_fee_resolves:
  "\<exists>fee. resolve_fee sdk (for_pair sdk i out) i out base = Inr fee
     \<and> (for_pair sdk i out = FeeNone \<and> pf_amount fee = 0 \<and> pf_destination fee = None
       \<or> unat (pf_amount fee) = unat base * 50 div 10000
         \<and> (pf_mint fee, pf_destination fee, pf_decimals fee)
             \<in> {(Some (wsol_mint sdk), Some (fee_wallet_pubkey sdk), 9),
                 (Some (usdc_mint_key sdk), Some (usdc_fee_account sdk), 6)})"
proof -
  obtain fee where fee: "resolve_fee sdk (for_pair sdk i out) i out base = Inr fee"
    using resolve_for_pair_ok by blast
  show ?thesis
  proof (cases "for_pair sdk i out = FeeNone")
    case True
    then show ?thesis by (simp add: resolve_fee_def no_fee_def)
  next
    case False
    then show ?thesis
      using fee resolve_fee_amount [OF fee] resolve_fee_destination [OF fee False]
      by (auto simp: unat_platform_fee_amount)
  qed
qed

end
