(* ===== verification/Amount_Math.thy ===== *)
theory Amount_Math
  imports Rust_Prelude
begin

text \<open>
  \<open>src/chains/amount/math.rs\<close>: full-width integer ratio arithmetic. The
  256-bit intermediate is a pair of \<open>u128\<close> limbs; the division is the source's
  bit-by-bit long division. The lemmas show that the limbs are the exact product
  and that the quotients are the exact floor and ceiling, refused exactly when
  they do not fit 128 bits. They end in the locale \<open>ratio_arith\<close>, the contract
  the pool venues rely on, interpreted on these definitions.
\<close>

section \<open>Definitions\<close>

definition LOW_64 :: u128 where
  "LOW_64 = 0xFFFFFFFFFFFFFFFF"

definition mul_full :: "u128 \<Rightarrow> u128 \<Rightarrow> u128 \<times> u128" where
  "mul_full a b =
     (let a_hi = drop_bit 64 a; a_lo = a AND LOW_64;
          b_hi = drop_bit 64 b; b_lo = b AND LOW_64;
          low_low = a_lo * b_lo;
          low_high = a_lo * b_hi;
          high_low = a_hi * b_lo;
          high_high = a_hi * b_hi;
          middle = drop_bit 64 low_low + (low_high AND LOW_64) + (high_low AND LOW_64);
          low = (low_low AND LOW_64) OR push_bit 64 middle;
          high = high_high + drop_bit 64 low_high + drop_bit 64 high_low + drop_bit 64 middle
      in (high, low))"

text \<open>The loop \<open>for bit in (0..128).rev()\<close>, with \<open>bit + 1\<close> iterations left.\<close>

fun div_full_loop :: "nat \<Rightarrow> u128 \<Rightarrow> u128 \<Rightarrow> u128 \<Rightarrow> u128 \<Rightarrow> u128" where
  "div_full_loop 0 low divisor remainder quot = quot"
| "div_full_loop (Suc n) low divisor remainder quot =
     (let carry = drop_bit 127 remainder;
          remainder = push_bit 1 remainder OR (drop_bit n low AND 1)
      in if carry = 1 \<or> divisor \<le> remainder
         then div_full_loop n low divisor (remainder - divisor) (quot OR push_bit n 1)
         else div_full_loop n low divisor remainder quot)"

definition div_full :: "u128 \<Rightarrow> u128 \<Rightarrow> u128 \<Rightarrow> u128 option" where
  "div_full high low divisor =
     (if divisor = 0 \<or> divisor \<le> high then None
      else Some (div_full_loop 128 low divisor high 0))"

definition mul_div_floor :: "u128 \<Rightarrow> u128 \<Rightarrow> u128 \<Rightarrow> u128 option" where
  "mul_div_floor a b denominator =
     (case mul_full a b of (high, low) \<Rightarrow> div_full high low denominator)"

definition mul_div_ceil :: "u128 \<Rightarrow> u128 \<Rightarrow> u128 \<Rightarrow> u128 option" where
  "mul_div_ceil a b denominator =
     (case mul_div_floor a b denominator of
        None \<Rightarrow> None
      | Some fl \<Rightarrow>
          if mul_full fl denominator = mul_full a b then Some fl
          else checked_add fl 1)"

definition mul_shr128_floor :: "u128 \<Rightarrow> u128 \<Rightarrow> u128" where
  "mul_shr128_floor a b = fst (mul_full a b)"

definition mul_shr128_ceil :: "u128 \<Rightarrow> u128 \<Rightarrow> u128" where
  "mul_shr128_ceil a b =
     (case mul_full a b of (high, low) \<Rightarrow>
        if low = 0 then high else saturating_add high 1)"

definition shl128_div_floor :: "u128 \<Rightarrow> u128 \<Rightarrow> u128 option" where
  "shl128_div_floor numerator denominator = div_full numerator 0 denominator"

section \<open>The product limbs\<close>

lemma LOW_64_mask: "LOW_64 = mask 64"
  by (simp add: LOW_64_def mask_eq_exp_minus_1)

lemma unat_and_LOW_64: "unat (w AND LOW_64) = unat w mod 2 ^ 64"
proof -
  have "w AND LOW_64 = take_bit 64 w"
    by (simp add: LOW_64_mask take_bit_eq_mask)
  moreover have "unat (take_bit 64 w) = unat w mod 2 ^ 64"
    by (subst unsigned_take_bit_eq) (rule take_bit_eq_mod)
  ultimately show ?thesis by simp
qed

lemma or_push_bit_64: "(x AND LOW_64) OR push_bit 64 y = (x AND LOW_64) + push_bit 64 y"
proof (rule disjunctive_add_eq_or [symmetric])
  show "(x AND LOW_64) AND push_bit 64 y = 0"
    by (rule bit_eqI) (auto simp: bit_and_iff bit_push_bit_iff LOW_64_mask bit_mask_iff)
qed

text \<open>Schoolbook multiplication of two-limb numbers, on natural numbers.\<close>

lemma schoolbook:
  fixes p q r s m :: nat
  defines "mid \<equiv> (q * s) div m + (q * r) mod m + (p * s) mod m"
  shows "(p * r + (q * r) div m + (p * s) div m + mid div m) * (m * m)
           + ((q * s) mod m + (mid mod m) * m)
         = (p * m + q) * (r * m + s)"
proof -
  define a1 a2 b1 b2 c1 c2 d1 d2 where "a1 = (q * r) div m" and "a2 = (q * r) mod m"
    and "b1 = (p * s) div m" and "b2 = (p * s) mod m" and "c1 = (q * s) div m"
    and "c2 = (q * s) mod m" and "d1 = mid div m" and "d2 = mid mod m"
  have a: "q * r = a1 * m + a2" and b: "p * s = b1 * m + b2" and c: "q * s = c1 * m + c2"
    and d: "c1 + a2 + b2 = d1 * m + d2"
    by (simp_all add: a1_def a2_def b1_def b2_def c1_def c2_def d1_def d2_def mid_def)
  have "(p * r + a1 + b1 + d1) * (m * m) + (c2 + d2 * m)
        = p * r * (m * m) + (a1 * m + b1 * m + (d1 * m + d2)) * m + c2"
    by (simp add: algebra_simps)
  also have "\<dots> = p * r * (m * m) + ((a1 * m + a2) + (b1 * m + b2)) * m + (c1 * m + c2)"
    unfolding d [symmetric] by (simp add: algebra_simps)
  also have "\<dots> = (p * m + q) * (r * m + s)"
    unfolding a [symmetric] b [symmetric] c [symmetric] by (simp add: algebra_simps)
  finally show ?thesis
    unfolding a1_def b1_def c2_def d1_def d2_def .
qed

lemma limb_product_bound: "(x :: nat) < 2 ^ 64 \<Longrightarrow> y < 2 ^ 64 \<Longrightarrow> x * y < 2 ^ 128"
  using nat_mult_less_square [of x "2 ^ 64" y] by simp

lemma mul_full_exact:
  assumes "mul_full a b = (high, low)"
  shows "unat high * 2 ^ 128 + unat low = unat a * unat b"
proof -
  define p q r s where "p = unat a div 2 ^ 64" and "q = unat a mod 2 ^ 64"
    and "r = unat b div 2 ^ 64" and "s = unat b mod 2 ^ 64"
  have bounds: "p < 2 ^ 64" "q < 2 ^ 64" "r < 2 ^ 64" "s < 2 ^ 64"
    using u128_bound [of a] u128_bound [of b] by (auto simp: p_def q_def r_def s_def)
  have split: "unat a = p * 2 ^ 64 + q" "unat b = r * 2 ^ 64 + s"
    by (simp_all add: p_def q_def r_def s_def)
  define mid where "mid = (q * s) div 2 ^ 64 + (q * r) mod 2 ^ 64 + (p * s) mod 2 ^ 64"
  define H where "H = p * r + (q * r) div 2 ^ 64 + (p * s) div 2 ^ 64 + mid div 2 ^ 64"
  define L where "L = (q * s) mod 2 ^ 64 + (mid mod 2 ^ 64) * 2 ^ 64"
  have whole: "H * (2 ^ 64 * 2 ^ 64) + L = unat a * unat b"
    unfolding H_def L_def mid_def split by (rule schoolbook)
  have prods: "q * s < 2 ^ 128" "q * r < 2 ^ 128" "p * s < 2 ^ 128" "p * r < 2 ^ 128"
    using bounds by (simp_all only: limb_product_bound)
  have "unat a * unat b < 2 ^ 128 * 2 ^ 128"
    using nat_mult_less_square [OF word_unat_bound word_unat_bound, of a b] by simp
  then have "H * (2 ^ 64 * 2 ^ 64) < 2 ^ 128 * 2 ^ 128" using whole by linarith
  then have H: "H < 2 ^ 128" by simp
  have "(q * s) div 2 ^ 64 < 2 ^ 64" using prods(1) by (simp add: less_mult_imp_div_less)
  then have mid: "mid < 3 * 2 ^ 64" unfolding mid_def by simp
  have L: "L < 2 ^ 128"
  proof -
    have "mid mod 2 ^ 64 \<le> 2 ^ 64 - 1" by simp
    then show ?thesis unfolding L_def by simp
  qed
  define ll lh hl hh where "ll = (a AND LOW_64) * (b AND LOW_64)"
    and "lh = (a AND LOW_64) * drop_bit 64 b" and "hl = drop_bit 64 a * (b AND LOW_64)"
    and "hh = drop_bit 64 a * drop_bit 64 b"
  have limbs: "unat ll = q * s" "unat lh = q * r" "unat hl = p * s" "unat hh = p * r"
    using prods unfolding ll_def lh_def hl_def hh_def p_def q_def r_def s_def
    by (simp_all only: unat_word_ariths unat_and_LOW_64 unat_drop_bit_div) simp_all
  define m where "m = drop_bit 64 ll + (lh AND LOW_64) + (hl AND LOW_64)"
  have m: "unat m = mid"
    using mid unfolding m_def mid_def
    by (simp add: unat_word_ariths unat_and_LOW_64 unat_drop_bit_div limbs)
  have high: "high = hh + drop_bit 64 lh + drop_bit 64 hl + drop_bit 64 m"
    and low: "low = (ll AND LOW_64) + push_bit 64 m"
    using assms unfolding mul_full_def Let_def or_push_bit_64
      ll_def lh_def hl_def hh_def m_def by simp_all
  have "unat high = H"
    using H unfolding high H_def
    by (simp add: unat_word_ariths unat_drop_bit_div limbs m)
  moreover have "unat low = L"
    using L mod_mult_mult2 [of mid "2 ^ 64" "2 ^ 64 :: nat"] unfolding low L_def
    by (simp add: unat_word_ariths unat_push_bit_mod unat_and_LOW_64 limbs m)
  ultimately show ?thesis using whole by simp
qed

section \<open>The long division\<close>

lemma shift_in_bit:
  "unat (push_bit 1 r OR (drop_bit n low AND 1))
     = (2 * unat r + unat low div 2 ^ n mod 2) mod 2 ^ 128" for r low :: u128
proof -
  have disj: "push_bit 1 r AND (drop_bit n low AND 1) = 0"
    by (rule bit_eqI) (auto simp: bit_and_iff bit_1_iff bit_double_iff mult.commute [of r])
  have low: "unat (drop_bit n low AND 1) = unat low div 2 ^ n mod 2"
    by (simp add: and_one_eq unat_mod unat_drop_bit_div)
  have "push_bit 1 r OR (drop_bit n low AND 1) = push_bit 1 r + (drop_bit n low AND 1)"
    by (rule disjunctive_add_eq_or [OF disj, symmetric])
  then show ?thesis
    by (simp only: unat_word_ariths unat_push_bit_mod low)
      (simp add: mod_add_left_eq mult.commute)
qed

lemma set_quotient_bit:
  fixes q :: u128
  assumes "Suc n \<le> 128" and "unat q mod 2 ^ Suc n = 0"
  shows "unat (q OR push_bit n 1) = unat q + 2 ^ n"
proof -
  obtain k where k: "unat q = 2 ^ Suc n * k"
    using assms(2) by (auto simp: mod_eq_0_iff_dvd)
  have "\<not> bit q n"
  proof -
    have "\<not> bit (unat q) n" using k by (simp add: bit_iff_odd)
    then show ?thesis by (simp add: bit_unsigned_iff)
  qed
  then have disj: "q AND push_bit n 1 = 0"
    by (intro bit_eqI) (auto simp: bit_and_iff bit_exp_iff)
  have split: "(2::nat) ^ 128 = 2 ^ Suc n * 2 ^ (128 - Suc n)"
    using assms(1) by (metis le_add_diff_inverse power_add)
  have "unat q < 2 ^ 128" using word_unat_bound [of q] by simp
  then have "2 ^ Suc n * k < 2 ^ Suc n * 2 ^ (128 - Suc n)" unfolding k split .
  then have "Suc k \<le> 2 ^ (128 - Suc n)" by simp
  then have "2 ^ Suc n * Suc k \<le> (2::nat) ^ 128"
    unfolding split by (rule mult_le_mono2)
  moreover have "2 ^ Suc n * Suc k = unat q + 2 ^ n + 2 ^ n" using k by simp
  moreover have "(0::nat) < 2 ^ n" by simp
  ultimately have fits: "unat q + 2 ^ n < 2 ^ 128" by linarith
  have "q OR push_bit n 1 = q + push_bit n 1"
    by (rule disjunctive_add_eq_or [OF disj, symmetric])
  moreover have "unat (push_bit n 1 :: u128) = 2 ^ n"
    using assms(1) power_strict_increasing [of n 128 "2::nat"]
    by (subst unat_push_bit_mod) simp
  ultimately show ?thesis
    using fits by (simp add: unat_word_ariths)
qed

lemma long_division_step:
  fixes r low d n :: nat
  assumes "0 < d"
  defines "r2 \<equiv> 2 * r + low div 2 ^ n mod 2"
  shows "(r * 2 ^ Suc n + low mod 2 ^ Suc n) div d
       = (if d \<le> r2 then 2 ^ n + ((r2 - d) * 2 ^ n + low mod 2 ^ n) div d
          else (r2 * 2 ^ n + low mod 2 ^ n) div d)"
proof -
  have "low mod 2 ^ Suc n = (low div 2 ^ n mod 2) * 2 ^ n + low mod 2 ^ n"
    using mod_mult2_eq [of low "2 ^ n" 2] by (simp add: mult.commute)
  then have eq: "r * 2 ^ Suc n + low mod 2 ^ Suc n = r2 * 2 ^ n + low mod 2 ^ n"
    by (simp add: r2_def algebra_simps)
  show ?thesis
  proof (cases "d \<le> r2")
    case True
    then have "r2 * 2 ^ n = (r2 - d) * 2 ^ n + d * 2 ^ n"
      by (simp flip: add_mult_distrib)
    then have "r2 * 2 ^ n + low mod 2 ^ n = (r2 - d) * 2 ^ n + low mod 2 ^ n + 2 ^ n * d"
      by simp
    then have "(r * 2 ^ Suc n + low mod 2 ^ Suc n) div d
             = ((r2 - d) * 2 ^ n + low mod 2 ^ n + 2 ^ n * d) div d"
      by (simp only: eq)
    also have "\<dots> = 2 ^ n + ((r2 - d) * 2 ^ n + low mod 2 ^ n) div d"
      using assms(1) by simp
    finally show ?thesis using True by simp
  next
    case False
    then show ?thesis using eq by simp
  qed
qed

lemma long_division_remainder:
  fixes r' d :: u128 and r2 :: nat
  assumes "unat r' = r2 mod 2 ^ 128" and "r2 < 2 * unat d" and "unat d < 2 ^ 128"
    and "2 ^ 128 \<le> r2 \<or> d \<le> r'"
  shows "unat d \<le> r2" and "unat (r' - d) = r2 - unat d"
proof -
  have r': "unat r' = (if r2 < 2 ^ 128 then r2 else r2 - 2 ^ 128)"
    using assms(1-3) by (simp add: mod_if)
  show "unat d \<le> r2"
    using assms(3,4) r' by (auto simp: word_le_nat_alt split: if_splits)
  then show "unat (r' - d) = r2 - unat d"
    using assms(2-4) r' by (auto simp: unat_sub_if' word_le_nat_alt split: if_splits)
qed

lemma div_full_loop_exact:
  assumes "n \<le> 128" and "unat r < unat d" and "unat q mod 2 ^ n = 0"
  shows "unat (div_full_loop n low d r q)
       = unat q + (unat r * 2 ^ n + unat low mod 2 ^ n) div unat d"
  using assms
proof (induction n low d r q rule: div_full_loop.induct)
  case (1 low d r q)
  then show ?case by simp
next
  case (2 n low d r q)
  define r' where "r' = push_bit 1 r OR (drop_bit n low AND 1)"
  define r2 where "r2 = 2 * unat r + unat low div 2 ^ n mod 2"
  have r': "unat r' = r2 mod 2 ^ 128" by (simp only: r'_def r2_def shift_in_bit)
  have r2: "r2 < 2 * unat d" using "2.prems"(2) by (simp add: r2_def)
  have d: "unat d < 2 ^ 128" using word_unat_bound [of d] by simp
  have carry: "drop_bit 127 r = 1 \<longleftrightarrow> 2 ^ 127 \<le> unat r"
    using word_unat_bound [of r]
    by (simp add: word_unat_eq_iff unat_drop_bit_div) (auto simp: div_eq_dividend_iff)
  have q': "unat q mod 2 ^ n = 0"
    using "2.prems"(3) by (auto simp: mod_eq_0_iff_dvd elim: dvd_mult_right)
  have unfold: "div_full_loop (Suc n) low d r q =
      (if drop_bit 127 r = 1 \<or> d \<le> r'
       then div_full_loop n low d (r' - d) (q OR push_bit n 1) else div_full_loop n low d r' q)"
    by (simp only: div_full_loop.simps Let_def r'_def)
  have step: "(unat r * 2 ^ Suc n + unat low mod 2 ^ Suc n) div unat d
       = (if unat d \<le> r2 then 2 ^ n + ((r2 - unat d) * 2 ^ n + unat low mod 2 ^ n) div unat d
          else (r2 * 2 ^ n + unat low mod 2 ^ n) div unat d)"
    unfolding r2_def using "2.prems"(2) by (intro long_division_step) simp
  show ?case
  proof (cases "drop_bit 127 r = 1 \<or> d \<le> r'")
    case True
    have ge: "unat d \<le> r2" and sub: "unat (r' - d) = r2 - unat d"
      using long_division_remainder [OF r' r2 d] True carry by (auto simp: r2_def)
    have less: "unat (r' - d) < unat d" using sub ge r2 by simp
    have bit_set: "unat (q OR push_bit n 1) = unat q + 2 ^ n"
      using "2.prems" by (intro set_quotient_bit) simp_all
    then have "unat (q OR push_bit n 1) mod 2 ^ n = 0" using q' by simp
    then have "unat (div_full_loop n low d (r' - d) (q OR push_bit n 1))
             = unat q + 2 ^ n + ((r2 - unat d) * 2 ^ n + unat low mod 2 ^ n) div unat d"
      using "2.IH"(1) [OF refl refl] True "2.prems"(1) less bit_set sub by (simp add: r'_def)
    then show ?thesis
      using True ge by (simp only: unfold step if_True add.assoc)
  next
    case False
    then have r2': "unat r' = r2" and less: "r2 < unat d"
      using carry r' by (auto simp: r2_def word_le_nat_alt)
    then have "unat (div_full_loop n low d r' q)
             = unat q + (r2 * 2 ^ n + unat low mod 2 ^ n) div unat d"
      using "2.IH"(2) [OF refl refl] False "2.prems"(1) q' by (simp add: r'_def)
    then show ?thesis
      using False less by (simp only: unfold step if_False not_le [symmetric])
  qed
qed

section \<open>Exactness of the ratio operations\<close>

lemma div_full_spec:
  "div_full high low d =
     (if unat d = 0 \<or> 2 ^ 128 \<le> (unat high * 2 ^ 128 + unat low) div unat d then None
      else Some (of_nat ((unat high * 2 ^ 128 + unat low) div unat d)))"
proof (cases "d = 0")
  case True
  then show ?thesis by (simp add: div_full_def)
next
  case False
  then have d: "0 < unat d" by (simp add: unat_gt_0)
  define N where "N = unat high * 2 ^ 128 + unat low"
  have low: "unat low < 2 ^ 128" using word_unat_bound [of low] by simp
  show ?thesis
  proof (cases "unat d \<le> unat high")
    case True
    then have "2 ^ 128 * unat d \<le> N"
      using mult_le_mono1 [OF True, of "2 ^ 128"] by (simp add: N_def mult.commute)
    then have "2 ^ 128 \<le> N div unat d" using d by (simp add: less_eq_div_iff_mult_less_eq)
    then show ?thesis
      using True by (simp add: div_full_def word_le_nat_alt N_def)
  next
    case less: False
    have "Suc (unat high) * 2 ^ 128 \<le> unat d * 2 ^ 128"
      using less by (intro mult_le_mono1) simp
    then have "N < 2 ^ 128 * unat d" using low by (simp add: N_def mult.commute)
    then have fits: "N div unat d < 2 ^ 128" using d by (simp add: less_mult_imp_div_less)
    have "unat (div_full_loop 128 low d high 0) = N div unat d"
      using div_full_loop_exact [of 128 high d 0 low] less low by (simp add: N_def)
    then have "div_full_loop 128 low d high 0 = of_nat (N div unat d)"
      using fits by (simp add: word_unat_eq_iff unat_of_nat)
    then show ?thesis
      using False less fits d by (simp add: div_full_def word_le_nat_alt N_def)
  qed
qed

lemma mul_div_floor_spec:
  "mul_div_floor a b d =
     (if unat d = 0 \<or> 2 ^ 128 \<le> unat a * unat b div unat d then None
      else Some (of_nat (unat a * unat b div unat d)))"
proof -
  obtain high low where hl: "mul_full a b = (high, low)" by fastforce
  show ?thesis
    unfolding mul_div_floor_def hl prod.case div_full_spec mul_full_exact [OF hl] ..
qed

lemma mul_full_inject:
  "mul_full a b = mul_full c d \<longleftrightarrow> unat a * unat b = unat c * unat d"
proof -
  obtain h l h' l' where e: "mul_full a b = (h, l)" and e': "mul_full c d = (h', l')"
    by fastforce
  have "unat h = unat h' \<and> unat l = unat l'" if "unat a * unat b = unat c * unat d"
  proof -
    have eq: "unat h * 2 ^ 128 + unat l = unat h' * 2 ^ 128 + unat l'"
      using mul_full_exact [OF e] mul_full_exact [OF e'] that by simp
    have l: "unat l < 2 ^ 128" "unat l' < 2 ^ 128"
      using word_unat_bound [of l] word_unat_bound [of l'] by simp_all
    have "unat h = (unat h * 2 ^ 128 + unat l) div 2 ^ 128"
      and "unat h' = (unat h' * 2 ^ 128 + unat l') div 2 ^ 128"
      using l by (simp_all add: div_mult_self3)
    then have "unat h = unat h'" using eq by simp
    then show ?thesis using eq by simp
  qed
  then have "unat a * unat b = unat c * unat d \<Longrightarrow> (h, l) = (h', l')"
    by (simp add: word_unat_eq_iff)
  moreover have "(h, l) = (h', l') \<Longrightarrow> unat a * unat b = unat c * unat d"
    using mul_full_exact [OF e] mul_full_exact [OF e'] by simp
  ultimately show ?thesis unfolding e e' by blast
qed

lemma mul_div_ceil_spec:
  "mul_div_ceil a b d =
     (if unat d = 0 \<or> 2 ^ 128 \<le> ceil_nat (unat a * unat b) (unat d) then None
      else Some (of_nat (ceil_nat (unat a * unat b) (unat d))))"
proof (cases "mul_div_floor a b d")
  case None
  then have "unat d = 0 \<or> 2 ^ 128 \<le> unat a * unat b div unat d"
    by (simp add: mul_div_floor_spec split: if_splits)
  moreover have "unat d = 0 \<or> unat a * unat b div unat d \<le> ceil_nat (unat a * unat b) (unat d)"
    using div_le_ceil_nat by blast
  ultimately have "unat d = 0 \<or> 2 ^ 128 \<le> ceil_nat (unat a * unat b) (unat d)"
    using le_trans by blast
  then show ?thesis using None by (simp add: mul_div_ceil_def)
next
  case (Some f)
  let ?n = "unat a * unat b"
  have d: "0 < unat d" and fits: "?n div unat d < 2 ^ 128" and f: "unat f = ?n div unat d"
    using Some by (auto simp: mul_div_floor_spec unat_of_nat split: if_splits)
  have exact: "mul_full f d = mul_full a b \<longleftrightarrow> ?n mod unat d = 0"
    by (simp add: mul_full_inject f)
      (metis mod_0_imp_dvd dvd_div_mult_self dvd_triv_right dvd_imp_mod_0)
  show ?thesis
  proof (cases "?n mod unat d = 0")
    case True
    then have "f = of_nat (ceil_nat ?n (unat d))"
      using d fits f by (simp add: ceil_nat_eq word_unat_eq_iff unat_of_nat)
    then show ?thesis
      using True Some exact d fits by (simp add: mul_div_ceil_def ceil_nat_eq)
  next
    case False
    have "f + 1 = of_nat (Suc (?n div unat d))" by (simp flip: f)
    then show ?thesis
      using False Some exact d fits f by (simp add: mul_div_ceil_def ceil_nat_eq checked_add_def)
  qed
qed

lemma mul_shr128_floor_exact: "unat (mul_shr128_floor a b) = unat a * unat b div 2 ^ 128"
proof -
  obtain h l where e: "mul_full a b = (h, l)" by fastforce
  have "unat l < 2 ^ 128" using word_unat_bound [of l] by simp
  then have "(unat h * 2 ^ 128 + unat l) div 2 ^ 128 = unat h" by simp
  then show ?thesis
    using mul_full_exact [OF e] by (simp add: mul_shr128_floor_def e)
qed

lemma mul_shr128_ceil_exact:
  "unat (mul_shr128_ceil a b) = ceil_nat (unat a * unat b) (2 ^ 128)"
proof -
  obtain h l where e: "mul_full a b = (h, l)" by fastforce
  have l: "unat l < 2 ^ 128" using word_unat_bound [of l] by simp
  have prod: "unat a * unat b = 2 ^ 128 * unat h + unat l"
    using mul_full_exact [OF e] by simp
  have "unat a * unat b \<le> (2 ^ 128 - 1) * (2 ^ 128 - 1)"
    using u128_bound [of a] u128_bound [of b] by (intro mult_le_mono) simp_all
  then have "2 ^ 128 * unat h \<le> (2 ^ 128 - 1) * (2 ^ 128 - 1)" using prod by linarith
  then have "unat h < 2 ^ 128 - 1" by simp
  then show ?thesis
    using l ceil_nat_decomp [of "unat l" "2 ^ 128" "unat h"]
    by (simp add: mul_shr128_ceil_def e prod unat_saturating_add unat_eq_0)
qed

lemma shl128_div_floor_spec:
  "shl128_div_floor n d =
     (if unat d = 0 \<or> 2 ^ 128 \<le> unat n * 2 ^ 128 div unat d then None
      else Some (of_nat (unat n * 2 ^ 128 div unat d)))"
  by (simp add: shl128_div_floor_def div_full_spec)

section \<open>The contract of the ratio operations\<close>

text \<open>
  What a client relies on: a floor and a ceiling of \<open>a * b / d\<close> taken without
  intermediate overflow, present exactly when \<open>d\<close> is not zero and the result is a
  \<open>u128\<close>.
\<close>

locale ratio_arith =
  fixes floor_op :: "u128 \<Rightarrow> u128 \<Rightarrow> u128 \<Rightarrow> u128 option"
    and ceil_op :: "u128 \<Rightarrow> u128 \<Rightarrow> u128 \<Rightarrow> u128 option"
  assumes floor_Some:
    "floor_op a b d = Some q \<longleftrightarrow> 0 < unat d \<and> unat q = unat a * unat b div unat d"
    and ceil_Some:
    "ceil_op a b d = Some q \<longleftrightarrow> 0 < unat d \<and> unat q = ceil_nat (unat a * unat b) (unat d)"
begin

lemma floor_times_le: "floor_op a b d = Some q \<Longrightarrow> unat q * unat d \<le> unat a * unat b"
  by (simp add: floor_Some)

lemma ceil_times_ge: "ceil_op a b d = Some q \<Longrightarrow> unat a * unat b \<le> unat q * unat d"
  by (simp add: ceil_Some ceil_nat_ge)

lemma floor_le_ceil: "floor_op a b d = Some p \<Longrightarrow> ceil_op a b d = Some q \<Longrightarrow> unat p \<le> unat q"
  by (simp add: floor_Some ceil_Some div_le_ceil_nat)

lemma floor_ge_iff:
  "floor_op a b d = Some q \<Longrightarrow> k \<le> unat q \<longleftrightarrow> k * unat d \<le> unat a * unat b"
  by (simp add: floor_Some less_eq_div_iff_mult_less_eq)

lemma floor_le_left: "floor_op a b d = Some q \<Longrightarrow> unat b \<le> unat d \<Longrightarrow> unat q \<le> unat a"
proof -
  assume f: "floor_op a b d = Some q" and bd: "unat b \<le> unat d"
  have "unat q * unat d \<le> unat a * unat d"
    using floor_times_le [OF f] mult_le_mono2 [OF bd, of "unat a"] by linarith
  then show ?thesis using f by (simp add: floor_Some)
qed

lemma ceil_le_left: "ceil_op a b d = Some q \<Longrightarrow> unat b \<le> unat d \<Longrightarrow> unat q \<le> unat a"
  by (auto simp: ceil_Some ceil_nat_le_iff)

lemma ceil_ge_left: "ceil_op a b d = Some q \<Longrightarrow> unat d \<le> unat b \<Longrightarrow> unat a \<le> unat q"
proof -
  assume c: "ceil_op a b d = Some q" and db: "unat d \<le> unat b"
  have "unat a * unat d \<le> unat q * unat d"
    using ceil_times_ge [OF c] mult_le_mono2 [OF db, of "unat a"] by linarith
  then show ?thesis using c by (simp add: ceil_Some)
qed

lemma floor_exists: "0 < unat d \<Longrightarrow> unat a * unat b div unat d < 2 ^ 128 \<Longrightarrow> \<exists>q. floor_op a b d = Some q"
  by (intro exI [of _ "of_nat (unat a * unat b div unat d)"]) (simp add: floor_Some unat_of_nat)

lemma ceil_exists: "0 < unat d \<Longrightarrow> unat b \<le> unat d \<Longrightarrow> \<exists>q. ceil_op a b d = Some q"
proof -
  assume d: "0 < unat d" and bd: "unat b \<le> unat d"
  have "ceil_nat (unat a * unat b) (unat d) \<le> unat a" using d bd by (simp add: ceil_nat_le_iff)
  then show ?thesis
    using d u128_bound [of a]
    by (intro exI [of _ "of_nat (ceil_nat (unat a * unat b) (unat d))"])
      (simp add: ceil_Some unat_of_nat)
qed

text \<open>Grossing an amount up by a fee and taking the fee off again never loses the amount.\<close>

lemma gross_up_covers:
  assumes "ceil_op x d n = Some g" and "floor_op g n d = Some y" and "unat n \<le> unat d"
  shows "unat x \<le> unat y"
  using ceil_times_ge [OF assms(1)] assms(2) by (simp add: floor_ge_iff mult.commute)

end

interpretation amount: ratio_arith mul_div_floor mul_div_ceil
proof
  fix a b d q :: u128
  show "mul_div_floor a b d = Some q \<longleftrightarrow> 0 < unat d \<and> unat q = unat a * unat b div unat d"
    using u128_bound [of q] by (auto simp: mul_div_floor_spec word_unat_eq_iff unat_of_nat)
  show "mul_div_ceil a b d = Some q \<longleftrightarrow>
      0 < unat d \<and> unat q = ceil_nat (unat a * unat b) (unat d)"
    using u128_bound [of q] by (auto simp: mul_div_ceil_spec word_unat_eq_iff unat_of_nat)
qed

section \<open>Properties\<close>

text \<open>
  C37: the 256-bit ratio operations equal their mathematical definition. A floor or a ceiling
  of \<open>a * b / d\<close> is returned exactly when \<open>d\<close> is not zero and the result fits a \<open>u128\<close>,
  and it is the exact value, whatever the size of the intermediate product.
\<close>

theorem ratio_operations_exact:
  "mul_div_floor a b d =
     (if unat d = 0 \<or> 2 ^ 128 \<le> unat a * unat b div unat d then None
      else Some (of_nat (unat a * unat b div unat d)))
   \<and> mul_div_ceil a b d =
     (if unat d = 0 \<or> 2 ^ 128 \<le> ceil_nat (unat a * unat b) (unat d) then None
      else Some (of_nat (ceil_nat (unat a * unat b) (unat d))))
   \<and> unat (mul_shr128_floor a b) = unat a * unat b div 2 ^ 128
   \<and> unat (mul_shr128_ceil a b) = ceil_nat (unat a * unat b) (2 ^ 128)"
  by (intro conjI mul_div_floor_spec mul_div_ceil_spec mul_shr128_floor_exact mul_shr128_ceil_exact)

end
