(* ===== verification/Curve_Math.thy ===== *)
theory Curve_Math
  imports Amount_Math
begin

text \<open>
  \<open>src/chains/solana/swaps/direct/venues/math.rs\<close>: the curve arithmetic shared
  by the constant-product venues. The lemmas give the natural-number value of
  each operation and show the rounding directions the module promises: an output
  rounds down and never drains the reserve, a fee rounds up and never exceeds the
  amount it is taken from.
\<close>

section \<open>Definitions\<close>

definition ceil_div :: "u128 \<Rightarrow> u128 \<Rightarrow> u128" where
  "ceil_div numerator denominator =
     (if denominator = 0 then 0 else div_ceil numerator denominator)"

definition fee_amount :: "u64 \<Rightarrow> u64 \<Rightarrow> u64 \<Rightarrow> u64" where
  "fee_amount amount rate denominator =
     (if rate = 0 \<or> denominator = 0 then 0
      else ucast (min (ceil_div (ucast amount * ucast rate) (ucast denominator)) (ucast amount)))"

definition constant_product_out :: "u64 \<Rightarrow> u64 \<Rightarrow> u64 \<Rightarrow> u64" where
  "constant_product_out reserve_in reserve_out amount_in =
     (if reserve_in = 0 \<or> reserve_out = 0 \<or> amount_in = 0 then 0
      else let numerator = ucast reserve_out * ucast amount_in :: u128;
               denominator = ucast reserve_in + ucast amount_in :: u128;
               out = numerator div denominator
           in ucast (min out (saturating_sub (ucast reserve_out) 1)))"

definition clamp_f64 :: "f64 \<Rightarrow> f64 \<Rightarrow> f64 \<Rightarrow> f64" where
  "clamp_f64 x lo hi = (if x < lo then lo else if hi < x then hi else x)"

definition price_impact_pct :: "u64 \<Rightarrow> u64 \<Rightarrow> u64 \<Rightarrow> u64 \<Rightarrow> u64 \<Rightarrow> f64" where
  "price_impact_pct reserve_in reserve_out amount_in lp_fee amount_out =
     (let swapped = saturating_sub amount_in lp_fee in
      if reserve_in = 0 \<or> reserve_out = 0 \<or> swapped = 0 \<or> amount_out = 0 then 0
      else let spot = real (unat reserve_out) / real (unat reserve_in);
               realised = real (unat amount_out) / real (unat swapped)
           in if spot \<le> 0 then 0
              else clamp_f64 ((spot - realised) / spot * 100) 0 100)"

text \<open>
  The price impact of a move in the square-root price, the same expression in the
  CLMM, DAMM and DBC venues.
\<close>

definition sqrt_price_impact :: "u128 \<Rightarrow> u128 \<Rightarrow> f64" where
  "sqrt_price_impact sqrt_before sqrt_after =
     (let before = real (unat sqrt_before) / 2 ^ 64;
          after = real (unat sqrt_after) / 2 ^ 64
      in if before > 0
         then clamp_f64 (\<bar>before * before - after * after\<bar> / (before * before) * 100) 0 100
         else 0)"

section \<open>Values\<close>

lemma clamp_f64_range: "lo \<le> hi \<Longrightarrow> lo \<le> clamp_f64 x lo hi \<and> clamp_f64 x lo hi \<le> hi"
  by (auto simp: clamp_f64_def)

lemma price_impact_pct_range:
  "0 \<le> price_impact_pct ri ro a f out \<and> price_impact_pct ri ro a f out \<le> 100"
  using clamp_f64_range [of 0 100] by (auto simp: price_impact_pct_def Let_def)

lemma sqrt_price_impact_range: "0 \<le> sqrt_price_impact a b \<and> sqrt_price_impact a b \<le> 100"
  using clamp_f64_range [of 0 100] by (auto simp: sqrt_price_impact_def Let_def)

lemma unat_ceil_div [unat_simps]:
  "unat (ceil_div n d) = (if unat d = 0 then 0 else ceil_nat (unat n) (unat d))"
  by (simp add: ceil_div_def unat_div_ceil unat_eq_0)

lemma unat_min_narrow: "unat (ucast (min x (ucast a)) :: u64) = min (unat x) (unat a)"
  for x :: u128 and a :: u64
proof -
  have "unat (min x (ucast a)) < 2 ^ 64"
    using u64_bound [of a] by (simp add: unat_simps)
  then show ?thesis by (simp add: unat_narrow_64 unat_simps)
qed

lemma unat_fee_amount:
  "unat (fee_amount amount rate denominator) =
     (if unat rate = 0 \<or> unat denominator = 0 then 0
      else min (ceil_nat (unat amount * unat rate) (unat denominator)) (unat amount))"
  by (simp add: fee_amount_def unat_min_narrow unat_simps unat_eq_0)

lemma fee_amount_le: "unat (fee_amount a r d) \<le> unat a"
  by (simp add: unat_fee_amount)

lemma fee_amount_below_rate:
  "unat r \<le> unat d \<Longrightarrow> 0 < unat d \<Longrightarrow> unat (fee_amount a r d) = ceil_nat (unat a * unat r) (unat d)"
proof -
  assume r: "unat r \<le> unat d" and d: "0 < unat d"
  then have "ceil_nat (unat a * unat r) (unat d) \<le> unat a"
    by (simp add: ceil_nat_le_iff)
  then show ?thesis using d by (auto simp: unat_fee_amount)
qed

text \<open>The curve can never pay out its whole reserve, so the clamp never binds.\<close>

lemma product_share_less:
  fixes ri ro x :: nat
  assumes "0 < ri" and "0 < ro"
  shows "ro * x div (ri + x) < ro"
proof -
  have "ro * x < ro * (ri + x)" using assms by simp
  then show ?thesis using assms by (simp add: div_less_iff_less_mult)
qed

lemma unat_constant_product_out:
  "unat (constant_product_out ri ro x) =
     (if unat ri = 0 \<or> unat ro = 0 then 0 else unat ro * unat x div (unat ri + unat x))"
proof (cases "ri = 0 \<or> ro = 0 \<or> x = 0")
  case True
  then show ?thesis by (auto simp: constant_product_out_def)
next
  case False
  then have pos: "0 < unat ri" "0 < unat ro" by (simp_all add: unat_gt_0)
  have small: "unat ro * unat x div (unat ri + unat x) < unat ro"
    using pos by (rule product_share_less)
  have div: "unat ((ucast ro * ucast x :: u128) div (ucast ri + ucast x))
           = unat ro * unat x div (unat ri + unat x)"
    by (simp add: unat_div unat_simps)
  have one: "unat (saturating_sub (ucast ro) 1 :: u128) = unat ro - 1"
    by (simp add: unat_simps)
  have min: "min (unat ro * unat x div (unat ri + unat x)) (unat ro - Suc 0)
           = unat ro * unat x div (unat ri + unat x)"
    using small by simp
  have "unat (min ((ucast ro * ucast x :: u128) div (ucast ri + ucast x))
                 (saturating_sub (ucast ro) 1)) < 2 ^ 64"
    using small u64_bound [of ro] by (simp add: unat_min_word div one)
  then show ?thesis
    using False pos
    by (simp add: constant_product_out_def Let_def unat_narrow_64 unat_min_word div one min)
qed

lemma constant_product_out_less: "0 < unat ro \<Longrightarrow> unat (constant_product_out ri ro x) < unat ro"
  by (simp add: unat_constant_product_out product_share_less)

text \<open>The product of the reserves does not decrease.\<close>

lemma constant_product_invariant:
  "unat ri * unat ro
     \<le> (unat ri + unat x) * (unat ro - unat (constant_product_out ri ro x))"
proof (cases "unat ri = 0 \<or> unat ro = 0")
  case True
  then show ?thesis by auto
next
  case False
  define out where "out = unat (constant_product_out ri ro x)"
  have "out < unat ro" using False by (simp add: out_def constant_product_out_less)
  have "out * (unat ri + unat x) \<le> unat ro * unat x"
    using False by (simp add: out_def unat_constant_product_out)
  then have "(unat ri + unat x) * out + unat ri * unat ro \<le> (unat ri + unat x) * unat ro"
    by (simp add: algebra_simps)
  then show ?thesis
    unfolding out_def [symmetric] by (simp add: diff_mult_distrib2)
qed

text \<open>A larger input never gets less, nor more than its proportional share of the reserve.\<close>

lemma product_share_mono:
  fixes ri ro x y :: nat
  assumes "x \<le> y" and "0 < ri"
  shows "ro * x div (ri + x) \<le> ro * y div (ri + y)"
proof -
  have "ro * x div (ri + x) * (ri + x) \<le> ro * x" by simp
  moreover define q where "q = ro * x div (ri + x)"
  ultimately have q: "q * (ri + x) \<le> ro * x" by simp
  have "q \<le> ro"
    using q assms(2) by (metis add_gr_0 le_add2 mult_le_cancel2 mult_le_mono2 le_trans)
  then have "q * (y - x) \<le> ro * (y - x)" by simp
  then have "q * (ri + x) + q * (y - x) \<le> ro * x + ro * (y - x)" using q by linarith
  then have "q * (ri + y) \<le> ro * y"
    using assms(1) by (simp flip: add_mult_distrib2)
  then show ?thesis
    using assms(2) unfolding q_def by (simp add: less_eq_div_iff_mult_less_eq)
qed

lemma constant_product_mono:
  "unat x \<le> unat y \<Longrightarrow> unat (constant_product_out ri ro x) \<le> unat (constant_product_out ri ro y)"
  by (simp add: unat_constant_product_out product_share_mono)

text \<open>What a fee leaves of the amount, and so the output, grows with the amount.\<close>

lemma after_fee_mono:
  assumes "unat a \<le> unat b"
  shows "unat a - unat (fee_amount a r d) \<le> unat b - unat (fee_amount b r d)"
proof (cases "unat r = 0 \<or> unat d = 0")
  case True
  then show ?thesis using assms by (simp add: unat_fee_amount)
next
  case False
  then show ?thesis
    using rest_of_share_mono [OF assms, of "unat d" "unat r"] by (auto simp: unat_fee_amount)
qed

text \<open>An output-side fee, converted to input units at the rate of the fill.\<close>

lemma converted_fee_le:
  fixes charged total input :: u64
  assumes "unat charged \<le> unat total" and "total \<noteq> 0"
  shows "unat (ucast ((ucast charged * ucast input :: u128) div ucast total) :: u64) \<le> unat input"
proof -
  have pos: "0 < unat total" using assms(2) by (simp add: unat_gt_0)
  have "unat charged * unat input div unat total \<le> unat total * unat input div unat total"
    using assms(1) by (intro div_le_mono mult_le_mono1)
  then have d: "unat charged * unat input div unat total \<le> unat input" using pos by simp
  have v: "unat ((ucast charged * ucast input :: u128) div ucast total)
      = unat charged * unat input div unat total"
    by (simp only: unat_div unat_mult_u64 unat_widen_128)
  have "unat ((ucast charged * ucast input :: u128) div ucast total) < 2 ^ 64"
    unfolding v using d u64_bound [of input] by simp
  then show ?thesis using d by (simp only: unat_narrow_64 v)
qed

section \<open>Properties\<close>

text \<open>
  The constant-product curve pays exactly the floor of the input's share, and the
  product of the reserves never drops, for every reserve and every input.
\<close>

theorem constant_product_sound:
  "unat (constant_product_out ri ro x) =
     (if unat ri = 0 \<or> unat ro = 0 then 0 else unat ro * unat x div (unat ri + unat x))
   \<and> unat ri * unat ro \<le> (unat ri + unat x) * (unat ro - unat (constant_product_out ri ro x))"
  by (intro conjI unat_constant_product_out constant_product_invariant)

end
