(* ===== verification/Swap_Quote.thy ===== *)
theory Swap_Quote
  imports Swap_Fee Curve_Math
begin

text \<open>
  The request and the quote of a direct swap:
  \<open>src/chains/solana/swaps/direct/intent.rs\<close> and \<open>quote.rs\<close>. The lemmas show
  how the four output figures relate: the slippage floor, the fee, and what the
  wallet keeps.
\<close>

section \<open>The intent\<close>

definition MAX_SLIPPAGE_BPS :: u16 where
  "MAX_SLIPPAGE_BPS = 5000"

record direct_swap_intent =
  in_pool :: pubkey
  in_owner :: pubkey
  in_input_mint :: pubkey
  in_output_mint :: pubkey
  in_amount_in :: u64
  in_slippage_bps :: u16

definition validate :: "direct_swap_intent \<Rightarrow> unit direct_swap_result" where
  "validate intent =
     (if in_amount_in intent = 0 then Inl (InvalidRequest ''amount_in is zero'')
      else if in_input_mint intent = in_output_mint intent
      then Inl (InvalidRequest ''input and output mint are both {}'')
      else if MAX_SLIPPAGE_BPS < in_slippage_bps intent
      then Inl (InvalidRequest ''slippage {} bps exceeds the {} bps ceiling'')
      else Inr ())"

definition is_wsol :: "sdk \<Rightarrow> pubkey \<Rightarrow> bool" where
  "is_wsol sdk mint \<longleftrightarrow> mint = wsol_mint sdk"

definition wraps_native :: "sdk \<Rightarrow> direct_swap_intent \<Rightarrow> bool" where
  "wraps_native sdk intent \<longleftrightarrow> is_wsol sdk (in_input_mint intent)"

definition unwraps_native :: "sdk \<Rightarrow> direct_swap_intent \<Rightarrow> bool" where
  "unwraps_native sdk intent \<longleftrightarrow> is_wsol sdk (in_output_mint intent)"

definition touches_wsol :: "sdk \<Rightarrow> direct_swap_intent \<Rightarrow> bool" where
  "touches_wsol sdk intent \<longleftrightarrow> wraps_native sdk intent \<or> unwraps_native sdk intent"

section \<open>The quote\<close>

definition min_out_after_slippage :: "u64 \<Rightarrow> u16 \<Rightarrow> u64" where
  "min_out_after_slippage expected_out slippage_bps =
     (let bps = min (ucast slippage_bps) (ucast BPS_DENOMINATOR) :: u128
      in ucast ((ucast expected_out * (ucast BPS_DENOMINATOR - bps)) div ucast BPS_DENOMINATOR))"

record direct_quote =
  dq_pool :: pubkey
  dq_program :: program_kind
  dq_input_mint :: pubkey
  dq_output_mint :: pubkey
  dq_amount_in :: u64
  dq_swap_amount_in :: u64
  dq_expected_out :: u64
  dq_min_out :: u64
  dq_expected_net_out :: u64
  dq_min_net_out :: u64
  dq_fee :: platform_fee
  dq_lp_fee :: u64
  dq_price_impact_pct :: f64
  dq_slippage_bps :: u16

definition assemble ::
  "sdk \<Rightarrow> direct_swap_intent \<Rightarrow> program_kind \<Rightarrow> u64 \<Rightarrow> venue_quote \<Rightarrow> platform_fee
   \<Rightarrow> direct_quote direct_swap_result" where
  "assemble sdk intent program swap_amount_in venue_quote input_fee =
     (if vq_expected_out venue_quote = 0
      then Inl (InsufficientLiquidity (in_pool intent) (in_amount_in intent)
                  ''the pool returns nothing for this size'')
      else let min_out = min_out_after_slippage (vq_expected_out venue_quote) (in_slippage_bps intent) in
        if min_out = 0
        then Inl (InsufficientLiquidity (in_pool intent) (in_amount_in intent)
                    ''slippage tolerance reduces the guaranteed output to zero'')
        else and_then
          (if pf_side input_fee = FeeOutput
           then and_then
             (resolve_fee sdk FeeOutput (in_input_mint intent) (in_output_mint intent)
                (vq_expected_out venue_quote))
             (\<lambda>fee. Inr (fee\<lparr>pf_amount := min (pf_amount fee) min_out\<rparr>))
           else Inr input_fee)
          (\<lambda>fee.
             let (expected_net_out, min_net_out) =
                   (if pf_side fee = FeeOutput
                    then (saturating_sub (vq_expected_out venue_quote) (pf_amount fee),
                          saturating_sub min_out (pf_amount fee))
                    else (vq_expected_out venue_quote, min_out))
             in if min_net_out = 0
                then Inl (InsufficientLiquidity (in_pool intent) (in_amount_in intent)
                            ''the platform fee consumes the entire guaranteed output'')
                else Inr \<lparr>dq_pool = in_pool intent, dq_program = program,
                  dq_input_mint = in_input_mint intent, dq_output_mint = in_output_mint intent,
                  dq_amount_in = in_amount_in intent, dq_swap_amount_in = swap_amount_in,
                  dq_expected_out = vq_expected_out venue_quote, dq_min_out = min_out,
                  dq_expected_net_out = expected_net_out, dq_min_net_out = min_net_out,
                  dq_fee = fee, dq_lp_fee = vq_lp_fee venue_quote,
                  dq_price_impact_pct = vq_price_impact_pct venue_quote,
                  dq_slippage_bps = in_slippage_bps intent\<rparr>))"

section \<open>The slippage floor\<close>

lemma unat_min_out:
  "unat (min_out_after_slippage e s) = unat e * (10000 - min (unat s) 10000) div 10000"
proof -
  let ?b = "min (unat s) 10000"
  have bps: "unat (min (ucast s) (ucast BPS_DENOMINATOR) :: u128) = ?b"
    by (simp add: unat_simps BPS_DENOMINATOR_def)
  have le: "min (ucast s) (ucast BPS_DENOMINATOR) \<le> (ucast BPS_DENOMINATOR :: u128)" by simp
  have sub: "unat (ucast BPS_DENOMINATOR - min (ucast s) (ucast BPS_DENOMINATOR) :: u128) = 10000 - ?b"
    using unat_sub [OF le] bps by (simp add: BPS_DENOMINATOR_def)
  have "unat e * (10000 - ?b) \<le> unat e * 10000" by simp
  then have le': "unat e * (10000 - ?b) < 184467440737095516160000" using u64_bound [of e] by linarith
  then have "unat (ucast e * (ucast BPS_DENOMINATOR - min (ucast s) (ucast BPS_DENOMINATOR)) :: u128)
      = unat e * (10000 - ?b)"
    using sub by (simp add: unat_word_ariths(2) unat_simps)
  then have div: "unat ((ucast e * (ucast BPS_DENOMINATOR - min (ucast s) (ucast BPS_DENOMINATOR)) :: u128)
      div ucast BPS_DENOMINATOR) = unat e * (10000 - ?b) div 10000"
    by (simp add: unat_div BPS_DENOMINATOR_def)
  have "unat e * (10000 - ?b) div 10000 < 2 ^ 64"
    using le' by (simp add: div_less_iff_less_mult)
  then show ?thesis
    unfolding min_out_after_slippage_def Let_def by (simp only: unat_narrow_64 div)
qed

lemma min_out_le: "unat (min_out_after_slippage e s) \<le> unat e"
proof -
  have "unat e * (10000 - min (unat s) 10000) \<le> unat e * 10000" by simp
  then have "unat e * (10000 - min (unat s) 10000) div 10000 \<le> unat e * 10000 div 10000"
    by (rule div_le_mono)
  then show ?thesis by (simp add: unat_min_out)
qed

text \<open>
  The fee at the advertised rate stays within the guaranteed output for every
  slippage the engine accepts, so the cap in \<^const>\<open>assemble\<close> never binds there.
\<close>

lemma fee_within_min_out:
  assumes "s \<le> MAX_SLIPPAGE_BPS"
  shows "unat (platform_fee_amount e) \<le> unat (min_out_after_slippage e s)"
proof -
  have s: "unat s \<le> 5000" using assms by (simp add: word_le_nat_alt MAX_SLIPPAGE_BPS_def)
  then have "50 \<le> 10000 - min (unat s) 10000" by simp
  then have "unat e * 50 \<le> unat e * (10000 - min (unat s) 10000)" by (rule mult_le_mono2)
  then have "unat e * 50 div 10000 \<le> unat e * (10000 - min (unat s) 10000) div 10000"
    by (rule div_le_mono)
  then show ?thesis by (simp only: unat_platform_fee_amount unat_min_out)
qed

section \<open>The assembled figures\<close>

lemma validate_ok:
  "validate intent = Inr () \<longleftrightarrow>
     0 < unat (in_amount_in intent) \<and> in_input_mint intent \<noteq> in_output_mint intent
       \<and> unat (in_slippage_bps intent) \<le> 5000"
  by (auto simp: validate_def MAX_SLIPPAGE_BPS_def word_less_nat_alt unat_gt_0)

lemma assemble_cases:
  assumes "assemble sdk intent program swap_in vq input_fee = Inr q"
  obtains fee where
    "dq_fee q = fee"
    and "pf_side input_fee = FeeOutput \<Longrightarrow>
       (\<exists>f. resolve_fee sdk FeeOutput (in_input_mint intent) (in_output_mint intent)
              (vq_expected_out vq) = Inr f
          \<and> fee = f\<lparr>pf_amount := min (pf_amount f) (dq_min_out q)\<rparr>)"
    and "pf_side input_fee \<noteq> FeeOutput \<Longrightarrow> fee = input_fee"
    and "dq_min_out q = min_out_after_slippage (vq_expected_out vq) (in_slippage_bps intent)"
    and "dq_expected_out q = vq_expected_out vq"
    and "dq_expected_net_out q = (if pf_side fee = FeeOutput
           then saturating_sub (dq_expected_out q) (pf_amount fee) else dq_expected_out q)"
    and "dq_min_net_out q = (if pf_side fee = FeeOutput
           then saturating_sub (dq_min_out q) (pf_amount fee) else dq_min_out q)"
    and "dq_min_net_out q \<noteq> 0"
    and "dq_amount_in q = in_amount_in intent \<and> dq_swap_amount_in q = swap_in
           \<and> dq_pool q = in_pool intent \<and> dq_slippage_bps q = in_slippage_bps intent"
  using assms unfolding assemble_def Let_def
  by (auto split: if_splits prod.splits)

lemma assemble_output_side:
  assumes "assemble sdk intent program swap_in vq input_fee = Inr q"
  shows "pf_side (dq_fee q) = FeeOutput \<longleftrightarrow> pf_side input_fee = FeeOutput"
proof (cases rule: assemble_cases [OF assms])
  case (1 fee)
  then show ?thesis using resolve_fee_amount by (cases "pf_side input_fee") fastforce+
qed

text \<open>
  What the wallet is guaranteed never exceeds what it is expected to keep, and the
  output-side fee is always covered by the guaranteed output.
\<close>

lemma assemble_bounds:
  assumes "assemble sdk intent program swap_in vq input_fee = Inr q"
  shows "0 < unat (dq_min_net_out q)"
    and "unat (dq_min_net_out q) \<le> unat (dq_min_out q)"
    and "unat (dq_min_net_out q) \<le> unat (dq_expected_net_out q)"
    and "unat (dq_min_out q) \<le> unat (dq_expected_out q)"
    and "pf_side (dq_fee q) = FeeOutput \<Longrightarrow>
           unat (pf_amount (dq_fee q)) + unat (dq_min_net_out q) = unat (dq_min_out q)
         \<and> unat (pf_amount (dq_fee q)) + unat (dq_expected_net_out q) = unat (dq_expected_out q)"
proof -
  obtain fee where fee: "dq_fee q = fee"
    and out: "dq_min_out q = min_out_after_slippage (vq_expected_out vq) (in_slippage_bps intent)"
      "dq_expected_out q = vq_expected_out vq"
    and nets: "dq_expected_net_out q = (if pf_side fee = FeeOutput
           then saturating_sub (dq_expected_out q) (pf_amount fee) else dq_expected_out q)"
      "dq_min_net_out q = (if pf_side fee = FeeOutput
           then saturating_sub (dq_min_out q) (pf_amount fee) else dq_min_out q)"
    and pos: "dq_min_net_out q \<noteq> 0"
    by (rule assemble_cases [OF assms]) blast
  show le: "unat (dq_min_out q) \<le> unat (dq_expected_out q)"
    unfolding out by (rule min_out_le)
  show "0 < unat (dq_min_net_out q)" using pos by (simp add: unat_gt_0)
  then have gt: "pf_side fee = FeeOutput \<Longrightarrow> unat (pf_amount fee) < unat (dq_min_out q)"
    unfolding nets by (simp add: unat_simps)
  show "unat (dq_min_net_out q) \<le> unat (dq_min_out q)"
    unfolding nets by (simp add: unat_simps)
  show "unat (dq_min_net_out q) \<le> unat (dq_expected_net_out q)"
    unfolding nets using le by (simp add: unat_simps diff_le_mono)
  show "pf_side (dq_fee q) = FeeOutput \<Longrightarrow>
           unat (pf_amount (dq_fee q)) + unat (dq_min_net_out q) = unat (dq_min_out q)
         \<and> unat (pf_amount (dq_fee q)) + unat (dq_expected_net_out q) = unat (dq_expected_out q)"
    unfolding fee nets using gt le by (simp add: unat_simps)
qed

section \<open>Properties\<close>

text \<open>
  The figures of an assembled quote. What the wallet is guaranteed is positive, at most
  the minimum the pool enforces and at most what it expects to keep; an output-side fee is the
  difference between the gross and the net figures, so the guaranteed output always covers it.
\<close>

theorem assembled_quote_figures:
  assumes "assemble sdk intent program swap_in vq input_fee = Inr q"
  shows "0 < unat (dq_min_net_out q) \<and> unat (dq_min_net_out q) \<le> unat (dq_min_out q)
       \<and> unat (dq_min_net_out q) \<le> unat (dq_expected_net_out q)
       \<and> unat (dq_min_out q) = unat (vq_expected_out vq) * (10000 - min (unat (in_slippage_bps intent)) 10000) div 10000
       \<and> (if pf_side (dq_fee q) = FeeOutput
          then unat (pf_amount (dq_fee q)) + unat (dq_min_net_out q) = unat (dq_min_out q)
            \<and> unat (pf_amount (dq_fee q)) + unat (dq_expected_net_out q) = unat (dq_expected_out q)
          else dq_min_net_out q = dq_min_out q \<and> dq_expected_net_out q = dq_expected_out q)"
proof -
  obtain fee where "dq_fee q = fee"
    and out: "dq_min_out q = min_out_after_slippage (vq_expected_out vq) (in_slippage_bps intent)"
    and nets: "dq_expected_net_out q = (if pf_side fee = FeeOutput
           then saturating_sub (dq_expected_out q) (pf_amount fee) else dq_expected_out q)"
      "dq_min_net_out q = (if pf_side fee = FeeOutput
           then saturating_sub (dq_min_out q) (pf_amount fee) else dq_min_out q)"
    by (rule assemble_cases [OF assms]) blast
  then show ?thesis
    using assemble_bounds [OF assms] unat_min_out [of "vq_expected_out vq" "in_slippage_bps intent"]
    by (auto simp: out)
qed

definition sample_intent :: direct_swap_intent where
  "sample_intent = \<lparr>in_pool = sample_key ''pool'', in_owner = sample_key ''owner'',
     in_input_mint = sample_key ''token'', in_output_mint = sample_key SOL_MINT,
     in_amount_in = 1000000, in_slippage_bps = 100\<rparr>"

lemma sample_keys_apart:
  "sample_key SOL_MINT \<noteq> sample_key ''token''" "sample_key USDC_MINT \<noteq> sample_key ''token''"
  "sample_key SOL_MINT \<noteq> sample_key USDC_MINT"
  by (simp_all add: sample_key_def SOL_MINT_def USDC_MINT_def)

theorem assembled_quote_figures_witness:
  "\<exists>q. assemble sample_sdk sample_intent RaydiumCpmm 1000000
        \<lparr>vq_amount_in = 1000000, vq_expected_out = 500000, vq_lp_fee = 2500, vq_price_impact_pct = 0\<rparr>
        \<lparr>pf_side = FeeOutput, pf_amount = 0, pf_mint = None, pf_destination = None, pf_decimals = 0\<rparr> = Inr q
     \<and> unat (pf_amount (dq_fee q)) + unat (dq_min_net_out q) = unat (dq_min_out q)"
proof -
  let ?a = "assemble sample_sdk sample_intent RaydiumCpmm 1000000
        \<lparr>vq_amount_in = 1000000, vq_expected_out = 500000, vq_lp_fee = 2500, vq_price_impact_pct = 0\<rparr>
        \<lparr>pf_side = FeeOutput, pf_amount = 0, pf_mint = None, pf_destination = None, pf_decimals = 0\<rparr>"
  obtain q where q: "?a = Inr q" and side: "pf_side (dq_fee q) = FeeOutput"
    by (simp add: assemble_def sample_intent_def resolve_fee_def wsol_mint_def sample_sdk_def
        min_out_after_slippage_def BPS_DENOMINATOR_def platform_fee_amount_def PLATFORM_FEE_BPS_def
        saturating_sub_def)
  show ?thesis using assembled_quote_figures [OF q] q side by simp
qed

text \<open>
  For every slippage the engine accepts, half a percent of the expected output is within
  the guaranteed output, so an output-side fee is never cut down.
\<close>

theorem output_fee_within_minimum:
  "validate intent = Inr () \<Longrightarrow>
     unat (platform_fee_amount e) \<le> unat (min_out_after_slippage e (in_slippage_bps intent))"
  by (rule fee_within_min_out) (auto simp: validate_def split: if_splits)

theorem output_fee_within_minimum_witness:
  "validate sample_intent = Inr ()
   \<and> unat (platform_fee_amount 500000) \<le> unat (min_out_after_slippage 500000 (in_slippage_bps sample_intent))"
proof -
  have "validate sample_intent = Inr ()"
    using sample_keys_apart by (auto simp: validate_def sample_intent_def MAX_SLIPPAGE_BPS_def)
  then show ?thesis using output_fee_within_minimum by blast
qed

end
