(* ===== verification/Compute_Budget.thy ===== *)
theory Compute_Budget
  imports Direct_Types
begin

text \<open>
  \<open>src/chains/solana/swaps/direct/compute.rs\<close>: the compute budget of a direct
  swap and the network fee that is read back off it. The price per unit comes from
  the configuration and is the parameter \<open>price\<close>. The two instructions are built
  by the Solana SDK; what the read-back relies on is their documented encoding, one
  discriminator byte and the little-endian value (\<open>budget_encoding\<close>).
\<close>

section \<open>Operations\<close>

definition COMPUTE_UNIT_HEADROOM_PCT :: u32 where
  "COMPUTE_UNIT_HEADROOM_PCT = 30"

definition MIN_COMPUTE_UNITS :: u32 where
  "MIN_COMPUTE_UNITS = 60000"

definition MAX_COMPUTE_UNITS :: u32 where
  "MAX_COMPUTE_UNITS = 1400000"

definition MEASURED_SAFETY_MARGIN_PCT :: u32 where
  "MEASURED_SAFETY_MARGIN_PCT = 15"

definition MEASURED_SAFETY_FLAT_UNITS :: u32 where
  "MEASURED_SAFETY_FLAT_UNITS = 2000"

definition BASE_SIGNATURE_FEE_LAMPORTS :: u64 where
  "BASE_SIGNATURE_FEE_LAMPORTS = 5000"

definition clamp :: "'a::linorder \<Rightarrow> 'a \<Rightarrow> 'a \<Rightarrow> 'a" where
  "clamp x lo hi = (if x < lo then lo else if hi < x then hi else x)"

definition compute_unit_limit :: "u32 \<Rightarrow> u32" where
  "compute_unit_limit venue_units =
     (let with_headroom = saturating_mul venue_units (100 + COMPUTE_UNIT_HEADROOM_PCT) div 100
      in clamp with_headroom MIN_COMPUTE_UNITS MAX_COMPUTE_UNITS)"

definition compute_budget_instructions :: "sdk \<Rightarrow> u64 \<Rightarrow> u32 \<Rightarrow> instruction list" where
  "compute_budget_instructions sdk price venue_units =
     [set_compute_unit_limit sdk (compute_unit_limit venue_units),
      set_compute_unit_price sdk price]"

definition compute_unit_limit_from_measured :: "u64 \<Rightarrow> u32" where
  "compute_unit_limit_from_measured units_consumed =
     (let with_margin = saturating_add
            (saturating_mul units_consumed (100 + ucast MEASURED_SAFETY_MARGIN_PCT) div 100)
            (ucast MEASURED_SAFETY_FLAT_UNITS)
      in clamp (ucast (min with_margin (ucast (- 1 :: u32))))
           MIN_COMPUTE_UNITS MAX_COMPUTE_UNITS)"

definition requested_compute_unit_limit :: "instruction list \<Rightarrow> u32 option" where
  "requested_compute_unit_limit instructions =
     (case instructions of
        [] \<Rightarrow> None
      | first # _ \<Rightarrow> if u8_at (ix_data first) 0 \<noteq> Some 2 then None else u32_at (ix_data first) 1)"

definition requested_compute_unit_price :: "instruction list \<Rightarrow> u64 option" where
  "requested_compute_unit_price instructions =
     (case instructions of
        _ # second # _ \<Rightarrow>
          if u8_at (ix_data second) 0 \<noteq> Some 3 then None else u64_at (ix_data second) 1
      | _ \<Rightarrow> None)"

definition network_fee_lamports :: "u64 \<Rightarrow> instruction list \<Rightarrow> u64" where
  "network_fee_lamports config_price instructions =
     (let limit = ucast (unwrap_or (requested_compute_unit_limit instructions) MAX_COMPUTE_UNITS) :: u64;
          price = unwrap_or (requested_compute_unit_price instructions) config_price
      in saturating_add (div_ceil (saturating_mul limit price) 1000000) BASE_SIGNATURE_FEE_LAMPORTS)"

text \<open>The documented encoding of the two compute-budget instructions.\<close>

definition budget_encoding :: "sdk \<Rightarrow> bool" where
  "budget_encoding sdk \<longleftrightarrow>
     (\<forall>limit. ix_data (set_compute_unit_limit sdk limit) = 2 # u32_to_le_bytes limit)
   \<and> (\<forall>price. ix_data (set_compute_unit_price sdk price) = 3 # u64_to_le_bytes price)"

section \<open>Limits\<close>

lemma unat_clamp:
  "unat (clamp x lo hi) = clamp (unat x) (unat lo) (unat (hi :: 'a::len word))"
  by (simp add: clamp_def word_less_nat_alt)

lemma clamp_nat: "lo \<le> hi \<Longrightarrow> clamp x lo hi = max lo (min x hi)" for x :: nat
  by (auto simp: clamp_def)

lemma min_div_cap: "min n m div d = min (n div d) (m div d)" for n :: nat
  by (cases "n \<le> m") (simp_all add: div_le_mono min_absorb1 min_absorb2)

lemma unat_compute_unit_limit:
  "unat (compute_unit_limit v) = max 60000 (min (unat v * 130 div 100) 1400000)"
proof -
  have "unat (saturating_mul v (100 + COMPUTE_UNIT_HEADROOM_PCT) div 100)
      = min (unat v * 130) 4294967295 div 100"
    by (simp add: unat_div unat_simps COMPUTE_UNIT_HEADROOM_PCT_def)
  also have "\<dots> = min (unat v * 130 div 100) (4294967295 div 100)" by (rule min_div_cap)
  finally have "unat (saturating_mul v (100 + COMPUTE_UNIT_HEADROOM_PCT) div 100)
      = min (unat v * 130 div 100) 42949672" by simp
  then show ?thesis
    unfolding compute_unit_limit_def Let_def unat_clamp
    by (simp add: clamp_nat MIN_COMPUTE_UNITS_def MAX_COMPUTE_UNITS_def min.assoc)
qed

lemma unat_limit_from_measured:
  "unat (compute_unit_limit_from_measured u) = max 60000 (min (unat u * 115 div 100 + 2000) 1400000)"
proof -
  let ?w = "saturating_add
      (saturating_mul u (100 + ucast MEASURED_SAFETY_MARGIN_PCT) div 100)
      (ucast MEASURED_SAFETY_FLAT_UNITS)"
  have "unat (saturating_mul u (100 + ucast MEASURED_SAFETY_MARGIN_PCT) div 100 :: u64)
      = min (unat u * 115) 18446744073709551615 div 100"
    by (simp add: unat_div unat_simps MEASURED_SAFETY_MARGIN_PCT_def)
  also have "\<dots> = min (unat u * 115 div 100) (18446744073709551615 div 100)" by (rule min_div_cap)
  finally have "unat (saturating_mul u (100 + ucast MEASURED_SAFETY_MARGIN_PCT) div 100 :: u64)
      = min (unat u * 115 div 100) 184467440737095516" by simp
  then have w: "unat ?w = min (min (unat u * 115 div 100) 184467440737095516 + 2000) 18446744073709551615"
    by (simp add: unat_simps MEASURED_SAFETY_FLAT_UNITS_def)
  have m: "unat (min ?w (ucast (- 1 :: u32))) = min (unat ?w) 4294967295"
    by (simp add: unat_simps)
  then have "unat (ucast (min ?w (ucast (- 1 :: u32))) :: u32) = min (unat ?w) 4294967295"
    by (simp add: unat_ucast_mod)
  then have narrow: "unat (ucast (min ?w (ucast (- 1 :: u32))) :: u32)
      = min (min (min (unat u * 115 div 100) 184467440737095516 + 2000) 18446744073709551615) 4294967295"
    using w by (simp only:)
  have caps: "max 60000 (min (min (min (min n 184467440737095516 + 2000) 18446744073709551615)
      4294967295) 1400000) = max 60000 (min (n + 2000) 1400000)" for n :: nat
    by (auto simp: min_def max_def)
  have bounds: "unat MIN_COMPUTE_UNITS = 60000" "unat MAX_COMPUTE_UNITS = 1400000"
    by (simp_all add: MIN_COMPUTE_UNITS_def MAX_COMPUTE_UNITS_def)
  have "(60000 :: nat) \<le> 1400000" by simp
  then show ?thesis
    unfolding compute_unit_limit_from_measured_def Let_def unat_clamp narrow bounds
    by (simp only: clamp_nat caps)
qed

section \<open>Reading the budget back\<close>

lemma requested_limit_read_back:
  assumes "budget_encoding sdk"
  shows "requested_compute_unit_limit (compute_budget_instructions sdk price v @ rest)
           = Some (compute_unit_limit v)"
    and "requested_compute_unit_price (compute_budget_instructions sdk price v @ rest) = Some price"
  using assms u32_at_written [of "[2]" 1 "compute_unit_limit v" "[]"]
    u64_at_written [of "[3]" 1 price "[]"]
  by (simp_all add: requested_compute_unit_limit_def requested_compute_unit_price_def
      compute_budget_instructions_def budget_encoding_def u8_at_def)

lemma unat_network_fee:
  "unat (network_fee_lamports config_price ixs) =
     (let limit = unat (unwrap_or (requested_compute_unit_limit ixs) MAX_COMPUTE_UNITS);
          price = unat (unwrap_or (requested_compute_unit_price ixs) config_price)
      in ceil_nat (min (limit * price) u64_max) 1000000 + 5000)"
proof -
  have c: "ceil_nat (min n 18446744073709551615) 1000000 \<le> 18446744073710" for n
    by (simp add: ceil_nat_le_iff)
  have b: "ceil_nat (min n 18446744073709551615) 1000000 + 5000 \<le> 18446744073709551615" for n
    using c [of n] by linarith
  show ?thesis
    unfolding network_fee_lamports_def Let_def
    using b by (simp add: unat_simps BASE_SIGNATURE_FEE_LAMPORTS_def min_absorb1)
qed

lemma network_fee_exact:
  assumes "budget_encoding sdk" and "unat price < 10 ^ 13"
  shows "unat (network_fee_lamports config_price (compute_budget_instructions sdk price v @ rest))
           = ceil_nat (unat (compute_unit_limit v) * unat price) 1000000 + 5000"
proof -
  have "unat (compute_unit_limit v) \<le> 1400000" by (simp add: unat_compute_unit_limit)
  then have "unat (compute_unit_limit v) * unat price \<le> 1400000 * 10 ^ 13"
    by (rule mult_le_mono) (use assms(2) in simp)
  then show ?thesis
    by (simp add: unat_network_fee requested_limit_read_back [OF assms(1)] min_absorb1)
qed

section \<open>Properties\<close>

text \<open>
  The network fee that is read back off a plan is the fee the plan pays: the limit it
  requests times its price, in whole lamports rounded up, plus one signature.
\<close>

theorem network_fee_of_plan:
  assumes "budget_encoding sdk" and "unat price < 10 ^ 13"
  shows "unat (network_fee_lamports config_price (compute_budget_instructions sdk price v @ rest))
           = ceil_nat (max 60000 (min (unat v * 130 div 100) 1400000) * unat price) 1000000 + 5000"
  using network_fee_exact [OF assms] by (simp add: unat_compute_unit_limit)

lemma sample_budget_encoding: "budget_encoding sample_sdk"
  by (simp add: budget_encoding_def sample_sdk_def sample_instruction_def)

theorem network_fee_of_plan_witness:
  "unat (network_fee_lamports 0 (compute_budget_instructions sample_sdk 1000 120000)) = 5156"
  using network_fee_of_plan [OF sample_budget_encoding, of 1000 0 120000 "[]"]
  by (simp add: ceil_nat_def)

text \<open>
  Both limits stay within the transaction's bounds and leave the stated headroom over the
  venue's estimate and over the measured units, with no wrap-around for any input.
\<close>

theorem compute_limits_bounded:
  "unat (compute_unit_limit v) = max 60000 (min (unat v * 130 div 100) 1400000)
   \<and> unat (compute_unit_limit_from_measured u) = max 60000 (min (unat u * 115 div 100 + 2000) 1400000)"
  by (intro conjI unat_compute_unit_limit unat_limit_from_measured)

end
