(* ===== verification/Swap_Plan.thy ===== *)
theory Swap_Plan
  imports Swap_Quote Compute_Budget
begin

text \<open>
  \<open>src/chains/solana/swaps/direct/accounts.rs\<close> and \<open>plan.rs\<close>: the wallet's
  token accounts and the instruction list of a direct swap. The order of the list is
  the safety argument of a swap; \<open>plan_shape\<close> names its parts, and \<open>build_plan_shape\<close>
  shows that every plan the code builds is exactly their concatenation.

  The locale \<open>market\<close> is the contract of the trait \<open>PoolMarket\<close> (\<open>venue.rs\<close>): what
  the plan relies on of every venue. Each venue theory interprets it on its own
  definitions.
\<close>

section \<open>Wallet legs\<close>

record wallet_legs =
  wl_input_account :: pubkey
  wl_input_program :: pubkey
  wl_output_account :: pubkey
  wl_output_program :: pubkey

definition resolve_legs ::
  "sdk \<Rightarrow> pubkey \<Rightarrow> pool_market \<Rightarrow> pubkey \<Rightarrow> pubkey \<Rightarrow> wallet_legs direct_swap_result" where
  "resolve_legs sdk owner market input_mint output_mint =
     and_then (ok_or (pm_token_program market input_mint)
                (PairNotInPool (pm_pool market) input_mint output_mint)) (\<lambda>input_program.
     and_then (ok_or (pm_token_program market output_mint)
                (PairNotInPool (pm_pool market) input_mint output_mint)) (\<lambda>output_program.
     Inr \<lparr>wl_input_account = associated_token_address sdk owner input_mint input_program,
          wl_input_program = input_program,
          wl_output_account = associated_token_address sdk owner output_mint output_program,
          wl_output_program = output_program\<rparr>))"

definition ensure_instructions ::
  "sdk \<Rightarrow> wallet_legs \<Rightarrow> pubkey \<Rightarrow> pubkey \<Rightarrow> pubkey \<Rightarrow> pubkey \<Rightarrow> instruction list" where
  "ensure_instructions sdk legs payer owner input_mint output_mint =
     [create_ata_idempotent sdk payer owner input_mint (wl_input_program legs),
      create_ata_idempotent sdk payer owner output_mint (wl_output_program legs)]"

section \<open>The plan\<close>

record swap_plan =
  sp_instructions :: "instruction list"
  sp_venue_compute_units :: u32
  sp_input_account :: pubkey
  sp_output_account :: pubkey
  sp_output_is_native :: bool
  sp_quote :: direct_quote

definition wsol_account :: "sdk \<Rightarrow> direct_swap_intent \<Rightarrow> wallet_legs \<Rightarrow> pubkey option" where
  "wsol_account sdk intent legs =
     (if is_wsol sdk (in_input_mint intent) then Some (wl_input_account legs)
      else if is_wsol sdk (in_output_mint intent) then Some (wl_output_account legs)
      else None)"

definition option_list :: "'a option \<Rightarrow> 'a list" where
  "option_list x = (case x of None \<Rightarrow> [] | Some y \<Rightarrow> [y])"

text \<open>The statements of \<open>build_plan\<close> that extend the list, one definition each.\<close>

definition push_wrap ::
  "sdk \<Rightarrow> direct_swap_intent \<Rightarrow> wallet_legs \<Rightarrow> bool \<Rightarrow> u64 \<Rightarrow> instruction list
   \<Rightarrow> instruction list direct_swap_result" where
  "push_wrap sdk intent legs native_settle swap_amount_in instructions =
     (if wraps_native sdk intent
      then let wrap_amount = (if native_settle then 0 else swap_amount_in) in
        if 0 < wrap_amount
        then let instructions = instructions
               @ [system_transfer sdk (in_owner intent) (wl_input_account legs) wrap_amount] in
          and_then (ok_or (token_sync_native sdk (wl_input_account legs))
                      (Build ''sync_native could not be built: {e}''))
            (\<lambda>sync. Inr (instructions @ [sync]))
        else Inr instructions
      else Inr instructions)"

definition push_input_fee ::
  "sdk \<Rightarrow> direct_swap_intent \<Rightarrow> wallet_legs \<Rightarrow> platform_fee \<Rightarrow> instruction list
   \<Rightarrow> instruction list direct_swap_result" where
  "push_input_fee sdk intent legs fee instructions =
     (if pf_side fee = FeeInput
      then and_then (transfer_instruction sdk fee (wl_input_account legs) (in_owner intent))
             (\<lambda>fee_ix. Inr (case fee_ix of Some ix \<Rightarrow> instructions @ [ix] | None \<Rightarrow> instructions))
      else Inr instructions)"

definition output_fee_instruction ::
  "sdk \<Rightarrow> direct_swap_intent \<Rightarrow> wallet_legs \<Rightarrow> platform_fee \<Rightarrow> instruction option direct_swap_result" where
  "output_fee_instruction sdk intent legs fee =
     (if pf_side fee = FeeOutput
      then transfer_instruction sdk fee (wl_output_account legs) (in_owner intent)
      else Inr None)"

definition push_close ::
  "sdk \<Rightarrow> direct_swap_intent \<Rightarrow> wallet_legs \<Rightarrow> instruction list
   \<Rightarrow> instruction list direct_swap_result" where
  "push_close sdk intent legs instructions =
     (case wsol_account sdk intent legs of
        Some account \<Rightarrow>
          and_then (ok_or (token_close_account sdk account (in_owner intent) (in_owner intent))
                      (Build ''WSOL close could not be built: {e}''))
            (\<lambda>close. Inr (instructions @ [close]))
      | None \<Rightarrow> Inr instructions)"

definition build_plan ::
  "sdk \<Rightarrow> u64 \<Rightarrow> direct_swap_intent \<Rightarrow> pool_market \<Rightarrow> direct_quote \<Rightarrow> swap_plan direct_swap_result" where
  "build_plan sdk price intent market quote =
     and_then (resolve_legs sdk (in_owner intent) market (in_input_mint intent)
                 (in_output_mint intent)) (\<lambda>legs.
     let venue_units = pm_compute_units market;
         instructions = compute_budget_instructions sdk price venue_units
           @ ensure_instructions sdk legs (in_owner intent) (in_owner intent)
               (in_input_mint intent) (in_output_mint intent);
         native_settle = pm_settles_native_sol market
     in
     and_then (push_wrap sdk intent legs native_settle (dq_swap_amount_in quote) instructions) (\<lambda>instructions.
     and_then (push_input_fee sdk intent legs (dq_fee quote) instructions) (\<lambda>instructions.
     and_then
       (pm_swap_instruction market
          \<lparr>sa_owner = in_owner intent, sa_input_mint = in_input_mint intent,
           sa_output_mint = in_output_mint intent, sa_input_token_account = wl_input_account legs,
           sa_output_token_account = wl_output_account legs\<rparr>
          (dq_swap_amount_in quote) (dq_min_out quote)) (\<lambda>swap.
     let instructions = instructions @ [swap] in
     and_then (output_fee_instruction sdk intent legs (dq_fee quote)) (\<lambda>output_fee.
     let (instructions, native_output_fee) =
           (if is_native sdk (dq_fee quote) then (instructions, output_fee)
            else (instructions @ option_list output_fee, None)) in
     and_then (push_close sdk intent legs instructions) (\<lambda>instructions.
     let instructions = instructions @ option_list native_output_fee in
     Inr \<lparr>sp_instructions = instructions, sp_venue_compute_units = venue_units,
          sp_input_account = wl_input_account legs, sp_output_account = wl_output_account legs,
          sp_output_is_native = unwraps_native sdk intent, sp_quote = quote\<rparr>))))))"

section \<open>The shape of a plan\<close>

text \<open>
  The parts of a plan in the order of the module's documentation. \<open>ps_wrap\<close> is empty
  or the transfer and the sync; the fee is in at most one of the three places.
\<close>

record plan_shape =
  ps_budget :: "instruction list"
  ps_ensure :: "instruction list"
  ps_wrap :: "instruction list"
  ps_input_fee :: "instruction option"
  ps_swap :: instruction
  ps_token_fee :: "instruction option"
  ps_close :: "instruction option"
  ps_native_fee :: "instruction option"

definition shape_list :: "plan_shape \<Rightarrow> instruction list" where
  "shape_list s = ps_budget s @ ps_ensure s @ ps_wrap s @ option_list (ps_input_fee s) @ [ps_swap s]
     @ option_list (ps_token_fee s) @ option_list (ps_close s) @ option_list (ps_native_fee s)"

definition fee_part ::
  "sdk \<Rightarrow> platform_fee \<Rightarrow> bool \<Rightarrow> pubkey \<Rightarrow> pubkey \<Rightarrow> instruction option direct_swap_result" where
  "fee_part sdk fee here source authority =
     (if here then transfer_instruction sdk fee source authority else Inr None)"

text \<open>What the parts are, for a plan built from an intent, the legs and a quote.\<close>

definition shape_of_plan ::
  "sdk \<Rightarrow> u64 \<Rightarrow> direct_swap_intent \<Rightarrow> pool_market \<Rightarrow> wallet_legs \<Rightarrow> direct_quote \<Rightarrow> plan_shape \<Rightarrow> bool" where
  "shape_of_plan sdk price intent market legs quote s \<longleftrightarrow>
     ps_budget s = compute_budget_instructions sdk price (pm_compute_units market)
   \<and> ps_ensure s = ensure_instructions sdk legs (in_owner intent) (in_owner intent)
        (in_input_mint intent) (in_output_mint intent)
   \<and> (if wraps_native sdk intent \<and> \<not> pm_settles_native_sol market \<and> 0 < dq_swap_amount_in quote
      then (\<exists>sync. token_sync_native sdk (wl_input_account legs) = Some sync
         \<and> ps_wrap s = [system_transfer sdk (in_owner intent) (wl_input_account legs)
                          (dq_swap_amount_in quote), sync])
      else ps_wrap s = [])
   \<and> fee_part sdk (dq_fee quote) (pf_side (dq_fee quote) = FeeInput) (wl_input_account legs)
       (in_owner intent) = Inr (ps_input_fee s)
   \<and> pm_swap_instruction market
       \<lparr>sa_owner = in_owner intent, sa_input_mint = in_input_mint intent,
        sa_output_mint = in_output_mint intent, sa_input_token_account = wl_input_account legs,
        sa_output_token_account = wl_output_account legs\<rparr>
       (dq_swap_amount_in quote) (dq_min_out quote) = Inr (ps_swap s)
   \<and> fee_part sdk (dq_fee quote)
       (pf_side (dq_fee quote) = FeeOutput \<and> \<not> is_native sdk (dq_fee quote))
       (wl_output_account legs) (in_owner intent) = Inr (ps_token_fee s)
   \<and> (case wsol_account sdk intent legs of
        Some account \<Rightarrow> ps_close s \<noteq> None
          \<and> token_close_account sdk account (in_owner intent) (in_owner intent) = ps_close s
      | None \<Rightarrow> ps_close s = None)
   \<and> fee_part sdk (dq_fee quote)
       (pf_side (dq_fee quote) = FeeOutput \<and> is_native sdk (dq_fee quote))
       (wl_output_account legs) (in_owner intent) = Inr (ps_native_fee s)"

lemma option_list_simps [simp]: "option_list None = []" "option_list (Some x) = [x]"
  by (simp_all add: option_list_def)

lemma case_option_append [simp]:
  "(case x of Some ix \<Rightarrow> xs @ [ix] | None \<Rightarrow> xs) = xs @ option_list x"
  by (cases x) simp_all

lemma resolve_legs_ok:
  assumes "resolve_legs sdk owner market i out = Inr legs"
  shows "\<exists>pi po. pm_token_program market i = Some pi \<and> pm_token_program market out = Some po
     \<and> legs = \<lparr>wl_input_account = associated_token_address sdk owner i pi, wl_input_program = pi,
         wl_output_account = associated_token_address sdk owner out po, wl_output_program = po\<rparr>"
  using assms by (auto simp: resolve_legs_def)

lemma push_wrap_ok:
  assumes "push_wrap sdk intent legs native_settle amount instructions = Inr out"
  shows "\<exists>wrap. out = instructions @ wrap
     \<and> (if wraps_native sdk intent \<and> \<not> native_settle \<and> 0 < amount
        then (\<exists>sync. token_sync_native sdk (wl_input_account legs) = Some sync
           \<and> wrap = [system_transfer sdk (in_owner intent) (wl_input_account legs) amount, sync])
        else wrap = [])"
  using assms unfolding push_wrap_def
  by (cases native_settle; cases "0 < amount"; cases "wraps_native sdk intent") auto

lemma push_input_fee_ok:
  assumes "push_input_fee sdk intent legs fee instructions = Inr out"
  shows "\<exists>ix. out = instructions @ option_list ix
     \<and> fee_part sdk fee (pf_side fee = FeeInput) (wl_input_account legs) (in_owner intent) = Inr ix"
  using assms by (auto simp: push_input_fee_def fee_part_def split: if_splits)

lemma output_fee_instruction_ok:
  assumes "output_fee_instruction sdk intent legs fee = Inr ix"
  shows "fee_part sdk fee (pf_side fee = FeeOutput \<and> \<not> is_native sdk fee)
           (wl_output_account legs) (in_owner intent) = Inr (if is_native sdk fee then None else ix)"
    and "fee_part sdk fee (pf_side fee = FeeOutput \<and> is_native sdk fee)
           (wl_output_account legs) (in_owner intent) = Inr (if is_native sdk fee then ix else None)"
  using assms by (auto simp: output_fee_instruction_def fee_part_def split: if_splits)

lemma push_close_ok:
  assumes "push_close sdk intent legs instructions = Inr out"
  shows "\<exists>close. out = instructions @ option_list close
     \<and> (case wsol_account sdk intent legs of
          Some account \<Rightarrow> close \<noteq> None
            \<and> token_close_account sdk account (in_owner intent) (in_owner intent) = close
        | None \<Rightarrow> close = None)"
  using assms by (cases "wsol_account sdk intent legs") (auto simp: push_close_def)

lemma build_plan_shape:
  assumes "build_plan sdk price intent market quote = Inr plan"
  obtains legs s where
    "resolve_legs sdk (in_owner intent) market (in_input_mint intent) (in_output_mint intent) = Inr legs"
    and "shape_of_plan sdk price intent market legs quote s"
    and "sp_instructions plan = shape_list s"
    and "sp_venue_compute_units plan = pm_compute_units market"
    and "sp_input_account plan = wl_input_account legs"
    and "sp_output_account plan = wl_output_account legs"
    and "sp_output_is_native plan = unwraps_native sdk intent"
    and "sp_quote plan = quote"
proof -
  let ?fee = "dq_fee quote"
  let ?start = "\<lambda>legs. compute_budget_instructions sdk price (pm_compute_units market)
           @ ensure_instructions sdk legs (in_owner intent) (in_owner intent)
               (in_input_mint intent) (in_output_mint intent)"
  let ?accounts = "\<lambda>legs. \<lparr>sa_owner = in_owner intent, sa_input_mint = in_input_mint intent,
           sa_output_mint = in_output_mint intent, sa_input_token_account = wl_input_account legs,
           sa_output_token_account = wl_output_account legs\<rparr>"
  obtain legs ins1 ins2 swap output_fee ins3 where
    legs: "resolve_legs sdk (in_owner intent) market (in_input_mint intent) (in_output_mint intent) = Inr legs"
    and wrap: "push_wrap sdk intent legs (pm_settles_native_sol market) (dq_swap_amount_in quote)
        (?start legs) = Inr ins1"
    and input_fee: "push_input_fee sdk intent legs ?fee ins1 = Inr ins2"
    and swap: "pm_swap_instruction market (?accounts legs)
          (dq_swap_amount_in quote) (dq_min_out quote) = Inr swap"
    and output_fee: "output_fee_instruction sdk intent legs ?fee = Inr output_fee"
    and close: "push_close sdk intent legs
        (ins2 @ [swap] @ option_list (if is_native sdk ?fee then None else output_fee)) = Inr ins3"
    and plan: "plan = \<lparr>sp_instructions = ins3
           @ option_list (if is_native sdk ?fee then output_fee else None),
          sp_venue_compute_units = pm_compute_units market,
          sp_input_account = wl_input_account legs, sp_output_account = wl_output_account legs,
          sp_output_is_native = unwraps_native sdk intent, sp_quote = quote\<rparr>"
    using assms by (cases "is_native sdk ?fee") (auto simp: build_plan_def Let_def)
  obtain w where w: "ins1 = ?start legs @ w"
    "if wraps_native sdk intent \<and> \<not> pm_settles_native_sol market \<and> 0 < dq_swap_amount_in quote
     then (\<exists>sync. token_sync_native sdk (wl_input_account legs) = Some sync
        \<and> w = [system_transfer sdk (in_owner intent) (wl_input_account legs) (dq_swap_amount_in quote), sync])
     else w = []"
    using push_wrap_ok [OF wrap] by blast
  obtain f where f: "ins2 = ins1 @ option_list f"
    "fee_part sdk ?fee (pf_side ?fee = FeeInput) (wl_input_account legs) (in_owner intent) = Inr f"
    using push_input_fee_ok [OF input_fee] by blast
  obtain c where c: "ins3 = (ins2 @ [swap] @ option_list (if is_native sdk ?fee then None else output_fee))
        @ option_list c"
    "case wsol_account sdk intent legs of
          Some account \<Rightarrow> c \<noteq> None
            \<and> token_close_account sdk account (in_owner intent) (in_owner intent) = c
        | None \<Rightarrow> c = None"
    using push_close_ok [OF close] by blast
  let ?s = "\<lparr>ps_budget = compute_budget_instructions sdk price (pm_compute_units market),
      ps_ensure = ensure_instructions sdk legs (in_owner intent) (in_owner intent)
               (in_input_mint intent) (in_output_mint intent),
      ps_wrap = w, ps_input_fee = f, ps_swap = swap,
      ps_token_fee = (if is_native sdk ?fee then None else output_fee), ps_close = c,
      ps_native_fee = (if is_native sdk ?fee then output_fee else None)\<rparr>"
  have "shape_of_plan sdk price intent market legs quote ?s"
    unfolding shape_of_plan_def plan_shape.select_convs
    by (intro conjI refl w(2) f(2) swap output_fee_instruction_ok [OF output_fee] c(2))
  moreover have "sp_instructions plan = shape_list ?s"
    unfolding plan shape_list_def w f c by simp
  ultimately show ?thesis using that [OF legs] plan by simp
qed

section \<open>The contract of a market\<close>

text \<open>
  What a built swap instruction promises: it trades the pool's own pair, it carries
  the amount and the minimum output at the offsets its program reads them from, its accounts
  name the wallet's token accounts as writable (both of them, or the one of the pool's first
  mint where the program settles the other side in native SOL), and nobody but the owner signs.
\<close>

definition swap_contract ::
  "nat \<Rightarrow> nat \<Rightarrow> pool_market \<Rightarrow> swap_accounts \<Rightarrow> u64 \<Rightarrow> u64 \<Rightarrow> instruction \<Rightarrow> bool" where
  "swap_contract amount_pos min_pos market accounts amount_in min_out ix \<longleftrightarrow>
     trades market (sa_input_mint accounts) (sa_output_mint accounts)
   \<and> u64_at (ix_data ix) amount_pos = Some amount_in
   \<and> u64_at (ix_data ix) min_pos = Some min_out
   \<and> (if pm_settles_native_sol market
      then meta_new (if sa_input_mint accounts = fst (pm_mints market)
                     then sa_input_token_account accounts else sa_output_token_account accounts) False
             \<in> set (ix_accounts ix)
      else meta_new (sa_input_token_account accounts) False \<in> set (ix_accounts ix)
         \<and> meta_new (sa_output_token_account accounts) False \<in> set (ix_accounts ix))
   \<and> (\<exists>meta \<in> set (ix_accounts ix). meta_signer meta)
   \<and> list_all (\<lambda>meta. meta_signer meta \<longrightarrow> meta_pubkey meta = sa_owner accounts) (ix_accounts ix)"

definition holds :: "pool_market \<Rightarrow> pubkey \<Rightarrow> bool" where
  "holds market mint \<longleftrightarrow> mint = fst (pm_mints market) \<or> mint = snd (pm_mints market)"

definition sane_quote :: "u64 \<Rightarrow> venue_quote \<Rightarrow> bool" where
  "sane_quote amount_in q \<longleftrightarrow>
     vq_amount_in q = amount_in \<and> 0 \<le> vq_price_impact_pct q \<and> vq_price_impact_pct q \<le> 100"

locale market =
  fixes as_market :: "'m \<Rightarrow> pool_market" and amount_pos min_pos :: "'m \<Rightarrow> pubkey \<Rightarrow> nat"
  assumes token_program_law: "pm_token_program (as_market m) mint \<noteq> None \<longleftrightarrow> holds (as_market m) mint"
    and decimals_law: "pm_decimals (as_market m) mint \<noteq> None \<longleftrightarrow> holds (as_market m) mint"
    and quote_law: "pm_quote (as_market m) mint amount_in = Inr q \<Longrightarrow>
          holds (as_market m) mint \<and> sane_quote amount_in q"
    and swap_law: "pm_swap_instruction (as_market m) accounts amount_in min_out = Inr ix \<Longrightarrow>
          swap_contract (amount_pos m (sa_input_mint accounts)) (min_pos m (sa_input_mint accounts)) (as_market m)
            accounts amount_in min_out ix"
begin

lemma plan_contract:
  assumes "build_plan sdk price intent (as_market m) quote = Inr plan"
  obtains pre swap post where
    "sp_instructions plan = pre @ [swap] @ post"
    and "length pre \<ge> 4"
    and "swap_contract (amount_pos m (in_input_mint intent)) (min_pos m (in_input_mint intent)) (as_market m)
      \<lparr>sa_owner = in_owner intent, sa_input_mint = in_input_mint intent,
       sa_output_mint = in_output_mint intent, sa_input_token_account = sp_input_account plan,
       sa_output_token_account = sp_output_account plan\<rparr>
      (dq_swap_amount_in quote) (dq_min_out quote) swap"
proof -
  obtain legs s where "shape_of_plan sdk price intent (as_market m) legs quote s"
    and list: "sp_instructions plan = shape_list s"
    and acc: "sp_input_account plan = wl_input_account legs" "sp_output_account plan = wl_output_account legs"
    by (rule build_plan_shape [OF assms]) blast
  then have parts: "length (ps_budget s) = 2" "length (ps_ensure s) = 2"
    and swap: "swap_contract (amount_pos m (in_input_mint intent)) (min_pos m (in_input_mint intent)) (as_market m)
      \<lparr>sa_owner = in_owner intent, sa_input_mint = in_input_mint intent,
       sa_output_mint = in_output_mint intent, sa_input_token_account = wl_input_account legs,
       sa_output_token_account = wl_output_account legs\<rparr>
      (dq_swap_amount_in quote) (dq_min_out quote) (ps_swap s)"
    by (auto simp: shape_of_plan_def compute_budget_instructions_def ensure_instructions_def
        dest!: swap_law)
  show ?thesis
    by (rule that [of "ps_budget s @ ps_ensure s @ ps_wrap s @ option_list (ps_input_fee s)" "ps_swap s"])
      (use list parts swap acc in \<open>simp_all add: shape_list_def\<close>)
qed

lemma foreign_pair_refused:
  assumes "\<not> trades (as_market m) (in_input_mint intent) (in_output_mint intent)"
  shows "\<exists>e. build_plan sdk price intent (as_market m) quote = Inl e"
proof (cases "build_plan sdk price intent (as_market m) quote")
  case (Inr plan)
  show ?thesis by (rule plan_contract [OF Inr]) (use assms in \<open>simp add: swap_contract_def\<close>)
qed blast

lemma foreign_mint_unquoted:
  "\<not> holds (as_market m) mint \<Longrightarrow> \<exists>e. pm_quote (as_market m) mint amount_in = Inl e"
  using quote_law by (cases "pm_quote (as_market m) mint amount_in") blast+

end

end
