(* ===== verification/Receipt.thy ===== *)
theory Receipt
  imports Swap_Plan
begin

text \<open>
  \<open>src/chains/solana/swaps/direct/verify.rs\<close>: what a confirmed swap delivered, read out
  of the transaction's metadata. The JSON values are those of \<open>serde_json\<close>; printing a
  key or a value as text is not part of the sources and is the parameter \<open>display\<close>.

  The lemmas show that a receipt marked exact is never below the guaranteed minimum, that
  a native output is never reported as a failure once the chain accepted it, and that an
  error is reported only for a failed transaction or for a measured shortfall.
\<close>

section \<open>JSON values and numbers\<close>

datatype json =
    JNull
  | JBool bool
  | JNumber f64
  | JString string
  | JArray "json list"
  | JObject "(string \<times> json) list"

fun json_get :: "json \<Rightarrow> string \<Rightarrow> json option" where
  "json_get (JObject entries) key = map_of entries key"
| "json_get _ key = None"

fun as_str :: "json \<Rightarrow> string option" where
  "as_str (JString s) = Some s"
| "as_str _ = None"

fun as_array :: "json \<Rightarrow> json list option" where
  "as_array (JArray xs) = Some xs"
| "as_array _ = None"

record display =
  show_pubkey :: "pubkey \<Rightarrow> string"
  show_json :: "json \<Rightarrow> string"

text \<open>
  \<open>str::parse\<close> for an unsigned integer: an optional plus sign, then one or more digits,
  with a value below \<open>2 ^ bits\<close>.
\<close>

definition digit_value :: "char \<Rightarrow> nat option" where
  "digit_value c =
     (let code = of_char c :: nat in if 48 \<le> code \<and> code \<le> 57 then Some (code - 48) else None)"

fun parse_digits :: "string \<Rightarrow> nat \<Rightarrow> nat option" where
  "parse_digits [] acc = Some acc"
| "parse_digits (c # cs) acc =
     (case digit_value c of Some d \<Rightarrow> parse_digits cs (acc * 10 + d) | None \<Rightarrow> None)"

definition parse_unsigned :: "nat \<Rightarrow> string \<Rightarrow> nat option" where
  "parse_unsigned bits s =
     (let digits = (case s of c # cs \<Rightarrow> if c = CHR ''+'' then cs else s | [] \<Rightarrow> []) in
      if digits = [] then None
      else case parse_digits digits 0 of
        Some n \<Rightarrow> if n < 2 ^ bits then Some n else None
      | None \<Rightarrow> None)"

definition parse_u64 :: "string \<Rightarrow> u64 option" where
  "parse_u64 s = map_option of_nat (parse_unsigned 64 s)"

definition parse_u128 :: "string \<Rightarrow> u128 option" where
  "parse_u128 s = map_option of_nat (parse_unsigned 128 s)"

section \<open>The transaction\<close>

text \<open>The fields of \<open>src/chains/solana/rpc/types.rs\<close> that the receipt reads.\<close>

record token_balance =
  tb_account_index :: u32
  tb_mint :: string
  tb_owner :: "string option"
  tb_amount :: string

record transaction_meta =
  tm_err :: "json option"
  tm_pre_balances :: "u64 list"
  tm_post_balances :: "u64 list"
  tm_pre_token_balances :: "token_balance list option"
  tm_post_token_balances :: "token_balance list option"
  tm_fee :: u64
  tm_inner_instructions :: "json list option"

record transaction_details =
  td_slot :: u64
  td_message :: json
  td_meta :: "transaction_meta option"

record receipt =
  rc_received :: u64
  rc_exact :: bool
  rc_network_fee_lamports :: u64
  rc_slot :: u64

section \<open>Measuring\<close>

definition account_keys_from_message :: "json \<Rightarrow> string list" where
  "account_keys_from_message message =
     (case Option.bind (json_get message ''accountKeys'') as_array of
        None \<Rightarrow> []
      | Some entries \<Rightarrow> List.map_filter (\<lambda>entry.
          case as_str entry of
            Some key \<Rightarrow> Some key
          | None \<Rightarrow> Option.bind (json_get entry ''pubkey'') as_str) entries)"

fun position :: "('a \<Rightarrow> bool) \<Rightarrow> 'a list \<Rightarrow> nat option" where
  "position keep [] = None"
| "position keep (x # xs) = (if keep x then Some 0 else map_option Suc (position keep xs))"

definition account_index_of :: "display \<Rightarrow> transaction_details \<Rightarrow> pubkey \<Rightarrow> nat option" where
  "account_index_of display details account =
     position (\<lambda>key. key = show_pubkey display account)
       (account_keys_from_message (td_message details))"

text \<open>The inner function \<open>sum\<close> of \<open>token_delta\<close>, and its loop.\<close>

fun sum_amounts :: "token_balance list \<Rightarrow> u128 \<Rightarrow> u128 option" where
  "sum_amounts [] acc = Some acc"
| "sum_amounts (b # bs) acc =
     (case parse_u128 (tb_amount b) of
        Some amount \<Rightarrow> sum_amounts bs (saturating_add acc amount)
      | None \<Rightarrow> None)"

definition sum_balances :: "token_balance list option \<Rightarrow> (token_balance \<Rightarrow> bool) \<Rightarrow> u128 option" where
  "sum_balances balances keep = do {
     list \<leftarrow> balances;
     amount \<leftarrow> sum_amounts (filter keep list) 0;
     (if filter keep list \<noteq> [] then Some amount else None)
   }"

definition balance_delta ::
  "transaction_meta \<Rightarrow> (token_balance \<Rightarrow> bool) \<Rightarrow> u128 \<Rightarrow> u64" where
  "balance_delta meta keep post =
     (let pre = unwrap_or (sum_balances (tm_pre_token_balances meta) keep) 0
      in ucast (saturating_sub post pre))"

definition token_delta ::
  "display \<Rightarrow> transaction_meta \<Rightarrow> transaction_details \<Rightarrow> pubkey \<Rightarrow> swap_plan \<Rightarrow> u64 option" where
  "token_delta display meta details owner plan =
     (let by_owner = (\<lambda>b. tb_mint b = show_pubkey display (dq_output_mint (sp_quote plan))
                        \<and> tb_owner b = Some (show_pubkey display owner));
          measured_by_owner =
            map_option (balance_delta meta by_owner)
              (sum_balances (tm_post_token_balances meta) by_owner)
      in case account_index_of display details (sp_output_account plan) of
           Some index \<Rightarrow>
             (let by_index = (\<lambda>b. unat (tb_account_index b) = index) in
              case sum_balances (tm_post_token_balances meta) by_index of
                Some post \<Rightarrow> Some (balance_delta meta by_index post)
              | None \<Rightarrow> measured_by_owner)
         | None \<Rightarrow> measured_by_owner)"

text \<open>The amount one parsed inner instruction transfers to the output account, if it does.\<close>

definition transfer_amount :: "string \<Rightarrow> json \<Rightarrow> u64 option" where
  "transfer_amount output_str ix = do {
     parsed \<leftarrow> json_get ix ''parsed'';
     (let kind = unwrap_or (Option.bind (json_get parsed ''type'') as_str) '''' in
      if kind \<noteq> ''transfer'' \<and> kind \<noteq> ''transferChecked'' then None
      else do {
        info \<leftarrow> json_get parsed ''info'';
        (if Option.bind (json_get info ''destination'') as_str \<noteq> Some output_str then None
         else do {
           amount \<leftarrow> (if kind = ''transferChecked''
                      then do {
                        v \<leftarrow> json_get info ''tokenAmount'';
                        a \<leftarrow> json_get v ''amount'';
                        as_str a
                      }
                      else do {
                        a \<leftarrow> json_get info ''amount'';
                        as_str a
                      });
           parse_u64 amount
         })
      })
   }"

fun first_transfer :: "string \<Rightarrow> json list \<Rightarrow> u64 option" where
  "first_transfer output_str [] = None"
| "first_transfer output_str (ix # rest) =
     (case transfer_amount output_str ix of
        Some amount \<Rightarrow> Some amount
      | None \<Rightarrow> first_transfer output_str rest)"

fun first_group_transfer :: "string \<Rightarrow> json list \<Rightarrow> u64 option" where
  "first_group_transfer output_str [] = None"
| "first_group_transfer output_str (entry # rest) =
     (case Option.bind (json_get entry ''instructions'') as_array of
        None \<Rightarrow> first_group_transfer output_str rest
      | Some instructions \<Rightarrow>
          (case first_transfer output_str instructions of
             Some amount \<Rightarrow> Some amount
           | None \<Rightarrow> first_group_transfer output_str rest))"

definition swap_output_transfer_amount ::
  "display \<Rightarrow> transaction_meta \<Rightarrow> pubkey \<Rightarrow> u64 option" where
  "swap_output_transfer_amount display meta output_account = do {
     groups \<leftarrow> tm_inner_instructions meta;
     first_group_transfer (show_pubkey display output_account) groups
   }"

section \<open>The receipt\<close>

definition get_or_zero :: "u64 list \<Rightarrow> nat \<Rightarrow> u64" where
  "get_or_zero xs i = (if i < length xs then xs ! i else 0)"

definition lamport_receipt ::
  "display \<Rightarrow> pubkey \<Rightarrow> swap_plan \<Rightarrow> transaction_details \<Rightarrow> transaction_meta \<Rightarrow> receipt" where
  "lamport_receipt display owner plan details meta =
     (case account_index_of display details owner of
        None \<Rightarrow> \<lparr>rc_received = dq_min_net_out (sp_quote plan), rc_exact = False,
                 rc_network_fee_lamports = tm_fee meta, rc_slot = td_slot details\<rparr>
      | Some owner_index \<Rightarrow>
          (let pre = get_or_zero (tm_pre_balances meta) owner_index;
               post = get_or_zero (tm_post_balances meta) owner_index;
               gained = saturating_add (saturating_sub post pre) (tm_fee meta)
           in \<lparr>rc_received = gained, rc_exact = False,
                rc_network_fee_lamports = tm_fee meta, rc_slot = td_slot details\<rparr>))"

definition native_receipt ::
  "display \<Rightarrow> pubkey \<Rightarrow> swap_plan \<Rightarrow> transaction_details \<Rightarrow> transaction_meta
   \<Rightarrow> receipt direct_swap_result" where
  "native_receipt display owner plan details meta =
     (case swap_output_transfer_amount display meta (sp_output_account plan) of
        Some gross \<Rightarrow>
          (let received = saturating_sub gross (pf_amount (dq_fee (sp_quote plan))) in
           if dq_min_net_out (sp_quote plan) \<le> received
           then Inr \<lparr>rc_received = received, rc_exact = True,
                  rc_network_fee_lamports = tm_fee meta, rc_slot = td_slot details\<rparr>
           else Inr (lamport_receipt display owner plan details meta))
      | None \<Rightarrow> Inr (lamport_receipt display owner plan details meta))"

definition receipt_from_transaction ::
  "display \<Rightarrow> string \<Rightarrow> pubkey \<Rightarrow> swap_plan \<Rightarrow> transaction_details \<Rightarrow> receipt direct_swap_result" where
  "receipt_from_transaction display signature owner plan details =
     (case td_meta details of
        None \<Rightarrow> Inr \<lparr>rc_received = dq_min_net_out (sp_quote plan), rc_exact = False,
                  rc_network_fee_lamports = 0, rc_slot = td_slot details\<rparr>
      | Some meta \<Rightarrow>
          (case tm_err meta of
             Some err \<Rightarrow> Inl (TransactionFailed signature (show_json display err))
           | None \<Rightarrow>
               if sp_output_is_native plan then native_receipt display owner plan details meta
               else
                 (case token_delta display meta details owner plan of
                    None \<Rightarrow> Inr \<lparr>rc_received = dq_min_net_out (sp_quote plan), rc_exact = False,
                              rc_network_fee_lamports = tm_fee meta, rc_slot = td_slot details\<rparr>
                  | Some received \<Rightarrow>
                      if received < dq_min_net_out (sp_quote plan)
                      then Inl (OutputNotReceived signature (dq_min_net_out (sp_quote plan)) received)
                      else Inr \<lparr>rc_received = received, rc_exact = True,
                             rc_network_fee_lamports = tm_fee meta, rc_slot = td_slot details\<rparr>)))"

section \<open>Parsing\<close>

text \<open>The decimal digits of a number, most significant first.\<close>

fun decimal :: "nat \<Rightarrow> string" where
  "decimal n = (if n < 10 then [char_of (48 + n)] else decimal (n div 10) @ [char_of (48 + n mod 10)])"

declare decimal.simps [simp del]

lemma digit_value_char: "d < 10 \<Longrightarrow> digit_value (char_of (48 + d)) = Some d"
  by (simp add: digit_value_def Let_def)

lemma parse_digits_append:
  "parse_digits (xs @ ys) acc = Option.bind (parse_digits xs acc) (parse_digits ys)"
  by (induction xs acc rule: parse_digits.induct) (auto split: option.splits)

lemma parse_digits_decimal: "parse_digits (decimal n) 0 = Some n"
proof (induction n rule: decimal.induct)
  case (1 n)
  show ?case
  proof (cases "n < 10")
    case True
    then show ?thesis by (subst decimal.simps) (simp add: digit_value_char)
  next
    case False
    then show ?thesis
      using "1.IH" by (subst decimal.simps) (simp add: parse_digits_append digit_value_char)
  qed
qed

lemma decimal_head: "\<exists>c cs. decimal n = c # cs \<and> c \<noteq> CHR ''+''"
proof (induction n rule: decimal.induct)
  case (1 n)
  have "digit_value (CHR ''+'') = None" by (simp add: digit_value_def)
  then have "char_of (48 + d) \<noteq> CHR ''+''" if "d < 10" for d :: nat
    using digit_value_char [OF that] by force
  then show ?case using 1 by (subst decimal.simps) auto
qed

lemma parse_unsigned_decimal: "parse_unsigned bits (decimal n) = (if n < 2 ^ bits then Some n else None)"
  using decimal_head [of n] parse_digits_decimal [of n] by (auto simp: parse_unsigned_def Let_def)

lemma parse_u64_decimal: "parse_u64 (decimal (unat x)) = Some x"
  using u64_bound [of x] by (simp add: parse_u64_def parse_unsigned_decimal)

section \<open>What a receipt promises\<close>

lemma lamport_receipt_inexact: "\<not> rc_exact (lamport_receipt display owner plan details meta)"
  by (simp add: lamport_receipt_def Let_def split: option.splits)

lemma native_receipt_not_error: "native_receipt display owner plan details meta \<noteq> Inl e"
  by (auto simp: native_receipt_def Let_def split: option.splits)

lemma native_receipt_exact:
  "native_receipt display owner plan details meta = Inr r \<Longrightarrow> rc_exact r \<Longrightarrow>
     dq_min_net_out (sp_quote plan) \<le> rc_received r"
  using lamport_receipt_inexact
  by (auto simp: native_receipt_def Let_def split: option.splits if_splits)

lemma receipt_exact_covers_minimum:
  assumes "receipt_from_transaction display signature owner plan details = Inr r" and "rc_exact r"
  shows "dq_min_net_out (sp_quote plan) \<le> rc_received r"
  using assms
  by (auto simp: receipt_from_transaction_def not_less native_receipt_exact split: option.splits if_splits)

lemma receipt_error:
  assumes "receipt_from_transaction display signature owner plan details = Inl e"
  shows "\<exists>meta. td_meta details = Some meta
     \<and> (case tm_err meta of
          Some err \<Rightarrow> e = TransactionFailed signature (show_json display err)
        | None \<Rightarrow> \<not> sp_output_is_native plan
            \<and> (\<exists>received. token_delta display meta details owner plan = Some received
                 \<and> received < dq_min_net_out (sp_quote plan)
                 \<and> e = OutputNotReceived signature (dq_min_net_out (sp_quote plan)) received))"
  using assms
  by (auto simp: receipt_from_transaction_def native_receipt_not_error split: option.splits if_splits)

text \<open>An inexact receipt of a token output reports the guaranteed minimum.\<close>

lemma receipt_inexact_token:
  assumes "receipt_from_transaction display signature owner plan details = Inr r"
    and "\<not> rc_exact r" and "\<not> sp_output_is_native plan"
  shows "rc_received r = dq_min_net_out (sp_quote plan)"
  using assms by (auto simp: receipt_from_transaction_def split: option.splits if_splits)

text \<open>
  A measured delta is exact when the reply names the output account by its index and the
  balances of that entry fit 64 bits.
\<close>

lemma sum_amounts_single: "sum_amounts [b] acc = map_option (saturating_add acc) (parse_u128 (tb_amount b))"
  by (simp split: option.splits)

lemma token_delta_by_index:
  assumes "account_index_of display details (sp_output_account plan) = Some index"
    and "tm_pre_token_balances meta = Some pres" and "tm_post_token_balances meta = Some posts"
    and "filter (\<lambda>b. unat (tb_account_index b) = index) pres = [b]"
    and "filter (\<lambda>b. unat (tb_account_index b) = index) posts = [c]"
    and "tb_amount b = decimal (unat (before :: u64))" and "tb_amount c = decimal (unat (after :: u64))"
  shows "token_delta display meta details owner plan = Some (saturating_sub after before)"
proof -
  have amount: "sum_amounts [x] 0 = Some (ucast v)" if "tb_amount x = decimal (unat v)"
    for x and v :: u64
  proof -
    have "unat v < 2 ^ 128" using u64_bound [of v] by simp
    then have "parse_u128 (decimal (unat v)) = Some (ucast v)"
      by (simp add: parse_u128_def parse_unsigned_decimal)
    then show ?thesis
      unfolding sum_amounts_single that by (simp add: word_unat_eq_iff unat_simps)
        (use u64_bound [of v] in \<open>simp add: min_def\<close>)
  qed
  have "unat (ucast (saturating_sub (ucast after) (ucast before) :: u128) :: u64)
      = unat (saturating_sub after before)"
    using u64_bound [of after] u64_bound [of before] by (simp add: unat_ucast_mod unat_simps)
  then have "ucast (saturating_sub (ucast after) (ucast before) :: u128) = saturating_sub after before"
    by (rule word_nat_eqI)
  then show ?thesis
    using assms(1-5) amount [OF assms(6)] amount [OF assms(7)]
    by (simp add: token_delta_def balance_delta_def sum_balances_def Let_def)
qed

section \<open>Properties\<close>

text \<open>
  C36: how a confirmed transaction is read. A receipt that is exact covers the guaranteed net
  minimum. A failure always carries the signature of the transaction, is never reported as safe
  to try again elsewhere unless the transaction itself failed, and a shortfall is only reported
  for a token output that was really measured below the minimum.
\<close>

theorem receipt_outcomes:
  "case receipt_from_transaction display signature owner plan details of
     Inr r \<Rightarrow> if rc_exact r then dq_min_net_out (sp_quote plan) \<le> rc_received r
             else sp_output_is_native plan \<or> rc_received r = dq_min_net_out (sp_quote plan)
   | Inl e \<Rightarrow> submitted e \<and> error_signature e = Some signature
       \<and> (\<exists>meta. td_meta details = Some meta
          \<and> (case tm_err meta of
               Some err \<Rightarrow> e = TransactionFailed signature (show_json display err)
             | None \<Rightarrow> \<not> sp_output_is_native plan \<and> \<not> safe_to_fallback e
                 \<and> (\<exists>received. token_delta display meta details owner plan = Some received
                     \<and> received < dq_min_net_out (sp_quote plan)
                     \<and> e = OutputNotReceived signature (dq_min_net_out (sp_quote plan)) received)))"
proof (cases "receipt_from_transaction display signature owner plan details")
  case (Inl e)
  then show ?thesis using receipt_error [OF Inl] by (auto split: option.splits)
next
  case (Inr r)
  then show ?thesis
    using receipt_exact_covers_minimum [OF Inr] receipt_inexact_token [OF Inr] by auto
qed

text \<open>
  A token balance printed in decimal is read back into the sum, and a number that does not
  fit its width is refused instead of wrapped.
\<close>

theorem printed_balance_read_back:
  "sum_amounts [b\<lparr>tb_amount := decimal n\<rparr>] acc
     = (if n < 2 ^ 128 then Some (saturating_add acc (of_nat n)) else None)
   \<and> parse_u64 (decimal (unat x)) = Some x"
  by (simp add: sum_amounts_single parse_u128_def parse_unsigned_decimal parse_u64_decimal)

end
