(* ===== verification/Position_Types.thy ===== *)
theory Position_Types
  imports Receipt Float_Value
begin

text \<open>
  Who opened a position and who may act on it: \<open>PositionOrigin\<close> and \<open>PositionManagement\<close> of
  \<open>src/positions/types.rs\<close> with the columns they are stored in, and the fields of \<open>Position\<close> the
  automatic adds read. Times are in nanoseconds.

  The lemmas show that what is stored is read back, and which modes a wallet-derived or a copied
  position can have.
\<close>

section \<open>Origin\<close>

datatype position_origin =
    OriginAuto "string option"
  | OriginManual
  | OriginCopy i64 string
  | OriginExternal

datatype persisted_error = UnknownPersistedValue string string

fun origin_kind :: "position_origin \<Rightarrow> string" where
  "origin_kind (OriginAuto _) = ''auto''"
| "origin_kind OriginManual = ''manual''"
| "origin_kind (OriginCopy _ _) = ''copy''"
| "origin_kind OriginExternal = ''external''"

definition i64_to_string :: "i64 \<Rightarrow> string" where
  "i64_to_string n = (if n < 0 then CHR ''-'' # decimal (nat (- n)) else decimal (nat n))"

fun origin_reference :: "position_origin \<Rightarrow> string option" where
  "origin_reference (OriginAuto strategy_id) = strategy_id"
| "origin_reference OriginManual = None"
| "origin_reference (OriginCopy task_id source_wallet) = Some (i64_to_string task_id @ CHR '':'' # source_wallet)"
| "origin_reference OriginExternal = None"

fun entry_strategy_id :: "position_origin \<Rightarrow> string option" where
  "entry_strategy_id (OriginAuto strategy_id) = strategy_id"
| "entry_strategy_id _ = None"

fun split_once :: "char \<Rightarrow> string \<Rightarrow> (string \<times> string) option" where
  "split_once delimiter [] = None"
| "split_once delimiter (c # cs) =
     (if c = delimiter then Some ([], cs)
      else map_option (\<lambda>(before, after). (c # before, after)) (split_once delimiter cs))"

definition parse_i64 :: "string \<Rightarrow> i64 option" where
  "parse_i64 s =
     (let (negative, digits) = (case s of
            c # cs \<Rightarrow> if c = CHR ''-'' then (True, cs) else if c = CHR ''+'' then (False, cs) else (False, s)
          | [] \<Rightarrow> (False, [])) in
      if digits = [] then None
      else Option.bind (parse_digits digits 0) (\<lambda>n.
        let v = (if negative then - int n else int n) in if in_i64 v then Some v else None))"

definition origin_from_columns :: "string \<Rightarrow> string option \<Rightarrow> persisted_error + position_origin" where
  "origin_from_columns kind reference =
     (if kind = ''auto'' then Inr (OriginAuto reference)
      else if kind = ''manual'' then Inr OriginManual
      else if kind = ''external'' then Inr OriginExternal
      else if kind = ''copy'' then
        and_then (ok_or reference (UnknownPersistedValue ''origin_ref'' ''<missing>'')) (\<lambda>v.
        and_then (ok_or (split_once (CHR '':'') v) (UnknownPersistedValue ''origin_ref'' v))
          (\<lambda>(task_id, source_wallet).
        and_then (ok_or (parse_i64 task_id) (UnknownPersistedValue ''origin_ref'' v)) (\<lambda>task_id.
        Inr (OriginCopy task_id source_wallet))))
      else Inl (UnknownPersistedValue ''origin_kind'' kind))"

section \<open>Management\<close>

datatype position_management = AutoTrader | UserOnly | CopyTask | Hybrid

fun management_as_str :: "position_management \<Rightarrow> string" where
  "management_as_str AutoTrader = ''auto_trader''"
| "management_as_str UserOnly = ''user_only''"
| "management_as_str CopyTask = ''copy_task''"
| "management_as_str Hybrid = ''hybrid''"

definition management_parse :: "string \<Rightarrow> persisted_error + position_management" where
  "management_parse v =
     (if v = ''auto_trader'' then Inr AutoTrader
      else if v = ''user_only'' then Inr UserOnly
      else if v = ''copy_task'' then Inr CopyTask
      else if v = ''hybrid'' then Inr Hybrid
      else Inl (UnknownPersistedValue ''management'' v))"

definition allows_safety_exits :: "position_management \<Rightarrow> bool" where
  "allows_safety_exits m \<longleftrightarrow> m \<noteq> UserOnly"

definition allows_policy_exits :: "position_management \<Rightarrow> bool" where
  "allows_policy_exits m \<longleftrightarrow> m \<in> {AutoTrader, Hybrid}"

definition allows_auto_dca :: "position_management \<Rightarrow> bool" where
  "allows_auto_dca m \<longleftrightarrow> m = AutoTrader"

definition allows_copy_sell :: "position_management \<Rightarrow> bool" where
  "allows_copy_sell m \<longleftrightarrow> m \<in> {CopyTask, Hybrid}"

definition is_valid_for_origin :: "position_management \<Rightarrow> position_origin \<Rightarrow> bool" where
  "is_valid_for_origin m origin =
     (if origin = OriginExternal then m = UserOnly
      else m \<notin> {CopyTask, Hybrid} \<or> (\<exists>task_id source_wallet. origin = OriginCopy task_id source_wallet))"

section \<open>The position\<close>

datatype book = Live | Paper

datatype price_source = PoolPrice | ApiPrice

record position_row =
  po_id :: "i64 option"
  po_mint :: string
  po_symbol :: string
  po_name :: string
  po_entry_price :: flt
  po_entry_time :: i64
  po_exit_price :: "flt option"
  po_exit_time :: "i64 option"
  po_position_type :: string
  po_entry_size_native :: flt
  po_total_size_native :: flt
  po_price_highest :: flt
  po_price_lowest :: flt
  po_basis_peak_price :: flt
  po_basis_peak_restarted :: bool
  po_entry_transaction_signature :: "string option"
  po_exit_transaction_signature :: "string option"
  po_token_amount :: "u128 option"
  po_effective_entry_price :: "flt option"
  po_effective_exit_price :: "flt option"
  po_native_received :: "flt option"
  po_profit_target_min :: "flt option"
  po_profit_target_max :: "flt option"
  po_liquidity_tier :: "string option"
  po_transaction_entry_verified :: bool
  po_transaction_exit_verified :: bool
  po_entry_fee_raw :: "u64 option"
  po_exit_fee_raw :: "u64 option"
  po_current_price :: "flt option"
  po_current_price_updated :: "i64 option"
  po_current_price_source :: "price_source option"
  po_book :: book
  po_phantom_remove :: bool
  po_phantom_confirmations :: u32
  po_phantom_first_seen :: "i64 option"
  po_synthetic_exit :: bool
  po_closed_reason :: "string option"
  po_exit_strategy_id :: "string option"
  po_pnl :: "flt option"
  po_pnl_percent :: "flt option"
  po_unrealized_pnl :: "flt option"
  po_unrealized_pnl_percent :: "flt option"
  po_remaining_token_amount :: "u128 option"
  po_total_exited_amount :: u128
  po_average_exit_price :: "flt option"
  po_partial_exit_count :: u32
  po_take_profit_level :: u32
  po_entry_liquidity_native :: "flt option"
  po_entry_liquidity_pool :: "string option"
  po_dca_count :: u32
  po_average_entry_price :: flt
  po_last_dca_time :: "i64 option"
  po_archived :: bool
  po_archived_at :: "i64 option"
  po_origin :: position_origin
  po_management :: position_management
  po_round_key :: "string option"
  po_basis_complete :: bool
  po_history_complete :: bool
  po_holding_state :: "string option"

record opening_row =
  og_mint :: string
  og_symbol :: string
  og_name :: string
  og_entry_price :: flt
  og_entry_time :: i64
  og_size_native :: flt
  og_entry_signature :: "string option"
  og_origin :: position_origin
  og_management :: position_management
  og_entry_liquidity :: "(flt \<times> string) option"
  og_book :: book

definition position_opening :: "opening_row \<Rightarrow> position_row" where
  "position_opening og = \<lparr>
     po_id = None, po_mint = og_mint og, po_symbol = og_symbol og, po_name = og_name og,
     po_entry_price = og_entry_price og, po_entry_time = og_entry_time og,
     po_exit_price = None, po_exit_time = None, po_position_type = ''buy'',
     po_entry_size_native = og_size_native og, po_total_size_native = og_size_native og,
     po_price_highest = og_entry_price og, po_price_lowest = og_entry_price og,
     po_basis_peak_price = og_entry_price og, po_basis_peak_restarted = False,
     po_entry_transaction_signature = og_entry_signature og, po_exit_transaction_signature = None,
     po_token_amount = None, po_effective_entry_price = None, po_effective_exit_price = None,
     po_native_received = None, po_profit_target_min = None, po_profit_target_max = None,
     po_liquidity_tier = Some ''UNKNOWN'',
     po_transaction_entry_verified = False, po_transaction_exit_verified = False,
     po_entry_fee_raw = None, po_exit_fee_raw = None,
     po_current_price = Some (og_entry_price og), po_current_price_updated = Some (og_entry_time og),
     po_current_price_source = None, po_book = og_book og,
     po_phantom_remove = False, po_phantom_confirmations = 0, po_phantom_first_seen = None,
     po_synthetic_exit = False, po_closed_reason = None, po_exit_strategy_id = None,
     po_pnl = None, po_pnl_percent = None, po_unrealized_pnl = None, po_unrealized_pnl_percent = None,
     po_remaining_token_amount = None, po_total_exited_amount = 0, po_average_exit_price = None,
     po_partial_exit_count = 0, po_take_profit_level = 0,
     po_entry_liquidity_native = map_option fst (og_entry_liquidity og),
     po_entry_liquidity_pool = map_option snd (og_entry_liquidity og),
     po_dca_count = 0, po_average_entry_price = og_entry_price og, po_last_dca_time = None,
     po_archived = False, po_archived_at = None, po_origin = og_origin og, po_management = og_management og,
     po_round_key = None, po_basis_complete = True, po_history_complete = True, po_holding_state = None\<rparr>"

definition is_wallet_derived :: "position_row \<Rightarrow> bool" where
  "is_wallet_derived p \<longleftrightarrow> po_origin p = OriginExternal"

definition has_trustworthy_pnl :: "position_row \<Rightarrow> bool" where
  "has_trustworthy_pnl p \<longleftrightarrow> po_basis_complete p \<and> po_history_complete p"

definition HOLDING_STATE_FROZEN :: string where "HOLDING_STATE_FROZEN = ''frozen''"

definition is_frozen :: "position_row \<Rightarrow> bool" where
  "is_frozen p \<longleftrightarrow> po_holding_state p = Some HOLDING_STATE_FROZEN"

text \<open>What \<open>chrono\<close> calls the whole seconds of a duration in nanoseconds, rounded towards zero.\<close>

definition num_seconds :: "i64 \<Rightarrow> i64" where
  "num_seconds duration = trunc_div duration 1000000000"

section \<open>Lemmas\<close>

lemma decimal_Cons:
  obtains d cs where "decimal n = char_of (48 + d :: nat) # cs" and "d < 10"
proof -
  have "\<exists>d cs. decimal n = char_of (48 + d :: nat) # cs \<and> d < 10"
  proof (induction n rule: decimal.induct)
    case (1 n)
    show ?case
    proof (cases "n < 10")
      case True
      then have "decimal n = [char_of (48 + n)]" by (subst decimal.simps) simp
      then show ?thesis using True by blast
    next
      case False
      then have "decimal n = decimal (n div 10) @ [char_of (48 + n mod 10)]" by (subst decimal.simps) simp
      then show ?thesis using 1 False by (metis append_Cons)
    qed
  qed
  then show ?thesis using that by blast
qed

lemma digit_no_separator: "d < 10 \<Longrightarrow> char_of (48 + d :: nat) \<notin> {CHR '':'', CHR ''-'', CHR ''+''}"
proof -
  assume "d < 10"
  then have "digit_value (char_of (48 + d)) \<noteq> None" by (simp add: digit_value_char)
  moreover have "digit_value (CHR '':'') = None" "digit_value (CHR ''-'') = None" "digit_value (CHR ''+'') = None"
    by (simp_all add: digit_value_def)
  ultimately show ?thesis by fastforce
qed

lemma decimal_no_separator: "c \<in> set (decimal n) \<Longrightarrow> c \<noteq> CHR '':''"
proof (induction n rule: decimal.induct)
  case (1 n)
  then show ?case
    using digit_no_separator [of n] digit_no_separator [of "n mod 10"]
    by (subst (asm) (2) decimal.simps) (auto split: if_splits)
qed

lemma split_once_at: "delimiter \<notin> set xs \<Longrightarrow> split_once delimiter (xs @ delimiter # ys) = Some (xs, ys)"
  by (induction xs) auto

lemma i64_to_string_no_separator: "CHR '':'' \<notin> set (i64_to_string n)"
  using decimal_no_separator by (auto simp: i64_to_string_def)

lemma parse_i64_to_string: "in_i64 n \<Longrightarrow> parse_i64 (i64_to_string n) = Some n"
proof -
  assume n: "in_i64 n"
  show ?thesis
  proof (cases "n < 0")
    case True
    obtain d :: nat and cs where "decimal (nat (- n)) = char_of (48 + d) # cs" "d < 10" by (rule decimal_Cons)
    then show ?thesis using True n parse_digits_decimal [of "nat (- n)"] by (simp add: i64_to_string_def parse_i64_def)
  next
    case False
    obtain d :: nat and cs where d: "decimal (nat n) = char_of (48 + d) # cs" "d < 10" by (rule decimal_Cons)
    then show ?thesis
      using False n parse_digits_decimal [of "nat n"] digit_no_separator [OF d(2)]
      by (simp add: i64_to_string_def parse_i64_def Let_def)
  qed
qed

text \<open>A wallet-derived position is never acted on automatically, in any mode it may have.\<close>

lemma external_is_inert:
  assumes "is_valid_for_origin m OriginExternal"
  shows "\<not> allows_safety_exits m" and "\<not> allows_policy_exits m" and "\<not> allows_auto_dca m" and "\<not> allows_copy_sell m"
  using assms by (auto simp: is_valid_for_origin_def allows_safety_exits_def allows_policy_exits_def
      allows_auto_dca_def allows_copy_sell_def)

lemma management_round_trip: "management_parse (management_as_str m) = Inr m"
  by (cases m) (simp_all add: management_parse_def)

section \<open>Properties\<close>

text \<open>
  The two columns a position's origin is stored in give the origin back, for every origin
  whose task id is a signed 64-bit number, whatever the wallet is called.
\<close>

theorem origin_round_trip:
  assumes "\<And>task_id wallet. origin = OriginCopy task_id wallet \<Longrightarrow> in_i64 task_id"
  shows "origin_from_columns (origin_kind origin) (origin_reference origin) = Inr origin"
proof (cases origin)
  case (OriginCopy task_id wallet)
  then show ?thesis
    using assms [of task_id wallet] split_once_at [OF i64_to_string_no_separator]
    by (simp add: origin_from_columns_def parse_i64_to_string ok_or_def)
qed (simp_all add: origin_from_columns_def)

theorem origin_round_trip_witness:
  "origin_from_columns ''copy'' (origin_reference (OriginCopy (- 7) ''a:b'')) = Inr (OriginCopy (- 7) ''a:b'')"
  using origin_round_trip [of "OriginCopy (- 7) ''a:b''"] by (simp add: in_i64_def)

end
