(* ===== verification/Dca_Ladder.thy ===== *)
theory Dca_Ladder
  imports Trader_Validation Position_Types
begin

text \<open>
  The automatic adds to a position, \<open>src/trader/evaluators/dca.rs\<close>: which step of the DCA ladder is
  due, every gate it has to pass, and what it buys. The live inputs of an evaluation are its
  context, as in the code. The loop over the open positions of a book reads its positions and
  their pending adds from storage and is not modelled.

  The lemmas show exactly when an add fires, and for a validated section how much it can buy.
\<close>

section \<open>Evaluation\<close>

definition MIN_TRADE_SIZE_NATIVE :: real where "MIN_TRADE_SIZE_NATIVE = 1 / 1000"
definition DCA_PRICE_MAX_AGE_SECS :: i64 where "DCA_PRICE_MAX_AGE_SECS = 30"

record dca_context =
  dx_add_in_flight :: bool
  dx_entries_blocked :: bool
  dx_now :: i64

record dca_calculations =
  dk_current_dca_count :: u32
  dk_step :: "nat option"
  dk_measure_from :: dca_measure_from
  dk_basis_price :: "flt option"
  dk_current_price :: "flt option"
  dk_drop_pct :: "flt option"
  dk_required_drop_pct :: "flt option"
  dk_dca_amount_native :: "flt option"
  dk_price_age_secs :: "i64 option"
  dk_minutes_since_last :: "i64 option"
  dk_minutes_held :: i64
  dk_below_minimum_trade :: bool

record dca_evaluation =
  de_should_trigger :: bool
  de_reasons :: "string list"
  de_config :: dca_config_snapshot
  de_calculations :: dca_calculations

text \<open>The whole minutes of a duration in nanoseconds, from its whole seconds.\<close>

definition num_minutes :: "i64 \<Rightarrow> i64" where
  "num_minutes duration = trunc_div (num_seconds duration) 60"

definition positive_price :: "flt \<Rightarrow> flt option" where
  "positive_price price = (if usable price then Some price else None)"

definition first_buy_native :: "position_row \<Rightarrow> flt option" where
  "first_buy_native p = (if is_wallet_derived p then None else positive_price (po_entry_size_native p))"

definition default_add_size_native :: "position_row \<Rightarrow> dca_level list \<Rightarrow> flt \<Rightarrow> flt option" where
  "default_add_size_native p levels trade_size_native =
     Option.bind
       (case first_buy_native p of
          Some first_buy \<Rightarrow>
            Some (if unat (po_dca_count p) < length levels
              then add_size_native (levels ! unat (po_dca_count p)) first_buy else first_buy)
        | None \<Rightarrow> if is_wallet_derived p then Some trade_size_native else None)
       positive_price"

definition basis_price :: "position_row \<Rightarrow> dca_measure_from \<Rightarrow> flt option" where
  "basis_price p basis =
     Option.bind (case basis of
         MeasureAverage \<Rightarrow> Some (po_average_entry_price p)
       | MeasureFirstEntry \<Rightarrow> po_effective_entry_price p) positive_price"

definition push_if :: "bool \<Rightarrow> string \<Rightarrow> string list" where
  "push_if refused reason = (if refused then [reason] else [])"

text \<open>The calculations every gate reads, before the gates have run.\<close>

definition dca_calculate :: "position_row \<Rightarrow> dca_config_snapshot \<Rightarrow> dca_context \<Rightarrow> dca_calculations" where
  "dca_calculate p config context =
     (let step = (if unat (po_dca_count p) < length (dcs_levels config) then Some (unat (po_dca_count p)) else None);
          level = map_option (\<lambda>k. dcs_levels config ! k) step;
          current_price = Option.bind (po_current_price p) positive_price;
          basis = basis_price p (dcs_measure_from config)
      in \<lparr>dk_current_dca_count = po_dca_count p, dk_step = step, dk_measure_from = dcs_measure_from config,
          dk_basis_price = basis, dk_current_price = current_price,
          dk_drop_pct = Option.bind basis (\<lambda>b. map_option
             (\<lambda>c. flt_mul (flt_div (flt_sub c b) b) (Fin 100)) current_price),
          dk_required_drop_pct = map_option dl_drop_pct level,
          dk_dca_amount_native = Option.bind level (\<lambda>l. map_option (add_size_native l) (first_buy_native p)),
          dk_price_age_secs = map_option (\<lambda>updated. num_seconds (dx_now context - updated)) (po_current_price_updated p),
          dk_minutes_since_last = map_option (\<lambda>last. num_minutes (dx_now context - last)) (po_last_dca_time p),
          dk_minutes_held = max 0 (num_minutes (dx_now context - po_entry_time p)),
          dk_below_minimum_trade = False\<rparr>)"

text \<open>The gates before the minimum trade size, in order; an empty list means all of them passed.\<close>

definition dca_gates :: "position_row \<Rightarrow> dca_config_snapshot \<Rightarrow> dca_context \<Rightarrow> dca_calculations \<Rightarrow> string list" where
  "dca_gates p config context k =
     push_if (\<not> allows_auto_dca (po_management p)) ''Position management '{}' does not allow auto-DCA''
   @ push_if (\<not> dcs_enabled config) ''DCA disabled in config''
   @ push_if (dx_add_in_flight context) ''A DCA add of this token is still in flight''
   @ push_if (dx_entries_blocked context) ''The loss limit blocks entries''
   @ (case dk_required_drop_pct k of
        None \<Rightarrow> [''Every DCA step is used ({}/{})'']
      | Some needed \<Rightarrow>
          (case dk_drop_pct k of
             Some d \<Rightarrow> push_if (\<not> flt_lt d needed) ''Price drop insufficient: {drop:.2}% from the {} (need < {:.2}%)''
           | None \<Rightarrow> if dk_current_price k = None then [''No valid current price'']
               else [''No valid {} price to measure the drop from'']))
   @ push_if (po_dca_count p = 0 \<and> 0 < dcs_min_hold_minutes config
         \<and> dk_minutes_held k < dcs_min_hold_minutes config) ''Held {minutes_held}/{} minutes before the first add''
   @ (case dk_minutes_since_last k of
        Some minutes \<Rightarrow> push_if (minutes < dcs_cooldown_minutes config) ''DCA cooldown active ({minutes}/{} minutes)''
      | None \<Rightarrow> [])
   @ (case dk_price_age_secs k of
        Some age \<Rightarrow> push_if (\<not> age \<le> DCA_PRICE_MAX_AGE_SECS) ''Price is {age}s old (fresh within {DCA_PRICE_MAX_AGE_SECS}s)''
      | None \<Rightarrow> [''Price has no update time''])"

definition dca_evaluate :: "position_row \<Rightarrow> dca_config_snapshot \<Rightarrow> dca_context \<Rightarrow> dca_evaluation" where
  "dca_evaluate p config context =
     (let k = dca_calculate p config context;
          gates = dca_gates p config context k;
          (below_minimum_trade, size) = (case dk_dca_amount_native k of
              Some amount \<Rightarrow>
                if flt_le (Fin MIN_TRADE_SIZE_NATIVE) amount then (False, [])
                else (gates = [], [''DCA amount {amount:.6} SOL below minimum {MIN_TRADE_SIZE_NATIVE:.6} SOL''])
            | None \<Rightarrow> (False, push_if (dk_required_drop_pct k \<noteq> None) ''No first buy size to size the add from''));
          reasons = gates @ size;
          should_trigger = (reasons = []);
          triggered = (if should_trigger \<and> dk_required_drop_pct k \<noteq> None \<and> dk_drop_pct k \<noteq> None
            then [''DCA step {} triggered: {drop:.2}% from the {} passes {:.2}%''] else [])
      in \<lparr>de_should_trigger = should_trigger, de_reasons = reasons @ triggered, de_config = config,
          de_calculations = k\<lparr>dk_below_minimum_trade := below_minimum_trade\<rparr>\<rparr>)"

section \<open>Lemmas\<close>

lemma push_if_Nil [simp]: "push_if refused reason = [] \<longleftrightarrow> \<not> refused"
  by (simp add: push_if_def)

lemma positive_price_Some: "positive_price v = Some w \<longleftrightarrow> w = v \<and> (\<exists>r. v = Fin r \<and> 0 < r)"
  by (auto simp: positive_price_def usable_iff)

text \<open>What the calculations are when there is a step, a basis, a price and a first buy.\<close>

lemma required_drop_Some:
  "dk_required_drop_pct (dca_calculate p c x) = Some d \<longleftrightarrow>
     unat (po_dca_count p) < length (dcs_levels c) \<and> d = dl_drop_pct (dcs_levels c ! unat (po_dca_count p))"
  by (auto simp: dca_calculate_def Let_def)

lemma drop_pct_Some:
  "dk_drop_pct (dca_calculate p c x) = Some d \<longleftrightarrow>
     (\<exists>b q. basis_price p (dcs_measure_from c) = Some (Fin b) \<and> 0 < b
        \<and> po_current_price p = Some (Fin q) \<and> 0 < q \<and> d = Fin ((q - b) / b * 100))"
proof -
  have basis: "basis_price p (dcs_measure_from c) = Some v \<Longrightarrow> \<exists>b. v = Fin b \<and> 0 < b" for v
    by (auto simp: basis_price_def positive_price_Some bind_eq_Some_conv)
  show ?thesis
  proof (cases "basis_price p (dcs_measure_from c)")
    case (Some v)
    then obtain b where "v = Fin b" "0 < b" using basis by blast
    then show ?thesis using Some by (auto simp: dca_calculate_def Let_def bind_eq_Some_conv positive_price_Some)
  qed (simp add: dca_calculate_def Let_def)
qed

lemma amount_Some:
  "dk_dca_amount_native (dca_calculate p c x) = Some a \<longleftrightarrow>
     unat (po_dca_count p) < length (dcs_levels c) \<and> \<not> is_wallet_derived p
     \<and> (\<exists>f. po_entry_size_native p = Fin f \<and> 0 < f \<and> a = add_size_native (dcs_levels c ! unat (po_dca_count p)) (Fin f))"
  by (auto simp: dca_calculate_def Let_def bind_eq_Some_conv first_buy_native_def positive_price_Some)

lemma gates_pass_iff:
  "dca_gates p c x k = [] \<longleftrightarrow>
     allows_auto_dca (po_management p) \<and> dcs_enabled c \<and> \<not> dx_add_in_flight x \<and> \<not> dx_entries_blocked x
     \<and> (\<exists>needed d. dk_required_drop_pct k = Some needed \<and> dk_drop_pct k = Some d \<and> flt_lt d needed)
     \<and> \<not> (po_dca_count p = 0 \<and> 0 < dcs_min_hold_minutes c \<and> dk_minutes_held k < dcs_min_hold_minutes c)
     \<and> (\<forall>minutes. dk_minutes_since_last k = Some minutes \<longrightarrow> dcs_cooldown_minutes c \<le> minutes)
     \<and> (\<exists>age. dk_price_age_secs k = Some age \<and> age \<le> 30)"
  by (auto simp: dca_gates_def DCA_PRICE_MAX_AGE_SECS_def split: option.splits)

lemma evaluate_triggers_iff:
  "de_should_trigger (dca_evaluate p c x) \<longleftrightarrow>
     dca_gates p c x (dca_calculate p c x) = []
     \<and> (\<exists>amount. dk_dca_amount_native (dca_calculate p c x) = Some amount \<and> flt_le (Fin (1 / 1000)) amount)"
  using required_drop_Some [of p c x]
  by (auto simp: dca_evaluate_def Let_def MIN_TRADE_SIZE_NATIVE_def gates_pass_iff split: option.splits if_splits)

section \<open>Properties\<close>


text \<open>
  Under a validated section an automatic add is bounded: it is one of at most five, buys
  between a tenth and five times the first buy, and only more than one percent below the basis.
\<close>

theorem validated_add_bounded:
  assumes "trader_validate cfg = Inr ()"
    and "de_should_trigger (dca_evaluate p (ep_dca (from_trader_config cfg)) x)"
  shows "\<exists>f a b q. po_entry_size_native p = Fin f \<and> 0 < f
    \<and> dk_dca_amount_native (de_calculations (dca_evaluate p (ep_dca (from_trader_config cfg)) x)) = Some (Fin a)
    \<and> f / 10 \<le> a \<and> a \<le> 5 * f \<and> 1 / 1000 \<le> a
    \<and> basis_price p (tc_dca_measure_from cfg) = Some (Fin b) \<and> po_current_price p = Some (Fin q)
    \<and> 0 < q \<and> q < b * (99 / 100) \<and> unat (po_dca_count p) < 5"
proof -
  let ?c = "ep_dca (from_trader_config cfg)" and ?k = "unat (po_dca_count p)"
  have v: "length (tc_dca_levels_pct cfg) \<le> 5" "length (tc_dca_size_multipliers cfg) = length (tc_dca_levels_pct cfg)"
    "list_all (\<lambda>d. in_range d (Fin (- 95)) (Fin (- 1))) (tc_dca_levels_pct cfg)"
    "list_all (\<lambda>s. in_range s (Fin (1 / 10)) (Fin 5)) (tc_dca_size_multipliers cfg)"
    using assms(1) by (auto simp: trader_validate_def validate_dca_def Let_def config_constants)
  have c: "dcs_levels ?c = dca_levels cfg" "dcs_measure_from ?c = tc_dca_measure_from cfg"
    by (simp_all add: from_trader_config_def)
  have step: "?k < length (tc_dca_levels_pct cfg)" "?k < length (tc_dca_size_multipliers cfg)"
    and fired: "\<exists>b q. basis_price p (tc_dca_measure_from cfg) = Some (Fin b) \<and> 0 < b \<and> po_current_price p = Some (Fin q)
        \<and> 0 < q \<and> flt_lt (Fin ((q - b) / b * 100)) (dl_drop_pct (dca_levels cfg ! ?k))"
    and size: "\<exists>f. po_entry_size_native p = Fin f \<and> 0 < f \<and> flt_le (Fin (1 / 1000)) (add_size_native (dca_levels cfg ! ?k) (Fin f))"
    and own: "\<not> is_wallet_derived p"
    using assms(2) unfolding evaluate_triggers_iff gates_pass_iff required_drop_Some drop_pct_Some amount_Some c
    by (auto simp: dca_levels_def v(2))
  obtain d m where d: "tc_dca_levels_pct cfg ! ?k = Fin d" "d \<le> - 1"
    and m: "tc_dca_size_multipliers cfg ! ?k = Fin m" "1 / 10 \<le> m" "m \<le> 5"
    using v(3,4) step by (fastforce simp: list_all_length in_range_Fin)
  have level: "dca_levels cfg ! ?k = \<lparr>dl_drop_pct = Fin d, dl_size_multiplier = Fin m\<rparr>"
    using step by (simp add: dca_levels_def d m)
  obtain b q where b: "basis_price p (tc_dca_measure_from cfg) = Some (Fin b)" "0 < b" "po_current_price p = Some (Fin q)"
    "0 < q" "(q - b) / b * 100 < d" using fired by (auto simp: level)
  obtain f where f: "po_entry_size_native p = Fin f" "0 < f" "1 / 1000 \<le> f * m"
    using size by (auto simp: level add_size_native_def)
  have "(q - b) / b * 100 < - 1" using b(5) d(2) by linarith
  then have "q < b * (99 / 100)" using b(2) by (simp add: field_simps)
  moreover have "f / 10 \<le> f * m" "f * m \<le> 5 * f" using m f(2) by (simp_all add: field_simps)
  moreover have "dk_dca_amount_native (de_calculations (dca_evaluate p ?c x)) = Some (Fin (f * m))"
  proof -
    have "dk_dca_amount_native (de_calculations (dca_evaluate p ?c x)) = dk_dca_amount_native (dca_calculate p ?c x)"
      by (simp add: dca_evaluate_def Let_def split: prod.split)
    also have "\<dots> = Some (Fin (f * m))"
      using step own f(1,2) unfolding amount_Some c by (simp add: dca_levels_def level [unfolded dca_levels_def] add_size_native_def)
    finally show ?thesis .
  qed
  moreover have "?k < 5" using step v(1) by linarith
  ultimately show ?thesis using b f by blast
qed

definition sample_position :: position_row where
  "sample_position = (position_opening \<lparr>og_mint = ''mint'', og_symbol = ''T'', og_name = ''Token'',
     og_entry_price = Fin 2, og_entry_time = 0, og_size_native = Fin (1 / 10), og_entry_signature = None,
     og_origin = OriginManual, og_management = AutoTrader, og_entry_liquidity = None, og_book = Live\<rparr>)
     \<lparr>po_effective_entry_price := Some (Fin 2), po_current_price := Some (Fin (3 / 2)),
      po_current_price_updated := Some 7200000000000\<rparr>"

theorem validated_add_bounded_witness:
  "\<exists>a. dk_dca_amount_native (de_calculations (dca_evaluate sample_position
       (ep_dca (from_trader_config (sample_trader\<lparr>tc_dca_enabled := True\<rparr>)))
       \<lparr>dx_add_in_flight = False, dx_entries_blocked = False, dx_now = 7201000000000\<rparr>)) = Some (Fin a)
     \<and> a \<le> 1 / 2"
proof -
  let ?cfg = "sample_trader\<lparr>tc_dca_enabled := True\<rparr>"
    and ?x = "\<lparr>dx_add_in_flight = False, dx_entries_blocked = False, dx_now = 7201000000000\<rparr>"
  have same: "exit_policy_validate (from_trader_config ?cfg) = exit_policy_validate (from_trader_config sample_trader)"
    "ep_trailing (from_trader_config ?cfg) = ep_trailing (from_trader_config sample_trader)"
    by (simp_all add: from_trader_config_def exit_policy_validate_def trailing_stop_bands_def)
  have "trader_validate ?cfg = trader_validate sample_trader"
    unfolding trader_validate_def validate_trailing_bands_def validate_dca_def validate_take_profit_def same by simp
  then have v: "trader_validate ?cfg = Inr ()" by (simp add: sample_trader_valid)
  have "de_should_trigger (dca_evaluate sample_position (ep_dca (from_trader_config ?cfg)) ?x)"
    by (simp add: evaluate_triggers_iff gates_pass_iff dca_calculate_def Let_def from_trader_config_def dca_levels_def
        sample_trader_def sample_position_def position_opening_def allows_auto_dca_def basis_price_def positive_price_def first_buy_native_def
        is_wallet_derived_def add_size_native_def num_seconds_def num_minutes_def trunc_div_def)
  from validated_add_bounded [OF v this] show ?thesis by (auto simp: sample_position_def position_opening_def)
qed


end
