(* ===== verification/Raw_Amount.thy ===== *)
theory Raw_Amount
  imports Amount_Math Receipt Float_Value
begin

text \<open>
  Exact token amounts, \<open>src/chains/amount.rs\<close>: a \<open>RawAmount\<close> is the \<open>u128\<close> it wraps, its checked
  operations are those of the prelude. Here are its conversions to and from whole units, and the
  text it is stored as. The lemmas show that the stored text is canonical: it is read back exactly,
  and nothing else reads as the same amount.
\<close>

section \<open>Conversions\<close>

definition checked_mul_div :: "u128 \<Rightarrow> u128 \<Rightarrow> u128 \<Rightarrow> u128 option" where
  "checked_mul_div a multiplier divisor = mul_div_floor a multiplier divisor"

text \<open>The quotient is finite for every \<open>u8\<close>: \<open>10 ^ 255\<close> is a finite \<open>f64\<close>.\<close>

definition to_whole_units :: "u128 \<Rightarrow> u8 \<Rightarrow> flt" where
  "to_whole_units raw decimals = Fin (real (unat raw) / 10 ^ unat decimals)"

text \<open>\<open>u128::MAX as f64\<close> is \<open>2 ^ 128\<close>.\<close>

definition from_integral_f64 :: "flt \<Rightarrow> u128 option" where
  "from_integral_f64 v =
     (case v of
        Fin a \<Rightarrow> if 0 \<le> a \<and> a = real_of_int \<lfloor>a\<rfloor> \<and> a < 2 ^ 128 then Some (word_of_int \<lfloor>a\<rfloor>) else None
      | _ \<Rightarrow> None)"

section \<open>Text\<close>

datatype amount_parse_error = AmountEmpty | AmountInvalidFormat | AmountOverflow

definition raw_to_string :: "u128 \<Rightarrow> string" where
  "raw_to_string a = decimal (unat a)"

definition raw_from_str :: "string \<Rightarrow> amount_parse_error + u128" where
  "raw_from_str v =
     (if v = [] then Inl AmountEmpty
      else if v = ''0'' then Inr 0
      else if digit_value (hd v) \<in> {None, Some 0} \<or> \<not> list_all (\<lambda>c. digit_value c \<noteq> None) v
        then Inl AmountInvalidFormat
      else ok_or (parse_u128 v) AmountOverflow)"

section \<open>Floating-point operations of the bookkeeping\<close>

definition flt_eq :: "flt \<Rightarrow> flt \<Rightarrow> bool" where
  "flt_eq a b \<longleftrightarrow> flt_le a b \<and> flt_le b a"

text \<open>\<open>f64::max\<close> ignores a NaN.\<close>

definition flt_max :: "flt \<Rightarrow> flt \<Rightarrow> flt" where
  "flt_max a b = (if a = NaN then b else if b = NaN then a else if flt_lt a b then b else a)"

definition flt_clamp :: "flt \<Rightarrow> flt \<Rightarrow> flt \<Rightarrow> flt" where
  "flt_clamp v lo hi = (if flt_lt v lo then lo else if flt_lt hi v then hi else v)"

lemma flt_eq_Fin [simp]: "flt_eq (Fin a) (Fin b) \<longleftrightarrow> a = b"
  by (auto simp: flt_eq_def)

lemma flt_max_Fin [simp]: "flt_max (Fin a) (Fin b) = Fin (max a b)"
  by (simp add: flt_max_def)

lemma flt_clamp_Fin [simp]: "lo \<le> hi \<Longrightarrow> flt_clamp (Fin v) (Fin lo) (Fin hi) = Fin (min hi (max lo v))"
  by (auto simp: flt_clamp_def)

section \<open>The text is canonical\<close>

lemma digit_value_inverse: "digit_value c = Some d \<Longrightarrow> c = char_of (48 + d :: nat) \<and> d < 10"
  by (auto simp: digit_value_def Let_def split: if_splits)

lemma decimal_zero: "decimal 0 = ''0''"
  by code_simp

lemma decimal_first: "0 < n \<Longrightarrow> \<exists>d cs. decimal n = char_of (48 + d :: nat) # cs \<and> 0 < d \<and> d < 10"
proof (induction n rule: decimal.induct)
  case (1 n)
  show ?case
  proof (cases "n < 10")
    case True
    then have "decimal n = [char_of (48 + n)]" by (subst decimal.simps) simp
    then show ?thesis using True 1(2) by blast
  next
    case False
    then have "\<exists>d cs. decimal (n div 10) = char_of (48 + d :: nat) # cs \<and> 0 < d \<and> d < 10"
      by (intro 1(1)) simp_all
    then obtain d cs where "decimal (n div 10) = char_of (48 + d :: nat) # cs" "0 < d" "d < 10" by blast
    moreover have "decimal n = decimal (n div 10) @ [char_of (48 + n mod 10)]" using False by (subst decimal.simps) simp
    ultimately show ?thesis by (metis append_Cons)
  qed
qed

lemma decimal_digits: "list_all (\<lambda>c. digit_value c \<noteq> None) (decimal n)"
proof (induction n rule: decimal.induct)
  case (1 n)
  then show ?case
    by (subst decimal.simps) (auto simp: digit_value_char)
qed

lemma parse_digits_value_ge: "parse_digits cs acc = Some n \<Longrightarrow> acc \<le> n"
proof (induction cs acc rule: parse_digits.induct)
  case (2 c cs acc)
  then show ?case by (fastforce split: option.splits)
qed simp

lemma decimal_parse_digits:
  "parse_digits cs 0 = Some n \<Longrightarrow> cs \<noteq> [] \<Longrightarrow> digit_value (hd cs) \<noteq> Some 0 \<Longrightarrow> decimal n = cs"
proof (induction cs arbitrary: n rule: rev_induct)
  case (snoc c cs)
  obtain m d where m: "parse_digits cs 0 = Some m" and d: "digit_value c = Some d" and n: "n = m * 10 + d"
    using snoc.prems(1) by (auto simp: parse_digits_append bind_eq_Some_conv split: option.splits)
  have c: "c = char_of (48 + d)" "d < 10" using digit_value_inverse [OF d] by simp_all
  show ?case
  proof (cases cs)
    case Nil
    then show ?thesis using m n c by (subst decimal.simps) simp
  next
    case (Cons b bs)
    obtain e where e: "digit_value b = Some e" "parse_digits bs e = Some m"
      using m Cons by (auto split: option.splits)
    then have "0 < m" using parse_digits_value_ge [OF e(2)] snoc.prems(3) Cons by (cases e) auto
    moreover have "decimal m = cs" using snoc.IH [OF m] snoc.prems(3) Cons by simp
    ultimately show ?thesis using n c by (subst decimal.simps) simp
  qed
qed simp

lemma parse_unsigned_digits:
  assumes "list_all (\<lambda>c. digit_value c \<noteq> None) v" and "v \<noteq> []"
  shows "parse_unsigned bits v = (case parse_digits v 0 of Some n \<Rightarrow> if n < 2 ^ bits then Some n else None | None \<Rightarrow> None)"
proof -
  have "digit_value (CHR ''+'') = None" by (simp add: digit_value_def)
  then show ?thesis using assms by (cases v) (auto simp: parse_unsigned_def)
qed

section \<open>Property\<close>

text \<open>
  C21: an amount is stored as the one text that reads as it: parsing succeeds exactly on the decimal
  digits of a \<open>u128\<close> without a leading zero, and gives that number.
\<close>

theorem amount_text_canonical: "raw_from_str v = Inr a \<longleftrightarrow> v = raw_to_string a"
proof
  assume ok: "raw_from_str v = Inr a"
  show "v = raw_to_string a"
  proof (cases "v = ''0''")
    case True
    then show ?thesis using ok by (simp add: raw_from_str_def raw_to_string_def decimal_zero)
  next
    case False
    then obtain v: "v \<noteq> []" "digit_value (hd v) \<noteq> Some 0" "list_all (\<lambda>c. digit_value c \<noteq> None) v"
      and "parse_u128 v = Some a"
      using ok by (auto simp: raw_from_str_def split: if_splits)
    then obtain n where "parse_digits v 0 = Some n" "n < 2 ^ 128" "a = of_nat n"
      by (auto simp: parse_u128_def parse_unsigned_digits split: option.splits if_splits)
    then show ?thesis using decimal_parse_digits [OF _ v(1,2)] by (simp add: raw_to_string_def unat_of_nat take_bit_nat_eq_self)
  qed
next
  assume v: "v = raw_to_string a"
  show "raw_from_str v = Inr a"
  proof (cases "a = 0")
    case True
    then show ?thesis using v by (simp add: raw_from_str_def raw_to_string_def decimal_zero)
  next
    case False
    then have pos: "0 < unat a" by (simp add: unat_gt_0)
    obtain d :: nat and cs where d: "v = char_of (48 + d) # cs" "0 < d" "d < 10"
      using decimal_first [OF pos] v by (auto simp: raw_to_string_def)
    have "parse_u128 v = Some a"
      using v u128_bound [of a] by (simp add: parse_u128_def raw_to_string_def parse_unsigned_decimal)
    moreover have "v \<noteq> ''0''"
    proof
      assume "v = ''0''"
      then have "digit_value (char_of (48 + d)) = digit_value (CHR ''0'')" using d by simp
      then show False using d digit_value_char [of d] by (simp add: digit_value_def)
    qed
    ultimately show ?thesis
      using d decimal_digits [of "unat a"] v by (auto simp: raw_from_str_def raw_to_string_def digit_value_char)
  qed
qed

end
