(* ===== verification/Position_Booking.thy ===== *)
theory Position_Booking
  imports Position_Types Cost_Basis Exit_Rules
begin

text \<open>
  Bookings onto a position: what it holds (\<open>src/positions/holdings.rs\<close>), its profit and loss
  (\<open>src/positions/pnl.rs\<close>) and the booking of verified fills (\<open>src/positions/booking.rs\<close>). A method
  on \<open>&mut self\<close> returns its result together with the row it leaves, so that an error shows what
  had been written when it was returned. Fees are raw native units, times are in nanoseconds.

  The lemmas show that a booking that fails changes nothing, that the bookings of a round keep its
  books (tokens bought and sold, native units spent and received, fees), and that a buy below the
  average disarms the trailing stop.
\<close>

section \<open>Holdings\<close>

datatype booking_error = RowAmountOverflow string string

type_synonym 'a booked = "(booking_error + 'a) \<times> position_row"

definition held_amount :: "position_row \<Rightarrow> u128 option" where
  "held_amount p = (case po_remaining_token_amount p of Some remaining \<Rightarrow> Some remaining | None \<Rightarrow> po_token_amount p)"

definition acquired_amount :: "position_row \<Rightarrow> u128 option" where
  "acquired_amount p = checked_add (unwrap_or (po_remaining_token_amount p) 0) (po_total_exited_amount p)"

definition book_exit :: "u128 \<Rightarrow> position_row \<Rightarrow> u128 booked" where
  "book_exit sold p =
     (case checked_add (po_total_exited_amount p) sold of
        None \<Rightarrow> (Inl (RowAmountOverflow (po_mint p) ''booking an exit''), p)
      | Some exited \<Rightarrow> (Inr exited, p
          \<lparr>po_remaining_token_amount := map_option (\<lambda>remaining. unwrap_or (checked_sub remaining sold) 0)
             (po_remaining_token_amount p),
           po_total_exited_amount := exited\<rparr>))"

definition book_acquisition :: "u128 \<Rightarrow> position_row \<Rightarrow> u128 booked" where
  "book_acquisition bought p =
     (case (case po_remaining_token_amount p of Some remaining \<Rightarrow> checked_add remaining bought | None \<Rightarrow> Some bought) of
        None \<Rightarrow> (Inl (RowAmountOverflow (po_mint p) ''booking an acquisition''), p)
      | Some held \<Rightarrow> (Inr held, p\<lparr>po_remaining_token_amount := Some held\<rparr>))"

definition book_remaining_as_exited :: "position_row \<Rightarrow> u128 booked" where
  "book_remaining_as_exited p =
     (case po_remaining_token_amount p of
        None \<Rightarrow> (Inr 0, p)
      | Some remaining \<Rightarrow>
          (case checked_add (po_total_exited_amount p) remaining of
             None \<Rightarrow> (Inl (RowAmountOverflow (po_mint p) ''booking the remaining amount as exited''), p)
           | Some exited \<Rightarrow>
               (Inr remaining, p\<lparr>po_total_exited_amount := exited, po_remaining_token_amount := Some 0\<rparr>)))"

section \<open>Profit and loss\<close>

definition LAMPORTS_PER_SOL :: u64 where "LAMPORTS_PER_SOL = 1000000000"

definition raw_to_native :: "u64 \<Rightarrow> flt" where
  "raw_to_native raw = Fin (real (unat raw) / real (unat LAMPORTS_PER_SOL))"

definition calculate_position_total_fees :: "position_row \<Rightarrow> flt" where
  "calculate_position_total_fees p =
     flt_add (raw_to_native (unwrap_or (po_entry_fee_raw p) 0)) (raw_to_native (unwrap_or (po_exit_fee_raw p) 0))"

definition realized_pnl :: "position_row \<Rightarrow> flt \<times> flt" where
  "realized_pnl p =
     (let native_invested = po_total_size_native p;
          native_received = unwrap_or (po_native_received p) (Fin 0);
          total_fees = calculate_position_total_fees p;
          net_pnl_native = flt_sub (flt_sub native_received native_invested) total_fees;
          safe_invested = (if flt_lt native_invested (Fin (1 / 100000)) then Fin (1 / 100000) else native_invested);
          net_pnl_percent = flt_mul (flt_div net_pnl_native safe_invested) (Fin 100)
      in (net_pnl_native, net_pnl_percent))"

definition paid_and_estimated_sale_fees :: "position_row \<Rightarrow> flt" where
  "paid_and_estimated_sale_fees p =
     (let paid = saturating_add (unwrap_or (po_entry_fee_raw p) 0) (unwrap_or (po_exit_fee_raw p) 0);
          swaps = saturating_add (saturating_add 1 (ucast (po_dca_count p))) (ucast (po_partial_exit_count p));
          estimate = paid div swaps
      in raw_to_native (saturating_add paid estimate))"

text \<open>The two ways an open or closing position is valued: by its tokens, or by the price change alone.\<close>

definition valued_pnl :: "position_row \<Rightarrow> u128 \<Rightarrow> u8 \<Rightarrow> flt \<Rightarrow> flt \<times> flt" where
  "valued_pnl p token_amount token_decimals current =
     (let entry_cost = po_total_size_native p;
          realized_native = unwrap_or (po_native_received p) (Fin 0);
          ui_token_amount = to_whole_units token_amount token_decimals;
          current_value = flt_mul ui_token_amount current;
          total_fees = paid_and_estimated_sale_fees p;
          net_pnl_native = flt_sub (flt_sub (flt_add current_value realized_native) entry_cost) total_fees;
          net_pnl_percent = flt_mul (flt_div net_pnl_native entry_cost) (Fin 100)
      in (net_pnl_native, net_pnl_percent))"

definition price_change_pnl :: "flt \<Rightarrow> flt \<Rightarrow> flt \<Rightarrow> flt \<Rightarrow> flt \<times> flt" where
  "price_change_pnl price entry_price total_fees entry_cost =
     (let price_change = flt_div (flt_sub price entry_price) entry_price;
          fee_percent = flt_mul (flt_div total_fees entry_cost) (Fin 100);
          net_pnl_percent = flt_sub (flt_mul price_change (Fin 100)) fee_percent;
          net_pnl_native = flt_mul (flt_div net_pnl_percent (Fin 100)) entry_cost
      in (net_pnl_native, net_pnl_percent))"

definition pnl_entry_price :: "position_row \<Rightarrow> flt" where
  "pnl_entry_price p =
     (if usable (po_average_entry_price p) then po_average_entry_price p
      else unwrap_or (po_effective_entry_price p) (po_entry_price p))"

definition closing_pnl :: "position_row \<Rightarrow> flt \<Rightarrow> u8 option \<Rightarrow> flt \<times> flt" where
  "closing_pnl p current decimals =
     (case (held_amount p, decimals) of
        (Some token_amount, Some token_decimals) \<Rightarrow> valued_pnl p token_amount token_decimals current
      | _ \<Rightarrow> price_change_pnl current (unwrap_or (po_effective_entry_price p) (po_entry_price p))
              (paid_and_estimated_sale_fees p) (po_total_size_native p))"

definition unrecorded_close_pnl :: "position_row \<Rightarrow> flt \<Rightarrow> u8 option \<Rightarrow> flt \<times> flt" where
  "unrecorded_close_pnl p exit_price decimals =
     (let entry_price = unwrap_or (po_effective_entry_price p) (po_entry_price p);
          effective_exit = unwrap_or (po_effective_exit_price p) exit_price in
      case po_token_amount p of
        Some token_amount \<Rightarrow>
          (case decimals of
             None \<Rightarrow> (Fin 0, Fin 0)
           | Some token_decimals \<Rightarrow>
               let entry_cost = po_entry_size_native p;
                   exit_value = flt_mul (to_whole_units token_amount token_decimals) effective_exit;
                   net_pnl_native = flt_sub (flt_sub exit_value entry_cost) (calculate_position_total_fees p)
               in (net_pnl_native, flt_mul (flt_div net_pnl_native entry_cost) (Fin 100)))
      | None \<Rightarrow> price_change_pnl effective_exit entry_price (calculate_position_total_fees p) (po_entry_size_native p))"

definition open_pnl :: "position_row \<Rightarrow> flt \<Rightarrow> flt \<Rightarrow> u8 option \<Rightarrow> flt \<times> flt" where
  "open_pnl p entry_price current decimals =
     (case held_amount p of
        Some token_amount \<Rightarrow>
          (case decimals of None \<Rightarrow> (Fin 0, Fin 0)
           | Some token_decimals \<Rightarrow> valued_pnl p token_amount token_decimals current)
      | None \<Rightarrow> price_change_pnl current entry_price (paid_and_estimated_sale_fees p) (po_entry_size_native p))"

definition position_pnl :: "position_row \<Rightarrow> flt option \<Rightarrow> u8 option \<Rightarrow> flt \<times> flt" where
  "position_pnl p current_price decimals =
     (let entry_price = pnl_entry_price p; is_closed = po_exit_time p \<noteq> None in
      if flt_le entry_price (Fin 0) \<or> \<not> is_finite entry_price then (Fin 0, Fin 0)
      else if (case current_price of Some current \<Rightarrow> flt_le current (Fin 0) \<or> \<not> is_finite current | None \<Rightarrow> False)
        then (Fin 0, Fin 0)
      else if po_exit_transaction_signature p \<noteq> None \<and> \<not> po_transaction_exit_verified p \<and> current_price \<noteq> None
        then closing_pnl p (the current_price) decimals
      else if is_closed \<and> po_native_received p \<noteq> None then realized_pnl p
      else if is_closed \<and> po_exit_price p \<noteq> None then unrecorded_close_pnl p (the (po_exit_price p)) decimals
      else (case current_price of
          Some current \<Rightarrow> open_pnl p entry_price current decimals
        | None \<Rightarrow> (Fin 0, Fin 0)))"

text \<open>The lookup of the token's decimals reads the token database.\<close>

definition calculate_position_pnl :: "(string \<Rightarrow> u8 option) \<Rightarrow> position_row \<Rightarrow> flt option \<Rightarrow> flt \<times> flt" where
  "calculate_position_pnl get_decimals p current_price =
     (let needs_decimals = current_price \<noteq> None \<or> po_exit_time p \<noteq> None \<and> po_native_received p = None in
      position_pnl p current_price (if needs_decimals then get_decimals (po_mint p) else None))"

definition calculate_position_pnl_safe ::
  "(string \<Rightarrow> u8 option) \<Rightarrow> position_row \<Rightarrow> flt option \<Rightarrow> (flt \<times> flt) option" where
  "calculate_position_pnl_safe get_decimals p current_price =
     (let entry_price = pnl_entry_price p in
      if flt_le entry_price (Fin 0) \<or> \<not> is_finite entry_price then None
      else if (case current_price of Some current \<Rightarrow> flt_le current (Fin 0) \<or> \<not> is_finite current | None \<Rightarrow> False)
        then None
      else Some (calculate_position_pnl get_decimals p current_price))"

record open_unrealized_sum =
  ou_native :: "flt option"
  ou_unpriced :: nat

fun add_unrealized :: "position_row list \<Rightarrow> open_unrealized_sum \<Rightarrow> open_unrealized_sum" where
  "add_unrealized [] s = s"
| "add_unrealized (p # rest) s =
     (case po_unrealized_pnl p of
        Some pnl \<Rightarrow> add_unrealized rest (s\<lparr>ou_native := Some (flt_add (unwrap_or (ou_native s) (Fin 0)) pnl)\<rparr>)
      | None \<Rightarrow> add_unrealized rest (s\<lparr>ou_unpriced := ou_unpriced s + 1\<rparr>))"

definition open_unrealized :: "position_row list \<Rightarrow> open_unrealized_sum" where
  "open_unrealized rounds = add_unrealized rounds \<lparr>ou_native = None, ou_unpriced = 0\<rparr>"

section \<open>Fills\<close>

record entry_fill =
  ef_effective_entry_price :: flt
  ef_token_amount :: u128
  ef_fee_raw :: u64
  ef_native_size :: flt

record close_fill =
  cf_effective_exit_price :: flt
  cf_native_received :: flt
  cf_fee_raw :: u64
  cf_exit_time :: i64

record force_close_fill =
  fc_exit_time :: i64
  fc_exit_price :: flt
  fc_closed_reason :: string

record partial_exit_fill =
  px_exit_amount :: u128
  px_native_received :: flt
  px_effective_exit_price :: flt
  px_unrealized_pnl :: "(flt \<times> flt) option"
  px_fee_raw :: u64

record dca_fill =
  df_tokens_bought :: u128
  df_native_spent :: flt
  df_fee_raw :: u64
  df_dca_time :: i64

datatype dca_average = Recomputed | InvalidNormalization | InvalidState

definition add_fee :: "u64 option \<Rightarrow> u64 \<Rightarrow> u64 option" where
  "add_fee slot fee = Some (saturating_add (unwrap_or slot 0) fee)"

definition apply_entry_fill :: "entry_fill \<Rightarrow> position_row \<Rightarrow> position_row" where
  "apply_entry_fill fill p = p
     \<lparr>po_transaction_entry_verified := True,
      po_effective_entry_price := Some (ef_effective_entry_price fill),
      po_total_size_native := ef_native_size fill,
      po_token_amount := Some (ef_token_amount fill),
      po_entry_fee_raw := add_fee (po_entry_fee_raw p) (ef_fee_raw fill),
      po_entry_size_native := ef_native_size fill,
      po_remaining_token_amount := Some (ef_token_amount fill),
      po_average_entry_price := ef_effective_entry_price fill\<rparr>"

definition PENDING_VERIFICATION_SUFFIX :: string where "PENDING_VERIFICATION_SUFFIX = ''_pending_verification''"
definition EXIT_RETRY_PENDING :: string where "EXIT_RETRY_PENDING = ''exit_retry_pending''"

definition ends_with :: "string \<Rightarrow> string \<Rightarrow> bool" where
  "ends_with s suffix \<longleftrightarrow> length suffix \<le> length s \<and> drop (length s - length suffix) s = suffix"

text \<open>\<open>trim_end_matches\<close> removes every repetition of the suffix.\<close>

function trim_end_matches :: "string \<Rightarrow> string \<Rightarrow> string" where
  "trim_end_matches s suffix =
     (if suffix \<noteq> [] \<and> ends_with s suffix then trim_end_matches (take (length s - length suffix) s) suffix else s)"
  by pat_completeness auto
termination
proof (relation "measure (length \<circ> fst)")
  fix s suffix :: string
  assume "suffix \<noteq> [] \<and> ends_with s suffix"
  then have "0 < length suffix" "length suffix \<le> length s" by (auto simp: ends_with_def)
  then have "length s - length suffix < length s" by linarith
  then show "((take (length s - length suffix) s, suffix), s, suffix) \<in> measure (length \<circ> fst)" by simp
qed simp

declare trim_end_matches.simps [simp del]

definition with_realized_pnl :: "position_row \<Rightarrow> position_row" where
  "with_realized_pnl p = (let (pnl, pnl_percent) = realized_pnl p in p\<lparr>po_pnl := Some pnl, po_pnl_percent := Some pnl_percent\<rparr>)"

definition settled_reason :: "string option \<Rightarrow> string option" where
  "settled_reason closed_reason =
     (case closed_reason of
        Some reason \<Rightarrow> if ends_with reason PENDING_VERIFICATION_SUFFIX
          then Some (trim_end_matches reason PENDING_VERIFICATION_SUFFIX) else closed_reason
      | None \<Rightarrow> None)"

definition book_close :: "close_fill \<Rightarrow> position_row \<Rightarrow> u128 booked" where
  "book_close fill p =
     (case book_remaining_as_exited p of
        (Inl e, p) \<Rightarrow> (Inl e, p)
      | (Inr amount, p) \<Rightarrow>
          let p = p\<lparr>po_transaction_exit_verified := True,
                    po_effective_exit_price := Some (cf_effective_exit_price fill),
                    po_native_received := Some (flt_add (unwrap_or (po_native_received p) (Fin 0)) (cf_native_received fill)),
                    po_exit_fee_raw := add_fee (po_exit_fee_raw p) (cf_fee_raw fill),
                    po_exit_time := Some (cf_exit_time fill),
                    po_closed_reason := settled_reason (po_closed_reason p)\<rparr>;
              p = with_realized_pnl p
          in (Inr amount, p\<lparr>po_unrealized_pnl := None, po_unrealized_pnl_percent := None\<rparr>))"

definition book_force_close :: "force_close_fill \<Rightarrow> position_row \<Rightarrow> unit booked" where
  "book_force_close fill p =
     (case book_remaining_as_exited p of
        (Inl e, p) \<Rightarrow> (Inl e, p)
      | (Inr _, p) \<Rightarrow>
          let p = p\<lparr>po_remaining_token_amount := Some 0, po_synthetic_exit := True,
                    po_transaction_exit_verified := True, po_exit_time := Some (fc_exit_time fill),
                    po_exit_price := Some (fc_exit_price fill), po_effective_exit_price := Some (Fin 0),
                    po_closed_reason := Some (fc_closed_reason fill), po_exit_strategy_id := None,
                    po_native_received := Some (unwrap_or (po_native_received p) (Fin 0))\<rparr>;
              p = with_realized_pnl p
          in (Inr (), p\<lparr>po_unrealized_pnl := None, po_unrealized_pnl_percent := None\<rparr>))"

definition book_late_partial_exit :: "flt \<Rightarrow> u64 \<Rightarrow> position_row \<Rightarrow> position_row" where
  "book_late_partial_exit native_received fee_raw p = p
     \<lparr>po_native_received := Some (flt_add (unwrap_or (po_native_received p) (Fin 0)) native_received),
      po_exit_fee_raw := add_fee (po_exit_fee_raw p) fee_raw,
      po_partial_exit_count := po_partial_exit_count p + 1\<rparr>"

definition book_late_close :: "close_fill \<Rightarrow> position_row \<Rightarrow> position_row" where
  "book_late_close fill p =
     (let p = p\<lparr>po_native_received := Some (flt_add (unwrap_or (po_native_received p) (Fin 0)) (cf_native_received fill)),
                po_effective_exit_price := Some (cf_effective_exit_price fill),
                po_exit_fee_raw := add_fee (po_exit_fee_raw p) (cf_fee_raw fill)\<rparr>
      in if po_synthetic_exit p then p\<lparr>po_exit_time := Some (cf_exit_time fill), po_synthetic_exit := False\<rparr> else p)"

text \<open>The weighted average exit price after an exit of \<open>exit_amount\<close>.\<close>

definition blended_exit_price :: "u128 \<Rightarrow> partial_exit_fill \<Rightarrow> flt option \<Rightarrow> flt option" where
  "blended_exit_price total_exited fill average_exit_price =
     (if 0 < total_exited then
        (case average_exit_price of
           Some prev_avg \<Rightarrow>
             let prev_weight = Fin (real (unat (total_exited - px_exit_amount fill)) / real (unat total_exited));
                 new_weight = Fin (real (unat (px_exit_amount fill)) / real (unat total_exited))
             in Some (flt_add (flt_mul prev_avg prev_weight) (flt_mul (px_effective_exit_price fill) new_weight))
         | None \<Rightarrow> Some (px_effective_exit_price fill))
      else average_exit_price)"

definition book_partial_exit :: "partial_exit_fill \<Rightarrow> position_row \<Rightarrow> u128 booked" where
  "book_partial_exit fill p =
     (case book_exit (px_exit_amount fill) p of
        (Inl e, p) \<Rightarrow> (Inl e, p)
      | (Inr total_exited, p) \<Rightarrow>
          let p = p\<lparr>po_average_exit_price := blended_exit_price total_exited fill (po_average_exit_price p),
                    po_partial_exit_count := po_partial_exit_count p + 1,
                    po_native_received := Some (flt_add (unwrap_or (po_native_received p) (Fin 0)) (px_native_received fill)),
                    po_exit_fee_raw := add_fee (po_exit_fee_raw p) (px_fee_raw fill)\<rparr>
          in (Inr total_exited,
              case px_unrealized_pnl fill of
                Some (pnl, pnl_percent) \<Rightarrow> p\<lparr>po_unrealized_pnl := Some pnl, po_unrealized_pnl_percent := Some pnl_percent\<rparr>
              | None \<Rightarrow> p))"

definition book_dca :: "dca_fill \<Rightarrow> position_row \<Rightarrow> unit booked" where
  "book_dca fill p =
     (case book_acquisition (df_tokens_bought fill) p of
        (Inl e, p) \<Rightarrow> (Inl e, p)
      | (Inr _, p) \<Rightarrow> (Inr (), p
          \<lparr>po_total_size_native := flt_add (po_total_size_native p) (df_native_spent fill),
           po_entry_fee_raw := add_fee (po_entry_fee_raw p) (df_fee_raw fill),
           po_dca_count := po_dca_count p + 1,
           po_last_dca_time := Some (df_dca_time fill)\<rparr>))"

definition move_average_entry_price :: "flt \<Rightarrow> flt \<Rightarrow> position_row \<Rightarrow> position_row" where
  "move_average_entry_price average fill_price p =
     (if flt_eq average (po_average_entry_price p) then p
      else p\<lparr>po_average_entry_price := average,
             po_basis_peak_price := (if usable fill_price then fill_price else average),
             po_basis_peak_restarted := True\<rparr>)"

definition blend_average_entry_price :: "u128 \<Rightarrow> flt \<Rightarrow> u8 \<Rightarrow> position_row \<Rightarrow> dca_average \<times> position_row" where
  "blend_average_entry_price bought spent decimals p =
     (let held_after = unwrap_or (po_remaining_token_amount p) 0 in
      if \<not> (0 < held_after \<and> 0 < bought \<and> flt_lt (Fin 0) spent \<and> is_finite spent) then (InvalidState, p)
      else let bought_whole = to_whole_units bought decimals in
        (case average_after_acquisition (po_average_entry_price p) bought_whole spent (to_whole_units held_after decimals) of
           Some average \<Rightarrow> (Recomputed, move_average_entry_price average (flt_div spent bought_whole) p)
         | None \<Rightarrow> (InvalidNormalization, p)))"

definition drop_failed_written_off_sale :: "position_row \<Rightarrow> position_row" where
  "drop_failed_written_off_sale p = p\<lparr>po_exit_transaction_signature := None\<rparr>"

definition clear_failed_exit :: "position_row \<Rightarrow> position_row" where
  "clear_failed_exit p = p
     \<lparr>po_exit_transaction_signature := None, po_transaction_exit_verified := False,
      po_closed_reason := Some EXIT_RETRY_PENDING, po_exit_strategy_id := None,
      po_exit_price := None, po_effective_exit_price := None\<rparr>"

definition position_exit_inputs :: "position_row \<Rightarrow> flt \<Rightarrow> i64 \<Rightarrow> exit_inputs" where
  "position_exit_inputs p current_price now =
     \<lparr>ei_average_entry_price = po_average_entry_price p, ei_current_price = current_price,
      ei_basis_peak_price = po_basis_peak_price p, ei_held_seconds = num_seconds (now - po_entry_time p),
      ei_partial_exits_taken = 0 < po_partial_exit_count p, ei_take_profit_levels_taken = po_take_profit_level p\<rparr>"

section \<open>The books of a round\<close>

text \<open>The bookings of an open round, after its entry fill.\<close>

datatype booking_op =
    BookDca dca_fill
  | BookPartial partial_exit_fill
  | BookClose close_fill
  | BookForceClose force_close_fill

definition done_booking :: "'a booked \<Rightarrow> unit booked" where
  "done_booking r = (case r of (Inl e, p) \<Rightarrow> (Inl e, p) | (Inr _, p) \<Rightarrow> (Inr (), p))"

fun run_booking :: "booking_op \<Rightarrow> position_row \<Rightarrow> unit booked" where
  "run_booking (BookDca fill) p = book_dca fill p"
| "run_booking (BookPartial fill) p = done_booking (book_partial_exit fill p)"
| "run_booking (BookClose fill) p = done_booking (book_close fill p)"
| "run_booking (BookForceClose fill) p = book_force_close fill p"

fun run_bookings :: "booking_op list \<Rightarrow> position_row \<Rightarrow> unit booked" where
  "run_bookings [] p = (Inr (), p)"
| "run_bookings (op # ops) p =
     (case run_booking op p of (Inl e, p) \<Rightarrow> (Inl e, p) | (Inr _, p) \<Rightarrow> run_bookings ops p)"

text \<open>What a bookkeeper would write down: tokens bought and sold, native units spent and received, fees.\<close>

record trade_book =
  bk_bought :: nat
  bk_sold :: nat
  bk_spent :: real
  bk_received :: real
  bk_buy_fees :: nat
  bk_sale_fees :: nat

fun real_of :: "flt \<Rightarrow> real" where
  "real_of (Fin a) = a"
| "real_of _ = 0"

fun book_step :: "booking_op \<Rightarrow> trade_book \<Rightarrow> trade_book" where
  "book_step (BookDca fill) b = b\<lparr>bk_bought := bk_bought b + unat (df_tokens_bought fill),
     bk_spent := bk_spent b + real_of (df_native_spent fill), bk_buy_fees := bk_buy_fees b + unat (df_fee_raw fill)\<rparr>"
| "book_step (BookPartial fill) b = b\<lparr>bk_sold := bk_sold b + unat (px_exit_amount fill),
     bk_received := bk_received b + real_of (px_native_received fill),
     bk_sale_fees := bk_sale_fees b + unat (px_fee_raw fill)\<rparr>"
| "book_step (BookClose fill) b = b\<lparr>bk_sold := bk_bought b,
     bk_received := bk_received b + real_of (cf_native_received fill),
     bk_sale_fees := bk_sale_fees b + unat (cf_fee_raw fill)\<rparr>"
| "book_step (BookForceClose fill) b = b\<lparr>bk_sold := bk_bought b\<rparr>"

text \<open>A fill of finite amounts that sells no more than is held.\<close>

fun covered :: "booking_op \<Rightarrow> trade_book \<Rightarrow> bool" where
  "covered (BookDca fill) b \<longleftrightarrow> is_finite (df_native_spent fill)"
| "covered (BookPartial fill) b \<longleftrightarrow> is_finite (px_native_received fill)
     \<and> bk_sold b + unat (px_exit_amount fill) \<le> bk_bought b"
| "covered (BookClose fill) b \<longleftrightarrow> is_finite (cf_native_received fill)"
| "covered (BookForceClose fill) b \<longleftrightarrow> True"

fun all_covered :: "booking_op list \<Rightarrow> trade_book \<Rightarrow> bool" where
  "all_covered [] b \<longleftrightarrow> True"
| "all_covered (op # ops) b \<longleftrightarrow> covered op b \<and> all_covered ops (book_step op b)"

fun closes :: "booking_op \<Rightarrow> bool" where
  "closes (BookClose _) = True"
| "closes (BookForceClose _) = True"
| "closes _ = False"

definition represents :: "position_row \<Rightarrow> trade_book \<Rightarrow> bool" where
  "represents p b \<longleftrightarrow>
     (\<exists>r. po_remaining_token_amount p = Some r \<and> unat r + bk_sold b = bk_bought b)
     \<and> unat (po_total_exited_amount p) = bk_sold b
     \<and> po_total_size_native p = Fin (bk_spent b)
     \<and> unwrap_or (po_native_received p) (Fin 0) = Fin (bk_received b)
     \<and> unat (unwrap_or (po_entry_fee_raw p) 0) = min (bk_buy_fees b) u64_max
     \<and> unat (unwrap_or (po_exit_fee_raw p) 0) = min (bk_sale_fees b) u64_max"

definition book_profit :: "trade_book \<Rightarrow> real" where
  "book_profit b = bk_received b - bk_spent b
     - real (min (bk_buy_fees b) u64_max + min (bk_sale_fees b) u64_max) / 10 ^ 9"

lemma unat_add_fee: "unat (unwrap_or slot 0) = min n u64_max \<Longrightarrow>
    unat (unwrap_or (add_fee slot fee) 0) = min (n + unat fee) u64_max"
  using u64_bound [of fee] by (simp add: add_fee_def unat_saturating_add)

lemma total_fees_of_book:
  "represents p b \<Longrightarrow> calculate_position_total_fees p
     = Fin (real (min (bk_buy_fees b) u64_max + min (bk_sale_fees b) u64_max) / 10 ^ 9)"
  by (simp add: represents_def calculate_position_total_fees_def raw_to_native_def LAMPORTS_PER_SOL_def
      add_divide_distrib del: of_nat_unat of_nat_min)

lemma realized_pnl_of_book: "represents p b \<Longrightarrow> fst (realized_pnl p) = Fin (book_profit b)"
  by (simp add: realized_pnl_def Let_def total_fees_of_book book_profit_def) (simp add: represents_def)

lemma with_realized_pnl_eq:
  "with_realized_pnl p = p\<lparr>po_pnl := Some (fst (realized_pnl p)), po_pnl_percent := Some (snd (realized_pnl p))\<rparr>"
  by (simp add: with_realized_pnl_def case_prod_beta)

lemma booked_buy:
  assumes "represents p b" and "covered (BookDca fill) b" and "book_dca fill p = (Inr (), p')"
  shows "represents p' (book_step (BookDca fill) b)"
proof -
  obtain r where r: "po_remaining_token_amount p = Some r" "unat r + bk_sold b = bk_bought b"
    using assms(1) by (auto simp: represents_def)
  obtain spent where spent: "df_native_spent fill = Fin spent" using assms(2) by (auto simp: is_finite_iff)
  obtain held where held: "checked_add r (df_tokens_bought fill) = Some held"
    using assms(3) r(1) by (auto simp: book_dca_def book_acquisition_def split: option.splits)
  show ?thesis
    using assms(1,3) r held spent
    by (auto simp: represents_def book_dca_def book_acquisition_def checked_add_Some unat_add_fee)
qed

lemma booked_partial:
  assumes "represents p b" and "covered (BookPartial fill) b" and "book_partial_exit fill p = (Inr total_exited, p')"
  shows "represents p' (book_step (BookPartial fill) b)"
proof -
  obtain r where r: "po_remaining_token_amount p = Some r" "unat r + bk_sold b = bk_bought b"
    using assms(1) by (auto simp: represents_def)
  obtain received where received: "px_native_received fill = Fin received" using assms(2) by (auto simp: is_finite_iff)
  have "unat (px_exit_amount fill) \<le> unat r" using assms(2) r(2) by simp
  then obtain left where left: "checked_sub r (px_exit_amount fill) = Some left"
    by (auto simp: checked_sub_def word_le_nat_alt)
  obtain exited where exited: "checked_add (po_total_exited_amount p) (px_exit_amount fill) = Some exited"
    using assms(3) by (auto simp: book_partial_exit_def book_exit_def split: option.splits)
  show ?thesis
    using assms(1,3) r left exited received
    by (auto simp: represents_def book_partial_exit_def book_exit_def Let_def checked_add_Some checked_sub_Some unat_add_fee
        split: option.splits)
qed

lemma represents_exited:
  assumes "represents p b" and "book_remaining_as_exited p = (Inr amount, q)"
  shows "represents q (b\<lparr>bk_sold := bk_bought b\<rparr>)" and "po_remaining_token_amount q = Some 0"
  using assms by (auto simp: represents_def book_remaining_as_exited_def checked_add_Some split: option.splits)

lemma booked_close:
  assumes "represents p b" and "covered (BookClose fill) b" and "book_close fill p = (Inr amount, p')"
  shows "represents p' (book_step (BookClose fill) b)"
    and "po_pnl p' = Some (Fin (book_profit (book_step (BookClose fill) b)))"
    and "po_exit_time p' = Some (cf_exit_time fill)" and "held_amount p' = Some 0"
proof -
  let ?b = "book_step (BookClose fill) b"
  obtain received where received: "cf_native_received fill = Fin received" using assms(2) by (auto simp: is_finite_iff)
  obtain q where q: "book_remaining_as_exited p = (Inr amount, q)"
    using assms(3) by (auto simp: book_close_def Let_def split: prod.splits sum.splits)
  define w where "w = q\<lparr>po_transaction_exit_verified := True, po_effective_exit_price := Some (cf_effective_exit_price fill),
      po_native_received := Some (flt_add (unwrap_or (po_native_received q) (Fin 0)) (cf_native_received fill)),
      po_exit_fee_raw := add_fee (po_exit_fee_raw q) (cf_fee_raw fill), po_exit_time := Some (cf_exit_time fill),
      po_closed_reason := settled_reason (po_closed_reason q)\<rparr>"
  have p': "p' = (with_realized_pnl w)\<lparr>po_unrealized_pnl := None, po_unrealized_pnl_percent := None\<rparr>"
    using assms(3) by (simp add: book_close_def q w_def Let_def)
  have w: "represents w ?b"
    using represents_exited(1) [OF assms(1) q] received by (auto simp: w_def represents_def unat_add_fee)
  show "represents p' ?b" using w by (simp add: p' represents_def with_realized_pnl_eq)
  show "po_pnl p' = Some (Fin (book_profit ?b))"
    using realized_pnl_of_book [OF w] by (simp add: p' with_realized_pnl_eq)
  show "po_exit_time p' = Some (cf_exit_time fill)" "held_amount p' = Some 0"
    using represents_exited(2) [OF assms(1) q]
    by (simp_all add: p' w_def with_realized_pnl_eq held_amount_def)
qed

lemma booked_force_close:
  assumes "represents p b" and "book_force_close fill p = (Inr (), p')"
  shows "represents p' (book_step (BookForceClose fill) b)"
    and "po_pnl p' = Some (Fin (book_profit (book_step (BookForceClose fill) b)))"
    and "po_exit_time p' = Some (fc_exit_time fill)" and "held_amount p' = Some 0"
proof -
  let ?b = "book_step (BookForceClose fill) b"
  obtain amount q where q: "book_remaining_as_exited p = (Inr amount, q)"
    using assms(2) by (auto simp: book_force_close_def Let_def split: prod.splits sum.splits)
  define w where "w = q\<lparr>po_remaining_token_amount := Some 0, po_synthetic_exit := True,
      po_transaction_exit_verified := True, po_exit_time := Some (fc_exit_time fill),
      po_exit_price := Some (fc_exit_price fill), po_effective_exit_price := Some (Fin 0),
      po_closed_reason := Some (fc_closed_reason fill), po_exit_strategy_id := None,
      po_native_received := Some (unwrap_or (po_native_received q) (Fin 0))\<rparr>"
  have p': "p' = (with_realized_pnl w)\<lparr>po_unrealized_pnl := None, po_unrealized_pnl_percent := None\<rparr>"
    using assms(2) by (simp add: book_force_close_def q w_def Let_def)
  have w: "represents w ?b"
    using represents_exited [OF assms(1) q] by (auto simp: w_def represents_def)
  show "represents p' ?b" using w by (simp add: p' represents_def with_realized_pnl_eq)
  show "po_pnl p' = Some (Fin (book_profit ?b))"
    using realized_pnl_of_book [OF w] by (simp add: p' with_realized_pnl_eq)
  show "po_exit_time p' = Some (fc_exit_time fill)" "held_amount p' = Some 0"
    by (simp_all add: p' w_def with_realized_pnl_eq held_amount_def)
qed

lemma done_booking_ok: "done_booking r = (Inr (), p) \<longleftrightarrow> (\<exists>v. r = (Inr v, p))"
  by (auto simp: done_booking_def split: prod.splits sum.splits)

lemma run_booking_books:
  assumes "represents p b" and "covered op b" and "run_booking op p = (Inr (), p')"
  shows "represents p' (book_step op b)"
  using assms booked_buy booked_partial booked_close(1) booked_force_close(1)
  by (cases op) (auto simp: done_booking_ok simp del: book_step.simps covered.simps)

lemma run_booking_closes:
  assumes "represents p b" and "covered op b" and "run_booking op p = (Inr (), p')" and "closes op"
  shows "po_pnl p' = Some (Fin (book_profit (book_step op b)))" and "po_exit_time p' \<noteq> None"
    and "held_amount p' = Some 0"
  using assms booked_close(2-4) booked_force_close(2-4)
  by (cases op; auto simp: done_booking_ok simp del: book_step.simps covered.simps)+

lemma run_bookings_append:
  "run_bookings (xs @ ys) p = (case run_bookings xs p of (Inl e, p) \<Rightarrow> (Inl e, p) | (Inr _, p) \<Rightarrow> run_bookings ys p)"
  by (induction xs arbitrary: p) (auto split: prod.splits sum.splits)

lemma run_bookings_books:
  assumes "represents p b" and "all_covered ops b" and "run_bookings ops p = (Inr (), p')"
  shows "represents p' (fold book_step ops b)"
  using assms
proof (induction ops arbitrary: p b)
  case (Cons op ops)
  obtain q where q: "run_booking op p = (Inr (), q)" "run_bookings ops q = (Inr (), p')"
    using Cons.prems(3) by (auto split: prod.splits sum.splits)
  have "represents q (book_step op b)" using run_booking_books [OF Cons.prems(1) _ q(1)] Cons.prems(2) by simp
  then show ?case using Cons.IH [OF _ _ q(2)] Cons.prems(2) by simp
qed simp

lemma run_booking_error:
  assumes "run_booking op p = (Inl e, p')"
  shows "p' = p" and "\<exists>operation. e = RowAmountOverflow (po_mint p) operation"
  using assms
  by (cases op; auto simp: done_booking_def book_dca_def book_acquisition_def book_partial_exit_def book_exit_def
      book_close_def book_force_close_def book_remaining_as_exited_def Let_def split: option.splits prod.splits sum.splits)+

text \<open>The token total a booking raises, and by how much.\<close>

fun raised_total :: "booking_op \<Rightarrow> position_row \<Rightarrow> nat" where
  "raised_total (BookDca fill) p = unat (unwrap_or (po_remaining_token_amount p) 0) + unat (df_tokens_bought fill)"
| "raised_total (BookPartial fill) p = unat (po_total_exited_amount p) + unat (px_exit_amount fill)"
| "raised_total _ p = unat (po_total_exited_amount p) + unat (unwrap_or (po_remaining_token_amount p) 0)"

lemma unat_u128_below: "unat (a :: u128) < 340282366920938463463374607431768211456"
  using u128_bound [of a] by simp

lemma run_booking_fails_iff: "(\<exists>e. fst (run_booking op p) = Inl e) \<longleftrightarrow> 2 ^ 128 \<le> raised_total op p"
  by (cases op)
    (auto simp: done_booking_def book_dca_def book_acquisition_def book_partial_exit_def book_exit_def book_close_def
      book_force_close_def book_remaining_as_exited_def checked_add_def unat_u128_below not_less not_le Let_def
      split: option.splits prod.splits sum.splits if_splits)

text \<open>A blend moves the average to a mean of the average before and the price of the fill.\<close>

lemma blended_average:
  assumes "average_after_acquisition (Fin average) (Fin bought) (Fin spent) (Fin held) = Some after"
    and "spent / bought < average"
  shows "\<exists>a. after = Fin a \<and> spent / bought \<le> a \<and> a < average \<and> 0 < spent / bought"
proof -
  define kept where "kept = max (held - bought) 0"
  define price where "price = spent / bought"
  have pos: "DUST < bought" "0 < spent" "DUST < held"
    using assms(1) by (auto simp: average_after_acquisition_def Let_def split: if_splits)
  have b: "0 < bought" "0 < held" using pos DUST_positive(1) by linarith+
  have part: "0 < held - kept" "0 \<le> kept" using b by (auto simp: kept_def)
  have share: "spent * (held - kept) / bought = price * (held - kept)" using b by (simp add: price_def)
  have after: "after = Fin ((average * kept + price * (held - kept)) / held)"
    using assms(1) pos b by (auto simp: average_after_acquisition_def Let_def at_average_def acquire_def
        kept_def [symmetric] share held_average_Some split: if_splits)
  have less: "price < average" using assms(2) by (simp add: price_def)
  have "price * held \<le> average * kept + price * (held - kept)"
    using mult_right_mono [of price average kept] less part by (simp add: algebra_simps)
  moreover have "average * kept + price * (held - kept) < average * held"
    using mult_strict_right_mono [OF less part(1)] by (simp add: algebra_simps)
  ultimately show ?thesis
    using b pos unfolding after by (auto simp: price_def [symmetric] pos_le_divide_eq pos_divide_less_eq) (simp add: price_def)
qed

lemma trail_needs_profit:
  assumes "trailing_stop_triggered (Fin e) (Fin peak) current p = Inr True"
  shows "e < peak"
proof (rule ccontr)
  assume "\<not> e < peak"
  have on: "trp_enabled p" and v: "trailing_validate p = Inr ()" and e: "0 < e" and peak: "0 < peak"
    and reached: "\<not> flt_lt (Fin ((peak / e - 1) * 100)) (trp_activation_pct p)"
    using assms by (auto simp: trailing_stop_triggered_def from_fault_def Let_def split: if_splits sum.splits)
  obtain a where "trp_activation_pct p = Fin a" "0 < a" by (rule trailing_validate_ok [OF v on]) simp
  moreover have "peak / e \<le> 1" using \<open>\<not> e < peak\<close> e by simp
  then have "(peak / e - 1) * 100 \<le> 0" by (intro mult_nonpos_nonneg) simp_all
  ultimately show False using reached by (simp only: flt_lt.simps)
qed

section \<open>Properties\<close>

text \<open>The book of a round whose entry is filled.\<close>

definition opened_book :: "entry_fill \<Rightarrow> trade_book" where
  "opened_book fill = \<lparr>bk_bought = unat (ef_token_amount fill), bk_sold = 0, bk_spent = real_of (ef_native_size fill),
     bk_received = 0, bk_buy_fees = unat (ef_fee_raw fill), bk_sale_fees = 0\<rparr>"

lemma opened_represents:
  "is_finite (ef_native_size fill) \<Longrightarrow> represents (apply_entry_fill fill (position_opening og)) (opened_book fill)"
  using u64_bound [of "ef_fee_raw fill"]
  by (auto simp: represents_def apply_entry_fill_def position_opening_def opened_book_def add_fee_def is_finite_iff
      unat_saturating_add)

text \<open>
  C14: the row of a round is its books: after an entry and any covered adds, partial exits and closes
  it holds what was bought and not sold, and its cost, proceeds and fees are the sums of the fills;
  a close leaves nothing held and states the profit those sums give.
\<close>

theorem bookings_keep_books:
  assumes "is_finite (ef_native_size fill)" and "all_covered ops (opened_book fill)"
    and "run_bookings ops (apply_entry_fill fill (position_opening og)) = (Inr (), p)"
  shows "represents p (fold book_step ops (opened_book fill))
    \<and> (ops \<noteq> [] \<and> closes (last ops) \<longrightarrow>
        po_pnl p = Some (Fin (book_profit (fold book_step ops (opened_book fill))))
        \<and> po_exit_time p \<noteq> None \<and> held_amount p = Some 0)"
proof (cases "ops = []")
  case True
  then show ?thesis using run_bookings_books [OF opened_represents assms(2,3)] assms(1) by simp
next
  case False
  then obtain xs op where ops: "ops = xs @ [op]" by (metis append_butlast_last_id)
  let ?b = "fold book_step xs (opened_book fill)"
  obtain q where q: "run_bookings xs (apply_entry_fill fill (position_opening og)) = (Inr (), q)"
    "run_booking op q = (Inr (), p)"
    using assms(3) unfolding ops run_bookings_append by (auto split: prod.splits sum.splits)
  have "all_covered (xs @ [op]) b \<Longrightarrow> all_covered xs b \<and> covered op (fold book_step xs b)" for b
    by (induction xs arbitrary: b) auto
  then have c: "all_covered xs (opened_book fill)" "covered op ?b" using assms(2) ops by blast+
  have "represents q ?b" by (rule run_bookings_books [OF opened_represents [OF assms(1)] c(1) q(1)])
  from run_booking_books [OF this c(2) q(2)] run_booking_closes [OF this c(2) q(2)] show ?thesis
    by (simp add: ops)
qed

text \<open>
  A booking fails exactly when the token total it raises would leave 128 bits, names the token,
  and leaves the row as it was.
\<close>

theorem booking_fails_exactly:
  "(\<exists>e. fst (run_booking op p) = Inl e) = (2 ^ 128 \<le> raised_total op p)
   \<and> (case run_booking op p of
        (Inl e, p') \<Rightarrow> p' = p \<and> (\<exists>operation. e = RowAmountOverflow (po_mint p) operation)
      | (Inr _, p') \<Rightarrow> True)"
  using run_booking_fails_iff [of op p] run_booking_error [of op p] by (auto split: prod.splits sum.splits)

text \<open>
  Averaging down disarms the trailing stop: once a buy filled below the average entry price is
  blended in, no decision at any price sells under the trailing rule before the peak rises again.
\<close>

theorem averaging_down_disarms_trail:
  assumes "blend_average_entry_price bought (Fin spent) decimals p = (Recomputed, p')"
    and "po_average_entry_price p = Fin average" and "spent / whole decimals bought < average"
    and "ed_outcome (decide_admitting (position_exit_inputs p' current now) policy admit) = Some outcome"
  shows "ro_rule outcome \<noteq> Trailing"
proof
  assume "ro_rule outcome = Trailing"
  note fired = trailing_outcome_fired(1) [OF assms(4) this]
  let ?held = "unwrap_or (po_remaining_token_amount p) 0"
  obtain after where after: "average_after_acquisition (Fin average) (Fin (whole decimals bought)) (Fin spent)
      (Fin (whole decimals ?held)) = Some after"
    and p': "p' = move_average_entry_price after (flt_div (Fin spent) (Fin (whole decimals bought))) p"
    using assms(1,2) by (auto simp: blend_average_entry_price_def to_whole_units_whole Let_def split: if_splits option.splits)
  obtain a where a: "after = Fin a" "spent / whole decimals bought \<le> a" "a < average" "0 < spent / whole decimals bought"
    using blended_average [OF after assms(3)] by blast
  have "whole decimals bought \<noteq> 0" using a(4) by auto
  then have "po_average_entry_price p' = Fin a" "po_basis_peak_price p' = Fin (spent / whole decimals bought)"
    using a by (simp_all add: p' move_average_entry_price_def assms(2))
  then have "trailing_stop_triggered (Fin a) (Fin (spent / whole decimals bought)) current (ep_trailing policy) = Inr True"
    using fired by (simp add: position_exit_inputs_def)
  from trail_needs_profit [OF this] a(2) show False by simp
qed

definition sample_opening :: opening_row where
  "sample_opening = \<lparr>og_mint = ''mint'', og_symbol = ''T'', og_name = ''Token'', og_entry_price = Fin 1,
     og_entry_time = 0, og_size_native = Fin 1, og_entry_signature = None, og_origin = OriginManual,
     og_management = AutoTrader, og_entry_liquidity = None, og_book = Live\<rparr>"

definition sample_entry :: entry_fill where
  "sample_entry = \<lparr>ef_effective_entry_price = Fin 1, ef_token_amount = 1000000, ef_fee_raw = 5000, ef_native_size = Fin 1\<rparr>"

text \<open>A round that adds at half the price, sells a third of the tokens and closes with a profit.\<close>

definition sample_bookings :: "booking_op list" where
  "sample_bookings =
     [BookDca \<lparr>df_tokens_bought = 500000, df_native_spent = Fin (1 / 4), df_fee_raw = 5000, df_dca_time = 1\<rparr>,
      BookPartial \<lparr>px_exit_amount = 500000, px_native_received = Fin 1, px_effective_exit_price = Fin 2,
        px_unrealized_pnl = None, px_fee_raw = 5000\<rparr>,
      BookClose \<lparr>cf_effective_exit_price = Fin 1, cf_native_received = Fin 1, cf_fee_raw = 5000, cf_exit_time = 2\<rparr>]"

lemmas booking_defs = run_bookings.simps run_booking.simps done_booking_def book_dca_def book_acquisition_def
  book_partial_exit_def book_exit_def book_close_def book_remaining_as_exited_def add_fee_def apply_entry_fill_def
  position_opening_def

theorem bookings_keep_books_witness:
  "\<exists>p. run_bookings sample_bookings (apply_entry_fill sample_entry (position_opening sample_opening)) = (Inr (), p)
     \<and> po_pnl p = Some (Fin (2 - 5 / 4 - 20000 / 10 ^ 9))"
proof -
  let ?r = "run_bookings sample_bookings (apply_entry_fill sample_entry (position_opening sample_opening))"
  have "fst ?r = Inr ()"
    by (simp add: sample_bookings_def sample_entry_def booking_defs checked_add_def checked_sub_def Let_def
        with_realized_pnl_eq)
  then obtain p where p: "?r = (Inr (), p)" by (metis prod.collapse)
  have "all_covered sample_bookings (opened_book sample_entry)"
    by (simp add: sample_bookings_def opened_book_def sample_entry_def)
  from bookings_keep_books [OF _ this p] show ?thesis
    using p by (simp add: sample_entry_def sample_bookings_def opened_book_def book_profit_def)
qed

definition sample_row :: position_row where
  "sample_row = (apply_entry_fill sample_entry (position_opening sample_opening))
     \<lparr>po_remaining_token_amount := Some 1500000, po_basis_peak_price := Fin 3\<rparr>"

text \<open>Before the add the peak of three times the entry arms the trail, and it sells; after the add it does not.\<close>

theorem averaging_down_disarms_trail_witness:
  "trailing_stop_triggered (Fin 1) (po_basis_peak_price sample_row) (Fin 2) (ep_trailing sample_exit_policy) = Inr True
   \<and> map_option ro_rule (ed_outcome (decide (position_exit_inputs
        (snd (blend_average_entry_price 500000 (Fin (1 / 4)) 6 sample_row)) (Fin 2) 0) sample_exit_policy)) \<noteq> Some Trailing"
proof -
  have fired: "trailing_stop_triggered (Fin 1) (po_basis_peak_price sample_row) (Fin 2) (ep_trailing sample_exit_policy) = Inr True"
    by (simp add: sample_row_def sample_exit_policy_def trailing_stop_triggered_def from_fault_def trailing_validate_def
        validate_bands_def percent_in_range_def distance_in_force_def highest_band_def TRAILING_STOP_MAX_BANDS_def Let_def)
  have recomputed: "fst (blend_average_entry_price 500000 (Fin (1 / 4)) 6 sample_row) = Recomputed"
    by (simp add: blend_average_entry_price_def sample_row_def sample_entry_def apply_entry_fill_def to_whole_units_def
        average_after_acquisition_def at_average_def acquire_def held_average_def DUST_def Let_def)
  have average: "po_average_entry_price sample_row = Fin 1"
    by (simp add: sample_row_def sample_entry_def apply_entry_fill_def)
  let ?r = "blend_average_entry_price 500000 (Fin (1 / 4)) 6 sample_row"
  have "?r = (Recomputed, snd ?r)" using recomputed by (metis prod.collapse)
  from averaging_down_disarms_trail [OF this average] fired show ?thesis
    by (fastforce simp: decide_def whole_def)
qed

end
