(* ===== verification/Round_State.thy ===== *)
theory Round_State
  imports Position_Booking
begin

text \<open>
  How a closed position follows its round when a fill lands after its close,
  \<open>src/positions/round_state.rs\<close>: what is dust, what part of the wallet's holding a round owns, and
  the reopening of a row or the hand-over of its holding to the open row of the same token.

  The lemmas show that no token, cost or fee is lost or counted twice by a hand-over, what a row
  looks like after it followed its round, and that a failed operation changes nothing.
\<close>

section \<open>Dust and attribution\<close>

definition DUST_DIVISOR :: u128 where "DUST_DIVISOR = 1000"
definition DUST_FLOOR_RAW :: u128 where "DUST_FLOOR_RAW = 10"

definition is_dust :: "u128 \<Rightarrow> u128 \<Rightarrow> bool" where
  "is_dust held acquired \<longleftrightarrow> held \<le> max (acquired div DUST_DIVISOR) DUST_FLOOR_RAW"

definition attributable_held :: "u128 \<Rightarrow> u128 \<Rightarrow> u128 \<Rightarrow> u128" where
  "attributable_held wallet_held held_by_other_open_rows acquired =
     min (unwrap_or (checked_sub wallet_held held_by_other_open_rows) 0) acquired"

fun flt_floor :: "flt \<Rightarrow> flt" where
  "flt_floor (Fin a) = Fin (real_of_int \<lfloor>a\<rfloor>)"
| "flt_floor v = v"

definition expected_acquisition :: "flt \<Rightarrow> flt \<Rightarrow> u8 option \<Rightarrow> u128 option" where
  "expected_acquisition entry_size_native entry_price decimals =
     Option.bind decimals (\<lambda>decimals.
       if \<not> (usable entry_size_native \<and> usable entry_price) then None
       else from_integral_f64 (flt_floor (flt_mul (flt_div entry_size_native entry_price) (Fin (10 ^ unat decimals)))))"

definition attributable_is_dust :: "u128 \<Rightarrow> u128 option \<Rightarrow> u128 option \<Rightarrow> bool option" where
  "attributable_is_dust wallet_held held_by_other_open_rows expected =
     Option.bind expected (\<lambda>expected.
       if \<not> DUST_FLOOR_RAW < expected then None
       else (case held_by_other_open_rows of
           Some others \<Rightarrow> Some (is_dust (attributable_held wallet_held others expected) expected)
         | None \<Rightarrow> if is_dust (attributable_held wallet_held 0 expected) expected then Some True else None))"

section \<open>Following the round\<close>

datatype follow_outcome = FollowUnchanged | Reopened | StaysClosed | HandedOver

record handover =
  ho_tokens :: u128
  ho_cost_native :: flt

definition is_closed :: "position_row \<Rightarrow> bool" where
  "is_closed p \<longleftrightarrow> po_exit_time p \<noteq> None \<and> po_transaction_exit_verified p"

definition exit_awaiting_verification :: "position_row \<Rightarrow> string option" where
  "exit_awaiting_verification p =
     Option.bind (po_exit_transaction_signature p) (\<lambda>signature.
       if \<not> po_transaction_exit_verified p \<or> po_synthetic_exit p then Some signature else None)"

definition clear_close :: "u128 \<Rightarrow> u128 \<Rightarrow> position_row \<Rightarrow> position_row" where
  "clear_close held acquired p = p
     \<lparr>po_remaining_token_amount := Some held,
      po_total_exited_amount := unwrap_or (checked_sub acquired held) 0,
      po_exit_time := None, po_exit_price := None, po_effective_exit_price := None, po_average_exit_price := None,
      po_pnl := None, po_pnl_percent := None, po_closed_reason := None, po_exit_strategy_id := None,
      po_transaction_exit_verified := False, po_synthetic_exit := False, po_exit_transaction_signature := None\<rparr>"

definition follow_round :: "u128 \<Rightarrow> bool \<Rightarrow> position_row \<Rightarrow> follow_outcome booked" where
  "follow_round held closing_sale_recorded p =
     (if \<not> is_closed p then (Inr FollowUnchanged, p)
      else case acquired_amount p of
        None \<Rightarrow> (Inl (RowAmountOverflow (po_mint p) ''following the round''), p)
      | Some acquired \<Rightarrow>
          if is_dust held acquired then
            (Inr StaysClosed, with_realized_pnl (p\<lparr>po_remaining_token_amount := Some 0, po_total_exited_amount := acquired\<rparr>))
          else
            let p = (if closing_sale_recorded then p\<lparr>po_partial_exit_count := po_partial_exit_count p + 1\<rparr> else p)
            in (Inr Reopened, clear_close (min held acquired) acquired p))"

definition reopen_missed_holding :: "position_row \<Rightarrow> unit booked" where
  "reopen_missed_holding p =
     (case acquired_amount p of
        None \<Rightarrow> (Inl (RowAmountOverflow (po_mint p) ''reopening a missed holding''), p)
      | Some acquired \<Rightarrow> (Inr (), clear_close acquired acquired p))"

definition hand_over_round :: "u128 \<Rightarrow> bool \<Rightarrow> position_row \<Rightarrow> (follow_outcome \<times> handover option) booked" where
  "hand_over_round held closing_sale_recorded p =
     (if \<not> is_closed p then (Inr (FollowUnchanged, None), p)
      else case acquired_amount p of
        None \<Rightarrow> (Inl (RowAmountOverflow (po_mint p) ''handing the round over''), p)
      | Some acquired \<Rightarrow>
          if is_dust held acquired then
            (case follow_round held closing_sale_recorded p of
               (Inl e, p) \<Rightarrow> (Inl e, p)
             | (Inr outcome, p) \<Rightarrow> (Inr (outcome, None), p))
          else
            let held = min held acquired;
                share = Fin (real (unat held) / real (unat acquired));
                cost_native = flt_mul (po_total_size_native p) share;
                p = p\<lparr>po_total_size_native := flt_sub (po_total_size_native p) cost_native,
                      po_remaining_token_amount := Some 0,
                      po_total_exited_amount := unwrap_or (checked_sub acquired held) 0\<rparr>;
                p = with_realized_pnl p
            in (Inr (HandedOver, Some \<lparr>ho_tokens = held, ho_cost_native = cost_native\<rparr>), p))"

section \<open>A late buy\<close>

record leg =
  lg_tokens :: u128
  lg_cost_native :: flt

record leg_split =
  ls_kept :: leg
  ls_handed_leg :: leg
  ls_handed_earlier :: leg
  ls_kept_fee_raw :: u64
  ls_handed_fee_raw :: u64

definition kept_whole :: "dca_fill \<Rightarrow> leg_split" where
  "kept_whole fill =
     (let nothing = \<lparr>lg_tokens = 0, lg_cost_native = Fin 0\<rparr> in
      \<lparr>ls_kept = \<lparr>lg_tokens = df_tokens_bought fill, lg_cost_native = df_native_spent fill\<rparr>,
       ls_handed_leg = nothing, ls_handed_earlier = nothing,
       ls_kept_fee_raw = df_fee_raw fill, ls_handed_fee_raw = 0\<rparr>)"

definition handed :: "leg_split \<Rightarrow> handover option" where
  "handed split =
     Option.bind (checked_add (lg_tokens (ls_handed_leg split)) (lg_tokens (ls_handed_earlier split))) (\<lambda>tokens.
       Some \<lparr>ho_tokens = tokens,
             ho_cost_native = flt_add (lg_cost_native (ls_handed_leg split)) (lg_cost_native (ls_handed_earlier split))\<rparr>)"

definition prorated_fee :: "u64 \<Rightarrow> u128 \<Rightarrow> u128 \<Rightarrow> u64" where
  "prorated_fee fee_raw part whole_amount =
     (if whole_amount = 0 then fee_raw
      else let share = saturating_mul (ucast fee_raw :: u128) part div whole_amount in
        min (unwrap_or (try_into_u64 share) fee_raw) fee_raw)"

definition fraction :: "u128 \<Rightarrow> u128 \<Rightarrow> flt" where
  "fraction part whole_amount = (if whole_amount = 0 then Fin 0 else Fin (real (unat part) / real (unat whole_amount)))"

text \<open>The part of \<open>hand_over_leg\<close> after its checks: how the buy divides, and the row that kept its part.\<close>

definition split_leg :: "dca_fill \<Rightarrow> u128 \<Rightarrow> u128 \<Rightarrow> u128 \<Rightarrow> position_row \<Rightarrow> leg_split" where
  "split_leg fill held before acquired p =
     (let held = min held acquired;
          handed_leg_tokens = min held (df_tokens_bought fill);
          handed_leg_cost = flt_mul (df_native_spent fill) (fraction handed_leg_tokens (df_tokens_bought fill));
          earlier_tokens = unwrap_or (checked_sub held handed_leg_tokens) 0;
          earlier_cost = flt_mul (po_total_size_native p) (fraction earlier_tokens before);
          kept = \<lparr>lg_tokens = unwrap_or (checked_sub (df_tokens_bought fill) handed_leg_tokens) 0,
                  lg_cost_native = flt_sub (df_native_spent fill) handed_leg_cost\<rparr>;
          handed_fee_raw = prorated_fee (df_fee_raw fill) handed_leg_tokens (df_tokens_bought fill)
      in \<lparr>ls_kept = kept,
          ls_handed_leg = \<lparr>lg_tokens = handed_leg_tokens, lg_cost_native = handed_leg_cost\<rparr>,
          ls_handed_earlier = \<lparr>lg_tokens = earlier_tokens, lg_cost_native = earlier_cost\<rparr>,
          ls_kept_fee_raw = df_fee_raw fill - handed_fee_raw, ls_handed_fee_raw = handed_fee_raw\<rparr>)"

definition hand_over_leg ::
  "dca_fill \<Rightarrow> u128 \<Rightarrow> bool \<Rightarrow> position_row \<Rightarrow> (follow_outcome \<times> leg_split) booked" where
  "hand_over_leg fill held closing_sale_recorded p =
     (let overflow = RowAmountOverflow (po_mint p) ''handing a late buy over'' in
      if \<not> is_closed p then
        (case book_dca fill p of
           (Inl e, p) \<Rightarrow> (Inl e, p)
         | (Inr _, p) \<Rightarrow> (Inr (FollowUnchanged, kept_whole fill), p))
      else case acquired_amount p of
        None \<Rightarrow> (Inl overflow, p)
      | Some before \<Rightarrow>
        (case checked_add before (df_tokens_bought fill) of
           None \<Rightarrow> (Inl overflow, p)
         | Some acquired \<Rightarrow>
           if is_dust held acquired then
             (case book_dca fill p of
                (Inl e, p) \<Rightarrow> (Inl e, p)
              | (Inr _, p) \<Rightarrow>
                  (case follow_round held closing_sale_recorded p of
                     (Inl e, p) \<Rightarrow> (Inl e, p)
                   | (Inr outcome, p) \<Rightarrow> (Inr (outcome, kept_whole fill), p)))
           else
             let split = split_leg fill held before acquired p in
             (case checked_add (unwrap_or (checked_sub before (lg_tokens (ls_handed_earlier split))) 0)
                     (lg_tokens (ls_kept split)) of
                None \<Rightarrow> (Inl overflow, p)
              | Some exited \<Rightarrow>
                  let p = p\<lparr>po_total_size_native := flt_add (po_total_size_native p)
                              (flt_sub (lg_cost_native (ls_kept split)) (lg_cost_native (ls_handed_earlier split))),
                            po_entry_fee_raw := add_fee (po_entry_fee_raw p) (ls_kept_fee_raw split)\<rparr>;
                      p = (if 0 < lg_tokens (ls_kept split)
                           then p\<lparr>po_dca_count := po_dca_count p + 1, po_last_dca_time := Some (df_dca_time fill)\<rparr> else p);
                      p = p\<lparr>po_remaining_token_amount := Some 0, po_total_exited_amount := exited\<rparr>
                  in (Inr (HandedOver, split), with_realized_pnl p))))"

section \<open>Dust\<close>

lemma is_dust_mono: "is_dust held acquired \<Longrightarrow> part \<le> held \<Longrightarrow> is_dust part acquired"
  by (auto simp: is_dust_def)

lemma attributable_held_le:
  "attributable_held wallet others acquired \<le> wallet" "attributable_held wallet others acquired \<le> acquired"
  "attributable_held wallet others acquired \<le> attributable_held wallet 0 acquired"
  by (auto simp: attributable_held_def checked_sub_def min_le_iff_disj word_sub_le intro: min.mono)

text \<open>A verdict given while the other rows are unknown stands whatever they hold.\<close>

lemma unknown_others_dust:
  assumes "attributable_is_dust wallet None expected = Some verdict"
  shows "verdict" and "attributable_is_dust wallet (Some others) expected = Some True"
  using assms is_dust_mono [OF _ attributable_held_le(3)]
  by (auto simp: attributable_is_dust_def bind_eq_Some_conv split: if_splits)

section \<open>How a buy divides\<close>

lemma diff_min_le: "x \<le> a + b \<Longrightarrow> x - min x b \<le> (a :: nat)"
  by (auto simp: min_def)

lemma split_tokens:
  assumes "checked_add before (df_tokens_bought fill) = Some acquired" and "split = split_leg fill held before acquired p"
  shows "unat (lg_tokens (ls_kept split)) + unat (lg_tokens (ls_handed_leg split)) = unat (df_tokens_bought fill)"
    and "unat (lg_tokens (ls_handed_leg split)) + unat (lg_tokens (ls_handed_earlier split))
       = min (unat held) (unat before + unat (df_tokens_bought fill))"
    and "unat (lg_tokens (ls_handed_earlier split)) \<le> unat before"
    and "unat (lg_tokens (ls_handed_leg split)) \<le> unat (df_tokens_bought fill)"
proof -
  let ?b = "df_tokens_bought fill" and ?h = "min held acquired"
  have acquired: "unat acquired = unat before + unat ?b" using assms(1) by (simp add: checked_add_Some)
  have leg: "lg_tokens (ls_handed_leg split) = min ?h ?b" by (simp add: assms(2) split_leg_def Let_def)
  have le: "min ?h ?b \<le> ?h" "min ?h ?b \<le> ?b" by (rule min.cobounded1, rule min.cobounded2)
  have kept: "lg_tokens (ls_kept split) = ?b - min ?h ?b" and earlier: "lg_tokens (ls_handed_earlier split) = ?h - min ?h ?b"
    using le by (simp_all add: assms(2) split_leg_def Let_def checked_sub_def)
  have n: "unat (?b - min ?h ?b) = unat ?b - unat (min ?h ?b)" "unat (?h - min ?h ?b) = unat ?h - unat (min ?h ?b)"
    "unat (min ?h ?b) \<le> unat ?b" "unat (min ?h ?b) \<le> unat ?h"
    using le by (simp_all add: unat_sub word_le_nat_alt)
  have m: "unat ?h = min (unat held) (unat acquired)" "unat (min ?h ?b) = min (unat ?h) (unat ?b)"
    by (simp_all add: unat_min_word)
  show "unat (lg_tokens (ls_kept split)) + unat (lg_tokens (ls_handed_leg split)) = unat ?b"
    using n by (simp add: kept leg)
  show "unat (lg_tokens (ls_handed_leg split)) + unat (lg_tokens (ls_handed_earlier split))
       = min (unat held) (unat before + unat ?b)"
    using le_add_diff_inverse [OF n(4)] m(1) unfolding earlier leg n(2) acquired by (rule trans)
  show "unat (lg_tokens (ls_handed_earlier split)) \<le> unat before"
    unfolding earlier n(2) m(2) by (rule diff_min_le) (use m(1) acquired in simp)
  show "unat (lg_tokens (ls_handed_leg split)) \<le> unat ?b" using n by (simp add: leg)
qed

lemma split_fees:
  assumes "split = split_leg fill held before acquired p"
  shows "unat (ls_kept_fee_raw split) + unat (ls_handed_fee_raw split) = unat (df_fee_raw fill)"
proof -
  have le: "ls_handed_fee_raw split \<le> df_fee_raw fill"
    by (simp add: assms split_leg_def prorated_fee_def Let_def)
  moreover have "ls_kept_fee_raw split = df_fee_raw fill - ls_handed_fee_raw split"
    by (simp add: assms split_leg_def Let_def)
  ultimately show ?thesis by (simp add: unat_sub word_le_nat_alt)
qed

lemma fraction_share:
  assumes "unat part \<le> unat whole_amount"
  obtains f where "fraction part whole_amount = Fin f" and "0 \<le> f" and "f \<le> 1"
proof -
  have "0 \<le> real (unat part) / real (unat whole_amount)" "real (unat part) / real (unat whole_amount) \<le> 1"
    using assms by (auto simp: divide_le_eq_1 simp del: of_nat_unat)
  then show ?thesis using that [of 0] that [of "real (unat part) / real (unat whole_amount)"]
    by (cases "whole_amount = 0") (simp_all add: fraction_def del: of_nat_unat)
qed

lemma split_costs:
  assumes "checked_add before (df_tokens_bought fill) = Some acquired" and "split = split_leg fill held before acquired p"
    and "po_total_size_native p = Fin t" and "df_native_spent fill = Fin s" and "0 \<le> t" and "0 \<le> s"
  obtains k h e where "lg_cost_native (ls_kept split) = Fin k" and "lg_cost_native (ls_handed_leg split) = Fin h"
    and "lg_cost_native (ls_handed_earlier split) = Fin e" and "k + h = s" and "0 \<le> k" and "0 \<le> h" and "0 \<le> e" and "e \<le> t"
proof -
  obtain f where f: "fraction (lg_tokens (ls_handed_leg split)) (df_tokens_bought fill) = Fin f" "0 \<le> f" "f \<le> 1"
    by (rule fraction_share [OF split_tokens(4) [OF assms(1,2)]])
  obtain g where g: "fraction (lg_tokens (ls_handed_earlier split)) before = Fin g" "0 \<le> g" "g \<le> 1"
    by (rule fraction_share [OF split_tokens(3) [OF assms(1,2)]])
  have "lg_cost_native (ls_handed_leg split) = flt_mul (df_native_spent fill) (fraction (lg_tokens (ls_handed_leg split)) (df_tokens_bought fill))"
    "lg_cost_native (ls_handed_earlier split) = flt_mul (po_total_size_native p) (fraction (lg_tokens (ls_handed_earlier split)) before)"
    "lg_cost_native (ls_kept split) = flt_sub (df_native_spent fill) (lg_cost_native (ls_handed_leg split))"
    by (simp_all add: assms(2) split_leg_def Let_def)
  then have c: "lg_cost_native (ls_handed_leg split) = Fin (s * f)" "lg_cost_native (ls_handed_earlier split) = Fin (t * g)"
    "lg_cost_native (ls_kept split) = Fin (s - s * f)"
    using f(1) g(1) assms(3,4) by simp_all
  have "s * f \<le> s" "t * g \<le> t" using f g assms(5,6) by (simp_all add: mult_left_le)
  then show ?thesis using that [OF c(3,1,2)] f g assms(5,6) by simp
qed

section \<open>Errors\<close>

lemma follow_round_error: "follow_round held recorded p = (Inl e, p') \<Longrightarrow> p' = p \<and> acquired_amount p = None"
  by (auto simp: follow_round_def Let_def split: if_splits option.splits)

lemma acquired_after_buy:
  assumes "acquired_amount p = Some before" and "checked_add before (df_tokens_bought fill) = Some acquired"
  obtains q where "book_dca fill p = (Inr (), q)" and "acquired_amount q = Some acquired" and "is_closed q = is_closed p"
proof -
  let ?r = "unwrap_or (po_remaining_token_amount p) 0" and ?b = "df_tokens_bought fill"
  have sum: "unat ?r + unat (po_total_exited_amount p) = unat before" "unat before + unat ?b = unat acquired"
    "unat before + unat ?b < 2 ^ LENGTH(128)"
    using assms by (simp_all add: acquired_amount_def checked_add_Some)
  then have fits: "unat ?r + unat ?b < 2 ^ LENGTH(128)" by linarith
  have q: "book_acquisition ?b p = (Inr (?r + ?b), p\<lparr>po_remaining_token_amount := Some (?r + ?b)\<rparr>)"
    using fits by (cases "po_remaining_token_amount p") (simp_all add: book_acquisition_def checked_add_def)
  have "unat (?r + ?b) = unat ?r + unat ?b" using fits by (simp add: unat_word_ariths)
  then have "checked_add (?r + ?b) (po_total_exited_amount p) = Some acquired"
    using sum by (simp add: checked_add_Some)
  then show ?thesis using that by (simp add: book_dca_def q acquired_amount_def is_closed_def)
qed

lemma exited_fits:
  assumes "checked_add before (df_tokens_bought fill) = Some acquired" and "split = split_leg fill held before acquired p"
  shows "\<exists>exited. checked_add (unwrap_or (checked_sub before (lg_tokens (ls_handed_earlier split))) 0) (lg_tokens (ls_kept split))
      = Some exited \<and> unat exited + unat (lg_tokens (ls_handed_leg split)) + unat (lg_tokens (ls_handed_earlier split))
          = unat before + unat (df_tokens_bought fill)"
proof -
  let ?e = "lg_tokens (ls_handed_earlier split)" and ?k = "lg_tokens (ls_kept split)"
  note t = split_tokens [OF assms]
  have sub: "checked_sub before ?e = Some (before - ?e)" "unat (before - ?e) = unat before - unat ?e"
    using t(3) by (simp_all add: checked_sub_def word_le_nat_alt unat_sub)
  have "unat before + unat (df_tokens_bought fill) < 2 ^ LENGTH(128)" using assms(1) by (simp add: checked_add_Some)
  then have fits: "unat (before - ?e) + unat ?k < 2 ^ LENGTH(128)" using sub(2) t(1,3) by linarith
  then have "unat (before - ?e + ?k) = unat before - unat ?e + unat ?k" using sub(2) by (simp add: unat_word_ariths)
  then show ?thesis using fits sub t(1,3) by (simp add: checked_add_def)
qed

lemma hand_over_leg_error:
  assumes "hand_over_leg fill held recorded p = (Inl e, p')"
  shows "p' = p"
proof (cases "is_closed p")
  case True
  show ?thesis
  proof (cases "acquired_amount p")
    case None
    then show ?thesis using assms True by (simp add: hand_over_leg_def Let_def)
  next
    case (Some before)
    show ?thesis
    proof (cases "checked_add before (df_tokens_bought fill)")
      case None
      then show ?thesis using assms True Some by (simp add: hand_over_leg_def Let_def)
    next
      case acquired: (Some acquired)
      obtain q where q: "book_dca fill p = (Inr (), q)" "acquired_amount q = Some acquired"
        by (rule acquired_after_buy [OF Some acquired])
      obtain exited where exited: "checked_add (unwrap_or (checked_sub before
            (lg_tokens (ls_handed_earlier (split_leg fill held before acquired p)))) 0)
          (lg_tokens (ls_kept (split_leg fill held before acquired p))) = Some exited"
        using exited_fits [OF acquired refl] by blast
      show ?thesis
        using assms True Some acquired q exited follow_round_error [of held recorded q]
        by (auto simp: hand_over_leg_def Let_def split: if_splits prod.splits sum.splits)
    qed
  qed
next
  case False
  then show ?thesis
    using assms run_booking_error(1) [of "BookDca fill" p e p']
    by (auto simp: hand_over_leg_def Let_def split: prod.splits sum.splits)
qed

lemma handed_over_cases:
  assumes "hand_over_leg fill held recorded p = (Inr (HandedOver, split), p')"
  obtains before acquired exited where "is_closed p" and "acquired_amount p = Some before"
    and "checked_add before (df_tokens_bought fill) = Some acquired"
    and "split = split_leg fill held before acquired p"
    and "checked_add (unwrap_or (checked_sub before (lg_tokens (ls_handed_earlier split))) 0)
        (lg_tokens (ls_kept split)) = Some exited"
    and "p' = with_realized_pnl (let p = p\<lparr>po_total_size_native := flt_add (po_total_size_native p)
          (flt_sub (lg_cost_native (ls_kept split)) (lg_cost_native (ls_handed_earlier split))),
        po_entry_fee_raw := add_fee (po_entry_fee_raw p) (ls_kept_fee_raw split)\<rparr>;
        p = (if 0 < lg_tokens (ls_kept split)
             then p\<lparr>po_dca_count := po_dca_count p + 1, po_last_dca_time := Some (df_dca_time fill)\<rparr> else p)
        in p\<lparr>po_remaining_token_amount := Some 0, po_total_exited_amount := exited\<rparr>)"
  using assms
  by (auto simp: hand_over_leg_def follow_round_def Let_def split: if_splits option.splits prod.splits sum.splits)

section \<open>Properties\<close>

text \<open>
  C20: a buy that lands on a closed row divides without loss: its tokens, its cost and its fee are
  the sums of the kept and the handed-over parts, the row's tokens and cost change by exactly what
  it keeps and gives up, and it stays closed with its profit restated.
\<close>

theorem late_buy_split_exact:
  assumes "hand_over_leg fill held recorded p = (Inr (HandedOver, split), p')"
    and "po_total_size_native p = Fin t" and "df_native_spent fill = Fin s" and "0 \<le> t" and "0 \<le> s"
  shows "\<exists>before k h e. acquired_amount p = Some before
     \<and> lg_cost_native (ls_kept split) = Fin k \<and> handed split = Some \<lparr>ho_tokens = lg_tokens (ls_handed_leg split)
          + lg_tokens (ls_handed_earlier split), ho_cost_native = Fin (h + e)\<rparr>
     \<and> k + h = s \<and> 0 \<le> k \<and> 0 \<le> h \<and> 0 \<le> e \<and> e \<le> t
     \<and> po_total_size_native p' = Fin (t + s - (h + e))
     \<and> unat (lg_tokens (ls_kept split)) + unat (lg_tokens (ls_handed_leg split)) = unat (df_tokens_bought fill)
     \<and> unat (lg_tokens (ls_handed_leg split)) + unat (lg_tokens (ls_handed_earlier split))
          = min (unat held) (unat before + unat (df_tokens_bought fill))
     \<and> unat (po_total_exited_amount p') + min (unat held) (unat before + unat (df_tokens_bought fill))
          = unat before + unat (df_tokens_bought fill)
     \<and> unat (ls_kept_fee_raw split) + unat (ls_handed_fee_raw split) = unat (df_fee_raw fill)
     \<and> is_closed p' \<and> held_amount p' = Some 0 \<and> po_pnl p' = Some (fst (realized_pnl p'))"
proof -
  obtain before acquired exited where b: "is_closed p" "acquired_amount p = Some before"
    and acquired: "checked_add before (df_tokens_bought fill) = Some acquired"
    and split: "split = split_leg fill held before acquired p"
    and exited: "checked_add (unwrap_or (checked_sub before (lg_tokens (ls_handed_earlier split))) 0)
        (lg_tokens (ls_kept split)) = Some exited"
    and p': "p' = with_realized_pnl (let p = p\<lparr>po_total_size_native := flt_add (po_total_size_native p)
          (flt_sub (lg_cost_native (ls_kept split)) (lg_cost_native (ls_handed_earlier split))),
        po_entry_fee_raw := add_fee (po_entry_fee_raw p) (ls_kept_fee_raw split)\<rparr>;
        p = (if 0 < lg_tokens (ls_kept split)
             then p\<lparr>po_dca_count := po_dca_count p + 1, po_last_dca_time := Some (df_dca_time fill)\<rparr> else p)
        in p\<lparr>po_remaining_token_amount := Some 0, po_total_exited_amount := exited\<rparr>)"
    by (rule handed_over_cases [OF assms(1)])
  obtain k h e where c: "lg_cost_native (ls_kept split) = Fin k" "lg_cost_native (ls_handed_leg split) = Fin h"
    "lg_cost_native (ls_handed_earlier split) = Fin e" "k + h = s" "0 \<le> k" "0 \<le> h" "0 \<le> e" "e \<le> t"
    by (rule split_costs [OF acquired split assms(2-5)])
  note t = split_tokens [OF acquired split]
  have left: "unat exited + min (unat held) (unat before + unat (df_tokens_bought fill))
      = unat before + unat (df_tokens_bought fill)"
    using exited_fits [OF acquired split] exited t(2) by auto
  have "unat before + unat (df_tokens_bought fill) < 2 ^ LENGTH(128)" using acquired by (simp add: checked_add_Some)
  then have fits: "unat (lg_tokens (ls_handed_leg split)) + unat (lg_tokens (ls_handed_earlier split)) < 2 ^ LENGTH(128)"
    using t(2) by linarith
  have "t + k - e = t + s - (h + e)" using c(4) by simp
  moreover have "fst (realized_pnl (with_realized_pnl q)) = fst (realized_pnl q)" for q
    by (simp add: with_realized_pnl_eq realized_pnl_def calculate_position_total_fees_def)
  ultimately have row: "po_total_size_native p' = Fin (t + s - (h + e))" "po_total_exited_amount p' = exited"
    "is_closed p'" "held_amount p' = Some 0" "po_pnl p' = Some (fst (realized_pnl p'))"
    using b(1) c(1,3) assms(2) unfolding p'
    by (simp_all add: with_realized_pnl_eq Let_def is_closed_def held_amount_def flip: add_diff_eq)
  have "handed split = Some \<lparr>ho_tokens = lg_tokens (ls_handed_leg split) + lg_tokens (ls_handed_earlier split),
      ho_cost_native = Fin (h + e)\<rparr>"
    using fits c by (simp add: handed_def checked_add_def)
  then show ?thesis using b c(1,4-8) t(1,2) left split_fees [OF split] row by blast
qed

text \<open>
  A closed row follows its round exactly: above dust it is open again, holds what the wallet
  shows up to what it acquired, and has nothing left to verify; otherwise it stays closed with
  nothing held and its profit restated. What it acquired, paid and received never changes.
\<close>

theorem follow_round_exact:
  assumes "is_closed p" and "acquired_amount p = Some acquired"
  shows "\<exists>p'. follow_round held recorded p = (Inr (if is_dust held acquired then StaysClosed else Reopened), p')
     \<and> acquired_amount p' = Some acquired
     \<and> held_amount p' = Some (if is_dust held acquired then 0 else min held acquired)
     \<and> is_closed p' = is_dust held acquired
     \<and> exit_awaiting_verification p' = (if is_dust held acquired then exit_awaiting_verification p else None)
     \<and> po_pnl p' = (if is_dust held acquired then Some (fst (realized_pnl p)) else None)
     \<and> realized_pnl p' = realized_pnl p
     \<and> po_partial_exit_count p' = po_partial_exit_count p + (if \<not> is_dust held acquired \<and> recorded then 1 else 0)"
proof (cases "is_dust held acquired")
  case True
  then show ?thesis using assms
    by (simp add: follow_round_def with_realized_pnl_eq acquired_amount_def checked_add_def held_amount_def is_closed_def
        exit_awaiting_verification_def realized_pnl_def calculate_position_total_fees_def unat_u128_below)
next
  case False
  define q where "q = clear_close (min held acquired) acquired
      (p\<lparr>po_partial_exit_count := po_partial_exit_count p + (if recorded then 1 else 0)\<rparr>)"
  have "follow_round held recorded p = (Inr Reopened, q)"
    by (cases recorded) (simp_all add: follow_round_def assms False q_def)
  moreover have "unat (min held acquired) + unat (acquired - min held acquired) = unat acquired"
    using unat_sub [of "min held acquired" acquired] min.cobounded2 [of held acquired] by (simp add: word_le_nat_alt)
  then have "acquired_amount q = Some acquired"
    by (simp add: q_def clear_close_def acquired_amount_def checked_add_Some checked_sub_def unat_u128_below)
  moreover have "held_amount q = Some (min held acquired)" "\<not> is_closed q" "exit_awaiting_verification q = None"
    "po_pnl q = None" "realized_pnl q = realized_pnl p"
    "po_partial_exit_count q = po_partial_exit_count p + (if recorded then 1 else 0)"
    by (simp_all add: q_def clear_close_def held_amount_def is_closed_def exit_awaiting_verification_def realized_pnl_def
        calculate_position_total_fees_def)
  ultimately show ?thesis using False by simp
qed

text \<open>
  An operation on a closed row that fails leaves the row as it was, also when it failed after a
  part of it had been booked.
\<close>

theorem failed_follow_changes_nothing:
  "(case follow_round held recorded p of (Inl e, p') \<Rightarrow> p' = p | (Inr _, _) \<Rightarrow> True)
   \<and> (case reopen_missed_holding p of (Inl e, p') \<Rightarrow> p' = p | (Inr _, _) \<Rightarrow> True)
   \<and> (case hand_over_round held recorded p of (Inl e, p') \<Rightarrow> p' = p | (Inr _, _) \<Rightarrow> True)
   \<and> (case hand_over_leg fill held recorded p of (Inl e, p') \<Rightarrow> p' = p | (Inr _, _) \<Rightarrow> True)"
  using follow_round_error [of held recorded p] hand_over_leg_error [of fill held recorded p]
  by (auto simp: reopen_missed_holding_def hand_over_round_def Let_def split: prod.splits sum.splits option.splits)

text \<open>
  A round of a million units, bought for one and closed; then a buy of half a million for a quarter
  lands while the wallet holds two thirds of everything.
\<close>

definition sample_closed_row :: position_row where
  "sample_closed_row = snd (run_booking
     (BookClose \<lparr>cf_effective_exit_price = Fin 1, cf_native_received = Fin 1, cf_fee_raw = 5000, cf_exit_time = 2\<rparr>)
     (apply_entry_fill sample_entry (position_opening sample_opening)))"

definition sample_late_buy :: dca_fill where
  "sample_late_buy = \<lparr>df_tokens_bought = 500000, df_native_spent = Fin (1 / 4), df_fee_raw = 5000, df_dca_time = 1\<rparr>"

lemma sample_closed:
  "is_closed sample_closed_row" "acquired_amount sample_closed_row = Some 1000000"
  "po_total_size_native sample_closed_row = Fin 1"
  by (simp_all add: sample_closed_row_def sample_entry_def booking_defs checked_add_def Let_def with_realized_pnl_eq
      is_closed_def acquired_amount_def)

theorem late_buy_split_exact_witness:
  "\<exists>split p'. hand_over_leg sample_late_buy 1000000 True sample_closed_row = (Inr (HandedOver, split), p')
     \<and> unat (lg_tokens (ls_handed_leg split)) + unat (lg_tokens (ls_handed_earlier split)) = 1000000
     \<and> unat (po_total_exited_amount p') = 500000"
proof -
  let ?r = "hand_over_leg sample_late_buy 1000000 True sample_closed_row"
  have acquired: "checked_add 1000000 (df_tokens_bought sample_late_buy) = Some 1500000"
    by (simp add: sample_late_buy_def checked_add_def)
  obtain exited where "checked_add (unwrap_or (checked_sub 1000000
        (lg_tokens (ls_handed_earlier (split_leg sample_late_buy 1000000 1000000 1500000 sample_closed_row)))) 0)
      (lg_tokens (ls_kept (split_leg sample_late_buy 1000000 1000000 1500000 sample_closed_row))) = Some exited"
    using exited_fits [OF acquired refl] by blast
  then have "\<exists>split. fst ?r = Inr (HandedOver, split)"
    by (simp add: hand_over_leg_def sample_closed acquired is_dust_def DUST_DIVISOR_def DUST_FLOOR_RAW_def Let_def)
  then obtain split p' where r: "?r = (Inr (HandedOver, split), p')" by (metis prod.collapse)
  from late_buy_split_exact [OF r sample_closed(3), of "1 / 4"] show ?thesis
    using r by (auto simp: sample_late_buy_def sample_closed)
qed

theorem follow_round_exact_witness:
  "\<exists>p'. follow_round 900 True sample_closed_row = (Inr StaysClosed, p') \<and> held_amount p' = Some 0"
  using follow_round_exact [OF sample_closed(1,2), of 900 True]
  by (auto simp: is_dust_def DUST_DIVISOR_def DUST_FLOOR_RAW_def)

end
