(* ===== verification/Token2022.thy ===== *)
theory Token2022
  imports Curve_Math Direct_Types
begin

text \<open>
  \<open>src/chains/solana/swaps/direct/venues/token2022.rs\<close>: Token-2022 transfer
  fees. Reading the extension out of the mint account is the SDK's
  (\<^const>\<open>mint_transfer_fees\<close>: the older and the newer entry, each a rate in
  basis points and a maximum fee).
\<close>

record transfer_fee_schedule =
  basis_points :: u16
  maximum_fee :: u64

definition schedule_fee_on :: "transfer_fee_schedule \<Rightarrow> u64 \<Rightarrow> u64" where
  "schedule_fee_on s amount =
     (if basis_points s = 0 then 0
      else let raw = div_ceil (ucast amount * ucast (basis_points s)) 10000 :: u128
           in ucast (min (min raw (ucast (maximum_fee s))) (ucast amount)))"

definition schedule_net_of_fee :: "transfer_fee_schedule \<Rightarrow> u64 \<Rightarrow> u64" where
  "schedule_net_of_fee s amount = saturating_sub amount (schedule_fee_on s amount)"

definition schedule_from :: "u16 \<times> u64 \<Rightarrow> transfer_fee_schedule" where
  "schedule_from fee = \<lparr>basis_points = fst fee, maximum_fee = snd fee\<rparr>"

definition transfer_fee_schedule_of :: "sdk \<Rightarrow> account \<Rightarrow> transfer_fee_schedule option" where
  "transfer_fee_schedule_of sdk mint_account =
     (if acc_owner mint_account \<noteq> spl_token_2022_id sdk then None
      else case mint_transfer_fees sdk (acc_data mint_account) of
        None \<Rightarrow> None
      | Some (older_fee, newer_fee) \<Rightarrow>
          let older = schedule_from older_fee; newer = schedule_from newer_fee
          in Some (if basis_points older \<le> basis_points newer then newer else older))"

definition fee_on :: "transfer_fee_schedule option \<Rightarrow> u64 \<Rightarrow> u64" where
  "fee_on schedule amount = unwrap_or (map_option (\<lambda>s. schedule_fee_on s amount) schedule) 0"

definition net_of_fee :: "transfer_fee_schedule option \<Rightarrow> u64 \<Rightarrow> u64" where
  "net_of_fee schedule amount =
     unwrap_or (map_option (\<lambda>s. schedule_net_of_fee s amount) schedule) amount"

section \<open>Values\<close>

lemma unat_schedule_fee_on:
  "unat (schedule_fee_on s amount) =
     min (min (ceil_nat (unat amount * unat (basis_points s)) 10000) (unat (maximum_fee s)))
       (unat amount)"
proof (cases "basis_points s = 0")
  case True
  then show ?thesis by (simp add: schedule_fee_on_def)
next
  case False
  have "unat amount * unat (basis_points s) < 2 ^ 64 * 2 ^ 16"
    using u64_bound [of amount] u16_bound [of "basis_points s"]
    by (intro mult_strict_mono) simp_all
  then have prod: "unat (ucast amount * ucast (basis_points s) :: u128)
      = unat amount * unat (basis_points s)"
    by (simp add: unat_word_ariths unat_simps)
  have "unat (div_ceil (ucast amount * ucast (basis_points s)) (10000 :: u128))
      = ceil_nat (unat amount * unat (basis_points s)) 10000"
    by (simp add: unat_div_ceil prod)
  then show ?thesis
    using False by (simp add: schedule_fee_on_def Let_def unat_min_narrow unat_simps)
qed

lemma unat_schedule_net: "unat (schedule_net_of_fee s a) = unat a - unat (schedule_fee_on s a)"
  by (simp add: schedule_net_of_fee_def unat_simps)

lemma fee_on_le: "unat (fee_on s a) \<le> unat a"
  by (cases s) (simp_all add: fee_on_def unat_schedule_fee_on)

lemma net_plus_fee: "unat (net_of_fee s a) + unat (fee_on s a) = unat a"
  by (cases s) (auto simp: net_of_fee_def fee_on_def unat_schedule_net unat_schedule_fee_on)

lemma net_of_fee_le: "unat (net_of_fee s a) \<le> unat a"
  using net_plus_fee [of s a] by linarith

lemma schedule_fee_mono:
  "unat (basis_points s) \<le> unat (basis_points t) \<Longrightarrow> unat (maximum_fee s) \<le> unat (maximum_fee t)
   \<Longrightarrow> unat (schedule_fee_on s a) \<le> unat (schedule_fee_on t a)"
proof -
  assume b: "unat (basis_points s) \<le> unat (basis_points t)"
    and m: "unat (maximum_fee s) \<le> unat (maximum_fee t)"
  have "ceil_nat (unat a * unat (basis_points s)) 10000 \<le> ceil_nat (unat a * unat (basis_points t)) 10000"
    using b by (intro ceil_nat_mono) simp
  then show ?thesis using m by (auto simp: unat_schedule_fee_on)
qed

lemma schedule_net_mono:
  assumes "unat a \<le> unat b"
  shows "unat (schedule_net_of_fee s a) \<le> unat (schedule_net_of_fee s b)"
proof -
  have "unat a - ceil_nat (unat a * unat (basis_points s)) 10000
      \<le> unat b - ceil_nat (unat b * unat (basis_points s)) 10000"
    using assms by (rule rest_of_share_mono) simp
  then show ?thesis using assms by (auto simp: unat_schedule_net unat_schedule_fee_on)
qed

lemma net_of_fee_mono: "unat a \<le> unat b \<Longrightarrow> unat (net_of_fee s a) \<le> unat (net_of_fee s b)"
  by (cases s) (simp_all add: net_of_fee_def schedule_net_mono)

text \<open>
  The schedule that is picked is the entry with the higher rate. It charges at least
  what the other one does when its maximum fee is not the smaller of the two.
\<close>

lemma picked_schedule_overstates:
  assumes "transfer_fee_schedule_of sdk acc = Some s"
    and "mint_transfer_fees sdk (acc_data acc) = Some (older, newer)"
    and "t = schedule_from older \<or> t = schedule_from newer"
    and "unat (maximum_fee t) \<le> unat (maximum_fee s)"
  shows "unat (schedule_fee_on t a) \<le> unat (schedule_fee_on s a)"
  using assms
  by (intro schedule_fee_mono)
    (auto simp: transfer_fee_schedule_of_def Let_def word_le_nat_alt split: if_splits)

section \<open>Properties\<close>

text \<open>
  A transfer fee and what is left of the amount add up to the amount, and the fee is the
  rate rounded up, limited by the schedule's maximum and by the amount.
\<close>

theorem transfer_fee_splits_amount:
  "unat (net_of_fee s a) + unat (fee_on s a) = unat a
   \<and> unat (fee_on s a) = (case s of None \<Rightarrow> 0 | Some t \<Rightarrow>
        min (min (ceil_nat (unat a * unat (basis_points t)) 10000) (unat (maximum_fee t))) (unat a))"
  using net_plus_fee [of s a] by (cases s) (simp_all add: fee_on_def unat_schedule_fee_on)

text \<open>
  The entry that is picked by its rate alone can charge less than the other entry, because
  the maximum fee is not compared: with an older entry of 1% up to \<open>10 ^ 12\<close> and a newer one of
  2% up to 5, the picked schedule takes 5 of \<open>10 ^ 6\<close> units where the older entry takes \<open>10 ^ 4\<close>.
\<close>

theorem picked_schedule_can_understate:
  "\<exists>s t. transfer_fee_schedule_of sample_sdk \<lparr>acc_data = [], acc_owner = spl_token_2022_id sample_sdk\<rparr> = Some s
     \<and> mint_transfer_fees sample_sdk [] = Some ((basis_points t, maximum_fee t), (basis_points s, maximum_fee s))
     \<and> unat (schedule_fee_on s 1000000) = 5 \<and> unat (schedule_fee_on t 1000000) = 10000"
proof (intro exI conjI)
  let ?s = "\<lparr>basis_points = 200, maximum_fee = 5\<rparr>" and ?t = "\<lparr>basis_points = 100, maximum_fee = 1000000000000\<rparr>"
  show "transfer_fee_schedule_of sample_sdk \<lparr>acc_data = [], acc_owner = spl_token_2022_id sample_sdk\<rparr> = Some ?s"
    by (simp add: transfer_fee_schedule_of_def sample_sdk_def schedule_from_def)
  show "mint_transfer_fees sample_sdk [] = Some ((basis_points ?t, maximum_fee ?t), (basis_points ?s, maximum_fee ?s))"
    by (simp add: sample_sdk_def)
  show "unat (schedule_fee_on ?s 1000000) = 5" "unat (schedule_fee_on ?t 1000000) = 10000"
    by (simp_all add: unat_schedule_fee_on ceil_nat_def)
qed

end
