(* ===== verification/Native_Sol.thy ===== *)
theory Native_Sol
  imports Swap_Plan Token2022
begin

text \<open>
  What the launchpad venues share: the program ids of \<open>src/chains/solana/constants.rs\<close> they
  name in their account lists, the pair of a token and SOL that a native market trades, and the
  conversion of an output-side fee into input units.
\<close>

definition SYSTEM_PROGRAM_ID :: string where
  "SYSTEM_PROGRAM_ID = ''11111111111111111111111111111111''"

definition ASSOCIATED_TOKEN_PROGRAM_ID :: string where
  "ASSOCIATED_TOKEN_PROGRAM_ID = ''ATokenGPvbdGVxr1b2hvZbsiqW5xWH25efTNsLJA8knL''"

definition system_program_id :: "sdk \<Rightarrow> pubkey" where
  "system_program_id sdk = pubkey_from_str sdk SYSTEM_PROGRAM_ID"

definition associated_token_program_id :: "sdk \<Rightarrow> pubkey" where
  "associated_token_program_id sdk = pubkey_from_str sdk ASSOCIATED_TOKEN_PROGRAM_ID"

text \<open>The two sides of a native market: its token, and SOL under the WSOL mint.\<close>

definition native_token_program :: "sdk \<Rightarrow> pubkey \<Rightarrow> pubkey \<Rightarrow> pubkey \<Rightarrow> pubkey option" where
  "native_token_program sdk base_mint base_program mint =
     map_option (\<lambda>base. if base then base_program else spl_token_id sdk) (side_of base_mint (wsol_mint sdk) mint)"

definition native_decimals :: "sdk \<Rightarrow> pubkey \<Rightarrow> u8 \<Rightarrow> pubkey \<Rightarrow> u8 option" where
  "native_decimals sdk base_mint base_decimals mint =
     map_option (\<lambda>base. if base then base_decimals else 9) (side_of base_mint (wsol_mint sdk) mint)"

text \<open>\<open>(((fee as u128) * (amount as u128)) / (gross as u128)) as u64\<close>, or zero.\<close>

definition fee_in_input :: "u64 \<Rightarrow> u64 \<Rightarrow> u64 \<Rightarrow> u64" where
  "fee_in_input fee amount gross =
     (if gross = 0 then 0 else ucast ((ucast fee * ucast amount :: u128) div ucast gross))"

lemma fee_in_input_le: "unat fee \<le> unat gross \<Longrightarrow> unat (fee_in_input fee amount gross) \<le> unat amount"
  by (auto simp: fee_in_input_def converted_fee_le)

lemma native_token_program_None: "native_token_program sdk b p mint \<noteq> None \<longleftrightarrow> mint = b \<or> mint = wsol_mint sdk"
  by (auto simp: native_token_program_def)

lemma native_decimals_None: "native_decimals sdk b d mint \<noteq> None \<longleftrightarrow> mint = b \<or> mint = wsol_mint sdk"
  by (auto simp: native_decimals_def)

end
