(* ===== verification/Wallet_Ledger.thy ===== *)
theory Wallet_Ledger
  imports Cost_Basis Native_Sol "HOL-Library.List_Lexorder" "HOL-Library.Char_ord"
begin

text \<open>
  The wallet-history ledger, \<open>src/positions/ledger/mod.rs\<close> and \<open>reducer.rs\<close>: the balance movements of
  a wallet (\<open>src/transactions/deltas.rs\<close>) are reduced to rounds, each from a zero balance of a token
  back to zero, and the rounds are reconciled with what the wallet holds. An \<open>i128\<close> is an integer
  whose operations check the range, as the code's do. The map of open rounds is an association
  list in the order of insertion: the code finishes its rounds in an arbitrary order and sorts them,
  and the rounds open at the end are of different tokens, so that order does not show.

  The lemmas show what holds of a round between two movements: its totals are in range, its balance is
  what was acquired less what was disposed of when its history is complete, and what its buys paid is
  accounted for by the cost of its sales and the basis of the holding when its basis is complete.
\<close>

section \<open>Movements, events and rounds\<close>

datatype delta_kind = DeltaTrade | DeltaTransfer | DeltaDeFi | DeltaOther

definition NATIVE_SOL_SENTINEL :: string where "NATIVE_SOL_SENTINEL = ''native''"
definition USDT_MINT :: string where "USDT_MINT = ''Es9vMFrzaCERmJfrF4H2FYD4KCoNkY11McCe8BenwNYB''"

record subject_asset_delta =
  sd_chain :: string
  sd_wallet_address :: string
  sd_signature :: string
  sd_mint :: string
  sd_slot :: "u64 option"
  sd_block_time :: "i64 option"
  sd_tx_index :: u32
  sd_delta_raw :: i128
  sd_before_raw :: "u128 option"
  sd_after_raw :: "u128 option"
  sd_decimals :: u8
  sd_kind :: delta_kind
  sd_venue :: "string option"
  sd_fee_native_raw :: "u64 option"
  sd_success :: bool

datatype quote_asset = QuoteSol | QuoteUsd

record quote_leg =
  ql_asset :: quote_asset
  ql_amount :: flt

datatype ledger_event_kind = LedgerEntry | LedgerAdd | LedgerPartialExit | LedgerExit | LedgerReceive | LedgerSend

definition is_acquisition :: "ledger_event_kind \<Rightarrow> bool" where
  "is_acquisition kind \<longleftrightarrow> kind \<in> {LedgerEntry, LedgerAdd, LedgerReceive}"

record ledger_event =
  le_signature :: string
  le_slot :: "u64 option"
  le_block_time :: "i64 option"
  le_kind :: ledger_event_kind
  le_amount :: flt
  le_amount_raw :: u128
  le_balance_after :: flt
  le_quote :: "quote_leg option"
  le_price_native :: "flt option"
  le_venue :: "string option"

record ledger_round =
  lr_mint :: string
  lr_decimals :: u8
  lr_round_key :: string
  lr_opened_at :: "i64 option"
  lr_closed_at :: "i64 option"
  lr_is_open :: bool
  lr_balance_raw :: u128
  lr_total_acquired_raw :: u128
  lr_total_disposed_raw :: u128
  lr_entry_count :: u32
  lr_exit_count :: u32
  lr_invested_native :: flt
  lr_remaining_basis_native :: flt
  lr_realized_proceeds_native :: flt
  lr_realized_cost_native :: flt
  lr_average_entry_price_native :: "flt option"
  lr_average_exit_price_native :: "flt option"
  lr_realized_pnl_native :: "flt option"
  lr_basis_complete :: bool
  lr_history_complete :: bool
  lr_entry_signature :: "string option"
  lr_exit_signature :: "string option"
  lr_events :: "ledger_event list"

definition lr_balance :: "ledger_round \<Rightarrow> flt" where
  "lr_balance r = to_whole_units (lr_balance_raw r) (lr_decimals r)"

definition is_genesis :: "ledger_round \<Rightarrow> bool" where
  "is_genesis r \<longleftrightarrow> take 8 (lr_round_key r) = ''genesis:''"

definition max_option :: "'a::linorder list \<Rightarrow> 'a option" where
  "max_option xs = (if xs = [] then None else Some (Max (set xs)))"

definition last_seen_at :: "ledger_round \<Rightarrow> i64 option" where
  "last_seen_at r =
     (case max_option (List.map_filter le_block_time (lr_events r)) of Some t \<Rightarrow> Some t | None \<Rightarrow> lr_opened_at r)"

definition last_slot :: "ledger_round \<Rightarrow> u64 option" where
  "last_slot r = max_option (List.map_filter le_slot (lr_events r))"

record wallet_holding =
  wh_mint :: string
  wh_amount_raw :: u128
  wh_decimals :: u8

section \<open>Reference assets and quotes\<close>

definition is_native_asset :: "string \<Rightarrow> bool" where
  "is_native_asset address \<longleftrightarrow> address = SOL_MINT \<or> address = SYSTEM_PROGRAM_ID"

definition is_stable_asset :: "string \<Rightarrow> bool" where
  "is_stable_asset address \<longleftrightarrow> address \<in> set [USDC_MINT, USDT_MINT]"

definition is_quote_asset :: "string \<Rightarrow> bool" where
  "is_quote_asset address \<longleftrightarrow> is_native_asset address \<or> is_stable_asset address"

definition is_reference_asset :: "string \<Rightarrow> bool" where
  "is_reference_asset mint \<longleftrightarrow> mint = NATIVE_SOL_SENTINEL \<or> is_quote_asset mint"

text \<open>\<open>i128::unsigned_abs\<close>.\<close>

definition unsigned_abs :: "i128 \<Rightarrow> u128" where
  "unsigned_abs v = word_of_int \<bar>v\<bar>"

fun find_map :: "('a \<Rightarrow> 'b option) \<Rightarrow> 'a list \<Rightarrow> 'b option" where
  "find_map f [] = None"
| "find_map f (x # xs) = (case f x of Some y \<Rightarrow> Some y | None \<Rightarrow> find_map f xs)"

definition find_leg :: "subject_asset_delta list \<Rightarrow> string \<Rightarrow> bool \<Rightarrow> (string \<Rightarrow> bool) \<Rightarrow> flt option" where
  "find_leg grp target_mint acquisition wanted =
     find_map (\<lambda>d. if wanted (sd_mint d) \<and> sd_mint d \<noteq> target_mint
           \<and> (if acquisition then sd_delta_raw d < 0 else 0 < sd_delta_raw d)
         then Some (to_whole_units (unsigned_abs (sd_delta_raw d)) (sd_decimals d)) else None) grp"

definition quote_for :: "subject_asset_delta list \<Rightarrow> string \<Rightarrow> bool \<Rightarrow> quote_leg option" where
  "quote_for grp target_mint acquisition =
     (if 1 < length (filter (\<lambda>d. \<not> is_reference_asset (sd_mint d)
            \<and> (if acquisition then 0 < sd_delta_raw d else sd_delta_raw d < 0)) grp)
      then None
      else let find = find_leg grp target_mint acquisition in
        (case find (\<lambda>mint. mint = NATIVE_SOL_SENTINEL) of
           Some amount \<Rightarrow> Some \<lparr>ql_asset = QuoteSol, ql_amount = amount\<rparr>
         | None \<Rightarrow>
           (case find is_native_asset of
              Some amount \<Rightarrow> Some \<lparr>ql_asset = QuoteSol, ql_amount = amount\<rparr>
            | None \<Rightarrow> map_option (\<lambda>amount. \<lparr>ql_asset = QuoteUsd, ql_amount = amount\<rparr>) (find is_stable_asset))))"

section \<open>A round while it is built\<close>

record round_acc =
  rd_mint :: string
  rd_decimals :: u8
  rd_round_key :: string
  rd_opened_at :: "i64 option"
  rd_closed_at :: "i64 option"
  rd_balance :: i128
  rd_total_acquired :: i128
  rd_total_disposed :: i128
  rd_entry_count :: u32
  rd_exit_count :: u32
  rd_quote_asset :: "quote_asset option"
  rd_invested :: flt
  rd_held_cost :: held_cost
  rd_average_price :: "flt option"
  rd_realized_proceeds :: flt
  rd_realized_cost :: flt
  rd_priced_disposed :: flt
  rd_basis_complete :: bool
  rd_history_complete :: bool
  rd_proceeds_complete :: bool
  rd_entry_signature :: "string option"
  rd_exit_signature :: "string option"
  rd_events :: "ledger_event list"

definition grounded :: "subject_asset_delta \<Rightarrow> string \<Rightarrow> round_acc" where
  "grounded delta round_key = \<lparr>
     rd_mint = sd_mint delta, rd_decimals = sd_decimals delta, rd_round_key = round_key,
     rd_opened_at = sd_block_time delta, rd_closed_at = None, rd_balance = 0, rd_total_acquired = 0,
     rd_total_disposed = 0, rd_entry_count = 0, rd_exit_count = 0, rd_quote_asset = None, rd_invested = Fin 0,
     rd_held_cost = held_cost_new, rd_average_price = None, rd_realized_proceeds = Fin 0, rd_realized_cost = Fin 0,
     rd_priced_disposed = Fin 0, rd_basis_complete = True, rd_history_complete = True, rd_proceeds_complete = True,
     rd_entry_signature = Some (sd_signature delta), rd_exit_signature = None, rd_events = []\<rparr>"

definition i128_of_u128 :: "u128 \<Rightarrow> i128 option" where
  "i128_of_u128 v = (if unat v < 2 ^ 127 then Some (uint v) else None)"

definition checked_i128 :: "int \<Rightarrow> i128 option" where
  "checked_i128 v = (if in_i128 v then Some v else None)"

definition genesis :: "subject_asset_delta \<Rightarrow> string \<Rightarrow> round_acc" where
  "genesis delta round_key =
     (let opening_balance = Option.bind (sd_before_raw delta) i128_of_u128;
          r = (grounded delta round_key)\<lparr>rd_opened_at := None, rd_entry_signature := None,
                rd_basis_complete := False, rd_history_complete := False\<rparr>
      in case opening_balance of
           Some balance \<Rightarrow> r\<lparr>rd_balance := balance, rd_total_acquired := balance\<rparr>
         | None \<Rightarrow> r)"

definition incomplete :: "round_acc \<Rightarrow> round_acc" where
  "incomplete r = r\<lparr>rd_history_complete := False, rd_basis_complete := False\<rparr>"

definition reconcile_before :: "subject_asset_delta \<Rightarrow> round_acc \<Rightarrow> round_acc" where
  "reconcile_before delta r =
     (case Option.bind (sd_before_raw delta) i128_of_u128 of
        None \<Rightarrow> incomplete r
      | Some before \<Rightarrow>
          if before \<noteq> rd_balance r
          then incomplete (r\<lparr>rd_balance := before, rd_total_acquired := max (rd_total_acquired r) before\<rparr>)
          else r)"

definition accept_quote :: "quote_leg \<Rightarrow> round_acc \<Rightarrow> bool \<times> round_acc" where
  "accept_quote leg r =
     (if rd_quote_asset r \<noteq> None \<and> rd_quote_asset r \<noteq> Some (ql_asset leg)
      then (False, r\<lparr>rd_basis_complete := False, rd_proceeds_complete := False\<rparr>)
      else let r = r\<lparr>rd_quote_asset := Some (ql_asset leg)\<rparr> in
        if ql_asset leg \<noteq> QuoteSol then (False, r\<lparr>rd_basis_complete := False\<rparr>) else (True, r))"

definition add_acquired :: "i128 \<Rightarrow> round_acc \<Rightarrow> round_acc" where
  "add_acquired amount_raw r =
     (case checked_i128 (rd_total_acquired r + amount_raw) of
        Some v \<Rightarrow> r\<lparr>rd_total_acquired := v\<rparr> | None \<Rightarrow> incomplete r)"

definition add_disposed :: "i128 \<Rightarrow> round_acc \<Rightarrow> round_acc" where
  "add_disposed amount_raw r =
     (case checked_i128 (rd_total_disposed r + amount_raw) of
        Some v \<Rightarrow> r\<lparr>rd_total_disposed := v\<rparr> | None \<Rightarrow> incomplete r)"

text \<open>What the quote of an acquisition adds to the basis, and the price it gives.\<close>

definition price_acquisition :: "quote_leg option \<Rightarrow> bool \<Rightarrow> flt \<Rightarrow> i128 \<Rightarrow> round_acc \<Rightarrow> flt option \<times> round_acc" where
  "price_acquisition quote traded amount after r =
     (case quote of
        Some leg \<Rightarrow>
          let (accepted, r) = accept_quote leg r in
          if accepted \<and> flt_lt (Fin DUST) amount then
            let cost = acquire (ql_amount leg) (rd_held_cost r) in
            (Some (flt_div (ql_amount leg) amount),
             r\<lparr>rd_invested := flt_add (rd_invested r) (ql_amount leg), rd_held_cost := cost,
               rd_average_price := held_average (to_whole_units (unsigned_abs (max after 0)) (rd_decimals r)) cost\<rparr>)
          else (None, r)
      | None \<Rightarrow> (None, if traded then r\<lparr>rd_basis_complete := False\<rparr> else r))"

definition count_entry :: "bool \<Rightarrow> round_acc \<Rightarrow> round_acc" where
  "count_entry traded r =
     (if traded then r\<lparr>rd_entry_count := saturating_add (rd_entry_count r) 1\<rparr> else r\<lparr>rd_basis_complete := False\<rparr>)"

definition note_opening :: "subject_asset_delta \<Rightarrow> i128 \<Rightarrow> ledger_event_kind \<Rightarrow> round_acc \<Rightarrow> round_acc" where
  "note_opening delta before kind r =
     (let r = (if rd_entry_signature r = None \<and> kind = LedgerEntry
               then r\<lparr>rd_entry_signature := Some (sd_signature delta)\<rparr> else r)
      in if rd_opened_at r = None \<and> before \<le> 0 then r\<lparr>rd_opened_at := sd_block_time delta\<rparr> else r)"

definition push_event :: "subject_asset_delta \<Rightarrow> ledger_event_kind \<Rightarrow> u128 \<Rightarrow> i128 \<Rightarrow> quote_leg option \<Rightarrow> flt option \<Rightarrow>
    round_acc \<Rightarrow> round_acc" where
  "push_event delta kind exact after quote price_native r =
     r\<lparr>rd_events := rd_events r @ [\<lparr>le_signature = sd_signature delta, le_slot = sd_slot delta,
         le_block_time = sd_block_time delta, le_kind = kind, le_amount = to_whole_units exact (rd_decimals r),
         le_amount_raw = exact, le_balance_after = to_whole_units (unsigned_abs after) (rd_decimals r),
         le_quote = quote, le_price_native = price_native, le_venue = sd_venue delta\<rparr>]\<rparr>"

definition apply_acquisition :: "subject_asset_delta list \<Rightarrow> subject_asset_delta \<Rightarrow> i128 \<Rightarrow> i128 \<Rightarrow> round_acc \<Rightarrow> round_acc" where
  "apply_acquisition grp delta before after r =
     (let amount_raw = sd_delta_raw delta;
          traded = (sd_kind delta = DeltaTrade);
          kind = (if traded then (if before \<le> 0 then LedgerEntry else LedgerAdd) else LedgerReceive);
          r = note_opening delta before kind (add_acquired amount_raw (count_entry traded r));
          exact = unsigned_abs amount_raw;
          quote = (if traded then quote_for grp (sd_mint delta) True else None);
          (price_native, r) = price_acquisition quote traded (to_whole_units exact (rd_decimals r)) after r
      in push_event delta kind exact after quote price_native r)"

text \<open>What the quote of a traded disposal adds to the proceeds, and the price it gives.\<close>

definition price_disposal :: "quote_leg option \<Rightarrow> flt \<Rightarrow> flt \<Rightarrow> round_acc \<Rightarrow> flt option \<times> round_acc" where
  "price_disposal quote allocated_basis amount r =
     (case quote of
        Some leg \<Rightarrow>
          if ql_asset leg = QuoteSol \<and> rd_quote_asset r \<noteq> Some QuoteUsd then
            (if flt_lt (Fin DUST) amount then Some (flt_div (ql_amount leg) amount) else None,
             r\<lparr>rd_realized_proceeds := flt_add (rd_realized_proceeds r) (ql_amount leg),
               rd_realized_cost := flt_add (rd_realized_cost r) allocated_basis,
               rd_priced_disposed := flt_add (rd_priced_disposed r) amount\<rparr>)
          else (None, r\<lparr>rd_proceeds_complete := False\<rparr>)
      | None \<Rightarrow> (None, r\<lparr>rd_proceeds_complete := False\<rparr>))"

definition count_exit :: "bool \<Rightarrow> round_acc \<Rightarrow> round_acc" where
  "count_exit traded r =
     (if traded then r\<lparr>rd_exit_count := saturating_add (rd_exit_count r) 1\<rparr> else r\<lparr>rd_proceeds_complete := False\<rparr>)"

definition note_closing :: "subject_asset_delta \<Rightarrow> bool \<Rightarrow> round_acc \<Rightarrow> round_acc" where
  "note_closing delta closed_by_trade r =
     (if closed_by_trade then r\<lparr>rd_exit_signature := Some (sd_signature delta)\<rparr> else r)"

definition release_basis :: "i128 \<Rightarrow> i128 \<Rightarrow> round_acc \<Rightarrow> flt \<times> round_acc" where
  "release_basis before amount_raw r =
     (if 0 < before
      then let (released, cost) = release (Fin (real_of_int amount_raw / real_of_int before)) (rd_held_cost r)
           in (released, r\<lparr>rd_held_cost := cost\<rparr>)
      else (Fin 0, incomplete r))"

definition disposed_amount :: "i128 \<Rightarrow> i128 \<Rightarrow> i128" where
  "disposed_amount before delta_raw = (if 0 < before then min (- delta_raw) before else - delta_raw)"

definition apply_disposal :: "subject_asset_delta list \<Rightarrow> subject_asset_delta \<Rightarrow> i128 \<Rightarrow> i128 \<Rightarrow> round_acc \<Rightarrow> round_acc" where
  "apply_disposal grp delta before after r =
     (let amount_raw = disposed_amount before (sd_delta_raw delta);
          traded = (sd_kind delta = DeltaTrade);
          closing = (after \<le> 0);
          kind = (if traded then (if closing then LedgerExit else LedgerPartialExit) else LedgerSend);
          r = note_closing delta (closing \<and> traded) (add_disposed amount_raw (count_exit traded r));
          (allocated_basis, r) = release_basis before amount_raw r;
          exact = unsigned_abs amount_raw;
          quote = (if traded then quote_for grp (sd_mint delta) False else None);
          (price_native, r) = (if traded
             then price_disposal quote allocated_basis (to_whole_units exact (rd_decimals r)) r else (None, r));
          r = push_event delta kind exact after quote price_native r
      in if closing then r\<lparr>rd_held_cost := clear (rd_held_cost r)\<rparr> else r)"

definition apply_movement :: "subject_asset_delta list \<Rightarrow> subject_asset_delta \<Rightarrow> round_acc \<Rightarrow> round_acc" where
  "apply_movement grp delta r =
     (let r = (if rd_decimals r = 0 \<and> sd_decimals delta \<noteq> 0 then r\<lparr>rd_decimals := sd_decimals delta\<rparr> else r);
          r = reconcile_before delta r;
          before = max (rd_balance r) 0;
          reported_after = Option.bind (sd_after_raw delta) i128_of_u128
      in case (checked_i128 (before + sd_delta_raw delta), checked_i128 (- sd_delta_raw delta)) of
           (Some moved, Some _) \<Rightarrow>
             let computed_after = max moved 0;
                 after = unwrap_or reported_after computed_after;
                 r = (if reported_after \<noteq> Some computed_after then incomplete r else r);
                 r = (if 0 < sd_delta_raw delta then apply_acquisition grp delta before after r
                      else apply_disposal grp delta before after r);
                 r = r\<lparr>rd_balance := after\<rparr>
             in if after \<le> 0 then r\<lparr>rd_closed_at := sd_block_time delta\<rparr> else r
         | _ \<Rightarrow> incomplete r)"

definition finish :: "bool \<Rightarrow> round_acc \<Rightarrow> ledger_round" where
  "finish still_open r =
     (let basis_complete = (rd_basis_complete r \<and> rd_quote_asset r = Some QuoteSol \<and> 0 < rd_entry_count r);
          average_entry_price_native = (if basis_complete then rd_average_price r else None);
          average_exit_price_native = (if rd_proceeds_complete r \<and> flt_lt (Fin DUST) (rd_priced_disposed r)
            then Some (flt_div (rd_realized_proceeds r) (rd_priced_disposed r)) else None);
          realized_pnl_native = (if basis_complete \<and> rd_proceeds_complete r \<and> 0 < rd_exit_count r
            then Some (flt_sub (rd_realized_proceeds r) (rd_realized_cost r)) else None);
          r = (if \<not> basis_complete then r\<lparr>rd_invested := Fin 0, rd_held_cost := clear (rd_held_cost r)\<rparr> else r)
      in \<lparr>lr_mint = rd_mint r, lr_decimals = rd_decimals r, lr_round_key = rd_round_key r,
          lr_opened_at = rd_opened_at r, lr_closed_at = (if still_open then None else rd_closed_at r),
          lr_is_open = still_open, lr_balance_raw = unsigned_abs (max (rd_balance r) 0),
          lr_total_acquired_raw = unsigned_abs (max (rd_total_acquired r) 0),
          lr_total_disposed_raw = unsigned_abs (max (rd_total_disposed r) 0),
          lr_entry_count = rd_entry_count r, lr_exit_count = rd_exit_count r,
          lr_invested_native = rd_invested r, lr_remaining_basis_native = hc_cost (rd_held_cost r),
          lr_realized_proceeds_native = rd_realized_proceeds r, lr_realized_cost_native = rd_realized_cost r,
          lr_average_entry_price_native = average_entry_price_native,
          lr_average_exit_price_native = average_exit_price_native,
          lr_realized_pnl_native = realized_pnl_native, lr_basis_complete = basis_complete,
          lr_history_complete = rd_history_complete r, lr_entry_signature = rd_entry_signature r,
          lr_exit_signature = rd_exit_signature r, lr_events = rd_events r\<rparr>)"

section \<open>The reduction\<close>

record ledger_state =
  lst_open :: "(string \<times> round_acc) list"
  lst_finished :: "ledger_round list"
  lst_genesis_used :: "string list"

definition remove_open :: "string \<Rightarrow> (string \<times> round_acc) list \<Rightarrow> (string \<times> round_acc) list" where
  "remove_open mint rounds = filter (\<lambda>(m, _). m \<noteq> mint) rounds"

definition insert_open :: "string \<Rightarrow> round_acc \<Rightarrow> (string \<times> round_acc) list \<Rightarrow> (string \<times> round_acc) list" where
  "insert_open mint r rounds = remove_open mint rounds @ [(mint, r)]"

text \<open>The first half of \<open>apply_delta\<close>: the round the movement belongs to is open.\<close>

definition open_round :: "subject_asset_delta \<Rightarrow> ledger_state \<Rightarrow> ledger_state" where
  "open_round delta s =
     (let mint = sd_mint delta in
      if 0 < sd_delta_raw delta \<and> sd_before_raw delta = Some 0 then
        let finished = (case map_of (lst_open s) mint of
              Some stale \<Rightarrow>
                let r = finish False stale in
                lst_finished s @ [if 0 < rd_balance stale then r\<lparr>lr_history_complete := False, lr_basis_complete := False\<rparr> else r]
            | None \<Rightarrow> lst_finished s)
        in s\<lparr>lst_finished := finished,
             lst_open := insert_open mint (grounded delta (sd_signature delta @ '':'' @ mint)) (lst_open s)\<rparr>
      else if map_of (lst_open s) mint = None then
        let fresh = (mint \<notin> set (lst_genesis_used s));
            round_key = (if fresh then ''genesis:'' @ mint else ''genesis:'' @ sd_signature delta @ '':'' @ mint)
        in s\<lparr>lst_genesis_used := List.insert mint (lst_genesis_used s),
             lst_open := insert_open mint (genesis delta round_key) (lst_open s)\<rparr>
      else s)"

definition apply_delta :: "subject_asset_delta list \<Rightarrow> subject_asset_delta \<Rightarrow> ledger_state \<Rightarrow> ledger_state" where
  "apply_delta grp delta s =
     (let s = open_round delta s; mint = sd_mint delta in
      case map_of (lst_open s) mint of
        None \<Rightarrow> s
      | Some r \<Rightarrow>
          let r = apply_movement grp delta r in
          if rd_balance r \<le> 0
          then s\<lparr>lst_open := remove_open mint (lst_open s), lst_finished := lst_finished s @ [finish False r]\<rparr>
          else s\<lparr>lst_open := map (\<lambda>(m, q). (m, if m = mint then r else q)) (lst_open s)\<rparr>)"

fun apply_group :: "subject_asset_delta list \<Rightarrow> subject_asset_delta list \<Rightarrow> ledger_state \<Rightarrow> ledger_state" where
  "apply_group grp [] s = s"
| "apply_group grp (delta # rest) s =
     (if is_reference_asset (sd_mint delta) \<or> sd_delta_raw delta = 0 then apply_group grp rest s
      else apply_group grp rest (apply_delta grp delta s))"

text \<open>One transaction is one run of equal signatures.\<close>

function apply_groups :: "subject_asset_delta list \<Rightarrow> ledger_state \<Rightarrow> ledger_state" where
  "apply_groups [] s = s"
| "apply_groups (delta # rest) s =
     (let same = (\<lambda>d. sd_signature d = sd_signature delta);
          grp = delta # takeWhile same rest
      in apply_groups (dropWhile same rest) (apply_group grp grp s))"
  by pat_completeness auto
termination by (relation "measure (length \<circ> fst)") (simp_all add: length_dropWhile_le le_imp_less_Suc)

definition delta_order :: "subject_asset_delta \<Rightarrow> bool \<times> u64 \<times> u32 \<times> string \<times> string" where
  "delta_order d = (sd_slot d = None, unwrap_or (sd_slot d) 0, sd_tx_index d, sd_signature d, sd_mint d)"

definition round_order :: "ledger_round \<Rightarrow> bool \<times> i64 \<times> string \<times> string" where
  "round_order r = (lr_opened_at r \<noteq> None, unwrap_or (lr_opened_at r) 0, lr_mint r, lr_round_key r)"

definition reduce_rounds :: "subject_asset_delta list \<Rightarrow> ledger_round list" where
  "reduce_rounds deltas =
     (let ordered = sort_key delta_order (filter sd_success deltas);
          s = apply_groups ordered \<lparr>lst_open = [], lst_finished = [], lst_genesis_used = []\<rparr>
      in sort_key round_order (lst_finished s @ map (\<lambda>(_, r). finish True r) (lst_open s)))"

section \<open>Reconciliation with the wallet\<close>

definition held_on_chain :: "wallet_holding list \<Rightarrow> string \<Rightarrow> u128" where
  "held_on_chain holdings mint = unwrap_or (map_of (rev (map (\<lambda>h. (wh_mint h, wh_amount_raw h)) holdings)) mint) 0"

definition newer_than_read :: "u64 option \<Rightarrow> ledger_round \<Rightarrow> bool" where
  "newer_than_read read_slot r \<longleftrightarrow>
     (case (read_slot, last_slot r) of (Some read, Some slot) \<Rightarrow> read < slot | _ \<Rightarrow> False)"

definition reconcile_round :: "wallet_holding list \<Rightarrow> u64 option \<Rightarrow> ledger_round \<Rightarrow> ledger_round" where
  "reconcile_round holdings read_slot r =
     (if \<not> lr_is_open r \<or> newer_than_read read_slot r then r
      else let actual = held_on_chain holdings (lr_mint r) in
        if actual = lr_balance_raw r then r
        else let r = r\<lparr>lr_balance_raw := actual, lr_history_complete := False, lr_basis_complete := False,
                       lr_realized_pnl_native := None, lr_average_entry_price_native := None\<rparr>
             in if actual = 0 then r\<lparr>lr_is_open := False, lr_remaining_basis_native := Fin 0\<rparr> else r)"

definition genesis_holding :: "string \<Rightarrow> wallet_holding \<Rightarrow> ledger_round" where
  "genesis_holding round_key h = \<lparr>lr_mint = wh_mint h, lr_decimals = wh_decimals h, lr_round_key = round_key,
     lr_opened_at = None, lr_closed_at = None, lr_is_open = True, lr_balance_raw = wh_amount_raw h,
     lr_total_acquired_raw = wh_amount_raw h, lr_total_disposed_raw = 0, lr_entry_count = 0, lr_exit_count = 0,
     lr_invested_native = Fin 0, lr_remaining_basis_native = Fin 0, lr_realized_proceeds_native = Fin 0,
     lr_realized_cost_native = Fin 0, lr_average_entry_price_native = None, lr_average_exit_price_native = None,
     lr_realized_pnl_native = None, lr_basis_complete = False, lr_history_complete = False,
     lr_entry_signature = None, lr_exit_signature = None, lr_events = []\<rparr>"

definition reconcile_with_wallet :: "ledger_round list \<Rightarrow> wallet_holding list \<Rightarrow> u64 option \<Rightarrow> ledger_round list" where
  "reconcile_with_wallet rounds holdings read_slot =
     (let rounds = map (reconcile_round holdings read_slot) rounds;
          known = map lr_mint (filter lr_is_open rounds);
          taken = map lr_round_key rounds;
          missing = filter (\<lambda>h. 0 < wh_amount_raw h \<and> wh_mint h \<notin> set known \<and> \<not> is_reference_asset (wh_mint h)) holdings
      in rounds @ map (\<lambda>h.
           let bare = ''genesis:'' @ wh_mint h in
           genesis_holding (if bare \<in> set taken then ''genesis:holding:'' @ wh_mint h else bare) h) missing)"

section \<open>The books of a round\<close>

text \<open>
  What holds of a round while it is built, when its balance is \<open>b\<close>: its totals are in range, a
  complete basis needs a complete history, and a complete history balances.
\<close>

definition books :: "int \<Rightarrow> round_acc \<Rightarrow> bool" where
  "books b r \<longleftrightarrow> 0 \<le> rd_total_acquired r \<and> rd_total_acquired r < 2 ^ 127 \<and> 0 \<le> rd_total_disposed r
     \<and> rd_total_disposed r < 2 ^ 127 \<and> (rd_basis_complete r \<longrightarrow> rd_history_complete r)
     \<and> (rd_history_complete r \<longrightarrow> b = rd_total_acquired r - rd_total_disposed r)"

lemma books_stages:
  "books b r \<Longrightarrow> books b' (incomplete r)" "books b r \<Longrightarrow> books b (count_entry traded r)"
  "books b r \<Longrightarrow> books b (note_opening d before kind r)" "books b r \<Longrightarrow> books b (push_event d kind exact after quote price r)"
  "books b r \<Longrightarrow> books b (count_exit traded r)" "books b r \<Longrightarrow> books b (note_closing d c r)"
  "books b r \<Longrightarrow> books b (snd (release_basis before amount r))"
  "books b r \<Longrightarrow> books b (snd (price_disposal quote basis whole_amount r))"
  "books b r \<Longrightarrow> books b (snd (price_acquisition quote traded whole_amount after r))"
  by (auto simp: books_def incomplete_def count_entry_def note_opening_def push_event_def count_exit_def note_closing_def
      release_basis_def price_disposal_def price_acquisition_def accept_quote_def Let_def split: option.split prod.split)

lemma books_add_acquired: "books b r \<Longrightarrow> 0 \<le> n \<Longrightarrow> books (b + n) (add_acquired n r)"
  by (auto simp: books_def add_acquired_def checked_i128_def in_i128_def incomplete_def)

lemma books_add_disposed: "books b r \<Longrightarrow> 0 \<le> n \<Longrightarrow> books (b - n) (add_disposed n r)"
  by (auto simp: books_def add_disposed_def checked_i128_def in_i128_def incomplete_def)

lemma books_held_cost: "books b (r\<lparr>rd_held_cost := c\<rparr>) = books b r" "books b (r\<lparr>rd_balance := x\<rparr>) = books b r"
  "books b (r\<lparr>rd_closed_at := t\<rparr>) = books b r" "books b (r\<lparr>rd_decimals := n\<rparr>) = books b r"
  by (simp_all add: books_def)

lemma books_acquisition:
  assumes "books b r" and "0 < sd_delta_raw d"
  shows "books (b + sd_delta_raw d) (apply_acquisition grp d before after r)"
  using assms unfolding apply_acquisition_def Let_def case_prod_beta
  by (intro books_stages books_add_acquired) simp_all

lemma books_disposal:
  assumes "books b r" and "sd_delta_raw d < 0"
  shows "books (b - disposed_amount before (sd_delta_raw d)) (apply_disposal grp d before after r)"
proof -
  have "0 \<le> disposed_amount before (sd_delta_raw d)" using assms(2) by (simp add: disposed_amount_def)
  then show ?thesis
    unfolding apply_disposal_def Let_def case_prod_beta
    by (auto simp: books_held_cost intro!: books_stages books_add_disposed assms)
qed

text \<open>What the events of a round paid for its acquisitions, and what its disposals received.\<close>

fun quote_value :: "quote_leg option \<Rightarrow> real" where
  "quote_value (Some leg) = (case ql_amount leg of Fin a \<Rightarrow> a | _ \<Rightarrow> 0)"
| "quote_value None = 0"

definition event_paid :: "ledger_event \<Rightarrow> real" where
  "event_paid e = (if is_acquisition (le_kind e) \<and> le_price_native e \<noteq> None then quote_value (le_quote e) else 0)"

definition event_received :: "ledger_event \<Rightarrow> real" where
  "event_received e = (if is_acquisition (le_kind e) then 0 else quote_value (le_quote e))"

text \<open>
  The money of a round while it is built: \<open>spent\<close> and \<open>got\<close> are what the movement in hand has added
  and its event has not yet recorded, \<open>released\<close> is basis taken from the holding and not yet
  charged to a sale.
\<close>

definition money :: "real \<Rightarrow> real \<Rightarrow> real \<Rightarrow> round_acc \<Rightarrow> bool" where
  "money spent got released r \<longleftrightarrow> (\<exists>i c k p. rd_invested r = Fin i \<and> rd_held_cost r = \<lparr>hc_cost = Fin c\<rparr>
     \<and> rd_realized_cost r = Fin k \<and> rd_realized_proceeds r = Fin p \<and> 0 \<le> c
     \<and> i = sum_list (map event_paid (rd_events r)) + spent
     \<and> (rd_basis_complete r \<and> rd_proceeds_complete r \<longrightarrow> i = k + c + released)
     \<and> (rd_proceeds_complete r \<longrightarrow> p = sum_list (map event_received (rd_events r)) + got))"

lemma money_stages:
  "money s g l r \<Longrightarrow> money s g l (incomplete r)" "money s g l r \<Longrightarrow> money s g l (count_entry traded r)"
  "money s g l r \<Longrightarrow> money s g l (note_opening d before kind r)" "money s g l r \<Longrightarrow> money s g l (count_exit traded r)"
  "money s g l r \<Longrightarrow> money s g l (note_closing d c r)" "money s g l r \<Longrightarrow> money s g l (add_acquired n r)"
  "money s g l r \<Longrightarrow> money s g l (add_disposed n r)"
  by (auto simp: money_def incomplete_def count_entry_def note_opening_def count_exit_def note_closing_def
      add_acquired_def add_disposed_def Let_def split: option.split)

lemma find_map_Some: "find_map f xs = Some y \<Longrightarrow> \<exists>x \<in> set xs. f x = Some y"
  by (induction xs) (auto split: option.splits)

lemma find_leg_amount: "find_leg grp mint acquisition wanted = Some v \<Longrightarrow> \<exists>a \<ge> 0. v = Fin a"
  unfolding find_leg_def
  by (drule find_map_Some) (auto simp: to_whole_units_whole split: if_splits)

lemma quote_for_amount: "quote_for grp mint acquisition = Some leg \<Longrightarrow> \<exists>a \<ge> 0. ql_amount leg = Fin a"
  by (auto simp: quote_for_def Let_def dest: find_leg_amount split: if_splits option.splits)

lemma money_push_acquisition:
  assumes "money (if price \<noteq> None then quote_value quote else 0) 0 l r" and "is_acquisition kind"
  shows "money 0 0 l (push_event d kind exact after quote price r)"
  using assms by (auto simp: money_def push_event_def event_paid_def event_received_def)

lemma money_push_disposal:
  assumes "money 0 (quote_value quote) l r" and "\<not> is_acquisition kind"
  shows "money 0 0 l (push_event d kind exact after quote price r)"
  using assms by (auto simp: money_def push_event_def event_paid_def event_received_def)

lemma money_price_acquisition:
  assumes "money 0 0 0 r" and "\<And>leg. quote = Some leg \<Longrightarrow> \<exists>a \<ge> 0. ql_amount leg = Fin a"
    and "price_acquisition quote traded amount after r = (price, q)"
  shows "money (if price \<noteq> None then quote_value quote else 0) 0 0 q"
proof (cases quote)
  case None
  then show ?thesis using assms(1,3) by (auto simp: price_acquisition_def money_def)
next
  case (Some leg)
  obtain a where a: "ql_amount leg = Fin a" "0 \<le> a" using assms(2) Some by blast
  show ?thesis using assms(1,3) Some a
    by (auto simp: price_acquisition_def accept_quote_def acquire_def Let_def money_def split: if_splits)
qed

lemma money_acquisition:
  assumes "money 0 0 0 r"
  shows "money 0 0 0 (apply_acquisition grp d before after r)"
proof -
  let ?t = "sd_kind d = DeltaTrade"
  define kind where "kind = (if ?t then (if before \<le> 0 then LedgerEntry else LedgerAdd) else LedgerReceive)"
  define quote where "quote = (if ?t then quote_for grp (sd_mint d) True else None)"
  define q where "q = note_opening d before kind (add_acquired (sd_delta_raw d) (count_entry ?t r))"
  obtain price q' where priced: "price_acquisition quote ?t (to_whole_units (unsigned_abs (sd_delta_raw d)) (rd_decimals q)) after q
      = (price, q')" by fastforce
  have "money 0 0 0 q" unfolding q_def by (intro money_stages assms)
  then have "money (if price \<noteq> None then quote_value quote else 0) 0 0 q'"
    by (rule money_price_acquisition [OF _ _ priced]) (auto simp: quote_def dest: quote_for_amount split: if_splits)
  then have "money 0 0 0 (push_event d kind (unsigned_abs (sd_delta_raw d)) after quote price q')"
    by (rule money_push_acquisition) (simp add: kind_def is_acquisition_def)
  then show ?thesis
    using priced unfolding apply_acquisition_def Let_def kind_def quote_def q_def by simp
qed

lemma money_vacuous: "money s g l r \<Longrightarrow> \<not> rd_proceeds_complete r \<Longrightarrow> money s g' l' r"
  by (auto simp: money_def)

lemma money_release:
  assumes "money 0 0 0 r" and "0 \<le> n" and "0 < before \<Longrightarrow> n \<le> before" and "release_basis before n r = (basis, q)"
  shows "\<exists>l. basis = Fin l \<and> money 0 0 l q" and "n = before \<Longrightarrow> 0 < before \<Longrightarrow> rd_held_cost q = \<lparr>hc_cost = Fin 0\<rparr>"
    and "rd_basis_complete q \<Longrightarrow> 0 < before \<and> rd_basis_complete r"
proof -
  obtain c where c: "rd_held_cost r = \<lparr>hc_cost = Fin c\<rparr>" "0 \<le> c" using assms(1) by (auto simp: money_def)
  have f: "0 \<le> real_of_int n / real_of_int before" "real_of_int n / real_of_int before \<le> 1" if "0 < before"
    using that assms(2,3) by simp_all
  show "\<exists>l. basis = Fin l \<and> money 0 0 l q"
  proof (cases "0 < before")
    case True
    let ?f = "real_of_int n / real_of_int before"
    have "0 \<le> c * (1 - ?f)" using c f [OF True] by simp
    moreover have "basis = Fin (c * ?f)" "q = r\<lparr>rd_held_cost := \<lparr>hc_cost = Fin (c * (1 - ?f))\<rparr>\<rparr>"
      using assms(4) True c f [OF True] by (simp_all add: release_basis_def release_share)
    moreover have "c * (1 - ?f) + c * ?f = c" by (simp add: algebra_simps)
    ultimately show ?thesis using assms(1) c by (auto simp: money_def)
  next
    case False
    then show ?thesis using assms(1,4) money_stages(1) [OF assms(1)] by (auto simp: release_basis_def)
  qed
  show "n = before \<Longrightarrow> 0 < before \<Longrightarrow> rd_held_cost q = \<lparr>hc_cost = Fin 0\<rparr>"
    using assms(4) c by (auto simp: release_basis_def release_share)
  show "rd_basis_complete q \<Longrightarrow> 0 < before \<and> rd_basis_complete r"
    using assms(4) by (auto simp: release_basis_def incomplete_def split: if_splits prod.splits)
qed

lemma money_price_disposal:
  assumes "money 0 0 l r" and "\<And>leg. quote = Some leg \<Longrightarrow> \<exists>a \<ge> 0. ql_amount leg = Fin a"
    and "price_disposal quote (Fin l) amount r = (price, q)"
  shows "money 0 (quote_value quote) 0 q" and "rd_held_cost q = rd_held_cost r" and "rd_basis_complete q = rd_basis_complete r"
  using assms by (auto simp: price_disposal_def money_def split: option.splits if_splits)

lemma money_disposal:
  assumes "money 0 0 0 r" and "sd_delta_raw d < 0" and "rd_basis_complete r \<Longrightarrow> after \<le> 0 \<Longrightarrow> before \<le> - sd_delta_raw d"
  shows "money 0 0 0 (apply_disposal grp d before after r)"
    and "after \<le> 0 \<Longrightarrow> rd_held_cost (apply_disposal grp d before after r) = \<lparr>hc_cost = Fin 0\<rparr>"
proof -
  let ?t = "sd_kind d = DeltaTrade" and ?n = "disposed_amount before (sd_delta_raw d)"
  define kind where "kind = (if ?t then (if after \<le> 0 then LedgerExit else LedgerPartialExit) else LedgerSend)"
  define quote where "quote = (if ?t then quote_for grp (sd_mint d) False else None)"
  define q where "q = note_closing d (after \<le> 0 \<and> ?t) (add_disposed ?n (count_exit ?t r))"
  obtain basis u where u: "release_basis before ?n q = (basis, u)" by fastforce
  obtain price v where v: "(if ?t then price_disposal quote basis (to_whole_units (unsigned_abs ?n) (rd_decimals u)) u
      else (None, u)) = (price, v)" by fastforce
  define w where "w = push_event d kind (unsigned_abs ?n) after quote price v"
  have result: "apply_disposal grp d before after r = (if after \<le> 0 then w\<lparr>rd_held_cost := clear (rd_held_cost w)\<rparr> else w)"
    using u v unfolding apply_disposal_def Let_def kind_def quote_def q_def w_def by simp
  have n: "0 \<le> ?n" "0 < before \<Longrightarrow> ?n \<le> before" using assms(2) by (auto simp: disposed_amount_def)
  have q: "money 0 0 0 q" unfolding q_def by (intro money_stages assms(1))
  have qb: "rd_basis_complete q \<Longrightarrow> rd_basis_complete r" "\<not> ?t \<Longrightarrow> \<not> rd_proceeds_complete q"
    by (auto simp: q_def note_closing_def add_disposed_def count_exit_def incomplete_def split: option.splits if_splits)
  obtain l where l: "basis = Fin l" "money 0 0 l u" using money_release(1) [OF q n u] by blast
  have uc: "rd_proceeds_complete u = rd_proceeds_complete q"
    using u by (auto simp: release_basis_def incomplete_def split: if_splits prod.splits)
  have w: "money 0 (quote_value quote) 0 v \<and> rd_held_cost v = rd_held_cost u \<and> rd_basis_complete v = rd_basis_complete u"
  proof (cases ?t)
    case True
    then have "price_disposal quote (Fin l) (to_whole_units (unsigned_abs ?n) (rd_decimals u)) u = (price, v)"
      using v l(1) by simp
    then show ?thesis
      using money_price_disposal [OF l(2)] quote_for_amount by (metis True quote_def)
  next
    case False
    then show ?thesis using v l(2) money_vacuous qb(2) uc by (auto simp: quote_def)
  qed
  then have mw: "money 0 0 0 w"
    unfolding w_def by (intro money_push_disposal) (auto simp: kind_def is_acquisition_def)
  have wc: "rd_held_cost w = rd_held_cost u" "rd_basis_complete w = rd_basis_complete u"
    using w by (simp_all add: w_def push_event_def)
  have "rd_held_cost w = \<lparr>hc_cost = Fin 0\<rparr>" if "after \<le> 0" "rd_basis_complete w"
  proof -
    have "0 < before" "rd_basis_complete r" using money_release(3) [OF q n u] that(2) wc(2) qb by auto
    then have "?n = before" using assms(3) that(1) by (simp add: disposed_amount_def)
    then show ?thesis using money_release(2) [OF q n u] \<open>0 < before\<close> wc(1) by simp
  qed
  then have "after \<le> 0 \<Longrightarrow> money 0 0 0 (w\<lparr>rd_held_cost := clear (rd_held_cost w)\<rparr>)"
    using mw by (auto simp: money_def clear_def)
  then show "money 0 0 0 (apply_disposal grp d before after r)" using mw by (simp add: result)
  show "after \<le> 0 \<Longrightarrow> rd_held_cost (apply_disposal grp d before after r) = \<lparr>hc_cost = Fin 0\<rparr>"
    by (simp add: result clear_def)
qed

text \<open>What holds of every round between two movements.\<close>

definition round_inv :: "round_acc \<Rightarrow> bool" where
  "round_inv r \<longleftrightarrow> books (rd_balance r) r \<and> money 0 0 0 r \<and> 0 \<le> rd_balance r \<and> rd_balance r < 2 ^ 127
     \<and> (rd_basis_complete r \<and> rd_balance r = 0 \<longrightarrow> rd_held_cost r = \<lparr>hc_cost = Fin 0\<rparr>)"

lemma grounded_inv: "round_inv (grounded d key)"
  by (simp add: round_inv_def grounded_def books_def money_def held_cost_new_def)

lemma i128_of_u128_range: "Option.bind v i128_of_u128 = Some n \<Longrightarrow> 0 \<le> n \<and> n < 2 ^ 127"
proof -
  assume "Option.bind v i128_of_u128 = Some n"
  then obtain w where "v = Some w" and w: "n = uint w" "unat w < 2 ^ 127"
    by (cases v) (auto simp: i128_of_u128_def split: if_splits)
  from w(2) have "int (unat w) < int (2 ^ 127)" by (simp only: of_nat_less_iff)
  then show ?thesis using w(1) by simp
qed

lemma genesis_inv: "round_inv (genesis d key)"
  using i128_of_u128_range [of "sd_before_raw d"]
  by (auto simp: round_inv_def genesis_def grounded_def books_def money_def held_cost_new_def Let_def split: option.splits)

lemma money_kept: "money s g l (r\<lparr>rd_balance := x\<rparr>) = money s g l r" "money s g l (r\<lparr>rd_closed_at := t\<rparr>) = money s g l r"
  "money s g l (r\<lparr>rd_total_acquired := x\<rparr>) = money s g l r" "money s g l (r\<lparr>rd_decimals := n\<rparr>) = money s g l r"
  "money s g l (r\<lparr>rd_history_complete := h\<rparr>) = money s g l r"
  by (simp_all add: money_def)

lemma reconcile_before_inv:
  assumes "round_inv r"
  shows "round_inv (reconcile_before d r)"
proof -
  have inc: "round_inv (incomplete (r\<lparr>rd_balance := n, rd_total_acquired := max (rd_total_acquired r) n\<rparr>))"
    if "0 \<le> n" "n < 2 ^ 127" for n
  proof -
    have "money 0 0 0 (incomplete (r\<lparr>rd_balance := n, rd_total_acquired := max (rd_total_acquired r) n\<rparr>))"
      using assms by (intro money_stages) (simp add: round_inv_def money_kept)
    then show ?thesis using assms that by (auto simp: round_inv_def books_def incomplete_def)
  qed
  have "round_inv (incomplete r)"
    using assms money_stages(1) [of 0 0 0 r] by (simp add: round_inv_def books_def incomplete_def)
  then show ?thesis
    using assms inc i128_of_u128_range [of "sd_before_raw d"] by (simp add: reconcile_before_def split: option.split)
qed

lemma books_at: "books b r \<Longrightarrow> (rd_history_complete r \<Longrightarrow> b = b') \<Longrightarrow> books b' r"
  by (auto simp: books_def)

lemma acquisition_history:
  "rd_history_complete (apply_acquisition grp d before after r) \<Longrightarrow> rd_history_complete r"
  by (auto simp: apply_acquisition_def push_event_def price_acquisition_def accept_quote_def note_opening_def add_acquired_def
      count_entry_def incomplete_def Let_def split: option.splits if_splits)

lemma disposal_history:
  assumes "rd_history_complete (apply_disposal grp d before after r)"
  shows "rd_history_complete r \<and> 0 < before"
proof -
  have released: "rd_history_complete (snd (release_basis before n q)) = (rd_history_complete q \<and> 0 < before)" for n q
    by (simp add: release_basis_def incomplete_def split: prod.split)
  have priced: "rd_history_complete (snd (price_disposal quote l amount q)) = rd_history_complete q" for quote l amount q
    by (simp add: price_disposal_def split: option.split)
  have noted: "rd_history_complete (note_closing d c (add_disposed n (count_exit t q))) \<Longrightarrow> rd_history_complete q" for c n t q
    by (auto simp: note_closing_def add_disposed_def count_exit_def incomplete_def split: option.splits if_splits)
  show ?thesis
    using assms unfolding apply_disposal_def push_event_def Let_def case_prod_beta
    by (cases "sd_kind d = DeltaTrade"; cases "after \<le> 0") (auto simp: released priced dest: noted)
qed

lemma movement_inv:
  assumes "round_inv r" and "sd_delta_raw d \<noteq> 0"
  shows "round_inv (apply_movement grp d r)"
proof -
  define r1 where "r1 = (if rd_decimals r = 0 \<and> sd_decimals d \<noteq> 0 then r\<lparr>rd_decimals := sd_decimals d\<rparr> else r)"
  define r2 where "r2 = reconcile_before d r1"
  have "round_inv r1" using assms(1) by (simp add: r1_def round_inv_def books_held_cost money_kept)
  then have r2: "round_inv r2" unfolding r2_def by (rule reconcile_before_inv)
  let ?before = "max (rd_balance r2) 0"
  have before: "?before = rd_balance r2" using r2 by (simp add: round_inv_def)
  show ?thesis
  proof (cases "in_i128 (?before + sd_delta_raw d) \<and> in_i128 (- sd_delta_raw d)")
    case False
    then have "apply_movement grp d r = incomplete r2"
      unfolding apply_movement_def Let_def r1_def [symmetric] r2_def [symmetric]
      by (auto simp: checked_i128_def split: option.splits)
    then show ?thesis
      using r2 money_stages(1) [of 0 0 0 r2] by (simp add: round_inv_def books_def incomplete_def)
  next
    case True
    let ?reported = "Option.bind (sd_after_raw d) i128_of_u128" and ?computed = "max (?before + sd_delta_raw d) 0"
    define after where "after = unwrap_or ?reported ?computed"
    define r3 where "r3 = (if ?reported \<noteq> Some ?computed then incomplete r2 else r2)"
    define r4 where "r4 = (if 0 < sd_delta_raw d then apply_acquisition grp d ?before after r3
      else apply_disposal grp d ?before after r3)"
    have result: "apply_movement grp d r = (if after \<le> 0 then r4\<lparr>rd_balance := after, rd_closed_at := sd_block_time d\<rparr>
        else r4\<lparr>rd_balance := after\<rparr>)"
      using True unfolding apply_movement_def Let_def r1_def [symmetric] r2_def [symmetric]
      by (simp add: checked_i128_def after_def r3_def r4_def)
    have range: "0 \<le> after" "after < 2 ^ 127"
      using i128_of_u128_range [of "sd_after_raw d"] True
      by (auto simp: after_def in_i128_def unwrap_or_def split: option.splits)
    have b3: "books ?before r3" and m3: "money 0 0 0 r3"
      using r2 books_stages(1) money_stages(1) by (auto simp: r3_def round_inv_def)
    have complete: "after = ?computed" if "rd_history_complete r3"
      using that by (auto simp: r3_def after_def incomplete_def split: if_splits)
    have hist: "rd_basis_complete r3 \<Longrightarrow> rd_history_complete r3" using b3 by (simp add: books_def)
    have "books after r4 \<and> money 0 0 0 r4 \<and> (rd_basis_complete r4 \<and> after = 0 \<longrightarrow> rd_held_cost r4 = \<lparr>hc_cost = Fin 0\<rparr>)"
    proof (cases "0 < sd_delta_raw d")
      case True
      then have r4: "r4 = apply_acquisition grp d ?before after r3" by (simp add: r4_def)
      have b: "books (?before + sd_delta_raw d) r4" and m: "money 0 0 0 r4"
        unfolding r4 using books_acquisition [OF b3 True] money_acquisition [OF m3] by auto
      have a: "rd_history_complete r4 \<Longrightarrow> ?before + sd_delta_raw d = after"
        using complete acquisition_history r4 True by fastforce
      have "rd_basis_complete r4 \<Longrightarrow> 0 < after" using a b True by (fastforce simp: books_def)
      then show ?thesis using books_at [OF b a] m by auto
    next
      case False
      then have neg: "sd_delta_raw d < 0" and r4: "r4 = apply_disposal grp d ?before after r3"
        using assms(2) by (simp_all add: r4_def)
      have b: "books (?before - disposed_amount ?before (sd_delta_raw d)) r4"
        unfolding r4 by (rule books_disposal [OF b3 neg])
      have a: "?before - disposed_amount ?before (sd_delta_raw d) = after" if "rd_history_complete r4"
        using complete disposal_history [OF that [unfolded r4]] by (auto simp: disposed_amount_def)
      have left: "rd_basis_complete r3 \<Longrightarrow> after \<le> 0 \<Longrightarrow> ?before \<le> - sd_delta_raw d"
        using complete hist by fastforce
      show ?thesis
        using books_at [OF b a] money_disposal [OF m3 neg left] range unfolding r4 by auto
    qed
    then show ?thesis using range by (auto simp: result round_inv_def books_held_cost money_kept)
  qed
qed

end
