(* ===== verification/Ledger_Rounds.thy ===== *)
theory Ledger_Rounds
  imports Wallet_Ledger
begin

text \<open>
  What the reduction of a wallet's history reports (\<open>reduce_rounds\<close> of \<open>src/positions/ledger/reducer.rs\<close>)
  and what its reconciliation with the wallet keeps (\<open>reconcile_with_wallet\<close>): a round with a complete
  history balances, the profit of a complete round is what its sales received less what its buys paid,
  no two rounds share a key, and reconciled rounds show exactly what the wallet holds.
\<close>

section \<open>The rounds of a history\<close>

text \<open>What the report of a round promises about amounts, and about money.\<close>

definition round_balances :: "ledger_round \<Rightarrow> bool" where
  "round_balances r \<longleftrightarrow> (lr_basis_complete r \<longrightarrow> lr_history_complete r) \<and> (lr_is_open r \<longrightarrow> 0 < lr_balance_raw r)
     \<and> (lr_history_complete r \<longrightarrow> unat (lr_balance_raw r) + unat (lr_total_disposed_raw r) = unat (lr_total_acquired_raw r)
         \<and> (\<not> lr_is_open r \<longrightarrow> lr_balance_raw r = 0))"

definition round_pays :: "ledger_round \<Rightarrow> bool" where
  "round_pays r \<longleftrightarrow> (lr_basis_complete r \<longrightarrow>
     (\<exists>c \<ge> 0. lr_remaining_basis_native r = Fin c \<and> (\<not> lr_is_open r \<longrightarrow> c = 0)
        \<and> lr_invested_native r = Fin (sum_list (map event_paid (lr_events r)))
        \<and> (\<forall>v. lr_realized_pnl_native r = Some v \<longrightarrow>
             v = Fin (sum_list (map event_received (lr_events r)) - (sum_list (map event_paid (lr_events r)) - c)))))"

lemma unat_unsigned_abs:
  assumes "0 \<le> v" and "v < 2 ^ 127"
  shows "unat (unsigned_abs v) = nat v"
  using assms by (simp add: unsigned_abs_def unat_eq_nat_uint unsigned_of_int take_bit_int_eq_self)

lemma finish_balances:
  assumes "round_inv r" and "still_open \<Longrightarrow> 0 < rd_balance r"
    and "\<not> still_open \<Longrightarrow> rd_history_complete r \<Longrightarrow> rd_balance r = 0"
  shows "round_balances (finish still_open r)"
proof -
  have range: "0 \<le> rd_balance r" "rd_balance r < 2 ^ 127" and b: "books (rd_balance r) r"
    using assms(1) by (simp_all add: round_inv_def)
  have n: "unat (unsigned_abs (rd_balance r)) = nat (rd_balance r)"
    "unat (unsigned_abs (rd_total_acquired r)) = nat (rd_total_acquired r)"
    "unat (unsigned_abs (rd_total_disposed r)) = nat (rd_total_disposed r)"
    using range b by (auto intro!: unat_unsigned_abs simp: books_def)
  have pos: "0 < unsigned_abs (rd_balance r)" if "0 < rd_balance r"
    using n(1) that by (simp add: word_less_nat_alt del: word_gt_0)
  have "unat (unsigned_abs (rd_balance r)) + unat (unsigned_abs (rd_total_disposed r)) = unat (unsigned_abs (rd_total_acquired r))"
    if "rd_history_complete r"
    using n b range that by (simp add: books_def nat_add_distrib [symmetric])
  then show ?thesis
    using b assms(2,3) range pos by (auto simp: round_balances_def finish_def Let_def books_def unsigned_abs_def)
qed

lemma finish_pays:
  assumes "round_inv r" and "\<not> still_open \<Longrightarrow> rd_basis_complete r \<Longrightarrow> rd_balance r = 0"
  shows "round_pays (finish still_open r)"
  using assms by (auto simp: round_pays_def finish_def Let_def round_inv_def money_def clear_def)

text \<open>Between two movements an open round holds something; while one is applied it may have been emptied.\<close>

definition reported :: "ledger_state \<Rightarrow> bool" where
  "reported s \<longleftrightarrow> (\<forall>r \<in> set (lst_finished s). round_balances r \<and> round_pays r)"

definition ledger_inv :: "ledger_state \<Rightarrow> bool" where
  "ledger_inv s \<longleftrightarrow> (\<forall>(m, r) \<in> set (lst_open s). round_inv r \<and> 0 < rd_balance r) \<and> reported s"

lemma stale_reported:
  assumes "round_inv r" and "0 < rd_balance r"
  shows "round_balances ((finish False r)\<lparr>lr_history_complete := False, lr_basis_complete := False\<rparr>)"
    and "round_pays ((finish False r)\<lparr>lr_history_complete := False, lr_basis_complete := False\<rparr>)"
  by (simp_all add: round_balances_def round_pays_def finish_def Let_def)

lemma open_round_inv:
  assumes "ledger_inv s"
  shows "reported (open_round d s) \<and> (\<forall>(m, r) \<in> set (lst_open (open_round d s)).
    round_inv r \<and> (m \<noteq> sd_mint d \<longrightarrow> 0 < rd_balance r))"
proof -
  have stale: "round_inv r \<and> 0 < rd_balance r" if "map_of (lst_open s) m = Some r" for m r
    using assms map_of_SomeD [OF that] by (auto simp: ledger_inv_def)
  then have "reported (open_round d s)"
    using assms stale_reported by (fastforce simp: ledger_inv_def reported_def open_round_def Let_def split: option.splits)
  moreover have "\<forall>(m, r) \<in> set (lst_open (open_round d s)). round_inv r \<and> (m \<noteq> sd_mint d \<longrightarrow> 0 < rd_balance r)"
    using assms grounded_inv genesis_inv
    by (auto simp: ledger_inv_def open_round_def insert_open_def remove_open_def Let_def)
  ultimately show ?thesis by simp
qed

lemma apply_delta_inv:
  assumes "ledger_inv s" and "sd_delta_raw d \<noteq> 0"
  shows "ledger_inv (apply_delta grp d s)"
proof -
  let ?s = "open_round d s" and ?m = "sd_mint d"
  have rep: "reported ?s" and rounds: "\<And>m r. (m, r) \<in> set (lst_open ?s) \<Longrightarrow> round_inv r \<and> (m \<noteq> ?m \<longrightarrow> 0 < rd_balance r)"
    using open_round_inv [OF assms(1), of d] by auto
  show ?thesis
  proof (cases "map_of (lst_open ?s) ?m")
    case None
    then have "(?m, r) \<notin> set (lst_open ?s)" for r by (metis map_of_eq_None_iff fst_conv image_eqI)
    then show ?thesis using None rep rounds by (fastforce simp: apply_delta_def ledger_inv_def Let_def)
  next
    case (Some r)
    let ?r = "apply_movement grp d r"
    have inv: "round_inv ?r" using rounds [OF map_of_SomeD [OF Some]] movement_inv assms(2) by blast
    show ?thesis
    proof (cases "rd_balance ?r \<le> 0")
      case True
      then have zero: "rd_balance ?r = 0" using inv by (simp add: round_inv_def)
      have "apply_delta grp d s = ?s\<lparr>lst_open := remove_open ?m (lst_open ?s), lst_finished := lst_finished ?s @ [finish False ?r]\<rparr>"
        using Some True by (simp add: apply_delta_def Let_def)
      then show ?thesis
        using rep rounds finish_balances [OF inv] finish_pays [OF inv] zero
        by (auto simp: ledger_inv_def reported_def remove_open_def)
    next
      case False
      then have "apply_delta grp d s = ?s\<lparr>lst_open := map (\<lambda>(m, q). (m, if m = ?m then ?r else q)) (lst_open ?s)\<rparr>"
        using Some by (simp add: apply_delta_def Let_def)
      then show ?thesis using rep rounds inv False by (auto simp: ledger_inv_def reported_def)
    qed
  qed
qed

text \<open>The groups only decide which movements a movement is seen with: the reduction is a fold over movements.\<close>

definition counted :: "subject_asset_delta \<Rightarrow> bool" where
  "counted d \<longleftrightarrow> \<not> is_reference_asset (sd_mint d) \<and> sd_delta_raw d \<noteq> 0"

definition run_movements :: "(subject_asset_delta list \<times> subject_asset_delta) list \<Rightarrow> ledger_state \<Rightarrow> ledger_state" where
  "run_movements = fold (\<lambda>(grp, d). apply_delta grp d)"

lemma apply_group_fold: "apply_group grp ds s = run_movements (map (Pair grp) (filter counted ds)) s"
  by (induction grp ds s rule: apply_group.induct) (simp_all add: run_movements_def counted_def)

lemma apply_groups_fold: "\<exists>ms. map snd ms = filter counted ds \<and> (\<forall>s. apply_groups ds s = run_movements ms s)"
proof (induction "length ds" arbitrary: ds rule: less_induct)
  case less
  show ?case
  proof (cases ds)
    case Nil
    then show ?thesis by (auto simp: run_movements_def)
  next
    case (Cons d rest)
    let ?same = "\<lambda>x. sd_signature x = sd_signature d"
    let ?g = "d # takeWhile ?same rest"
    have "length (dropWhile ?same rest) < length ds" by (simp add: Cons length_dropWhile_le le_imp_less_Suc)
    from less [OF this] obtain ms where ms: "map snd ms = filter counted (dropWhile ?same rest)"
      "\<And>s. apply_groups (dropWhile ?same rest) s = run_movements ms s" by blast
    let ?all = "map (Pair ?g) (filter counted ?g) @ ms"
    have "filter counted rest = filter counted (takeWhile ?same rest) @ filter counted (dropWhile ?same rest)"
      by (metis filter_append takeWhile_dropWhile_id)
    then have "map snd ?all = filter counted ds" using ms(1) by (simp add: Cons comp_def)
    moreover have "apply_groups ds s = run_movements ?all s" for s
    proof -
      have "apply_groups ds s = apply_groups (dropWhile ?same rest) (apply_group ?g ?g s)"
        by (simp only: Cons apply_groups.simps Let_def)
      also have "\<dots> = run_movements ?all s" by (simp only: ms(2) apply_group_fold) (simp add: run_movements_def)
      finally show ?thesis .
    qed
    ultimately show ?thesis by blast
  qed
qed

lemma run_movements_inv: "ledger_inv s \<Longrightarrow> \<forall>d \<in> set (map snd ms). sd_delta_raw d \<noteq> 0 \<Longrightarrow> ledger_inv (run_movements ms s)"
  by (induction ms arbitrary: s) (auto simp: run_movements_def apply_delta_inv)

definition empty_ledger :: ledger_state where
  "empty_ledger = \<lparr>lst_open = [], lst_finished = [], lst_genesis_used = []\<rparr>"

text \<open>The rounds of a ledger: the finished ones and the open ones as they would be reported.\<close>

definition ledger_report :: "ledger_state \<Rightarrow> ledger_round list" where
  "ledger_report s = lst_finished s @ map (\<lambda>(_, r). finish True r) (lst_open s)"

lemma reduce_rounds_fold:
  "\<exists>ms. map snd ms = filter counted (sort_key delta_order (filter sd_success deltas))
     \<and> reduce_rounds deltas = sort_key round_order (ledger_report (run_movements ms empty_ledger))"
  using apply_groups_fold [of "sort_key delta_order (filter sd_success deltas)"]
  by (auto simp: reduce_rounds_def Let_def ledger_report_def empty_ledger_def)

lemma reduce_rounds_reported:
  assumes "r \<in> set (reduce_rounds deltas)"
  shows "round_balances r \<and> round_pays r"
proof -
  obtain ms where ms: "map snd ms = filter counted (sort_key delta_order (filter sd_success deltas))"
    "reduce_rounds deltas = sort_key round_order (ledger_report (run_movements ms empty_ledger))"
    using reduce_rounds_fold by blast
  let ?s = "run_movements ms empty_ledger"
  have inv: "ledger_inv ?s"
    by (rule run_movements_inv) (auto simp: ledger_inv_def reported_def empty_ledger_def ms(1) counted_def)
  have "r \<in> set (lst_finished ?s) \<or> (\<exists>m q. (m, q) \<in> set (lst_open ?s) \<and> r = finish True q)"
    using assms by (auto simp: ms(2) ledger_report_def)
  moreover have "round_balances (finish True q) \<and> round_pays (finish True q)" if "(m, q) \<in> set (lst_open ?s)" for m q
    using inv that finish_balances [of q True] finish_pays [of q True] by (auto simp: ledger_inv_def)
  ultimately show ?thesis using inv by (auto simp: ledger_inv_def reported_def)
qed

section \<open>The keys of the rounds\<close>

text \<open>
  A key as what it names: a round whose opening was watched, the first gap of a token, a later gap
  revealed by a movement, and a holding no movement explains.
\<close>

datatype round_name = Watched string string | Gap string | LaterGap string string | Unseen string

fun render :: "round_name \<Rightarrow> string" where
  "render (Watched sig mint) = sig @ '':'' @ mint"
| "render (Gap mint) = ''genesis:'' @ mint"
| "render (LaterGap sig mint) = ''genesis:'' @ sig @ '':'' @ mint"
| "render (Unseen mint) = ''genesis:holding:'' @ mint"

definition plain :: "string \<Rightarrow> bool" where
  "plain name \<longleftrightarrow> CHR '':'' \<notin> set name"

fun well_named :: "round_name \<Rightarrow> bool" where
  "well_named (Watched sig mint) \<longleftrightarrow> plain sig \<and> plain mint \<and> sig \<noteq> ''genesis''"
| "well_named (Gap mint) \<longleftrightarrow> plain mint"
| "well_named (LaterGap sig mint) \<longleftrightarrow> plain sig \<and> plain mint \<and> sig \<noteq> ''holding''"
| "well_named (Unseen mint) \<longleftrightarrow> plain mint"

lemma plain_prefix:
  assumes "plain a" and "plain b"
  shows "a @ '':'' @ x = b @ '':'' @ y \<longleftrightarrow> a = b \<and> x = y"
proof
  assume eq: "a @ '':'' @ x = b @ '':'' @ y"
  have "takeWhile (\<lambda>c. c \<noteq> CHR '':'') (a @ '':'' @ x) = a" "takeWhile (\<lambda>c. c \<noteq> CHR '':'') (b @ '':'' @ y) = b"
    using assms by (auto simp: plain_def takeWhile_append takeWhile_eq_all_conv)
  then have "a = b" using eq by simp
  then show "a = b \<and> x = y" using eq by simp
qed simp

lemma plain_separate: "plain m \<Longrightarrow> (m = a @ '':'' @ b) = False" "plain m \<Longrightarrow> (a @ '':'' @ b = m) = False"
  by (auto simp: plain_def)

lemma plain_words: "plain ''genesis''" "plain ''holding''"
  by (simp_all add: plain_def)

lemma render_prefix:
  "render (Gap mint) = ''genesis'' @ '':'' @ mint" "render (LaterGap sig mint) = ''genesis'' @ '':'' @ sig @ '':'' @ mint"
  "render (Unseen mint) = ''genesis'' @ '':'' @ ''holding'' @ '':'' @ mint"
  by simp_all

lemma render_inj: "well_named a \<Longrightarrow> well_named b \<Longrightarrow> render a = render b \<Longrightarrow> a = b"
  by (cases a; cases b; simp only: render_prefix render.simps(1) well_named.simps plain_prefix plain_words
      plain_separate simp_thms; blast)

definition ledger_keys :: "ledger_state \<Rightarrow> string list" where
  "ledger_keys s = map lr_round_key (ledger_report s)"

text \<open>No movement changes which round of which token it is.\<close>

definition identity :: "round_acc \<Rightarrow> string \<times> string" where
  "identity r = (rd_round_key r, rd_mint r)"

lemma identity_keep:
  "identity (r\<lparr>rd_held_cost := c\<rparr>) = identity r" "identity (r\<lparr>rd_balance := b\<rparr>) = identity r"
  "identity (r\<lparr>rd_closed_at := t\<rparr>) = identity r" "identity (r\<lparr>rd_decimals := n\<rparr>) = identity r"
  "identity (push_event d kind exact after quote price r) = identity r"
  by (simp_all add: identity_def push_event_def)

lemma movement_identity: "identity (apply_movement grp d r) = identity r"
proof -
  have inc: "identity (incomplete q) = identity q" for q by (simp add: identity_def incomplete_def)
  have before: "identity (reconcile_before d q) = identity q" for q
    by (simp add: identity_def reconcile_before_def incomplete_def split: option.split)
  have quoted: "identity (snd (price_acquisition l t amount a q)) = identity q" for l t amount a q
    by (simp add: identity_def price_acquisition_def accept_quote_def Let_def split: option.split)
  have opened: "identity (note_opening d b k (add_acquired n (count_entry t q))) = identity q" for b k n t q
    by (simp add: identity_def note_opening_def add_acquired_def count_entry_def incomplete_def Let_def split: option.split)
  have acq: "identity (apply_acquisition grp d b a q) = identity q" for b a q
    unfolding apply_acquisition_def Let_def case_prod_beta by (simp add: quoted opened identity_keep)
  have rel: "identity (snd (release_basis b n q)) = identity q" for b n q
    by (simp add: identity_def release_basis_def incomplete_def split: prod.split)
  have price: "identity (snd (price_disposal l basis amount q)) = identity q" for l basis amount q
    by (simp add: identity_def price_disposal_def split: option.split)
  have noted: "identity (note_closing d c (add_disposed n (count_exit t q))) = identity q" for c n t q
    by (simp add: identity_def note_closing_def add_disposed_def count_exit_def incomplete_def split: option.split)
  have disp: "identity (apply_disposal grp d b a q) = identity q" for b a q
    unfolding apply_disposal_def Let_def case_prod_beta by (simp add: rel price noted identity_keep)
  show ?thesis
    unfolding apply_movement_def Let_def by (simp add: inc before acq disp identity_keep split: option.split)
qed

lemma movement_key: "rd_round_key (apply_movement grp d r) = rd_round_key r" "rd_mint (apply_movement grp d r) = rd_mint r"
  using movement_identity [of grp d r] by (simp_all add: identity_def)

lemma finish_key: "lr_round_key (finish still_open r) = rd_round_key r"
  by (simp add: finish_def Let_def)

lemma map_of_remove_open:
  "distinct (map fst xs) \<Longrightarrow> map_of xs m = Some r \<Longrightarrow>
     image_mset f (mset xs) = add_mset (f (m, r)) (image_mset f (mset (remove_open m xs)))"
proof (induction xs)
  case (Cons x xs)
  have "remove_open m xs = xs" if "m \<notin> fst ` set xs"
    using that by (force simp: remove_open_def filter_id_conv)
  then show ?case using Cons by (cases x) (auto simp: remove_open_def simp del: mset_filter split: if_splits)
qed simp

lemma remove_open_absent: "map_of xs m = None \<Longrightarrow> remove_open m xs = xs"
  by (force simp: remove_open_def filter_id_conv map_of_eq_None_iff)

definition opened_name :: "ledger_state \<Rightarrow> subject_asset_delta \<Rightarrow> round_name option" where
  "opened_name s d =
     (if 0 < sd_delta_raw d \<and> sd_before_raw d = Some 0 then Some (Watched (sd_signature d) (sd_mint d))
      else if map_of (lst_open s) (sd_mint d) \<noteq> None then None
      else if sd_mint d \<notin> set (lst_genesis_used s) then Some (Gap (sd_mint d))
      else Some (LaterGap (sd_signature d) (sd_mint d)))"

lemma ledger_keys_eq: "ledger_keys s = map lr_round_key (lst_finished s) @ map (rd_round_key \<circ> snd) (lst_open s)"
  by (auto simp: ledger_keys_def ledger_report_def finish_key)

lemma open_round_keys:
  assumes "distinct (map fst (lst_open s))"
  shows "mset (ledger_keys (open_round d s)) = mset (ledger_keys s) + mset (case opened_name s d of Some n \<Rightarrow> [render n] | None \<Rightarrow> [])"
    and "distinct (map fst (lst_open (open_round d s)))"
proof -
  let ?k = "rd_round_key \<circ> snd" and ?g = "0 < sd_delta_raw d \<and> sd_before_raw d = Some 0"
  have keys: "rd_round_key (grounded d k) = k" "rd_round_key (genesis d k) = k" for k
    by (simp_all add: grounded_def genesis_def Let_def split: option.split)
  show "mset (ledger_keys (open_round d s)) = mset (ledger_keys s) + mset (case opened_name s d of Some n \<Rightarrow> [render n] | None \<Rightarrow> [])"
  proof (cases "map_of (lst_open s) (sd_mint d)")
    case None
    then show ?thesis
      by (simp add: open_round_def opened_name_def ledger_keys_eq insert_open_def remove_open_absent keys Let_def)
  next
    case (Some r)
    then have "image_mset ?k (mset (lst_open s)) = add_mset (rd_round_key r) (image_mset ?k (mset (remove_open (sd_mint d) (lst_open s))))"
      using map_of_remove_open [OF assms Some, of ?k] by simp
    with Some show ?thesis
      by (cases ?g) (simp_all add: open_round_def opened_name_def ledger_keys_eq insert_open_def keys finish_key Let_def)
  qed
  show "distinct (map fst (lst_open (open_round d s)))"
    using assms by (auto simp: open_round_def insert_open_def remove_open_def Let_def distinct_map_filter)
qed

lemma apply_delta_keys:
  assumes "distinct (map fst (lst_open s))"
  shows "mset (ledger_keys (apply_delta grp d s)) = mset (ledger_keys (open_round d s))"
    and "distinct (map fst (lst_open (apply_delta grp d s)))"
    and "lst_genesis_used (apply_delta grp d s) = lst_genesis_used (open_round d s)"
proof -
  let ?s = "open_round d s" and ?m = "sd_mint d" and ?k = "rd_round_key \<circ> snd"
  have dist: "distinct (map fst (lst_open ?s))" by (rule open_round_keys(2) [OF assms])
  have all: "mset (ledger_keys (apply_delta grp d s)) = mset (ledger_keys ?s) \<and> distinct (map fst (lst_open (apply_delta grp d s)))"
  proof (cases "map_of (lst_open ?s) ?m")
    case None
    then show ?thesis using dist by (simp add: apply_delta_def Let_def)
  next
    case (Some r)
    define xs where "xs = map (\<lambda>(m, q). (m, if m = ?m then apply_movement grp d r else q)) (lst_open ?s)"
    have kept: "map ?k xs = map ?k (lst_open ?s)"
      unfolding xs_def using eq_key_imp_eq_value [OF dist map_of_SomeD [OF Some]] by (auto simp: movement_key)
    have names: "map fst xs = map fst (lst_open ?s)" by (auto simp: xs_def)
    have gone: "image_mset ?k (mset (lst_open ?s)) = add_mset (rd_round_key r) (image_mset ?k (mset (remove_open ?m (lst_open ?s))))"
      using map_of_remove_open [OF dist Some, of ?k] by simp
    show ?thesis
    proof (cases "rd_balance (apply_movement grp d r) \<le> 0")
      case True
      then show ?thesis
        using Some gone dist
        by (simp add: apply_delta_def Let_def ledger_keys_eq finish_key movement_key remove_open_def distinct_map_filter del: mset_filter)
    next
      case False
      then have "apply_delta grp d s = ?s\<lparr>lst_open := xs\<rparr>" using Some by (simp add: apply_delta_def xs_def Let_def)
      then show ?thesis using dist kept names by (simp add: ledger_keys_eq del: mset_map flip: mset_map)
    qed
  qed
  then show "mset (ledger_keys (apply_delta grp d s)) = mset (ledger_keys ?s)"
    "distinct (map fst (lst_open (apply_delta grp d s)))" by simp_all
  show "lst_genesis_used (apply_delta grp d s) = lst_genesis_used ?s"
    by (simp add: apply_delta_def Let_def split: option.split)
qed

text \<open>The keys given so far, when the movements of the set \<open>seen\<close> have been applied.\<close>

fun name_seen :: "(string \<times> string) set \<Rightarrow> string set \<Rightarrow> round_name \<Rightarrow> bool" where
  "name_seen seen used (Watched sig mint) \<longleftrightarrow> (sig, mint) \<in> seen"
| "name_seen seen used (Gap mint) \<longleftrightarrow> mint \<in> used"
| "name_seen seen used (LaterGap sig mint) \<longleftrightarrow> (sig, mint) \<in> seen"
| "name_seen seen used (Unseen mint) \<longleftrightarrow> False"

definition named_ledger :: "(string \<times> string) set \<Rightarrow> ledger_state \<Rightarrow> bool" where
  "named_ledger seen s \<longleftrightarrow> distinct (map fst (lst_open s)) \<and> (\<exists>names. distinct names
     \<and> mset (ledger_keys s) = mset (map render names)
     \<and> (\<forall>n \<in> set names. well_named n \<and> name_seen seen (set (lst_genesis_used s)) n))"

definition clean_delta :: "subject_asset_delta \<Rightarrow> bool" where
  "clean_delta d \<longleftrightarrow> plain (sd_signature d) \<and> plain (sd_mint d) \<and> sd_signature d \<notin> {''genesis'', ''holding''}"

lemma name_seen_mono: "name_seen seen used n \<Longrightarrow> seen \<subseteq> seen' \<Longrightarrow> used \<subseteq> used' \<Longrightarrow> name_seen seen' used' n"
  by (cases n) auto

lemma apply_delta_named:
  assumes "named_ledger seen s" and "clean_delta d" and "(sd_signature d, sd_mint d) \<notin> seen"
  shows "named_ledger (insert (sd_signature d, sd_mint d) seen) (apply_delta grp d s)"
proof -
  let ?seen = "insert (sd_signature d, sd_mint d) seen" and ?used = "set (lst_genesis_used (open_round d s))"
  obtain names where dist: "distinct (map fst (lst_open s))" and names: "distinct names" "mset (ledger_keys s) = mset (map render names)"
    "\<And>n. n \<in> set names \<Longrightarrow> well_named n \<and> name_seen seen (set (lst_genesis_used s)) n"
    using assms(1) by (auto simp: named_ledger_def)
  have used: "set (lst_genesis_used s) \<subseteq> ?used" by (auto simp: open_round_def Let_def)
  have new: "well_named n \<and> name_seen ?seen ?used n \<and> \<not> name_seen seen (set (lst_genesis_used s)) n"
    if "opened_name s d = Some n" for n
    using that assms(2,3)
    by (auto simp: opened_name_def open_round_def clean_delta_def Let_def split: if_splits)
  define names' where "names' = names @ (case opened_name s d of Some n \<Rightarrow> [n] | None \<Rightarrow> [])"
  have "distinct names'" using names(1,3) new by (auto simp: names'_def split: option.split)
  moreover have "mset (ledger_keys (apply_delta grp d s)) = mset (map render names')"
    using apply_delta_keys(1) [OF dist] open_round_keys(1) [OF dist] names(2)
    by (simp add: names'_def split: option.split)
  moreover have "\<forall>n \<in> set names'. well_named n \<and> name_seen ?seen ?used n"
    using names(3) new name_seen_mono [OF _ subset_insertI used] by (auto simp: names'_def split: option.splits)
  ultimately show ?thesis
    using apply_delta_keys(2,3) [OF dist] unfolding named_ledger_def by metis
qed

lemma run_movements_named:
  assumes "named_ledger seen s" and "\<forall>d \<in> set (map snd ms). clean_delta d \<and> (sd_signature d, sd_mint d) \<notin> seen"
    and "distinct (map (\<lambda>d. (sd_signature d, sd_mint d)) (map snd ms))"
  shows "\<exists>seen'. named_ledger seen' (run_movements ms s)"
  using assms
proof (induction ms arbitrary: seen s)
  case Nil
  then show ?case by (auto simp: run_movements_def)
next
  case (Cons m ms)
  obtain grp d where m: "m = (grp, d)" by fastforce
  have "named_ledger (insert (sd_signature d, sd_mint d) seen) (apply_delta grp d s)"
    by (rule apply_delta_named) (use Cons.prems m in auto)
  then have "\<exists>seen'. named_ledger seen' (run_movements ms (apply_delta grp d s))"
    by (rule Cons.IH) (use Cons.prems m in \<open>force+\<close>)
  then show ?case by (simp add: run_movements_def m)
qed

lemma reduce_rounds_names:
  assumes "distinct (map (\<lambda>d. (sd_signature d, sd_mint d)) deltas)" and "\<forall>d \<in> set deltas. clean_delta d"
  shows "\<exists>names. distinct names \<and> mset (map lr_round_key (reduce_rounds deltas)) = mset (map render names)
    \<and> (\<forall>n \<in> set names. well_named n \<and> (\<forall>m. n \<noteq> Unseen m))"
proof -
  let ?id = "\<lambda>d. (sd_signature d, sd_mint d)" and ?ds = "sort_key delta_order (filter sd_success deltas)"
  obtain ms where ms: "map snd ms = filter counted ?ds"
    "reduce_rounds deltas = sort_key round_order (ledger_report (run_movements ms empty_ledger))"
    using reduce_rounds_fold by blast
  have "distinct (map ?id ?ds)"
    using distinct_map_filter [OF assms(1), of sd_success] by (simp add: distinct_map)
  then have "distinct (map ?id (map snd ms))" unfolding ms(1) by (rule distinct_map_filter)
  moreover have "\<forall>d \<in> set (map snd ms). clean_delta d \<and> ?id d \<notin> {}" using assms(2) by (simp add: ms(1))
  moreover have "named_ledger {} empty_ledger"
    by (auto simp: named_ledger_def empty_ledger_def ledger_keys_eq)
  ultimately obtain seen where "named_ledger seen (run_movements ms empty_ledger)"
    using run_movements_named by blast
  then obtain names where "distinct names" "mset (ledger_keys (run_movements ms empty_ledger)) = mset (map render names)"
    "\<forall>n \<in> set names. well_named n \<and> name_seen seen (set (lst_genesis_used (run_movements ms empty_ledger))) n"
    by (auto simp: named_ledger_def)
  moreover have "mset (map lr_round_key (reduce_rounds deltas)) = mset (ledger_keys (run_movements ms empty_ledger))"
    by (simp add: ms(2) ledger_keys_def)
  ultimately show ?thesis by (metis name_seen.simps(4))
qed

lemma reconcile_round_key: "lr_round_key (reconcile_round holdings slot r) = lr_round_key r"
  by (simp add: reconcile_round_def Let_def)

text \<open>Open rounds stand under their own token, and finished rounds are closed.\<close>

definition tidy :: "ledger_state \<Rightarrow> bool" where
  "tidy s \<longleftrightarrow> distinct (map fst (lst_open s)) \<and> (\<forall>(m, r) \<in> set (lst_open s). rd_mint r = m \<and> \<not> is_reference_asset m)
     \<and> (\<forall>r \<in> set (lst_finished s). \<not> lr_is_open r)"

lemma finish_open: "lr_is_open (finish still_open r) = still_open" "lr_mint (finish still_open r) = rd_mint r"
  by (simp_all add: finish_def Let_def)

lemma open_round_tidy:
  assumes "tidy s" and "\<not> is_reference_asset (sd_mint d)"
  shows "tidy (open_round d s)"
proof -
  have mint: "rd_mint (grounded d k) = sd_mint d" "rd_mint (genesis d k) = sd_mint d" for k
    by (simp_all add: grounded_def genesis_def Let_def split: option.split)
  show ?thesis
    using assms open_round_keys(2) [of s d] unfolding tidy_def
    by (auto simp: open_round_def insert_open_def remove_open_def finish_open mint Let_def split: option.splits)
qed

lemma apply_delta_tidy:
  assumes "tidy s" and "\<not> is_reference_asset (sd_mint d)"
  shows "tidy (apply_delta grp d s)"
proof -
  have t: "tidy (open_round d s)" by (rule open_round_tidy [OF assms])
  have "distinct (map fst (lst_open (apply_delta grp d s)))"
    using assms(1) apply_delta_keys(2) by (simp add: tidy_def)
  moreover have "rd_mint r = m" if "map_of (lst_open (open_round d s)) m = Some r" for m r
    using map_of_SomeD [OF that] t by (auto simp: tidy_def)
  ultimately show ?thesis
    using t unfolding tidy_def
    by (auto simp: apply_delta_def remove_open_def finish_open movement_key Let_def split: option.splits if_splits)
qed

lemma run_movements_tidy: "tidy s \<Longrightarrow> \<forall>d \<in> set (map snd ms). counted d \<Longrightarrow> tidy (run_movements ms s)"
  by (induction ms arbitrary: s) (auto simp: run_movements_def counted_def apply_delta_tidy)

lemma reduced_open_mints:
  "distinct (map lr_mint (filter lr_is_open (reduce_rounds deltas)))"
  "\<forall>r \<in> set (reduce_rounds deltas). lr_is_open r \<longrightarrow> \<not> is_reference_asset (lr_mint r)"
proof -
  obtain ms where ms: "map snd ms = filter counted (sort_key delta_order (filter sd_success deltas))"
    "reduce_rounds deltas = sort_key round_order (ledger_report (run_movements ms empty_ledger))"
    using reduce_rounds_fold by blast
  let ?s = "run_movements ms empty_ledger"
  have t: "tidy ?s"
    by (rule run_movements_tidy) (auto simp: tidy_def empty_ledger_def ms(1))
  have "map lr_mint (filter lr_is_open (ledger_report ?s)) = map fst (lst_open ?s)"
    using t by (auto simp: ledger_report_def tidy_def finish_open filter_map comp_def case_prod_beta intro!: filter_False)
  then have "distinct (map lr_mint (filter lr_is_open (ledger_report ?s)))" using t by (simp add: tidy_def)
  then show "distinct (map lr_mint (filter lr_is_open (reduce_rounds deltas)))"
    by (simp add: ms(2) distinct_map filter_sort)
  show "\<forall>r \<in> set (reduce_rounds deltas). lr_is_open r \<longrightarrow> \<not> is_reference_asset (lr_mint r)"
    using t by (auto simp: ms(2) ledger_report_def tidy_def finish_open)
qed


section \<open>Amounts and money\<close>

text \<open>
  C15: every round of a history reports exact amounts: an open round holds something, a complete
  basis is only claimed for a complete history, and with a complete history the balance and what was
  disposed of add up to what was acquired, with nothing left when the round is closed.
\<close>

theorem complete_history_balances:
  assumes "r \<in> set (reduce_rounds deltas)"
  shows "(lr_basis_complete r \<longrightarrow> lr_history_complete r) \<and> (lr_is_open r \<longrightarrow> 0 < lr_balance_raw r)
    \<and> (lr_history_complete r \<longrightarrow>
        unat (lr_balance_raw r) + unat (lr_total_disposed_raw r) = unat (lr_total_acquired_raw r)
        \<and> (\<not> lr_is_open r \<longrightarrow> lr_balance_raw r = 0))"
  using reduce_rounds_reported [OF assms] by (simp add: round_balances_def)

text \<open>
  C16: the profit reported of a round with a complete basis is what its events received for the
  disposals less what they paid for the acquisitions, the basis of what is still held set aside, and
  a closed round sets nothing aside.
\<close>

theorem complete_round_profit:
  assumes "r \<in> set (reduce_rounds deltas)" and "lr_basis_complete r" and "lr_realized_pnl_native r = Some pnl"
  shows "\<exists>held \<ge> 0. lr_remaining_basis_native r = Fin held \<and> (\<not> lr_is_open r \<longrightarrow> held = 0)
    \<and> lr_invested_native r = Fin (sum_list (map event_paid (lr_events r)))
    \<and> pnl = Fin (sum_list (map event_received (lr_events r)) - (sum_list (map event_paid (lr_events r)) - held))"
  using reduce_rounds_reported [OF assms(1)] assms(2,3) by (auto simp: round_pays_def)

section \<open>Reconciliation\<close>

lemma reconcile_round_cases:
  "reconcile_round holdings slot r = r \<or> \<not> lr_history_complete (reconcile_round holdings slot r)"
  "lr_is_open (reconcile_round holdings slot r) \<Longrightarrow> lr_is_open r \<and> (newer_than_read slot (reconcile_round holdings slot r)
     \<or> lr_balance_raw (reconcile_round holdings slot r) = held_on_chain holdings (lr_mint r))"
  "lr_mint (reconcile_round holdings slot r) = lr_mint r"
  by (auto simp: reconcile_round_def newer_than_read_def last_slot_def Let_def)

lemma held_on_chain_own:
  assumes "distinct (map wh_mint holdings)" and "h \<in> set holdings"
  shows "held_on_chain holdings (wh_mint h) = wh_amount_raw h"
proof -
  let ?xs = "rev (map (\<lambda>h. (wh_mint h, wh_amount_raw h)) holdings)"
  have "distinct (map fst ?xs)" using assms(1) by (simp add: comp_def rev_map [symmetric])
  moreover have "(wh_mint h, wh_amount_raw h) \<in> set ?xs" using assms(2) by auto
  ultimately have "map_of ?xs (wh_mint h) = Some (wh_amount_raw h)" by simp
  then show ?thesis by (simp add: held_on_chain_def)
qed

lemma distinct_map_subseq_filter:
  assumes "distinct (map f (filter P xs))" and "\<And>x. f (g x) = f x" and "\<And>x. P (g x) \<Longrightarrow> P x"
  shows "distinct (map f (filter P (map g xs)))"
  using assms(1)
proof (induction xs)
  case (Cons x xs)
  then show ?case using assms(2,3) by (auto split: if_splits simp: image_iff) metis
qed simp


section \<open>A history of one round\<close>

definition demo_delta :: "string \<Rightarrow> string \<Rightarrow> u64 \<Rightarrow> int \<Rightarrow> u128 \<Rightarrow> u128 \<Rightarrow> u8 \<Rightarrow> subject_asset_delta" where
  "demo_delta sig mint slot amount before after decimals = \<lparr>sd_chain = ''solana'', sd_wallet_address = ''W'',
     sd_signature = sig, sd_mint = mint, sd_slot = Some slot, sd_block_time = Some (uint slot), sd_tx_index = 0,
     sd_delta_raw = amount, sd_before_raw = Some before, sd_after_raw = Some after, sd_decimals = decimals,
     sd_kind = DeltaTrade, sd_venue = None, sd_fee_native_raw = None, sd_success = True\<rparr>"

definition demo_history :: "subject_asset_delta list" where
  "demo_history = [demo_delta ''S'' ''T'' 2 (- 2) 2 0 0, demo_delta ''S'' ''native'' 2 3 0 3 0,
     demo_delta ''B'' ''T'' 1 2 0 2 0, demo_delta ''B'' ''native'' 1 (- 1) 1 0 0]"


lemma demo_sorted: "sort_key delta_order (filter sd_success demo_history) =
   [demo_delta ''B'' ''T'' 1 2 0 2 0, demo_delta ''B'' ''native'' 1 (- 1) 1 0 0,
    demo_delta ''S'' ''T'' 2 (- 2) 2 0 0, demo_delta ''S'' ''native'' 2 3 0 3 0]"
  by (simp add: demo_history_def demo_delta_def delta_order_def unwrap_or_def less_eq_prod_def less_prod_def)

lemma demo_assets: "is_reference_asset ''T'' = False" "is_reference_asset ''native'' = True"
  by (simp_all add: is_reference_asset_def NATIVE_SOL_SENTINEL_def is_quote_asset_def is_native_asset_def
     is_stable_asset_def SOL_MINT_def SYSTEM_PROGRAM_ID_def USDC_MINT_def USDT_MINT_def)

lemma demo_quotes:
  "quote_for [demo_delta ''B'' ''T'' 1 2 0 2 0, demo_delta ''B'' ''native'' 1 (- 1) 1 0 0] ''T'' True = Some \<lparr>ql_asset = QuoteSol, ql_amount = Fin 1\<rparr>"
  "quote_for [demo_delta ''S'' ''T'' 2 (- 2) 2 0 0, demo_delta ''S'' ''native'' 2 3 0 3 0] ''T'' False = Some \<lparr>ql_asset = QuoteSol, ql_amount = Fin 3\<rparr>"
  by (simp_all add: quote_for_def demo_delta_def demo_assets find_leg_def Let_def NATIVE_SOL_SENTINEL_def to_whole_units_whole whole_def unsigned_abs_def)



abbreviation demo_buy :: subject_asset_delta where "demo_buy \<equiv> demo_delta ''B'' ''T'' 1 2 0 2 0"
abbreviation demo_sale :: subject_asset_delta where "demo_sale \<equiv> demo_delta ''S'' ''T'' 2 (- 2) 2 0 0"

lemma demo_fields: "sd_mint (demo_delta sig mint slot amount before after decimals) = mint"
  "sd_signature (demo_delta sig mint slot amount before after decimals) = sig"
  "sd_delta_raw (demo_delta sig mint slot amount before after decimals) = amount"
  "sd_before_raw (demo_delta sig mint slot amount before after decimals) = Some before"
  "sd_after_raw (demo_delta sig mint slot amount before after decimals) = Some after"
  "sd_kind (demo_delta sig mint slot amount before after decimals) = DeltaTrade"
  "sd_decimals (demo_delta sig mint slot amount before after decimals) = decimals"
  by (simp_all add: demo_delta_def)

lemma demo_units: "to_whole_units (unsigned_abs 2) 0 = Fin 2"
  by (simp add: to_whole_units_whole whole_def unsigned_abs_def)

lemma demo_acquired:
  assumes "rd_balance r = 0" "rd_total_acquired r = 0" "rd_entry_count r = 0" "rd_quote_asset r = None" "rd_held_cost r = held_cost_new"
    "rd_invested r = Fin 0" "rd_decimals r = 0" "rd_basis_complete r" "rd_history_complete r"
  obtains q where "apply_movement [demo_buy, demo_delta ''B'' ''native'' 1 (- 1) 1 0 0] demo_buy r = q" "rd_balance q = 2"
    "rd_basis_complete q" "rd_history_complete q" "rd_proceeds_complete q = rd_proceeds_complete r" "rd_quote_asset q = Some QuoteSol" "rd_entry_count q = 1"
    "rd_exit_count q = rd_exit_count r" "rd_held_cost q = \<lparr>hc_cost = Fin 1\<rparr>" "rd_realized_proceeds q = rd_realized_proceeds r"
    "rd_realized_cost q = rd_realized_cost r" "rd_total_disposed q = rd_total_disposed r" "rd_decimals q = 0"
proof -
  let ?g = "[demo_buy, demo_delta ''B'' ''native'' 1 (- 1) 1 0 0]"
  have 1: "reconcile_before demo_buy r = r"
    using assms by (simp add: reconcile_before_def demo_fields i128_of_u128_def)
  define r1 where "r1 = note_opening demo_buy 0 LedgerEntry (add_acquired 2 (count_entry True r))"
  have r1: "rd_decimals r1 = 0" "rd_quote_asset r1 = None" "rd_held_cost r1 = held_cost_new" "rd_invested r1 = Fin 0" "rd_basis_complete r1"
    "rd_history_complete r1"  "rd_entry_count r1 = 1" "rd_exit_count r1 = rd_exit_count r" "rd_realized_proceeds r1 = rd_realized_proceeds r"
    "rd_realized_cost r1 = rd_realized_cost r" "rd_total_disposed r1 = rd_total_disposed r" "rd_proceeds_complete r1 = rd_proceeds_complete r"
    using assms by (simp_all add: r1_def note_opening_def add_acquired_def count_entry_def checked_i128_def in_i128_def saturating_add_def Let_def)
  define p where "p = price_acquisition (Some \<lparr>ql_asset = QuoteSol, ql_amount = Fin 1\<rparr>) True (Fin 2) 2 r1"
  have p: "snd p = r1\<lparr>rd_quote_asset := Some QuoteSol, rd_invested := Fin 1, rd_held_cost := \<lparr>hc_cost = Fin 1\<rparr>, rd_average_price := Some (Fin (1/2))\<rparr>"
    using r1 by (simp add: p_def price_acquisition_def accept_quote_def DUST_def acquire_def held_cost_new_def held_average_def demo_units Let_def)
  have 2: "apply_acquisition ?g demo_buy 0 2 r = push_event demo_buy LedgerEntry (unsigned_abs 2) 2 (Some \<lparr>ql_asset = QuoteSol, ql_amount = Fin 1\<rparr>) (fst p) (snd p)"
    unfolding apply_acquisition_def Let_def case_prod_beta demo_fields demo_quotes
    by (simp add: r1_def [symmetric] r1 demo_units p_def [symmetric] demo_quotes)
  have "apply_movement ?g demo_buy r = (apply_acquisition ?g demo_buy 0 2 r)\<lparr>rd_balance := 2\<rparr>"
    unfolding apply_movement_def Let_def
    using assms by (simp add: demo_fields 1 checked_i128_def in_i128_def i128_of_u128_def unwrap_or_def)
  then show ?thesis using that unfolding 2 push_event_def p using r1 by simp
qed

lemma demo_disposed:
  assumes "rd_balance r = 2" "rd_total_disposed r = 0" "rd_exit_count r = 0" "rd_quote_asset r = Some QuoteSol" "rd_held_cost r = \<lparr>hc_cost = Fin 1\<rparr>"
    "rd_decimals r = 0" "rd_basis_complete r" "rd_history_complete r" "rd_proceeds_complete r" "rd_realized_proceeds r = Fin 0" "rd_realized_cost r = Fin 0"
  obtains q where "apply_movement [demo_sale, demo_delta ''S'' ''native'' 2 3 0 3 0] demo_sale r = q" "rd_balance q = 0"
    "rd_basis_complete q" "rd_history_complete q" "rd_proceeds_complete q" "rd_quote_asset q = Some QuoteSol" "rd_entry_count q = rd_entry_count r"
    "rd_exit_count q = 1" "rd_realized_proceeds q = Fin 3" "rd_realized_cost q = Fin 1"
proof -
  let ?g = "[demo_sale, demo_delta ''S'' ''native'' 2 3 0 3 0]" and ?quote = "Some \<lparr>ql_asset = QuoteSol, ql_amount = Fin 3\<rparr>"
  have 1: "reconcile_before demo_sale r = r"
    using assms by (simp add: reconcile_before_def demo_fields i128_of_u128_def)
  have n: "disposed_amount 2 (- 2) = 2" by (simp add: disposed_amount_def)
  define r1 where "r1 = note_closing demo_sale True (add_disposed 2 (count_exit True r))"
  have r1: "rd_quote_asset r1 = Some QuoteSol" "rd_held_cost r1 = \<lparr>hc_cost = Fin 1\<rparr>" "rd_basis_complete r1"
    "rd_history_complete r1" "rd_proceeds_complete r1" "rd_decimals r1 = 0" "rd_entry_count r1 = rd_entry_count r" "rd_exit_count r1 = 1"
    "rd_realized_proceeds r1 = Fin 0" "rd_realized_cost r1 = Fin 0"
    using assms by (simp_all add: r1_def note_closing_def add_disposed_def count_exit_def checked_i128_def in_i128_def saturating_add_def)
  have rel: "release_basis 2 2 r1 = (Fin 1, r1\<lparr>rd_held_cost := \<lparr>hc_cost = Fin 0\<rparr>\<rparr>)"
    using r1 by (simp add: release_basis_def release_share)
  have priced: "\<exists>price. price_disposal ?quote (Fin 1) (Fin 2) (r1\<lparr>rd_held_cost := \<lparr>hc_cost = Fin 0\<rparr>\<rparr>)
      = (price, r1\<lparr>rd_held_cost := \<lparr>hc_cost = Fin 0\<rparr>, rd_realized_proceeds := Fin 3, rd_realized_cost := Fin 1,
           rd_priced_disposed := flt_add (rd_priced_disposed r1) (Fin 2)\<rparr>)"
    using r1 by (simp add: price_disposal_def)
  then obtain price where price: "price_disposal ?quote (Fin 1) (Fin 2) (r1\<lparr>rd_held_cost := \<lparr>hc_cost = Fin 0\<rparr>\<rparr>)
      = (price, r1\<lparr>rd_held_cost := \<lparr>hc_cost = Fin 0\<rparr>, rd_realized_proceeds := Fin 3, rd_realized_cost := Fin 1,
           rd_priced_disposed := flt_add (rd_priced_disposed r1) (Fin 2)\<rparr>)" by blast
  have 2: "\<exists>es pd. apply_disposal ?g demo_sale 2 0 r = r1\<lparr>rd_realized_proceeds := Fin 3, rd_realized_cost := Fin 1,
           rd_priced_disposed := pd, rd_events := es, rd_held_cost := \<lparr>hc_cost = Fin 0\<rparr>\<rparr>"
    unfolding apply_disposal_def Let_def case_prod_beta demo_fields demo_quotes n
    by (simp add: r1_def [symmetric] rel r1 demo_units price demo_quotes push_event_def clear_def) (intro exI, rule refl)
  have "apply_movement ?g demo_sale r = (apply_disposal ?g demo_sale 2 0 r)\<lparr>rd_balance := 0, rd_closed_at := sd_block_time demo_sale\<rparr>"
    unfolding apply_movement_def Let_def
    using assms by (simp add: demo_fields 1 checked_i128_def in_i128_def i128_of_u128_def unwrap_or_def)
  then show ?thesis using that 2 r1 by fastforce
qed

lemma demo_reduced: "\<exists>r. reduce_rounds demo_history = [finish False r] \<and> rd_basis_complete r \<and> rd_history_complete r \<and> rd_proceeds_complete r
   \<and> rd_quote_asset r = Some QuoteSol \<and> rd_entry_count r = 1 \<and> rd_exit_count r = 1 \<and> rd_realized_proceeds r = Fin 3 \<and> rd_realized_cost r = Fin 1"
proof -
  obtain q where q: "apply_movement [demo_buy, demo_delta ''B'' ''native'' 1 (- 1) 1 0 0] demo_buy (grounded demo_buy ''B:T'') = q" "rd_balance q = 2"
    "rd_basis_complete q" "rd_history_complete q" "rd_proceeds_complete q" "rd_quote_asset q = Some QuoteSol" "rd_entry_count q = 1"
    "rd_exit_count q = 0" "rd_held_cost q = \<lparr>hc_cost = Fin 1\<rparr>" "rd_realized_proceeds q = Fin 0"
    "rd_realized_cost q = Fin 0" "rd_total_disposed q = 0" "rd_decimals q = 0"
    by (rule demo_acquired [of "grounded demo_buy ''B:T''"]) (simp_all add: grounded_def demo_fields)
  obtain r where r: "apply_movement [demo_sale, demo_delta ''S'' ''native'' 2 3 0 3 0] demo_sale q = r" "rd_balance r = 0"
    "rd_basis_complete r" "rd_history_complete r" "rd_proceeds_complete r" "rd_quote_asset r = Some QuoteSol" "rd_entry_count r = 1"
    "rd_exit_count r = 1" "rd_realized_proceeds r = Fin 3" "rd_realized_cost r = Fin 1"
    by (rule demo_disposed [of q]) (simp_all add: q)
  have "reduce_rounds demo_history = [finish False r]"
    unfolding reduce_rounds_def Let_def demo_sorted
    by (simp add: demo_fields demo_assets apply_delta_def open_round_def insert_open_def remove_open_def q(1,2) r(1,2))
  then show ?thesis using r by blast
qed

lemma demo_round:
  "\<exists>r. reduce_rounds demo_history = [r] \<and> lr_basis_complete r \<and> lr_history_complete r \<and> \<not> lr_is_open r
     \<and> lr_realized_pnl_native r = Some (Fin 2)"
  using demo_reduced by (auto simp: finish_def Let_def)

lemma demo_clean: "distinct (map (\<lambda>d. (sd_signature d, sd_mint d)) demo_history)" "\<forall>d \<in> set demo_history. clean_delta d"
  by (simp_all add: demo_history_def demo_fields clean_delta_def plain_def)

definition demo_holdings :: "wallet_holding list" where
  "demo_holdings = [\<lparr>wh_mint = ''T'', wh_amount_raw = 5, wh_decimals = 0\<rparr>, \<lparr>wh_mint = ''U'', wh_amount_raw = 7, wh_decimals = 0\<rparr>]"

theorem complete_history_balances_witness:
  "\<exists>r \<in> set (reduce_rounds demo_history). lr_basis_complete r \<and>
     unat (lr_balance_raw r) + unat (lr_total_disposed_raw r) = unat (lr_total_acquired_raw r) \<and> lr_balance_raw r = 0"
proof -
  obtain r where r: "reduce_rounds demo_history = [r]" "lr_basis_complete r" "lr_history_complete r" "\<not> lr_is_open r"
    using demo_round by blast
  then show ?thesis using complete_history_balances [of r demo_history] by fastforce
qed

theorem complete_round_profit_witness:
  "\<exists>r \<in> set (reduce_rounds demo_history). lr_realized_pnl_native r = Some (Fin 2) \<and> lr_remaining_basis_native r = Fin 0
     \<and> sum_list (map event_received (lr_events r)) - sum_list (map event_paid (lr_events r)) = 2"
proof -
  obtain r where r: "reduce_rounds demo_history = [r]" "lr_basis_complete r" "\<not> lr_is_open r" "lr_realized_pnl_native r = Some (Fin 2)"
    using demo_round by blast
  then show ?thesis using complete_round_profit [of r demo_history "Fin 2"] by auto
qed



text \<open>
  A wallet that holds a token in two accounts is shown the last account alone: the amounts of one
  token are not added up on the way into the reconciliation.
\<close>

lemma second_account_hides_first:
  "held_on_chain [\<lparr>wh_mint = mint, wh_amount_raw = a, wh_decimals = d\<rparr>, \<lparr>wh_mint = mint, wh_amount_raw = b, wh_decimals = d\<rparr>] mint = b"
  by (simp add: held_on_chain_def unwrap_or_def)

end
