(* ===== verification/Raydium_Cpmm.thy ===== *)
theory Raydium_Cpmm
  imports Swap_Plan Token2022
begin

text \<open>
  The Raydium CP-Swap venue: the account layouts of
  \<open>src/chains/solana/pools/layouts/raydium_cpmm.rs\<close> and the market of
  \<open>src/chains/solana/swaps/direct/venues/raydium_cpmm.rs\<close>. The clock is the
  parameter \<open>now_unix\<close> and the node is the parameter \<open>reader\<close>.

  The lemmas show when the layouts decode, that a quote stays strictly below the
  tradable reserve, keeps the product of the reserves and grows with the amount, and
  that the market meets the contract \<open>market\<close>.
\<close>

section \<open>Layouts\<close>

record cpmm_pool_state =
  cps_pool :: pubkey
  cps_amm_config :: pubkey
  cps_vault_0 :: pubkey
  cps_vault_1 :: pubkey
  cps_mint_0 :: pubkey
  cps_mint_1 :: pubkey
  cps_program_0 :: pubkey
  cps_program_1 :: pubkey
  cps_observation :: pubkey
  cps_decimals_0 :: u8
  cps_decimals_1 :: u8
  cps_status :: u8
  cps_open_time :: u64
  cps_protocol_fees_0 :: u64
  cps_protocol_fees_1 :: u64
  cps_fund_fees_0 :: u64
  cps_fund_fees_1 :: u64
  cps_creator_fees_0 :: u64
  cps_creator_fees_1 :: u64
  cps_creator_fee_enabled :: bool

definition cpmm_pool_state_decode :: "pubkey \<Rightarrow> bytes \<Rightarrow> cpmm_pool_state option" where
  "cpmm_pool_state_decode pool data = do {
     amm_config \<leftarrow> pubkey_at data 8;
     vault_0 \<leftarrow> pubkey_at data 72;
     vault_1 \<leftarrow> pubkey_at data 104;
     mint_0 \<leftarrow> pubkey_at data 168;
     mint_1 \<leftarrow> pubkey_at data 200;
     program_0 \<leftarrow> pubkey_at data 232;
     program_1 \<leftarrow> pubkey_at data 264;
     observation \<leftarrow> pubkey_at data 296;
     status \<leftarrow> u8_at data 329;
     decimals_0 \<leftarrow> u8_at data 331;
     decimals_1 \<leftarrow> u8_at data 332;
     protocol_fees_0 \<leftarrow> u64_at data 341;
     protocol_fees_1 \<leftarrow> u64_at data 349;
     fund_fees_0 \<leftarrow> u64_at data 357;
     fund_fees_1 \<leftarrow> u64_at data 365;
     open_time \<leftarrow> u64_at data 373;
     creator_fee_enabled \<leftarrow> u8_at data 390;
     creator_fees_0 \<leftarrow> u64_at data 397;
     creator_fees_1 \<leftarrow> u64_at data 405;
     Some \<lparr>cps_pool = pool, cps_amm_config = amm_config, cps_vault_0 = vault_0,
       cps_vault_1 = vault_1, cps_mint_0 = mint_0, cps_mint_1 = mint_1, cps_program_0 = program_0,
       cps_program_1 = program_1, cps_observation = observation, cps_decimals_0 = decimals_0,
       cps_decimals_1 = decimals_1, cps_status = status, cps_open_time = open_time,
       cps_protocol_fees_0 = protocol_fees_0, cps_protocol_fees_1 = protocol_fees_1,
       cps_fund_fees_0 = fund_fees_0, cps_fund_fees_1 = fund_fees_1,
       cps_creator_fees_0 = creator_fees_0, cps_creator_fees_1 = creator_fees_1,
       cps_creator_fee_enabled = (creator_fee_enabled \<noteq> 0)\<rparr>
   }"

definition STATUS_BIT_SWAP_DISABLED :: nat where
  "STATUS_BIT_SWAP_DISABLED = 2"

definition cpmm_swap_enabled :: "cpmm_pool_state \<Rightarrow> bool" where
  "cpmm_swap_enabled s \<longleftrightarrow> (cps_status s AND push_bit STATUS_BIT_SWAP_DISABLED 1) = 0"

definition cpmm_is_open :: "cpmm_pool_state \<Rightarrow> u64 \<Rightarrow> bool" where
  "cpmm_is_open s now_unix \<longleftrightarrow> cps_open_time s \<le> now_unix"

definition cpmm_tradable_reserves :: "cpmm_pool_state \<Rightarrow> u64 \<Rightarrow> u64 \<Rightarrow> u64 \<times> u64" where
  "cpmm_tradable_reserves s vault_0_balance vault_1_balance =
     (saturating_sub (saturating_sub (saturating_sub vault_0_balance (cps_protocol_fees_0 s))
        (cps_fund_fees_0 s)) (cps_creator_fees_0 s),
      saturating_sub (saturating_sub (saturating_sub vault_1_balance (cps_protocol_fees_1 s))
        (cps_fund_fees_1 s)) (cps_creator_fees_1 s))"

record cpmm_fee_config =
  cfc_trade_fee_rate :: u64
  cfc_protocol_fee_rate :: u64
  cfc_fund_fee_rate :: u64
  cfc_creator_fee_rate :: u64

definition cpmm_fee_config_decode :: "bytes \<Rightarrow> cpmm_fee_config option" where
  "cpmm_fee_config_decode data = do {
     trade_fee_rate \<leftarrow> u64_at data 12;
     protocol_fee_rate \<leftarrow> u64_at data 20;
     fund_fee_rate \<leftarrow> u64_at data 28;
     creator_fee_rate \<leftarrow> u64_at data 108;
     Some \<lparr>cfc_trade_fee_rate = trade_fee_rate, cfc_protocol_fee_rate = protocol_fee_rate,
       cfc_fund_fee_rate = fund_fee_rate, cfc_creator_fee_rate = creator_fee_rate\<rparr>
   }"

section \<open>The market\<close>

definition CPMM_SWAP_BASE_INPUT :: bytes where
  "CPMM_SWAP_BASE_INPUT = [0x8f, 0xbe, 0x5a, 0xda, 0xc4, 0x1e, 0x33, 0xde]"

text \<open>\<open>b"vault_and_lp_mint_auth_seed"\<close>.\<close>

definition CPMM_AUTHORITY_SEED :: bytes where
  "CPMM_AUTHORITY_SEED = map of_char ''vault_and_lp_mint_auth_seed''"

definition FEE_RATE_DENOMINATOR :: u64 where
  "FEE_RATE_DENOMINATOR = 1000000"

definition CPMM_COMPUTE_UNITS :: u32 where
  "CPMM_COMPUTE_UNITS = 120000"

record cpmm_market =
  cm_state :: cpmm_pool_state
  cm_config :: cpmm_fee_config
  cm_vault_0_balance :: u64
  cm_vault_1_balance :: u64
  cm_transfer_fee_0 :: "transfer_fee_schedule option"
  cm_transfer_fee_1 :: "transfer_fee_schedule option"

definition cpmm_load ::
  "sdk \<Rightarrow> u64 \<Rightarrow> pubkey \<Rightarrow> account \<Rightarrow> account_reader \<Rightarrow> cpmm_market direct_swap_result" where
  "cpmm_load sdk now_unix pool pool_account reader =
     and_then (ok_or (cpmm_pool_state_decode pool (acc_data pool_account))
       (PoolUndecodable pool ''CP-Swap pool state did not match the expected layout ({} bytes)''))
       (\<lambda>state.
     if \<not> cpmm_swap_enabled state
     then Inl (PoolNotTradable pool ''status byte {} has swapping disabled'')
     else if \<not> cpmm_is_open state now_unix
     then Inl (PoolNotTradable pool ''pool opens at unix {}'')
     else
       let addresses = [cps_amm_config state, cps_vault_0 state, cps_vault_1 state,
                        cps_mint_0 state, cps_mint_1 state] in
       and_then (reader addresses) (\<lambda>accounts.
       let fetched = required addresses accounts ''account does not exist'' in
       and_then (fetched 0) (\<lambda>config_account.
       and_then (ok_or (cpmm_fee_config_decode (acc_data config_account))
         (PoolUndecodable pool ''CP-Swap AmmConfig did not match the expected layout'')) (\<lambda>config.
       and_then (fetched 1) (\<lambda>vault_0.
       and_then (ok_or (token_account_amount (acc_data vault_0))
         (PoolUndecodable pool ''token_0 vault is not a token account'')) (\<lambda>vault_0_balance.
       and_then (fetched 2) (\<lambda>vault_1.
       and_then (ok_or (token_account_amount (acc_data vault_1))
         (PoolUndecodable pool ''token_1 vault is not a token account'')) (\<lambda>vault_1_balance.
       and_then (fetched 3) (\<lambda>mint_0.
       and_then (fetched 4) (\<lambda>mint_1.
       Inr \<lparr>cm_state = state, cm_config = config, cm_vault_0_balance = vault_0_balance,
            cm_vault_1_balance = vault_1_balance,
            cm_transfer_fee_0 = transfer_fee_schedule_of sdk mint_0,
            cm_transfer_fee_1 = transfer_fee_schedule_of sdk mint_1\<rparr>))))))))))"

definition cpmm_reserves :: "cpmm_market \<Rightarrow> u64 \<times> u64" where
  "cpmm_reserves m = cpmm_tradable_reserves (cm_state m) (cm_vault_0_balance m) (cm_vault_1_balance m)"

definition cpmm_is_side_0 :: "cpmm_market \<Rightarrow> pubkey \<Rightarrow> bool option" where
  "cpmm_is_side_0 m mint = side_of (cps_mint_0 (cm_state m)) (cps_mint_1 (cm_state m)) mint"

definition cpmm_input_fee_rate :: "cpmm_market \<Rightarrow> u64" where
  "cpmm_input_fee_rate m =
     (if cps_creator_fee_enabled (cm_state m)
      then saturating_add (cfc_trade_fee_rate (cm_config m)) (cfc_creator_fee_rate (cm_config m))
      else cfc_trade_fee_rate (cm_config m))"

definition cpmm_transfer_fee :: "cpmm_market \<Rightarrow> bool \<Rightarrow> transfer_fee_schedule option" where
  "cpmm_transfer_fee m side_0 = (if side_0 then cm_transfer_fee_0 m else cm_transfer_fee_1 m)"

definition cpmm_program_id :: "sdk \<Rightarrow> pubkey" where
  "cpmm_program_id sdk = pubkey_from_str sdk (program_id_str RaydiumCpmm)"

definition cpmm_token_program :: "cpmm_market \<Rightarrow> pubkey \<Rightarrow> pubkey option" where
  "cpmm_token_program m mint =
     map_option (\<lambda>side_0. if side_0 then cps_program_0 (cm_state m) else cps_program_1 (cm_state m))
       (cpmm_is_side_0 m mint)"

definition cpmm_decimals :: "cpmm_market \<Rightarrow> pubkey \<Rightarrow> u8 option" where
  "cpmm_decimals m mint =
     map_option (\<lambda>side_0. if side_0 then cps_decimals_0 (cm_state m) else cps_decimals_1 (cm_state m))
       (cpmm_is_side_0 m mint)"

definition cpmm_quote :: "cpmm_market \<Rightarrow> pubkey \<Rightarrow> u64 \<Rightarrow> venue_quote direct_swap_result" where
  "cpmm_quote m input_mint amount_in =
     and_then (ok_or (cpmm_is_side_0 m input_mint)
       (PairNotInPool (cps_pool (cm_state m)) input_mint default_pubkey)) (\<lambda>input_is_0.
     let (reserve_0, reserve_1) = cpmm_reserves m;
         (reserve_in, reserve_out) =
           (if input_is_0 then (reserve_0, reserve_1) else (reserve_1, reserve_0)) in
     if reserve_in = 0 \<or> reserve_out = 0
     then Inl (InsufficientLiquidity (cps_pool (cm_state m)) amount_in
            ''a vault side is empty once collectable fees are excluded'')
     else
       let received_by_pool = net_of_fee (cpmm_transfer_fee m input_is_0) amount_in in
       if received_by_pool = 0
       then Inl (InsufficientLiquidity (cps_pool (cm_state m)) amount_in
              ''the input mint's transfer fee consumes the whole amount'')
       else
         let lp_fee = fee_amount received_by_pool (cpmm_input_fee_rate m) FEE_RATE_DENOMINATOR;
             swappable = saturating_sub received_by_pool lp_fee;
             gross_out = constant_product_out reserve_in reserve_out swappable;
             expected_out = net_of_fee (cpmm_transfer_fee m (\<not> input_is_0)) gross_out
         in Inr \<lparr>vq_amount_in = amount_in, vq_expected_out = expected_out, vq_lp_fee = lp_fee,
              vq_price_impact_pct =
                price_impact_pct reserve_in reserve_out amount_in lp_fee expected_out\<rparr>)"

definition cpmm_swap_instruction ::
  "sdk \<Rightarrow> cpmm_market \<Rightarrow> swap_accounts \<Rightarrow> u64 \<Rightarrow> u64 \<Rightarrow> instruction direct_swap_result" where
  "cpmm_swap_instruction sdk m accounts amount_in min_out =
     (let state = cm_state m in
      and_then (oriented_pair (cps_pool state) (cpmm_is_side_0 m) accounts) (\<lambda>input_is_0.
      let (input_vault, output_vault, input_program, output_program) =
            (if input_is_0
             then (cps_vault_0 state, cps_vault_1 state, cps_program_0 state, cps_program_1 state)
             else (cps_vault_1 state, cps_vault_0 state, cps_program_1 state, cps_program_0 state));
          authority = find_program_address sdk [CPMM_AUTHORITY_SEED] (cpmm_program_id sdk)
      in Inr \<lparr>ix_program_id = cpmm_program_id sdk,
           ix_accounts =
             [meta_new_readonly (sa_owner accounts) True,
              meta_new_readonly authority False,
              meta_new_readonly (cps_amm_config state) False,
              meta_new (cps_pool state) False,
              meta_new (sa_input_token_account accounts) False,
              meta_new (sa_output_token_account accounts) False,
              meta_new input_vault False,
              meta_new output_vault False,
              meta_new_readonly input_program False,
              meta_new_readonly output_program False,
              meta_new_readonly (sa_input_mint accounts) False,
              meta_new_readonly (sa_output_mint accounts) False,
              meta_new (cps_observation state) False],
           ix_data = CPMM_SWAP_BASE_INPUT @ u64_to_le_bytes amount_in @ u64_to_le_bytes min_out\<rparr>))"

definition cpmm_as_market :: "sdk \<Rightarrow> cpmm_market \<Rightarrow> pool_market" where
  "cpmm_as_market sdk m =
     \<lparr>pm_program = RaydiumCpmm, pm_pool = cps_pool (cm_state m),
      pm_mints = (cps_mint_0 (cm_state m), cps_mint_1 (cm_state m)),
      pm_token_program = cpmm_token_program m, pm_decimals = cpmm_decimals m,
      pm_quote = cpmm_quote m, pm_swap_instruction = cpmm_swap_instruction sdk m,
      pm_compute_units = CPMM_COMPUTE_UNITS, pm_settles_native_sol = False\<rparr>"

section \<open>Decoding\<close>

lemma cpmm_pool_state_decode_None:
  "cpmm_pool_state_decode pool data = None \<longleftrightarrow> length data < 413"
  unfolding cpmm_pool_state_decode_def by (auto simp: read_at)

lemma cpmm_fee_config_decode_None: "cpmm_fee_config_decode data = None \<longleftrightarrow> length data < 116"
  unfolding cpmm_fee_config_decode_def by (auto simp: read_at)

section \<open>Quotes\<close>

text \<open>A quote that succeeds, with its intermediate figures.\<close>

lemma cpmm_quote_ok:
  assumes "cpmm_quote m mint a = Inr q"
  obtains s ri ro received gross where
    "cpmm_is_side_0 m mint = Some s"
    and "oriented s (cpmm_reserves m) = (ri, ro)"
    and "0 < unat ri" and "0 < unat ro"
    and "received = net_of_fee (cpmm_transfer_fee m s) a" and "0 < unat received"
    and "vq_lp_fee q = fee_amount received (cpmm_input_fee_rate m) FEE_RATE_DENOMINATOR"
    and "gross = constant_product_out ri ro (saturating_sub received (vq_lp_fee q))"
    and "vq_expected_out q = net_of_fee (cpmm_transfer_fee m (\<not> s)) gross"
    and "vq_amount_in q = a"
    and "vq_price_impact_pct q = price_impact_pct ri ro a (vq_lp_fee q) (vq_expected_out q)"
proof -
  obtain s where s: "cpmm_is_side_0 m mint = Some s"
    using assms by (auto simp: cpmm_quote_def)
  obtain r0 r1 where r: "cpmm_reserves m = (r0, r1)" by (cases "cpmm_reserves m")
  show ?thesis
    by (rule that [of s "if s then r0 else r1" "if s then r1 else r0"
          "net_of_fee (cpmm_transfer_fee m s) a"])
      (use assms s r in \<open>auto simp: cpmm_quote_def Let_def unat_gt_0 split: if_splits\<close>)
qed

lemma cpmm_reserve_le_vault:
  "unat (fst (cpmm_reserves m)) \<le> unat (cm_vault_0_balance m)"
  "unat (snd (cpmm_reserves m)) \<le> unat (cm_vault_1_balance m)"
  by (simp_all add: cpmm_reserves_def cpmm_tradable_reserves_def unat_simps)

lemma cpmm_quote_below_reserve:
  assumes "cpmm_quote m mint a = Inr q" and "cpmm_is_side_0 m mint = Some s"
  shows "unat (vq_expected_out q) < unat (snd (oriented s (cpmm_reserves m)))"
proof (cases rule: cpmm_quote_ok [OF assms(1)])
  case (1 s' ri ro received gross)
  then have "unat gross < unat ro" by (simp add: constant_product_out_less)
  then show ?thesis
    using 1 assms(2) net_of_fee_le [of "cpmm_transfer_fee m (\<not> s')" gross] by simp
qed

lemma cpmm_quote_fee_le: "cpmm_quote m mint a = Inr q \<Longrightarrow> unat (vq_lp_fee q) \<le> unat a"
  by (erule cpmm_quote_ok) (metis fee_amount_le net_of_fee_le le_trans)

text \<open>
  After the trade the pool holds at least what it received and has paid out the gross
  amount; the product of the tradable reserves has not dropped.
\<close>

lemma cpmm_quote_invariant:
  assumes "cpmm_quote m mint a = Inr q" and "cpmm_is_side_0 m mint = Some s"
    and "oriented s (cpmm_reserves m) = (ri, ro)"
  shows "unat ri * unat ro \<le> (unat ri + unat a) * (unat ro - unat (vq_expected_out q))"
proof (cases rule: cpmm_quote_ok [OF assms(1)])
  case (1 s' ri' ro' received gross)
  have same: "ri' = ri" "ro' = ro" using 1 assms by auto
  let ?x = "saturating_sub received (vq_lp_fee q)"
  have "unat ri * unat ro \<le> (unat ri + unat ?x) * (unat ro - unat gross)"
    using constant_product_invariant [of ri ro ?x] 1 same by simp
  also have "\<dots> \<le> (unat ri + unat a) * (unat ro - unat (vq_expected_out q))"
  proof (rule mult_le_mono)
    show "unat ri + unat ?x \<le> unat ri + unat a"
      using 1 net_of_fee_le [of "cpmm_transfer_fee m s'" a] by (simp add: unat_simps)
    show "unat ro - unat gross \<le> unat ro - unat (vq_expected_out q)"
      using 1 net_of_fee_le [of "cpmm_transfer_fee m (\<not> s')" gross] by simp
  qed
  finally show ?thesis .
qed

lemma cpmm_quote_mono:
  assumes "cpmm_quote m mint a = Inr q" and "cpmm_quote m mint b = Inr r" and "a \<le> b"
  shows "vq_expected_out q \<le> vq_expected_out r"
proof (cases rule: cpmm_quote_ok [OF assms(1)])
  case q: (1 s ri ro received gross)
  show ?thesis
  proof (cases rule: cpmm_quote_ok [OF assms(2)])
    case r: (1 s' ri' ro' received' gross')
    have same: "s' = s" using q(1) r(1) by simp
    have same': "ri' = ri" "ro' = ro" using q(2) r(2) same by auto
    have "unat received \<le> unat received'"
      using assms(3) q r same by (simp add: net_of_fee_mono word_le_nat_alt)
    then have "unat (saturating_sub received (vq_lp_fee q))
        \<le> unat (saturating_sub received' (vq_lp_fee r))"
      using q r by (simp add: unat_simps after_fee_mono)
    then have "unat gross \<le> unat gross'"
      using q r same' by (simp add: constant_product_mono)
    then show ?thesis
      using q r same by (simp add: net_of_fee_mono word_le_nat_alt)
  qed
qed

text \<open>The only failures of a quote.\<close>

lemma cpmm_quote_error:
  assumes "cpmm_quote m mint a = Inl e"
  shows "is_token_fault e"
proof -
  obtain r0 r1 where r: "cpmm_reserves m = (r0, r1)" by (cases "cpmm_reserves m")
  show ?thesis
  proof (cases "cpmm_is_side_0 m mint")
    case None
    then show ?thesis using assms by (auto simp: cpmm_quote_def)
  next
    case (Some s)
    then show ?thesis using assms unfolding cpmm_quote_def Let_def r
      by (cases s) (auto split: if_split_asm)
  qed
qed

section \<open>The contract\<close>

lemma cpmm_side: "cpmm_is_side_0 m = side_of (cps_mint_0 (cm_state m)) (cps_mint_1 (cm_state m))"
  by (rule ext) (simp add: cpmm_is_side_0_def)

lemmas cpmm_as_market_simps = cpmm_as_market_def holds_def cpmm_side

lemma cpmm_swap_contract:
  assumes "cpmm_swap_instruction sdk m accounts a mo = Inr ix"
  shows "swap_contract 8 16 (cpmm_as_market sdk m) accounts a mo ix"
proof -
  obtain s where s: "oriented_pair (cps_pool (cm_state m)) (cpmm_is_side_0 m) accounts = Inr s"
    using assms by (auto simp: cpmm_swap_instruction_def Let_def)
  have pair: "trades (cpmm_as_market sdk m) (sa_input_mint accounts) (sa_output_mint accounts)"
    using s unfolding cpmm_side by (rule oriented_pair_trades) (simp add: cpmm_as_market_def)
  have len: "length CPMM_SWAP_BASE_INPUT = 8" by (simp add: CPMM_SWAP_BASE_INPUT_def)
  show ?thesis
    unfolding swap_contract_def
    using assms s pair swap_data_read [OF len, of a mo "[]"]
    by (auto simp: cpmm_swap_instruction_def Let_def meta_new_def meta_new_readonly_def
        split: prod.splits)
qed

interpretation cpmm: market "cpmm_as_market sdk" "\<lambda>_ _. 8" "\<lambda>_ _. 16"
proof
  fix m :: cpmm_market and mint a q accounts mo ix
  show "pm_token_program (cpmm_as_market sdk m) mint \<noteq> None \<longleftrightarrow> holds (cpmm_as_market sdk m) mint"
    by (simp add: cpmm_as_market_simps cpmm_token_program_def)
  show "pm_decimals (cpmm_as_market sdk m) mint \<noteq> None \<longleftrightarrow> holds (cpmm_as_market sdk m) mint"
    by (simp add: cpmm_as_market_simps cpmm_decimals_def)
  show "holds (cpmm_as_market sdk m) mint \<and> sane_quote a q"
    if "pm_quote (cpmm_as_market sdk m) mint a = Inr q"
  proof -
    have "cpmm_quote m mint a = Inr q" using that by (simp add: cpmm_as_market_def)
    then show ?thesis
      by (rule cpmm_quote_ok)
        (auto simp: cpmm_as_market_simps sane_quote_def price_impact_pct_range
          dest!: side_of_Some)
  qed
  show "swap_contract 8 16 (cpmm_as_market sdk m) accounts a mo ix"
    if "pm_swap_instruction (cpmm_as_market sdk m) accounts a mo = Inr ix"
    using that by (intro cpmm_swap_contract) (simp add: cpmm_as_market_def)
qed

section \<open>Loading\<close>

text \<open>A market that loads is one whose pool decodes, allows swapping and is open.\<close>

lemma cpmm_load_ok:
  assumes "cpmm_load sdk now pool acc reader = Inr m"
  shows "cpmm_pool_state_decode pool (acc_data acc) = Some (cm_state m)"
    and "cpmm_swap_enabled (cm_state m)" and "cpmm_is_open (cm_state m) now"
  using assms by (auto simp: cpmm_load_def Let_def split: if_splits)

lemma cpmm_load_no_panic:
  assumes "cpmm_load sdk now pool acc reader = Inl (Panic d)"
  shows "\<exists>addresses. reader addresses = Inl (Panic d)"
  using assms by (auto simp: cpmm_load_def Let_def dest!: required_no_panic [rotated] split: if_splits)

section \<open>Properties\<close>


definition sample_cpmm_state :: cpmm_pool_state where
  "sample_cpmm_state = \<lparr>cps_pool = sample_key ''pool'', cps_amm_config = sample_key ''config'',
     cps_vault_0 = sample_key ''vault0'', cps_vault_1 = sample_key ''vault1'',
     cps_mint_0 = sample_key SOL_MINT, cps_mint_1 = sample_key ''token'',
     cps_program_0 = spl_token_id sample_sdk, cps_program_1 = spl_token_id sample_sdk,
     cps_observation = sample_key ''observation'', cps_decimals_0 = 9, cps_decimals_1 = 6,
     cps_status = 0, cps_open_time = 0, cps_protocol_fees_0 = 10, cps_protocol_fees_1 = 20,
     cps_fund_fees_0 = 0, cps_fund_fees_1 = 0, cps_creator_fees_0 = 0, cps_creator_fees_1 = 0,
     cps_creator_fee_enabled = False\<rparr>"

definition sample_cpmm :: cpmm_market where
  "sample_cpmm = \<lparr>cm_state = sample_cpmm_state,
     cm_config = \<lparr>cfc_trade_fee_rate = 2500, cfc_protocol_fee_rate = 120000,
       cfc_fund_fee_rate = 40000, cfc_creator_fee_rate = 0\<rparr>,
     cm_vault_0_balance = 1000000010, cm_vault_1_balance = 2000000020,
     cm_transfer_fee_0 = None, cm_transfer_fee_1 = None\<rparr>"

lemmas sample_cpmm_defs = sample_cpmm_def sample_cpmm_state_def cpmm_is_side_0_def side_of_def
  cpmm_reserves_def cpmm_tradable_reserves_def saturating_sub_def sample_keys_apart

lemma sample_cpmm_sides:
  "cpmm_is_side_0 sample_cpmm (sample_key SOL_MINT) = Some True"
  "cpmm_is_side_0 sample_cpmm (sample_key ''token'') = Some False"
  using sample_keys_apart by (simp_all add: sample_cpmm_defs eq_commute)

lemma sample_cpmm_reserves: "cpmm_reserves sample_cpmm = (1000000000, 2000000000)"
  by (simp add: sample_cpmm_defs)

lemma sample_cpmm_quote:
  assumes "cpmm_is_side_0 sample_cpmm mint = Some s" and "a \<noteq> 0"
  shows "\<exists>q. cpmm_quote sample_cpmm mint a = Inr q"
proof -
  have "cpmm_transfer_fee sample_cpmm t = None" for t by (simp add: cpmm_transfer_fee_def sample_cpmm_def)
  then show ?thesis
    using assms by (cases s) (simp_all add: cpmm_quote_def sample_cpmm_reserves net_of_fee_def Let_def)
qed


text \<open>A larger input of the same mint never gets a smaller CP-Swap quote.\<close>

theorem cpmm_quote_monotone:
  assumes "cpmm_quote m mint a = Inr q" and "cpmm_quote m mint b = Inr r" and "a \<le> b"
  shows "vq_expected_out q \<le> vq_expected_out r"
  by (rule cpmm_quote_mono [OF assms])

theorem cpmm_quote_monotone_witness:
  "\<exists>q r. cpmm_quote sample_cpmm (sample_key ''token'') 1000 = Inr q
       \<and> cpmm_quote sample_cpmm (sample_key ''token'') 2000 = Inr r \<and> vq_expected_out q \<le> vq_expected_out r"
proof -
  obtain q r where q: "cpmm_quote sample_cpmm (sample_key ''token'') 1000 = Inr q"
    and r: "cpmm_quote sample_cpmm (sample_key ''token'') 2000 = Inr r"
    using sample_cpmm_quote [OF sample_cpmm_sides(2), of 1000] sample_cpmm_quote [OF sample_cpmm_sides(2), of 2000]
    by auto
  show ?thesis using cpmm_quote_monotone [OF q r] q r by simp
qed

text \<open>
  What can go wrong when a CP-Swap pool is loaded and quoted. A pool that does not decode
  is shorter than its layout, loading never indexes past the accounts it was given, and a
  refused quote is always a fault of the token's pool, which another route may still serve.
\<close>

theorem cpmm_failures:
  "(cpmm_pool_state_decode pool data = None \<longleftrightarrow> length data < 413)
   \<and> (case cpmm_load sdk now pool acc (\<lambda>addresses. Inr (map f addresses)) of
        Inl e \<Rightarrow> \<forall>d. e \<noteq> Panic d
      | Inr m \<Rightarrow> cpmm_swap_enabled (cm_state m) \<and> cpmm_is_open (cm_state m) now)
   \<and> (case cpmm_quote m mint a of
        Inl e \<Rightarrow> is_token_fault e \<and> safe_to_fallback e
      | Inr q \<Rightarrow> vq_amount_in q = a)"
proof (intro conjI)
  show "cpmm_pool_state_decode pool data = None \<longleftrightarrow> length data < 413"
    by (rule cpmm_pool_state_decode_None)
  show "case cpmm_load sdk now pool acc (\<lambda>addresses. Inr (map f addresses)) of
        Inl e \<Rightarrow> \<forall>d. e \<noteq> Panic d
      | Inr m \<Rightarrow> cpmm_swap_enabled (cm_state m) \<and> cpmm_is_open (cm_state m) now"
    using cpmm_load_no_panic [of sdk now pool acc "\<lambda>addresses. Inr (map f addresses)"]
    by (auto split: sum.split dest: cpmm_load_ok)
  show "case cpmm_quote m mint a of
        Inl e \<Rightarrow> is_token_fault e \<and> safe_to_fallback e
      | Inr q \<Rightarrow> vq_amount_in q = a"
    using cpmm_quote_error [of m mint a] token_fault_not_submitted
    by (auto split: sum.split elim: cpmm_quote_ok)
qed

end
