(* ===== verification/Raydium_Amm_V4.thy ===== *)
theory Raydium_Amm_V4
  imports Swap_Plan
begin

text \<open>
  The Raydium AMM v4 venue: the layout of
  \<open>src/chains/solana/pools/layouts/raydium_amm_v4.rs\<close> and the market of
  \<open>src/chains/solana/swaps/direct/venues/raydium_amm_v4.rs\<close>. The programme
  predates Anchor: its discriminator is one byte, and the vaults are passed in the
  pool's own order whatever the direction of the trade.
\<close>

section \<open>Layout\<close>

record amm_v4_pool_state =
  avs_pool :: pubkey
  avs_status :: u64
  avs_coin_decimals :: u8
  avs_pc_decimals :: u8
  avs_swap_fee_numerator :: u64
  avs_swap_fee_denominator :: u64
  avs_need_take_pnl_coin :: u64
  avs_need_take_pnl_pc :: u64
  avs_coin_vault :: pubkey
  avs_pc_vault :: pubkey
  avs_coin_mint :: pubkey
  avs_pc_mint :: pubkey
  avs_open_orders :: pubkey
  avs_market :: pubkey
  avs_market_program :: pubkey
  avs_target_orders :: pubkey

text \<open>\<open>.min(u8::MAX as u64) as u8\<close>.\<close>

definition cap_u8 :: "u64 \<Rightarrow> u8" where
  "cap_u8 x = ucast (min x 255)"

definition amm_v4_decode :: "pubkey \<Rightarrow> bytes \<Rightarrow> amm_v4_pool_state option" where
  "amm_v4_decode pool data = do {
     status \<leftarrow> u64_at data 0;
     coin_decimals \<leftarrow> u64_at data 32;
     pc_decimals \<leftarrow> u64_at data 40;
     swap_fee_numerator \<leftarrow> u64_at data 176;
     swap_fee_denominator \<leftarrow> u64_at data 184;
     need_take_pnl_coin \<leftarrow> u64_at data 192;
     need_take_pnl_pc \<leftarrow> u64_at data 200;
     coin_vault \<leftarrow> pubkey_at data 336;
     pc_vault \<leftarrow> pubkey_at data 368;
     coin_mint \<leftarrow> pubkey_at data 400;
     pc_mint \<leftarrow> pubkey_at data 432;
     open_orders \<leftarrow> pubkey_at data 496;
     market \<leftarrow> pubkey_at data 528;
     market_program \<leftarrow> pubkey_at data 560;
     target_orders \<leftarrow> pubkey_at data 592;
     Some \<lparr>avs_pool = pool, avs_status = status, avs_coin_decimals = cap_u8 coin_decimals,
       avs_pc_decimals = cap_u8 pc_decimals, avs_swap_fee_numerator = swap_fee_numerator,
       avs_swap_fee_denominator = swap_fee_denominator,
       avs_need_take_pnl_coin = need_take_pnl_coin, avs_need_take_pnl_pc = need_take_pnl_pc,
       avs_coin_vault = coin_vault, avs_pc_vault = pc_vault, avs_coin_mint = coin_mint,
       avs_pc_mint = pc_mint, avs_open_orders = open_orders, avs_market = market,
       avs_market_program = market_program, avs_target_orders = target_orders\<rparr>
   }"

definition SWAPPABLE_STATUSES :: "u64 list" where
  "SWAPPABLE_STATUSES = [1, 6, 7]"

definition amm_v4_swap_enabled :: "amm_v4_pool_state \<Rightarrow> bool" where
  "amm_v4_swap_enabled s \<longleftrightarrow> avs_status s \<in> set SWAPPABLE_STATUSES"

definition amm_v4_tradable_reserves :: "amm_v4_pool_state \<Rightarrow> u64 \<Rightarrow> u64 \<Rightarrow> u64 \<times> u64" where
  "amm_v4_tradable_reserves s coin_balance pc_balance =
     (saturating_sub coin_balance (avs_need_take_pnl_coin s),
      saturating_sub pc_balance (avs_need_take_pnl_pc s))"

section \<open>The market\<close>

definition SWAP_BASE_IN_TAG :: u8 where
  "SWAP_BASE_IN_TAG = 9"

definition AMM_V4_AUTHORITY_SEED :: bytes where
  "AMM_V4_AUTHORITY_SEED = [97, 109, 109, 32, 97, 117, 116, 104, 111, 114, 105, 116, 121]"

definition AMM_V4_COMPUTE_UNITS :: u32 where
  "AMM_V4_COMPUTE_UNITS = 100000"

record amm_v4_market =
  avm_state :: amm_v4_pool_state
  avm_coin_balance :: u64
  avm_pc_balance :: u64

definition amm_v4_load ::
  "pubkey \<Rightarrow> account \<Rightarrow> account_reader \<Rightarrow> amm_v4_market direct_swap_result" where
  "amm_v4_load pool pool_account reader =
     and_then (ok_or (amm_v4_decode pool (acc_data pool_account))
       (PoolUndecodable pool ''AMM v4 pool state did not match the expected layout ({} bytes)''))
       (\<lambda>state.
     if \<not> amm_v4_swap_enabled state
     then Inl (PoolNotTradable pool ''status {} does not permit swapping'')
     else
       let addresses = [avs_coin_vault state, avs_pc_vault state] in
       and_then (reader addresses) (\<lambda>accounts.
       let balance = (\<lambda>index.
             and_then (required addresses accounts ''vault does not exist'' index) (\<lambda>account.
             ok_or (token_account_amount (acc_data account))
               (PoolUndecodable pool ''vault is not a token account''))) in
       and_then (balance 0) (\<lambda>coin_balance.
       and_then (balance 1) (\<lambda>pc_balance.
       Inr \<lparr>avm_state = state, avm_coin_balance = coin_balance, avm_pc_balance = pc_balance\<rparr>))))"

definition amm_v4_reserves :: "amm_v4_market \<Rightarrow> u64 \<times> u64" where
  "amm_v4_reserves m =
     amm_v4_tradable_reserves (avm_state m) (avm_coin_balance m) (avm_pc_balance m)"

definition amm_v4_is_coin :: "amm_v4_market \<Rightarrow> pubkey \<Rightarrow> bool option" where
  "amm_v4_is_coin m mint = side_of (avs_coin_mint (avm_state m)) (avs_pc_mint (avm_state m)) mint"

definition amm_v4_program_id :: "sdk \<Rightarrow> pubkey" where
  "amm_v4_program_id sdk = pubkey_from_str sdk (program_id_str RaydiumLegacyAmm)"

definition amm_v4_token_program :: "sdk \<Rightarrow> amm_v4_market \<Rightarrow> pubkey \<Rightarrow> pubkey option" where
  "amm_v4_token_program sdk m mint = map_option (\<lambda>_. spl_token_id sdk) (amm_v4_is_coin m mint)"

definition amm_v4_decimals :: "amm_v4_market \<Rightarrow> pubkey \<Rightarrow> u8 option" where
  "amm_v4_decimals m mint =
     map_option (\<lambda>coin. if coin then avs_coin_decimals (avm_state m) else avs_pc_decimals (avm_state m))
       (amm_v4_is_coin m mint)"

definition amm_v4_quote :: "amm_v4_market \<Rightarrow> pubkey \<Rightarrow> u64 \<Rightarrow> venue_quote direct_swap_result" where
  "amm_v4_quote m input_mint amount_in =
     and_then (ok_or (amm_v4_is_coin m input_mint)
       (PairNotInPool (avs_pool (avm_state m)) input_mint default_pubkey)) (\<lambda>input_is_coin.
     let (coin_reserve, pc_reserve) = amm_v4_reserves m;
         (reserve_in, reserve_out) =
           (if input_is_coin then (coin_reserve, pc_reserve) else (pc_reserve, coin_reserve)) in
     if reserve_in = 0 \<or> reserve_out = 0
     then Inl (InsufficientLiquidity (avs_pool (avm_state m)) amount_in
            ''a vault side is empty once earmarked profit is excluded'')
     else
       let lp_fee = fee_amount amount_in (avs_swap_fee_numerator (avm_state m))
             (avs_swap_fee_denominator (avm_state m));
           swappable = saturating_sub amount_in lp_fee;
           expected_out = constant_product_out reserve_in reserve_out swappable
       in Inr \<lparr>vq_amount_in = amount_in, vq_expected_out = expected_out, vq_lp_fee = lp_fee,
            vq_price_impact_pct =
              price_impact_pct reserve_in reserve_out amount_in lp_fee expected_out\<rparr>)"

definition amm_v4_swap_instruction ::
  "sdk \<Rightarrow> amm_v4_market \<Rightarrow> swap_accounts \<Rightarrow> u64 \<Rightarrow> u64 \<Rightarrow> instruction direct_swap_result" where
  "amm_v4_swap_instruction sdk m accounts amount_in min_out =
     (let state = avm_state m in
      and_then (oriented_pair (avs_pool state) (amm_v4_is_coin m) accounts) (\<lambda>_.
      let authority = find_program_address sdk [AMM_V4_AUTHORITY_SEED] (amm_v4_program_id sdk);
          metas =
            [meta_new_readonly (spl_token_id sdk) False,
             meta_new (avs_pool state) False,
             meta_new_readonly authority False,
             meta_new (avs_pool state) False,
             meta_new (avs_coin_vault state) False,
             meta_new (avs_pc_vault state) False]
            @ replicate 8 (meta_new (avs_pool state) False)
            @ [meta_new (sa_input_token_account accounts) False,
               meta_new (sa_output_token_account accounts) False,
               meta_new_readonly (sa_owner accounts) True]
      in Inr \<lparr>ix_program_id = amm_v4_program_id sdk, ix_accounts = metas,
           ix_data = [SWAP_BASE_IN_TAG] @ u64_to_le_bytes amount_in @ u64_to_le_bytes min_out\<rparr>))"

definition amm_v4_as_market :: "sdk \<Rightarrow> amm_v4_market \<Rightarrow> pool_market" where
  "amm_v4_as_market sdk m =
     \<lparr>pm_program = RaydiumLegacyAmm, pm_pool = avs_pool (avm_state m),
      pm_mints = (avs_coin_mint (avm_state m), avs_pc_mint (avm_state m)),
      pm_token_program = amm_v4_token_program sdk m, pm_decimals = amm_v4_decimals m,
      pm_quote = amm_v4_quote m, pm_swap_instruction = amm_v4_swap_instruction sdk m,
      pm_compute_units = AMM_V4_COMPUTE_UNITS, pm_settles_native_sol = False\<rparr>"

section \<open>Decoding\<close>

lemma amm_v4_decode_None: "amm_v4_decode pool data = None \<longleftrightarrow> length data < 624"
  unfolding amm_v4_decode_def by (auto simp: read_at)

section \<open>Quotes\<close>

lemma amm_v4_quote_ok:
  assumes "amm_v4_quote m mint a = Inr q"
  obtains s ri ro where
    "amm_v4_is_coin m mint = Some s"
    and "oriented s (amm_v4_reserves m) = (ri, ro)"
    and "0 < unat ri" and "0 < unat ro"
    and "vq_lp_fee q = fee_amount a (avs_swap_fee_numerator (avm_state m))
           (avs_swap_fee_denominator (avm_state m))"
    and "vq_expected_out q = constant_product_out ri ro (saturating_sub a (vq_lp_fee q))"
    and "vq_amount_in q = a"
    and "vq_price_impact_pct q = price_impact_pct ri ro a (vq_lp_fee q) (vq_expected_out q)"
proof -
  obtain s where s: "amm_v4_is_coin m mint = Some s"
    using assms by (auto simp: amm_v4_quote_def)
  obtain r0 r1 where r: "amm_v4_reserves m = (r0, r1)" by (cases "amm_v4_reserves m")
  show ?thesis
    by (rule that [of s "if s then r0 else r1" "if s then r1 else r0"])
      (use assms s r in \<open>auto simp: amm_v4_quote_def Let_def unat_gt_0 split: if_splits\<close>)
qed

lemma amm_v4_quote_below_reserve:
  assumes "amm_v4_quote m mint a = Inr q" and "amm_v4_is_coin m mint = Some s"
  shows "unat (vq_expected_out q) < unat (snd (oriented s (amm_v4_reserves m)))"
  by (rule amm_v4_quote_ok [OF assms(1)]) (use assms(2) in \<open>simp add: constant_product_out_less\<close>)

lemma amm_v4_quote_invariant:
  assumes "amm_v4_quote m mint a = Inr q" and "amm_v4_is_coin m mint = Some s"
    and "oriented s (amm_v4_reserves m) = (ri, ro)"
  shows "unat ri * unat ro \<le> (unat ri + unat a) * (unat ro - unat (vq_expected_out q))"
proof (cases rule: amm_v4_quote_ok [OF assms(1)])
  case (1 s' ri' ro')
  have same: "ri' = ri" "ro' = ro" using 1 assms by auto
  let ?x = "saturating_sub a (vq_lp_fee q)"
  have "unat ri * unat ro \<le> (unat ri + unat ?x) * (unat ro - unat (vq_expected_out q))"
    using constant_product_invariant [of ri ro ?x] 1 same by simp
  also have "\<dots> \<le> (unat ri + unat a) * (unat ro - unat (vq_expected_out q))"
    by (simp add: unat_simps)
  finally show ?thesis .
qed

lemma amm_v4_quote_mono:
  assumes "amm_v4_quote m mint a = Inr q" and "amm_v4_quote m mint b = Inr r" and "a \<le> b"
  shows "vq_expected_out q \<le> vq_expected_out r"
proof (cases rule: amm_v4_quote_ok [OF assms(1)])
  case q: (1 s ri ro)
  show ?thesis
  proof (cases rule: amm_v4_quote_ok [OF assms(2)])
    case r: (1 s' ri' ro')
    have "s' = s" using q(1) r(1) by simp
    then have same: "ri' = ri" "ro' = ro" using q(2) r(2) by auto
    have "unat (saturating_sub a (vq_lp_fee q)) \<le> unat (saturating_sub b (vq_lp_fee r))"
      using assms(3) q r by (simp add: unat_simps after_fee_mono word_le_nat_alt)
    then show ?thesis
      using q r same by (simp add: constant_product_mono word_le_nat_alt)
  qed
qed

section \<open>The contract\<close>

lemma amm_v4_side: "amm_v4_is_coin m = side_of (avs_coin_mint (avm_state m)) (avs_pc_mint (avm_state m))"
  by (rule ext) (simp add: amm_v4_is_coin_def)

lemmas amm_v4_as_market_simps = amm_v4_as_market_def holds_def amm_v4_side

lemma amm_v4_swap_contract:
  assumes "amm_v4_swap_instruction sdk m accounts a mo = Inr ix"
  shows "swap_contract 1 9 (amm_v4_as_market sdk m) accounts a mo ix"
proof -
  obtain s where s: "oriented_pair (avs_pool (avm_state m)) (amm_v4_is_coin m) accounts = Inr s"
    using assms by (auto simp: amm_v4_swap_instruction_def Let_def)
  have pair: "trades (amm_v4_as_market sdk m) (sa_input_mint accounts) (sa_output_mint accounts)"
    using s unfolding amm_v4_side by (rule oriented_pair_trades) (simp add: amm_v4_as_market_def)
  have len: "length [SWAP_BASE_IN_TAG] = 1" by simp
  show ?thesis
    unfolding swap_contract_def
    using assms s pair swap_data_read [OF len, of a mo "[]"]
    by (auto simp: amm_v4_swap_instruction_def Let_def meta_new_def meta_new_readonly_def
        list_all_iff)
qed

text \<open>The programme reads 17 accounts; every one the pool has no market for is the pool itself.\<close>

lemma amm_v4_account_count:
  "amm_v4_swap_instruction sdk m accounts a mo = Inr ix \<Longrightarrow> length (ix_accounts ix) = 17"
  by (auto simp: amm_v4_swap_instruction_def Let_def)

interpretation amm_v4: market "amm_v4_as_market sdk" "\<lambda>_ _. 1" "\<lambda>_ _. 9"
proof
  fix m :: amm_v4_market and mint a q accounts mo ix
  show "pm_token_program (amm_v4_as_market sdk m) mint \<noteq> None \<longleftrightarrow> holds (amm_v4_as_market sdk m) mint"
    by (simp add: amm_v4_as_market_simps amm_v4_token_program_def)
  show "pm_decimals (amm_v4_as_market sdk m) mint \<noteq> None \<longleftrightarrow> holds (amm_v4_as_market sdk m) mint"
    by (simp add: amm_v4_as_market_simps amm_v4_decimals_def)
  show "holds (amm_v4_as_market sdk m) mint \<and> sane_quote a q"
    if "pm_quote (amm_v4_as_market sdk m) mint a = Inr q"
  proof -
    have "amm_v4_quote m mint a = Inr q" using that by (simp add: amm_v4_as_market_def)
    then show ?thesis
      by (rule amm_v4_quote_ok)
        (auto simp: amm_v4_as_market_simps sane_quote_def price_impact_pct_range
          dest!: side_of_Some)
  qed
  show "swap_contract 1 9 (amm_v4_as_market sdk m) accounts a mo ix"
    if "pm_swap_instruction (amm_v4_as_market sdk m) accounts a mo = Inr ix"
    using that by (intro amm_v4_swap_contract) (simp add: amm_v4_as_market_def)
qed

lemma amm_v4_load_ok:
  assumes "amm_v4_load pool acc reader = Inr m"
  shows "amm_v4_decode pool (acc_data acc) = Some (avm_state m)"
    and "amm_v4_swap_enabled (avm_state m)"
  using assms by (auto simp: amm_v4_load_def Let_def split: if_splits)

section \<open>Properties\<close>

text \<open>
  A quote of the legacy Raydium AMM, as for CP-Swap: below the reserve, product kept, and
  monotone in the amount.
\<close>

theorem amm_v4_quote_sound:
  assumes "amm_v4_quote m mint a = Inr q" and "amm_v4_quote m mint b = Inr r" and "a \<le> b"
    and "amm_v4_is_coin m mint = Some s" and "oriented s (amm_v4_reserves m) = (ri, ro)"
  shows "unat (vq_expected_out q) < unat ro \<and> vq_expected_out q \<le> vq_expected_out r
       \<and> unat ri * unat ro \<le> (unat ri + unat a) * (unat ro - unat (vq_expected_out q))"
  using amm_v4_quote_below_reserve [OF assms(1,4)] amm_v4_quote_mono [OF assms(1-3)]
    amm_v4_quote_invariant [OF assms(1,4,5)] assms(5) by simp

definition sample_amm_v4 :: amm_v4_market where
  "sample_amm_v4 = \<lparr>avm_state = \<lparr>avs_pool = sample_key ''pool'', avs_status = 6, avs_coin_decimals = 9,
       avs_pc_decimals = 6, avs_swap_fee_numerator = 25, avs_swap_fee_denominator = 10000,
       avs_need_take_pnl_coin = 0, avs_need_take_pnl_pc = 0, avs_coin_vault = sample_key ''vault0'',
       avs_pc_vault = sample_key ''vault1'', avs_coin_mint = sample_key SOL_MINT,
       avs_pc_mint = sample_key ''token'', avs_open_orders = sample_key ''orders'',
       avs_market = sample_key ''market'', avs_market_program = sample_key ''serum'',
       avs_target_orders = sample_key ''target''\<rparr>,
     avm_coin_balance = 1000000000, avm_pc_balance = 2000000000\<rparr>"

theorem amm_v4_quote_sound_witness:
  "\<exists>q. amm_v4_quote sample_amm_v4 (sample_key SOL_MINT) 1000000 = Inr q
     \<and> unat (vq_expected_out q) < 2000000000
     \<and> 1000000000 * 2000000000 \<le> (1000000000 + 1000000) * (2000000000 - unat (vq_expected_out q))"
proof -
  have side: "amm_v4_is_coin sample_amm_v4 (sample_key SOL_MINT) = Some True"
    by (simp add: sample_amm_v4_def amm_v4_is_coin_def side_of_def)
  have reserves: "amm_v4_reserves sample_amm_v4 = (1000000000, 2000000000)"
    by (simp add: sample_amm_v4_def amm_v4_reserves_def amm_v4_tradable_reserves_def saturating_sub_def)
  obtain q where q: "amm_v4_quote sample_amm_v4 (sample_key SOL_MINT) 1000000 = Inr q"
    by (simp add: amm_v4_quote_def side reserves Let_def)
  show ?thesis using amm_v4_quote_sound [OF q q _ side] q by (simp add: reserves)
qed

end
