(* ===== verification/Clmm_Ticks.thy ===== *)
theory Clmm_Ticks
  imports Amount_Math Curve_Math Direct_Types
begin

text \<open>
  Ticks of the concentrated-liquidity venues: the tick and bitmap layouts of
  \<open>src/chains/solana/pools/layouts/raydium_clmm.rs\<close> and \<open>clmm_ticks.rs\<close>, and
  the tick arithmetic and the tick walk of
  \<open>src/chains/solana/swaps/direct/venues/clmm_ticks.rs\<close>.

  The lemmas show where a tick lives (the floor of a truncating division), that the
  sqrt-price chain is defined on exactly the ticks of the programme's range and never
  overflows there, that the bitmap scan returns the first initialised arrays in the
  direction of the price, and what a step of the walk charges and pays.
\<close>

section \<open>Layouts\<close>

definition TICK_ARRAY_SIZE :: i32 where
  "TICK_ARRAY_SIZE = 60"

definition POOL_BITMAP_BITS :: i32 where
  "POOL_BITMAP_BITS = 1024"

definition EXTENSION_BLOCKS :: nat where
  "EXTENSION_BLOCKS = 14"

definition EXTENSION_BLOCK_BITS :: i32 where
  "EXTENSION_BLOCK_BITS = 512"

definition TICKS_OFFSET :: nat where
  "TICKS_OFFSET = 44"

definition TICK_STATE_SIZE :: nat where
  "TICK_STATE_SIZE = 168"

record initialized_tick =
  it_tick :: i32
  it_liquidity_net :: i128

text \<open>The loop of \<open>decode_tick_array\<close> over the slots \<open>i\<close>, \<open>i + 1\<close>, \<open>...\<close>.\<close>

fun decode_tick_slots :: "bytes \<Rightarrow> nat list \<Rightarrow> initialized_tick list \<Rightarrow> initialized_tick list option" where
  "decode_tick_slots data [] ticks = Some ticks"
| "decode_tick_slots data (i # slots) ticks =
     (let offset = TICKS_OFFSET + i * TICK_STATE_SIZE in do {
        tick \<leftarrow> i32_at data offset;
        liquidity_net \<leftarrow> i128_at data (offset + 4);
        liquidity_gross \<leftarrow> u128_at data (offset + 20);
        decode_tick_slots data slots
          (if liquidity_gross \<noteq> 0
           then ticks @ [\<lparr>it_tick = tick, it_liquidity_net = liquidity_net\<rparr>] else ticks)
      })"

definition decode_tick_array :: "pubkey \<Rightarrow> bytes \<Rightarrow> initialized_tick list option" where
  "decode_tick_array pool data = do {
     owner \<leftarrow> pubkey_at data 8;
     (if owner \<noteq> pool then None
      else decode_tick_slots data [0..<nat TICK_ARRAY_SIZE] [])
   }"

record tick_array_bitmap =
  tb_pool :: "u64 list"
  tb_positive :: "u64 list list"
  tb_negative :: "u64 list list"

text \<open>\<open>u64_at\<close> at \<open>count\<close> consecutive words, or nothing.\<close>

fun read_words :: "bytes \<Rightarrow> nat \<Rightarrow> nat \<Rightarrow> u64 list option" where
  "read_words data offset 0 = Some []"
| "read_words data offset (Suc count) = do {
     word \<leftarrow> u64_at data offset;
     rest \<leftarrow> read_words data (offset + 8) count;
     Some (word # rest)
   }"

definition bitmap_from_pool_state :: "bytes \<Rightarrow> tick_array_bitmap option" where
  "bitmap_from_pool_state data = do {
     pool \<leftarrow> read_words data 904 16;
     Some \<lparr>tb_pool = pool, tb_positive = [], tb_negative = []\<rparr>
   }"

text \<open>
  The two loops of \<open>with_extension\<close>: blocks are pushed until one cannot be read,
  which ends the whole function.
\<close>

fun push_blocks :: "bytes \<Rightarrow> nat \<Rightarrow> nat \<Rightarrow> u64 list list \<times> bool" where
  "push_blocks data offset 0 = ([], True)"
| "push_blocks data offset (Suc count) =
     (case read_words data offset 8 of
        None \<Rightarrow> ([], False)
      | Some words \<Rightarrow>
          let (rest, complete) = push_blocks data (offset + 64) count in (words # rest, complete))"

definition with_extension :: "tick_array_bitmap \<Rightarrow> pubkey \<Rightarrow> bytes \<Rightarrow> tick_array_bitmap" where
  "with_extension bitmap pool_id data =
     (if pubkey_at data 8 \<noteq> Some pool_id then bitmap
      else let base = 40;
               (positive, complete) = push_blocks data base EXTENSION_BLOCKS;
               bitmap = bitmap\<lparr>tb_positive := tb_positive bitmap @ positive\<rparr>
           in if \<not> complete then bitmap
              else bitmap\<lparr>tb_negative := tb_negative bitmap
                     @ fst (push_blocks data (base + EXTENSION_BLOCKS * 64) EXTENSION_BLOCKS)\<rparr>)"

section \<open>Where a tick lives\<close>

definition TICK_ARRAYS_PER_SWAP :: nat where
  "TICK_ARRAYS_PER_SWAP = 3"

definition TICK_ARRAY_SEED :: bytes where
  "TICK_ARRAY_SEED = map of_char ''tick_array''"

definition BITMAP_EXTENSION_SEED :: bytes where
  "BITMAP_EXTENSION_SEED = map of_char ''pool_tick_array_bitmap_extension''"

definition ticks_per_array :: "u16 \<Rightarrow> i32" where
  "ticks_per_array tick_spacing = wrap_i32 (TICK_ARRAY_SIZE * int (unat tick_spacing))"

definition pool_bitmap_reach :: "u16 \<Rightarrow> i32" where
  "pool_bitmap_reach tick_spacing =
     wrap_i32 (ticks_per_array tick_spacing * trunc_div POOL_BITMAP_BITS 2)"

text \<open>For a span that is not zero; both callers return before dividing by zero.\<close>

definition tick_array_start_index :: "i32 \<Rightarrow> u16 \<Rightarrow> i32" where
  "tick_array_start_index tick tick_spacing =
     (let span = ticks_per_array tick_spacing;
          index = trunc_div tick span;
          index = (if tick < 0 \<and> trunc_mod tick span \<noteq> 0 then index - 1 else index)
      in wrap_i32 (index * span))"

definition tick_array_address :: "sdk \<Rightarrow> pubkey \<Rightarrow> pubkey \<Rightarrow> i32 \<Rightarrow> pubkey" where
  "tick_array_address sdk program pool start_index =
     find_program_address sdk [TICK_ARRAY_SEED, pool, i32_to_be_bytes start_index] program"

definition bitmap_extension_address :: "sdk \<Rightarrow> pubkey \<Rightarrow> pubkey \<Rightarrow> pubkey" where
  "bitmap_extension_address sdk program pool =
     find_program_address sdk [BITMAP_EXTENSION_SEED, pool] program"

section \<open>The sqrt price of a tick\<close>

definition MIN_TICK :: i32 where
  "MIN_TICK = - 443636"

definition MAX_TICK :: i32 where
  "MAX_TICK = 443636"

definition MAGIC :: "(u32 \<times> u128) list" where
  "MAGIC =
     [(0x1, 0xfffcb933bd6fb800), (0x2, 0xfff97272373d4000), (0x4, 0xfff2e50f5f657000),
      (0x8, 0xffe5caca7e10f000), (0x10, 0xffcb9843d60f7000), (0x20, 0xff973b41fa98e800),
      (0x40, 0xff2ea16466c9b000), (0x80, 0xfe5dee046a9a3800), (0x100, 0xfcbe86c7900bb000),
      (0x200, 0xf987a7253ac65800), (0x400, 0xf3392b0822bb6000), (0x800, 0xe7159475a2caf000),
      (0x1000, 0xd097f3bdfd2f2000), (0x2000, 0xa9f746462d9f8000), (0x4000, 0x70d869a156f31c00),
      (0x8000, 0x31be135f97ed3200), (0x10000, 0x9aa508b5b85a500), (0x20000, 0x5d6af8dedc582c),
      (0x40000, 0x2216e584f5fa)]"

fun magic_chain :: "u32 \<Rightarrow> (u32 \<times> u128) list \<Rightarrow> u128 \<Rightarrow> u128 option" where
  "magic_chain abs_tick [] ratio = Some ratio"
| "magic_chain abs_tick ((bit_mask, magic) # rest) ratio =
     (if (abs_tick AND bit_mask) \<noteq> 0
      then do {
        product \<leftarrow> checked_mul ratio magic;
        ratio \<leftarrow> checked_shr product 64;
        magic_chain abs_tick rest ratio
      }
      else magic_chain abs_tick rest ratio)"

definition get_sqrt_price_at_tick :: "i32 \<Rightarrow> u128 option" where
  "get_sqrt_price_at_tick tick =
     (if tick < MIN_TICK \<or> MAX_TICK < tick then None
      else let abs_tick = of_int \<bar>tick\<bar> :: u32;
               ratio = (if (abs_tick AND 0x1) \<noteq> 0 then 0xfffcb933bd6fb800 else push_bit 64 1)
           in do {
             ratio \<leftarrow> magic_chain abs_tick (tl MAGIC) ratio;
             (if 0 < tick then checked_div (- 1) ratio else Some ratio)
           })"

section \<open>Which arrays exist\<close>

definition test_bit_at :: "u64 list \<Rightarrow> nat \<Rightarrow> bool" where
  "test_bit_at words k \<longleftrightarrow> (words ! (k div 64) AND push_bit (k mod 64) 1) \<noteq> 0"

definition is_initialised :: "tick_array_bitmap \<Rightarrow> i32 \<Rightarrow> u16 \<Rightarrow> bool" where
  "is_initialised bitmap start_index tick_spacing =
     (let span = ticks_per_array tick_spacing in
      if span = 0 then False
      else
        let array_index = trunc_div start_index span; half = trunc_div POOL_BITMAP_BITS 2 in
        if - half \<le> array_index \<and> array_index < half
        then test_bit_at (tb_pool bitmap) (nat (array_index + half))
        else
          let (blocks, distance) =
                (if 0 \<le> array_index then (tb_positive bitmap, array_index - half)
                 else (tb_negative bitmap, - array_index - half - 1));
              block_index = nat (trunc_div distance EXTENSION_BLOCK_BITS) in
          if block_index < length blocks
          then test_bit_at (blocks ! block_index) (nat (trunc_mod distance EXTENSION_BLOCK_BITS))
          else False)"

text \<open>
  The loop of \<open>arrays_for_swap\<close>. Its \<open>step\<close> is the span or its negation, never zero:
  the caller has returned for a span of zero, so the first test is the model's own.
\<close>

function scan_arrays ::
  "tick_array_bitmap \<Rightarrow> u16 \<Rightarrow> i32 \<Rightarrow> i32 \<Rightarrow> i32 \<Rightarrow> i32 list \<Rightarrow> i32 list" where
  "scan_arrays bitmap tick_spacing step reach start found =
     (if step = 0 then found
      else if length found < TICK_ARRAYS_PER_SWAP \<and> wrap_i32 \<bar>start\<bar> \<le> reach
      then let found = (if is_initialised bitmap start tick_spacing then found @ [start] else found)
           in if in_i32 (start + step)
              then scan_arrays bitmap tick_spacing step reach (start + step) found
              else found
      else found)"
  by pat_completeness auto
termination
  by (relation "measure (\<lambda>(bitmap, tick_spacing, step, reach, start, found).
        if 0 < step then nat (2 ^ 31 - start) else nat (start + 2 ^ 31 + 1))")
    (auto simp: in_i32_def)

declare scan_arrays.simps [simp del]

definition arrays_for_swap :: "tick_array_bitmap \<Rightarrow> i32 \<Rightarrow> u16 \<Rightarrow> bool \<Rightarrow> i32 list" where
  "arrays_for_swap bitmap tick_current tick_spacing zero_for_one =
     (let span = ticks_per_array tick_spacing in
      if span = 0 then []
      else
        let step = (if zero_for_one then - span else span);
            reach = wrap_i32 (pool_bitmap_reach tick_spacing
              + wrap_i32 (wrap_i32 (span * EXTENSION_BLOCK_BITS) * int EXTENSION_BLOCKS))
        in scan_arrays bitmap tick_spacing step reach
             (tick_array_start_index tick_current tick_spacing) [])"

section \<open>The step of a walk\<close>

definition ticks_ahead :: "initialized_tick list \<Rightarrow> i32 \<Rightarrow> bool \<Rightarrow> initialized_tick list" where
  "ticks_ahead ticks tick_current zero_for_one =
     (if zero_for_one then filter (\<lambda>t. it_tick t \<le> tick_current) (rev ticks)
      else filter (\<lambda>t. tick_current < it_tick t) ticks)"

definition cap_u64 :: "u128 \<Rightarrow> u64" where
  "cap_u64 x = ucast (min x (ucast (- 1 :: u64)))"

definition output_for_move :: "bool \<Rightarrow> u128 \<Rightarrow> u128 \<Rightarrow> u128 \<Rightarrow> u64 direct_swap_result" where
  "output_for_move zero_for_one liquidity sqrt_from sqrt_to =
     (let overflow = QuoteMath ''the concentrated-liquidity output overflowed 256 bits'' in
      and_then
        (if zero_for_one
         then ok_or (mul_div_floor liquidity (saturating_sub sqrt_from sqrt_to) (push_bit 64 1)) overflow
         else
           and_then (ok_or (checked_shl liquidity 64)
             (QuoteMath ''liquidity is too large to scale to Q64.64'')) (\<lambda>numerator.
           let spread = saturating_sub sqrt_to sqrt_from in
           and_then (ok_or (mul_div_floor numerator spread sqrt_to) overflow) (\<lambda>intermediate.
           Inr (intermediate div max sqrt_from 1))))
        (\<lambda>out. Inr (cap_u64 out)))"

definition next_sqrt_price_from_input ::
  "bool \<Rightarrow> u128 \<Rightarrow> u128 \<Rightarrow> u128 \<Rightarrow> u128 direct_swap_result" where
  "next_sqrt_price_from_input zero_for_one liquidity sqrt_price amount_in =
     (let overflow = QuoteMath ''the concentrated-liquidity step overflowed 256 bits'' in
      if zero_for_one
      then
        and_then (ok_or (checked_shl liquidity 64)
          (QuoteMath ''liquidity is too large to scale to Q64.64'')) (\<lambda>numerator.
        and_then (ok_or (checked_mul amount_in sqrt_price) overflow) (\<lambda>product.
        and_then (ok_or (checked_add numerator product) overflow) (\<lambda>denominator.
        ok_or (mul_div_ceil numerator sqrt_price denominator) overflow)))
      else
        and_then (ok_or (mul_div_floor amount_in (push_bit 64 1) liquidity) overflow) (\<lambda>delta.
        ok_or (checked_add sqrt_price delta) overflow))"

definition input_for_move :: "bool \<Rightarrow> u128 \<Rightarrow> u128 \<Rightarrow> u128 \<Rightarrow> u128 direct_swap_result" where
  "input_for_move zero_for_one liquidity sqrt_from sqrt_to =
     (let overflow = QuoteMath ''the concentrated-liquidity input overflowed 256 bits'' in
      if zero_for_one
      then
        if sqrt_from \<le> sqrt_to then Inr 0
        else
          and_then (ok_or (checked_shl liquidity 64)
            (QuoteMath ''liquidity is too large to scale to Q64.64'')) (\<lambda>numerator.
          let spread = sqrt_from - sqrt_to in
          and_then (ok_or (mul_div_ceil numerator spread sqrt_from) overflow) (\<lambda>step1.
          Inr (ceil_div step1 (max sqrt_to 1))))
      else
        if sqrt_to \<le> sqrt_from then Inr 0
        else
          let spread = sqrt_to - sqrt_from in
          ok_or (mul_div_ceil liquidity spread (push_bit 64 1)) overflow)"

definition cross_tick ::
  "pubkey \<Rightarrow> u128 \<Rightarrow> initialized_tick \<Rightarrow> bool \<Rightarrow> u128 direct_swap_result" where
  "cross_tick pool liquidity tick zero_for_one =
     (let delta = (if zero_for_one then wrap_i128 (- it_liquidity_net tick) else it_liquidity_net tick) in
      ok_or (checked_add_signed liquidity delta)
        (InsufficientLiquidity pool 0
          ''crossing tick {} would take pool liquidity negative -- the loaded tick data is inconsistent with the pool's own reported liquidity''))"

section \<open>The walk\<close>

text \<open>What does not change during a walk.\<close>

record walk_params =
  wp_pool :: pubkey
  wp_rate :: u128
  wp_denom :: u128
  wp_zero_for_one :: bool
  wp_amount_in :: u64

record walk_state =
  ws_liquidity :: u128
  ws_sqrt_price :: u128
  ws_remaining :: u128
  ws_total_out :: u128
  ws_total_fee :: u128

text \<open>The body of the \<open>while\<close> loop for one tick; the flag says whether it ends in \<open>break\<close>.\<close>

definition walk_step ::
  "walk_params \<Rightarrow> initialized_tick \<Rightarrow> walk_state \<Rightarrow> (bool \<times> walk_state) direct_swap_result" where
  "walk_step p next_tick st =
     (let zero_for_one = wp_zero_for_one p; denom = wp_denom p; rate = wp_rate p;
          liquidity = ws_liquidity st; sqrt_price = ws_sqrt_price st; remaining = ws_remaining st in
      and_then (ok_or (get_sqrt_price_at_tick (it_tick next_tick))
        (QuoteMath ''tick {} lies outside the programme's own range'')) (\<lambda>target_sqrt.
      and_then (input_for_move zero_for_one liquidity sqrt_price target_sqrt) (\<lambda>amount_to_target.
      and_then
        (if amount_to_target = 0 then Inr 0
         else ok_or (mul_div_ceil amount_to_target denom (denom - rate))
                (QuoteMath ''the per-step fee grossing-up overflowed 256 bits'')) (\<lambda>gross_needed.
      if gross_needed \<le> remaining
      then
        let fee = min (gross_needed - amount_to_target) (ucast (- 1 :: u64)) in
        and_then (output_for_move zero_for_one liquidity sqrt_price target_sqrt) (\<lambda>out.
        and_then (cross_tick (wp_pool p) liquidity next_tick zero_for_one) (\<lambda>liquidity.
        Inr (False, \<lparr>ws_liquidity = liquidity, ws_sqrt_price = target_sqrt,
          ws_remaining = remaining - gross_needed, ws_total_out = ws_total_out st + ucast out,
          ws_total_fee = ws_total_fee st + fee\<rparr>)))
      else
        and_then (ok_or (mul_div_floor remaining (denom - rate) denom)
          (QuoteMath ''the per-step net-of-fee amount overflowed 256 bits'')) (\<lambda>swappable.
        let fee = remaining - swappable in
        if swappable = 0 then Inr (True, st\<lparr>ws_total_fee := ws_total_fee st + fee\<rparr>)
        else
          and_then (next_sqrt_price_from_input zero_for_one liquidity sqrt_price swappable) (\<lambda>sqrt_next.
          and_then (output_for_move zero_for_one liquidity sqrt_price sqrt_next) (\<lambda>out.
          Inr (False, \<lparr>ws_liquidity = liquidity, ws_sqrt_price = sqrt_next, ws_remaining = 0,
            ws_total_out = ws_total_out st + ucast out,
            ws_total_fee = ws_total_fee st + fee\<rparr>))))))))"

text \<open>
  The loop: one tick of \<open>candidates\<close> is consumed per iteration, so the recursion is on
  that list and the loop always ends.
\<close>

fun walk_loop ::
  "walk_params \<Rightarrow> initialized_tick list \<Rightarrow> walk_state \<Rightarrow> walk_state direct_swap_result" where
  "walk_loop p candidates st =
     (if ws_remaining st = 0 then Inr st
      else if ws_liquidity st = 0 \<or> ws_sqrt_price st = 0
      then Inl (InsufficientLiquidity (wp_pool p) (wp_amount_in p) ''liquidity was exhausted mid-walk'')
      else case candidates of
        [] \<Rightarrow> Inl (InsufficientLiquidity (wp_pool p) (wp_amount_in p)
                ''the size travels further than the loaded tick arrays cover'')
      | next_tick # rest \<Rightarrow>
          and_then (walk_step p next_tick st) (\<lambda>(broke, st).
          if broke then Inr st else walk_loop p rest st))"

declare walk_loop.simps [simp del]

definition walk_ticks ::
  "pubkey \<Rightarrow> initialized_tick list \<Rightarrow> u128 \<Rightarrow> u128 \<Rightarrow> u64 \<Rightarrow> u64 \<Rightarrow> bool \<Rightarrow> u64
   \<Rightarrow> (u64 \<times> u64 \<times> u128) direct_swap_result" where
  "walk_ticks pool candidates liquidity sqrt_price fee_rate fee_rate_denominator zero_for_one amount_in =
     (let rate = ucast fee_rate :: u128; denom = ucast fee_rate_denominator :: u128 in
      if denom \<le> rate
      then Inl (QuoteMath ''the trade fee rate is not below its own denominator'')
      else and_then
        (walk_loop
          \<lparr>wp_pool = pool, wp_rate = rate, wp_denom = denom, wp_zero_for_one = zero_for_one,
           wp_amount_in = amount_in\<rparr>
          candidates
          \<lparr>ws_liquidity = liquidity, ws_sqrt_price = sqrt_price, ws_remaining = ucast amount_in,
           ws_total_out = 0, ws_total_fee = 0\<rparr>)
        (\<lambda>st. Inr (cap_u64 (ws_total_out st), cap_u64 (ws_total_fee st), ws_sqrt_price st)))"

section \<open>Where a tick lives: lemmas\<close>

lemma ticks_per_array_eq: "ticks_per_array s = 60 * int (unat s)"
  using u16_bound [of s]
  by (simp add: ticks_per_array_def TICK_ARRAY_SIZE_def wrap_i32_id in_i32_def uint_nat del: of_nat_unat)

lemma tick_array_start_index_floor:
  assumes "s \<noteq> 0" and "in_i32 (tick div ticks_per_array s * ticks_per_array s)"
  shows "tick_array_start_index tick s = tick div ticks_per_array s * ticks_per_array s"
proof -
  have "0 < unat s" using assms(1) by (simp add: unat_gt_0)
  then have pos: "0 < ticks_per_array s" unfolding ticks_per_array_eq by linarith
  show ?thesis
    unfolding tick_array_start_index_def Let_def floor_from_trunc [OF pos]
    using assms(2) by (simp add: wrap_i32_id)
qed

text \<open>A tick lies in the array that starts at its start index.\<close>

lemma tick_in_its_array:
  assumes "s \<noteq> 0" and "MIN_TICK \<le> tick" and "tick \<le> MAX_TICK"
  shows "tick_array_start_index tick s \<le> tick"
    and "tick < tick_array_start_index tick s + ticks_per_array s"
    and "ticks_per_array s dvd tick_array_start_index tick s"
proof -
  let ?n = "ticks_per_array s"
  have "0 < unat s" using assms(1) by (simp add: unat_gt_0)
  then have pos: "0 < ?n" unfolding ticks_per_array_eq by linarith
  have small: "?n \<le> 60 * 65536" unfolding ticks_per_array_eq using u16_bound [of s] by linarith
  have mod: "0 \<le> tick mod ?n" "tick mod ?n < ?n" using pos by simp_all
  have split: "tick div ?n * ?n = tick - tick mod ?n" by (simp add: minus_mod_eq_div_mult)
  have "in_i32 (tick div ?n * ?n)"
    unfolding split in_i32_def using mod small assms(2,3) by (simp add: MIN_TICK_def MAX_TICK_def)
  then have eq: "tick_array_start_index tick s = tick div ?n * ?n"
    using assms(1) by (intro tick_array_start_index_floor)
  show "tick_array_start_index tick s \<le> tick" unfolding eq split using mod by linarith
  show "tick < tick_array_start_index tick s + ?n" unfolding eq split using mod by linarith
  show "?n dvd tick_array_start_index tick s" unfolding eq by simp
qed

section \<open>The sqrt price of a tick: lemmas\<close>

text \<open>The chain with every factor applied: the smallest value any tick can reach.\<close>

fun floor_chain :: "(u32 \<times> u128) list \<Rightarrow> nat \<Rightarrow> nat" where
  "floor_chain [] r = r"
| "floor_chain ((bit_mask, magic) # rest) r = floor_chain rest (r * unat magic div 2 ^ 64)"

lemma floor_chain_mono: "r \<le> r' \<Longrightarrow> floor_chain ms r \<le> floor_chain ms r'"
  by (induction ms r arbitrary: r' rule: floor_chain.induct) (simp_all add: div_le_mono)

lemma scaled_le: "unat (m :: u128) \<le> 2 ^ 64 \<Longrightarrow> r * unat m div 2 ^ 64 \<le> (r :: nat)"
proof -
  assume "unat m \<le> 2 ^ 64"
  then have "r * unat m div 2 ^ 64 \<le> r * 2 ^ 64 div 2 ^ 64"
    by (intro div_le_mono mult_le_mono2)
  then show ?thesis by simp
qed

lemma magic_chain_total:
  assumes "\<forall>(bit_mask, magic) \<in> set ms. unat magic < 2 ^ 64" and "unat r \<le> 2 ^ 64"
  shows "\<exists>r'. magic_chain t ms r = Some r' \<and> floor_chain ms (unat r) \<le> unat r' \<and> unat r' \<le> unat r"
  using assms
proof (induction t ms r rule: magic_chain.induct)
  case (1 t r)
  then show ?case by simp
next
  case (2 t bit_mask magic rest r)
  have m: "unat magic < 2 ^ 64" using "2.prems" by auto
  have smaller: "unat r * unat magic div 2 ^ 64 \<le> unat r" using m by (intro scaled_le) simp
  show ?case
  proof (cases "(t AND bit_mask) = 0")
    case True
    then obtain r' where "magic_chain t rest r = Some r'" "floor_chain rest (unat r) \<le> unat r'"
      "unat r' \<le> unat r"
      using "2.IH"(2) "2.prems" by auto
    then show ?thesis using True floor_chain_mono [OF smaller, of rest] by auto
  next
    case False
    have "unat r * unat magic \<le> 2 ^ 64 * (2 ^ 64 - 1)"
      using "2.prems"(2) m by (intro mult_le_mono) simp_all
    then have fits: "unat r * unat magic < 2 ^ 128" by simp
    then have cm: "checked_mul r magic = Some (r * magic)" by (simp add: checked_mul_def)
    have cs: "checked_shr (r * magic) 64 = Some (drop_bit 64 (r * magic))"
      by (simp add: checked_shr_def)
    have v: "unat (drop_bit 64 (r * magic)) = unat r * unat magic div 2 ^ 64"
      using fits by (simp add: unat_drop_bit_div unat_word_ariths(2))
    have "unat (drop_bit 64 (r * magic)) \<le> 2 ^ 64" using v smaller "2.prems"(2) by linarith
    then obtain r' where r': "magic_chain t rest (drop_bit 64 (r * magic)) = Some r'"
      "floor_chain rest (unat (drop_bit 64 (r * magic))) \<le> unat r'"
      "unat r' \<le> unat (drop_bit 64 (r * magic))"
      using "2.IH"(1) [OF False, of "r * magic" "drop_bit 64 (r * magic)"] "2.prems"(1) cm cs by auto
    have "magic_chain t ((bit_mask, magic) # rest) r = Some r'"
      using False cm cs r'(1) by simp
    moreover have "floor_chain ((bit_mask, magic) # rest) (unat r) \<le> unat r'"
      using r'(2) v by simp
    moreover have "unat r' \<le> unat r" using r'(3) v smaller by linarith
    ultimately show ?thesis by blast
  qed
qed

lemma magic_chain_range:
  "\<exists>r'. magic_chain t (tl MAGIC)
      (if (t AND 0x1) \<noteq> 0 then 0xfffcb933bd6fb800 else push_bit 64 1) = Some r'
      \<and> 75000000 \<le> unat r' \<and> unat r' \<le> 2 ^ 64"
proof -
  let ?r = "if (t AND 0x1) \<noteq> 0 then 0xfffcb933bd6fb800 else push_bit 64 1 :: u128"
  have start: "0xfffcb933bd6fb800 \<le> unat ?r" "unat ?r \<le> 2 ^ 64" by (simp_all add: unat_simps)
  have "\<forall>(bit_mask, magic) \<in> set (tl MAGIC). unat magic < 2 ^ 64" by (simp add: MAGIC_def)
  then obtain r' where r': "magic_chain t (tl MAGIC) ?r = Some r'"
    "floor_chain (tl MAGIC) (unat ?r) \<le> unat r'" "unat r' \<le> unat ?r"
    using magic_chain_total start(2) by blast
  have "(75000000 :: nat) \<le> floor_chain (tl MAGIC) 0xfffcb933bd6fb800" by (simp add: MAGIC_def)
  also have "\<dots> \<le> floor_chain (tl MAGIC) (unat ?r)" using start(1) by (rule floor_chain_mono)
  finally have "75000000 \<le> unat r'" using r'(2) by linarith
  then show ?thesis using r' start(2) by (intro exI [of _ r']) simp
qed

text \<open>
  The chain is total on the programme's range, its intermediate products never
  overflow, and the result is never zero: at most one for a tick up to zero, at least
  one (less a unit in the last place) above it.
\<close>

lemma sqrt_price_range:
  assumes "MIN_TICK \<le> tick" and "tick \<le> MAX_TICK"
  shows "\<exists>r. get_sqrt_price_at_tick tick = Some r
     \<and> (if 0 < tick then 2 ^ 64 - 1 \<le> unat r \<and> unat r \<le> u128_max div 75000000
        else 75000000 \<le> unat r \<and> unat r \<le> 2 ^ 64)"
proof -
  let ?t = "of_int \<bar>tick\<bar> :: u32"
  obtain r where r: "magic_chain ?t (tl MAGIC)
      (if (?t AND 0x1) \<noteq> 0 then 0xfffcb933bd6fb800 else push_bit 64 1) = Some r"
    and lo: "75000000 \<le> unat r" and hi: "unat r \<le> 2 ^ 64"
    using magic_chain_range by blast
  have range: "\<not> (tick < MIN_TICK \<or> MAX_TICK < tick)" using assms by simp
  show ?thesis
  proof (cases "0 < tick")
    case False
    then show ?thesis
      using range r lo hi unfolding get_sqrt_price_at_tick_def Let_def by simp
  next
    case True
    have nz: "r \<noteq> 0" using lo by auto
    have v: "unat (- 1 div r) = u128_max div unat r" by (simp add: unat_div unat_simps)
    have "u128_max div unat r \<le> u128_max div 75000000" using lo by (intro div_le_mono2) simp_all
    moreover have "u128_max div 2 ^ 64 \<le> u128_max div unat r"
      using hi lo by (intro div_le_mono2) simp_all
    ultimately show ?thesis
      using True range r nz v unfolding get_sqrt_price_at_tick_def Let_def
      by (simp add: checked_div_def)
  qed
qed

lemma sqrt_price_outside: "tick < MIN_TICK \<or> MAX_TICK < tick \<Longrightarrow> get_sqrt_price_at_tick tick = None"
  by (simp add: get_sqrt_price_at_tick_def)

lemma sqrt_price_positive: "get_sqrt_price_at_tick tick = Some r \<Longrightarrow> 0 < unat r"
proof (cases "tick < MIN_TICK \<or> MAX_TICK < tick")
  case False
  assume "get_sqrt_price_at_tick tick = Some r"
  then show ?thesis using False sqrt_price_range [of tick] by (auto split: if_splits)
qed (simp add: sqrt_price_outside)

section \<open>The bitmap scan: lemmas\<close>

text \<open>The start indices the scan looks at, as a reference definition without the counting.\<close>

function array_starts :: "i32 \<Rightarrow> i32 \<Rightarrow> i32 \<Rightarrow> i32 list" where
  "array_starts step reach start =
     (if step \<noteq> 0 \<and> wrap_i32 \<bar>start\<bar> \<le> reach
      then start # (if in_i32 (start + step) then array_starts step reach (start + step) else [])
      else [])"
  by pat_completeness auto
termination
  by (relation "measure (\<lambda>(step, reach, start).
        if 0 < step then nat (2 ^ 31 - start) else nat (start + 2 ^ 31 + 1))")
    (auto simp: in_i32_def)

declare array_starts.simps [simp del]

lemma scan_arrays_eq:
  "length found \<le> TICK_ARRAYS_PER_SWAP \<Longrightarrow>
   scan_arrays bitmap s step reach start found =
     take TICK_ARRAYS_PER_SWAP
       (found @ filter (\<lambda>x. is_initialised bitmap x s) (array_starts step reach start))"
proof (induction bitmap s step reach start found rule: scan_arrays.induct)
  case (1 bitmap s step reach start found)
  show ?case
  proof (cases "step \<noteq> 0 \<and> length found < TICK_ARRAYS_PER_SWAP \<and> wrap_i32 \<bar>start\<bar> \<le> reach")
    case True
    then show ?thesis
      using "1.IH" by (subst scan_arrays.simps, subst array_starts.simps) (auto simp: Let_def take_Cons')
  next
    case False
    then show ?thesis
      using "1.prems" by (subst scan_arrays.simps, subst array_starts.simps) auto
  qed
qed

lemma array_starts_steps:
  "x \<in> set (array_starts step reach start) \<Longrightarrow> \<exists>k. x = start + int k * step"
proof (induction step reach start rule: array_starts.induct)
  case (1 step reach start)
  from "1.prems" have "step \<noteq> 0 \<and> wrap_i32 \<bar>start\<bar> \<le> reach"
    by (subst (asm) array_starts.simps) (auto split: if_splits)
  with "1.prems" consider "x = start"
    | "in_i32 (start + step)" "x \<in> set (array_starts step reach (start + step))"
    by (subst (asm) array_starts.simps) (auto split: if_splits)
  then show ?case
  proof cases
    case 1
    then show ?thesis by (intro exI [of _ 0]) simp
  next
    case 2
    then obtain k where "x = start + step + int k * step"
      using "1.IH" \<open>step \<noteq> 0 \<and> wrap_i32 \<bar>start\<bar> \<le> reach\<close> by blast
    then show ?thesis by (intro exI [of _ "Suc k"]) (simp add: algebra_simps)
  qed
qed

lemma array_starts_sorted:
  "sorted_wrt (\<lambda>x y. if 0 < step then x < y else y < x) (array_starts step reach start)"
proof (induction step reach start rule: array_starts.induct)
  case (1 step reach start)
  have ahead: "if 0 < step then start < y else y < start"
    if nz: "step \<noteq> 0" and y: "y \<in> set (array_starts step reach (start + step))" for y
  proof -
    obtain k where "y = start + step + int k * step"
      using array_starts_steps [OF y] by blast
    then have "y = start + int (Suc k) * step" by (simp add: algebra_simps)
    then show ?thesis
      using nz zero_less_mult_iff [of "int (Suc k)" step] mult_less_0_iff [of "int (Suc k)" step]
      by auto
  qed
  show ?case
    by (subst array_starts.simps) (use "1.IH" ahead in auto)
qed

lemma arrays_for_swap_eq:
  assumes "s \<noteq> 0"
  shows "arrays_for_swap bitmap tick s zero_for_one =
     take TICK_ARRAYS_PER_SWAP (filter (\<lambda>x. is_initialised bitmap x s)
       (array_starts (if zero_for_one then - ticks_per_array s else ticks_per_array s)
          (wrap_i32 (pool_bitmap_reach s
             + wrap_i32 (wrap_i32 (ticks_per_array s * EXTENSION_BLOCK_BITS) * int EXTENSION_BLOCKS)))
          (tick_array_start_index tick s)))"
proof -
  have "0 < unat s" using assms by (simp add: unat_gt_0)
  then have "ticks_per_array s \<noteq> 0" unfolding ticks_per_array_eq by linarith
  then show ?thesis
    by (simp add: arrays_for_swap_def Let_def scan_arrays_eq TICK_ARRAYS_PER_SWAP_def)
qed

lemma arrays_for_swap_props:
  assumes "s \<noteq> 0"
  shows "length (arrays_for_swap bitmap tick s zfo) \<le> 3"
    and "x \<in> set (arrays_for_swap bitmap tick s zfo) \<Longrightarrow> is_initialised bitmap x s"
    and "sorted_wrt (\<lambda>x y. if zfo then y < x else x < y) (arrays_for_swap bitmap tick s zfo)"
proof -
  have "0 < unat s" using assms by (simp add: unat_gt_0)
  then have pos: "0 < ticks_per_array s" unfolding ticks_per_array_eq by linarith
  show "length (arrays_for_swap bitmap tick s zfo) \<le> 3"
    by (simp add: arrays_for_swap_eq [OF assms] TICK_ARRAYS_PER_SWAP_def)
  show "x \<in> set (arrays_for_swap bitmap tick s zfo) \<Longrightarrow> is_initialised bitmap x s"
    by (auto simp: arrays_for_swap_eq [OF assms] dest: in_set_takeD)
  have "sorted_wrt (\<lambda>x y. if 0 < (if zfo then - ticks_per_array s else ticks_per_array s)
      then x < y else y < x) (arrays_for_swap bitmap tick s zfo)"
    unfolding arrays_for_swap_eq [OF assms]
    by (intro sorted_wrt_take sorted_wrt_filter array_starts_sorted)
  then show "sorted_wrt (\<lambda>x y. if zfo then y < x else x < y) (arrays_for_swap bitmap tick s zfo)"
    using pos by (cases zfo) simp_all
qed

section \<open>The order of the candidates\<close>

lemma ticks_ahead_order:
  assumes "sorted_wrt (\<lambda>t u. it_tick t < it_tick u) ticks"
  shows "sorted_wrt (\<lambda>t u. if zfo then it_tick u < it_tick t else it_tick t < it_tick u)
           (ticks_ahead ticks current zfo)"
    and "t \<in> set (ticks_ahead ticks current zfo) \<longleftrightarrow>
           t \<in> set ticks \<and> (if zfo then it_tick t \<le> current else current < it_tick t)"
  using assms by (auto simp: ticks_ahead_def sorted_wrt_filter sorted_wrt_rev)

section \<open>A step charges at least what it pays\<close>

lemma unat_cap_u64: "unat (cap_u64 x) = min (unat x) u64_max"
  by (simp add: cap_u64_def unat_min_narrow unat_simps)

lemma checked_shl_64: "checked_shl (liquidity :: u128) 64 = Some (push_bit 64 liquidity)"
  by (simp add: checked_shl_def)

lemma unat_scaled_liquidity:
  "unat liquidity < 2 ^ 64 \<Longrightarrow> unat (push_bit 64 liquidity :: u128) = unat liquidity * 2 ^ 64"
  by (simp add: unat_simps)

lemma unat_one_x64: "unat (push_bit 64 1 :: u128) = 2 ^ 64"
  by (simp add: unat_simps)

lemma input_for_move_down:
  assumes "input_for_move True l f t = Inr i" and "unat l < 2 ^ 64" and "unat t < unat f"
    and "0 < unat t"
  shows "unat l * 2 ^ 64 * (unat f - unat t) \<le> unat i * unat f * unat t"
proof -
  have lt: "\<not> f \<le> t" using assms(3) by (simp add: word_le_nat_alt)
  obtain x where x: "mul_div_ceil (push_bit 64 l) (f - t) f = Some x" and i: "i = ceil_div x (max t 1)"
    using assms(1) lt by (auto simp: input_for_move_def checked_shl_64 Let_def)
  have sub: "unat (f - t) = unat f - unat t" using lt by (simp add: unat_sub word_le_nat_alt)
  have one: "unat (max t 1) = unat t" using assms(4) by (simp add: unat_simps)
  have "unat l * 2 ^ 64 * (unat f - unat t) \<le> unat x * unat f"
    using amount.ceil_times_ge [OF x] by (simp add: unat_scaled_liquidity [OF assms(2)] sub)
  moreover have "unat x \<le> unat i * unat t"
    unfolding i using assms(4) one by (simp add: unat_simps ceil_nat_ge)
  then have "unat x * unat f \<le> unat i * unat t * unat f" by (rule mult_le_mono1)
  moreover have "unat i * unat t * unat f = unat i * unat f * unat t" by simp
  ultimately show ?thesis by linarith
qed

lemma input_for_move_up:
  assumes "input_for_move False l f t = Inr i" and "unat f < unat t"
  shows "unat l * (unat t - unat f) \<le> unat i * 2 ^ 64"
proof -
  have lt: "\<not> t \<le> f" using assms(2) by (simp add: word_le_nat_alt)
  have x: "mul_div_ceil l (t - f) (push_bit 64 1) = Some i"
    using assms(1) lt by (auto simp: input_for_move_def Let_def)
  have "unat (t - f) = unat t - unat f" using lt by (simp add: unat_sub word_le_nat_alt)
  then show ?thesis using amount.ceil_times_ge [OF x] by (simp only: unat_one_x64)
qed

lemma output_for_move_down:
  assumes "output_for_move True l f t = Inr out"
  shows "unat out * 2 ^ 64 \<le> unat l * (unat f - unat t)"
proof -
  obtain x where x: "mul_div_floor l (saturating_sub f t) (push_bit 64 1) = Some x"
    and out: "out = cap_u64 x"
    using assms by (auto simp: output_for_move_def Let_def)
  have "unat out * 2 ^ 64 \<le> unat x * 2 ^ 64" unfolding out by (simp add: unat_cap_u64)
  also have "\<dots> \<le> unat l * (unat f - unat t)"
    using amount.floor_times_le [OF x] by (simp only: unat_one_x64 unat_saturating_sub)
  finally show ?thesis .
qed

lemma output_for_move_up:
  assumes "output_for_move False l f t = Inr out"
  shows "unat out * unat f * unat t \<le> unat l * 2 ^ 64 * (unat t - unat f)"
proof -
  obtain x where x: "mul_div_floor (push_bit 64 l) (saturating_sub t f) t = Some x"
    and out: "out = cap_u64 (x div max f 1)"
    using assms by (auto simp: output_for_move_def checked_shl_64 Let_def)
  have "unat (push_bit 64 l) \<le> unat l * 2 ^ 64" by (simp add: unat_push_bit_mod)
  then have scaled: "unat (push_bit 64 l) * (unat t - unat f) \<le> unat l * 2 ^ 64 * (unat t - unat f)"
    by (rule mult_le_mono1)
  have "unat out \<le> unat x div max (unat f) 1"
    unfolding out by (simp add: unat_cap_u64 unat_div unat_simps)
  then have "unat out * unat f \<le> unat x div max (unat f) 1 * max (unat f) 1"
    by (intro mult_le_mono) simp_all
  also have "\<dots> \<le> unat x" by simp
  finally have "unat out * unat f * unat t \<le> unat x * unat t" by simp
  also have "\<dots> \<le> unat (push_bit 64 l) * (unat t - unat f)"
    using amount.floor_times_le [OF x] by (simp only: unat_saturating_sub)
  finally show ?thesis using scaled by linarith
qed

text \<open>
  Moving the price across a whole step pays out at most the input at the geometric mean
  of the two prices, \<open>sqrt_from * sqrt_to / 2^128\<close>.
\<close>

lemma step_pays_at_most_mean_price:
  assumes "input_for_move zfo l f t = Inr i" and "output_for_move zfo l f t = Inr out"
    and "unat l < 2 ^ 64" and "0 < unat t"
    and "if zfo then unat t < unat f else unat f < unat t"
  shows "if zfo then unat out * 2 ^ 128 \<le> unat i * unat f * unat t
         else unat out * unat f * unat t \<le> unat i * 2 ^ 128"
proof (cases zfo)
  case True
  have "output_for_move True l f t = Inr out" using assms(2) True by simp
  then have "unat out * 2 ^ 64 * 2 ^ 64 \<le> unat l * (unat f - unat t) * 2 ^ 64"
    by (intro mult_le_mono1 output_for_move_down)
  also have "\<dots> \<le> unat i * unat f * unat t"
    using input_for_move_down [of l f t i] assms True by (simp add: ac_simps)
  finally show ?thesis using True by (simp add: mult.assoc)
next
  case False
  have "unat out * unat f * unat t \<le> unat l * (unat t - unat f) * 2 ^ 64"
    using output_for_move_up [of l f t out] assms(2) False by (simp add: ac_simps)
  also have "\<dots> \<le> unat i * 2 ^ 64 * 2 ^ 64"
    using input_for_move_up [of l f t i] assms False by simp
  finally show ?thesis using False by (simp add: mult.assoc)
qed

text \<open>A partial step moves the price in its direction only.\<close>

lemma next_sqrt_price_direction:
  assumes "next_sqrt_price_from_input zfo l p a = Inr n"
  shows "if zfo then n \<le> p else p \<le> n"
proof (cases zfo)
  case True
  obtain prod den where "checked_mul a p = Some prod"
    and den: "checked_add (push_bit 64 l) prod = Some den"
    and n: "mul_div_ceil (push_bit 64 l) p den = Some n"
    using assms True by (auto simp: next_sqrt_price_from_input_def checked_shl_64 Let_def)
  have ge: "unat (push_bit 64 l) \<le> unat den" and d: "0 < unat den"
    using den n by (simp_all add: checked_add_Some amount.ceil_Some)
  have "unat n \<le> unat p"
    using n d ge by (auto simp: amount.ceil_Some ceil_nat_le_iff mult.commute)
  then show ?thesis using True by (simp add: word_le_nat_alt)
next
  case False
  then show ?thesis
    using assms by (auto simp: next_sqrt_price_from_input_def Let_def checked_add_Some word_le_nat_alt)
qed

section \<open>The walk: lemmas\<close>

text \<open>The fee that grossing up adds is part of the gross amount.\<close>

lemma gross_up_fee:
  assumes "(if a = 0 then Inr 0 else ok_or (mul_div_ceil a d (d - r)) e) = Inr g"
    and "unat r < unat d"
  shows "unat a \<le> unat g" and "unat (g - a) \<le> unat g"
proof -
  have "unat (d - r) \<le> unat d" using assms(2) by (simp add: unat_sub word_le_nat_alt)
  then show le: "unat a \<le> unat g"
    using assms(1) amount.ceil_ge_left [of a d "d - r" g] by (auto split: if_splits)
  then show "unat (g - a) \<le> unat g" by (simp add: unat_sub word_le_nat_alt)
qed

lemma unat_add_no_wrap: "unat a + unat b < 2 ^ 64 \<Longrightarrow> unat (a + b :: u128) = unat a + unat b"
  by (simp add: unat_word_ariths)

text \<open>One step keeps the fee and the remaining amount within what was there before it.\<close>

lemma walk_step_fee:
  assumes "walk_step p c st = Inr (broke, st')"
    and "unat (wp_rate p) < unat (wp_denom p)"
    and "unat (ws_total_fee st) + unat (ws_remaining st) < 2 ^ 64"
  shows "unat (ws_total_fee st') + (if broke then 0 else unat (ws_remaining st'))
           \<le> unat (ws_total_fee st) + unat (ws_remaining st)"
proof -
  let ?fee = "ws_total_fee st" and ?rem = "ws_remaining st"
  obtain t a g where
    gross: "(if a = 0 then Inr 0 else ok_or (mul_div_ceil a (wp_denom p) (wp_denom p - wp_rate p))
       (QuoteMath ''the per-step fee grossing-up overflowed 256 bits'')) = Inr g"
    and body: "(if g \<le> ?rem
      then
        and_then (output_for_move (wp_zero_for_one p) (ws_liquidity st) (ws_sqrt_price st) t) (\<lambda>out.
        and_then (cross_tick (wp_pool p) (ws_liquidity st) c (wp_zero_for_one p)) (\<lambda>liquidity.
        Inr (False, \<lparr>ws_liquidity = liquidity, ws_sqrt_price = t,
          ws_remaining = ?rem - g, ws_total_out = ws_total_out st + ucast out,
          ws_total_fee = ?fee + min (g - a) (ucast (- 1 :: u64))\<rparr>)))
      else
        and_then (ok_or (mul_div_floor ?rem (wp_denom p - wp_rate p) (wp_denom p))
          (QuoteMath ''the per-step net-of-fee amount overflowed 256 bits'')) (\<lambda>swappable.
        if swappable = 0 then Inr (True, st\<lparr>ws_total_fee := ?fee + (?rem - swappable)\<rparr>)
        else
          and_then (next_sqrt_price_from_input (wp_zero_for_one p) (ws_liquidity st)
             (ws_sqrt_price st) swappable) (\<lambda>sqrt_next.
          and_then (output_for_move (wp_zero_for_one p) (ws_liquidity st) (ws_sqrt_price st) sqrt_next)
            (\<lambda>out.
          Inr (False, \<lparr>ws_liquidity = ws_liquidity st, ws_sqrt_price = sqrt_next, ws_remaining = 0,
            ws_total_out = ws_total_out st + ucast out,
            ws_total_fee = ?fee + (?rem - swappable)\<rparr>))))) = Inr (broke, st')"
    using assms(1) unfolding walk_step_def Let_def
    by (elim and_then_eq_Inr [THEN iffD1, THEN exE] conjE) blast
  have crossing: "\<not> broke \<and> ws_remaining st' = ?rem - g
       \<and> ws_total_fee st' = ?fee + min (g - a) (ucast (- 1 :: u64))" if "g \<le> ?rem"
    using body that by auto
  have partial: "(\<exists>sw. mul_div_floor ?rem (wp_denom p - wp_rate p) (wp_denom p) = Some sw
       \<and> ws_total_fee st' = ?fee + (?rem - sw)) \<and> (broke \<or> ws_remaining st' = 0)" if "\<not> g \<le> ?rem"
    using body that by (auto split: if_splits)
  note g = gross_up_fee [OF gross assms(2)]
  show ?thesis
  proof (cases "g \<le> ?rem")
    case True
    let ?f = "min (g - a) (ucast (- 1 :: u64))"
    have f: "unat ?f \<le> unat g" using g(2) by (simp add: unat_simps)
    have rg: "unat (?rem - g) = unat ?rem - unat g" "unat g \<le> unat ?rem"
      using True by (simp_all add: unat_sub word_le_nat_alt)
    then have "unat (?fee + ?f) = unat ?fee + unat ?f"
      using f assms(3) by (intro unat_add_no_wrap) linarith
    then show ?thesis using crossing [OF True] f rg by simp
  next
    case False
    then obtain sw where sw: "mul_div_floor ?rem (wp_denom p - wp_rate p) (wp_denom p) = Some sw"
      and fee: "ws_total_fee st' = ?fee + (?rem - sw)" and rest: "broke \<or> ws_remaining st' = 0"
      using partial by blast
    have "unat (wp_denom p - wp_rate p) \<le> unat (wp_denom p)"
      using assms(2) by (simp add: unat_sub word_le_nat_alt)
    then have "unat sw \<le> unat ?rem" using amount.floor_le_left [OF sw] by simp
    then have part: "unat (?rem - sw) \<le> unat ?rem" by (simp add: unat_sub word_le_nat_alt)
    then have "unat (?fee + (?rem - sw)) = unat ?fee + unat (?rem - sw)"
      using assms(3) by (intro unat_add_no_wrap) linarith
    then show ?thesis using part fee rest by auto
  qed
qed

lemma walk_loop_fee:
  assumes "walk_loop p cs st = Inr st'"
    and "unat (wp_rate p) < unat (wp_denom p)"
    and "unat (ws_total_fee st) + unat (ws_remaining st) < 2 ^ 64"
  shows "unat (ws_total_fee st') \<le> unat (ws_total_fee st) + unat (ws_remaining st)"
  using assms
proof (induction cs arbitrary: st)
  case Nil
  then show ?case by (subst (asm) walk_loop.simps) (auto split: if_splits)
next
  case (Cons c cs)
  show ?case
  proof (cases "ws_remaining st = 0")
    case True
    then show ?thesis using Cons.prems(1) by (subst (asm) walk_loop.simps) simp
  next
    case False
    then obtain broke st1 where step: "walk_step p c st = Inr (broke, st1)"
      and rest: "(if broke then Inr st1 else walk_loop p cs st1) = Inr st'"
      using Cons.prems(1) by (subst (asm) walk_loop.simps) (auto split: if_splits)
    note bound = walk_step_fee [OF step Cons.prems(2,3)]
    show ?thesis
    proof (cases broke)
      case True
      then show ?thesis using bound rest by simp
    next
      case False
      then have rec: "walk_loop p cs st1 = Inr st'" using rest by simp
      have "unat (ws_total_fee st1) + unat (ws_remaining st1) < 2 ^ 64"
        using bound False Cons.prems(3) by simp
      from Cons.IH [OF rec Cons.prems(2) this] show ?thesis using bound False by simp
    qed
  qed
qed

lemma walk_ticks_fee_bound:
  assumes "walk_ticks pool cs l s rate denom zfo a = Inr (out, fee, s')"
  shows "unat fee \<le> unat a"
proof -
  let ?p = "\<lparr>wp_pool = pool, wp_rate = ucast rate, wp_denom = ucast denom, wp_zero_for_one = zfo,
      wp_amount_in = a\<rparr>"
  let ?st = "\<lparr>ws_liquidity = l, ws_sqrt_price = s, ws_remaining = ucast a, ws_total_out = 0,
      ws_total_fee = 0\<rparr>"
  have rate: "\<not> (ucast denom :: u128) \<le> ucast rate"
    using assms by (auto simp: walk_ticks_def)
  then obtain st where st: "walk_loop ?p cs ?st = Inr st" and fee: "fee = cap_u64 (ws_total_fee st)"
    using assms by (auto simp: walk_ticks_def)
  have "unat (wp_rate ?p) < unat (wp_denom ?p)"
    using rate by (simp add: word_le_nat_alt not_le)
  moreover have "unat (ws_total_fee ?st) + unat (ws_remaining ?st) < 2 ^ 64"
    using u64_bound [of a] by (simp add: unat_simps)
  ultimately have "unat (ws_total_fee st) \<le> unat a"
    using walk_loop_fee [OF st] by (simp add: unat_simps)
  then show ?thesis unfolding fee by (simp add: unat_cap_u64)
qed

section \<open>Properties\<close>

text \<open>
  The array computed for a tick is the one that holds it, on both sides of zero: its start
  is a multiple of the array's span, at most the tick, and less than one span below it.
\<close>

theorem tick_array_holds_tick:
  assumes "s \<noteq> 0" and "MIN_TICK \<le> tick" and "tick \<le> MAX_TICK"
  shows "tick_array_start_index tick s \<le> tick
       \<and> tick < tick_array_start_index tick s + 60 * int (unat s)
       \<and> 60 * int (unat s) dvd tick_array_start_index tick s"
  using tick_in_its_array [OF assms] by (simp add: ticks_per_array_eq)

theorem tick_array_holds_tick_witness:
  "tick_array_start_index (- 1) 10 \<le> - 1 \<and> - 1 < tick_array_start_index (- 1) 10 + 600"
  using tick_array_holds_tick [of 10 "- 1"] by (simp add: MIN_TICK_def MAX_TICK_def)

text \<open>
  A price exists exactly for the ticks of the program's range, and it is the square root
  price on the right side of one, far from both ends of \<open>u128\<close>.
\<close>

theorem sqrt_price_of_tick:
  "case get_sqrt_price_at_tick tick of
     None \<Rightarrow> tick < MIN_TICK \<or> MAX_TICK < tick
   | Some r \<Rightarrow> MIN_TICK \<le> tick \<and> tick \<le> MAX_TICK
       \<and> (if 0 < tick then 2 ^ 64 - 1 \<le> unat r \<and> unat r \<le> u128_max div 75000000
          else 75000000 \<le> unat r \<and> unat r \<le> 2 ^ 64)"
proof (cases "MIN_TICK \<le> tick \<and> tick \<le> MAX_TICK")
  case True
  then obtain r where "get_sqrt_price_at_tick tick = Some r"
    and "if 0 < tick then 2 ^ 64 - 1 \<le> unat r \<and> unat r \<le> u128_max div 75000000
         else 75000000 \<le> unat r \<and> unat r \<le> 2 ^ 64"
    using sqrt_price_range by blast
  then show ?thesis using True by simp
next
  case False
  then have "tick < MIN_TICK \<or> MAX_TICK < tick" by linarith
  then show ?thesis using sqrt_price_outside by simp
qed

text \<open>
  The arrays a swap passes are the nearest three initialised ones in its direction. The
  scan equals filtering the enumeration of all reachable starts, and its result is ordered
  away from the current tick.
\<close>

theorem swap_arrays_are_nearest:
  assumes "s \<noteq> 0"
  shows "arrays_for_swap bitmap tick s zfo =
     take 3 (filter (\<lambda>x. is_initialised bitmap x s)
       (array_starts (if zfo then - ticks_per_array s else ticks_per_array s)
          (wrap_i32 (pool_bitmap_reach s
             + wrap_i32 (wrap_i32 (ticks_per_array s * EXTENSION_BLOCK_BITS) * int EXTENSION_BLOCKS)))
          (tick_array_start_index tick s)))
   \<and> sorted_wrt (\<lambda>x y. if zfo then y < x else x < y) (arrays_for_swap bitmap tick s zfo)"
  using arrays_for_swap_eq [OF assms] arrays_for_swap_props(3) [OF assms]
  by (simp add: TICK_ARRAYS_PER_SWAP_def)

theorem swap_arrays_are_nearest_witness:
  "sorted_wrt (\<lambda>x y. y < x) (arrays_for_swap \<lparr>tb_pool = replicate 16 (- 1), tb_positive = [], tb_negative = []\<rparr> 30 1 True)"
proof -
  have "(1 :: u16) \<noteq> 0" by simp
  from conjunct2 [OF swap_arrays_are_nearest [OF this, of _ 30 True]]
  show ?thesis by (simp only: if_True)
qed



text \<open>Whatever a walk over the ticks crosses, it never charges more than the amount it was given.\<close>

theorem tick_walk_fee_bounded:
  assumes "walk_ticks pool cs l s rate denom zfo a = Inr (out, fee, s')"
  shows "unat fee \<le> unat a"
  by (rule walk_ticks_fee_bound [OF assms])

theorem tick_walk_fee_bounded_witness:
  "\<exists>out fee s'. walk_ticks [] [\<lparr>it_tick = 0, it_liquidity_net = 0\<rparr>] 1000000000 (2 ^ 65) 2500 1000000 True 1000000
      = Inr (out, fee, s') \<and> unat fee \<le> 1000000"
proof -
  have p: "get_sqrt_price_at_tick 0 = Some (2 ^ 64)"
    by (simp add: get_sqrt_price_at_tick_def MAGIC_def MAX_TICK_def MIN_TICK_def)
  have "isl (walk_ticks [] [\<lparr>it_tick = 0, it_liquidity_net = 0\<rparr>] 1000000000 (2 ^ 65) 2500 1000000 True 1000000) = False"
    by (simp add: walk_ticks_def walk_loop.simps walk_step_def p input_for_move_def
        output_for_move_def next_sqrt_price_from_input_def checked_shl_64 mul_div_ceil_spec mul_div_floor_spec
        ceil_nat_def ceil_div_def div_ceil_def checked_mul_def checked_add_def saturating_sub_def)
  then obtain out fee s' where w: "walk_ticks [] [\<lparr>it_tick = 0, it_liquidity_net = 0\<rparr>] 1000000000 (2 ^ 65)
      2500 1000000 True 1000000 = Inr (out, fee, s')"
    by (cases "walk_ticks [] [\<lparr>it_tick = 0, it_liquidity_net = 0\<rparr>] 1000000000 (2 ^ 65) 2500 1000000 True 1000000") auto
  show ?thesis using tick_walk_fee_bounded [OF w] w by simp
qed

text \<open>
  C37: \<open>checked_shl\<close> does not detect lost bits, so for a liquidity of \<open>2 ^ 64\<close> the scaled
  liquidity is zero and a move of any size needs no input.
\<close>

theorem scaled_liquidity_loses_bits:
  "checked_shl (2 ^ 64 :: u128) 64 = Some 0 \<and> input_for_move True (2 ^ 64) (2 ^ 64) (2 ^ 63) = Inr 0"
proof
  show "checked_shl (2 ^ 64 :: u128) 64 = Some 0" by code_simp
  show "input_for_move True (2 ^ 64) (2 ^ 64) (2 ^ 63) = Inr 0"
    by (simp add: input_for_move_def checked_shl_64 mul_div_ceil_spec ceil_nat_def ceil_div_def div_ceil_def)
qed

end
