(* ===== verification/Raydium_Clmm.thy ===== *)
theory Raydium_Clmm
  imports Swap_Plan Clmm_Ticks Token2022
begin

text \<open>
  The Raydium CLMM venue: the pool and config layouts of
  \<open>src/chains/solana/pools/layouts/raydium_clmm.rs\<close> and the market of
  \<open>src/chains/solana/swaps/direct/venues/raydium_clmm.rs\<close>, on top of the tick walk
  of \<open>Clmm_Ticks\<close>.
\<close>

section \<open>Layouts\<close>

record clmm_pool_state =
  cls_pool :: pubkey
  cls_amm_config :: pubkey
  cls_mint_0 :: pubkey
  cls_mint_1 :: pubkey
  cls_vault_0 :: pubkey
  cls_vault_1 :: pubkey
  cls_observation :: pubkey
  cls_decimals_0 :: u8
  cls_decimals_1 :: u8
  cls_tick_spacing :: u16
  cls_liquidity :: u128
  cls_sqrt_price_x64 :: u128
  cls_tick_current :: i32
  cls_status :: u8

definition clmm_pool_state_decode :: "pubkey \<Rightarrow> bytes \<Rightarrow> clmm_pool_state option" where
  "clmm_pool_state_decode pool data = do {
     amm_config \<leftarrow> pubkey_at data 9;
     mint_0 \<leftarrow> pubkey_at data 73;
     mint_1 \<leftarrow> pubkey_at data 105;
     vault_0 \<leftarrow> pubkey_at data 137;
     vault_1 \<leftarrow> pubkey_at data 169;
     observation \<leftarrow> pubkey_at data 201;
     decimals_0 \<leftarrow> u8_at data 233;
     decimals_1 \<leftarrow> u8_at data 234;
     tick_spacing \<leftarrow> u16_at data 235;
     liquidity \<leftarrow> u128_at data 237;
     sqrt_price_x64 \<leftarrow> u128_at data 253;
     tick_current \<leftarrow> i32_at data 269;
     status \<leftarrow> u8_at data 389;
     Some \<lparr>cls_pool = pool, cls_amm_config = amm_config, cls_mint_0 = mint_0, cls_mint_1 = mint_1,
       cls_vault_0 = vault_0, cls_vault_1 = vault_1, cls_observation = observation,
       cls_decimals_0 = decimals_0, cls_decimals_1 = decimals_1, cls_tick_spacing = tick_spacing,
       cls_liquidity = liquidity, cls_sqrt_price_x64 = sqrt_price_x64,
       cls_tick_current = tick_current, cls_status = status\<rparr>
   }"

definition CLMM_STATUS_BIT_SWAP_DISABLED :: nat where
  "CLMM_STATUS_BIT_SWAP_DISABLED = 2"

definition clmm_swap_enabled :: "clmm_pool_state \<Rightarrow> bool" where
  "clmm_swap_enabled s \<longleftrightarrow> (cls_status s AND push_bit CLMM_STATUS_BIT_SWAP_DISABLED 1) = 0"

record clmm_fee_config =
  clc_protocol_fee_rate :: u32
  clc_trade_fee_rate :: u32
  clc_fund_fee_rate :: u32

definition clmm_fee_config_decode :: "bytes \<Rightarrow> clmm_fee_config option" where
  "clmm_fee_config_decode data = do {
     protocol_fee_rate \<leftarrow> u32_at data 43;
     trade_fee_rate \<leftarrow> u32_at data 47;
     fund_fee_rate \<leftarrow> u32_at data 53;
     Some \<lparr>clc_protocol_fee_rate = protocol_fee_rate, clc_trade_fee_rate = trade_fee_rate,
       clc_fund_fee_rate = fund_fee_rate\<rparr>
   }"

section \<open>The market\<close>

definition CLMM_SWAP_V2 :: bytes where
  "CLMM_SWAP_V2 = [0x2b, 0x04, 0xed, 0x0b, 0x1a, 0xc9, 0x1e, 0x62]"

definition CLMM_FEE_RATE_DENOMINATOR :: u64 where
  "CLMM_FEE_RATE_DENOMINATOR = 1000000"

definition CLMM_COMPUTE_UNITS :: u32 where
  "CLMM_COMPUTE_UNITS = 200000"

definition clmm_program_id :: "sdk \<Rightarrow> pubkey" where
  "clmm_program_id sdk = pubkey_from_str sdk (program_id_str RaydiumClmm)"

definition memo_program_id :: "sdk \<Rightarrow> pubkey" where
  "memo_program_id sdk = pubkey_from_str sdk ''MemoSq4gqABAXKb96qnH8TysNcWxMyWCqXgDLGmfcHr''"

record clmm_market =
  clm_state :: clmm_pool_state
  clm_config :: clmm_fee_config
  clm_bitmap :: tick_array_bitmap
  clm_bitmap_extension :: pubkey
  clm_token_program_0 :: pubkey
  clm_token_program_1 :: pubkey
  clm_vault_0_balance :: u64
  clm_vault_1_balance :: u64
  clm_transfer_fee_0 :: "transfer_fee_schedule option"
  clm_transfer_fee_1 :: "transfer_fee_schedule option"
  clm_ticks :: "initialized_tick list"

text \<open>The loops of \<open>load\<close> that gather the addresses of the arrays, without duplicates.\<close>

fun push_new_addresses :: "pubkey list \<Rightarrow> pubkey list \<Rightarrow> pubkey list" where
  "push_new_addresses [] addresses = addresses"
| "push_new_addresses (address # rest) addresses =
     push_new_addresses rest (if address \<notin> set addresses then addresses @ [address] else addresses)"

text \<open>The loop of \<open>load\<close> over the tick arrays that the batch returned.\<close>

fun collect_ticks ::
  "pubkey \<Rightarrow> account option list \<Rightarrow> nat \<Rightarrow> pubkey list \<Rightarrow> initialized_tick list
   \<Rightarrow> initialized_tick list direct_swap_result" where
  "collect_ticks pool accounts index [] ticks = Inr ticks"
| "collect_ticks pool accounts index (address # rest) ticks =
     (if index < length accounts then
        case accounts ! index of
          Some account \<Rightarrow>
            (case decode_tick_array pool (acc_data account) of
               Some decoded \<Rightarrow> collect_ticks pool accounts (Suc index) rest (ticks @ decoded)
             | None \<Rightarrow> Inl (PoolUndecodable pool ''tick array {} did not match the expected layout''))
        | None \<Rightarrow> collect_ticks pool accounts (Suc index) rest ticks
      else collect_ticks pool accounts (Suc index) rest ticks)"

definition clmm_load ::
  "sdk \<Rightarrow> pubkey \<Rightarrow> account \<Rightarrow> account_reader \<Rightarrow> clmm_market direct_swap_result" where
  "clmm_load sdk pool pool_account reader =
     and_then (ok_or (clmm_pool_state_decode pool (acc_data pool_account))
       (PoolUndecodable pool ''CLMM pool state did not match the expected layout ({} bytes)'')) (\<lambda>state.
     if \<not> clmm_swap_enabled state
     then Inl (PoolNotTradable pool ''status byte {} has swapping disabled'')
     else if cls_liquidity state = 0
     then Inl (InsufficientLiquidity pool 0 ''the pool has no liquidity in range at the current tick'')
     else
       let bitmap_extension = bitmap_extension_address sdk (clmm_program_id sdk) pool in
       and_then (ok_or (bitmap_from_pool_state (acc_data pool_account))
         (PoolUndecodable pool ''CLMM pool state carries no tick-array bitmap'')) (\<lambda>initial_bitmap.
       let array_addresses = (\<lambda>zero_for_one.
             map (tick_array_address sdk (clmm_program_id sdk) pool)
               (arrays_for_swap initial_bitmap (cls_tick_current state) (cls_tick_spacing state)
                  zero_for_one));
           tick_array_addresses =
             push_new_addresses (array_addresses True @ array_addresses False) [];
           fixed_addresses = [cls_amm_config state, cls_vault_0 state, cls_vault_1 state,
             cls_mint_0 state, cls_mint_1 state, bitmap_extension];
           addresses = fixed_addresses @ tick_array_addresses in
       and_then (reader addresses) (\<lambda>accounts.
       let fetched = required addresses accounts ''account does not exist'' in
       and_then (fetched 0) (\<lambda>config_account.
       and_then (ok_or (clmm_fee_config_decode (acc_data config_account))
         (PoolUndecodable pool ''CLMM AmmConfig did not match the expected layout'')) (\<lambda>config.
       and_then (fetched 1) (\<lambda>vault_0.
       and_then (ok_or (token_account_amount (acc_data vault_0))
         (PoolUndecodable pool ''token_0 vault is not a token account'')) (\<lambda>vault_0_balance.
       and_then (fetched 2) (\<lambda>vault_1.
       and_then (ok_or (token_account_amount (acc_data vault_1))
         (PoolUndecodable pool ''token_1 vault is not a token account'')) (\<lambda>vault_1_balance.
       and_then (fetched 3) (\<lambda>mint_0_account.
       and_then (fetched 4) (\<lambda>mint_1_account.
       let bitmap =
             (if 5 < length accounts then
                case accounts ! 5 of
                  Some extension \<Rightarrow> with_extension initial_bitmap pool (acc_data extension)
                | None \<Rightarrow> initial_bitmap
              else initial_bitmap) in
       and_then (collect_ticks pool accounts (length fixed_addresses) tick_array_addresses []) (\<lambda>ticks.
       Inr \<lparr>clm_state = state, clm_config = config, clm_bitmap = bitmap,
            clm_bitmap_extension = bitmap_extension,
            clm_token_program_0 = acc_owner mint_0_account,
            clm_token_program_1 = acc_owner mint_1_account,
            clm_vault_0_balance = vault_0_balance, clm_vault_1_balance = vault_1_balance,
            clm_transfer_fee_0 = transfer_fee_schedule_of sdk mint_0_account,
            clm_transfer_fee_1 = transfer_fee_schedule_of sdk mint_1_account,
            clm_ticks = dedup_by_key it_tick (sort_key it_tick ticks)\<rparr>))))))))))))"

definition clmm_is_side_0 :: "clmm_market \<Rightarrow> pubkey \<Rightarrow> bool option" where
  "clmm_is_side_0 m mint = side_of (cls_mint_0 (clm_state m)) (cls_mint_1 (clm_state m)) mint"

definition clmm_transfer_fee :: "clmm_market \<Rightarrow> bool \<Rightarrow> transfer_fee_schedule option" where
  "clmm_transfer_fee m side_0 = (if side_0 then clm_transfer_fee_0 m else clm_transfer_fee_1 m)"

definition clmm_output_vault_balance :: "clmm_market \<Rightarrow> bool \<Rightarrow> u64" where
  "clmm_output_vault_balance m input_is_0 =
     (if input_is_0 then clm_vault_1_balance m else clm_vault_0_balance m)"

definition clmm_walk :: "clmm_market \<Rightarrow> bool \<Rightarrow> u64 \<Rightarrow> (u64 \<times> u64 \<times> u128) direct_swap_result" where
  "clmm_walk m zero_for_one amount_in =
     (let candidates = ticks_ahead (clm_ticks m) (cls_tick_current (clm_state m)) zero_for_one in
      walk_ticks (cls_pool (clm_state m)) candidates (cls_liquidity (clm_state m))
        (cls_sqrt_price_x64 (clm_state m)) (ucast (clc_trade_fee_rate (clm_config m)))
        CLMM_FEE_RATE_DENOMINATOR zero_for_one amount_in)"

definition clmm_tick_array_accounts :: "sdk \<Rightarrow> clmm_market \<Rightarrow> bool \<Rightarrow> pubkey list" where
  "clmm_tick_array_accounts sdk m zero_for_one =
     map (tick_array_address sdk (clmm_program_id sdk) (cls_pool (clm_state m)))
       (arrays_for_swap (clm_bitmap m) (cls_tick_current (clm_state m))
          (cls_tick_spacing (clm_state m)) zero_for_one)"

definition clmm_token_program :: "clmm_market \<Rightarrow> pubkey \<Rightarrow> pubkey option" where
  "clmm_token_program m mint =
     map_option (\<lambda>side_0. if side_0 then clm_token_program_0 m else clm_token_program_1 m)
       (clmm_is_side_0 m mint)"

definition clmm_decimals :: "clmm_market \<Rightarrow> pubkey \<Rightarrow> u8 option" where
  "clmm_decimals m mint =
     map_option (\<lambda>side_0. if side_0 then cls_decimals_0 (clm_state m) else cls_decimals_1 (clm_state m))
       (clmm_is_side_0 m mint)"

definition clmm_quote :: "clmm_market \<Rightarrow> pubkey \<Rightarrow> u64 \<Rightarrow> venue_quote direct_swap_result" where
  "clmm_quote m input_mint amount_in =
     and_then (ok_or (clmm_is_side_0 m input_mint)
       (PairNotInPool (cls_pool (clm_state m)) input_mint default_pubkey)) (\<lambda>input_is_0.
     let received_by_pool = net_of_fee (clmm_transfer_fee m input_is_0) amount_in in
     if received_by_pool = 0
     then Inl (InsufficientLiquidity (cls_pool (clm_state m)) amount_in
            ''the input transfer fee consumes the whole amount at this size'')
     else
       and_then (clmm_walk m input_is_0 received_by_pool) (\<lambda>(gross_out, lp_fee, sqrt_next).
       if gross_out = 0
       then Inl (InsufficientLiquidity (cls_pool (clm_state m)) amount_in
              ''fees consume the whole input at this size'')
       else
         let expected_out = net_of_fee (clmm_transfer_fee m (\<not> input_is_0)) gross_out in
         if expected_out = 0 \<or> clmm_output_vault_balance m input_is_0 \<le> expected_out
         then Inl (InsufficientLiquidity (cls_pool (clm_state m)) amount_in
                ''the output exceeds what the pool's vault holds'')
         else Inr \<lparr>vq_amount_in = amount_in, vq_expected_out = expected_out, vq_lp_fee = lp_fee,
                vq_price_impact_pct =
                  sqrt_price_impact (cls_sqrt_price_x64 (clm_state m)) sqrt_next\<rparr>))"

definition clmm_swap_instruction ::
  "sdk \<Rightarrow> clmm_market \<Rightarrow> swap_accounts \<Rightarrow> u64 \<Rightarrow> u64 \<Rightarrow> instruction direct_swap_result" where
  "clmm_swap_instruction sdk m accounts amount_in min_out =
     (let state = clm_state m in
      and_then (oriented_pair (cls_pool state) (clmm_is_side_0 m) accounts) (\<lambda>input_is_0.
      let (input_vault, output_vault) =
            (if input_is_0 then (cls_vault_0 state, cls_vault_1 state)
             else (cls_vault_1 state, cls_vault_0 state));
          tick_arrays = clmm_tick_array_accounts sdk m input_is_0 in
      if tick_arrays = []
      then Inl (InsufficientLiquidity (cls_pool state) amount_in
             ''no initialised tick array lies in the swap direction'')
      else Inr \<lparr>ix_program_id = clmm_program_id sdk,
             ix_accounts =
               [meta_new_readonly (sa_owner accounts) True,
                meta_new_readonly (cls_amm_config state) False,
                meta_new (cls_pool state) False,
                meta_new (sa_input_token_account accounts) False,
                meta_new (sa_output_token_account accounts) False,
                meta_new input_vault False,
                meta_new output_vault False,
                meta_new (cls_observation state) False,
                meta_new_readonly (spl_token_id sdk) False,
                meta_new_readonly (spl_token_2022_id sdk) False,
                meta_new_readonly (memo_program_id sdk) False,
                meta_new_readonly (sa_input_mint accounts) False,
                meta_new_readonly (sa_output_mint accounts) False]
               @ [meta_new (clm_bitmap_extension m) False]
               @ map (\<lambda>array. meta_new array False) (take TICK_ARRAYS_PER_SWAP tick_arrays),
             ix_data = CLMM_SWAP_V2 @ u64_to_le_bytes amount_in @ u64_to_le_bytes min_out
               @ u128_to_le_bytes 0 @ [1]\<rparr>))"

definition clmm_as_market :: "sdk \<Rightarrow> clmm_market \<Rightarrow> pool_market" where
  "clmm_as_market sdk m =
     \<lparr>pm_program = RaydiumClmm, pm_pool = cls_pool (clm_state m),
      pm_mints = (cls_mint_0 (clm_state m), cls_mint_1 (clm_state m)),
      pm_token_program = clmm_token_program m, pm_decimals = clmm_decimals m,
      pm_quote = clmm_quote m, pm_swap_instruction = clmm_swap_instruction sdk m,
      pm_compute_units = CLMM_COMPUTE_UNITS, pm_settles_native_sol = False\<rparr>"

section \<open>Decoding\<close>

lemma clmm_pool_state_decode_None: "clmm_pool_state_decode pool data = None \<longleftrightarrow> length data < 390"
  unfolding clmm_pool_state_decode_def by (auto simp: read_at)

section \<open>Loading\<close>

lemma set_push_new_addresses: "set (push_new_addresses xs ys) = set xs \<union> set ys"
  by (induction xs ys rule: push_new_addresses.induct) auto

lemma distinct_push_new_addresses: "distinct ys \<Longrightarrow> distinct (push_new_addresses xs ys)"
  by (induction xs ys rule: push_new_addresses.induct) auto

text \<open>The ticks of a loaded market are strictly ascending, as \<^const>\<open>ticks_ahead\<close> needs them.\<close>

lemma clmm_load_ticks:
  assumes "clmm_load sdk pool acc reader = Inr m"
  shows "sorted_wrt (\<lambda>t u. it_tick t < it_tick u) (clm_ticks m)"
proof -
  obtain ticks where "clm_ticks m = dedup_by_key it_tick (sort_key it_tick ticks)"
    using assms by (auto simp: clmm_load_def Let_def split: if_splits)
  then show ?thesis by (simp add: dedup_sorted_strict)
qed

lemma clmm_load_ok:
  assumes "clmm_load sdk pool acc reader = Inr m"
  shows "clmm_pool_state_decode pool (acc_data acc) = Some (clm_state m)"
    and "clmm_swap_enabled (clm_state m)" and "cls_liquidity (clm_state m) \<noteq> 0"
  using assms by (auto simp: clmm_load_def Let_def split: if_splits)

section \<open>Quotes\<close>

lemma clmm_quote_ok:
  assumes "clmm_quote m mint a = Inr q"
  obtains s gross after where
    "clmm_is_side_0 m mint = Some s"
    and "clmm_walk m s (net_of_fee (clmm_transfer_fee m s) a) = Inr (gross, vq_lp_fee q, after)"
    and "vq_expected_out q = net_of_fee (clmm_transfer_fee m (\<not> s)) gross"
    and "0 < unat (vq_expected_out q)"
    and "unat (vq_expected_out q) < unat (clmm_output_vault_balance m s)"
    and "vq_amount_in q = a"
    and "vq_price_impact_pct q = sqrt_price_impact (cls_sqrt_price_x64 (clm_state m)) after"
proof -
  obtain s where s: "clmm_is_side_0 m mint = Some s"
    using assms by (auto simp: clmm_quote_def)
  obtain gross fee after where w: "clmm_walk m s (net_of_fee (clmm_transfer_fee m s) a) = Inr (gross, fee, after)"
    using assms s by (auto simp: clmm_quote_def Let_def split: if_splits)
  show ?thesis
    by (rule that [of s gross after])
      (use assms s w in \<open>auto simp: clmm_quote_def Let_def unat_gt_0 word_le_nat_alt not_le
         split: if_splits\<close>)
qed

lemma clmm_quote_fee_le: "clmm_quote m mint a = Inr q \<Longrightarrow> unat (vq_lp_fee q) \<le> unat a"
proof (erule clmm_quote_ok)
  fix s gross after
  assume "clmm_walk m s (net_of_fee (clmm_transfer_fee m s) a) = Inr (gross, vq_lp_fee q, after)"
  then have "unat (vq_lp_fee q) \<le> unat (net_of_fee (clmm_transfer_fee m s) a)"
    unfolding clmm_walk_def Let_def by (rule walk_ticks_fee_bound)
  then show ?thesis using net_of_fee_le [of "clmm_transfer_fee m s" a] by linarith
qed

section \<open>The contract\<close>

lemma clmm_side: "clmm_is_side_0 m = side_of (cls_mint_0 (clm_state m)) (cls_mint_1 (clm_state m))"
  by (rule ext) (simp add: clmm_is_side_0_def)

lemmas clmm_as_market_simps = clmm_as_market_def holds_def clmm_side

lemma clmm_swap_contract:
  assumes "clmm_swap_instruction sdk m accounts a mo = Inr ix"
  shows "swap_contract 8 16 (clmm_as_market sdk m) accounts a mo ix"
proof -
  obtain s where s: "oriented_pair (cls_pool (clm_state m)) (clmm_is_side_0 m) accounts = Inr s"
    using assms by (auto simp: clmm_swap_instruction_def Let_def)
  have pair: "trades (clmm_as_market sdk m) (sa_input_mint accounts) (sa_output_mint accounts)"
    using s unfolding clmm_side by (rule oriented_pair_trades) (simp add: clmm_as_market_def)
  have len: "length CLMM_SWAP_V2 = 8" by (simp add: CLMM_SWAP_V2_def)
  show ?thesis
    unfolding swap_contract_def
    using assms s pair swap_data_read [OF len, of a mo "u128_to_le_bytes 0 @ [1]"]
    by (auto simp: clmm_swap_instruction_def Let_def meta_new_def meta_new_readonly_def list_all_iff
        split: prod.splits if_splits)
qed

interpretation clmm: market "clmm_as_market sdk" "\<lambda>_ _. 8" "\<lambda>_ _. 16"
proof
  fix m :: clmm_market and mint a q accounts mo ix
  show "pm_token_program (clmm_as_market sdk m) mint \<noteq> None \<longleftrightarrow> holds (clmm_as_market sdk m) mint"
    by (simp add: clmm_as_market_simps clmm_token_program_def)
  show "pm_decimals (clmm_as_market sdk m) mint \<noteq> None \<longleftrightarrow> holds (clmm_as_market sdk m) mint"
    by (simp add: clmm_as_market_simps clmm_decimals_def)
  show "holds (clmm_as_market sdk m) mint \<and> sane_quote a q"
    if "pm_quote (clmm_as_market sdk m) mint a = Inr q"
  proof -
    have "clmm_quote m mint a = Inr q" using that by (simp add: clmm_as_market_def)
    then show ?thesis
      by (rule clmm_quote_ok)
        (auto simp: clmm_as_market_simps sane_quote_def sqrt_price_impact_range dest!: side_of_Some)
  qed
  show "swap_contract 8 16 (clmm_as_market sdk m) accounts a mo ix"
    if "pm_swap_instruction (clmm_as_market sdk m) accounts a mo = Inr ix"
    using that by (intro clmm_swap_contract) (simp add: clmm_as_market_def)
qed

text \<open>A swap names between one and three tick arrays, after the fourteen fixed accounts.\<close>

lemma clmm_account_count:
  assumes "clmm_swap_instruction sdk m accounts a mo = Inr ix"
  shows "15 \<le> length (ix_accounts ix) \<and> length (ix_accounts ix) \<le> 17"
  using assms
  by (auto simp: clmm_swap_instruction_def Let_def TICK_ARRAYS_PER_SWAP_def Suc_le_eq
      split: prod.splits if_splits)

end
