(* ===== verification/Meteora_Damm.thy ===== *)
theory Meteora_Damm
  imports Swap_Plan Amount_Math Token2022 Clmm_Ticks
begin

text \<open>
  The Meteora DAMM v2 venue: the layouts of
  \<open>src/chains/solana/pools/layouts/meteora_damm.rs\<close> and the market of
  \<open>src/chains/solana/swaps/direct/venues/meteora_damm.rs\<close>. A pool has one
  position over its whole band, so a swap is one constant-liquidity step; the fee has
  a base part (a cliff, a time scheduler or a rate limiter) and a dynamic part.

  The current slot and the clock are parameters of the loader. The lemmas bound the
  fee, show what the exponential scheduler computes and where it does not, and bound
  the step by the geometric mean of the prices it moves between.
\<close>

section \<open>Layouts\<close>

record dynamic_fee =
  dyf_initialized :: bool
  dyf_variable_fee_control :: u32
  dyf_bin_step :: u16
  dyf_volatility_accumulator :: u128

definition dynamic_fee_decode :: "bytes \<Rightarrow> nat \<Rightarrow> dynamic_fee option" where
  "dynamic_fee_decode data offset = do {
     initialized \<leftarrow> u8_at data offset;
     variable_fee_control \<leftarrow> u32_at data (offset + 12);
     bin_step \<leftarrow> u16_at data (offset + 16);
     volatility_accumulator \<leftarrow> u128_at data (offset + 64);
     Some \<lparr>dyf_initialized = (initialized \<noteq> 0), dyf_variable_fee_control = variable_fee_control,
       dyf_bin_step = bin_step, dyf_volatility_accumulator = volatility_accumulator\<rparr>
   }"

text \<open>The fields of each constructor in the order of the source.\<close>

datatype base_fee =
    TimeScheduler u64 u16 u64 u64 bool
  | RateLimiter u64 u16 u32 u32 u64
  | Cliff u64

definition base_fee_decode :: "bytes \<Rightarrow> nat \<Rightarrow> base_fee option" where
  "base_fee_decode data offset = do {
     cliff \<leftarrow> u64_at data offset;
     mode \<leftarrow> u8_at data (offset + 8);
     (if mode = 0 \<or> mode = 1 then do {
        periods \<leftarrow> u16_at data (offset + 14);
        period_frequency \<leftarrow> u64_at data (offset + 16);
        reduction_factor \<leftarrow> u64_at data (offset + 24);
        Some (TimeScheduler cliff periods period_frequency reduction_factor (mode = 0))
      }
      else if mode = 2 then do {
        fee_increment_bps \<leftarrow> u16_at data (offset + 14);
        max_limiter_duration \<leftarrow> u32_at data (offset + 16);
        max_fee_bps \<leftarrow> u32_at data (offset + 20);
        reference_amount \<leftarrow> u64_at data (offset + 24);
        Some (RateLimiter cliff fee_increment_bps max_limiter_duration max_fee_bps reference_amount)
      }
      else Some (Cliff cliff))
   }"

record damm_pool_state =
  das_pool :: pubkey
  das_base_fee :: base_fee
  das_dynamic_fee :: dynamic_fee
  das_collect_fee_mode :: u8
  das_compounding_fee_bps :: u16
  das_mint_a :: pubkey
  das_mint_b :: pubkey
  das_vault_a :: pubkey
  das_vault_b :: pubkey
  das_liquidity :: u128
  das_protocol_fee_a :: u64
  das_protocol_fee_b :: u64
  das_sqrt_min_price :: u128
  das_sqrt_max_price :: u128
  das_sqrt_price :: u128
  das_activation_point :: u64
  das_activation_type :: u8
  das_pool_status :: u8

definition damm_pool_state_decode :: "pubkey \<Rightarrow> bytes \<Rightarrow> damm_pool_state option" where
  "damm_pool_state_decode pool data = do {
     base_fee \<leftarrow> base_fee_decode data 8;
     dynamic_fee \<leftarrow> dynamic_fee_decode data 56;
     compounding_fee_bps \<leftarrow> u16_at data 54;
     mint_a \<leftarrow> pubkey_at data 168;
     mint_b \<leftarrow> pubkey_at data 200;
     vault_a \<leftarrow> pubkey_at data 232;
     vault_b \<leftarrow> pubkey_at data 264;
     liquidity \<leftarrow> u128_at data 360;
     protocol_fee_a \<leftarrow> u64_at data 392;
     protocol_fee_b \<leftarrow> u64_at data 400;
     sqrt_min_price \<leftarrow> u128_at data 424;
     sqrt_max_price \<leftarrow> u128_at data 440;
     sqrt_price \<leftarrow> u128_at data 456;
     activation_point \<leftarrow> u64_at data 472;
     activation_type \<leftarrow> u8_at data 480;
     pool_status \<leftarrow> u8_at data 481;
     collect_fee_mode \<leftarrow> u8_at data 484;
     Some \<lparr>das_pool = pool, das_base_fee = base_fee, das_dynamic_fee = dynamic_fee,
       das_collect_fee_mode = collect_fee_mode, das_compounding_fee_bps = compounding_fee_bps,
       das_mint_a = mint_a, das_mint_b = mint_b, das_vault_a = vault_a, das_vault_b = vault_b,
       das_liquidity = liquidity, das_protocol_fee_a = protocol_fee_a,
       das_protocol_fee_b = protocol_fee_b, das_sqrt_min_price = sqrt_min_price,
       das_sqrt_max_price = sqrt_max_price, das_sqrt_price = sqrt_price,
       das_activation_point = activation_point, das_activation_type = activation_type,
       das_pool_status = pool_status\<rparr>
   }"

section \<open>Fees\<close>

definition DAMM_FEE_DENOMINATOR :: u64 where
  "DAMM_FEE_DENOMINATOR = 1000000000"

definition MAX_FEE_NUMERATOR :: u64 where
  "MAX_FEE_NUMERATOR = 500000000"

definition BASIS_POINT_MAX :: u64 where
  "BASIS_POINT_MAX = 10000"

text \<open>The loop of \<open>exponential_reduction\<close>.\<close>

function reduction_loop :: "u128 \<Rightarrow> u128 \<Rightarrow> u64 \<Rightarrow> u128" where
  "reduction_loop result base exponent =
     (if exponent = 0 then result
      else let result = (if exponent AND 1 = 1 then drop_bit 64 (result * base) else result);
               base = drop_bit 64 (base * base);
               exponent = drop_bit 1 exponent
           in if base = 0 then result else reduction_loop result base exponent)"
  by pat_completeness auto
termination
proof (relation "measure (\<lambda>(result, base, exponent). unat exponent)", goal_cases)
  case (2 result base exponent result' base' exponent')
  then show ?case by (auto simp: unat_simps unat_gt_0 intro: div_less_dividend)
qed auto

declare reduction_loop.simps [simp del]

definition exponential_reduction :: "u64 \<Rightarrow> u64 \<Rightarrow> u64 \<Rightarrow> u64" where
  "exponential_reduction cliff reduction_factor period =
     (if BASIS_POINT_MAX \<le> reduction_factor then 0
      else let one = push_bit 64 1 :: u128;
               ratio = (one * ucast (BASIS_POINT_MAX - reduction_factor)) div ucast BASIS_POINT_MAX;
               result = reduction_loop one ratio period
           in cap_u64 (drop_bit 64 (ucast cliff * result)))"

definition rate_limited_numerator :: "u64 \<Rightarrow> u64 \<Rightarrow> u16 \<Rightarrow> u32 \<Rightarrow> u64 \<Rightarrow> u64" where
  "rate_limited_numerator amount_in cliff fee_increment_bps max_fee_bps reference_amount =
     (if amount_in \<le> reference_amount then cliff
      else
        let ceiling = min (ucast max_fee_bps * DAMM_FEE_DENOMINATOR div BASIS_POINT_MAX) MAX_FEE_NUMERATOR;
            increment = (ucast fee_increment_bps * ucast DAMM_FEE_DENOMINATOR) div ucast BASIS_POINT_MAX :: u128
        in if increment = 0 \<or> ceiling \<le> cliff then cliff
           else
             let x0 = ucast reference_amount :: u128;
                 c = ucast cliff :: u128;
                 excess = ucast amount_in - x0;
                 blocks = excess div x0;
                 remainder = excess mod x0;
                 max_index = (ucast ceiling - c) div increment;
                 fee =
                   (if blocks < max_index
                    then let stepped = c + c * blocks + increment * blocks * (blocks + 1) div 2
                         in x0 * stepped + remainder * (c + increment * (blocks + 1))
                    else let capped = c + c * max_index + increment * max_index * (max_index + 1) div 2;
                             beyond = (blocks - max_index) * x0 + remainder
                         in x0 * capped + beyond * ucast ceiling);
                 numerator = div_ceil fee (ucast amount_in)
             in ucast (min numerator (ucast ceiling)))"

fun base_fee_numerator :: "base_fee \<Rightarrow> u64 \<Rightarrow> u64 \<Rightarrow> u64 \<Rightarrow> bool \<Rightarrow> u64" where
  "base_fee_numerator (Cliff cliff) amount_in current_point activation_point b_to_a = cliff"
| "base_fee_numerator (TimeScheduler cliff periods period_frequency reduction_factor is_linear)
     amount_in current_point activation_point b_to_a =
     (if period_frequency = 0 \<or> periods = 0 then cliff
      else let elapsed = saturating_sub current_point activation_point;
               period = min (elapsed div period_frequency) (ucast periods)
           in if is_linear then saturating_sub cliff (saturating_mul reduction_factor period)
              else exponential_reduction cliff reduction_factor period)"
| "base_fee_numerator (RateLimiter cliff fee_increment_bps max_limiter_duration max_fee_bps reference_amount)
     amount_in current_point activation_point b_to_a =
     (let in_window = current_point < saturating_add activation_point (ucast max_limiter_duration)
      in if \<not> b_to_a \<or> \<not> in_window \<or> reference_amount = 0 \<or> fee_increment_bps = 0 then cliff
         else rate_limited_numerator amount_in cliff fee_increment_bps max_fee_bps reference_amount)"

definition dynamic_fee_numerator :: "dynamic_fee \<Rightarrow> u64" where
  "dynamic_fee_numerator f =
     (if \<not> dyf_initialized f \<or> dyf_variable_fee_control f = 0 then 0
      else let scaled = saturating_mul (dyf_volatility_accumulator f) (ucast (dyf_bin_step f));
               square = saturating_mul scaled scaled;
               raw = saturating_mul square (ucast (dyf_variable_fee_control f));
               fee = saturating_add raw 99999999999 div 100000000000
           in ucast (min fee (ucast MAX_FEE_NUMERATOR)))"

section \<open>The market\<close>

definition DAMM_SWAP :: bytes where
  "DAMM_SWAP = [0xf8, 0xc6, 0x9e, 0x91, 0xe1, 0x75, 0x87, 0xc8]"

definition DAMM_POOL_AUTHORITY :: string where
  "DAMM_POOL_AUTHORITY = ''HLnpSz9h2S4hiLQ43rnSD9XkcUThA7B8hQMKmDaiTLcC''"

definition EVENT_AUTHORITY_SEED :: bytes where
  "EVENT_AUTHORITY_SEED = map of_char ''__event_authority''"

definition COLLECT_FEE_ONLY_B :: u8 where
  "COLLECT_FEE_ONLY_B = 1"

definition ACTIVATION_TYPE_SLOT :: u8 where
  "ACTIVATION_TYPE_SLOT = 0"

definition DAMM_COMPUTE_UNITS :: u32 where
  "DAMM_COMPUTE_UNITS = 180000"

definition damm_program_id :: "sdk \<Rightarrow> pubkey" where
  "damm_program_id sdk = pubkey_from_str sdk (program_id_str MeteoraDamm)"

definition damm_pool_authority :: "sdk \<Rightarrow> pubkey" where
  "damm_pool_authority sdk = pubkey_from_str sdk DAMM_POOL_AUTHORITY"

definition damm_event_authority :: "sdk \<Rightarrow> pubkey" where
  "damm_event_authority sdk = find_program_address sdk [EVENT_AUTHORITY_SEED] (damm_program_id sdk)"

record damm_market =
  dam_state :: damm_pool_state
  dam_token_program_a :: pubkey
  dam_token_program_b :: pubkey
  dam_decimals_a :: u8
  dam_decimals_b :: u8
  dam_vault_a_balance :: u64
  dam_vault_b_balance :: u64
  dam_transfer_fee_a :: "transfer_fee_schedule option"
  dam_transfer_fee_b :: "transfer_fee_schedule option"
  dam_current_point :: u64

text \<open>\<open>slot\<close> is what the node answered, if it did.\<close>

definition damm_load ::
  "sdk \<Rightarrow> u64 option \<Rightarrow> u64 \<Rightarrow> pubkey \<Rightarrow> account \<Rightarrow> account_reader \<Rightarrow> damm_market direct_swap_result" where
  "damm_load sdk slot now_unix pool pool_account reader =
     and_then (ok_or (damm_pool_state_decode pool (acc_data pool_account))
       (PoolUndecodable pool ''DAMM v2 pool state did not match the expected layout ({} bytes)''))
       (\<lambda>state.
     if das_pool_status state \<noteq> 0
     then Inl (PoolNotTradable pool ''pool_status {} is not enabled'')
     else if das_liquidity state = 0
     then Inl (InsufficientLiquidity pool 0 ''the pool holds no liquidity'')
     else
       let addresses = [das_vault_a state, das_vault_b state, das_mint_a state, das_mint_b state] in
       and_then (reader addresses) (\<lambda>accounts.
       let fetched = required addresses accounts ''account does not exist'' in
       and_then (fetched 0) (\<lambda>vault_a.
       and_then (ok_or (token_account_amount (acc_data vault_a))
         (PoolUndecodable pool ''token_a vault is not a token account'')) (\<lambda>vault_a_balance.
       and_then (fetched 1) (\<lambda>vault_b.
       and_then (ok_or (token_account_amount (acc_data vault_b))
         (PoolUndecodable pool ''token_b vault is not a token account'')) (\<lambda>vault_b_balance.
       and_then (fetched 2) (\<lambda>mint_a.
       and_then (fetched 3) (\<lambda>mint_b.
       and_then (ok_or (mint_decimals (acc_data mint_a))
         (PoolUndecodable pool ''token_a mint is not a mint account'')) (\<lambda>decimals_a.
       and_then (ok_or (mint_decimals (acc_data mint_b))
         (PoolUndecodable pool ''token_b mint is not a mint account'')) (\<lambda>decimals_b.
       let current_point =
             (if das_activation_type state = ACTIVATION_TYPE_SLOT then unwrap_or slot (- 1)
              else now_unix) in
       Inr \<lparr>dam_state = state, dam_token_program_a = acc_owner mint_a,
            dam_token_program_b = acc_owner mint_b, dam_decimals_a = decimals_a,
            dam_decimals_b = decimals_b, dam_vault_a_balance = vault_a_balance,
            dam_vault_b_balance = vault_b_balance,
            dam_transfer_fee_a = transfer_fee_schedule_of sdk mint_a,
            dam_transfer_fee_b = transfer_fee_schedule_of sdk mint_b,
            dam_current_point = current_point\<rparr>))))))))))"

definition damm_is_side_a :: "damm_market \<Rightarrow> pubkey \<Rightarrow> bool option" where
  "damm_is_side_a m mint = side_of (das_mint_a (dam_state m)) (das_mint_b (dam_state m)) mint"

definition damm_transfer_fee :: "damm_market \<Rightarrow> bool \<Rightarrow> transfer_fee_schedule option" where
  "damm_transfer_fee m side_a = (if side_a then dam_transfer_fee_a m else dam_transfer_fee_b m)"

definition damm_fee_on_input :: "damm_market \<Rightarrow> bool \<Rightarrow> bool" where
  "damm_fee_on_input m input_is_a =
     (if das_collect_fee_mode (dam_state m) = COLLECT_FEE_ONLY_B then \<not> input_is_a else False)"

definition damm_fee_numerator :: "damm_market \<Rightarrow> u64 \<Rightarrow> bool \<Rightarrow> u64" where
  "damm_fee_numerator m amount input_is_a =
     (let base = base_fee_numerator (das_base_fee (dam_state m)) amount (dam_current_point m)
            (das_activation_point (dam_state m)) (\<not> input_is_a)
      in min (saturating_add base (dynamic_fee_numerator (das_dynamic_fee (dam_state m))))
           MAX_FEE_NUMERATOR)"

definition damm_fee_on :: "damm_market \<Rightarrow> u64 \<Rightarrow> bool \<Rightarrow> u64" where
  "damm_fee_on m amount input_is_a =
     (let numerator = damm_fee_numerator m amount input_is_a in
      if numerator = 0 then 0
      else ucast (min (div_ceil (ucast amount * ucast numerator) (ucast DAMM_FEE_DENOMINATOR) :: u128)
             (ucast amount)))"

definition damm_delta_b :: "u128 \<Rightarrow> u128 \<Rightarrow> u128 \<Rightarrow> u128 option" where
  "damm_delta_b sqrt_lower sqrt_upper liquidity = do {
     delta \<leftarrow> checked_sub sqrt_upper sqrt_lower;
     half \<leftarrow> mul_div_floor liquidity delta (push_bit 64 1);
     Some (drop_bit 64 half)
   }"

definition damm_delta_a :: "u128 \<Rightarrow> u128 \<Rightarrow> u128 \<Rightarrow> u128 option" where
  "damm_delta_a sqrt_lower sqrt_upper liquidity = do {
     delta \<leftarrow> checked_sub sqrt_upper sqrt_lower;
     intermediate \<leftarrow> mul_div_floor liquidity delta sqrt_upper;
     Some (intermediate div sqrt_lower)
   }"

definition damm_step :: "damm_market \<Rightarrow> bool \<Rightarrow> u64 \<Rightarrow> (u128 \<times> u64) direct_swap_result" where
  "damm_step m a_for_b amount_in =
     (let state = dam_state m; liquidity = das_liquidity state; sqrt_price = das_sqrt_price state;
          pool = das_pool state; overflow = QuoteMath ''the DAMM v2 step overflowed 256 bits'' in
      if liquidity = 0 \<or> sqrt_price = 0
      then Inl (InsufficientLiquidity pool amount_in ''the pool holds no liquidity'')
      else
        let amount = ucast amount_in :: u128 in
        if a_for_b
        then
          and_then (ok_or (checked_mul amount sqrt_price) overflow) (\<lambda>product.
          and_then (ok_or (checked_add liquidity product) overflow) (\<lambda>denominator.
          and_then (ok_or (mul_div_ceil liquidity sqrt_price denominator) overflow) (\<lambda>sqrt_next.
          if sqrt_next < das_sqrt_min_price state
          then Inl (InsufficientLiquidity pool amount_in
                 ''the size would push the price below the pool's minimum'')
          else
            and_then (ok_or (damm_delta_b sqrt_next sqrt_price liquidity) overflow) (\<lambda>out.
            Inr (sqrt_next, cap_u64 out)))))
        else
          and_then (ok_or (mul_div_floor (push_bit 64 amount) (push_bit 64 1) liquidity) overflow) (\<lambda>delta.
          and_then (ok_or (checked_add sqrt_price delta) overflow) (\<lambda>sqrt_next.
          if das_sqrt_max_price state < sqrt_next
          then Inl (InsufficientLiquidity pool amount_in
                 ''the size would push the price above the pool's maximum'')
          else
            and_then (ok_or (damm_delta_a sqrt_price sqrt_next liquidity) overflow) (\<lambda>out.
            Inr (sqrt_next, cap_u64 out)))))"

definition damm_output_vault_balance :: "damm_market \<Rightarrow> bool \<Rightarrow> u64" where
  "damm_output_vault_balance m input_is_a =
     (if input_is_a then saturating_sub (dam_vault_b_balance m) (das_protocol_fee_b (dam_state m))
      else saturating_sub (dam_vault_a_balance m) (das_protocol_fee_a (dam_state m)))"

definition damm_token_program :: "damm_market \<Rightarrow> pubkey \<Rightarrow> pubkey option" where
  "damm_token_program m mint =
     map_option (\<lambda>side_a. if side_a then dam_token_program_a m else dam_token_program_b m)
       (damm_is_side_a m mint)"

definition damm_decimals :: "damm_market \<Rightarrow> pubkey \<Rightarrow> u8 option" where
  "damm_decimals m mint =
     map_option (\<lambda>side_a. if side_a then dam_decimals_a m else dam_decimals_b m)
       (damm_is_side_a m mint)"

definition damm_quote :: "damm_market \<Rightarrow> pubkey \<Rightarrow> u64 \<Rightarrow> venue_quote direct_swap_result" where
  "damm_quote m input_mint amount_in =
     (let pool = das_pool (dam_state m) in
      and_then (ok_or (damm_is_side_a m input_mint) (PairNotInPool pool input_mint default_pubkey))
        (\<lambda>input_is_a.
      let received_by_pool = net_of_fee (damm_transfer_fee m input_is_a) amount_in in
      if received_by_pool = 0
      then Inl (InsufficientLiquidity pool amount_in
             ''the input mint's transfer fee consumes the whole amount'')
      else
        let fee_on_input = damm_fee_on_input m input_is_a;
            (swappable, input_fee) =
              (if fee_on_input
               then let fee = damm_fee_on m received_by_pool input_is_a
                    in (saturating_sub received_by_pool fee, fee)
               else (received_by_pool, 0)) in
        if swappable = 0
        then Inl (InsufficientLiquidity pool amount_in ''fees consume the whole input at this size'')
        else
          and_then (damm_step m input_is_a swappable) (\<lambda>(sqrt_next, curve_out).
          let after_trade_fee =
                (if fee_on_input then curve_out
                 else saturating_sub curve_out (damm_fee_on m curve_out input_is_a));
              expected_out = net_of_fee (damm_transfer_fee m (\<not> input_is_a)) after_trade_fee in
          if expected_out = 0
          then Inl (InsufficientLiquidity pool amount_in ''the pool returns nothing at this size'')
          else if damm_output_vault_balance m input_is_a \<le> expected_out
          then Inl (InsufficientLiquidity pool amount_in ''the output exceeds what the pool's vault holds'')
          else
            let lp_fee =
                  (if fee_on_input then input_fee
                   else let charged = saturating_sub curve_out after_trade_fee in
                     if curve_out = 0 then 0
                     else ucast ((ucast charged * ucast swappable :: u128) div ucast curve_out))
            in Inr \<lparr>vq_amount_in = amount_in, vq_expected_out = expected_out, vq_lp_fee = lp_fee,
                 vq_price_impact_pct = sqrt_price_impact (das_sqrt_price (dam_state m)) sqrt_next\<rparr>)))"

definition damm_swap_instruction ::
  "sdk \<Rightarrow> damm_market \<Rightarrow> swap_accounts \<Rightarrow> u64 \<Rightarrow> u64 \<Rightarrow> instruction direct_swap_result" where
  "damm_swap_instruction sdk m accounts amount_in min_out =
     (let state = dam_state m in
      and_then (oriented_pair (das_pool state) (damm_is_side_a m) accounts) (\<lambda>_.
      let program = damm_program_id sdk
      in Inr \<lparr>ix_program_id = program,
           ix_accounts =
             [meta_new_readonly (damm_pool_authority sdk) False,
              meta_new (das_pool state) False,
              meta_new (sa_input_token_account accounts) False,
              meta_new (sa_output_token_account accounts) False,
              meta_new (das_vault_a state) False,
              meta_new (das_vault_b state) False,
              meta_new_readonly (das_mint_a state) False,
              meta_new_readonly (das_mint_b state) False,
              meta_new_readonly (sa_owner accounts) True,
              meta_new_readonly (dam_token_program_a m) False,
              meta_new_readonly (dam_token_program_b m) False,
              meta_new_readonly program False,
              meta_new_readonly (damm_event_authority sdk) False,
              meta_new_readonly program False],
           ix_data = DAMM_SWAP @ u64_to_le_bytes amount_in @ u64_to_le_bytes min_out\<rparr>))"

definition damm_as_market :: "sdk \<Rightarrow> damm_market \<Rightarrow> pool_market" where
  "damm_as_market sdk m =
     \<lparr>pm_program = MeteoraDamm, pm_pool = das_pool (dam_state m),
      pm_mints = (das_mint_a (dam_state m), das_mint_b (dam_state m)),
      pm_token_program = damm_token_program m, pm_decimals = damm_decimals m,
      pm_quote = damm_quote m, pm_swap_instruction = damm_swap_instruction sdk m,
      pm_compute_units = DAMM_COMPUTE_UNITS, pm_settles_native_sol = False\<rparr>"

section \<open>Decoding\<close>

lemma base_fee_decode_present: "base_fee_decode data offset = None \<Longrightarrow> length data < offset + 32"
  unfolding base_fee_decode_def by (auto simp: bind_None_iff reads_None split: if_split_asm)

lemma dynamic_fee_decode_None: "dynamic_fee_decode data offset = None \<longleftrightarrow> length data < offset + 80"
  unfolding dynamic_fee_decode_def by (auto simp: read_at)

lemma damm_pool_state_decode_None: "damm_pool_state_decode pool data = None \<longleftrightarrow> length data < 485"
proof (cases "base_fee_decode data 8")
  case None
  then have "length data < 40" using base_fee_decode_present [of data 8] by simp
  then show ?thesis using None by (simp add: damm_pool_state_decode_def)
next
  case (Some b)
  show ?thesis
  proof (cases "dynamic_fee_decode data 56")
    case None
    then have "length data < 136" by (simp add: dynamic_fee_decode_None)
    then show ?thesis using Some None by (simp add: damm_pool_state_decode_def)
  next
    case (Some d)
    then have "136 \<le> length data" using dynamic_fee_decode_None [of data 56] by simp
    then show ?thesis
      using Some \<open>base_fee_decode data 8 = Some b\<close>
      unfolding damm_pool_state_decode_def by (auto simp: read_at)
  qed
qed

section \<open>Fees: lemmas\<close>

lemma damm_fee_numerator_le: "unat (damm_fee_numerator m a d) \<le> 500000000"
  by (simp add: damm_fee_numerator_def Let_def unat_simps MAX_FEE_NUMERATOR_def)

lemma unat_damm_fee_on:
  "unat (damm_fee_on m a d) = min (ceil_nat (unat a * unat (damm_fee_numerator m a d)) 1000000000) (unat a)"
  by (auto simp: damm_fee_on_def Let_def unat_min_narrow unat_simps DAMM_FEE_DENOMINATOR_def)

lemma damm_fee_on_le: "unat (damm_fee_on m a d) \<le> unat a"
  by (simp add: unat_damm_fee_on)

text \<open>The fee is at most half of the amount, rounded up.\<close>

lemma damm_fee_at_most_half: "2 * unat (damm_fee_on m a d) \<le> unat a + 1"
proof -
  have "unat a * unat (damm_fee_numerator m a d) \<le> unat a * 500000000"
    by (intro mult_le_mono2 damm_fee_numerator_le)
  then have "ceil_nat (unat a * unat (damm_fee_numerator m a d)) 1000000000
      \<le> ceil_nat (unat a * 500000000) 1000000000" by (rule ceil_nat_mono)
  also have "\<dots> \<le> (unat a + 1) div 2" by (simp add: ceil_nat_le_iff)
  finally show ?thesis by (simp add: unat_damm_fee_on)
qed

subsection \<open>The exponential scheduler\<close>

lemma shift_product_le:
  "unat x \<le> 2 ^ 64 \<Longrightarrow> unat y < 2 ^ 64 \<Longrightarrow>
     unat (drop_bit 64 (x * y) :: u128) = unat x * unat y div 2 ^ 64"
proof -
  assume "unat x \<le> 2 ^ 64" and "unat y < 2 ^ 64"
  then have "unat x * unat y \<le> 2 ^ 64 * (2 ^ 64 - 1)" by (intro mult_le_mono) simp_all
  then have "unat (x * y) = unat x * unat y" by (simp add: unat_word_ariths(2))
  then show ?thesis by (simp add: unat_drop_bit_div)
qed

lemma shift_product_bound:
  assumes "unat y \<le> 2 ^ 64"
  shows "unat (drop_bit 64 (x * y) :: u128) \<le> unat x"
proof -
  have "unat (x * y) \<le> unat x * unat y" by (simp add: unat_word_ariths(2))
  also have "\<dots> \<le> unat x * 2 ^ 64" using assms by (rule mult_le_mono2)
  finally have "unat (x * y) div 2 ^ 64 \<le> unat x * 2 ^ 64 div 2 ^ 64" by (rule div_le_mono)
  then show ?thesis by (simp add: unat_drop_bit_div)
qed

lemma reduction_loop_le:
  "unat result \<le> 2 ^ 64 \<Longrightarrow> unat base \<le> 2 ^ 64 \<Longrightarrow> unat (reduction_loop result base exponent) \<le> unat result"
proof (induction result base exponent rule: reduction_loop.induct)
  case (1 result base exponent)
  show ?case
  proof (cases "exponent = 0")
    case True
    then show ?thesis by (subst reduction_loop.simps) simp
  next
    case False
    let ?r = "if exponent AND 1 = 1 then drop_bit 64 (result * base) else result"
    have r: "unat ?r \<le> unat result" using shift_product_bound [OF "1.prems"(2)] by simp
    have b: "unat (drop_bit 64 (base * base)) \<le> 2 ^ 64"
      using shift_product_bound [OF "1.prems"(2), of base] "1.prems"(2) by linarith
    have "unat (reduction_loop ?r (drop_bit 64 (base * base)) (drop_bit 1 exponent)) \<le> unat ?r"
      if "drop_bit 64 (base * base) \<noteq> 0"
      using that by (intro "1.IH" [OF False refl refl refl] b) (use r "1.prems"(1) in linarith)+
    then show ?thesis
      using False r by (subst reduction_loop.simps) (auto simp: Let_def intro: le_trans)
  qed
qed

lemma exponential_reduction_le: "unat (exponential_reduction cliff factor period) \<le> unat cliff"
proof (cases "BASIS_POINT_MAX \<le> factor")
  case False
  let ?one = "push_bit 64 1 :: u128"
  let ?ratio = "(?one * ucast (BASIS_POINT_MAX - factor)) div ucast BASIS_POINT_MAX"
  let ?res = "reduction_loop ?one ?ratio period"
  have one: "unat ?one = 2 ^ 64" by (rule unat_one_x64)
  have "unat (BASIS_POINT_MAX - factor) \<le> 10000"
    using False by (simp add: unat_sub word_le_nat_alt BASIS_POINT_MAX_def)
  then have "2 ^ 64 * unat (BASIS_POINT_MAX - factor) \<le> 2 ^ 64 * (10000 :: nat)" by (rule mult_le_mono2)
  then have "unat (?one * ucast (BASIS_POINT_MAX - factor)) \<le> 2 ^ 64 * 10000"
    by (simp add: unat_word_ariths(2) one unat_simps)
  then have "unat ?ratio \<le> 2 ^ 64"
    by (simp add: unat_div unat_simps BASIS_POINT_MAX_def div_le_mono [of _ "2 ^ 64 * 10000" 10000, simplified])
  then have res: "unat ?res \<le> 2 ^ 64" using reduction_loop_le [of ?one ?ratio period] one by simp
  have "unat (drop_bit 64 (ucast cliff * ?res)) \<le> unat cliff"
    using shift_product_bound [OF res, of "ucast cliff"] by (simp add: unat_simps)
  then show ?thesis using False by (simp add: exponential_reduction_def Let_def unat_cap_u64)
qed (simp add: exponential_reduction_def)

text \<open>
  What the squaring loop computes while the squared base stays above zero, which it
  does for the seven bits of an exponent below 128 when the base starts at one half or
  more.
\<close>

lemma odd_word: "exponent AND 1 = (1 :: u64) \<longleftrightarrow> unat exponent mod 2 = 1"
  by (simp add: word_unat_eq_iff unsigned_and_eq and_one_eq unat_mod)

lemma square_multiply_bound:
  fixes e out r b result base h odd :: nat
  assumes e: "e = odd + 2 * h" and out: "out * 2 ^ (64 * h) \<le> r * b ^ h"
    and r: "r * 2 ^ (64 * odd) \<le> result * base ^ odd" and b: "b * 2 ^ 64 \<le> base * base"
  shows "out * 2 ^ (64 * e) \<le> result * base ^ e"
proof -
  have "64 * e = 64 * h + (64 * h + 64 * odd)" using e by simp
  then have "out * 2 ^ (64 * e) = out * 2 ^ (64 * h) * (2 ^ (64 * h) * 2 ^ (64 * odd))"
    by (simp only: power_add mult.assoc)
  also have "\<dots> \<le> r * b ^ h * (2 ^ (64 * h) * 2 ^ (64 * odd))" using out by (rule mult_le_mono1)
  also have "\<dots> = (r * 2 ^ (64 * odd)) * (b * 2 ^ 64) ^ h"
    unfolding power_mult power_mult_distrib by (simp only: ac_simps)
  also have "\<dots> \<le> (result * base ^ odd) * (base * base) ^ h"
    by (rule mult_le_mono [OF r power_mono [OF b]]) simp
  also have "\<dots> = result * base ^ e"
    by (simp add: e power_add power_mult power2_eq_square)
  finally show ?thesis .
qed

lemma reduction_loop_power:
  assumes "unat result \<le> 2 ^ 64" and "unat base < 2 ^ 64" and "2 ^ (64 - 2 ^ j) \<le> unat base"
    and "j \<le> 6" and "unat exponent < 2 ^ (7 - j)"
  shows "unat (reduction_loop result base exponent) * 2 ^ (64 * unat exponent)
           \<le> unat result * unat base ^ unat exponent"
  using assms
proof (induction result base exponent arbitrary: j rule: reduction_loop.induct)
  case (1 result base exponent)
  show ?case
  proof (cases "exponent = 0")
    case True
    then show ?thesis by (subst reduction_loop.simps) simp
  next
    case False
    let ?h = "unat exponent div 2" and ?o = "unat exponent mod 2"
    define r where "r = (if exponent AND 1 = 1 then drop_bit 64 (result * base) else result)"
    define b where "b = drop_bit 64 (base * base)"
    have split: "unat exponent = ?o + 2 * ?h" by simp
    have rv: "unat r = unat result * unat base ^ ?o div 2 ^ (64 * ?o)"
      using shift_product_le [OF "1.prems"(1,2)] odd_word [of exponent]
      by (cases "unat exponent mod 2 = 0") (auto simp: r_def)
    then have r: "unat r * 2 ^ (64 * ?o) \<le> unat result * unat base ^ ?o" by simp
    have r64: "unat r \<le> 2 ^ 64"
      using shift_product_bound [of base result] "1.prems"(1,2) by (auto simp: r_def)
    have bv: "unat b = unat base * unat base div 2 ^ 64"
      unfolding b_def using "1.prems"(2) by (intro shift_product_le) simp_all
    then have b: "unat b * 2 ^ 64 \<le> unat base * unat base" by simp
    have b64: "unat b < 2 ^ 64"
      using shift_product_bound [of base base] "1.prems"(2) unfolding b_def by simp
    have h: "unat (drop_bit 1 exponent) = ?h" by (simp add: unat_drop_bit_div)
    have "unat (if b = 0 then r else reduction_loop r b (drop_bit 1 exponent)) * 2 ^ (64 * ?h)
        \<le> unat r * unat b ^ ?h"
    proof (cases "j = 6")
      case True
      then have "unat exponent = 1" using "1.prems"(5) False by (simp add: unat_eq_zero [symmetric])
      then have "?h = 0" "unat (drop_bit 1 exponent) = 0" using h by simp_all
      then have "reduction_loop r b (drop_bit 1 exponent) = r"
        by (subst reduction_loop.simps) (simp add: word_unat_eq_iff)
      then show ?thesis using \<open>?h = 0\<close> by simp
    next
      case False
      then have j: "Suc j \<le> 6" using "1.prems"(4) by simp
      have "(2 :: nat) ^ j \<le> 2 ^ 5" using j by (intro power_increasing) simp_all
      then have "(2 :: nat) ^ Suc j \<le> 64" by simp
      then have "(64 - 2 ^ j) + (64 - 2 ^ j) = 64 + (64 - 2 ^ Suc j :: nat)" by simp
      then have "(2 :: nat) ^ (64 - 2 ^ j) * 2 ^ (64 - 2 ^ j) = 2 ^ 64 * 2 ^ (64 - 2 ^ Suc j)"
        by (simp only: power_add [symmetric])
      then have "2 ^ 64 * 2 ^ (64 - 2 ^ Suc j) \<le> unat base * unat base"
        using mult_le_mono [OF "1.prems"(3) "1.prems"(3)] by simp
      then have lower: "2 ^ (64 - 2 ^ Suc j) \<le> unat b"
        unfolding bv by (simp add: less_eq_div_iff_mult_less_eq mult.commute)
      then have nz: "b \<noteq> 0" by auto
      have "unat exponent < 2 * 2 ^ (7 - Suc j)"
        using "1.prems"(4,5) j by (simp add: power_Suc [symmetric] Suc_diff_Suc [symmetric] del: power_Suc)
      then have "unat (drop_bit 1 exponent) < 2 ^ (7 - Suc j)" using h by linarith
      from "1.IH" [OF \<open>exponent \<noteq> 0\<close> refl refl refl _ _ _ lower [unfolded b_def] j this]
      show ?thesis using nz r64 b64 h by (simp add: r_def b_def)
    qed
    moreover have "reduction_loop result base exponent
        = (if b = 0 then r else reduction_loop r b (drop_bit 1 exponent))"
      using False by (subst reduction_loop.simps) (simp add: Let_def r_def b_def)
    ultimately have ih: "unat (reduction_loop result base exponent) * 2 ^ (64 * ?h)
        \<le> unat r * unat b ^ ?h"
      by (simp only:)
    show ?thesis by (rule square_multiply_bound [OF split ih r b])
  qed
qed

lemma exponential_reduction_power:
  assumes "1 \<le> unat factor" and "unat factor \<le> 5000" and "unat period < 128"
  shows "unat (exponential_reduction cliff factor period) * 10000 ^ unat period
           \<le> unat cliff * (10000 - unat factor) ^ unat period"
proof -
  let ?p = "unat period" and ?k = "10000 - unat factor"
  let ?one = "push_bit 64 1 :: u128"
  define ratio where "ratio = (?one * ucast (BASIS_POINT_MAX - factor)) div ucast BASIS_POINT_MAX"
  define res where "res = reduction_loop ?one ratio period"
  have lt: "\<not> BASIS_POINT_MAX \<le> factor"
    using assms(2) by (simp add: word_le_nat_alt BASIS_POINT_MAX_def)
  have k: "unat (BASIS_POINT_MAX - factor) = ?k"
    using lt by (simp add: unat_sub word_le_nat_alt BASIS_POINT_MAX_def)
  have "unat (?one * ucast (BASIS_POINT_MAX - factor)) = 2 ^ 64 * ?k mod 2 ^ LENGTH(128)"
    by (simp only: unat_word_ariths(2) unat_one_x64 unat_widen_128 k)
  then have "unat (?one * ucast (BASIS_POINT_MAX - factor)) = 2 ^ 64 * ?k" by simp
  then have rv: "unat ratio = 2 ^ 64 * ?k div 10000"
    unfolding ratio_def unat_div by (simp add: BASIS_POINT_MAX_def)
  have hi: "unat ratio < 2 ^ 64" unfolding rv using assms(1) by simp
  have lo: "2 ^ (64 - 2 ^ 0) \<le> unat ratio" unfolding rv using assms(2) by simp
  have loop: "unat res * 2 ^ (64 * ?p) \<le> 2 ^ 64 * unat ratio ^ ?p"
    unfolding res_def using reduction_loop_power [OF _ hi lo, of ?one period] assms(3)
    by (simp add: unat_one_x64)
  have res64: "unat res \<le> 2 ^ 64"
    unfolding res_def using reduction_loop_le [of ?one ratio period] hi by (simp add: unat_one_x64)
  let ?fee = "unat (exponential_reduction cliff factor period)"
  have "unat cliff * unat res \<le> unat cliff * 18446744073709551616"
    using mult_le_mono2 [OF res64, of "unat cliff"] by simp
  then have "unat cliff * unat res < 340282366920938463463374607431768211456"
    using u64_bound [of cliff] by linarith
  then have "?fee \<le> unat cliff * unat res div 2 ^ 64"
    using lt by (simp add: exponential_reduction_def Let_def unat_cap_u64 unat_drop_bit_div
        unat_word_ariths(2) unat_simps res_def ratio_def)
  then have fee: "?fee * 2 ^ 64 \<le> unat cliff * unat res"
    by (simp add: less_eq_div_iff_mult_less_eq)
  have "unat ratio * 10000 \<le> 2 ^ 64 * ?k" unfolding rv by simp
  then have ratio: "(unat ratio * 10000) ^ ?p \<le> (2 ^ 64 * ?k) ^ ?p" by (rule power_mono) simp
  have "?fee * 10000 ^ ?p * (2 ^ 64 * 2 ^ (64 * ?p))
      = (?fee * 2 ^ 64) * (2 ^ (64 * ?p) * 10000 ^ ?p)" by (simp only: ac_simps)
  also have "\<dots> \<le> (unat cliff * unat res) * (2 ^ (64 * ?p) * 10000 ^ ?p)"
    using fee by (rule mult_le_mono1)
  also have "\<dots> = unat cliff * (unat res * 2 ^ (64 * ?p)) * 10000 ^ ?p" by (simp only: ac_simps)
  also have "\<dots> \<le> unat cliff * (2 ^ 64 * unat ratio ^ ?p) * 10000 ^ ?p"
    using loop by (intro mult_le_mono1 mult_le_mono2)
  also have "\<dots> = unat cliff * 2 ^ 64 * (unat ratio * 10000) ^ ?p"
    by (simp only: power_mult_distrib ac_simps)
  also have "\<dots> \<le> unat cliff * 2 ^ 64 * (2 ^ 64 * ?k) ^ ?p" using ratio by (rule mult_le_mono2)
  also have "\<dots> = unat cliff * ?k ^ ?p * (2 ^ 64 * 2 ^ (64 * ?p))"
    by (simp only: power_mult_distrib power_mult [symmetric] ac_simps)
  finally show ?thesis by simp
qed

subsection \<open>The rate limiter\<close>

lemma u128_mult_exact: "unat a * unat b < 2 ^ 128 \<Longrightarrow> unat (a * b :: u128) = unat a * unat b"
  by (simp add: unat_word_ariths(2))

lemma u128_add_exact: "unat a + unat b < 2 ^ 128 \<Longrightarrow> unat (a + b :: u128) = unat a + unat b"
  by (simp add: unat_word_ariths(1))

text \<open>
  The total of the stepped fee for \<open>n\<close> blocks is at least the cliff on each of them,
  and small enough that no product of it leaves 128 bits.
\<close>

lemma stepped_total:
  fixes c i n :: u128
  assumes "unat c \<le> 500000000" and "unat i * unat n \<le> 500000000" and "unat n \<le> 500000000"
    and "unat i \<le> 6553500000"
  shows "unat c * (1 + unat n) \<le> unat (c + c * n + i * n * (n + 1) div 2)"
    and "unat (c + c * n + i * n * (n + 1) div 2) < 2 ^ 60"
proof -
  have cn: "unat c * unat n \<le> 500000000 * 500000000" using assms(1,3) by (rule mult_le_mono)
  have n1: "unat (n + 1) = unat n + 1" using assms(3) by (subst u128_add_exact) simp_all
  have vin: "unat (i * n) = unat i * unat n" using assms(2) by (intro u128_mult_exact) simp
  have tri: "unat i * unat n * (unat n + 1) \<le> 500000000 * 500000001"
    using assms(2,3) by (intro mult_le_mono) simp_all
  have vt: "unat (i * n * (n + 1)) = unat i * unat n * (unat n + 1)"
    using tri by (subst u128_mult_exact) (simp_all add: vin n1)
  have vd: "unat (i * n * (n + 1) div 2) = unat i * unat n * (unat n + 1) div 2"
    by (simp add: unat_div vt)
  have vcn: "unat (c * n) = unat c * unat n" using cn by (intro u128_mult_exact) simp
  have vs: "unat (c + c * n) = unat c + unat c * unat n"
    using cn assms(1) by (subst u128_add_exact) (simp_all add: vcn)
  have v: "unat (c + c * n + i * n * (n + 1) div 2)
      = unat c + unat c * unat n + unat i * unat n * (unat n + 1) div 2"
    using cn tri assms(1) by (subst u128_add_exact) (simp_all add: vs vd)
  show "unat c * (1 + unat n) \<le> unat (c + c * n + i * n * (n + 1) div 2)"
    unfolding v by (simp add: algebra_simps)
  show "unat (c + c * n + i * n * (n + 1) div 2) < 2 ^ 60"
    unfolding v using cn tri assms(1) by simp
qed

lemma priced_blocks:
  fixes x0 s r p :: u128
  assumes "unat x0 < 2 ^ 64" and "unat s < 2 ^ 60" and "unat r < 2 ^ 64" and "unat p < 2 ^ 60"
    and "unat c * k \<le> unat s" and "unat c \<le> unat p"
  shows "unat c * (unat x0 * k + unat r) \<le> unat (x0 * s + r * p)"
proof -
  have xs: "unat x0 * unat s < 2 ^ 64 * 2 ^ 60" using assms(1,2) by (intro mult_strict_mono) simp_all
  have rp: "unat r * unat p < 2 ^ 64 * 2 ^ 60" using assms(3,4) by (intro mult_strict_mono) simp_all
  have vx: "unat (x0 * s) = unat x0 * unat s" using xs by (intro u128_mult_exact) simp
  have vr: "unat (r * p) = unat r * unat p" using rp by (intro u128_mult_exact) simp
  have v: "unat (x0 * s + r * p) = unat x0 * unat s + unat r * unat p"
    using xs rp by (subst u128_add_exact) (simp_all add: vx vr)
  have "unat x0 * (unat c * k) \<le> unat x0 * unat s" using assms(5) by (rule mult_le_mono2)
  moreover have "unat r * unat c \<le> unat r * unat p" using assms(6) by (rule mult_le_mono2)
  moreover have "unat c * (unat x0 * k + unat r) = unat x0 * (unat c * k) + unat r * unat c"
    by (simp only: distrib_left ac_simps)
  ultimately show ?thesis unfolding v by linarith
qed

text \<open>
  The limiter charges at least the cliff and at most the greater of the cliff and the
  programme's maximum.
\<close>

lemma rate_limited_numerator_bounds:
  assumes "0 < unat reference_amount" and "unat cliff \<le> 500000000"
  shows "unat cliff \<le> unat (rate_limited_numerator amount_in cliff incr_bps max_bps reference_amount)
       \<and> unat (rate_limited_numerator amount_in cliff incr_bps max_bps reference_amount) \<le> 500000000"
proof -
  define ceiling where
    "ceiling = min (ucast max_bps * DAMM_FEE_DENOMINATOR div BASIS_POINT_MAX) MAX_FEE_NUMERATOR"
  define i where "i = (ucast incr_bps * ucast DAMM_FEE_DENOMINATOR) div (ucast BASIS_POINT_MAX :: u128)"
  show ?thesis
  proof (cases "amount_in \<le> reference_amount \<or> i = 0 \<or> ceiling \<le> cliff")
    case True
    then show ?thesis
      using assms(2) by (auto simp: rate_limited_numerator_def Let_def ceiling_def i_def)
  next
    case False
    define x0 where "x0 = (ucast reference_amount :: u128)"
    define c where "c = (ucast cliff :: u128)"
    define excess where "excess = ucast amount_in - x0"
    define blocks where "blocks = excess div x0"
    define r where "r = excess mod x0"
    define m where "m = (ucast ceiling - c) div i"
    define fee where "fee = (if blocks < m
        then x0 * (c + c * blocks + i * blocks * (blocks + 1) div 2) + r * (c + i * (blocks + 1))
        else x0 * (c + c * m + i * m * (m + 1) div 2) + ((blocks - m) * x0 + r) * ucast ceiling)"
    have eq: "rate_limited_numerator amount_in cliff incr_bps max_bps reference_amount
        = ucast (min (div_ceil fee (ucast amount_in)) (ucast ceiling))"
      using False by (simp add: rate_limited_numerator_def Let_def ceiling_def i_def x0_def c_def
          excess_def blocks_def r_def m_def fee_def)
    have ceil: "unat ceiling \<le> 500000000"
      by (simp add: ceiling_def unat_simps MAX_FEE_NUMERATOR_def)
    have lt: "unat cliff < unat ceiling" "unat reference_amount < unat amount_in"
      using False by (simp_all add: word_le_nat_alt not_le)
    have vc: "unat c = unat cliff" and vx: "unat x0 = unat reference_amount"
      by (simp_all add: c_def x0_def unat_simps)
    have x64: "unat x0 < 2 ^ 64" using u64_bound [of reference_amount] vx by simp
    have ipos: "0 < unat i" using False by (simp add: unat_gt_0)
    have iv: "unat i \<le> 6553500000"
      using u16_bound [of incr_bps]
      by (simp add: i_def unat_div unat_word_ariths(2) unat_simps DAMM_FEE_DENOMINATOR_def BASIS_POINT_MAX_def)
    have ve: "unat excess = unat amount_in - unat reference_amount"
      using lt(2) by (simp add: excess_def x0_def unat_sub word_le_nat_alt unat_simps)
    have be: "unat blocks * unat x0 + unat r = unat excess"
      by (simp add: blocks_def r_def unat_div unat_mod)
    have e64: "unat excess < 2 ^ 64" using ve u64_bound [of amount_in] by simp
    have rx: "unat r < 2 ^ 64" using be e64 by linarith
    have total: "unat amount_in = unat x0 * (1 + unat blocks) + unat r"
      using be ve vx lt(2) by (simp add: algebra_simps)
    have vm: "unat m = (unat ceiling - unat cliff) div unat i"
      using lt(1) by (simp add: m_def c_def unat_div unat_sub word_le_nat_alt unat_simps)
    have im: "unat i * unat m \<le> 500000000"
    proof -
      have "unat i * unat m \<le> unat ceiling - unat cliff" unfolding vm by simp
      then show ?thesis using ceil by linarith
    qed
    have m5: "unat m \<le> 500000000"
    proof -
      have "unat m \<le> unat ceiling - unat cliff" unfolding vm by simp
      then show ?thesis using ceil by linarith
    qed
    have "unat c * unat amount_in \<le> unat fee"
    proof (cases "blocks < m")
      case True
      then have b: "unat blocks + 1 \<le> unat m" by (simp add: word_less_nat_alt)
      then have "unat i * (unat blocks + 1) \<le> unat i * unat m" by (rule mult_le_mono2)
      then have ib1: "unat i * (unat blocks + 1) \<le> 500000000" using im by linarith
      then have ib: "unat i * unat blocks \<le> 500000000" by simp
      have b1: "unat (blocks + 1) = unat blocks + 1" using b m5 by (subst u128_add_exact) simp_all
      have vi: "unat (i * (blocks + 1)) = unat i * (unat blocks + 1)"
        using ib1 by (subst u128_mult_exact) (simp_all add: b1)
      have vp: "unat (c + i * (blocks + 1)) = unat c + unat i * (unat blocks + 1)"
        using ib1 assms(2) by (subst u128_add_exact) (simp_all add: vi vc)
      have b5: "unat blocks \<le> 500000000" using b m5 by linarith
      have c5: "unat c \<le> 500000000" using assms(2) vc by simp
      note st = stepped_total [OF c5 ib b5 iv]
      have "unat c * (unat x0 * (1 + unat blocks) + unat r)
          \<le> unat (x0 * (c + c * blocks + i * blocks * (blocks + 1) div 2) + r * (c + i * (blocks + 1)))"
        using x64 st(2) rx _ st(1) by (rule priced_blocks) (use vp ib1 c5 in simp_all)
      then show ?thesis using True by (simp add: fee_def total)
    next
      case False
      then have b: "unat m \<le> unat blocks" by (simp add: word_less_nat_alt)
      have c5: "unat c \<le> 500000000" using assms(2) vc by simp
      note st = stepped_total [OF c5 im m5 iv]
      have bm: "unat (blocks - m) = unat blocks - unat m" using b by (simp add: unat_sub word_le_nat_alt)
      have "(unat blocks - unat m) * unat x0 \<le> unat blocks * unat x0" by simp
      then have le: "(unat blocks - unat m) * unat x0 + unat r < 2 ^ 64" using be e64 by linarith
      have vbx: "unat ((blocks - m) * x0) = (unat blocks - unat m) * unat x0"
        using le by (subst u128_mult_exact) (simp_all add: bm)
      have vb: "unat ((blocks - m) * x0 + r) = (unat blocks - unat m) * unat x0 + unat r"
        using le by (subst u128_add_exact) (simp_all add: vbx)
      have "unat c * (unat x0 * (1 + unat m) + unat ((blocks - m) * x0 + r))
          \<le> unat (x0 * (c + c * m + i * m * (m + 1) div 2) + ((blocks - m) * x0 + r) * ucast ceiling)"
        using x64 st(2) _ _ st(1)
        by (rule priced_blocks) (use vb le ceil lt vc in \<open>simp_all add: unat_simps\<close>)
      moreover have "unat x0 * (1 + unat m) + unat ((blocks - m) * x0 + r) = unat amount_in"
        unfolding vb total using le_Suc_ex [OF b] by (auto simp: algebra_simps)
      ultimately show ?thesis using False by (simp add: fee_def)
    qed
    then have "unat c \<le> ceil_nat (unat fee) (unat amount_in)"
      using ceil_nat_ge [of "unat amount_in" "unat fee"] lt(2)
      by (meson le_trans less_le_trans mult_le_cancel2 not_le zero_le order_le_less_trans)
    moreover have "(ucast amount_in :: u128) \<noteq> 0"
      using lt(2) by (simp add: word_unat_eq_iff unat_simps)
    ultimately show ?thesis
      unfolding eq using lt(1) ceil vc by (simp add: unat_min_narrow unat_div_ceil unat_simps)
  qed
qed

section \<open>The step: lemmas\<close>

lemma damm_step_down:
  assumes "damm_step m True a = Inr (after, out)"
  shows "unat out * 2 ^ 128 \<le> unat a * unat (das_sqrt_price (dam_state m)) * unat after"
    and "das_sqrt_min_price (dam_state m) \<le> after" and "after \<le> das_sqrt_price (dam_state m)"
proof -
  let ?l = "das_liquidity (dam_state m)" and ?p = "das_sqrt_price (dam_state m)"
  obtain prod den x where prod: "checked_mul (ucast a) ?p = Some prod"
    and den: "checked_add ?l prod = Some den" and after: "mul_div_ceil ?l ?p den = Some after"
    and min: "\<not> after < das_sqrt_min_price (dam_state m)"
    and x: "damm_delta_b after ?p ?l = Some x" and out: "out = cap_u64 x"
    using assms by (auto simp: damm_step_def Let_def split: if_splits)
  obtain d h where d: "checked_sub ?p after = Some d" and h: "mul_div_floor ?l d (push_bit 64 1) = Some h"
    and xh: "x = drop_bit 64 h"
    using x by (auto simp: damm_delta_b_def bind_eq_Some_conv)
  show "das_sqrt_min_price (dam_state m) \<le> after" using min by simp
  show "after \<le> ?p" using d by (simp add: checked_sub_Some word_le_nat_alt)
  have vd: "unat d = unat ?p - unat after" "unat after \<le> unat ?p" using d by (simp_all add: checked_sub_Some)
  have vden: "unat den = unat ?l + unat a * unat ?p"
    using prod den by (simp add: checked_mul_Some checked_add_Some unat_simps)
  have "unat ?l * unat ?p \<le> unat after * (unat ?l + unat a * unat ?p)"
    using amount.ceil_times_ge [OF after] by (simp only: vden)
  then have move: "unat ?l * unat d \<le> unat a * unat ?p * unat after"
    using vd by (simp add: algebra_simps diff_mult_distrib2)
  have "unat out \<le> unat h div 2 ^ 64" unfolding out xh by (simp add: unat_cap_u64 unat_drop_bit_div)
  then have "unat out * 2 ^ 64 \<le> unat h" by (simp add: less_eq_div_iff_mult_less_eq)
  then have "unat out * 2 ^ 64 * 2 ^ 64 \<le> unat h * 2 ^ 64" by (rule mult_le_mono1)
  also have "\<dots> \<le> unat ?l * unat d" using amount.floor_times_le [OF h] by (simp only: unat_one_x64)
  also note move
  finally show "unat out * 2 ^ 128 \<le> unat a * unat ?p * unat after" by (simp add: mult.assoc)
qed

lemma damm_step_up:
  assumes "damm_step m False a = Inr (after, out)"
  shows "unat out * unat (das_sqrt_price (dam_state m)) * unat after \<le> unat a * 2 ^ 128"
    and "after \<le> das_sqrt_max_price (dam_state m)" and "das_sqrt_price (dam_state m) \<le> after"
proof -
  let ?l = "das_liquidity (dam_state m)" and ?p = "das_sqrt_price (dam_state m)"
  obtain d x where d: "mul_div_floor (push_bit 64 (ucast a)) (push_bit 64 1) ?l = Some d"
    and after: "checked_add ?p d = Some after" and max: "\<not> das_sqrt_max_price (dam_state m) < after"
    and x: "damm_delta_a ?p after ?l = Some x" and out: "out = cap_u64 x"
    using assms by (auto simp: damm_step_def Let_def split: if_splits)
  have va: "unat after = unat ?p + unat d" using after by (simp add: checked_add_Some)
  show "after \<le> das_sqrt_max_price (dam_state m)" using max by simp
  show "?p \<le> after" using va by (simp add: word_le_nat_alt)
  obtain e h where e: "checked_sub after ?p = Some e" and h: "mul_div_floor ?l e after = Some h"
    and xh: "x = h div ?p"
    using x by (auto simp: damm_delta_a_def bind_eq_Some_conv)
  have ve: "unat e = unat d" using e va by (simp add: checked_sub_Some)
  have "unat (push_bit 64 (ucast a) :: u128) = unat a * 2 ^ 64"
    using u64_bound [of a] by (simp add: unat_simps)
  then have "unat d * unat ?l \<le> unat a * 2 ^ 64 * 2 ^ 64"
    using amount.floor_times_le [OF d] by (simp only: unat_one_x64)
  then have move: "unat ?l * unat e \<le> unat a * 2 ^ 128" unfolding ve by (simp add: ac_simps)
  have "unat out \<le> unat h div unat ?p" unfolding out xh by (simp add: unat_cap_u64 unat_div)
  then have "unat out * unat ?p \<le> unat h div unat ?p * unat ?p" by (rule mult_le_mono1)
  also have "\<dots> \<le> unat h" by simp
  finally have "unat out * unat ?p * unat after \<le> unat h * unat after" by (rule mult_le_mono1)
  also have "\<dots> \<le> unat ?l * unat e" by (rule amount.floor_times_le [OF h])
  also note move
  finally show "unat out * unat ?p * unat after \<le> unat a * 2 ^ 128" .
qed

section \<open>Quotes\<close>

lemma damm_quote_ok:
  assumes "damm_quote m mint a = Inr q"
  obtains s received swappable after curve_out net where
    "damm_is_side_a m mint = Some s"
    and "received = net_of_fee (damm_transfer_fee m s) a"
    and "swappable = (if damm_fee_on_input m s then saturating_sub received (damm_fee_on m received s)
           else received)"
    and "damm_step m s swappable = Inr (after, curve_out)"
    and "net = (if damm_fee_on_input m s then curve_out
           else saturating_sub curve_out (damm_fee_on m curve_out s))"
    and "vq_expected_out q = net_of_fee (damm_transfer_fee m (\<not> s)) net"
    and "vq_lp_fee q = (if damm_fee_on_input m s then damm_fee_on m received s
           else if curve_out = 0 then 0
           else ucast ((ucast (saturating_sub curve_out net) * ucast swappable :: u128) div ucast curve_out))"
    and "0 < unat (vq_expected_out q)"
    and "unat (vq_expected_out q) < unat (damm_output_vault_balance m s)"
    and "vq_amount_in q = a"
    and "vq_price_impact_pct q = sqrt_price_impact (das_sqrt_price (dam_state m)) after"
proof -
  obtain s where s: "damm_is_side_a m mint = Some s"
    using assms by (auto simp: damm_quote_def Let_def)
  define received where "received = net_of_fee (damm_transfer_fee m s) a"
  define sw where "sw = (if damm_fee_on_input m s then saturating_sub received (damm_fee_on m received s)
      else received)"
  obtain after out where step: "damm_step m s sw = Inr (after, out)"
    using assms s unfolding damm_quote_def Let_def sw_def received_def
    by (cases "damm_fee_on_input m s") (auto split: if_splits)
  show ?thesis
    by (rule that [of s received sw after out])
      (use assms s step in \<open>auto simp: damm_quote_def Let_def sw_def received_def unat_gt_0
         word_le_nat_alt not_le split: if_splits\<close>)
qed

lemma damm_quote_fee_le: "damm_quote m mint a = Inr q \<Longrightarrow> unat (vq_lp_fee q) \<le> unat a"
proof (erule damm_quote_ok)
  fix s and received swappable :: u64 and after :: u128 and curve_out net :: u64
  assume received: "received = net_of_fee (damm_transfer_fee m s) a"
    and sw: "swappable = (if damm_fee_on_input m s then saturating_sub received (damm_fee_on m received s)
           else received)"
    and fee: "vq_lp_fee q = (if damm_fee_on_input m s then damm_fee_on m received s
           else if curve_out = 0 then 0
           else ucast ((ucast (saturating_sub curve_out net) * ucast swappable :: u128) div ucast curve_out))"
  have r: "unat received \<le> unat a" unfolding received by (rule net_of_fee_le)
  have le: "unat swappable \<le> unat received" unfolding sw by (simp add: unat_simps)
  show "unat (vq_lp_fee q) \<le> unat a"
  proof (cases "damm_fee_on_input m s \<or> curve_out = 0")
    case True
    then show ?thesis using fee r damm_fee_on_le [of m received s] by auto
  next
    case False
    then have "unat (vq_lp_fee q) \<le> unat swappable"
      using fee converted_fee_le [of "saturating_sub curve_out net" curve_out swappable]
      by (simp add: unat_simps)
    then show ?thesis using le r by linarith
  qed
qed

section \<open>The contract\<close>

lemma damm_side: "damm_is_side_a m = side_of (das_mint_a (dam_state m)) (das_mint_b (dam_state m))"
  by (rule ext) (simp add: damm_is_side_a_def)

lemmas damm_as_market_simps = damm_as_market_def holds_def damm_side

lemma damm_swap_contract:
  assumes "damm_swap_instruction sdk m accounts a mo = Inr ix"
  shows "swap_contract 8 16 (damm_as_market sdk m) accounts a mo ix"
proof -
  obtain s where s: "oriented_pair (das_pool (dam_state m)) (damm_is_side_a m) accounts = Inr s"
    using assms by (auto simp: damm_swap_instruction_def Let_def)
  have pair: "trades (damm_as_market sdk m) (sa_input_mint accounts) (sa_output_mint accounts)"
    using s unfolding damm_side by (rule oriented_pair_trades) (simp add: damm_as_market_def)
  have len: "length DAMM_SWAP = 8" by (simp add: DAMM_SWAP_def)
  show ?thesis
    unfolding swap_contract_def
    using assms s pair swap_data_read [OF len, of a mo "[]"]
    by (auto simp: damm_swap_instruction_def Let_def meta_new_def meta_new_readonly_def)
qed

interpretation damm: market "damm_as_market sdk" "\<lambda>_ _. 8" "\<lambda>_ _. 16"
proof
  fix m :: damm_market and mint a q accounts mo ix
  show "pm_token_program (damm_as_market sdk m) mint \<noteq> None \<longleftrightarrow> holds (damm_as_market sdk m) mint"
    by (simp add: damm_as_market_simps damm_token_program_def)
  show "pm_decimals (damm_as_market sdk m) mint \<noteq> None \<longleftrightarrow> holds (damm_as_market sdk m) mint"
    by (simp add: damm_as_market_simps damm_decimals_def)
  show "holds (damm_as_market sdk m) mint \<and> sane_quote a q"
    if "pm_quote (damm_as_market sdk m) mint a = Inr q"
  proof -
    have "damm_quote m mint a = Inr q" using that by (simp add: damm_as_market_def)
    then show ?thesis
      by (rule damm_quote_ok)
        (auto simp: damm_as_market_simps sane_quote_def sqrt_price_impact_range dest!: side_of_Some)
  qed
  show "swap_contract 8 16 (damm_as_market sdk m) accounts a mo ix"
    if "pm_swap_instruction (damm_as_market sdk m) accounts a mo = Inr ix"
    using that by (intro damm_swap_contract) (simp add: damm_as_market_def)
qed

section \<open>Properties\<close>

text \<open>
  The DAMM v2 fee is the capped rate of the amount, rounded up. The rate never exceeds one
  half, so at least half of every amount is traded.
\<close>

theorem damm_fee_bounded:
  "unat (damm_fee_numerator m a d) \<le> 500000000
   \<and> unat (damm_fee_on m a d) = ceil_nat (unat a * unat (damm_fee_numerator m a d)) 1000000000
   \<and> 2 * unat (damm_fee_on m a d) \<le> unat a + 1"
proof -
  have "ceil_nat (unat a * unat (damm_fee_numerator m a d)) 1000000000 \<le> unat a"
    using damm_fee_numerator_le [of m a d] by (simp add: ceil_nat_le_iff)
  then show ?thesis
    using damm_fee_numerator_le [of m a d] damm_fee_at_most_half [of m a d] by (simp add: unat_damm_fee_on)
qed

text \<open>
  A DAMM v2 step keeps the price within the pool's range, moves it in the direction of the
  trade, and pays at most the geometric mean of the prices at its ends.
\<close>

theorem damm_step_mean_price:
  assumes "damm_step m s a = Inr (after, out)"
  shows "if s
    then unat out * 2 ^ 128 \<le> unat a * unat (das_sqrt_price (dam_state m)) * unat after
      \<and> das_sqrt_min_price (dam_state m) \<le> after \<and> after \<le> das_sqrt_price (dam_state m)
    else unat out * unat (das_sqrt_price (dam_state m)) * unat after \<le> unat a * 2 ^ 128
      \<and> after \<le> das_sqrt_max_price (dam_state m) \<and> das_sqrt_price (dam_state m) \<le> after"
  using assms damm_step_down [of m a after out] damm_step_up [of m a after out] by (cases s) simp_all

definition sample_damm_state :: damm_pool_state where
  "sample_damm_state = \<lparr>das_pool = sample_key ''pool'',
     das_base_fee = Cliff 2500000,
     das_dynamic_fee = \<lparr>dyf_initialized = False, dyf_variable_fee_control = 0, dyf_bin_step = 0,
       dyf_volatility_accumulator = 0\<rparr>,
     das_collect_fee_mode = 0, das_compounding_fee_bps = 0,
     das_mint_a = sample_key ''token'', das_mint_b = sample_key SOL_MINT,
     das_vault_a = sample_key ''vault0'', das_vault_b = sample_key ''vault1'',
     das_liquidity = 2 ^ 100, das_protocol_fee_a = 0, das_protocol_fee_b = 0,
     das_sqrt_min_price = 4295048016, das_sqrt_max_price = 79226673521066979257578248091,
     das_sqrt_price = 2 ^ 64, das_activation_point = 0, das_activation_type = 0, das_pool_status = 0\<rparr>"

definition sample_damm :: damm_market where
  "sample_damm = \<lparr>dam_state = sample_damm_state, dam_token_program_a = spl_token_id sample_sdk,
     dam_token_program_b = spl_token_id sample_sdk, dam_decimals_a = 6, dam_decimals_b = 9,
     dam_vault_a_balance = 1000000000, dam_vault_b_balance = 1000000000,
     dam_transfer_fee_a = None, dam_transfer_fee_b = None, dam_current_point = 0\<rparr>"

theorem damm_step_mean_price_witness:
  "\<exists>after out. damm_step sample_damm True 1000 = Inr (after, out)
     \<and> unat out * 2 ^ 128 \<le> 1000 * 2 ^ 64 * unat after \<and> 4295048016 \<le> after"
proof -
  obtain after out where step: "damm_step sample_damm True 1000 = Inr (after, out)"
    by (simp add: damm_step_def sample_damm_def sample_damm_state_def checked_mul_def checked_add_def
        mul_div_ceil_spec mul_div_floor_spec ceil_nat_def damm_delta_b_def checked_sub_def)
  show ?thesis
    using damm_step_mean_price [OF step] step by (auto simp: sample_damm_def sample_damm_state_def)
qed

text \<open>
  The exponential fee schedule never charges more than the exact power of its decay, for
  every factor up to one half and fewer than 128 periods.
\<close>

theorem exponential_fee_below_power:
  assumes "1 \<le> unat factor" and "unat factor \<le> 5000" and "unat period < 128"
  shows "unat (exponential_reduction cliff factor period) * 10000 ^ unat period
           \<le> unat cliff * (10000 - unat factor) ^ unat period"
  by (rule exponential_reduction_power [OF assms])

theorem exponential_fee_below_power_witness:
  "unat (exponential_reduction 2500000 100 3) * 10000 ^ 3 \<le> 2500000 * 9900 ^ 3"
  using exponential_fee_below_power [of 100 3 2500000] by simp

text \<open>
  Outside that range the schedule is wrong: with a factor of zero an odd number of periods
  gives a fee of zero instead of the unreduced fee, and with a factor of one half 128 periods
  give the unreduced fee instead of almost nothing.
\<close>

theorem exponential_fee_edge_cases:
  "exponential_reduction 2500000 0 1 = 0 \<and> exponential_reduction 2500000 5000 128 = 2500000"
  by (simp add: exponential_reduction_def BASIS_POINT_MAX_def reduction_loop.simps word_unat_eq_iff unat_cap_u64
      del: unsigned_of_int)

text \<open>
  A rate-limited fee is never below the cliff rate and never above one half, whatever the
  amount and the parameters.
\<close>

theorem rate_limiter_bounded:
  assumes "0 < unat reference_amount" and "unat cliff \<le> 500000000"
  shows "unat cliff \<le> unat (rate_limited_numerator amount_in cliff incr_bps max_bps reference_amount)
       \<and> unat (rate_limited_numerator amount_in cliff incr_bps max_bps reference_amount) \<le> 500000000"
  by (rule rate_limited_numerator_bounds [OF assms])

theorem rate_limiter_bounded_witness:
  "10000000 \<le> unat (rate_limited_numerator 5000000000 10000000 10 5000 1000000000)
   \<and> unat (rate_limited_numerator 5000000000 10000000 10 5000 1000000000) \<le> 500000000"
  using rate_limiter_bounded [of 1000000000 10000000] by simp

end
