(* ===== verification/Meteora_Dbc.thy ===== *)
theory Meteora_Dbc
  imports Swap_Plan Amount_Math Token2022 Clmm_Ticks
begin

text \<open>
  The Meteora Dynamic Bonding Curve venue: the layouts of
  \<open>src/chains/solana/pools/layouts/meteora_dbc.rs\<close> and the market of
  \<open>src/chains/solana/swaps/direct/venues/meteora_dbc.rs\<close>. The curve is a list of
  segments of constant liquidity; a swap walks them from the segment that holds the
  current price. Liquidity carries the same \<open>2^64\<close> scale as the sqrt price, so the
  step formulas divide by \<open>2^128\<close>.

  The lemmas show which segment the walk starts in, that no index of it is out of
  range, that it ends, and that a step charges at least what it pays.
\<close>

section \<open>Layouts\<close>

definition VIRTUAL_POOL_DISCRIMINATOR :: bytes where
  "VIRTUAL_POOL_DISCRIMINATOR = [213, 224, 5, 209, 98, 69, 119, 92]"

definition POOL_CONFIG_DISCRIMINATOR :: bytes where
  "POOL_CONFIG_DISCRIMINATOR = [26, 108, 14, 123, 116, 230, 129, 43]"

definition MAX_CURVE_POINTS :: nat where
  "MAX_CURVE_POINTS = 20"

record virtual_pool_state =
  vps_pool :: pubkey
  vps_config :: pubkey
  vps_base_mint :: pubkey
  vps_base_vault :: pubkey
  vps_quote_vault :: pubkey
  vps_base_reserve :: u64
  vps_quote_reserve :: u64
  vps_sqrt_price :: u128
  vps_is_migrated :: bool

definition virtual_pool_decode :: "pubkey \<Rightarrow> bytes \<Rightarrow> virtual_pool_state option" where
  "virtual_pool_decode pool data =
     (if length data < 306 \<or> take 8 data \<noteq> VIRTUAL_POOL_DISCRIMINATOR then None
      else do {
        config \<leftarrow> pubkey_at data 72;
        base_mint \<leftarrow> pubkey_at data 136;
        base_vault \<leftarrow> pubkey_at data 168;
        quote_vault \<leftarrow> pubkey_at data 200;
        base_reserve \<leftarrow> u64_at data 232;
        quote_reserve \<leftarrow> u64_at data 240;
        sqrt_price \<leftarrow> u128_at data 280;
        is_migrated \<leftarrow> u8_at data 305;
        Some \<lparr>vps_pool = pool, vps_config = config, vps_base_mint = base_mint,
          vps_base_vault = base_vault, vps_quote_vault = quote_vault,
          vps_base_reserve = base_reserve, vps_quote_reserve = quote_reserve,
          vps_sqrt_price = sqrt_price, vps_is_migrated = (is_migrated \<noteq> 0)\<rparr>
      })"

record curve_point =
  cvp_sqrt_price :: u128
  cvp_liquidity :: u128

record pool_config_state =
  pcs_quote_mint :: pubkey
  pcs_cliff_fee_numerator :: u64
  pcs_second_factor :: u64
  pcs_third_factor :: u64
  pcs_first_factor :: u16
  pcs_base_fee_mode :: u8
  pcs_dynamic_fee_initialized :: bool
  pcs_collect_fee_mode :: u8
  pcs_sqrt_start_price :: u128
  pcs_curve :: "curve_point list"

text \<open>The loop of \<open>PoolConfigState::decode\<close>, which stops at the first empty checkpoint.\<close>

fun decode_curve :: "bytes \<Rightarrow> nat list \<Rightarrow> curve_point list \<Rightarrow> curve_point list option" where
  "decode_curve data [] curve = Some curve"
| "decode_curve data (i # slots) curve =
     (let offset = 408 + i * 32 in do {
        sqrt_price \<leftarrow> u128_at data offset;
        liquidity \<leftarrow> u128_at data (offset + 16);
        (if sqrt_price = 0 then Some curve
         else decode_curve data slots
           (curve @ [\<lparr>cvp_sqrt_price = sqrt_price, cvp_liquidity = liquidity\<rparr>]))
      })"

definition pool_config_decode :: "bytes \<Rightarrow> pool_config_state option" where
  "pool_config_decode data =
     (if length data < 1048 \<or> take 8 data \<noteq> POOL_CONFIG_DISCRIMINATOR then None
      else do {
        curve \<leftarrow> decode_curve data [0..<MAX_CURVE_POINTS] [];
        quote_mint \<leftarrow> pubkey_at data 8;
        cliff_fee_numerator \<leftarrow> u64_at data 104;
        second_factor \<leftarrow> u64_at data 112;
        third_factor \<leftarrow> u64_at data 120;
        first_factor \<leftarrow> u16_at data 128;
        base_fee_mode \<leftarrow> u8_at data 130;
        dynamic_fee_initialized \<leftarrow> u8_at data 136;
        collect_fee_mode \<leftarrow> u8_at data 232;
        sqrt_start_price \<leftarrow> u128_at data 392;
        Some \<lparr>pcs_quote_mint = quote_mint, pcs_cliff_fee_numerator = cliff_fee_numerator,
          pcs_second_factor = second_factor, pcs_third_factor = third_factor,
          pcs_first_factor = first_factor, pcs_base_fee_mode = base_fee_mode,
          pcs_dynamic_fee_initialized = (dynamic_fee_initialized \<noteq> 0),
          pcs_collect_fee_mode = collect_fee_mode, pcs_sqrt_start_price = sqrt_start_price,
          pcs_curve = curve\<rparr>
      })"

section \<open>The step\<close>

definition dbc_overflow :: direct_swap_error where
  "dbc_overflow = QuoteMath ''the DBC curve step overflowed 256 bits''"

definition dbc_output_for_move :: "bool \<Rightarrow> u128 \<Rightarrow> u128 \<Rightarrow> u128 \<Rightarrow> u64 direct_swap_result" where
  "dbc_output_for_move zero_for_one liquidity sqrt_from sqrt_to =
     and_then
       (if zero_for_one
        then let spread = saturating_sub sqrt_from sqrt_to in Inr (mul_shr128_floor liquidity spread)
        else
          let spread = saturating_sub sqrt_to sqrt_from in
          and_then (ok_or (mul_div_floor liquidity spread sqrt_to) dbc_overflow) (\<lambda>step1.
          Inr (step1 div max sqrt_from 1)))
       (\<lambda>out. Inr (cap_u64 out))"

definition dbc_input_for_move :: "bool \<Rightarrow> u128 \<Rightarrow> u128 \<Rightarrow> u128 \<Rightarrow> u128 direct_swap_result" where
  "dbc_input_for_move zero_for_one liquidity sqrt_from sqrt_to =
     (if zero_for_one
      then
        if sqrt_from \<le> sqrt_to then Inr 0
        else
          let spread = sqrt_from - sqrt_to in
          and_then (ok_or (mul_div_ceil liquidity spread sqrt_from) dbc_overflow) (\<lambda>step1.
          Inr (div_ceil step1 (max sqrt_to 1)))
      else
        if sqrt_to \<le> sqrt_from then Inr 0
        else let spread = sqrt_to - sqrt_from in Inr (mul_shr128_ceil liquidity spread))"

definition dbc_next_sqrt_price_from_input ::
  "bool \<Rightarrow> u128 \<Rightarrow> u128 \<Rightarrow> u128 \<Rightarrow> u128 direct_swap_result" where
  "dbc_next_sqrt_price_from_input zero_for_one liquidity sqrt_price amount_in =
     (if zero_for_one
      then
        and_then (ok_or (checked_mul amount_in sqrt_price) dbc_overflow) (\<lambda>product.
        and_then (ok_or (checked_add liquidity product) dbc_overflow) (\<lambda>denominator.
        ok_or (mul_div_ceil liquidity sqrt_price denominator) dbc_overflow))
      else
        and_then (ok_or (shl128_div_floor amount_in liquidity) dbc_overflow) (\<lambda>delta.
        ok_or (checked_add sqrt_price delta) dbc_overflow))"

text \<open>The loop of \<open>current_segment_index\<close> over \<open>i\<close>, \<open>i + 1\<close>, \<open>...\<close>.\<close>

fun segment_search :: "u128 list \<Rightarrow> u128 \<Rightarrow> nat list \<Rightarrow> nat option" where
  "segment_search boundaries price [] = None"
| "segment_search boundaries price (i # rest) =
     (if price \<le> boundaries ! (i + 1) then Some i else segment_search boundaries price rest)"

definition current_segment_index :: "u128 list \<Rightarrow> u128 \<Rightarrow> nat" where
  "current_segment_index boundaries price =
     (let segments = length boundaries - 1 in
      if segments = 0 then 0
      else unwrap_or (segment_search boundaries price [0..<segments]) (segments - 1))"

section \<open>The market\<close>

definition DBC_SWAP :: bytes where
  "DBC_SWAP = [248, 198, 158, 145, 225, 117, 135, 200]"

definition DBC_POOL_AUTHORITY :: string where
  "DBC_POOL_AUTHORITY = ''FhVo3mqL8PW5pH5U2CN4XE33DokiyZnUwuGpH2hmHLuM''"

definition DBC_EVENT_AUTHORITY_SEED :: bytes where
  "DBC_EVENT_AUTHORITY_SEED = map of_char ''__event_authority''"

definition DBC_FEE_DENOMINATOR :: u64 where
  "DBC_FEE_DENOMINATOR = 1000000000"

definition COLLECT_FEE_QUOTE_TOKEN :: u8 where
  "COLLECT_FEE_QUOTE_TOKEN = 0"

definition COLLECT_FEE_OUTPUT_TOKEN :: u8 where
  "COLLECT_FEE_OUTPUT_TOKEN = 1"

definition DBC_COMPUTE_UNITS :: u32 where
  "DBC_COMPUTE_UNITS = 130000"

definition dbc_program_id :: "sdk \<Rightarrow> pubkey" where
  "dbc_program_id sdk = pubkey_from_str sdk (program_id_str MeteoraDbc)"

definition dbc_pool_authority :: "sdk \<Rightarrow> pubkey" where
  "dbc_pool_authority sdk = pubkey_from_str sdk DBC_POOL_AUTHORITY"

definition dbc_event_authority :: "sdk \<Rightarrow> pubkey" where
  "dbc_event_authority sdk = find_program_address sdk [DBC_EVENT_AUTHORITY_SEED] (dbc_program_id sdk)"

definition scheduler_active :: "pool_config_state \<Rightarrow> bool" where
  "scheduler_active c \<longleftrightarrow>
     pcs_second_factor c \<noteq> 0 \<or> pcs_third_factor c \<noteq> 0 \<or> pcs_first_factor c \<noteq> 0"

definition dbc_boundaries :: "pool_config_state \<Rightarrow> u128 list" where
  "dbc_boundaries c = pcs_sqrt_start_price c # map cvp_sqrt_price (pcs_curve c)"

definition dbc_liquidities :: "pool_config_state \<Rightarrow> u128 list" where
  "dbc_liquidities c = map cvp_liquidity (pcs_curve c)"

record dbc_market =
  dbm_state :: virtual_pool_state
  dbm_config :: pool_config_state
  dbm_base_decimals :: u8
  dbm_quote_decimals :: u8
  dbm_base_token_program :: pubkey
  dbm_quote_token_program :: pubkey
  dbm_base_transfer_fee :: "transfer_fee_schedule option"
  dbm_quote_transfer_fee :: "transfer_fee_schedule option"
  dbm_base_vault_balance :: u64
  dbm_quote_vault_balance :: u64

definition dbc_load ::
  "sdk \<Rightarrow> pubkey \<Rightarrow> account \<Rightarrow> account_reader \<Rightarrow> dbc_market direct_swap_result" where
  "dbc_load sdk pool pool_account reader =
     and_then (ok_or (virtual_pool_decode pool (acc_data pool_account))
       (PoolUndecodable pool ''VirtualPool did not match the expected layout ({} bytes)'')) (\<lambda>state.
     if vps_is_migrated state
     then Inl (PoolNotTradable pool ''the curve has migrated; trade the post-migration pool instead'')
     else
       and_then (reader [vps_config state]) (\<lambda>config_accounts.
       and_then (ok_or (case config_accounts of account # _ \<Rightarrow> account | [] \<Rightarrow> None)
         (AccountUnavailable (vps_config state) ''account does not exist'')) (\<lambda>config_account.
       and_then (ok_or (pool_config_decode (acc_data config_account))
         (PoolUndecodable pool ''PoolConfig did not match the expected layout'')) (\<lambda>config.
       if pcs_collect_fee_mode config \<noteq> COLLECT_FEE_QUOTE_TOKEN
          \<and> pcs_collect_fee_mode config \<noteq> COLLECT_FEE_OUTPUT_TOKEN
       then Inl (PoolNotTradable pool
         ''unrecognised collect_fee_mode {} -- refusing rather than guessing which leg pays'')
       else if scheduler_active config
       then Inl (PoolNotTradable pool
         ''the base fee scheduler is active on this pool and this venue's field mapping for it is unverified against a live pool; refusing rather than guessing the decay formula'')
       else if pcs_dynamic_fee_initialized config
       then Inl (PoolNotTradable pool
         ''the volatility-based dynamic fee is active on this pool and this venue's formula for it is unverified against a live pool; refusing rather than guessing'')
       else if pcs_curve config = []
       then Inl (PoolUndecodable pool ''PoolConfig carries no curve points'')
       else
         let addresses = [vps_base_mint state, pcs_quote_mint config, vps_base_vault state,
                          vps_quote_vault state] in
         and_then (reader addresses) (\<lambda>accounts.
         let fetched = required addresses accounts ''account does not exist'' in
         and_then (fetched 0) (\<lambda>base_mint_account.
         and_then (fetched 1) (\<lambda>quote_mint_account.
         and_then (fetched 2) (\<lambda>base_vault_account.
         and_then (fetched 3) (\<lambda>quote_vault_account.
         and_then (ok_or (mint_decimals (acc_data base_mint_account))
           (PoolUndecodable pool ''base_mint is not a mint account'')) (\<lambda>base_decimals.
         and_then (ok_or (mint_decimals (acc_data quote_mint_account))
           (PoolUndecodable pool ''quote_mint is not a mint account'')) (\<lambda>quote_decimals.
         and_then (ok_or (token_account_amount (acc_data base_vault_account))
           (PoolUndecodable pool ''base_vault is not a token account'')) (\<lambda>base_vault_balance.
         and_then (ok_or (token_account_amount (acc_data quote_vault_account))
           (PoolUndecodable pool ''quote_vault is not a token account'')) (\<lambda>quote_vault_balance.
         Inr \<lparr>dbm_state = state, dbm_config = config, dbm_base_decimals = base_decimals,
              dbm_quote_decimals = quote_decimals,
              dbm_base_token_program = acc_owner base_mint_account,
              dbm_quote_token_program = acc_owner quote_mint_account,
              dbm_base_transfer_fee = transfer_fee_schedule_of sdk base_mint_account,
              dbm_quote_transfer_fee = transfer_fee_schedule_of sdk quote_mint_account,
              dbm_base_vault_balance = base_vault_balance,
              dbm_quote_vault_balance = quote_vault_balance\<rparr>)))))))))))))"

definition dbc_is_base :: "dbc_market \<Rightarrow> pubkey \<Rightarrow> bool option" where
  "dbc_is_base m mint = side_of (vps_base_mint (dbm_state m)) (pcs_quote_mint (dbm_config m)) mint"

definition dbc_fee_on_input :: "dbc_market \<Rightarrow> bool \<Rightarrow> bool" where
  "dbc_fee_on_input m input_is_base =
     (if pcs_collect_fee_mode (dbm_config m) = COLLECT_FEE_QUOTE_TOKEN then \<not> input_is_base else False)"

definition dbc_fee_on :: "dbc_market \<Rightarrow> u64 \<Rightarrow> u64" where
  "dbc_fee_on m amount =
     fee_amount amount (pcs_cliff_fee_numerator (dbm_config m)) DBC_FEE_DENOMINATOR"

text \<open>
  The \<open>while\<close> loop of \<open>walk\<close>. A sell moves one segment down per iteration and a buy one
  up, so the loop ends. An index past the end of either list is an abort.
\<close>

function dbc_walk_loop ::
  "pubkey \<Rightarrow> u64 \<Rightarrow> bool \<Rightarrow> u128 list \<Rightarrow> u128 list \<Rightarrow> nat \<Rightarrow> u128 \<Rightarrow> u128 \<Rightarrow> u128
   \<Rightarrow> (u64 \<times> u128) direct_swap_result" where
  "dbc_walk_loop pool amount_in zero_for_one boundaries liquidities idx sqrt_price remaining total_out =
     (if remaining = 0 then Inr (cap_u64 total_out, sqrt_price)
      else if length liquidities \<le> idx
      then Inl (InsufficientLiquidity pool amount_in
             ''the swap would travel past the curve segments this venue loaded'')
      else
        let liquidity = liquidities ! idx in
        if liquidity = 0
        then Inl (InsufficientLiquidity pool amount_in ''a loaded curve segment carries zero liquidity'')
        else
          let edge = (if zero_for_one then idx else idx + 1) in
          if length boundaries \<le> edge then Inl (Panic ''index out of bounds'')
          else
            let boundary = boundaries ! edge in
            and_then (dbc_input_for_move zero_for_one liquidity sqrt_price boundary) (\<lambda>input_needed.
            if remaining < input_needed
            then
              and_then (dbc_next_sqrt_price_from_input zero_for_one liquidity sqrt_price remaining)
                (\<lambda>next_price.
              and_then (dbc_output_for_move zero_for_one liquidity sqrt_price next_price) (\<lambda>out.
              Inr (cap_u64 (total_out + ucast out), next_price)))
            else
              and_then (dbc_output_for_move zero_for_one liquidity sqrt_price boundary) (\<lambda>out.
              let total_out = total_out + ucast out;
                  remaining = saturating_sub remaining input_needed in
              if zero_for_one
              then (case idx of
                  Suc k \<Rightarrow> dbc_walk_loop pool amount_in zero_for_one boundaries liquidities k
                             boundary remaining total_out
                | 0 \<Rightarrow> if 0 < remaining
                       then Inl (InsufficientLiquidity pool amount_in
                              ''the sell would push the curve below its own starting price'')
                       else Inr (cap_u64 total_out, boundary))
              else dbc_walk_loop pool amount_in zero_for_one boundaries liquidities (idx + 1)
                     boundary remaining total_out)))"
  by pat_completeness auto
termination
  by (relation "measure (\<lambda>(pool, amount_in, zero_for_one, boundaries, liquidities, idx, _).
        if zero_for_one then idx else length liquidities - idx)") auto

declare dbc_walk_loop.simps [simp del]

definition dbc_walk :: "dbc_market \<Rightarrow> bool \<Rightarrow> u64 \<Rightarrow> (u64 \<times> u128) direct_swap_result" where
  "dbc_walk m zero_for_one amount_in =
     (let boundaries = dbc_boundaries (dbm_config m);
          liquidities = dbc_liquidities (dbm_config m);
          idx = current_segment_index boundaries (vps_sqrt_price (dbm_state m))
      in dbc_walk_loop (vps_pool (dbm_state m)) amount_in zero_for_one boundaries liquidities idx
           (vps_sqrt_price (dbm_state m)) (ucast amount_in) 0)"

definition dbc_token_program :: "dbc_market \<Rightarrow> pubkey \<Rightarrow> pubkey option" where
  "dbc_token_program m mint =
     map_option (\<lambda>base. if base then dbm_base_token_program m else dbm_quote_token_program m)
       (dbc_is_base m mint)"

definition dbc_decimals :: "dbc_market \<Rightarrow> pubkey \<Rightarrow> u8 option" where
  "dbc_decimals m mint =
     map_option (\<lambda>base. if base then dbm_base_decimals m else dbm_quote_decimals m) (dbc_is_base m mint)"

definition dbc_quote :: "dbc_market \<Rightarrow> pubkey \<Rightarrow> u64 \<Rightarrow> venue_quote direct_swap_result" where
  "dbc_quote m input_mint amount_in =
     (let pool = vps_pool (dbm_state m) in
      and_then (ok_or (dbc_is_base m input_mint) (PairNotInPool pool input_mint default_pubkey))
        (\<lambda>input_is_base.
      if amount_in = 0 then Inl (InsufficientLiquidity pool amount_in ''zero input'')
      else
        let input_transfer_fee =
              (if input_is_base then dbm_base_transfer_fee m else dbm_quote_transfer_fee m);
            output_transfer_fee =
              (if input_is_base then dbm_quote_transfer_fee m else dbm_base_transfer_fee m);
            received_by_pool = net_of_fee input_transfer_fee amount_in;
            fee_on_input = dbc_fee_on_input m input_is_base;
            (curve_input, input_side_fee) =
              (if fee_on_input
               then let fee = dbc_fee_on m received_by_pool in (saturating_sub received_by_pool fee, fee)
               else (received_by_pool, 0)) in
        and_then (dbc_walk m input_is_base curve_input) (\<lambda>(curve_out, sqrt_price_next).
        let (gross_out, output_side_fee) =
              (if fee_on_input then (curve_out, 0)
               else let fee = dbc_fee_on m curve_out in (saturating_sub curve_out fee, fee));
            output_vault_balance =
              (if input_is_base then dbm_quote_vault_balance m else dbm_base_vault_balance m) in
        if output_vault_balance \<le> gross_out
        then Inl (InsufficientLiquidity pool amount_in ''the output exceeds what the pool's vault holds'')
        else
          let expected_out = net_of_fee output_transfer_fee gross_out in
          if expected_out = 0
          then Inl (InsufficientLiquidity pool amount_in ''the curve returns nothing at this size'')
          else
            let lp_fee =
                  (if fee_on_input then input_side_fee
                   else if curve_out = 0 then 0
                   else ucast ((ucast output_side_fee * ucast curve_input :: u128) div ucast curve_out))
            in Inr \<lparr>vq_amount_in = amount_in, vq_expected_out = expected_out, vq_lp_fee = lp_fee,
                 vq_price_impact_pct =
                   sqrt_price_impact (vps_sqrt_price (dbm_state m)) sqrt_price_next\<rparr>)))"

definition dbc_swap_instruction ::
  "sdk \<Rightarrow> dbc_market \<Rightarrow> swap_accounts \<Rightarrow> u64 \<Rightarrow> u64 \<Rightarrow> instruction direct_swap_result" where
  "dbc_swap_instruction sdk m accounts amount_in min_out =
     (let state = dbm_state m in
      and_then (oriented_pair (vps_pool state) (dbc_is_base m) accounts) (\<lambda>_.
      let program = dbc_program_id sdk
      in Inr \<lparr>ix_program_id = program,
           ix_accounts =
             [meta_new_readonly (dbc_pool_authority sdk) False,
              meta_new_readonly (vps_config state) False,
              meta_new (vps_pool state) False,
              meta_new (sa_input_token_account accounts) False,
              meta_new (sa_output_token_account accounts) False,
              meta_new (vps_base_vault state) False,
              meta_new (vps_quote_vault state) False,
              meta_new_readonly (vps_base_mint state) False,
              meta_new_readonly (pcs_quote_mint (dbm_config m)) False,
              meta_new_readonly (sa_owner accounts) True,
              meta_new_readonly (dbm_base_token_program m) False,
              meta_new_readonly (dbm_quote_token_program m) False,
              meta_new_readonly program False,
              meta_new_readonly (dbc_event_authority sdk) False,
              meta_new_readonly program False],
           ix_data = DBC_SWAP @ u64_to_le_bytes amount_in @ u64_to_le_bytes min_out\<rparr>))"

definition dbc_as_market :: "sdk \<Rightarrow> dbc_market \<Rightarrow> pool_market" where
  "dbc_as_market sdk m =
     \<lparr>pm_program = MeteoraDbc, pm_pool = vps_pool (dbm_state m),
      pm_mints = (vps_base_mint (dbm_state m), pcs_quote_mint (dbm_config m)),
      pm_token_program = dbc_token_program m, pm_decimals = dbc_decimals m,
      pm_quote = dbc_quote m, pm_swap_instruction = dbc_swap_instruction sdk m,
      pm_compute_units = DBC_COMPUTE_UNITS, pm_settles_native_sol = False\<rparr>"

section \<open>The segment of a price\<close>

lemma segment_search_Some:
  "segment_search b p is = Some i \<Longrightarrow>
     \<exists>pre post. is = pre @ i # post \<and> p \<le> b ! (i + 1) \<and> (\<forall>j \<in> set pre. b ! (j + 1) < p)"
proof (induction "is")
  case (Cons k rest)
  show ?case
  proof (cases "p \<le> b ! (k + 1)")
    case True
    then show ?thesis using Cons.prems by (intro exI [of _ "[]"] exI [of _ rest]) simp
  next
    case False
    then obtain pre post where "rest = pre @ i # post" "p \<le> b ! (i + 1)" "\<forall>j \<in> set pre. b ! (j + 1) < p"
      using Cons by auto
    then show ?thesis using False by (intro exI [of _ "k # pre"] exI [of _ post]) auto
  qed
qed simp

lemma segment_search_None: "segment_search b p is = None \<Longrightarrow> j \<in> set is \<Longrightarrow> b ! (j + 1) < p"
  by (induction "is") (auto split: if_splits)

text \<open>
  The index is the first segment whose upper boundary is not below the price, or the
  last segment for a price above the curve.
\<close>

lemma current_segment_index_spec:
  assumes "2 \<le> length b"
  shows "current_segment_index b p < length b - 1"
    and "j < current_segment_index b p \<Longrightarrow> b ! (j + 1) < p"
    and "p \<le> b ! (current_segment_index b p + 1)
         \<or> (current_segment_index b p = length b - 2 \<and> b ! (length b - 1) < p)"
proof -
  let ?n = "length b - 1"
  have n: "0 < ?n" using assms by simp
  have "current_segment_index b p < ?n \<and> (\<forall>j < current_segment_index b p. b ! (j + 1) < p)
      \<and> (p \<le> b ! (current_segment_index b p + 1)
         \<or> (current_segment_index b p = length b - 2 \<and> b ! (length b - 1) < p))"
  proof (cases "segment_search b p [0..<?n]")
    case (Some i)
    then have idx: "current_segment_index b p = i" using n by (simp add: current_segment_index_def Let_def)
    obtain pre post where split: "[0..<?n] = pre @ i # post" and le: "p \<le> b ! (i + 1)"
      and before: "\<forall>j \<in> set pre. b ! (j + 1) < p"
      using segment_search_Some [OF Some] by blast
    have len: "length pre < ?n" using arg_cong [OF split, of length] by simp
    then have "i = length pre" using arg_cong [OF split, of "\<lambda>xs. xs ! length pre"] by simp
    moreover have "pre = take (length pre) [0..<?n]" using split by simp
    then have "pre = [0..<length pre]" using len by (simp add: take_upt)
    then have "set pre = {..<length pre}" by (metis atLeast0LessThan set_upt)
    ultimately show ?thesis using idx le before len by auto
  next
    case None
    then have idx: "current_segment_index b p = ?n - 1" using n by (simp add: current_segment_index_def Let_def)
    have below: "b ! (j + 1) < p" if "j < ?n" for j using segment_search_None [OF None, of j] that by simp
    have "?n - 1 + 1 = length b - 1" "?n - 1 = length b - 2" using n by simp_all
    then show ?thesis using idx n below [of "?n - 1"] below by auto
  qed
  then show "current_segment_index b p < length b - 1"
    and "j < current_segment_index b p \<Longrightarrow> b ! (j + 1) < p"
    and "p \<le> b ! (current_segment_index b p + 1)
         \<or> (current_segment_index b p = length b - 2 \<and> b ! (length b - 1) < p)"
    by blast+
qed

section \<open>The walk never indexes past an end\<close>

lemma dbc_step_no_panic:
  "dbc_input_for_move z l f t \<noteq> Inl (Panic d)"
  "dbc_output_for_move z l f t \<noteq> Inl (Panic d)"
  "dbc_next_sqrt_price_from_input z l f a \<noteq> Inl (Panic d)"
  by (auto simp: dbc_input_for_move_def dbc_output_for_move_def dbc_next_sqrt_price_from_input_def
      dbc_overflow_def Let_def split: if_splits)

text \<open>The continuation of a segment that was crossed whole.\<close>

lemma dbc_walk_loop_unfold:
  assumes "rem \<noteq> 0" and "idx < length ls" and "ls ! idx \<noteq> 0" and "length bs = Suc (length ls)"
  shows "dbc_walk_loop pool a z bs ls idx s rem out =
     (let b = bs ! (if z then idx else idx + 1) in
      and_then (dbc_input_for_move z (ls ! idx) s b) (\<lambda>needed.
      if rem < needed
      then and_then (dbc_next_sqrt_price_from_input z (ls ! idx) s rem) (\<lambda>after.
           and_then (dbc_output_for_move z (ls ! idx) s after) (\<lambda>o1.
           Inr (cap_u64 (out + ucast o1), after)))
      else and_then (dbc_output_for_move z (ls ! idx) s b) (\<lambda>o1.
           if z
           then (case idx of
               Suc k \<Rightarrow> dbc_walk_loop pool a z bs ls k b (saturating_sub rem needed) (out + ucast o1)
             | 0 \<Rightarrow> if 0 < saturating_sub rem needed
                    then Inl (InsufficientLiquidity pool a
                           ''the sell would push the curve below its own starting price'')
                    else Inr (cap_u64 (out + ucast o1), b))
           else dbc_walk_loop pool a z bs ls (idx + 1) b (saturating_sub rem needed) (out + ucast o1))))"
proof (cases z)
  case True
  then show ?thesis using assms by (subst dbc_walk_loop.simps, unfold Let_def) simp
next
  case False
  then show ?thesis using assms by (subst dbc_walk_loop.simps, unfold Let_def) simp
qed

lemma dbc_walk_loop_stop:
  assumes "rem = 0 \<or> length ls \<le> idx \<or> ls ! idx = 0"
  shows "dbc_walk_loop pool a z bs ls idx s rem out \<noteq> Inl (Panic d)"
  using assms by (subst dbc_walk_loop.simps) (auto simp: Let_def)

lemma dbc_walk_loop_no_panic:
  assumes "length bs = Suc (length ls)"
  shows "dbc_walk_loop pool a z bs ls idx s rem out \<noteq> Inl (Panic d)"
proof (induction "if z then idx else length ls - idx" arbitrary: idx s rem out rule: less_induct)
  case less
  show ?case
  proof (cases "rem = 0 \<or> length ls \<le> idx \<or> ls ! idx = 0")
    case True
    then show ?thesis by (rule dbc_walk_loop_stop)
  next
    case False
    have down: "dbc_walk_loop pool a True bs ls k b r o1 \<noteq> Inl (Panic d)" if "z" "idx = Suc k" for k b r o1
      using less.hyps [of k b r o1] that by simp
    have up: "dbc_walk_loop pool a False bs ls (Suc idx) b r o1 \<noteq> Inl (Panic d)" if "\<not> z" for b r o1
    proof -
      have "length ls - Suc idx < length ls - idx" using False by linarith
      then show ?thesis using less.hyps [of "Suc idx" b r o1] that by simp
    qed
    show ?thesis
      using False down up dbc_step_no_panic
      by (subst dbc_walk_loop_unfold) (auto simp: assms Let_def split: nat.splits)
  qed
qed

section \<open>A step charges at least what it pays\<close>

lemma dbc_step_pays_at_most_mean_price:
  assumes "dbc_input_for_move z l f t = Inr i" and "dbc_output_for_move z l f t = Inr out"
    and "0 < unat t" and "if z then unat t < unat f else unat f < unat t"
  shows "if z then unat out * 2 ^ 128 \<le> unat i * unat f * unat t
         else unat out * unat f * unat t \<le> unat i * 2 ^ 128"
proof (cases z)
  case True
  have lt: "\<not> f \<le> t" using assms(4) True by (simp add: word_le_nat_alt)
  obtain x where x: "mul_div_ceil l (f - t) f = Some x" and i: "i = div_ceil x (max t 1)"
    using assms(1) True lt by (auto simp: dbc_input_for_move_def Let_def)
  have out: "unat out \<le> unat l * (unat f - unat t) div 2 ^ 128"
    using assms(2) True
    by (auto simp: dbc_output_for_move_def Let_def unat_cap_u64 mul_shr128_floor_exact unat_saturating_sub)
  have sub: "unat (f - t) = unat f - unat t" using lt by (simp add: unat_sub word_le_nat_alt)
  have one: "unat (max t 1) = unat t" using assms(3) by (simp add: unat_simps)
  then have nz: "max t 1 \<noteq> 0" using assms(3) by auto
  have "unat x \<le> unat i * unat t"
    unfolding i using assms(3) one nz by (simp add: unat_div_ceil ceil_nat_ge)
  then have "unat x * unat f \<le> unat i * unat t * unat f" by (rule mult_le_mono1)
  moreover have "unat l * (unat f - unat t) \<le> unat x * unat f"
    using amount.ceil_times_ge [OF x] by (simp only: sub)
  moreover have "unat out * 2 ^ 128 \<le> unat l * (unat f - unat t)"
    using out by (simp add: less_eq_div_iff_mult_less_eq)
  moreover have "unat i * unat t * unat f = unat i * unat f * unat t" by simp
  ultimately have "unat out * 2 ^ 128 \<le> unat i * unat f * unat t" by linarith
  then show ?thesis using True by simp
next
  case False
  have lt: "\<not> t \<le> f" using assms(4) False by (simp add: word_le_nat_alt)
  have i: "unat i = ceil_nat (unat l * (unat t - unat f)) (2 ^ 128)"
    using assms(1) False lt
    by (auto simp: dbc_input_for_move_def Let_def mul_shr128_ceil_exact unat_sub word_le_nat_alt)
  obtain x where x: "mul_div_floor l (saturating_sub t f) t = Some x"
    and out: "out = cap_u64 (x div max f 1)"
    using assms(2) False by (auto simp: dbc_output_for_move_def Let_def)
  have "unat out \<le> unat x div max (unat f) 1"
    unfolding out by (simp add: unat_cap_u64 unat_div unat_simps)
  then have "unat out * unat f \<le> unat x div max (unat f) 1 * max (unat f) 1"
    by (intro mult_le_mono) simp_all
  also have "\<dots> \<le> unat x" by simp
  finally have "unat out * unat f * unat t \<le> unat x * unat t" by simp
  also have "\<dots> \<le> unat l * (unat t - unat f)"
    using amount.floor_times_le [OF x] by (simp only: unat_saturating_sub)
  also have "\<dots> \<le> unat i * 2 ^ 128" unfolding i by (rule ceil_nat_ge) simp
  finally show ?thesis using False by simp
qed

text \<open>A partial step moves the price in its direction only.\<close>

lemma dbc_next_sqrt_price_direction:
  assumes "dbc_next_sqrt_price_from_input z l p a = Inr n"
  shows "if z then n \<le> p else p \<le> n"
proof (cases z)
  case True
  obtain prod den where den: "checked_add l prod = Some den" and n: "mul_div_ceil l p den = Some n"
    using assms True by (auto simp: dbc_next_sqrt_price_from_input_def)
  have ge: "unat l \<le> unat den" and d: "0 < unat den"
    using den n by (simp_all add: checked_add_Some amount.ceil_Some)
  have "unat n \<le> unat p"
    using n d ge by (auto simp: amount.ceil_Some ceil_nat_le_iff mult.commute)
  then show ?thesis using True by (simp add: word_le_nat_alt)
next
  case False
  then show ?thesis
    using assms by (auto simp: dbc_next_sqrt_price_from_input_def checked_add_Some word_le_nat_alt)
qed

section \<open>Quotes\<close>

definition dbc_output_vault :: "dbc_market \<Rightarrow> bool \<Rightarrow> u64" where
  "dbc_output_vault m input_is_base =
     (if input_is_base then dbm_quote_vault_balance m else dbm_base_vault_balance m)"

lemma dbc_quote_ok:
  assumes "dbc_quote m mint a = Inr q"
  obtains s curve_input curve_out after gross where
    "dbc_is_base m mint = Some s" and "a \<noteq> 0"
    and "unat curve_input \<le> unat a"
    and "dbc_walk m s curve_input = Inr (curve_out, after)"
    and "gross = (if dbc_fee_on_input m s then curve_out
           else saturating_sub curve_out (dbc_fee_on m curve_out))"
    and "unat (vq_expected_out q) \<le> unat gross"
    and "unat gross < unat (dbc_output_vault m s)"
    and "0 < unat (vq_expected_out q)"
    and "unat (vq_lp_fee q) \<le> unat a"
    and "vq_amount_in q = a"
    and "vq_price_impact_pct q = sqrt_price_impact (vps_sqrt_price (dbm_state m)) after"
proof -
  obtain s where s: "dbc_is_base m mint = Some s"
    using assms by (auto simp: dbc_quote_def Let_def)
  define received where
    "received = net_of_fee (if s then dbm_base_transfer_fee m else dbm_quote_transfer_fee m) a"
  define input where
    "input = (if dbc_fee_on_input m s then saturating_sub received (dbc_fee_on m received) else received)"
  obtain out after where walk: "dbc_walk m s input = Inr (out, after)"
    using assms s unfolding dbc_quote_def Let_def input_def received_def
    by (cases "dbc_fee_on_input m s") (auto split: if_splits)
  have r: "unat received \<le> unat a" unfolding received_def by (rule net_of_fee_le)
  have i: "unat input \<le> unat a" unfolding input_def using r by (auto simp: unat_simps)
  have fee: "unat (dbc_fee_on m x) \<le> unat x" for x unfolding dbc_fee_on_def by (rule fee_amount_le)
  have conv: "out \<noteq> 0 \<Longrightarrow>
      unat (ucast ((ucast (dbc_fee_on m out) * ucast input :: u128) div ucast out) :: u64) \<le> unat a"
    using converted_fee_le [OF fee, of out input] i by linarith
  have lp: "unat (dbc_fee_on m received) \<le> unat a" using fee [of received] r by linarith
  show ?thesis
    by (rule that [of s input out after
          "if dbc_fee_on_input m s then out else saturating_sub out (dbc_fee_on m out)"])
      (use assms s walk i conv lp net_of_fee_le in \<open>auto simp: dbc_quote_def Let_def input_def
         received_def dbc_output_vault_def unat_gt_0 word_le_nat_alt not_le split: if_splits\<close>)
qed

section \<open>The contract\<close>

lemma dbc_side: "dbc_is_base m = side_of (vps_base_mint (dbm_state m)) (pcs_quote_mint (dbm_config m))"
  by (rule ext) (simp add: dbc_is_base_def)

lemmas dbc_as_market_simps = dbc_as_market_def holds_def dbc_side

lemma dbc_swap_contract:
  assumes "dbc_swap_instruction sdk m accounts a mo = Inr ix"
  shows "swap_contract 8 16 (dbc_as_market sdk m) accounts a mo ix"
proof -
  obtain s where s: "oriented_pair (vps_pool (dbm_state m)) (dbc_is_base m) accounts = Inr s"
    using assms by (auto simp: dbc_swap_instruction_def Let_def)
  have pair: "trades (dbc_as_market sdk m) (sa_input_mint accounts) (sa_output_mint accounts)"
    using s unfolding dbc_side by (rule oriented_pair_trades) (simp add: dbc_as_market_def)
  have len: "length DBC_SWAP = 8" by (simp add: DBC_SWAP_def)
  show ?thesis
    unfolding swap_contract_def
    using assms s pair swap_data_read [OF len, of a mo "[]"]
    by (auto simp: dbc_swap_instruction_def Let_def meta_new_def meta_new_readonly_def)
qed

interpretation dbc: market "dbc_as_market sdk" "\<lambda>_ _. 8" "\<lambda>_ _. 16"
proof
  fix m :: dbc_market and mint a q accounts mo ix
  show "pm_token_program (dbc_as_market sdk m) mint \<noteq> None \<longleftrightarrow> holds (dbc_as_market sdk m) mint"
    by (simp add: dbc_as_market_simps dbc_token_program_def)
  show "pm_decimals (dbc_as_market sdk m) mint \<noteq> None \<longleftrightarrow> holds (dbc_as_market sdk m) mint"
    by (simp add: dbc_as_market_simps dbc_decimals_def)
  show "holds (dbc_as_market sdk m) mint \<and> sane_quote a q"
    if "pm_quote (dbc_as_market sdk m) mint a = Inr q"
  proof -
    have "dbc_quote m mint a = Inr q" using that by (simp add: dbc_as_market_def)
    then show ?thesis
      by (rule dbc_quote_ok)
        (auto simp: dbc_as_market_simps sane_quote_def sqrt_price_impact_range dest!: side_of_Some)
  qed
  show "swap_contract 8 16 (dbc_as_market sdk m) accounts a mo ix"
    if "pm_swap_instruction (dbc_as_market sdk m) accounts a mo = Inr ix"
    using that by (intro dbc_swap_contract) (simp add: dbc_as_market_def)
qed

section \<open>Loading\<close>

text \<open>A market that loads has a curve, a known fee mode and no fee it cannot quote.\<close>

lemma dbc_load_ok:
  assumes "dbc_load sdk pool acc reader = Inr m"
  shows "\<not> vps_is_migrated (dbm_state m)" and "pcs_curve (dbm_config m) \<noteq> []"
    and "\<not> scheduler_active (dbm_config m)" and "\<not> pcs_dynamic_fee_initialized (dbm_config m)"
    and "pcs_collect_fee_mode (dbm_config m) \<in> {COLLECT_FEE_QUOTE_TOKEN, COLLECT_FEE_OUTPUT_TOKEN}"
proof -
  have "\<not> vps_is_migrated (dbm_state m) \<and> pcs_curve (dbm_config m) \<noteq> []
    \<and> \<not> scheduler_active (dbm_config m) \<and> \<not> pcs_dynamic_fee_initialized (dbm_config m)
    \<and> (pcs_collect_fee_mode (dbm_config m) = COLLECT_FEE_QUOTE_TOKEN
       \<or> pcs_collect_fee_mode (dbm_config m) = COLLECT_FEE_OUTPUT_TOKEN)"
    using assms unfolding dbc_load_def Let_def by (auto split: if_splits)
  then show "\<not> vps_is_migrated (dbm_state m)" and "pcs_curve (dbm_config m) \<noteq> []"
    and "\<not> scheduler_active (dbm_config m)" and "\<not> pcs_dynamic_fee_initialized (dbm_config m)"
    and "pcs_collect_fee_mode (dbm_config m) \<in> {COLLECT_FEE_QUOTE_TOKEN, COLLECT_FEE_OUTPUT_TOKEN}"
    by auto
qed

section \<open>Properties\<close>



text \<open>
  The segment the walk starts in is the first one whose upper boundary is not below the
  price; a price above the whole curve starts in the last segment.
\<close>

theorem dbc_start_segment:
  assumes "2 \<le> length b"
  shows "current_segment_index b p < length b - 1
    \<and> (\<forall>j < current_segment_index b p. b ! (j + 1) < p)
    \<and> (p \<le> b ! (current_segment_index b p + 1)
       \<or> current_segment_index b p = length b - 2 \<and> b ! (length b - 1) < p)"
  using current_segment_index_spec [OF assms] by blast

theorem dbc_start_segment_witness:
  "current_segment_index [2 ^ 60, 2 ^ 64, 2 ^ 66] (2 ^ 64) < 2"
  using dbc_start_segment [of "[2 ^ 60, 2 ^ 64, 2 ^ 66]" "2 ^ 64"] by simp

end
