(* ===== verification/Meteora_Dlmm.thy ===== *)
theory Meteora_Dlmm
  imports Swap_Plan Amount_Math Token2022 Raydium_Clmm
begin

text \<open>
  The Meteora DLMM venue: the layouts of
  \<open>src/chains/solana/pools/layouts/meteora_dlmm.rs\<close> and the market of
  \<open>src/chains/solana/swaps/direct/venues/meteora_dlmm.rs\<close>. Liquidity sits in bins,
  each with one price; a swap drains bins outward from the active one.

  The lemmas show that a bin array index is the floor of the bin id, that a bin never
  pays more than it holds nor more than its price allows and never consumes more than it
  is offered, that the price of a bin is rounded to one side of
  \<open>(1 + bin_step / 10000) ^ id\<close>, and that the walk ends and pays out at most what the
  loaded bins hold.
\<close>

section \<open>Layouts\<close>

definition MAX_BIN_PER_ARRAY :: int where
  "MAX_BIN_PER_ARRAY = 70"

definition BINS_OFFSET :: nat where
  "BINS_OFFSET = 56"

definition BIN_SIZE :: nat where
  "BIN_SIZE = 144"

record variable_parameters =
  vp_volatility_accumulator :: u32
  vp_volatility_reference :: u32
  vp_index_reference :: i32
  vp_last_update_timestamp :: i64

record static_parameters =
  sp_base_factor :: u16
  sp_filter_period :: u16
  sp_decay_period :: u16
  sp_reduction_factor :: u16
  sp_variable_fee_control :: u32
  sp_max_volatility_accumulator :: u32
  sp_protocol_share :: u16
  sp_base_fee_power_factor :: u8
  sp_collect_fee_mode :: u8

record lb_pair_state =
  lbs_pool :: pubkey
  lbs_parameters :: static_parameters
  lbs_active_id :: i32
  lbs_bin_step :: u16
  lbs_status :: u8
  lbs_token_x_mint :: pubkey
  lbs_token_y_mint :: pubkey
  lbs_reserve_x :: pubkey
  lbs_reserve_y :: pubkey
  lbs_oracle :: pubkey

definition lb_pair_decode :: "pubkey \<Rightarrow> bytes \<Rightarrow> lb_pair_state option" where
  "lb_pair_decode pool data = do {
     base_factor \<leftarrow> u16_at data 8;
     filter_period \<leftarrow> u16_at data 10;
     decay_period \<leftarrow> u16_at data 12;
     reduction_factor \<leftarrow> u16_at data 14;
     variable_fee_control \<leftarrow> u32_at data 16;
     max_volatility_accumulator \<leftarrow> u32_at data 20;
     protocol_share \<leftarrow> u16_at data 32;
     base_fee_power_factor \<leftarrow> u8_at data 34;
     collect_fee_mode \<leftarrow> u8_at data 36;
     active_id \<leftarrow> i32_at data 76;
     bin_step \<leftarrow> u16_at data 80;
     status \<leftarrow> u8_at data 82;
     token_x_mint \<leftarrow> pubkey_at data 88;
     token_y_mint \<leftarrow> pubkey_at data 120;
     reserve_x \<leftarrow> pubkey_at data 152;
     reserve_y \<leftarrow> pubkey_at data 184;
     oracle \<leftarrow> pubkey_at data 552;
     Some \<lparr>lbs_pool = pool,
       lbs_parameters =
         \<lparr>sp_base_factor = base_factor, sp_filter_period = filter_period,
          sp_decay_period = decay_period, sp_reduction_factor = reduction_factor,
          sp_variable_fee_control = variable_fee_control,
          sp_max_volatility_accumulator = max_volatility_accumulator,
          sp_protocol_share = protocol_share, sp_base_fee_power_factor = base_fee_power_factor,
          sp_collect_fee_mode = collect_fee_mode\<rparr>,
       lbs_active_id = active_id, lbs_bin_step = bin_step, lbs_status = status,
       lbs_token_x_mint = token_x_mint, lbs_token_y_mint = token_y_mint,
       lbs_reserve_x = reserve_x, lbs_reserve_y = reserve_y, lbs_oracle = oracle\<rparr>
   }"

definition decode_v_parameters :: "bytes \<Rightarrow> variable_parameters option" where
  "decode_v_parameters data = do {
     volatility_accumulator \<leftarrow> u32_at data 40;
     volatility_reference \<leftarrow> u32_at data 44;
     index_reference \<leftarrow> i32_at data 48;
     last_update_timestamp \<leftarrow> i64_at data 56;
     Some \<lparr>vp_volatility_accumulator = volatility_accumulator,
       vp_volatility_reference = volatility_reference, vp_index_reference = index_reference,
       vp_last_update_timestamp = last_update_timestamp\<rparr>
   }"

record decoded_bin =
  db_id :: i32
  db_amount_x :: u64
  db_amount_y :: u64

text \<open>The loop of \<open>decode_bin_array\<close> over the slots \<open>0..70\<close>.\<close>

fun decode_bins :: "bytes \<Rightarrow> i64 \<Rightarrow> nat list \<Rightarrow> decoded_bin list \<Rightarrow> decoded_bin list option" where
  "decode_bins data array_index [] bins = Some bins"
| "decode_bins data array_index (i # slots) bins =
     (let offset = BINS_OFFSET + i * BIN_SIZE in do {
        amount_x \<leftarrow> u64_at data offset;
        amount_y \<leftarrow> u64_at data (offset + 8);
        decode_bins data array_index slots
          (bins @ [\<lparr>db_id = wrap_i32 (wrap_i32 (wrap_i64 (array_index * MAX_BIN_PER_ARRAY)) + int i),
                    db_amount_x = amount_x, db_amount_y = amount_y\<rparr>])
      })"

definition decode_bin_array :: "bytes \<Rightarrow> i64 \<Rightarrow> decoded_bin list option" where
  "decode_bin_array data array_index =
     decode_bins data array_index [0..<nat MAX_BIN_PER_ARRAY] []"

section \<open>Constants and addresses\<close>

definition DLMM_SWAP2 :: bytes where
  "DLMM_SWAP2 = [0x41, 0x4b, 0x3f, 0x4c, 0xeb, 0x5b, 0x5b, 0x88]"

definition FEE_PRECISION :: u128 where
  "FEE_PRECISION = 1000000000"

definition MAX_FEE_RATE :: u128 where
  "MAX_FEE_RATE = 100000000"

definition DLMM_BASIS_POINT_MAX :: u128 where
  "DLMM_BASIS_POINT_MAX = 10000"

definition SCALE_OFFSET :: nat where
  "SCALE_OFFSET = 64"

definition BIN_ARRAYS_PER_SWAP :: nat where
  "BIN_ARRAYS_PER_SWAP = 3"

definition DLMM_COMPUTE_UNITS :: u32 where
  "DLMM_COMPUTE_UNITS = 400000"

definition CLOCK_SYSVAR :: string where
  "CLOCK_SYSVAR = ''SysvarC1ock11111111111111111111111111111111''"

definition dlmm_program_id :: "sdk \<Rightarrow> pubkey" where
  "dlmm_program_id sdk = pubkey_from_str sdk (program_id_str MeteoraDlmm)"

definition bin_array_address :: "sdk \<Rightarrow> pubkey \<Rightarrow> pubkey \<Rightarrow> i64 \<Rightarrow> pubkey" where
  "bin_array_address sdk program pool array_index =
     find_program_address sdk [map of_char ''bin_array'', pool, i64_to_le_bytes array_index] program"

definition dlmm_bitmap_extension_address :: "sdk \<Rightarrow> pubkey \<Rightarrow> pubkey \<Rightarrow> pubkey" where
  "dlmm_bitmap_extension_address sdk program pool =
     find_program_address sdk [map of_char ''bitmap'', pool] program"

definition dlmm_event_authority_address :: "sdk \<Rightarrow> pubkey \<Rightarrow> pubkey" where
  "dlmm_event_authority_address sdk program =
     find_program_address sdk [map of_char ''__event_authority''] program"

text \<open>\<open>index -= 1\<close> wraps in 32 bits; the quotient of an \<open>i32\<close> by 70 is far from the edge.\<close>

definition bin_id_to_array_index :: "i32 \<Rightarrow> i64" where
  "bin_id_to_array_index bin_id =
     (let span = MAX_BIN_PER_ARRAY;
          index = trunc_div bin_id span
      in if bin_id < 0 \<and> trunc_mod bin_id span \<noteq> 0 then wrap_i32 (index - 1) else index)"

fun candidate_loop :: "nat \<Rightarrow> i64 \<Rightarrow> i64 \<Rightarrow> i64 list \<Rightarrow> i64 list" where
  "candidate_loop 0 step index indices = indices"
| "candidate_loop (Suc n) step index indices =
     (if in_i64 (index + step) then candidate_loop n step (index + step) (indices @ [index])
      else indices @ [index])"

definition candidate_array_indices :: "i64 \<Rightarrow> bool \<Rightarrow> i64 list" where
  "candidate_array_indices active_array_index swap_for_y =
     candidate_loop BIN_ARRAYS_PER_SWAP (if swap_for_y then -1 else 1) active_array_index []"

definition mint_has_transfer_hook :: "sdk \<Rightarrow> account \<Rightarrow> bool" where
  "mint_has_transfer_hook sdk mint_account \<longleftrightarrow>
     acc_owner mint_account = spl_token_2022_id sdk \<and> mint_transfer_hook sdk (acc_data mint_account)"

section \<open>Prices\<close>

definition MAX_EXPONENTIAL :: u32 where
  "MAX_EXPONENTIAL = 0x80000"

text \<open>The measure of the squaring loop: its mask doubles until it passes the maximum.\<close>

definition mask_rank :: "u32 \<Rightarrow> nat" where
  "mask_rank b = (if MAX_EXPONENTIAL < b then unat MAX_EXPONENTIAL + 2
                  else unat MAX_EXPONENTIAL + 1 - unat b)"

lemma mask_rank_less:
  assumes "b \<noteq> 0" and "b * 2 \<noteq> 0" and "\<not> MAX_EXPONENTIAL < b * 2"
  shows "mask_rank (b * 2) < mask_rank b"
proof (cases "MAX_EXPONENTIAL < b")
  case True
  then show ?thesis using assms(3) by (simp add: mask_rank_def)
next
  case False
  then have "unat b \<le> 524288" by (simp add: MAX_EXPONENTIAL_def word_le_nat_alt not_less)
  then have "unat (b * 2) = 2 * unat b" by (simp add: unat_word_ariths)
  moreover have "0 < unat b" using assms(1) by (simp add: unat_gt_0)
  moreover have "unat (b * 2) \<le> unat MAX_EXPONENTIAL" using assms(3) by (simp add: not_less word_le_nat_alt)
  ultimately show ?thesis using False assms(3) by (simp add: mask_rank_def)
qed

text \<open>The squaring loop of \<open>pow_q64\<close>; \<open>bit_mask\<close> is the source's \<open>bit\<close>.\<close>

function pow_q64_loop :: "u32 \<Rightarrow> u32 \<Rightarrow> u32 \<Rightarrow> u128 \<Rightarrow> u128 \<Rightarrow> u128 option" where
  "pow_q64_loop expo remaining bit_mask squared_base result =
     (if \<not> (0 < remaining \<and> bit_mask \<noteq> 0) then Some result
      else do {
        result \<leftarrow> (if 0 < expo AND bit_mask
                   then map_option (drop_bit SCALE_OFFSET) (checked_mul result squared_base)
                   else Some result);
        squared_base \<leftarrow> map_option (drop_bit SCALE_OFFSET) (checked_mul squared_base squared_base);
        (let remaining = remaining AND NOT bit_mask;
             bit_mask' = push_bit 1 bit_mask
         in if bit_mask' = 0 \<or> MAX_EXPONENTIAL < bit_mask' then Some result
            else pow_q64_loop expo remaining bit_mask' squared_base result)
      })"
  by pat_completeness auto
termination
  by (relation "measure (\<lambda>(_, _, b, _, _). mask_rank b)") (auto intro: mask_rank_less)

declare pow_q64_loop.simps [simp del]

definition pow_q64 :: "u128 \<Rightarrow> i32 \<Rightarrow> u128 option" where
  "pow_q64 base expo =
     (let one = push_bit SCALE_OFFSET 1 :: u128 in
      if expo = 0 then Some one
      else
        let invert = (expo < 0);
            expo' = word_of_int \<bar>expo\<bar> :: u32 in
        if MAX_EXPONENTIAL \<le> expo' then None
        else do {
          (squared_base, invert) \<leftarrow>
            (if one \<le> base then map_option (\<lambda>inverse. (inverse, \<not> invert)) (checked_div (- 1) base)
             else Some (base, invert));
          result \<leftarrow> pow_q64_loop expo' expo' 1 squared_base one;
          (if result = 0 then None
           else if invert then Some ((- 1) div result)
           else Some result)
        })"

definition get_price_from_id :: "i32 \<Rightarrow> u16 \<Rightarrow> u128 option" where
  "get_price_from_id bin_id bin_step =
     (let one = push_bit SCALE_OFFSET 1 :: u128;
          bps = push_bit SCALE_OFFSET (ucast bin_step) div DLMM_BASIS_POINT_MAX
      in do {
        base \<leftarrow> checked_add one bps;
        pow_q64 base bin_id
      })"

datatype rounding = RoundUp | RoundDown

definition get_amount_out :: "u64 \<Rightarrow> u128 \<Rightarrow> bool \<Rightarrow> rounding \<Rightarrow> u64 option" where
  "get_amount_out amount_in price swap_for_y rounding =
     (let denominator = push_bit SCALE_OFFSET 1 :: u128 in do {
        raw \<leftarrow> (if swap_for_y
                then (case rounding of
                    RoundUp \<Rightarrow> mul_div_ceil price (ucast amount_in) denominator
                  | RoundDown \<Rightarrow> mul_div_floor price (ucast amount_in) denominator)
                else (case rounding of
                    RoundUp \<Rightarrow> mul_div_ceil (ucast amount_in) denominator price
                  | RoundDown \<Rightarrow> mul_div_floor (ucast amount_in) denominator price));
        try_into_u64 raw
      })"

definition get_amount_in :: "u64 \<Rightarrow> u128 \<Rightarrow> bool \<Rightarrow> rounding \<Rightarrow> u64 option" where
  "get_amount_in amount_out price swap_for_y rounding =
     (let denominator = push_bit SCALE_OFFSET 1 :: u128 in do {
        raw \<leftarrow> (if swap_for_y
                then (case rounding of
                    RoundUp \<Rightarrow> mul_div_ceil (ucast amount_out) denominator price
                  | RoundDown \<Rightarrow> mul_div_floor (ucast amount_out) denominator price)
                else (case rounding of
                    RoundUp \<Rightarrow> mul_div_ceil (ucast amount_out) price denominator
                  | RoundDown \<Rightarrow> mul_div_floor (ucast amount_out) price denominator));
        try_into_u64 raw
      })"

section \<open>The market\<close>

definition saturating_sub_i64 :: "i64 \<Rightarrow> i64 \<Rightarrow> i64" where
  "saturating_sub_i64 a b = max (- (2 ^ 63)) (min (2 ^ 63 - 1) (a - b))"

definition update_references ::
  "variable_parameters \<Rightarrow> i64 \<Rightarrow> i32 \<Rightarrow> static_parameters \<Rightarrow> variable_parameters" where
  "update_references v now active_id s_params =
     (let elapsed = saturating_sub_i64 now (vp_last_update_timestamp v) in
      if int (unat (sp_filter_period s_params)) \<le> elapsed
      then v\<lparr>vp_index_reference := active_id,
             vp_volatility_reference :=
               (if elapsed < int (unat (sp_decay_period s_params))
                then ucast ((ucast (vp_volatility_accumulator v) * ucast (sp_reduction_factor s_params) :: u64)
                            div ucast DLMM_BASIS_POINT_MAX)
                else 0)\<rparr>
      else v)"

record dlmm_market =
  dlm_state :: lb_pair_state
  dlm_v_params :: variable_parameters
  dlm_token_program_x :: pubkey
  dlm_token_program_y :: pubkey
  dlm_decimals_x :: u8
  dlm_decimals_y :: u8
  dlm_reserve_x_balance :: u64
  dlm_reserve_y_balance :: u64
  dlm_transfer_fee_x :: "transfer_fee_schedule option"
  dlm_transfer_fee_y :: "transfer_fee_schedule option"
  dlm_bins :: "decoded_bin list"
  dlm_available_array_indices :: "i64 list"
  dlm_has_bitmap_extension :: bool

text \<open>The loops of \<open>load\<close> that gather the candidate arrays, without duplicates.\<close>

fun push_new_indices :: "i64 list \<Rightarrow> i64 list \<Rightarrow> i64 list" where
  "push_new_indices [] indices = indices"
| "push_new_indices (index # rest) indices =
     push_new_indices rest (if index \<notin> set indices then indices @ [index] else indices)"

text \<open>The loop of \<open>load\<close> over the bin arrays that the batch returned.\<close>

fun collect_bins ::
  "pubkey \<Rightarrow> account option list \<Rightarrow> nat \<Rightarrow> i64 list \<Rightarrow> decoded_bin list \<Rightarrow> i64 list
   \<Rightarrow> (decoded_bin list \<times> i64 list) direct_swap_result" where
  "collect_bins pool accounts position [] bins available = Inr (bins, available)"
| "collect_bins pool accounts position (index # rest) bins available =
     (if position < length accounts then
        case accounts ! position of
          Some account \<Rightarrow>
            (case decode_bin_array (acc_data account) index of
               Some decoded \<Rightarrow>
                 collect_bins pool accounts (Suc position) rest (bins @ decoded) (available @ [index])
             | None \<Rightarrow> Inl (PoolUndecodable pool ''bin array {} did not match the expected layout''))
        | None \<Rightarrow> collect_bins pool accounts (Suc position) rest bins available
      else collect_bins pool accounts (Suc position) rest bins available)"

definition dlmm_load ::
  "sdk \<Rightarrow> pubkey \<Rightarrow> account \<Rightarrow> account_reader \<Rightarrow> dlmm_market direct_swap_result" where
  "dlmm_load sdk pool pool_account reader =
     and_then (ok_or (lb_pair_decode pool (acc_data pool_account))
       (PoolUndecodable pool ''LbPair state did not match the expected layout ({} bytes)'')) (\<lambda>state.
     if lbs_status state \<noteq> 0
     then Inl (PoolNotTradable pool ''the pair's status byte is not Enabled'')
     else
       let program = dlmm_program_id sdk;
           active_array_index = bin_id_to_array_index (lbs_active_id state);
           array_indices =
             push_new_indices (candidate_array_indices active_array_index True
               @ candidate_array_indices active_array_index False) [];
           array_addresses = map (bin_array_address sdk program pool) array_indices;
           fixed_addresses = [lbs_reserve_x state, lbs_reserve_y state, lbs_token_x_mint state,
             lbs_token_y_mint state, pubkey_from_str sdk CLOCK_SYSVAR,
             dlmm_bitmap_extension_address sdk program pool];
           addresses = fixed_addresses @ array_addresses in
       and_then (reader addresses) (\<lambda>accounts.
       let fetched = required addresses accounts ''account does not exist'' in
       and_then (fetched 0) (\<lambda>reserve_x_account.
       and_then (ok_or (token_account_amount (acc_data reserve_x_account))
         (PoolUndecodable pool ''reserve_x is not a token account'')) (\<lambda>reserve_x_balance.
       and_then (fetched 1) (\<lambda>reserve_y_account.
       and_then (ok_or (token_account_amount (acc_data reserve_y_account))
         (PoolUndecodable pool ''reserve_y is not a token account'')) (\<lambda>reserve_y_balance.
       and_then (fetched 2) (\<lambda>mint_x_account.
       and_then (fetched 3) (\<lambda>mint_y_account.
       and_then (ok_or (mint_decimals (acc_data mint_x_account))
         (PoolUndecodable pool ''token_x_mint is not a mint account'')) (\<lambda>decimals_x.
       and_then (ok_or (mint_decimals (acc_data mint_y_account))
         (PoolUndecodable pool ''token_y_mint is not a mint account'')) (\<lambda>decimals_y.
       if mint_has_transfer_hook sdk mint_x_account \<or> mint_has_transfer_hook sdk mint_y_account
       then Inl (PoolNotTradable pool
         ''one of this pool's mints carries a Token-2022 transfer hook, which this venue does not build accounts for'')
       else
         and_then (fetched 4) (\<lambda>clock_account.
         and_then (ok_or (i64_at (acc_data clock_account) 32)
           (PoolUndecodable pool ''the clock sysvar did not match the expected layout'')) (\<lambda>now.
         and_then (ok_or (decode_v_parameters (acc_data pool_account))
           (PoolUndecodable pool ''v_parameters did not match the expected layout'')) (\<lambda>raw_v_params.
         and_then (collect_bins pool accounts (length fixed_addresses) array_indices [] [])
           (\<lambda>(bins, available_array_indices).
         if available_array_indices = []
         then Inl (PoolNotTradable pool ''not one bin array around the active bin exists on chain'')
         else Inr \<lparr>dlm_state = state,
              dlm_v_params =
                update_references raw_v_params now (lbs_active_id state) (lbs_parameters state),
              dlm_token_program_x = acc_owner mint_x_account,
              dlm_token_program_y = acc_owner mint_y_account,
              dlm_decimals_x = decimals_x, dlm_decimals_y = decimals_y,
              dlm_reserve_x_balance = reserve_x_balance, dlm_reserve_y_balance = reserve_y_balance,
              dlm_transfer_fee_x = transfer_fee_schedule_of sdk mint_x_account,
              dlm_transfer_fee_y = transfer_fee_schedule_of sdk mint_y_account,
              dlm_bins = dedup_by_key db_id (sort_key db_id bins),
              dlm_available_array_indices = available_array_indices,
              dlm_has_bitmap_extension = (5 < length accounts \<and> accounts ! 5 \<noteq> None)\<rparr>))))))))))))))"

definition dlmm_is_side_x :: "dlmm_market \<Rightarrow> pubkey \<Rightarrow> bool option" where
  "dlmm_is_side_x m mint = side_of (lbs_token_x_mint (dlm_state m)) (lbs_token_y_mint (dlm_state m)) mint"

definition dlmm_transfer_fee :: "dlmm_market \<Rightarrow> bool \<Rightarrow> transfer_fee_schedule option" where
  "dlmm_transfer_fee m side_x = (if side_x then dlm_transfer_fee_x m else dlm_transfer_fee_y m)"

definition dlmm_fee_on_input :: "dlmm_market \<Rightarrow> bool \<Rightarrow> bool" where
  "dlmm_fee_on_input m swap_for_y =
     (if sp_collect_fee_mode (lbs_parameters (dlm_state m)) = 1 then \<not> swap_for_y else True)"

definition total_fee_rate :: "dlmm_market \<Rightarrow> u32 \<Rightarrow> u128" where
  "total_fee_rate m volatility_accumulator =
     (let p = lbs_parameters (dlm_state m);
          bin_step = ucast (lbs_bin_step (dlm_state m)) :: u128;
          base_fee = ucast (sp_base_factor p) * bin_step * 10 * 10 ^ unat (sp_base_fee_power_factor p);
          variable_fee =
            (if 0 < sp_variable_fee_control p
             then let product = ucast volatility_accumulator * bin_step;
                      square = saturating_mul product product;
                      v_fee = saturating_mul (ucast (sp_variable_fee_control p)) square
                  in (v_fee + 99999999999) div 100000000000
             else 0)
      in min (base_fee + variable_fee) MAX_FEE_RATE)"

definition fee_from_amount :: "u128 \<Rightarrow> u64 \<Rightarrow> u64 option" where
  "fee_from_amount rate amount_with_fee = do {
     fee \<leftarrow> mul_div_ceil (ucast amount_with_fee) rate FEE_PRECISION;
     try_into_u64 fee
   }"

definition fee_from_excluded_amount :: "u128 \<Rightarrow> u64 \<Rightarrow> u64 option" where
  "fee_from_excluded_amount rate amount_excluding_fee = do {
     denominator \<leftarrow> checked_sub FEE_PRECISION rate;
     (if denominator = 0 then None
      else do {
        fee \<leftarrow> mul_div_ceil (ucast amount_excluding_fee) rate denominator;
        try_into_u64 fee
      })
   }"

definition dlmm_overflow :: direct_swap_error where
  "dlmm_overflow = QuoteMath ''DLMM bin/fee arithmetic overflowed''"

definition bin_out_cap :: "decoded_bin \<Rightarrow> bool \<Rightarrow> u64" where
  "bin_out_cap b swap_for_y = (if swap_for_y then db_amount_y b else db_amount_x b)"

text \<open>
  The fill in the middle of \<open>quote_bin\<close>: what the bin takes of the input, what it leaves,
  and what it pays.
\<close>

definition fill_bin :: "u64 \<Rightarrow> u128 \<Rightarrow> bool \<Rightarrow> u64 \<Rightarrow> (u64 \<times> u64 \<times> u64) direct_swap_result" where
  "fill_bin mm_amount_out_cap price swap_for_y excluded_fee_amount_in =
     (if mm_amount_out_cap = 0 then Inr (0, excluded_fee_amount_in, 0)
      else
        and_then (ok_or (get_amount_in mm_amount_out_cap price swap_for_y RoundUp) dlmm_overflow)
          (\<lambda>max_amount_in.
        if max_amount_in \<le> excluded_fee_amount_in
        then Inr (max_amount_in, saturating_sub excluded_fee_amount_in max_amount_in,
               mm_amount_out_cap)
        else and_then (ok_or (get_amount_out excluded_fee_amount_in price swap_for_y RoundDown)
               dlmm_overflow) (\<lambda>out.
             Inr (excluded_fee_amount_in, 0, out))))"

definition quote_bin ::
  "decoded_bin \<Rightarrow> u128 \<Rightarrow> u64 \<Rightarrow> bool \<Rightarrow> bool \<Rightarrow> u128 \<Rightarrow> (u64 \<times> u64 \<times> u64) direct_swap_result" where
  "quote_bin b price amount_in swap_for_y fee_on_input rate =
     (let mm_amount_out_cap = bin_out_cap b swap_for_y in
      and_then
        (if fee_on_input
         then and_then (ok_or (fee_from_amount rate amount_in) dlmm_overflow) (\<lambda>fee.
              Inr (fee, saturating_sub amount_in fee))
         else Inr (0, amount_in))
        (\<lambda>(trading_fee, excluded_fee_amount_in).
      and_then (fill_bin mm_amount_out_cap price swap_for_y excluded_fee_amount_in)
        (\<lambda>(amount_in_mm, amount_left, out_amount).
      and_then
        (if 0 < amount_left
         then if fee_on_input
              then and_then (ok_or (fee_from_excluded_amount rate amount_in_mm) dlmm_overflow) (\<lambda>fee.
                   Inr (fee, saturating_add amount_in_mm fee))
              else Inr (trading_fee, amount_in_mm)
         else Inr (trading_fee, amount_in))
        (\<lambda>(trading_fee, included_fee_amount_in).
      if \<not> fee_on_input
      then and_then (ok_or (fee_from_amount rate out_amount) dlmm_overflow) (\<lambda>fee.
           Inr (included_fee_amount_in, saturating_sub out_amount fee, fee))
      else Inr (included_fee_amount_in, out_amount, trading_fee)))))"

text \<open>The volatility accumulator of a bin, from the references of the swap.\<close>

definition bin_volatility :: "dlmm_market \<Rightarrow> i32 \<Rightarrow> u32" where
  "bin_volatility m active_id =
     (let delta = word_of_int \<bar>vp_index_reference (dlm_v_params m) - active_id\<bar> :: u64
      in ucast (min (saturating_add (ucast (vp_volatility_reference (dlm_v_params m)))
                       (saturating_mul delta (ucast DLMM_BASIS_POINT_MAX)))
                    (ucast (sp_max_volatility_accumulator (lbs_parameters (dlm_state m))))))"

text \<open>One iteration of \<open>walk\<close>, up to the move to the next bin.\<close>

definition walk_bin ::
  "dlmm_market \<Rightarrow> bool \<Rightarrow> bool \<Rightarrow> i32 \<Rightarrow> decoded_bin \<Rightarrow> u64 \<Rightarrow> u64 \<Rightarrow> u64
   \<Rightarrow> (u64 \<times> u64 \<times> u64) direct_swap_result" where
  "walk_bin m swap_for_y fee_on_input active_id b amount_left total_out total_fee =
     (if 0 < bin_out_cap b swap_for_y
      then
        let rate = total_fee_rate m (bin_volatility m active_id) in
        and_then (ok_or (get_price_from_id active_id (lbs_bin_step (dlm_state m))) dlmm_overflow)
          (\<lambda>price.
        and_then (quote_bin b price amount_left swap_for_y fee_on_input rate)
          (\<lambda>(consumed, out, fee).
        if 0 < consumed
        then Inr (saturating_sub amount_left consumed, saturating_add total_out out,
               saturating_add total_fee fee)
        else Inr (amount_left, total_out, total_fee)))
      else Inr (amount_left, total_out, total_fee))"

text \<open>The measure of the walk: the loaded bins from the active one on.\<close>

definition bins_ahead :: "dlmm_market \<Rightarrow> bool \<Rightarrow> i32 \<Rightarrow> nat" where
  "bins_ahead m swap_for_y i =
     length (filter (\<lambda>b. if swap_for_y then db_id b \<le> i else i \<le> db_id b) (dlm_bins m))"

lemma bins_ahead_less:
  assumes "find (\<lambda>b. db_id b = i) (dlm_bins m) = Some b"
  shows "bins_ahead m swap_for_y (if swap_for_y then i - 1 else i + 1) < bins_ahead m swap_for_y i"
proof -
  let ?ahead = "\<lambda>i b. if swap_for_y then db_id b \<le> i else i \<le> db_id b"
  define n where "n = (if swap_for_y then i - 1 else i + 1)"
  have b: "b \<in> set (dlm_bins m)" "db_id b = i" using assms by (auto simp: find_Some_iff)
  have "filter (?ahead n) (dlm_bins m) = filter (?ahead n) (filter (?ahead i) (dlm_bins m))"
    unfolding filter_filter n_def by (rule filter_cong) auto
  moreover have "b \<in> set (filter (?ahead i) (dlm_bins m))" and "\<not> ?ahead n b"
    using b by (auto simp: n_def)
  then have "length (filter (?ahead n) (filter (?ahead i) (dlm_bins m)))
      < length (filter (?ahead i) (dlm_bins m))"
    by (rule length_filter_less)
  ultimately show ?thesis unfolding bins_ahead_def n_def by (simp only:)
qed

lemmas bins_ahead_steps = bins_ahead_less [of _ _ _ True, simplified] bins_ahead_less [of _ _ _ False, simplified]

text \<open>
  The loop of \<open>walk\<close>. An iteration that leaves something to place moves on to the
  neighbouring bin, and a bin that was not loaded ends the walk, so the loaded bins ahead
  bound the number of iterations.
\<close>

function dlmm_walk_loop ::
  "dlmm_market \<Rightarrow> bool \<Rightarrow> bool \<Rightarrow> u64 \<Rightarrow> i32 \<Rightarrow> u64 \<Rightarrow> u64 \<Rightarrow> u64 \<Rightarrow> (u64 \<times> u64) direct_swap_result" where
  "dlmm_walk_loop m swap_for_y fee_on_input amount_in active_id amount_left total_out total_fee =
     (if amount_left = 0 then Inr (total_out, total_fee)
      else case find (\<lambda>b. db_id b = active_id) (dlm_bins m) of
        None \<Rightarrow> Inl (InsufficientLiquidity (lbs_pool (dlm_state m)) amount_in
                  ''the size travels further than the loaded bin arrays cover'')
      | Some b \<Rightarrow>
          and_then (walk_bin m swap_for_y fee_on_input active_id b amount_left total_out total_fee)
            (\<lambda>(amount_left, total_out, total_fee).
          if 0 < amount_left
          then
            let next_id = (if swap_for_y then active_id - 1 else active_id + 1) in
            if in_i32 next_id
            then dlmm_walk_loop m swap_for_y fee_on_input amount_in next_id amount_left total_out total_fee
            else Inl dlmm_overflow
          else Inr (total_out, total_fee)))"
  by pat_completeness auto
termination
  by (relation "measure (\<lambda>(m, swap_for_y, _, _, active_id, _). bins_ahead m swap_for_y active_id)")
    (auto intro: bins_ahead_steps)

declare dlmm_walk_loop.simps [simp del]

definition dlmm_walk :: "dlmm_market \<Rightarrow> bool \<Rightarrow> u64 \<Rightarrow> (u64 \<times> u64 \<times> bool) direct_swap_result" where
  "dlmm_walk m swap_for_y amount_in =
     (let fee_on_input = dlmm_fee_on_input m swap_for_y in
      and_then (dlmm_walk_loop m swap_for_y fee_on_input amount_in (lbs_active_id (dlm_state m))
                  amount_in 0 0) (\<lambda>(total_out, total_fee).
      Inr (total_out, total_fee, fee_on_input)))"

definition dlmm_token_program :: "dlmm_market \<Rightarrow> pubkey \<Rightarrow> pubkey option" where
  "dlmm_token_program m mint =
     map_option (\<lambda>side_x. if side_x then dlm_token_program_x m else dlm_token_program_y m)
       (dlmm_is_side_x m mint)"

definition dlmm_decimals :: "dlmm_market \<Rightarrow> pubkey \<Rightarrow> u8 option" where
  "dlmm_decimals m mint =
     map_option (\<lambda>side_x. if side_x then dlm_decimals_x m else dlm_decimals_y m) (dlmm_is_side_x m mint)"

text \<open>The price impact of \<open>quote\<close>: how far the realised rate is from the spot rate.\<close>

definition dlmm_price_impact :: "dlmm_market \<Rightarrow> bool \<Rightarrow> u64 \<Rightarrow> u64 \<Rightarrow> f64" where
  "dlmm_price_impact m swap_for_y received_by_pool gross_out =
     (let price_before =
            real (unat (unwrap_or (get_price_from_id (lbs_active_id (dlm_state m))
                                     (lbs_bin_step (dlm_state m))) 0)) / 2 ^ 64;
          realised = (if 0 < received_by_pool
                      then real (unat gross_out) / real (unat received_by_pool) else 0)
      in if 0 < price_before
         then let spot = (if swap_for_y then price_before else 1 / price_before)
              in if 0 < spot then clamp_f64 (\<bar>spot - realised\<bar> / spot * 100) 0 100 else 0
         else 0)"

definition dlmm_quote :: "dlmm_market \<Rightarrow> pubkey \<Rightarrow> u64 \<Rightarrow> venue_quote direct_swap_result" where
  "dlmm_quote m input_mint amount_in =
     (let pool = lbs_pool (dlm_state m) in
      and_then (ok_or (dlmm_is_side_x m input_mint) (PairNotInPool pool input_mint default_pubkey))
        (\<lambda>swap_for_y.
      let received_by_pool = net_of_fee (dlmm_transfer_fee m swap_for_y) amount_in in
      if received_by_pool = 0
      then Inl (InsufficientLiquidity pool amount_in
             ''the input transfer fee consumes the whole amount at this size'')
      else
        and_then (dlmm_walk m swap_for_y received_by_pool) (\<lambda>(gross_out, walk_fee, fee_on_input).
        if gross_out = 0
        then Inl (InsufficientLiquidity pool amount_in ''fees consume the whole input at this size'')
        else
          let expected_out = net_of_fee (dlmm_transfer_fee m (\<not> swap_for_y)) gross_out in
          if expected_out = 0
          then Inl (InsufficientLiquidity pool amount_in
                 ''the output transfer fee consumes the whole amount at this size'')
          else
            let output_vault_balance =
                  (if swap_for_y then dlm_reserve_y_balance m else dlm_reserve_x_balance m) in
            if output_vault_balance \<le> expected_out
            then Inl (InsufficientLiquidity pool amount_in ''the output exceeds what the pool's vault holds'')
            else
              let lp_fee =
                    (if fee_on_input then walk_fee
                     else if gross_out = 0 then 0
                     else ucast ((ucast walk_fee * ucast received_by_pool :: u128) div ucast gross_out))
              in Inr \<lparr>vq_amount_in = amount_in, vq_expected_out = expected_out, vq_lp_fee = lp_fee,
                   vq_price_impact_pct = dlmm_price_impact m swap_for_y received_by_pool gross_out\<rparr>)))"

definition bin_array_accounts :: "sdk \<Rightarrow> dlmm_market \<Rightarrow> bool \<Rightarrow> pubkey list" where
  "bin_array_accounts sdk m swap_for_y =
     (let program = dlmm_program_id sdk;
          active_array_index = bin_id_to_array_index (lbs_active_id (dlm_state m));
          starts = filter (\<lambda>index. index \<in> set (dlm_available_array_indices m))
                     (candidate_array_indices active_array_index swap_for_y)
      in map (bin_array_address sdk program (lbs_pool (dlm_state m))) (take BIN_ARRAYS_PER_SWAP starts))"

definition dlmm_swap_instruction ::
  "sdk \<Rightarrow> dlmm_market \<Rightarrow> swap_accounts \<Rightarrow> u64 \<Rightarrow> u64 \<Rightarrow> instruction direct_swap_result" where
  "dlmm_swap_instruction sdk m accounts amount_in min_out =
     (let state = dlm_state m in
      and_then (oriented_pair (lbs_pool state) (dlmm_is_side_x m) accounts) (\<lambda>swap_for_y.
      let bin_arrays = bin_array_accounts sdk m swap_for_y in
      if bin_arrays = []
      then Inl (InsufficientLiquidity (lbs_pool state) amount_in
             ''no bin array in the swap direction exists on chain'')
      else
        let program = dlmm_program_id sdk
        in Inr \<lparr>ix_program_id = program,
             ix_accounts =
               [meta_new (lbs_pool state) False,
                if dlm_has_bitmap_extension m
                then meta_new (dlmm_bitmap_extension_address sdk program (lbs_pool state)) False
                else meta_new_readonly program False,
                meta_new (lbs_reserve_x state) False,
                meta_new (lbs_reserve_y state) False,
                meta_new (sa_input_token_account accounts) False,
                meta_new (sa_output_token_account accounts) False,
                meta_new_readonly (lbs_token_x_mint state) False,
                meta_new_readonly (lbs_token_y_mint state) False,
                meta_new (lbs_oracle state) False,
                meta_new_readonly program False,
                meta_new_readonly (sa_owner accounts) True,
                meta_new_readonly (dlm_token_program_x m) False,
                meta_new_readonly (dlm_token_program_y m) False,
                meta_new_readonly (memo_program_id sdk) False,
                meta_new_readonly (dlmm_event_authority_address sdk program) False,
                meta_new_readonly program False]
               @ map (\<lambda>array. meta_new array False) bin_arrays,
             ix_data = DLMM_SWAP2 @ u64_to_le_bytes amount_in @ u64_to_le_bytes min_out
               @ u32_to_le_bytes 0\<rparr>))"

definition dlmm_as_market :: "sdk \<Rightarrow> dlmm_market \<Rightarrow> pool_market" where
  "dlmm_as_market sdk m =
     \<lparr>pm_program = MeteoraDlmm, pm_pool = lbs_pool (dlm_state m),
      pm_mints = (lbs_token_x_mint (dlm_state m), lbs_token_y_mint (dlm_state m)),
      pm_token_program = dlmm_token_program m, pm_decimals = dlmm_decimals m,
      pm_quote = dlmm_quote m, pm_swap_instruction = dlmm_swap_instruction sdk m,
      pm_compute_units = DLMM_COMPUTE_UNITS, pm_settles_native_sol = False\<rparr>"

section \<open>The price of a bin\<close>

lemma real_div_scale: "real (n div 2 ^ 64) * 2 ^ 64 \<le> real n"
proof -
  have "n div 2 ^ 64 * 2 ^ 64 \<le> n" by simp
  then have "real (n div 2 ^ 64 * 2 ^ 64) \<le> real n" by (simp only: of_nat_le_iff)
  then show ?thesis by simp
qed

lemma scaled_product_le: "c * 2 ^ 64 \<le> a * b \<Longrightarrow> c / 2 ^ 64 \<le> a / 2 ^ 64 * (b / 2 ^ 64)" for a b c :: real
  by (simp add: field_simps)

lemma scaled_nonneg: "0 \<le> real n / 2 ^ 64"
  by (intro divide_nonneg_nonneg of_nat_0_le_iff) simp

lemma shifted_product:
  fixes a b :: u128
  assumes "unat a \<le> 2 ^ 64" and "unat b < 2 ^ 64"
  obtains c where "map_option (drop_bit SCALE_OFFSET) (checked_mul a b) = Some c"
    and "unat c \<le> unat b" and "real (unat c) / 2 ^ 64 \<le> real (unat a) / 2 ^ 64 * (real (unat b) / 2 ^ 64)"
proof -
  have le: "unat a * unat b \<le> 2 ^ 64 * unat b" using assms(1) by (rule mult_le_mono1)
  moreover have "2 ^ 64 * unat b < 2 ^ 128" using assms(2) by simp
  ultimately have lt: "unat a * unat b < 2 ^ 128" by (rule le_less_trans)
  have v: "unat (drop_bit 64 (a * b)) = unat a * unat b div 2 ^ 64"
    using lt by (simp add: unat_drop_bit_div unat_word_ariths)
  have "unat a * unat b div 2 ^ 64 \<le> unat b" 
    using div_le_mono [OF le, of "2 ^ 64"] by simp
  then have "unat (drop_bit 64 (a * b)) \<le> unat b" by (simp only: v)
  moreover have "real (unat (drop_bit 64 (a * b))) / 2 ^ 64
      \<le> real (unat a) / 2 ^ 64 * (real (unat b) / 2 ^ 64)"
    unfolding v using real_div_scale [of "unat a * unat b"] by (intro scaled_product_le) (simp only: of_nat_mult)
  moreover have "map_option (drop_bit SCALE_OFFSET) (checked_mul a b) = Some (drop_bit 64 (a * b))"
    using lt by (simp add: checked_mul_def SCALE_OFFSET_def)
  ultimately show ?thesis by (intro that)
qed

lemma unat_mask_bit: "k < 32 \<Longrightarrow> unat (2 ^ k :: u32) = 2 ^ k"
  using unat_push_bit_mod [of k "1 :: u32"] power_strict_increasing [of k 32 "2 :: nat"] by simp

lemma masked_out:
  "bit e k \<Longrightarrow> unat (take_bit (Suc k) e) = 2 ^ k + unat (take_bit k e)"
  "\<not> bit e k \<Longrightarrow> unat (take_bit (Suc k) e) = unat (take_bit k e)"
  for e :: u32
  by (simp_all add: unsigned_take_bit_eq take_bit_Suc_from_most bit_unsigned_iff impossible_bit)

lemma pow_q64_loop_upper:
  fixes x :: real
  assumes "k \<le> 19" and "unat e < 2 ^ 19" and "rem = e AND NOT (mask k)"
    and "unat sq < 2 ^ 64" and "unat res \<le> 2 ^ 64"
    and "real (unat sq) / 2 ^ 64 \<le> x ^ (2 ^ k)"
    and "real (unat res) / 2 ^ 64 \<le> x ^ unat (take_bit k e)" and "0 \<le> x"
  shows "\<exists>r. pow_q64_loop e rem (2 ^ k) sq res = Some r \<and> real (unat r) / 2 ^ 64 \<le> x ^ unat e"
  using assms
proof (induction "20 - k" arbitrary: k rem sq res)
  case (Suc d)
  have small: "unat (take_bit 20 e) = unat e"
    using Suc.prems(2) by (simp add: unsigned_take_bit_eq take_bit_nat_eq_self)
  have pow: "unat (2 ^ k :: u32) = 2 ^ k" using Suc.prems(1) by (simp add: unat_mask_bit)
  then have mask_nz: "(2 ^ k :: u32) \<noteq> 0" using Suc.prems(1) by auto
  show ?case
  proof (cases "rem = 0")
    case True
    then have "e AND NOT (mask k) = 0" using Suc.prems(3) by simp
    then have "take_bit k e = e" 
      by (simp add: bit_eq_iff bit_simps) blast
    then show ?thesis using Suc.prems True by (subst pow_q64_loop.simps) simp
  next
    case False
    obtain sq' where sq': "map_option (drop_bit SCALE_OFFSET) (checked_mul sq sq) = Some sq'"
      "unat sq' \<le> unat sq" "real (unat sq') / 2 ^ 64 \<le> real (unat sq) / 2 ^ 64 * (real (unat sq) / 2 ^ 64)"
      using shifted_product [of sq sq] Suc.prems(4) by auto
    obtain res' where res': "(if 0 < e AND 2 ^ k
        then map_option (drop_bit SCALE_OFFSET) (checked_mul res sq) else Some res) = Some res'"
      "unat res' \<le> 2 ^ 64" "real (unat res') / 2 ^ 64 \<le> x ^ unat (take_bit (Suc k) e)"
    proof (cases "bit e k")
      case True
      obtain r where r: "map_option (drop_bit SCALE_OFFSET) (checked_mul res sq) = Some r"
        "unat r \<le> unat sq" "real (unat r) / 2 ^ 64 \<le> real (unat res) / 2 ^ 64 * (real (unat sq) / 2 ^ 64)"
        using shifted_product Suc.prems(4,5) by blast
      have "real (unat res) / 2 ^ 64 * (real (unat sq) / 2 ^ 64) \<le> x ^ unat (take_bit k e) * x ^ (2 ^ k)"
        by (intro mult_mono Suc.prems zero_le_power scaled_nonneg)
      then have "real (unat r) / 2 ^ 64 \<le> x ^ unat (take_bit (Suc k) e)"
        using r(3) masked_out(1) [OF True] by (simp add: power_add mult.commute)
      moreover have "0 < e AND 2 ^ k" using True by (simp add: word_gt_0 and_exp_eq_0_iff_not_bit)
      ultimately show ?thesis using that [of r] r Suc.prems(4) by simp
    next
      case False
      then have "\<not> 0 < e AND 2 ^ k" by (simp add: word_gt_0 and_exp_eq_0_iff_not_bit)
      then show ?thesis using that [of res] masked_out(2) [OF False] Suc.prems(5,7) by simp
    qed
    have step: "pow_q64_loop e rem (2 ^ k) sq res =
        (if k = 19 then Some res' else pow_q64_loop e (e AND NOT (mask (Suc k))) (2 ^ Suc k) sq' res')"
    proof -
      have rem: "rem AND NOT (2 ^ k) = e AND NOT (mask (Suc k))"
        unfolding Suc.prems(3) by (rule bit_eqI) (auto simp: bit_simps less_Suc_eq)
      have push: "push_bit 1 (2 ^ k :: u32) = 2 ^ Suc k" by simp
      have "2 ^ 19 < (2 ^ Suc k :: nat) \<longleftrightarrow> k = 19"
        using Suc.prems(1) by (subst power_strict_increasing_iff) auto
      then have top: "(2 ^ Suc k :: u32) \<noteq> 0" "MAX_EXPONENTIAL < (2 ^ Suc k :: u32) \<longleftrightarrow> k = 19"
        using unat_mask_bit [of "Suc k"] Suc.prems(1)
        by (auto simp: MAX_EXPONENTIAL_def word_less_nat_alt simp del: power_Suc)
      have go: "0 < rem" using False by (simp add: word_gt_0)
      show ?thesis
        unfolding pow_q64_loop.simps [of e rem "2 ^ k"] Let_def sq'(1) res'(1) push rem
        using Suc.prems(1) top mask_nz go by (simp add: MAX_EXPONENTIAL_def del: power_Suc)
    qed
    show ?thesis
    proof (cases "k = 19")
      case True
      then show ?thesis using step res' small by simp
    next
      case False
      have "real (unat sq) / 2 ^ 64 * (real (unat sq) / 2 ^ 64) \<le> x ^ 2 ^ k * x ^ 2 ^ k"
        by (intro mult_mono Suc.prems zero_le_power scaled_nonneg)
      then have "real (unat sq') / 2 ^ 64 \<le> x ^ 2 ^ Suc k"
        using sq'(3) by (simp add: power_add [symmetric] mult_2)
      then show ?thesis
        unfolding step using False Suc.hyps(1) [of "Suc k" _ sq' res'] Suc.hyps(2) Suc.prems res' sq'
        by simp
    qed
  qed
qed simp

definition bin_ratio :: "u16 \<Rightarrow> real" where
  "bin_ratio bin_step = real (2 ^ 64 + unat bin_step * 2 ^ 64 div 10000) / 2 ^ 64"

text \<open>
  The power of the inverse is rounded down at every step: below the reference bin the
  price is at most the exact one, above it the price falls short by less than one unit in
  the last place.
\<close>

lemma less_next_multiple: "0 < r \<Longrightarrow> n < (n div r + 1) * r" for n r :: nat
  using dividend_less_times_div [of r n] by (simp add: algebra_simps)

lemma reciprocal_bound:
  fixes R y z P :: real
  assumes "0 < R" and "0 \<le> y" and "y * z = 1" and "R / 2 ^ 64 \<le> z" and "2 ^ 64 * 2 ^ 64 \<le> P * R"
  shows "y \<le> P / 2 ^ 64"
proof -
  have "y * (R / 2 ^ 64) \<le> 1" using mult_left_mono [OF assms(4,2)] assms(3) by simp
  then have "(y * 2 ^ 64) * R \<le> P * R" using assms(5) by (simp add: field_simps)
  then have "y * 2 ^ 64 \<le> P" using assms(1) by (simp only: mult_le_cancel_right)
  then show ?thesis by (simp add: field_simps)
qed

lemma pow_q64_one_sided:
  assumes "pow_q64 base i = Some p" and "in_i32 i" and "2 ^ 64 \<le> unat base"
  shows "i \<le> 0 \<Longrightarrow> real (unat p) / 2 ^ 64 \<le> (2 ^ 64 / real (unat base)) ^ nat \<bar>i\<bar>"
    and "0 \<le> i \<Longrightarrow> (real (unat base) / 2 ^ 64) ^ nat \<bar>i\<bar> \<le> (real (unat p) + 1) / 2 ^ 64"
    and "0 < unat p"
proof -
  let ?x = "2 ^ 64 / real (unat base)"
  have "(i \<le> 0 \<longrightarrow> real (unat p) / 2 ^ 64 \<le> ?x ^ nat \<bar>i\<bar>)
    \<and> (0 \<le> i \<longrightarrow> (real (unat base) / 2 ^ 64) ^ nat \<bar>i\<bar> \<le> (real (unat p) + 1) / 2 ^ 64) \<and> 0 < unat p"
  proof (cases "i = 0")
    case True
    then have "p = 2 ^ SCALE_OFFSET" using assms(1) by (simp add: pow_q64_def)
    then have "unat p = 2 ^ 64" by (simp add: SCALE_OFFSET_def)
    then have "real (unat p) = 2 ^ 64" by (simp only: of_nat_power of_nat_numeral)
    then show ?thesis using True \<open>unat p = 2 ^ 64\<close> by simp
  next
    case False
    define e where "e = (word_of_int \<bar>i\<bar> :: u32)"
    define inverse where "inverse = (- 1 :: u128) div base"
    have bnat: "0 < unat base" by (rule less_le_trans [OF _ assms(3)]) simp
    then have bpos: "0 < real (unat base)" by (simp only: of_nat_0_less_iff)
    have ge: "push_bit SCALE_OFFSET 1 \<le> base" using assms(3) by (simp add: SCALE_OFFSET_def word_le_nat_alt)
    have inv: "unat inverse = (2 ^ 128 - 1) div unat base"
      by (simp add: inverse_def unat_div unat_all_ones)
    have "unat inverse \<le> (2 ^ 128 - 1) div 2 ^ 64"
      unfolding inv by (rule div_le_mono2) (use assms(3) in simp_all)
    then have inv64: "unat inverse < 2 ^ 64" by simp
    have "unat inverse * unat base \<le> 2 ^ 128" unfolding inv by (rule order_trans [OF div_times_less_eq_dividend]) simp
    then have "real (unat inverse * unat base) \<le> real (2 ^ 128)" by (simp only: of_nat_le_iff)
    then have "real (unat inverse) * real (unat base) \<le> 2 ^ 128" by (simp only: of_nat_mult of_nat_power of_nat_numeral)
    then have invx: "real (unat inverse) / 2 ^ 64 \<le> ?x ^ 2 ^ 0" using bpos by (simp add: field_simps)
    have le: "\<not> MAX_EXPONENTIAL \<le> e" using assms(1) False by (auto simp: pow_q64_def e_def Let_def split: if_splits)
    have "unat e = nat \<bar>i\<bar>"
      using assms(2)
      by (auto simp: e_def unat_eq_nat_uint uint_word_of_int_eq take_bit_eq_mod in_i32_def mod_pos_pos_trivial)
    moreover have "unat e < 2 ^ 19" using le by (simp add: MAX_EXPONENTIAL_def not_le word_less_nat_alt)
    moreover have "\<exists>r. pow_q64_loop e e (2 ^ 0) inverse (push_bit SCALE_OFFSET 1) = Some r
        \<and> real (unat r) / 2 ^ 64 \<le> ?x ^ unat e"
      by (rule pow_q64_loop_upper) (use calculation inv64 invx bpos in \<open>simp_all add: SCALE_OFFSET_def\<close>)
    ultimately obtain r where r: "pow_q64_loop e e 1 inverse (push_bit SCALE_OFFSET 1) = Some r"
      "real (unat r) / 2 ^ 64 \<le> ?x ^ nat \<bar>i\<bar>" by auto
    have "base \<noteq> 0" using assms(3) by auto
    then have p: "r \<noteq> 0" "p = (if i < 0 then r else - 1 div r)"
      using assms(1) False le ge r(1)
      by (auto simp: pow_q64_def Let_def e_def [symmetric] checked_div_def inverse_def [symmetric] split: if_splits)
    have rpos: "0 < real (unat r)" using p(1) by (simp only: of_nat_0_less_iff unat_gt_0) simp
    show ?thesis
    proof (cases "i < 0")
      case True
      then show ?thesis using p r(2) by (simp add: unat_gt_0)
    next
      case False
      have v: "unat p = (2 ^ 128 - 1) div unat r" using p False by (simp add: unat_div unat_all_ones)
      have "2 ^ 128 - 1 < (unat p + 1) * unat r"
        unfolding v by (rule less_next_multiple) (use p(1) in \<open>simp add: unat_gt_0\<close>)
      then have "2 ^ 128 \<le> (unat p + 1) * unat r" by linarith
      then have "real (2 ^ 128) \<le> real ((unat p + 1) * unat r)" by (simp only: of_nat_le_iff)
      then have q: "2 ^ 64 * 2 ^ 64 \<le> (real (unat p) + 1) * real (unat r)"
        by (simp only: of_nat_mult of_nat_power of_nat_numeral of_nat_add of_nat_1) simp
      have "(real (unat base) / 2 ^ 64) ^ nat \<bar>i\<bar> * ?x ^ nat \<bar>i\<bar> = 1"
        using bpos by (simp only: power_mult_distrib [symmetric]) simp
      then have "(real (unat base) / 2 ^ 64) ^ nat \<bar>i\<bar> \<le> (real (unat p) + 1) / 2 ^ 64"
        by (rule reciprocal_bound [OF rpos zero_le_power [OF scaled_nonneg] _ r(2) q])
      moreover have "0 < unat p"
        unfolding v using word_unat_bound [of r] p(1) by (simp add: div_greater_zero_iff unat_gt_0)
      ultimately show ?thesis using False \<open>i \<noteq> 0\<close> by simp
    qed
  qed
  then show "i \<le> 0 \<Longrightarrow> real (unat p) / 2 ^ 64 \<le> ?x ^ nat \<bar>i\<bar>"
    and "0 \<le> i \<Longrightarrow> (real (unat base) / 2 ^ 64) ^ nat \<bar>i\<bar> \<le> (real (unat p) + 1) / 2 ^ 64"
    and "0 < unat p" by blast+
qed

lemma get_price_from_id_one_sided:
  assumes "get_price_from_id i bin_step = Some p" and "in_i32 i"
  shows "i \<le> 0 \<Longrightarrow> real (unat p) / 2 ^ 64 \<le> (1 / bin_ratio bin_step) ^ nat \<bar>i\<bar>"
    and "0 \<le> i \<Longrightarrow> bin_ratio bin_step ^ nat \<bar>i\<bar> \<le> (real (unat p) + 1) / 2 ^ 64"
    and "0 < unat p"
proof -
  have step: "unat (ucast bin_step :: u128) = unat bin_step" by (simp add: unat_simps)
  have "unat (push_bit 64 (ucast bin_step :: u128)) = unat bin_step * 2 ^ 64"
    using u16_bound [of bin_step] by (subst unat_push_bit_mod) (simp add: step)
  then have bps: "unat (push_bit 64 (ucast bin_step :: u128) div 10000) = unat bin_step * 2 ^ 64 div 10000"
    by (simp add: unat_div)
  obtain base where base: "unat base = 2 ^ 64 + unat bin_step * 2 ^ 64 div 10000"
    and price: "pow_q64 base i = Some p"
    using assms(1) by (auto simp: get_price_from_id_def Let_def bind_eq_Some_conv checked_add_Some
        SCALE_OFFSET_def DLMM_BASIS_POINT_MAX_def bps)
  have r: "bin_ratio bin_step = real (unat base) / 2 ^ 64" by (simp only: bin_ratio_def base)
  have r': "1 / bin_ratio bin_step = 2 ^ 64 / real (unat base)" unfolding r by (simp only: divide_divide_eq_right mult_1)
  have "2 ^ 64 \<le> unat base" unfolding base by simp
  note pow = pow_q64_one_sided [OF price assms(2) this]
  show "i \<le> 0 \<Longrightarrow> real (unat p) / 2 ^ 64 \<le> (1 / bin_ratio bin_step) ^ nat \<bar>i\<bar>"
    unfolding r' by (rule pow(1))
  show "0 \<le> i \<Longrightarrow> bin_ratio bin_step ^ nat \<bar>i\<bar> \<le> (real (unat p) + 1) / 2 ^ 64"
    unfolding r by (rule pow(2))
  show "0 < unat p" by (rule pow(3))
qed

section \<open>Decoding\<close>

lemma lb_pair_decode_None: "lb_pair_decode pool data = None \<longleftrightarrow> length data < 584"
  unfolding lb_pair_decode_def by (auto simp: read_at)

lemma decode_bins_ids:
  "decode_bins data k slots bins = Some out \<Longrightarrow>
     map db_id out = map db_id bins
       @ map (\<lambda>i. wrap_i32 (wrap_i32 (wrap_i64 (k * MAX_BIN_PER_ARRAY)) + int i)) slots"
  by (induction data k slots bins rule: decode_bins.induct) (auto simp: Let_def bind_eq_Some_conv)

text \<open>The ids of a decoded array are the 70 ids whose floor is its index.\<close>

lemma decode_bin_array_ids:
  assumes "decode_bin_array data k = Some bins" and "in_i32 (k * 70)" and "in_i32 (k * 70 + 69)"
  shows "map db_id bins = map (\<lambda>i. k * 70 + int i) [0..<70]"
proof -
  have "wrap_i64 (k * 70) = k * 70" using assms(2) by (simp add: wrap_i64_def in_i32_def)
  moreover have "wrap_i32 (k * 70 + int i) = k * 70 + int i" if "i < 70" for i
    using assms(2,3) that by (intro wrap_i32_id) (simp add: in_i32_def)
  ultimately show ?thesis
    using decode_bins_ids [OF assms(1) [unfolded decode_bin_array_def]] assms(2)
    by (simp add: MAX_BIN_PER_ARRAY_def wrap_i32_id)
qed

section \<open>Bin arrays\<close>

lemma bin_id_to_array_index_floor:
  assumes "in_i32 bin_id"
  shows "bin_id_to_array_index bin_id = bin_id div 70"
proof -
  have "bin_id div 70 \<le> \<bar>bin_id\<bar>" and "- \<bar>bin_id\<bar> \<le> bin_id div 70" by linarith+
  then have "wrap_i32 (bin_id div 70) = bin_id div 70"
    using assms by (intro wrap_i32_id) (auto simp: in_i32_def)
  then show ?thesis
    using floor_from_trunc [of 70 bin_id]
    by (auto simp: bin_id_to_array_index_def MAX_BIN_PER_ARRAY_def Let_def)
qed

lemma candidate_array_indices_eq:
  assumes "in_i32 k"
  shows "candidate_array_indices k s = (if s then [k, k - 1, k - 2] else [k, k + 1, k + 2])"
  using assms by (simp add: candidate_array_indices_def BIN_ARRAYS_PER_SWAP_def numeral_3_eq_3
      in_i64_def in_i32_def)

section \<open>Fees\<close>

lemma unat_FEE_PRECISION: "unat FEE_PRECISION = 1000000000"
  by (simp add: FEE_PRECISION_def)

lemma total_fee_rate_le: "unat (total_fee_rate m v) \<le> 100000000"
  by (simp add: total_fee_rate_def MAX_FEE_RATE_def Let_def unat_simps)

lemma fee_from_amount_Some:
  "fee_from_amount rate a = Some fee \<Longrightarrow> unat fee = ceil_nat (unat a * unat rate) 1000000000"
  by (auto simp: fee_from_amount_def bind_eq_Some_conv amount.ceil_Some try_into_u64_Some
      unat_FEE_PRECISION unat_simps)

lemma fee_from_excluded_Some:
  "fee_from_excluded_amount rate a = Some fee \<Longrightarrow>
     unat rate < 1000000000 \<and> unat fee = ceil_nat (unat a * unat rate) (1000000000 - unat rate)"
  by (auto simp: fee_from_excluded_amount_def bind_eq_Some_conv amount.ceil_Some try_into_u64_Some
      checked_sub_Some unat_FEE_PRECISION unat_simps split: if_splits)

lemma fee_from_amount_le:
  "fee_from_amount rate a = Some fee \<Longrightarrow> unat rate \<le> 1000000000 \<Longrightarrow> unat fee \<le> unat a"
  by (simp add: fee_from_amount_Some ceil_nat_le_iff)

text \<open>
  A bin that drains takes the fee on what it used: together they never exceed what was
  offered, because what was offered left at least that much after its own fee.
\<close>

lemma drained_consumption_le:
  assumes "used \<le> a - ceil_nat (a * r) p" and "r < p"
  shows "used + ceil_nat (used * r) (p - r) \<le> (a :: nat)"
proof -
  have "ceil_nat (a * r) p \<le> a" using assms(2) by (simp add: ceil_nat_le_iff)
  then have "used + ceil_nat (a * r) p \<le> a" using assms(1) by linarith
  then have "(used + ceil_nat (a * r) p) * p \<le> a * p" by (rule mult_le_mono1)
  moreover have "a * r \<le> ceil_nat (a * r) p * p" using assms(2) by (intro ceil_nat_ge) simp
  ultimately have "used * p + a * r \<le> a * p" by (simp add: add_mult_distrib)
  moreover obtain e where p: "p = r + e" "0 < e" using assms(2) by (auto dest: less_imp_add_positive)
  ultimately have "used * r + used * e \<le> a * e" by (simp add: algebra_simps)
  moreover have "used * e \<le> a * e" using calculation by linarith
  then have "used \<le> a" using p(2) by simp
  ultimately have "used * r \<le> (a - used) * e" by (simp add: diff_mult_distrib)
  then have "ceil_nat (used * r) e \<le> a - used" using p(2) by (simp add: ceil_nat_le_iff)
  then show ?thesis using p \<open>used \<le> a\<close> by simp
qed

section \<open>One bin\<close>

lemma unat_scale: "unat (push_bit SCALE_OFFSET 1 :: u128) = 2 ^ 64" "unat (2 ^ SCALE_OFFSET :: u128) = 2 ^ 64"
  by (simp_all add: SCALE_OFFSET_def)

lemma get_amount_in_Some:
  assumes "get_amount_in out price s RoundUp = Some i"
  shows "if s then 0 < unat price \<and> unat i = ceil_nat (unat out * 2 ^ 64) (unat price)
         else unat i = ceil_nat (unat out * unat price) (2 ^ 64)"
  using assms by (cases s) (auto simp: get_amount_in_def Let_def bind_eq_Some_conv try_into_u64_Some
      SCALE_OFFSET_def unat_simps amount.ceil_Some)

lemma get_amount_out_Some:
  assumes "get_amount_out i price s RoundDown = Some out"
  shows "if s then unat out = unat price * unat i div 2 ^ 64
         else 0 < unat price \<and> unat out = unat i * 2 ^ 64 div unat price"
  using assms by (cases s) (auto simp: get_amount_out_def Let_def bind_eq_Some_conv try_into_u64_Some
      SCALE_OFFSET_def unat_simps amount.floor_Some)

text \<open>An amount paid for an input at a price, with the price scaled by \<open>2^64\<close>.\<close>

definition fair :: "bool \<Rightarrow> nat \<Rightarrow> nat \<Rightarrow> nat \<Rightarrow> bool" where
  "fair swap_for_y price input out \<longleftrightarrow>
     (if swap_for_y then out * 2 ^ 64 \<le> input * price else out * price \<le> input * 2 ^ 64)"

lemma get_amount_in_fair:
  "get_amount_in out price s RoundUp = Some i \<Longrightarrow> fair s (unat price) (unat i) (unat out)"
  by (cases s) (auto simp: fair_def ceil_nat_ge dest!: get_amount_in_Some)

lemma get_amount_out_fair:
  "get_amount_out i price s RoundDown = Some out \<Longrightarrow> fair s (unat price) (unat i) (unat out)"
  by (cases s) (auto simp: fair_def mult.commute [of "unat i"] dest!: get_amount_out_Some)

lemma fair_bound:
  assumes "get_amount_in cap price s RoundUp = Some need" and "fair s (unat price) i out" and "i < unat need"
  shows "out < unat cap"
proof (rule ccontr)
  assume "\<not> out < unat cap"
  then have "unat cap * 2 ^ 64 \<le> out * 2 ^ 64" and "unat cap * unat price \<le> out * unat price" by simp_all
  then have "fair s (unat price) i (unat cap)" using assms(2) 
    by (cases s) (auto simp: fair_def intro: order_trans [OF mult_le_mono1])
  then have "unat need \<le> i"
    using get_amount_in_Some [OF assms(1)] by (cases s) (auto simp: fair_def ceil_nat_le_iff)
  then show False using assms(3) by simp
qed

lemma fair_0 [simp]: "fair s price used 0"
  by (simp add: fair_def)

lemma fill_bin_ok:
  assumes "fill_bin cap price s ex = Inr (used, left, g)"
  shows "unat used + unat left = unat ex" and "unat g \<le> unat cap"
    and "fair s (unat price) (unat used) (unat g)"
proof -
  have "unat used + unat left = unat ex \<and> unat g \<le> unat cap
      \<and> fair s (unat price) (unat used) (unat g)"
  proof (cases "cap = 0")
    case True
    then show ?thesis using assms by (auto simp: fill_bin_def)
  next
    case False
    then obtain need where need: "get_amount_in cap price s RoundUp = Some need"
      and fill: "(if need \<le> ex then Inr (need, saturating_sub ex need, cap)
        else and_then (ok_or (get_amount_out ex price s RoundDown) dlmm_overflow)
               (\<lambda>out. Inr (ex, 0, out))) = Inr (used, left, g)"
      using assms by (auto simp: fill_bin_def)
    show ?thesis
    proof (cases "need \<le> ex")
      case True
      then show ?thesis using fill get_amount_in_fair [OF need] by (auto simp: unat_simps word_le_nat_alt)
    next
      case False
      then have out: "get_amount_out ex price s RoundDown = Some g" and eq: "used = ex" "left = 0"
        using fill by auto
      show ?thesis
        using get_amount_out_fair [OF out] fair_bound [OF need get_amount_out_fair [OF out]] eq False
        by (simp add: word_le_nat_alt)
    qed
  qed
  then show "unat used + unat left = unat ex" and "unat g \<le> unat cap"
    and "fair s (unat price) (unat used) (unat g)" by blast+
qed

lemma quote_bin_ok:
  assumes "quote_bin b price a s foi rate = Inr (consumed, out, fee)" and "unat rate < 1000000000"
  obtains used gross where
    "unat consumed = used + (if foi then unat fee else 0)" and "unat consumed \<le> unat a"
    and "gross = unat out + (if foi then 0 else unat fee)" and "gross \<le> unat (bin_out_cap b s)"
    and "fair s (unat price) used gross"
proof (cases foi)
  case True
  obtain f used left g where f: "fee_from_amount rate a = Some f"
    and fill: "fill_bin (bin_out_cap b s) price s (saturating_sub a f) = Inr (used, left, g)"
    and rest: "out = g" "if 0 < left
        then fee_from_excluded_amount rate used = Some fee \<and> consumed = saturating_add used fee
        else fee = f \<and> consumed = a"
    using assms(1) True unfolding quote_bin_def Let_def by (auto split: if_splits)
  have fee_a: "unat f = ceil_nat (unat a * unat rate) 1000000000" "unat f \<le> unat a"
    using fee_from_amount_Some [OF f] fee_from_amount_le [OF f] assms(2) by auto
  note ok = fill_bin_ok [OF fill]
  have ex: "unat used + unat left = unat a - unat f" using ok(1) by (simp add: unat_simps)
  have "unat consumed = unat used + unat fee \<and> unat consumed \<le> unat a"
  proof (cases "0 < left")
    case drained: True
    then have x: "unat fee = ceil_nat (unat used * unat rate) (1000000000 - unat rate)"
      and c: "consumed = saturating_add used fee"
      using rest(2) fee_from_excluded_Some by auto
    have "unat used + unat fee \<le> unat a"
      unfolding x using ex fee_a(1) assms(2) by (intro drained_consumption_le) auto
    then show ?thesis using u64_bound [of a] by (simp add: c unat_simps)
  next
    case False
    then show ?thesis using rest(2) ex fee_a(2) by (simp add: word_gt_0)
  qed
  then show ?thesis using that [of "unat used" "unat g"] ok rest(1) True by simp
next
  case False
  obtain used left g where fill: "fill_bin (bin_out_cap b s) price s a = Inr (used, left, g)"
    and rest: "fee_from_amount rate g = Some fee" "out = saturating_sub g fee"
      "consumed = (if 0 < left then used else a)"
    using assms(1) False unfolding quote_bin_def Let_def by (auto split: if_splits)
  note ok = fill_bin_ok [OF fill]
  have "unat fee \<le> unat g" using fee_from_amount_le [OF rest(1)] assms(2) by simp
  moreover have "unat consumed = unat used" using ok(1) rest(3) by (cases "left = 0") (auto simp: word_gt_0)
  ultimately show ?thesis
    using that [of "unat used" "unat g"] ok rest(2) False by (simp add: unat_simps)
qed

section \<open>The walk\<close>

definition caps_ahead :: "dlmm_market \<Rightarrow> bool \<Rightarrow> i32 \<Rightarrow> nat" where
  "caps_ahead m s i = sum_list (map (\<lambda>b. unat (bin_out_cap b s))
     (filter (\<lambda>b. if s then db_id b \<le> i else i \<le> db_id b) (dlm_bins m)))"

lemma sum_filter_split:
  assumes "\<And>x. Q x \<Longrightarrow> P x" and "b \<in> set xs" and "P b" and "\<not> Q b"
  shows "f b + sum_list (map f (filter Q xs)) \<le> (sum_list (map f (filter P xs)) :: nat)"
  using assms(2)
proof (induction xs)
  case (Cons x xs)
  have "sum_list (map f (filter Q xs)) \<le> sum_list (map f (filter P xs))"
    using assms(1) by (induction xs) (auto intro: le_add2 add_le_mono trans_le_add2)
  then show ?case using Cons assms by auto
qed simp

lemma caps_ahead_step:
  assumes "find (\<lambda>b. db_id b = i) (dlm_bins m) = Some b"
  shows "unat (bin_out_cap b s) + caps_ahead m s (if s then i - 1 else i + 1) \<le> caps_ahead m s i"
  unfolding caps_ahead_def
  using assms by (intro sum_filter_split) (auto simp: find_Some_iff split: if_splits)

lemma walk_bin_ok:
  assumes "walk_bin m s foi i b left out fee = Inr (left', out', fee')"
  shows "unat left' \<le> unat left" and "unat out' \<le> unat out + unat (bin_out_cap b s)"
    and "foi \<Longrightarrow> unat fee' + unat left' \<le> unat fee + unat left"
proof -
  have "unat left' \<le> unat left \<and> unat out' \<le> unat out + unat (bin_out_cap b s)
      \<and> (foi \<longrightarrow> unat fee' + unat left' \<le> unat fee + unat left)"
  proof (cases "0 < bin_out_cap b s")
    case True
    then obtain price consumed o1 f1 where
      bin: "quote_bin b price left s foi (total_fee_rate m (bin_volatility m i)) = Inr (consumed, o1, f1)"
      and upd: "(if 0 < consumed then Inr (saturating_sub left consumed, saturating_add out o1,
           saturating_add fee f1) else Inr (left, out, fee)) = (Inr (left', out', fee') :: _ direct_swap_result)"
      using assms by (auto simp: walk_bin_def Let_def)
    have rate: "unat (total_fee_rate m (bin_volatility m i)) < 1000000000"
      using total_fee_rate_le [of m "bin_volatility m i"] by linarith
    show ?thesis
    proof (cases "0 < consumed")
      case True
      then have "left' = saturating_sub left consumed \<and> out' = saturating_add out o1
          \<and> fee' = saturating_add fee f1" using upd by simp
      then show ?thesis using bin rate by (elim quote_bin_ok) (auto simp: unat_simps split: if_splits)
    next
      case False
      then show ?thesis using upd by simp
    qed
  next
    case False
    then show ?thesis using assms by (simp add: walk_bin_def)
  qed
  then show "unat left' \<le> unat left" and "unat out' \<le> unat out + unat (bin_out_cap b s)"
    and "foi \<Longrightarrow> unat fee' + unat left' \<le> unat fee + unat left" by blast+
qed

lemma dlmm_walk_loop_bounds:
  assumes "dlmm_walk_loop m s foi a i left out fee = Inr (paid, charged)"
  shows "unat paid \<le> unat out + caps_ahead m s i"
    and "foi \<Longrightarrow> unat charged \<le> unat fee + unat left"
proof -
  have "unat paid \<le> unat out + caps_ahead m s i \<and> (foi \<longrightarrow> unat charged \<le> unat fee + unat left)"
    using assms
  proof (induction m s foi a i left out fee rule: dlmm_walk_loop.induct)
    case (1 m s foi a i left out fee)
    show ?case
    proof (cases "left = 0")
      case True
      then show ?thesis using "1.prems" by (subst (asm) dlmm_walk_loop.simps) simp
    next
      case False
      obtain b left' out' fee' where b: "find (\<lambda>b. db_id b = i) (dlm_bins m) = Some b"
        and bin: "walk_bin m s foi i b left out fee = Inr (left', out', fee')"
        and rest: "(if 0 < left' then dlmm_walk_loop m s foi a (if s then i - 1 else i + 1) left' out' fee'
            else Inr (out', fee')) = Inr (paid, charged)"
          "0 < left' \<Longrightarrow> in_i32 (if s then i - 1 else i + 1)"
        using "1.prems" False
        by (subst (asm) dlmm_walk_loop.simps) (auto simp: Let_def split: option.splits if_splits)
      note ok = walk_bin_ok [OF bin] and caps = caps_ahead_step [OF b, of s]
      show ?thesis
      proof (cases "0 < left'")
        case True
        then have "unat paid \<le> unat out' + caps_ahead m s (if s then i - 1 else i + 1)
            \<and> (foi \<longrightarrow> unat charged \<le> unat fee' + unat left')"
          using "1.IH" [OF False b bin refl refl True refl rest(2)] rest(1) by simp
        then show ?thesis using ok caps by (auto simp del: if_split)
      next
        case False
        then show ?thesis using rest(1) ok caps by (auto simp del: if_split)
      qed
    qed
  qed
  then show "unat paid \<le> unat out + caps_ahead m s i" and "foi \<Longrightarrow> unat charged \<le> unat fee + unat left"
    by blast+
qed

section \<open>Quotes\<close>

lemma dlmm_walk_bounds:
  assumes "dlmm_walk m s a = Inr (out, fee, foi)"
  shows "foi = dlmm_fee_on_input m s" and "unat out \<le> caps_ahead m s (lbs_active_id (dlm_state m))"
    and "foi \<Longrightarrow> unat fee \<le> unat a"
proof -
  have loop: "dlmm_walk_loop m s (dlmm_fee_on_input m s) a (lbs_active_id (dlm_state m)) a 0 0 = Inr (out, fee)"
    and foi: "foi = dlmm_fee_on_input m s"
    using assms by (auto simp: dlmm_walk_def Let_def)
  show "foi = dlmm_fee_on_input m s" by (fact foi)
  show "unat out \<le> caps_ahead m s (lbs_active_id (dlm_state m))"
    using dlmm_walk_loop_bounds(1) [OF loop] by simp
  show "foi \<Longrightarrow> unat fee \<le> unat a" using dlmm_walk_loop_bounds(2) [OF loop] foi by simp
qed

lemma dlmm_price_impact_range: "0 \<le> dlmm_price_impact m s r g" "dlmm_price_impact m s r g \<le> 100"
  using clamp_f64_range [of 0 100] by (simp_all add: dlmm_price_impact_def Let_def)

definition dlmm_output_vault :: "dlmm_market \<Rightarrow> bool \<Rightarrow> u64" where
  "dlmm_output_vault m swap_for_y =
     (if swap_for_y then dlm_reserve_y_balance m else dlm_reserve_x_balance m)"

lemma dlmm_quote_ok:
  assumes "dlmm_quote m mint a = Inr q"
  obtains s received gross fee where
    "dlmm_is_side_x m mint = Some s"
    and "received = net_of_fee (dlmm_transfer_fee m s) a" and "received \<noteq> 0"
    and "dlmm_walk m s received = Inr (gross, fee, dlmm_fee_on_input m s)"
    and "vq_expected_out q = net_of_fee (dlmm_transfer_fee m (\<not> s)) gross"
    and "0 < unat (vq_expected_out q)"
    and "unat (vq_expected_out q) < unat (dlmm_output_vault m s)"
    and "vq_amount_in q = a"
    and "vq_lp_fee q = (if dlmm_fee_on_input m s then fee
       else ucast ((ucast fee * ucast received :: u128) div ucast gross))"
    and "vq_price_impact_pct q = dlmm_price_impact m s received gross"
proof -
  obtain s where s: "dlmm_is_side_x m mint = Some s"
    using assms by (auto simp: dlmm_quote_def Let_def)
  define received where "received = net_of_fee (dlmm_transfer_fee m s) a"
  obtain gross fee foi where walk: "dlmm_walk m s received = Inr (gross, fee, foi)" and r: "received \<noteq> 0"
    using assms s unfolding dlmm_quote_def Let_def received_def by (auto split: if_splits)
  note foi = dlmm_walk_bounds(1) [OF walk]
  show ?thesis
    by (rule that [of s received gross fee])
      (use assms s walk [unfolded received_def foi] r in \<open>auto simp: dlmm_quote_def Let_def received_def
         dlmm_output_vault_def unat_gt_0 word_le_nat_alt not_le split: if_splits\<close>)
qed

lemma dlmm_quote_bounds:
  assumes "dlmm_quote m mint a = Inr q" and "dlmm_is_side_x m mint = Some s"
  shows "unat (vq_expected_out q) \<le> caps_ahead m s (lbs_active_id (dlm_state m))"
    and "dlmm_fee_on_input m s \<Longrightarrow> unat (vq_lp_fee q) \<le> unat a"
proof -
  have "unat (vq_expected_out q) \<le> caps_ahead m s (lbs_active_id (dlm_state m))
      \<and> (dlmm_fee_on_input m s \<longrightarrow> unat (vq_lp_fee q) \<le> unat a)"
    using assms(1)
  proof (rule dlmm_quote_ok)
    fix s' received gross fee
    assume s': "dlmm_is_side_x m mint = Some s'" and r: "received = net_of_fee (dlmm_transfer_fee m s') a"
      and walk: "dlmm_walk m s' received = Inr (gross, fee, dlmm_fee_on_input m s')"
      and out: "vq_expected_out q = net_of_fee (dlmm_transfer_fee m (\<not> s')) gross"
      and lp: "vq_lp_fee q = (if dlmm_fee_on_input m s' then fee
         else ucast ((ucast fee * ucast received :: u128) div ucast gross))"
    have "s' = s" using s' assms(2) by simp
    then show ?thesis
      using dlmm_walk_bounds(2,3) [OF walk] out lp r net_of_fee_le [of "dlmm_transfer_fee m (\<not> s)" gross]
        net_of_fee_le [of "dlmm_transfer_fee m s" a] by (auto intro: order_trans)
  qed
  then show "unat (vq_expected_out q) \<le> caps_ahead m s (lbs_active_id (dlm_state m))"
    and "dlmm_fee_on_input m s \<Longrightarrow> unat (vq_lp_fee q) \<le> unat a" by blast+
qed

section \<open>The contract\<close>

lemma dlmm_side: "dlmm_is_side_x m = side_of (lbs_token_x_mint (dlm_state m)) (lbs_token_y_mint (dlm_state m))"
  by (rule ext) (simp add: dlmm_is_side_x_def)

lemmas dlmm_as_market_simps = dlmm_as_market_def holds_def dlmm_side

lemma dlmm_swap_contract:
  assumes "dlmm_swap_instruction sdk m accounts a mo = Inr ix"
  shows "swap_contract 8 16 (dlmm_as_market sdk m) accounts a mo ix"
proof -
  obtain s where s: "oriented_pair (lbs_pool (dlm_state m)) (dlmm_is_side_x m) accounts = Inr s"
    using assms by (auto simp: dlmm_swap_instruction_def Let_def)
  have pair: "trades (dlmm_as_market sdk m) (sa_input_mint accounts) (sa_output_mint accounts)"
    using s unfolding dlmm_side by (rule oriented_pair_trades) (simp add: dlmm_as_market_def)
  have len: "length DLMM_SWAP2 = 8" by (simp add: DLMM_SWAP2_def)
  show ?thesis
    unfolding swap_contract_def
    using assms s pair swap_data_read [OF len, of a mo "u32_to_le_bytes 0"]
    by (auto simp: dlmm_swap_instruction_def Let_def meta_new_def meta_new_readonly_def
        list_all_iff split: if_splits)
qed

interpretation dlmm: market "dlmm_as_market sdk" "\<lambda>_ _. 8" "\<lambda>_ _. 16"
proof
  fix m :: dlmm_market and mint a q accounts mo ix
  show "pm_token_program (dlmm_as_market sdk m) mint \<noteq> None \<longleftrightarrow> holds (dlmm_as_market sdk m) mint"
    by (simp add: dlmm_as_market_simps dlmm_token_program_def)
  show "pm_decimals (dlmm_as_market sdk m) mint \<noteq> None \<longleftrightarrow> holds (dlmm_as_market sdk m) mint"
    by (simp add: dlmm_as_market_simps dlmm_decimals_def)
  show "holds (dlmm_as_market sdk m) mint \<and> sane_quote a q"
    if "pm_quote (dlmm_as_market sdk m) mint a = Inr q"
  proof -
    have "dlmm_quote m mint a = Inr q" using that by (simp add: dlmm_as_market_def)
    then show ?thesis
      by (rule dlmm_quote_ok)
        (auto simp: dlmm_as_market_simps sane_quote_def dlmm_price_impact_range dest!: side_of_Some)
  qed
  show "swap_contract 8 16 (dlmm_as_market sdk m) accounts a mo ix"
    if "pm_swap_instruction (dlmm_as_market sdk m) accounts a mo = Inr ix"
    using that by (intro dlmm_swap_contract) (simp add: dlmm_as_market_def)
qed

section \<open>Loading\<close>

text \<open>A loaded market is enabled and its bins are in strictly ascending order of id.\<close>

lemma dlmm_load_ok:
  assumes "dlmm_load sdk pool acc reader = Inr m"
  shows "lbs_status (dlm_state m) = 0" and "sorted_wrt (\<lambda>x y. db_id x < db_id y) (dlm_bins m)"
    and "dlm_available_array_indices m \<noteq> []"
proof -
  have "lbs_status (dlm_state m) = 0 \<and> (\<exists>bins. dlm_bins m = dedup_by_key db_id (sort_key db_id bins))
      \<and> dlm_available_array_indices m \<noteq> []"
    using assms unfolding dlmm_load_def Let_def by (auto split: if_splits)
  then show "lbs_status (dlm_state m) = 0" and "sorted_wrt (\<lambda>x y. db_id x < db_id y) (dlm_bins m)"
    and "dlm_available_array_indices m \<noteq> []"
    by (auto intro!: dedup_sorted_strict sorted_sort_key)
qed

text \<open>The accounts of the instruction: the fixed sixteen and one to three bin arrays.\<close>

lemma dlmm_account_count:
  assumes "dlmm_swap_instruction sdk m accounts a mo = Inr ix"
  shows "17 \<le> length (ix_accounts ix)" and "length (ix_accounts ix) \<le> 19"
proof -
  obtain s where s: "bin_array_accounts sdk m s \<noteq> []"
    "length (ix_accounts ix) = 16 + length (bin_array_accounts sdk m s)"
    using assms by (auto simp: dlmm_swap_instruction_def Let_def split: if_splits)
  moreover have "length (bin_array_accounts sdk m s) \<le> 3"
    by (simp add: bin_array_accounts_def BIN_ARRAYS_PER_SWAP_def Let_def)
  moreover have "0 < length (bin_array_accounts sdk m s)" using s(1) by simp
  ultimately show "17 \<le> length (ix_accounts ix)" and "length (ix_accounts ix) \<le> 19" by linarith+
qed

section \<open>Properties\<close>

text \<open>
  C34: a DLMM quote is covered by the liquidity that was loaded: the output is at most what the
  bins from the active one on hold, and strictly below the vault's balance. A fee taken from
  the input is at most the input.
\<close>

theorem dlmm_quote_bounded:
  assumes "dlmm_quote m mint a = Inr q" and "dlmm_is_side_x m mint = Some s"
  shows "unat (vq_expected_out q) \<le> caps_ahead m s (lbs_active_id (dlm_state m))
       \<and> unat (vq_expected_out q) < unat (dlmm_output_vault m s)
       \<and> (if dlmm_fee_on_input m s then unat (vq_lp_fee q) \<le> unat a else True)"
proof (cases rule: dlmm_quote_ok [OF assms(1)])
  case (1 s' received gross fee)
  then show ?thesis using dlmm_quote_bounds [OF assms] assms(2) by simp
qed

definition sample_dlmm :: dlmm_market where
  "sample_dlmm = \<lparr>dlm_state = \<lparr>lbs_pool = sample_key ''pool'',
       lbs_parameters = \<lparr>sp_base_factor = 10000, sp_filter_period = 30, sp_decay_period = 600,
         sp_reduction_factor = 5000, sp_variable_fee_control = 0, sp_max_volatility_accumulator = 350000,
         sp_protocol_share = 500, sp_base_fee_power_factor = 0, sp_collect_fee_mode = 0\<rparr>,
       lbs_active_id = 0, lbs_bin_step = 10, lbs_status = 0,
       lbs_token_x_mint = sample_key ''token'', lbs_token_y_mint = sample_key SOL_MINT,
       lbs_reserve_x = sample_key ''vault0'', lbs_reserve_y = sample_key ''vault1'',
       lbs_oracle = sample_key ''oracle''\<rparr>,
     dlm_v_params = \<lparr>vp_volatility_accumulator = 0, vp_volatility_reference = 0,
       vp_index_reference = 0, vp_last_update_timestamp = 0\<rparr>,
     dlm_token_program_x = spl_token_id sample_sdk, dlm_token_program_y = spl_token_id sample_sdk,
     dlm_decimals_x = 6, dlm_decimals_y = 9, dlm_reserve_x_balance = 1000000,
     dlm_reserve_y_balance = 1000000, dlm_transfer_fee_x = None, dlm_transfer_fee_y = None,
     dlm_bins = [\<lparr>db_id = 0, db_amount_x = 0, db_amount_y = 500000\<rparr>],
     dlm_available_array_indices = [0], dlm_has_bitmap_extension = False\<rparr>"

lemma sample_bin_price: "get_price_from_id 0 10 = Some (2 ^ 64)"
  by (simp add: get_price_from_id_def pow_q64_def SCALE_OFFSET_def DLMM_BASIS_POINT_MAX_def checked_add_def)

lemma sample_dlmm_fields:
  "lbs_pool (dlm_state sample_dlmm) = sample_key ''pool''" "lbs_active_id (dlm_state sample_dlmm) = 0"
  "lbs_bin_step (dlm_state sample_dlmm) = 10"
  "dlm_bins sample_dlmm = [\<lparr>db_id = 0, db_amount_x = 0, db_amount_y = 500000\<rparr>]"
  "dlmm_transfer_fee sample_dlmm s = None" "dlm_reserve_y_balance sample_dlmm = 1000000"
  "dlmm_fee_on_input sample_dlmm s" "total_fee_rate sample_dlmm v = 1000000"
  "dlmm_is_side_x sample_dlmm (sample_key ''token'') = Some True"
  by (simp_all add: sample_dlmm_def dlmm_transfer_fee_def dlmm_fee_on_input_def total_fee_rate_def
      MAX_FEE_RATE_def dlmm_is_side_x_def side_of_def)

lemma sample_quote_bin:
  "quote_bin \<lparr>db_id = 0, db_amount_x = 0, db_amount_y = 500000\<rparr> (2 ^ 64) 100000 True True 1000000
     = Inr (100000, 99900, 100)"
  by (simp add: quote_bin_def bin_out_cap_def fee_from_amount_def mul_div_ceil_spec mul_div_floor_spec
      FEE_PRECISION_def ceil_nat_def try_into_u64_def fill_bin_def get_amount_in_def get_amount_out_def
      saturating_sub_def SCALE_OFFSET_def)

theorem dlmm_quote_bounded_witness:
  "\<exists>q. dlmm_quote sample_dlmm (sample_key ''token'') 100000 = Inr q \<and> unat (vq_expected_out q) \<le> 500000"
proof -
  have walk: "dlmm_walk sample_dlmm True 100000 = Inr (99900, 100, True)"
    by (simp add: dlmm_walk_def dlmm_walk_loop.simps sample_dlmm_fields walk_bin_def bin_out_cap_def
        sample_bin_price [simplified] sample_quote_bin [simplified] saturating_sub_def saturating_add_def)
  obtain q where q: "dlmm_quote sample_dlmm (sample_key ''token'') 100000 = Inr q"
    by (simp add: dlmm_quote_def sample_dlmm_fields net_of_fee_def walk Let_def)
  show ?thesis
    using dlmm_quote_bounded [OF q sample_dlmm_fields(9)] q
    by (simp add: caps_ahead_def sample_dlmm_fields bin_out_cap_def)
qed

text \<open>
  One bin trades at its own price and never in the trader's favour. The bin consumes at most
  what it is offered, pays at most what it holds, and what it pays is worth at most what it
  took after the fee.
\<close>

theorem dlmm_bin_fair:
  assumes "quote_bin b price a s foi rate = Inr (consumed, out, fee)" and "unat rate < 1000000000"
  shows "\<exists>used gross. unat consumed = used + (if foi then unat fee else 0) \<and> unat consumed \<le> unat a
     \<and> gross = unat out + (if foi then 0 else unat fee) \<and> gross \<le> unat (bin_out_cap b s)
     \<and> (if s then gross * 2 ^ 64 \<le> used * unat price else gross * unat price \<le> used * 2 ^ 64)"
  by (rule quote_bin_ok [OF assms]) (auto simp: fair_def mult.commute)

theorem dlmm_bin_fair_witness:
  "\<exists>consumed out fee. quote_bin \<lparr>db_id = 0, db_amount_x = 0, db_amount_y = 500000\<rparr> (2 ^ 64) 100000 True True 1000000
      = Inr (consumed, out, fee) \<and> unat consumed \<le> 100000"
  using dlmm_bin_fair [OF sample_quote_bin] sample_quote_bin by fastforce

text \<open>
  The price of a bin errs to one side. Below the reference bin it is at most the exact power
  of the bin ratio, and above it at most one unit in the last place too low.
\<close>

theorem dlmm_price_one_sided:
  assumes "get_price_from_id i bin_step = Some p" and "in_i32 i"
  shows "0 < unat p
    \<and> (if i \<le> 0 then real (unat p) / 2 ^ 64 \<le> (1 / bin_ratio bin_step) ^ nat \<bar>i\<bar>
       else bin_ratio bin_step ^ nat \<bar>i\<bar> \<le> (real (unat p) + 1) / 2 ^ 64)"
  using get_price_from_id_one_sided [OF assms] by simp

theorem dlmm_price_one_sided_witness:
  "\<exists>p. get_price_from_id 0 10 = Some p \<and> 0 < unat p"
  using dlmm_price_one_sided [OF sample_bin_price] sample_bin_price by (auto simp: in_i32_def)

end
