(* ===== verification/Pump_Fees.thy ===== *)
theory Pump_Fees
  imports Native_Sol
begin

text \<open>
  The fees of the pump.fun programs: the rates and the tier table of
  \<open>src/chains/solana/pools/layouts/pumpfun_amm.rs\<close>, and what both pump venues compute with them
  (\<open>pumpfun_amm.rs\<close> and \<open>pumpfun_legacy.rs\<close> under \<open>src/chains/solana/swaps/direct/venues/\<close>): the
  fee charged on an amount, and the search for the largest amount a spend can pay for together
  with its fee.

  The search is a loop over \<open>u64\<close> bounds that need not end: it is a partial function, and \<open>None\<close>
  is a search that never returns. The lemmas show that it returns the largest affordable amount
  for every spend below the largest \<open>u64\<close>, and that it does not return for that one.
\<close>

section \<open>Rates\<close>

record pump_fees =
  pfe_lp_bps :: u64
  pfe_protocol_bps :: u64
  pfe_creator_bps :: u64

definition pump_fees_default :: pump_fees where
  "pump_fees_default = \<lparr>pfe_lp_bps = 0, pfe_protocol_bps = 0, pfe_creator_bps = 0\<rparr>"

definition total_bps :: "pump_fees \<Rightarrow> bool \<Rightarrow> u64" where
  "total_bps fees charge_creator =
     (let creator = (if charge_creator then pfe_creator_bps fees else 0)
      in saturating_add (saturating_add (pfe_lp_bps fees) (pfe_protocol_bps fees)) creator)"

type_synonym fee_tier_table = "(u128 \<times> pump_fees) list"

text \<open>The loop of \<open>FeeTierTable::decode\<close>, for \<open>count\<close> tiers from \<open>offset\<close> on.\<close>

fun decode_tiers :: "bytes \<Rightarrow> nat \<Rightarrow> nat \<Rightarrow> fee_tier_table option" where
  "decode_tiers data offset 0 = Some []"
| "decode_tiers data offset (Suc count) = do {
     threshold \<leftarrow> u128_at data offset;
     lp_bps \<leftarrow> u64_at data (offset + 16);
     protocol_bps \<leftarrow> u64_at data (offset + 24);
     creator_bps \<leftarrow> u64_at data (offset + 32);
     rest \<leftarrow> decode_tiers data (offset + 40) count;
     Some ((threshold, \<lparr>pfe_lp_bps = lp_bps, pfe_protocol_bps = protocol_bps, pfe_creator_bps = creator_bps\<rparr>) # rest)
   }"

definition fee_tier_table_decode :: "bytes \<Rightarrow> fee_tier_table option" where
  "fee_tier_table_decode data = do {
     let offset = 8 + 1 + 32 + 24;
     count \<leftarrow> map_option unat (u32_at data offset);
     (if 1024 < count then None
      else do {
        tiers \<leftarrow> decode_tiers data (offset + 4) count;
        (if tiers = [] then None else Some tiers)
      })
   }"

text \<open>A decoded table is never empty, so its first tier exists.\<close>

definition most_expensive :: "fee_tier_table \<Rightarrow> pump_fees" where
  "most_expensive tiers = snd (hd tiers)"

fun fees_for_loop :: "fee_tier_table \<Rightarrow> u128 \<Rightarrow> pump_fees \<Rightarrow> pump_fees" where
  "fees_for_loop [] market_cap chosen = chosen"
| "fees_for_loop ((threshold, fees) # rest) market_cap chosen =
     (if threshold \<le> market_cap then fees_for_loop rest market_cap fees else chosen)"

definition fees_for :: "fee_tier_table \<Rightarrow> u128 \<Rightarrow> pump_fees" where
  "fees_for tiers market_cap = fees_for_loop tiers market_cap (snd (hd tiers))"

text \<open>\<open>base * quote / reserve\<close>, the key of the table.\<close>

definition market_cap_of :: "u64 \<Rightarrow> u64 \<Rightarrow> u64 \<Rightarrow> u128" where
  "market_cap_of supply quote_reserve base_reserve =
     (ucast supply * ucast quote_reserve) div ucast base_reserve"

section \<open>The fee on an amount\<close>

definition PUMP_BPS :: u64 where
  "PUMP_BPS = 10000"

definition charge :: "u64 \<Rightarrow> u64 \<Rightarrow> u128" where
  "charge amount bps = (if 0 < bps then div_ceil (ucast amount * ucast bps) (ucast PUMP_BPS) else 0)"

definition pump_fee_on :: "pump_fees \<Rightarrow> bool \<Rightarrow> u64 \<Rightarrow> u64" where
  "pump_fee_on fees charge_creator amount =
     (let total = charge amount (pfe_lp_bps fees) + charge amount (pfe_protocol_bps fees)
            + (if charge_creator then charge amount (pfe_creator_bps fees) else 0)
      in ucast (min total (ucast amount)))"

definition spend_for :: "pump_fees \<Rightarrow> bool \<Rightarrow> u64 \<Rightarrow> u128" where
  "spend_for fees charge_creator amount = ucast amount + ucast (pump_fee_on fees charge_creator amount)"

section \<open>The search\<close>

partial_function (option) spend_search ::
  "(u64 \<Rightarrow> u128) \<Rightarrow> u64 \<Rightarrow> u64 \<Rightarrow> u64 \<Rightarrow> u64 option" where
  "spend_search cost spendable low high =
     (if low < high
      then let mid = low + (high - low + 1) div 2 in
        if cost mid \<le> ucast spendable then spend_search cost spendable mid high
        else spend_search cost spendable low (mid - 1)
      else Some low)"

definition swappable_from_spend :: "pump_fees \<Rightarrow> bool \<Rightarrow> u64 \<Rightarrow> u64 option" where
  "swappable_from_spend fees charge_creator spendable =
     map_option (\<lambda>low. saturating_sub low 1)
       (spend_search (spend_for fees charge_creator) spendable 0 spendable)"

section \<open>Values\<close>

lemma unat_charge: "unat (charge a bps) = ceil_nat (unat a * unat bps) 10000"
proof (cases "bps = 0")
  case False
  have "(10000 :: u128) \<noteq> 0" by simp
  then show ?thesis
    using False by (simp add: charge_def word_neq_0_conv unat_div_ceil unat_mult_u64 PUMP_BPS_def)
qed (simp add: charge_def)

lemma charge_bound: "unat (charge a bps) < 2 ^ 115"
proof -
  have "unat a * unat bps < 2 ^ 128"
    using nat_mult_less_square [OF u64_bound u64_bound, of a bps] by simp
  then have "unat a * unat bps \<le> 2 ^ 114 * 2 ^ 14" by simp
  then have "unat a * unat bps \<le> (2 ^ 115 - 1) * 10000" by simp
  then have "ceil_nat (unat a * unat bps) 10000 \<le> 2 ^ 115 - 1" by (subst ceil_nat_le_iff) simp_all
  moreover have "(2::nat) ^ 115 - 1 < 2 ^ 115" by simp
  ultimately show ?thesis unfolding unat_charge by (rule le_less_trans)
qed

definition fee_nat :: "pump_fees \<Rightarrow> bool \<Rightarrow> nat \<Rightarrow> nat" where
  "fee_nat fees charge_creator n =
     min (ceil_nat (n * unat (pfe_lp_bps fees)) 10000 + ceil_nat (n * unat (pfe_protocol_bps fees)) 10000
        + (if charge_creator then ceil_nat (n * unat (pfe_creator_bps fees)) 10000 else 0)) n"

lemma unat_pump_fee_on: "unat (pump_fee_on fees c a) = fee_nat fees c (unat a)"
proof -
  have plus: "unat (x + y :: u128) = unat x + unat y" if "unat x + unat y < 2 ^ 128" for x y
    using that by (simp add: unat_word_ariths)
  have "unat (charge a (pfe_lp_bps fees)) + unat (charge a (pfe_protocol_bps fees)) + unat (charge a (pfe_creator_bps fees)) < 2 ^ 128"
    using charge_bound [of a "pfe_lp_bps fees"] charge_bound [of a "pfe_protocol_bps fees"]
      charge_bound [of a "pfe_creator_bps fees"] by simp
  then show ?thesis
    by (simp add: pump_fee_on_def Let_def unat_min_narrow plus unat_charge fee_nat_def)
qed

lemma fee_nat_mono: "m \<le> n \<Longrightarrow> fee_nat fees c m \<le> fee_nat fees c n"
  unfolding fee_nat_def
  by (intro min.mono add_mono ceil_nat_mono mult_le_mono1) (simp_all add: ceil_nat_mono)

lemma fee_nat_le: "fee_nat fees c n \<le> n"
  by (simp add: fee_nat_def)

lemma unat_spend_for: "unat (spend_for fees c a) = unat a + fee_nat fees c (unat a)"
  by (simp add: spend_for_def unat_add_u64 unat_pump_fee_on)

section \<open>The search returns\<close>

lemma spend_search_step:
  fixes low high :: u64
  assumes "low < high" and "unat high - unat low < 2 ^ 64 - 1"
  defines "mid \<equiv> low + (high - low + 1) div 2"
  shows "unat mid = unat low + (unat high - unat low + 1) div 2"
    and "unat low < unat mid" and "unat mid \<le> unat high" and "unat (mid - 1) = unat mid - 1"
proof -
  have lt: "unat low < unat high" using assms(1) by (simp add: word_less_nat_alt)
  have "unat (high - low + 1) = unat high - unat low + 1"
    using assms(2) lt by (simp add: unat_word_ariths(1) unat_sub word_le_nat_alt)
  then have d: "unat ((high - low + 1) div 2) = (unat high - unat low + 1) div 2" by (simp add: unat_div)
  moreover have "unat low + (unat high - unat low + 1) div 2 < 2 ^ 64"
    using lt u64_bound [of high] by simp
  ultimately show mid: "unat mid = unat low + (unat high - unat low + 1) div 2"
    unfolding mid_def by (simp add: unat_word_ariths(1))
  then show pos: "unat low < unat mid" and "unat mid \<le> unat high" using lt by simp_all
  show "unat (mid - 1) = unat mid - 1" using pos by (intro unat_minus_one) auto
qed

lemma spend_search_returns:
  assumes "unat low \<le> unat high" and "unat high - unat low < 2 ^ 64 - 1"
    and "unat (cost low) \<le> unat spendable"
    and "\<And>a b. unat a \<le> unat b \<Longrightarrow> unat (cost a) \<le> unat (cost b)"
  shows "\<exists>r. spend_search cost spendable low high = Some r \<and> unat low \<le> unat r \<and> unat r \<le> unat high
     \<and> unat (cost r) \<le> unat spendable
     \<and> (\<forall>q. unat r < unat q \<longrightarrow> unat q \<le> unat high \<longrightarrow> unat spendable < unat (cost q))"
  using assms(1-3)
proof (induction "unat high - unat low" arbitrary: low high rule: less_induct)
  case less
  show ?case
  proof (cases "low < high")
    case False
    then have "low = high" using less.prems(1) by (simp add: word_less_nat_alt word_unat_eq_iff)
    then show ?thesis using less.prems(3) by (subst spend_search.simps) simp
  next
    case True
    define mid where "mid = low + (high - low + 1) div 2"
    note step = spend_search_step [OF True less.prems(2), folded mid_def]
    show ?thesis
    proof (cases "cost mid \<le> ucast spendable")
      case yes: True
      then have "unat (cost mid) \<le> unat spendable" by (simp add: word_le_nat_alt unat_simps)
      moreover have "unat high - unat mid < unat high - unat low" using step(2,3) by linarith
      moreover have "unat high - unat mid < 2 ^ 64 - 1" using step(2) less.prems(2) by linarith
      ultimately obtain r where "spend_search cost spendable mid high = Some r" "unat mid \<le> unat r" "unat r \<le> unat high"
        "unat (cost r) \<le> unat spendable"
        "\<forall>q. unat r < unat q \<longrightarrow> unat q \<le> unat high \<longrightarrow> unat spendable < unat (cost q)"
        using less.hyps [of high mid] step(3) by blast
      then show ?thesis
        using True yes step(2) by (subst spend_search.simps) (auto simp: Let_def mid_def [symmetric])
    next
      case no: False
      then have above: "unat spendable < unat (cost mid)" by (simp add: word_le_nat_alt unat_simps)
      have "unat (mid - 1) - unat low < unat high - unat low" "unat (mid - 1) - unat low < 2 ^ 64 - 1"
        "unat low \<le> unat (mid - 1)"
        using step less.prems(2) by linarith+
      then obtain r where r: "spend_search cost spendable low (mid - 1) = Some r" "unat low \<le> unat r"
        "unat r \<le> unat (mid - 1)" "unat (cost r) \<le> unat spendable"
        "\<forall>q. unat r < unat q \<longrightarrow> unat q \<le> unat (mid - 1) \<longrightarrow> unat spendable < unat (cost q)"
        using less.hyps [of "mid - 1" low] less.prems(3) by blast
      have "unat spendable < unat (cost q)" if "unat r < unat q" for q
      proof (cases "unat q \<le> unat (mid - 1)")
        case False
        then have "unat mid \<le> unat q" using step(4) by linarith
        then show ?thesis using above assms(4) [of mid q] by linarith
      qed (use r(5) that in blast)
      moreover have "unat r \<le> unat high" using r(3) step(3,4) by linarith
      ultimately show ?thesis
        using True no r by (subst spend_search.simps) (auto simp: Let_def mid_def [symmetric])
    qed
  qed
qed

lemma swappable_value:
  assumes "unat spendable < 2 ^ 64 - 1"
  shows "\<exists>r. swappable_from_spend fees c spendable = Some (saturating_sub r 1)
     \<and> unat (spend_for fees c r) \<le> unat spendable
     \<and> (\<forall>q. unat r < unat q \<longrightarrow> unat spendable < unat (spend_for fees c q))"
proof -
  have mono: "unat (spend_for fees c a) \<le> unat (spend_for fees c b)" if "unat a \<le> unat b" for a b
    using that fee_nat_mono [OF that, of fees c] by (simp add: unat_spend_for)
  have "unat (spend_for fees c 0) \<le> unat spendable" using fee_nat_le [of fees c 0] by (simp add: unat_spend_for)
  then obtain r where r: "spend_search (spend_for fees c) spendable 0 spendable = Some r"
    "unat (spend_for fees c r) \<le> unat spendable"
    "\<forall>q. unat r < unat q \<longrightarrow> unat q \<le> unat spendable \<longrightarrow> unat spendable < unat (spend_for fees c q)"
    using spend_search_returns [of 0 spendable "spend_for fees c" spendable, OF _ _ _ mono] assms by auto
  have "unat spendable < unat (spend_for fees c q)" if "unat r < unat q" for q
    using r(3) that by (cases "unat q \<le> unat spendable") (auto simp: unat_spend_for)
  then show ?thesis using r by (auto simp: swappable_from_spend_def)
qed

text \<open>The largest affordable amount is unique, so a bracket determines the result.\<close>

lemma swappable_unique:
  assumes "unat spendable < 2 ^ 64 - 1" and "n + fee_nat fees c n \<le> unat spendable"
    and "unat spendable < Suc n + fee_nat fees c (Suc n)"
  shows "swappable_from_spend fees c spendable = Some (of_nat (n - 1))"
proof -
  obtain r where r: "swappable_from_spend fees c spendable = Some (saturating_sub r 1)"
    "unat (spend_for fees c r) \<le> unat spendable"
    "\<And>q. unat r < unat q \<Longrightarrow> unat spendable < unat (spend_for fees c q)"
    using swappable_value [OF assms(1), of fees c] by blast
  have small: "k \<le> n \<Longrightarrow> unat (of_nat k :: u64) = k" for k
    using assms(1,2) by (simp add: unat_of_nat)
  then have n: "unat (of_nat n :: u64) = n" by simp
  have "\<not> unat r < n" using r(3) [of "of_nat n"] assms(2) n by (auto simp: unat_spend_for)
  moreover have "\<not> Suc n \<le> unat r"
    using r(2) assms(3) fee_nat_mono [of "Suc n" "unat r" fees c] by (auto simp: unat_spend_for)
  ultimately have "unat r = n" by linarith
  moreover have "unat (of_nat (n - 1) :: u64) = n - 1" using small [of "n - 1"] by simp
  ultimately have "saturating_sub r 1 = of_nat (n - 1)" by (simp add: word_unat_eq_iff unat_simps)
  then show ?thesis using r(1) by simp
qed

text \<open>What a spend buys can be paid for, together with its fee.\<close>

lemma swappable_affordable:
  assumes "swappable_from_spend fees c spendable = Some x" and "spendable \<noteq> - 1"
  shows "unat x + unat (pump_fee_on fees c x) \<le> unat spendable"
proof -
  have "unat spendable \<noteq> unat (- 1 :: u64)" using assms(2) by (metis word_unat_eq_iff)
  then have "unat spendable < 2 ^ 64 - 1" using u64_bound [of spendable] by (simp add: unat_all_ones)
  then obtain r where r: "x = saturating_sub r 1" "unat (spend_for fees c r) \<le> unat spendable"
    using swappable_value [of spendable fees c] assms(1) by auto
  have "unat x \<le> unat r" by (simp add: r(1) unat_simps)
  then show ?thesis using r(2) fee_nat_mono [of "unat x" "unat r" fees c]
    by (simp add: unat_spend_for unat_pump_fee_on)
qed

text \<open>Paying out less, or for more, than the curve says keeps the product of the reserves.\<close>

lemma constant_product_dominated:
  assumes "unat out \<le> unat (constant_product_out ri ro x)" and "unat x \<le> unat a"
  shows "unat ri * unat ro \<le> (unat ri + unat a) * (unat ro - unat out)"
  using constant_product_invariant [of ri ro x] assms
    mult_le_mono [of "unat ri + unat x" "unat ri + unat a" "unat ro - unat (constant_product_out ri ro x)" "unat ro - unat out"]
  by linarith

text \<open>The first midpoint of the full range wraps to zero, so the interval never shrinks.\<close>

lemma spend_search_diverges:
  assumes "unat (cost 0) \<le> unat spendable"
  shows "spend_search cost spendable 0 (- 1) = None"
proof -
  have run: "\<not> (low = 0 \<and> high = - 1 \<and> unat (cost 0) \<le> unat spendable)"
    if "spend_search cost spendable low high = Some r" for cost spendable low high r
  proof (rule spend_search.raw_induct [OF _ that, of "\<lambda>cost spendable low high r.
      \<not> (low = 0 \<and> high = - 1 \<and> unat (cost 0) \<le> unat spendable)"])
    fix f :: "(u64 \<Rightarrow> u128) \<Rightarrow> u64 \<Rightarrow> u64 \<Rightarrow> u64 \<Rightarrow> u64 option" and cost spendable low high r
    assume IH: "\<And>cost spendable low high r. f cost spendable low high = Some r \<Longrightarrow>
        \<not> (low = 0 \<and> high = - 1 \<and> unat (cost 0) \<le> unat spendable)"
      and body: "(if low < high
        then let mid = low + (high - low + 1) div 2 in
          if cost mid \<le> ucast spendable then f cost spendable mid high else f cost spendable low (mid - 1)
        else Some low) = Some r"
    show "\<not> (low = 0 \<and> high = - 1 \<and> unat (cost 0) \<le> unat spendable)"
    proof
      assume full: "low = 0 \<and> high = - 1 \<and> unat (cost 0) \<le> unat spendable"
      have "(0 :: u64) < - 1" by (simp add: word_less_nat_alt unat_all_ones)
      then have "f cost spendable 0 (- 1) = Some r"
        using body full by (simp add: Let_def word_le_nat_alt unat_simps)
      then show False using IH full by blast
    qed
  qed
  show ?thesis using run [of cost spendable 0 "- 1"] assms by (cases "spend_search cost spendable 0 (- 1)") auto
qed

section \<open>Properties\<close>



text \<open>
  For a spend of the largest \<open>u64\<close> the search does not end: the length of the interval wraps
  to zero, the middle is its lower end, and the bounds stay where they are.
\<close>

theorem spend_search_hangs: "swappable_from_spend fees c (- 1) = None"
  using spend_search_diverges [of "spend_for fees c" "- 1"] fee_nat_le [of fees c 0]
  by (simp add: swappable_from_spend_def unat_spend_for)

end
