(* ===== verification/Pumpfun_Amm.thy ===== *)
theory Pumpfun_Amm
  imports Pump_Fees
begin

text \<open>
  The pump-swap venue: the layouts of \<open>src/chains/solana/pools/layouts/pumpfun_amm.rs\<close> and the
  market of \<open>src/chains/solana/swaps/direct/venues/pumpfun_amm.rs\<close>. Fees are charged on the
  quote side: off the output of a sell, on top of the swapped amount of a buy. A buy whose search
  never ends (\<open>Pump_Fees\<close>) has the value \<open>Panic\<close>.
\<close>

section \<open>Layouts\<close>

record pump_global_config =
  pgc_lp_fee_bps :: u64
  pgc_protocol_fee_bps :: u64
  pgc_creator_fee_bps :: u64
  pgc_disable_flags :: u8
  pgc_fee_recipients :: "pubkey list"
  pgc_buyback_fee_recipients :: "pubkey list"

text \<open>\<open>count\<close> consecutive keys, or nothing: the loops that fill the recipient arrays.\<close>

fun read_keys :: "bytes \<Rightarrow> nat \<Rightarrow> nat \<Rightarrow> pubkey list option" where
  "read_keys data offset 0 = Some []"
| "read_keys data offset (Suc count) = do {
     key \<leftarrow> pubkey_at data offset;
     rest \<leftarrow> read_keys data (offset + 32) count;
     Some (key # rest)
   }"

definition pump_global_decode :: "bytes \<Rightarrow> pump_global_config option" where
  "pump_global_decode data = do {
     fee_recipients \<leftarrow> read_keys data 57 8;
     buyback_fee_recipients \<leftarrow> read_keys data 643 8;
     lp_fee_bps \<leftarrow> u64_at data 40;
     protocol_fee_bps \<leftarrow> u64_at data 48;
     creator_fee_bps \<leftarrow> u64_at data 313;
     disable_flags \<leftarrow> u8_at data 56;
     Some \<lparr>pgc_lp_fee_bps = lp_fee_bps, pgc_protocol_fee_bps = protocol_fee_bps,
       pgc_creator_fee_bps = creator_fee_bps, pgc_disable_flags = disable_flags,
       pgc_fee_recipients = fee_recipients, pgc_buyback_fee_recipients = buyback_fee_recipients\<rparr>
   }"

definition swaps_disabled :: "pump_global_config \<Rightarrow> bool" where
  "swaps_disabled global \<longleftrightarrow> pgc_disable_flags global \<noteq> 0"

definition first_set_key :: "pubkey list \<Rightarrow> pubkey option" where
  "first_set_key keys = find (\<lambda>key. key \<noteq> default_pubkey) keys"

definition first_fee_recipient :: "pump_global_config \<Rightarrow> pubkey option" where
  "first_fee_recipient global = first_set_key (pgc_fee_recipients global)"

definition first_buyback_recipient :: "pump_global_config \<Rightarrow> pubkey option" where
  "first_buyback_recipient global = first_set_key (pgc_buyback_fee_recipients global)"

definition flat_fees_of :: "pump_global_config \<Rightarrow> pump_fees" where
  "flat_fees_of global =
     \<lparr>pfe_lp_bps = pgc_lp_fee_bps global, pfe_protocol_bps = pgc_protocol_fee_bps global,
      pfe_creator_bps = pgc_creator_fee_bps global\<rparr>"

record pump_amm_pool_state =
  pas_pool :: pubkey
  pas_base_mint :: pubkey
  pas_quote_mint :: pubkey
  pas_base_token_account :: pubkey
  pas_quote_token_account :: pubkey
  pas_coin_creator :: pubkey
  pas_is_cashback_coin :: bool
  pas_virtual_quote_reserves :: i128

definition pump_amm_decode :: "pubkey \<Rightarrow> bytes \<Rightarrow> pump_amm_pool_state option" where
  "pump_amm_decode pool data = do {
     base_mint \<leftarrow> pubkey_at data 43;
     quote_mint \<leftarrow> pubkey_at data 75;
     base_token_account \<leftarrow> pubkey_at data 139;
     quote_token_account \<leftarrow> pubkey_at data 171;
     coin_creator \<leftarrow> pubkey_at data 211;
     is_cashback_coin \<leftarrow> u8_at data 244;
     virtual_quote_reserves \<leftarrow> i128_at data 245;
     Some \<lparr>pas_pool = pool, pas_base_mint = base_mint, pas_quote_mint = quote_mint,
       pas_base_token_account = base_token_account, pas_quote_token_account = quote_token_account,
       pas_coin_creator = coin_creator, pas_is_cashback_coin = is_cashback_coin \<noteq> 0,
       pas_virtual_quote_reserves = virtual_quote_reserves\<rparr>
   }"

section \<open>Addresses\<close>

definition BUY_EXACT_QUOTE_IN :: bytes where
  "BUY_EXACT_QUOTE_IN = [0xc6, 0x2e, 0x15, 0x52, 0xb4, 0xd9, 0xe8, 0x70]"

definition PUMP_SELL :: bytes where
  "PUMP_SELL = [0x33, 0xe6, 0x85, 0xa4, 0x01, 0x7f, 0x83, 0xad]"

definition FEE_PROGRAM_ID :: string where
  "FEE_PROGRAM_ID = ''pfeeUxB6jkeY1Hxd7CsFCAjcbHA9rWtchMGdZ6VojVZ''"

definition PUMP_AMM_COMPUTE_UNITS :: u32 where
  "PUMP_AMM_COMPUTE_UNITS = 160000"

definition pump_amm_program_id :: "sdk \<Rightarrow> pubkey" where
  "pump_amm_program_id sdk = pubkey_from_str sdk (program_id_str PumpFunAmm)"

definition fee_program_id :: "sdk \<Rightarrow> pubkey" where
  "fee_program_id sdk = pubkey_from_str sdk FEE_PROGRAM_ID"

definition pump_amm_pda :: "sdk \<Rightarrow> bytes list \<Rightarrow> pubkey" where
  "pump_amm_pda sdk seeds = find_program_address sdk seeds (pump_amm_program_id sdk)"

definition global_config_address :: "sdk \<Rightarrow> pubkey" where
  "global_config_address sdk = pump_amm_pda sdk [map of_char ''global_config'']"

definition event_authority_address :: "sdk \<Rightarrow> pubkey" where
  "event_authority_address sdk = pump_amm_pda sdk [map of_char ''__event_authority'']"

definition global_volume_address :: "sdk \<Rightarrow> pubkey" where
  "global_volume_address sdk = pump_amm_pda sdk [map of_char ''global_volume_accumulator'']"

definition user_volume_address :: "sdk \<Rightarrow> pubkey \<Rightarrow> pubkey" where
  "user_volume_address sdk user = pump_amm_pda sdk [map of_char ''user_volume_accumulator'', user]"

definition fee_config_address :: "sdk \<Rightarrow> pubkey" where
  "fee_config_address sdk =
     find_program_address sdk [map of_char ''fee_config'', pump_amm_program_id sdk] (fee_program_id sdk)"

section \<open>The market\<close>

record pump_amm_market =
  pam_state :: pump_amm_pool_state
  pam_protocol_fee_recipient :: pubkey
  pam_buyback_fee_recipient :: pubkey
  pam_tiers :: "fee_tier_table option"
  pam_flat_fees :: pump_fees
  pam_base_token_program :: pubkey
  pam_quote_token_program :: pubkey
  pam_base_decimals :: u8
  pam_quote_decimals :: u8
  pam_base_supply :: u64
  pam_base_reserve :: u64
  pam_quote_reserve :: u64
  pam_transfer_fee_base :: "transfer_fee_schedule option"
  pam_transfer_fee_quote :: "transfer_fee_schedule option"

definition mint_supply :: "bytes \<Rightarrow> u64 option" where
  "mint_supply data = u64_at data 36"

definition pump_amm_load ::
  "sdk \<Rightarrow> pubkey \<Rightarrow> account \<Rightarrow> account_reader \<Rightarrow> pump_amm_market direct_swap_result" where
  "pump_amm_load sdk pool pool_account reader =
     and_then (ok_or (pump_amm_decode pool (acc_data pool_account))
       (PoolUndecodable pool ''pump-swap pool state did not match the expected layout ({} bytes)'')) (\<lambda>state.
     if pas_is_cashback_coin state
     then Inl (PoolNotTradable pool ''a cashback pool expects an extra trailing account this venue does not build; route it through an aggregator instead'')
     else
       let addresses = [global_config_address sdk, fee_config_address sdk, pas_base_token_account state,
             pas_quote_token_account state, pas_base_mint state, pas_quote_mint state] in
       and_then (reader addresses) (\<lambda>accounts.
       let fetched = required addresses accounts ''account does not exist'' in
       and_then (fetched 0) (\<lambda>global_account.
       and_then (ok_or (pump_global_decode (acc_data global_account))
         (PoolUndecodable pool ''pump-swap GlobalConfig did not match the expected layout'')) (\<lambda>global.
       if swaps_disabled global
       then Inl (PoolNotTradable pool ''global disable_flags {} block swapping'')
       else
         and_then (ok_or (first_fee_recipient global)
           (PoolNotTradable pool ''pump-swap global config lists no protocol fee recipient'')) (\<lambda>protocol_fee_recipient.
         let tiers = (if 1 < length accounts
               then Option.bind (accounts ! 1) (\<lambda>account. fee_tier_table_decode (acc_data account)) else None) in
         and_then (fetched 2) (\<lambda>base_account.
         and_then (ok_or (token_account_amount (acc_data base_account))
           (PoolUndecodable pool ''the pool's base token account is not a token account'')) (\<lambda>base_reserve.
         and_then (fetched 3) (\<lambda>quote_account.
         and_then (ok_or (token_account_amount (acc_data quote_account))
           (PoolUndecodable pool ''the pool's quote token account is not a token account'')) (\<lambda>quote_reserve.
         and_then (fetched 4) (\<lambda>base_mint_account.
         and_then (fetched 5) (\<lambda>quote_mint_account.
         and_then (ok_or (mint_supply (acc_data base_mint_account))
           (PoolUndecodable pool ''the base mint is not a mint account'')) (\<lambda>base_supply.
         and_then (ok_or (first_buyback_recipient global)
           (PoolNotTradable pool ''pump-swap global config lists no buyback fee recipient'')) (\<lambda>buyback_fee_recipient.
         and_then (ok_or (mint_decimals (acc_data base_mint_account))
           (PoolUndecodable pool ''base mint {} carries no readable decimals'')) (\<lambda>base_decimals.
         and_then (ok_or (mint_decimals (acc_data quote_mint_account))
           (PoolUndecodable pool ''quote mint {} carries no readable decimals'')) (\<lambda>quote_decimals.
         Inr \<lparr>pam_state = state, pam_protocol_fee_recipient = protocol_fee_recipient,
              pam_buyback_fee_recipient = buyback_fee_recipient, pam_tiers = tiers,
              pam_flat_fees = flat_fees_of global,
              pam_base_token_program = acc_owner base_mint_account,
              pam_quote_token_program = acc_owner quote_mint_account,
              pam_base_decimals = base_decimals, pam_quote_decimals = quote_decimals,
              pam_base_supply = base_supply, pam_base_reserve = base_reserve,
              pam_quote_reserve = quote_reserve,
              pam_transfer_fee_base = transfer_fee_schedule_of sdk base_mint_account,
              pam_transfer_fee_quote = transfer_fee_schedule_of sdk quote_mint_account\<rparr>)))))))))))))))"

definition pump_amm_is_base :: "pump_amm_market \<Rightarrow> pubkey \<Rightarrow> bool option" where
  "pump_amm_is_base m mint = side_of (pas_base_mint (pam_state m)) (pas_quote_mint (pam_state m)) mint"

definition pump_amm_market_cap :: "pump_amm_market \<Rightarrow> u128 option" where
  "pump_amm_market_cap m =
     (if pam_base_reserve m = 0 \<or> pam_base_supply m = 0 then None
      else Some (market_cap_of (pam_base_supply m) (pam_quote_reserve m) (pam_base_reserve m)))"

definition charges_creator_fee :: "pump_amm_market \<Rightarrow> bool" where
  "charges_creator_fee m \<longleftrightarrow> pas_coin_creator (pam_state m) \<noteq> default_pubkey"

definition pump_amm_fees :: "pump_amm_market \<Rightarrow> pump_fees" where
  "pump_amm_fees m =
     (if \<not> charges_creator_fee m then pam_flat_fees m
      else case (pam_tiers m, pump_amm_market_cap m) of
          (Some table, Some cap) \<Rightarrow> fees_for table cap
        | (Some table, None) \<Rightarrow> most_expensive table
        | (None, _) \<Rightarrow> pam_flat_fees m)"

definition total_fee_bps :: "pump_amm_market \<Rightarrow> u64" where
  "total_fee_bps m = total_bps (pump_amm_fees m) (charges_creator_fee m)"

definition quote_fee_on :: "pump_amm_market \<Rightarrow> u64 \<Rightarrow> u64" where
  "quote_fee_on m quote_amount = pump_fee_on (pump_amm_fees m) (charges_creator_fee m) quote_amount"

definition effective_quote_reserve :: "pump_amm_market \<Rightarrow> u64 direct_swap_result" where
  "effective_quote_reserve m =
     (let effective = int (unat (pam_quote_reserve m)) + pas_virtual_quote_reserves (pam_state m) in
      if in_i128 effective \<and> 0 < effective \<and> effective < 2 ^ 64 then Inr (of_int effective)
      else Inl (QuoteMath ''the effective quote reserve (vault {} + virtual {}) is outside the priceable range''))"

text \<open>The two branches of \<open>quote\<close>: the output, and the fee in input units.\<close>

definition pump_amm_sell :: "pump_amm_market \<Rightarrow> u64 \<Rightarrow> u64 \<Rightarrow> u64 \<times> u64" where
  "pump_amm_sell m effective_quote amount_in =
     (let received = net_of_fee (pam_transfer_fee_base m) amount_in;
          gross = min (constant_product_out (pam_base_reserve m) effective_quote received) (pam_quote_reserve m);
          fee = quote_fee_on m gross;
          net = saturating_sub gross fee
      in (net_of_fee (pam_transfer_fee_quote m) net, fee_in_input fee received gross))"

definition pump_amm_buy :: "pump_amm_market \<Rightarrow> u64 \<Rightarrow> u64 \<Rightarrow> (u64 \<times> u64) direct_swap_result" where
  "pump_amm_buy m effective_quote amount_in =
     (let received = net_of_fee (pam_transfer_fee_quote m) amount_in in
      and_then (ok_or (swappable_from_spend (pump_amm_fees m) (charges_creator_fee m) received)
        (Panic ''the search does not end'')) (\<lambda>swapped.
      let fee = saturating_sub received swapped;
          gross = constant_product_out effective_quote (pam_base_reserve m) swapped
      in Inr (net_of_fee (pam_transfer_fee_base m) gross, fee)))"

definition pump_amm_quote :: "pump_amm_market \<Rightarrow> pubkey \<Rightarrow> u64 \<Rightarrow> venue_quote direct_swap_result" where
  "pump_amm_quote m input_mint amount_in =
     and_then (ok_or (pump_amm_is_base m input_mint)
       (PairNotInPool (pas_pool (pam_state m)) input_mint default_pubkey)) (\<lambda>input_is_base.
     if pam_base_reserve m = 0 \<or> pam_quote_reserve m = 0
     then Inl (InsufficientLiquidity (pas_pool (pam_state m)) amount_in ''a side of the pool is empty'')
     else
       and_then (effective_quote_reserve m) (\<lambda>effective_quote.
       and_then (if input_is_base then Inr (pump_amm_sell m effective_quote amount_in)
                 else pump_amm_buy m effective_quote amount_in) (\<lambda>(expected_out, lp_fee).
       if expected_out = 0
       then Inl (InsufficientLiquidity (pas_pool (pam_state m)) amount_in ''the pool returns nothing at this size'')
       else
         let output_reserve = (if input_is_base then pam_quote_reserve m else pam_base_reserve m) in
         if output_reserve \<le> expected_out
         then Inl (InsufficientLiquidity (pas_pool (pam_state m)) amount_in ''the output exceeds what the pool holds'')
         else
           let (reserve_in, reserve_out) =
                 (if input_is_base then (pam_base_reserve m, effective_quote) else (effective_quote, pam_base_reserve m))
           in Inr \<lparr>vq_amount_in = amount_in, vq_expected_out = expected_out, vq_lp_fee = lp_fee,
                vq_price_impact_pct = price_impact_pct reserve_in reserve_out amount_in lp_fee expected_out\<rparr>)))"

definition pump_amm_token_program :: "pump_amm_market \<Rightarrow> pubkey \<Rightarrow> pubkey option" where
  "pump_amm_token_program m mint =
     map_option (\<lambda>base. if base then pam_base_token_program m else pam_quote_token_program m) (pump_amm_is_base m mint)"

definition pump_amm_decimals :: "pump_amm_market \<Rightarrow> pubkey \<Rightarrow> u8 option" where
  "pump_amm_decimals m mint =
     map_option (\<lambda>base. if base then pam_base_decimals m else pam_quote_decimals m) (pump_amm_is_base m mint)"

definition coin_creator_vault_authority :: "sdk \<Rightarrow> pump_amm_market \<Rightarrow> pubkey" where
  "coin_creator_vault_authority sdk m =
     pump_amm_pda sdk [map of_char ''creator_vault'', pas_coin_creator (pam_state m)]"

text \<open>The associated account of the quote mint that a fee of \<open>owner\<close> is paid into.\<close>

definition quote_token_account_of :: "sdk \<Rightarrow> pump_amm_market \<Rightarrow> pubkey \<Rightarrow> pubkey" where
  "quote_token_account_of sdk m owner =
     associated_token_address sdk owner (pas_quote_mint (pam_state m)) (pam_quote_token_program m)"

definition pool_v2 :: "sdk \<Rightarrow> pump_amm_market \<Rightarrow> pubkey" where
  "pool_v2 sdk m = pump_amm_pda sdk [map of_char ''pool-v2'', pas_base_mint (pam_state m)]"

definition common_accounts :: "sdk \<Rightarrow> pump_amm_market \<Rightarrow> swap_accounts \<Rightarrow> bool \<Rightarrow> account_meta list" where
  "common_accounts sdk m accounts input_is_base =
     (let state = pam_state m;
          (user_base, user_quote) =
            (if input_is_base then (sa_input_token_account accounts, sa_output_token_account accounts)
             else (sa_output_token_account accounts, sa_input_token_account accounts)) in
      [meta_new (pas_pool state) False,
       meta_new (sa_owner accounts) True,
       meta_new_readonly (global_config_address sdk) False,
       meta_new_readonly (pas_base_mint state) False,
       meta_new_readonly (pas_quote_mint state) False,
       meta_new user_base False,
       meta_new user_quote False,
       meta_new (pas_base_token_account state) False,
       meta_new (pas_quote_token_account state) False,
       meta_new_readonly (pam_protocol_fee_recipient m) False,
       meta_new (quote_token_account_of sdk m (pam_protocol_fee_recipient m)) False,
       meta_new_readonly (pam_base_token_program m) False,
       meta_new_readonly (pam_quote_token_program m) False,
       meta_new_readonly (system_program_id sdk) False,
       meta_new_readonly (associated_token_program_id sdk) False,
       meta_new_readonly (event_authority_address sdk) False,
       meta_new_readonly (pump_amm_program_id sdk) False,
       meta_new (quote_token_account_of sdk m (coin_creator_vault_authority sdk m)) False,
       meta_new_readonly (coin_creator_vault_authority sdk m) False])"

definition pump_amm_swap_instruction ::
  "sdk \<Rightarrow> pump_amm_market \<Rightarrow> swap_accounts \<Rightarrow> u64 \<Rightarrow> u64 \<Rightarrow> instruction direct_swap_result" where
  "pump_amm_swap_instruction sdk m accounts amount_in min_out =
     and_then (oriented_pair (pas_pool (pam_state m)) (pump_amm_is_base m) accounts) (\<lambda>input_is_base.
     let metas = common_accounts sdk m accounts input_is_base;
         (disc, tail_data, volume_metas) =
           (if input_is_base then (PUMP_SELL, [], [])
            else (BUY_EXACT_QUOTE_IN, [0],
                  [meta_new_readonly (global_volume_address sdk) False,
                   meta_new (user_volume_address sdk (sa_owner accounts)) False]))
     in Inr \<lparr>ix_program_id = pump_amm_program_id sdk,
          ix_accounts = metas @ volume_metas
            @ [meta_new_readonly (fee_config_address sdk) False, meta_new_readonly (fee_program_id sdk) False]
            @ (if charges_creator_fee m then [meta_new (pool_v2 sdk m) False] else [])
            @ [meta_new (pam_buyback_fee_recipient m) False,
               meta_new (quote_token_account_of sdk m (pam_buyback_fee_recipient m)) False],
          ix_data = disc @ u64_to_le_bytes amount_in @ u64_to_le_bytes min_out @ tail_data\<rparr>)"

definition pump_amm_as_market :: "sdk \<Rightarrow> pump_amm_market \<Rightarrow> pool_market" where
  "pump_amm_as_market sdk m =
     \<lparr>pm_program = PumpFunAmm, pm_pool = pas_pool (pam_state m),
      pm_mints = (pas_base_mint (pam_state m), pas_quote_mint (pam_state m)),
      pm_token_program = pump_amm_token_program m, pm_decimals = pump_amm_decimals m,
      pm_quote = pump_amm_quote m, pm_swap_instruction = pump_amm_swap_instruction sdk m,
      pm_compute_units = PUMP_AMM_COMPUTE_UNITS, pm_settles_native_sol = False\<rparr>"

section \<open>Decoding\<close>

lemma pump_amm_decode_None: "pump_amm_decode pool data = None \<longleftrightarrow> length data < 261"
  unfolding pump_amm_decode_def by (auto simp: read_at)

section \<open>Quotes\<close>

lemma word_of_int_u64_eq:
  fixes e :: u64
  assumes "0 \<le> k" and "k < 2 ^ 64"
  shows "word_of_int k = e \<longleftrightarrow> int (unat e) = k"
proof -
  have "uint (word_of_int k :: u64) = k" using assms by (simp add: uint_word_of_int_eq take_bit_eq_mod)
  then show ?thesis by auto
qed

lemma effective_quote_ok:
  "effective_quote_reserve m = Inr e \<longleftrightarrow>
     0 < unat e \<and> int (unat e) = int (unat (pam_quote_reserve m)) + pas_virtual_quote_reserves (pam_state m)"
proof -
  define x where "x = int (unat (pam_quote_reserve m)) + pas_virtual_quote_reserves (pam_state m)"
  have e: "int (unat e) < 18446744073709551616" using u64_bound [of e] by linarith
  have range: "int n < 18446744073709551616 \<Longrightarrow>
      in_i128 x \<and> 0 < x \<and> x < 2 ^ 64 \<and> int n = x \<longleftrightarrow> 0 < n \<and> int n = x" for n
    by (auto simp: in_i128_def)
  have "effective_quote_reserve m = Inr e \<longleftrightarrow> in_i128 x \<and> 0 < x \<and> x < 2 ^ 64 \<and> word_of_int x = e"
    unfolding effective_quote_reserve_def Let_def x_def [symmetric] by (auto split: if_splits)
  also have "\<dots> \<longleftrightarrow> in_i128 x \<and> 0 < x \<and> x < 2 ^ 64 \<and> int (unat e) = x"
    using word_of_int_u64_eq [of x e] by auto
  also have "\<dots> \<longleftrightarrow> 0 < unat e \<and> int (unat e) = x" using range e by blast
  finally show ?thesis by (simp only: x_def)
qed

lemma quote_fee_on_le: "unat (quote_fee_on m a) \<le> unat a"
  by (simp add: quote_fee_on_def unat_pump_fee_on fee_nat_le)

lemma pump_amm_quote_ok:
  assumes "pump_amm_quote m mint a = Inr q"
  obtains s e where "pump_amm_is_base m mint = Some s" and "effective_quote_reserve m = Inr e"
    and "(if s then Inr (pump_amm_sell m e a) else pump_amm_buy m e a) = Inr (vq_expected_out q, vq_lp_fee q)"
    and "0 < unat (vq_expected_out q)" and "vq_expected_out q < (if s then pam_quote_reserve m else pam_base_reserve m)"
    and "vq_amount_in q = a" and "0 \<le> vq_price_impact_pct q" and "vq_price_impact_pct q \<le> 100"
proof -
  obtain s where s: "pump_amm_is_base m mint = Some s" using assms by (auto simp: pump_amm_quote_def)
  obtain e where e: "effective_quote_reserve m = Inr e"
    using assms s by (auto simp: pump_amm_quote_def split: if_splits)
  obtain out fee where r: "(if s then Inr (pump_amm_sell m e a) else pump_amm_buy m e a) = Inr (out, fee)"
    using assms s e by (auto simp: pump_amm_quote_def split: if_splits)
  show ?thesis
    by (rule that [of s e])
      (use assms s e r price_impact_pct_range in \<open>auto simp: pump_amm_quote_def Let_def unat_gt_0 not_le split: if_splits\<close>)
qed

lemma pump_amm_buy_ok:
  assumes "pump_amm_buy m e a = Inr (out, fee)"
  obtains r where "swappable_from_spend (pump_amm_fees m) (charges_creator_fee m) (net_of_fee (pam_transfer_fee_quote m) a)
        = Some r"
    and "out = net_of_fee (pam_transfer_fee_base m) (constant_product_out e (pam_base_reserve m) r)"
    and "fee = saturating_sub (net_of_fee (pam_transfer_fee_quote m) a) r"
  using assms by (auto simp: pump_amm_buy_def Let_def)

lemma pump_amm_sell_le:
  "unat (fst (pump_amm_sell m e a))
     \<le> unat (constant_product_out (pam_base_reserve m) e (net_of_fee (pam_transfer_fee_base m) a))"
  unfolding pump_amm_sell_def Let_def fst_conv by (rule le_trans [OF net_of_fee_le]) (simp add: unat_simps)

lemma pump_amm_quote_fee_le:
  assumes "pump_amm_quote m mint a = Inr q"
  shows "unat (vq_lp_fee q) \<le> unat a"
proof (cases rule: pump_amm_quote_ok [OF assms])
  case (1 s e)
  show ?thesis
  proof (cases s)
    case True
    then have "vq_lp_fee q = snd (pump_amm_sell m e a)" using 1 by (cases "pump_amm_sell m e a") simp
    then have "unat (vq_lp_fee q) \<le> unat (net_of_fee (pam_transfer_fee_base m) a)"
      using fee_in_input_le [OF quote_fee_on_le] by (simp only: pump_amm_sell_def Let_def snd_conv)
    also have "\<dots> \<le> unat a" by (rule net_of_fee_le)
    finally show ?thesis .
  next
    case False
    then have "pump_amm_buy m e a = Inr (vq_expected_out q, vq_lp_fee q)" using 1 by simp
    then show ?thesis
      by (rule pump_amm_buy_ok) (use net_of_fee_le [of "pam_transfer_fee_quote m" a] in \<open>simp add: unat_simps\<close>)
  qed
qed

section \<open>The contract\<close>

lemma pump_amm_side: "pump_amm_is_base m = side_of (pas_base_mint (pam_state m)) (pas_quote_mint (pam_state m))"
  by (rule ext) (simp add: pump_amm_is_base_def)

lemmas pump_amm_as_market_simps = pump_amm_as_market_def holds_def pump_amm_side

lemma pump_amm_swap_contract:
  assumes "pump_amm_swap_instruction sdk m accounts a mo = Inr ix"
  shows "swap_contract 8 16 (pump_amm_as_market sdk m) accounts a mo ix"
proof -
  obtain s where s: "oriented_pair (pas_pool (pam_state m)) (pump_amm_is_base m) accounts = Inr s"
    using assms by (auto simp: pump_amm_swap_instruction_def)
  have pair: "trades (pump_amm_as_market sdk m) (sa_input_mint accounts) (sa_output_mint accounts)"
    using s unfolding pump_amm_side by (rule oriented_pair_trades) (simp add: pump_amm_as_market_def)
  have len: "length PUMP_SELL = 8" "length BUY_EXACT_QUOTE_IN = 8" by (simp_all add: PUMP_SELL_def BUY_EXACT_QUOTE_IN_def)
  show ?thesis
    unfolding swap_contract_def
    using assms s pair swap_data_read [OF len(1), of a mo "[]"] swap_data_read [OF len(2), of a mo "[0]"]
    by (cases s) (auto simp: pump_amm_swap_instruction_def common_accounts_def Let_def meta_new_def meta_new_readonly_def
        list_all_iff pump_amm_as_market_def)
qed

text \<open>The optional account sits in front of the buyback pair exactly for pools with a creator.\<close>

lemma pump_amm_account_count:
  assumes "pump_amm_swap_instruction sdk m accounts a mo = Inr ix" and "pump_amm_is_base m (sa_input_mint accounts) = Some s"
  shows "length (ix_accounts ix) = 23 + (if s then 0 else 2) + (if charges_creator_fee m then 1 else 0)"
proof -
  have "oriented_pair (pas_pool (pam_state m)) (pump_amm_is_base m) accounts = Inr s"
    using assms by (auto simp: pump_amm_swap_instruction_def oriented_pair_def Let_def split: if_splits)
  then show ?thesis
    using assms(1) by (cases s) (auto simp: pump_amm_swap_instruction_def common_accounts_def Let_def)
qed

interpretation pump_amm: market "pump_amm_as_market sdk" "\<lambda>_ _. 8" "\<lambda>_ _. 16"
proof
  fix m :: pump_amm_market and mint a q accounts mo ix
  show "pm_token_program (pump_amm_as_market sdk m) mint \<noteq> None \<longleftrightarrow> holds (pump_amm_as_market sdk m) mint"
    by (simp add: pump_amm_as_market_simps pump_amm_token_program_def)
  show "pm_decimals (pump_amm_as_market sdk m) mint \<noteq> None \<longleftrightarrow> holds (pump_amm_as_market sdk m) mint"
    by (simp add: pump_amm_as_market_simps pump_amm_decimals_def)
  show "holds (pump_amm_as_market sdk m) mint \<and> sane_quote a q"
    if "pm_quote (pump_amm_as_market sdk m) mint a = Inr q"
  proof -
    have "pump_amm_quote m mint a = Inr q" using that by (simp add: pump_amm_as_market_def)
    then show ?thesis
      by (rule pump_amm_quote_ok) (auto simp: pump_amm_as_market_simps sane_quote_def dest!: side_of_Some)
  qed
  show "swap_contract 8 16 (pump_amm_as_market sdk m) accounts a mo ix"
    if "pm_swap_instruction (pump_amm_as_market sdk m) accounts a mo = Inr ix"
    using that by (intro pump_amm_swap_contract) (simp add: pump_amm_as_market_def)
qed

section \<open>Properties\<close>


definition sample_pump_amm :: pump_amm_market where
  "sample_pump_amm = \<lparr>pam_state = \<lparr>pas_pool = sample_key ''pool'', pas_base_mint = sample_key ''token'',
       pas_quote_mint = sample_key SOL_MINT, pas_base_token_account = sample_key ''vault0'',
       pas_quote_token_account = sample_key ''vault1'', pas_coin_creator = default_pubkey,
       pas_is_cashback_coin = False, pas_virtual_quote_reserves = 1000000000\<rparr>,
     pam_protocol_fee_recipient = sample_key ''protocol'', pam_buyback_fee_recipient = sample_key ''buyback'',
     pam_tiers = None, pam_flat_fees = \<lparr>pfe_lp_bps = 20, pfe_protocol_bps = 5, pfe_creator_bps = 0\<rparr>,
     pam_base_token_program = spl_token_id sample_sdk, pam_quote_token_program = spl_token_id sample_sdk,
     pam_base_decimals = 6, pam_quote_decimals = 9, pam_base_supply = 1000000000000000,
     pam_base_reserve = 200000000000000, pam_quote_reserve = 80000000000,
     pam_transfer_fee_base = None, pam_transfer_fee_quote = None\<rparr>"

lemma sample_pump_amm_effective: "effective_quote_reserve sample_pump_amm = Inr 81000000000"
  by (simp add: effective_quote_ok sample_pump_amm_def)


end
