(* ===== verification/Pumpfun_Legacy.thy ===== *)
theory Pumpfun_Legacy
  imports Pumpfun_Amm
begin

text \<open>
  The pump.fun bonding curve: the layouts of \<open>src/chains/solana/pools/layouts/pumpfun_legacy.rs\<close>
  and the market of \<open>src/chains/solana/swaps/direct/venues/pumpfun_legacy.rs\<close>. It trades a token
  against native SOL on virtual reserves, with the fees and the search of \<open>Pump_Fees\<close>. The curve
  account does not name its mint: it is recovered from the token accounts the curve owns, which
  the reader lists; parsing a key from text may fail and is a parameter.
\<close>

section \<open>Layouts\<close>

definition BONDING_CURVE_DISCRIMINATOR :: bytes where
  "BONDING_CURVE_DISCRIMINATOR = [0x17, 0xb7, 0xf8, 0x37, 0x60, 0xd8, 0xac, 0x60]"

record bonding_curve =
  bcu_pool :: pubkey
  bcu_mint :: pubkey
  bcu_virtual_token_reserves :: u64
  bcu_virtual_sol_reserves :: u64
  bcu_real_token_reserves :: u64
  bcu_real_sol_reserves :: u64
  bcu_token_total_supply :: u64
  bcu_complete :: bool
  bcu_creator :: pubkey
  bcu_is_mayhem_mode :: bool
  bcu_is_cashback_coin :: bool
  bcu_quote_mint :: pubkey

definition bonding_curve_decode :: "pubkey \<Rightarrow> bytes \<Rightarrow> bonding_curve option" where
  "bonding_curve_decode pool data =
     (if length data < 115 \<or> take 8 data \<noteq> BONDING_CURVE_DISCRIMINATOR then None
      else do {
        virtual_token_reserves \<leftarrow> u64_at data 8;
        virtual_sol_reserves \<leftarrow> u64_at data 16;
        real_token_reserves \<leftarrow> u64_at data 24;
        real_sol_reserves \<leftarrow> u64_at data 32;
        token_total_supply \<leftarrow> u64_at data 40;
        complete \<leftarrow> u8_at data 48;
        creator \<leftarrow> pubkey_at data 49;
        is_mayhem_mode \<leftarrow> u8_at data 81;
        is_cashback_coin \<leftarrow> u8_at data 82;
        quote_mint \<leftarrow> pubkey_at data 83;
        Some \<lparr>bcu_pool = pool, bcu_mint = default_pubkey,
          bcu_virtual_token_reserves = virtual_token_reserves, bcu_virtual_sol_reserves = virtual_sol_reserves,
          bcu_real_token_reserves = real_token_reserves, bcu_real_sol_reserves = real_sol_reserves,
          bcu_token_total_supply = token_total_supply, bcu_complete = complete \<noteq> 0, bcu_creator = creator,
          bcu_is_mayhem_mode = is_mayhem_mode \<noteq> 0, bcu_is_cashback_coin = is_cashback_coin \<noteq> 0,
          bcu_quote_mint = quote_mint\<rparr>
      })"

definition creator_set :: "bonding_curve \<Rightarrow> bool" where
  "creator_set curve \<longleftrightarrow> bcu_creator curve \<noteq> default_pubkey"

record global_fee_recipients =
  gfr_fee_recipients :: "pubkey list"
  gfr_buyback_fee_recipients :: "pubkey list"

definition global_fee_recipients_decode :: "bytes \<Rightarrow> global_fee_recipients option" where
  "global_fee_recipients_decode data = do {
     fee_recipients \<leftarrow> read_keys data 162 7;
     buyback_fee_recipients \<leftarrow> read_keys data 741 8;
     Some \<lparr>gfr_fee_recipients = fee_recipients, gfr_buyback_fee_recipients = buyback_fee_recipients\<rparr>
   }"

definition legacy_fee_recipient :: "global_fee_recipients \<Rightarrow> pubkey option" where
  "legacy_fee_recipient global = first_set_key (gfr_fee_recipients global)"

definition two_buyback_recipients :: "global_fee_recipients \<Rightarrow> (pubkey \<times> pubkey) option" where
  "two_buyback_recipients global =
     (case filter (\<lambda>key. key \<noteq> default_pubkey) (gfr_buyback_fee_recipients global) of
        first # second # _ \<Rightarrow> Some (first, second)
      | _ \<Rightarrow> None)"

section \<open>Addresses\<close>

definition BUY_EXACT_SOL_IN :: bytes where
  "BUY_EXACT_SOL_IN = [56, 252, 116, 8, 158, 223, 205, 95]"

definition LEGACY_SELL :: bytes where
  "LEGACY_SELL = [51, 230, 133, 164, 1, 127, 131, 173]"

definition LEGACY_COMPUTE_UNITS :: u32 where
  "LEGACY_COMPUTE_UNITS = 130000"

definition pump_legacy_program_id :: "sdk \<Rightarrow> pubkey" where
  "pump_legacy_program_id sdk = pubkey_from_str sdk (program_id_str PumpFunLegacy)"

definition pump_legacy_pda :: "sdk \<Rightarrow> bytes list \<Rightarrow> pubkey" where
  "pump_legacy_pda sdk seeds = find_program_address sdk seeds (pump_legacy_program_id sdk)"

definition global_address :: "sdk \<Rightarrow> pubkey" where
  "global_address sdk = pump_legacy_pda sdk [map of_char ''global'']"

definition legacy_event_authority :: "sdk \<Rightarrow> pubkey" where
  "legacy_event_authority sdk = pump_legacy_pda sdk [map of_char ''__event_authority'']"

definition legacy_global_volume :: "sdk \<Rightarrow> pubkey" where
  "legacy_global_volume sdk = pump_legacy_pda sdk [map of_char ''global_volume_accumulator'']"

definition legacy_user_volume :: "sdk \<Rightarrow> pubkey \<Rightarrow> pubkey" where
  "legacy_user_volume sdk user = pump_legacy_pda sdk [map of_char ''user_volume_accumulator'', user]"

definition legacy_fee_config :: "sdk \<Rightarrow> pubkey" where
  "legacy_fee_config sdk =
     find_program_address sdk [map of_char ''fee_config'', pump_legacy_program_id sdk] (fee_program_id sdk)"

definition bonding_curve_address :: "sdk \<Rightarrow> pubkey \<Rightarrow> pubkey" where
  "bonding_curve_address sdk mint = pump_legacy_pda sdk [map of_char ''bonding-curve'', mint]"

section \<open>Loading\<close>

text \<open>The fields of \<open>TokenAccountInfo\<close> the loader reads.\<close>

record token_account_info =
  tai_mint :: string
  tai_balance :: u64

type_synonym token_account_reader = "pubkey \<Rightarrow> token_account_info list direct_swap_result"

text \<open>\<open>Iterator::max_by_key\<close>: the last of the maximal elements.\<close>

definition max_by_key :: "('a \<Rightarrow> 'k::linorder) \<Rightarrow> 'a list \<Rightarrow> 'a option" where
  "max_by_key key xs =
     fold (\<lambda>x best. case best of None \<Rightarrow> Some x | Some b \<Rightarrow> if key b \<le> key x then Some x else Some b) xs None"

record pump_legacy_market =
  plm_curve :: bonding_curve
  plm_token_program :: pubkey
  plm_mint_decimals :: u8
  plm_transfer_fee :: "transfer_fee_schedule option"
  plm_fee_recipient :: pubkey
  plm_buyback_wallet :: pubkey
  plm_buyback_paid :: pubkey
  plm_tiers :: "fee_tier_table option"

text \<open>The refusals between recovering the mint and reading the fee accounts.\<close>

definition curve_tradable :: "pubkey \<Rightarrow> bonding_curve \<Rightarrow> unit direct_swap_result" where
  "curve_tradable pool curve =
     (if bcu_complete curve
      then Inl (PoolNotTradable pool ''the bonding curve has completed and migrated to pump-swap; trade the pump-swap pool instead'')
      else if bcu_is_mayhem_mode curve
      then Inl (PoolNotTradable pool ''a mayhem-mode curve waives fees through a settlement path this venue does not build; route it through an aggregator instead'')
      else if bcu_is_cashback_coin curve
      then Inl (PoolNotTradable pool ''a cashback curve's creator-fee waiver is not verified to this engine's bar; route it through an aggregator instead'')
      else if bcu_quote_mint curve \<noteq> default_pubkey
      then Inl (PoolNotTradable pool ''the curve trades an alternate quote mint (buy_v2 territory), which is a different product this venue does not build'')
      else Inr ())"

definition pump_legacy_load ::
  "sdk \<Rightarrow> (string \<Rightarrow> pubkey option) \<Rightarrow> pubkey \<Rightarrow> account \<Rightarrow> account_reader \<Rightarrow> token_account_reader
     \<Rightarrow> pump_legacy_market direct_swap_result" where
  "pump_legacy_load sdk parse_pubkey pool pool_account reader token_accounts_of =
     and_then (ok_or (bonding_curve_decode pool (acc_data pool_account))
       (PoolUndecodable pool ''pump.fun legacy bonding curve did not match the expected layout ({} bytes)'')) (\<lambda>decoded.
     and_then (token_accounts_of pool) (\<lambda>infos.
     and_then (ok_or (max_by_key tai_balance infos)
       (PoolUndecodable pool ''the bonding curve holds no token account, so its mint cannot be found'')) (\<lambda>info.
     and_then (ok_or (parse_pubkey (tai_mint info))
       (PoolUndecodable pool ''the curve's token account names an invalid mint: {e}'')) (\<lambda>mint.
     let curve = decoded\<lparr>bcu_mint := mint\<rparr> in
     and_then (curve_tradable pool curve) (\<lambda>_.
     let addresses = [bcu_mint curve, global_address sdk, legacy_fee_config sdk] in
     and_then (reader addresses) (\<lambda>accounts.
     let fetched = required addresses accounts ''account does not exist'' in
     and_then (fetched 0) (\<lambda>mint_account.
     and_then (ok_or (u8_at (acc_data mint_account) 44)
       (PoolUndecodable pool ''the curve's mint is not a mint account'')) (\<lambda>decimals.
     and_then (fetched 1) (\<lambda>global_account.
     and_then (ok_or (global_fee_recipients_decode (acc_data global_account))
       (PoolUndecodable pool ''pump.fun legacy Global did not match the expected layout'')) (\<lambda>global_state.
     and_then (ok_or (legacy_fee_recipient global_state)
       (PoolNotTradable pool ''pump.fun legacy Global lists no protocol fee recipient'')) (\<lambda>fee_recipient.
     and_then (ok_or (two_buyback_recipients global_state)
       (PoolNotTradable pool ''pump.fun legacy Global lists fewer than two buyback fee recipients''))
       (\<lambda>(buyback_wallet, buyback_paid).
     and_then (fetched 2) (\<lambda>fee_account.
     Inr \<lparr>plm_curve = curve, plm_token_program = acc_owner mint_account, plm_mint_decimals = decimals,
          plm_transfer_fee = transfer_fee_schedule_of sdk mint_account, plm_fee_recipient = fee_recipient,
          plm_buyback_wallet = buyback_wallet, plm_buyback_paid = buyback_paid,
          plm_tiers = fee_tier_table_decode (acc_data fee_account)\<rparr>)))))))))))))"

section \<open>Quoting\<close>

definition pump_legacy_is_base :: "sdk \<Rightarrow> pump_legacy_market \<Rightarrow> pubkey \<Rightarrow> bool option" where
  "pump_legacy_is_base sdk m mint = side_of (bcu_mint (plm_curve m)) (wsol_mint sdk) mint"

definition pump_legacy_market_cap :: "pump_legacy_market \<Rightarrow> u128 option" where
  "pump_legacy_market_cap m =
     (let curve = plm_curve m in
      if bcu_virtual_token_reserves curve = 0 then None
      else Some (market_cap_of (bcu_token_total_supply curve) (bcu_virtual_sol_reserves curve)
             (bcu_virtual_token_reserves curve)))"

definition pump_legacy_fees :: "pump_legacy_market \<Rightarrow> pump_fees" where
  "pump_legacy_fees m =
     (case (plm_tiers m, pump_legacy_market_cap m) of
        (Some table, Some cap) \<Rightarrow> fees_for table cap
      | (Some table, None) \<Rightarrow> most_expensive table
      | (None, _) \<Rightarrow> pump_fees_default)"

definition pump_legacy_total_bps :: "pump_legacy_market \<Rightarrow> u64" where
  "pump_legacy_total_bps m = total_bps (pump_legacy_fees m) (creator_set (plm_curve m))"

definition pump_legacy_fee_on :: "pump_legacy_market \<Rightarrow> u64 \<Rightarrow> u64" where
  "pump_legacy_fee_on m net = pump_fee_on (pump_legacy_fees m) (creator_set (plm_curve m)) net"

definition net_for_spend :: "pump_legacy_market \<Rightarrow> u64 \<Rightarrow> u64 option" where
  "net_for_spend m spendable = swappable_from_spend (pump_legacy_fees m) (creator_set (plm_curve m)) spendable"

definition pump_legacy_sell :: "pump_legacy_market \<Rightarrow> u64 \<Rightarrow> u64 \<times> u64" where
  "pump_legacy_sell m amount_in =
     (let curve = plm_curve m;
          sold = net_of_fee (plm_transfer_fee m) amount_in;
          gross = min (constant_product_out (bcu_virtual_token_reserves curve) (bcu_virtual_sol_reserves curve) sold)
                    (bcu_real_sol_reserves curve);
          fee = pump_legacy_fee_on m gross
      in (saturating_sub gross fee, fee_in_input fee amount_in gross))"

definition pump_legacy_buy :: "pump_legacy_market \<Rightarrow> u64 \<Rightarrow> (u64 \<times> u64) direct_swap_result" where
  "pump_legacy_buy m amount_in =
     (let curve = plm_curve m in
      and_then (ok_or (net_for_spend m amount_in) (Panic ''the search does not end'')) (\<lambda>net.
      let fee = saturating_sub amount_in net;
          gross = min (constant_product_out (bcu_virtual_sol_reserves curve) (bcu_virtual_token_reserves curve) net)
                    (bcu_real_token_reserves curve)
      in Inr (net_of_fee (plm_transfer_fee m) gross, fee)))"

definition pump_legacy_quote :: "sdk \<Rightarrow> pump_legacy_market \<Rightarrow> pubkey \<Rightarrow> u64 \<Rightarrow> venue_quote direct_swap_result" where
  "pump_legacy_quote sdk m input_mint amount_in =
     (let curve = plm_curve m in
      and_then (ok_or (pump_legacy_is_base sdk m input_mint)
        (PairNotInPool (bcu_pool curve) input_mint default_pubkey)) (\<lambda>input_is_base.
      if bcu_virtual_token_reserves curve = 0 \<or> bcu_virtual_sol_reserves curve = 0
      then Inl (InsufficientLiquidity (bcu_pool curve) amount_in ''the bonding curve has no reserves'')
      else
        and_then (if input_is_base then Inr (pump_legacy_sell m amount_in) else pump_legacy_buy m amount_in)
          (\<lambda>(expected_out, lp_fee).
        if expected_out = 0
        then Inl (InsufficientLiquidity (bcu_pool curve) amount_in ''the curve returns nothing at this size'')
        else
          let (reserve_in, reserve_out) =
                (if input_is_base then (bcu_virtual_token_reserves curve, bcu_virtual_sol_reserves curve)
                 else (bcu_virtual_sol_reserves curve, bcu_virtual_token_reserves curve))
          in Inr \<lparr>vq_amount_in = amount_in, vq_expected_out = expected_out, vq_lp_fee = lp_fee,
               vq_price_impact_pct = price_impact_pct reserve_in reserve_out amount_in lp_fee expected_out\<rparr>)))"

section \<open>The instruction\<close>

definition creator_vault :: "sdk \<Rightarrow> pump_legacy_market \<Rightarrow> pubkey" where
  "creator_vault sdk m = pump_legacy_pda sdk [map of_char ''creator-vault'', bcu_creator (plm_curve m)]"

definition associated_bonding_curve :: "sdk \<Rightarrow> pump_legacy_market \<Rightarrow> pubkey" where
  "associated_bonding_curve sdk m =
     associated_token_address sdk (bcu_pool (plm_curve m)) (bcu_mint (plm_curve m)) (plm_token_program m)"

definition bonding_curve_v2 :: "sdk \<Rightarrow> pump_legacy_market \<Rightarrow> pubkey" where
  "bonding_curve_v2 sdk m = pump_legacy_pda sdk [map of_char ''bonding-curve-v2'', bcu_mint (plm_curve m)]"

definition sell_accounts :: "sdk \<Rightarrow> pump_legacy_market \<Rightarrow> swap_accounts \<Rightarrow> account_meta list" where
  "sell_accounts sdk m accounts =
     [meta_new_readonly (global_address sdk) False,
      meta_new (plm_fee_recipient m) False,
      meta_new_readonly (bcu_mint (plm_curve m)) False,
      meta_new (bcu_pool (plm_curve m)) False,
      meta_new (associated_bonding_curve sdk m) False,
      meta_new (sa_input_token_account accounts) False,
      meta_new (sa_owner accounts) True,
      meta_new_readonly (system_program_id sdk) False,
      meta_new (creator_vault sdk m) False,
      meta_new_readonly (plm_token_program m) False,
      meta_new_readonly (legacy_event_authority sdk) False,
      meta_new_readonly (pump_legacy_program_id sdk) False,
      meta_new_readonly (legacy_fee_config sdk) False,
      meta_new_readonly (fee_program_id sdk) False]"

definition buy_accounts :: "sdk \<Rightarrow> pump_legacy_market \<Rightarrow> swap_accounts \<Rightarrow> account_meta list" where
  "buy_accounts sdk m accounts =
     [meta_new_readonly (global_address sdk) False,
      meta_new (plm_fee_recipient m) False,
      meta_new_readonly (bcu_mint (plm_curve m)) False,
      meta_new (bcu_pool (plm_curve m)) False,
      meta_new (associated_bonding_curve sdk m) False,
      meta_new (sa_output_token_account accounts) False,
      meta_new (sa_owner accounts) True,
      meta_new_readonly (system_program_id sdk) False,
      meta_new_readonly (plm_token_program m) False,
      meta_new (creator_vault sdk m) False,
      meta_new_readonly (legacy_event_authority sdk) False,
      meta_new_readonly (pump_legacy_program_id sdk) False,
      meta_new_readonly (legacy_global_volume sdk) False,
      meta_new (legacy_user_volume sdk (sa_owner accounts)) False,
      meta_new_readonly (legacy_fee_config sdk) False,
      meta_new_readonly (fee_program_id sdk) False]"

definition pump_legacy_swap_instruction ::
  "sdk \<Rightarrow> pump_legacy_market \<Rightarrow> swap_accounts \<Rightarrow> u64 \<Rightarrow> u64 \<Rightarrow> instruction direct_swap_result" where
  "pump_legacy_swap_instruction sdk m accounts amount_in min_out =
     and_then (oriented_pair (bcu_pool (plm_curve m)) (pump_legacy_is_base sdk m) accounts) (\<lambda>input_is_base.
     let (disc, metas) =
           (if input_is_base then (LEGACY_SELL, sell_accounts sdk m accounts)
            else (BUY_EXACT_SOL_IN, buy_accounts sdk m accounts))
     in Inr \<lparr>ix_program_id = pump_legacy_program_id sdk,
          ix_accounts = metas
            @ (if creator_set (plm_curve m) then [meta_new (bonding_curve_v2 sdk m) False] else [])
            @ [meta_new (plm_buyback_wallet m) False, meta_new (plm_buyback_paid m) False],
          ix_data = disc @ u64_to_le_bytes amount_in @ u64_to_le_bytes min_out\<rparr>)"

definition pump_legacy_as_market :: "sdk \<Rightarrow> pump_legacy_market \<Rightarrow> pool_market" where
  "pump_legacy_as_market sdk m =
     \<lparr>pm_program = PumpFunLegacy, pm_pool = bcu_pool (plm_curve m),
      pm_mints = (bcu_mint (plm_curve m), wsol_mint sdk),
      pm_token_program = native_token_program sdk (bcu_mint (plm_curve m)) (plm_token_program m),
      pm_decimals = native_decimals sdk (bcu_mint (plm_curve m)) (plm_mint_decimals m),
      pm_quote = pump_legacy_quote sdk m, pm_swap_instruction = pump_legacy_swap_instruction sdk m,
      pm_compute_units = LEGACY_COMPUTE_UNITS, pm_settles_native_sol = True\<rparr>"

section \<open>Loading: lemmas\<close>

lemma bonding_curve_decode_None:
  "bonding_curve_decode pool data = None \<longleftrightarrow> length data < 115 \<or> take 8 data \<noteq> BONDING_CURVE_DISCRIMINATOR"
  unfolding bonding_curve_decode_def by (auto simp: read_at)

lemma max_by_key_fold:
  fixes key :: "'a \<Rightarrow> 'k::linorder"
  shows "fold (\<lambda>x best. case best of None \<Rightarrow> Some x | Some b \<Rightarrow> if key b \<le> key x then Some x else Some b) xs (Some b) = Some r
     \<Longrightarrow> r \<in> insert b (set xs) \<and> (\<forall>x\<in>insert b (set xs). key x \<le> key r)"
proof (induction xs arbitrary: b)
  case Nil
  then show ?case by simp
next
  case (Cons a xs)
  show ?case
  proof (cases "key b \<le> key a")
    case True
    then show ?thesis using Cons.IH [of a] Cons.prems order.trans [OF True] by auto
  next
    case False
    then show ?thesis using Cons.IH [of b] Cons.prems order.trans [of "key a" "key b"] by auto
  qed
qed

lemma max_by_key_max:
  assumes "max_by_key key xs = Some r"
  shows "r \<in> set xs" and "x \<in> set xs \<Longrightarrow> key x \<le> key r"
proof -
  obtain y ys where "xs = y # ys" using assms by (cases xs) (auto simp: max_by_key_def)
  then show "r \<in> set xs" and "x \<in> set xs \<Longrightarrow> key x \<le> key r"
    using max_by_key_fold [of key ys y r] assms by (auto simp: max_by_key_def)
qed

text \<open>A loaded curve is one the venue trades, on the mint its fullest token account names.\<close>

lemma pump_legacy_load_ok:
  assumes "pump_legacy_load sdk parse pool acc reader tokens = Inr m"
  obtains infos info where "tokens pool = Inr infos" and "info \<in> set infos"
    and "\<And>i. i \<in> set infos \<Longrightarrow> tai_balance i \<le> tai_balance info"
    and "parse (tai_mint info) = Some (bcu_mint (plm_curve m))"
    and "\<not> bcu_complete (plm_curve m)" and "\<not> bcu_is_mayhem_mode (plm_curve m)"
    and "\<not> bcu_is_cashback_coin (plm_curve m)" and "bcu_quote_mint (plm_curve m) = default_pubkey"
    and "bcu_pool (plm_curve m) = pool"
proof -
  obtain decoded infos info mint where d: "bonding_curve_decode pool (acc_data acc) = Some decoded"
    and infos: "tokens pool = Inr infos" and info: "max_by_key tai_balance infos = Some info"
    and mint: "parse (tai_mint info) = Some mint"
    and tradable: "curve_tradable pool (decoded\<lparr>bcu_mint := mint\<rparr>) = Inr ()"
    and curve: "plm_curve m = decoded\<lparr>bcu_mint := mint\<rparr>"
    using assms by (auto simp: pump_legacy_load_def Let_def)
  have "bcu_pool decoded = pool" using d by (auto simp: bonding_curve_decode_def split: if_splits bind_splits)
  then show ?thesis
    using that [OF infos max_by_key_max(1) [OF info] max_by_key_max(2) [OF info]] mint tradable curve
    by (auto simp: curve_tradable_def split: if_splits)
qed

section \<open>Quotes\<close>

lemma pump_legacy_quote_ok:
  assumes "pump_legacy_quote sdk m mint a = Inr q"
  obtains s where "pump_legacy_is_base sdk m mint = Some s"
    and "(if s then Inr (pump_legacy_sell m a) else pump_legacy_buy m a) = Inr (vq_expected_out q, vq_lp_fee q)"
    and "0 < unat (vq_expected_out q)" and "vq_amount_in q = a"
    and "0 \<le> vq_price_impact_pct q" and "vq_price_impact_pct q \<le> 100"
proof -
  obtain s where s: "pump_legacy_is_base sdk m mint = Some s"
    using assms by (auto simp: pump_legacy_quote_def Let_def)
  obtain out fee where r: "(if s then Inr (pump_legacy_sell m a) else pump_legacy_buy m a) = Inr (out, fee)"
    using assms s by (auto simp: pump_legacy_quote_def Let_def split: if_splits)
  show ?thesis
    by (rule that [of s])
      (use assms s r price_impact_pct_range in \<open>auto simp: pump_legacy_quote_def Let_def unat_gt_0 split: if_splits\<close>)
qed

lemma pump_legacy_fee_on_le: "unat (pump_legacy_fee_on m a) \<le> unat a"
  by (simp add: pump_legacy_fee_on_def unat_pump_fee_on fee_nat_le)

lemma pump_legacy_sell_bounds:
  assumes "pump_legacy_sell m a = (out, fee)"
  shows "unat out \<le> unat (constant_product_out (bcu_virtual_token_reserves (plm_curve m))
      (bcu_virtual_sol_reserves (plm_curve m)) (net_of_fee (plm_transfer_fee m) a))"
    and "unat out \<le> unat (bcu_real_sol_reserves (plm_curve m))" and "unat fee \<le> unat a"
proof -
  define gross where "gross = min (constant_product_out (bcu_virtual_token_reserves (plm_curve m))
      (bcu_virtual_sol_reserves (plm_curve m)) (net_of_fee (plm_transfer_fee m) a)) (bcu_real_sol_reserves (plm_curve m))"
  have out: "out = saturating_sub gross (pump_legacy_fee_on m gross)"
    and fee: "fee = fee_in_input (pump_legacy_fee_on m gross) a gross"
    using assms by (auto simp: pump_legacy_sell_def Let_def gross_def)
  have "unat out \<le> unat gross" by (simp add: out unat_simps)
  then show "unat out \<le> unat (constant_product_out (bcu_virtual_token_reserves (plm_curve m))
      (bcu_virtual_sol_reserves (plm_curve m)) (net_of_fee (plm_transfer_fee m) a))"
    and "unat out \<le> unat (bcu_real_sol_reserves (plm_curve m))"
    by (simp_all add: gross_def unat_simps)
  show "unat fee \<le> unat a" unfolding fee by (rule fee_in_input_le) (rule pump_legacy_fee_on_le)
qed

lemma pump_legacy_buy_bounds:
  assumes "pump_legacy_buy m a = Inr (out, fee)"
  obtains net where "net_for_spend m a = Some net" and "unat fee \<le> unat a"
    and "unat out \<le> unat (constant_product_out (bcu_virtual_sol_reserves (plm_curve m))
      (bcu_virtual_token_reserves (plm_curve m)) net)"
    and "unat out \<le> unat (bcu_real_token_reserves (plm_curve m))"
proof -
  obtain net where net: "net_for_spend m a = Some net" and fee: "fee = saturating_sub a net"
    and out: "out = net_of_fee (plm_transfer_fee m) (min (constant_product_out (bcu_virtual_sol_reserves (plm_curve m))
      (bcu_virtual_token_reserves (plm_curve m)) net) (bcu_real_token_reserves (plm_curve m)))"
    using assms by (auto simp: pump_legacy_buy_def Let_def)
  have "unat fee \<le> unat a" by (simp add: fee unat_simps)
  moreover have "unat out \<le> unat (min (constant_product_out (bcu_virtual_sol_reserves (plm_curve m))
      (bcu_virtual_token_reserves (plm_curve m)) net) (bcu_real_token_reserves (plm_curve m)))"
    unfolding out by (rule net_of_fee_le)
  ultimately show ?thesis using that [OF net] by (simp add: unat_simps)
qed

section \<open>The contract\<close>

lemma pump_legacy_side: "pump_legacy_is_base sdk m = side_of (bcu_mint (plm_curve m)) (wsol_mint sdk)"
  by (rule ext) (simp add: pump_legacy_is_base_def)

lemmas pump_legacy_as_market_simps = pump_legacy_as_market_def holds_def pump_legacy_side

lemma pump_legacy_swap_contract:
  assumes "pump_legacy_swap_instruction sdk m accounts a mo = Inr ix"
  shows "swap_contract 8 16 (pump_legacy_as_market sdk m) accounts a mo ix"
proof -
  obtain s where s: "oriented_pair (bcu_pool (plm_curve m)) (pump_legacy_is_base sdk m) accounts = Inr s"
    using assms by (auto simp: pump_legacy_swap_instruction_def)
  then have sides: "sa_input_mint accounts = (if s then bcu_mint (plm_curve m) else wsol_mint sdk)"
    "bcu_mint (plm_curve m) \<noteq> wsol_mint sdk"
    unfolding pump_legacy_side by (auto simp: oriented_pair_ok)
  have pair: "trades (pump_legacy_as_market sdk m) (sa_input_mint accounts) (sa_output_mint accounts)"
    using s unfolding pump_legacy_side by (rule oriented_pair_trades) (simp add: pump_legacy_as_market_def)
  have len: "length LEGACY_SELL = 8" "length BUY_EXACT_SOL_IN = 8"
    by (simp_all add: LEGACY_SELL_def BUY_EXACT_SOL_IN_def)
  show ?thesis
    unfolding swap_contract_def
    using assms s sides pair swap_data_read [OF len(1), of a mo "[]"] swap_data_read [OF len(2), of a mo "[]"]
    by (cases s) (auto simp: pump_legacy_swap_instruction_def sell_accounts_def buy_accounts_def Let_def
        meta_new_def meta_new_readonly_def list_all_iff pump_legacy_as_market_def)
qed

interpretation pump_legacy: market "pump_legacy_as_market sdk" "\<lambda>_ _. 8" "\<lambda>_ _. 16"
proof
  fix m :: pump_legacy_market and mint a q accounts mo ix
  show "pm_token_program (pump_legacy_as_market sdk m) mint \<noteq> None \<longleftrightarrow> holds (pump_legacy_as_market sdk m) mint"
    using native_token_program_None by (simp add: pump_legacy_as_market_simps)
  show "pm_decimals (pump_legacy_as_market sdk m) mint \<noteq> None \<longleftrightarrow> holds (pump_legacy_as_market sdk m) mint"
    using native_decimals_None by (simp add: pump_legacy_as_market_simps)
  show "holds (pump_legacy_as_market sdk m) mint \<and> sane_quote a q"
    if "pm_quote (pump_legacy_as_market sdk m) mint a = Inr q"
  proof -
    have "pump_legacy_quote sdk m mint a = Inr q" using that by (simp add: pump_legacy_as_market_def)
    then show ?thesis
      by (rule pump_legacy_quote_ok) (auto simp: pump_legacy_as_market_simps sane_quote_def dest!: side_of_Some)
  qed
  show "swap_contract 8 16 (pump_legacy_as_market sdk m) accounts a mo ix"
    if "pm_swap_instruction (pump_legacy_as_market sdk m) accounts a mo = Inr ix"
    using that by (intro pump_legacy_swap_contract) (simp add: pump_legacy_as_market_def)
qed

section \<open>Properties\<close>

text \<open>
  A quote on a bonding curve is covered by what the curve really holds: the output is at most
  the real reserve that pays it, the product of the virtual reserves does not drop, the fee is at
  most the input, and what a buy swaps is affordable together with the fee on top of it.
\<close>

theorem pump_legacy_quote_sound:
  assumes "pump_legacy_quote sdk m mint a = Inr q" and "pump_legacy_is_base sdk m mint = Some s"
    and "a \<noteq> - 1"
    and "(if s then (bcu_virtual_token_reserves (plm_curve m), bcu_virtual_sol_reserves (plm_curve m))
          else (bcu_virtual_sol_reserves (plm_curve m), bcu_virtual_token_reserves (plm_curve m))) = (ri, ro)"
  shows "unat (vq_lp_fee q) \<le> unat a
    \<and> vq_expected_out q \<le> (if s then bcu_real_sol_reserves (plm_curve m) else bcu_real_token_reserves (plm_curve m))
    \<and> unat ri * unat ro \<le> (unat ri + unat a) * (unat ro - unat (vq_expected_out q))
    \<and> (\<not> s \<longrightarrow> (\<exists>net. net_for_spend m a = Some net \<and> unat net + unat (pump_legacy_fee_on m net) \<le> unat a))"
proof (cases s)
  case True
  have sell: "pump_legacy_sell m a = (vq_expected_out q, vq_lp_fee q)"
    using assms(2) True by (auto intro: pump_legacy_quote_ok [OF assms(1)])
  have "unat ri * unat ro \<le> (unat ri + unat a) * (unat ro - unat (vq_expected_out q))"
    using pump_legacy_sell_bounds(1) [OF sell] assms(4) True
    by (intro constant_product_dominated [of _ _ _ "net_of_fee (plm_transfer_fee m) a"]) (auto simp: net_of_fee_le)
  then show ?thesis using True pump_legacy_sell_bounds(2,3) [OF sell] by (simp add: word_le_nat_alt)
next
  case False
  have buy: "pump_legacy_buy m a = Inr (vq_expected_out q, vq_lp_fee q)"
    using assms(2) False by (auto intro: pump_legacy_quote_ok [OF assms(1)])
  show ?thesis
  proof (rule pump_legacy_buy_bounds [OF buy])
    fix net
    assume net: "net_for_spend m a = Some net" and fee: "unat (vq_lp_fee q) \<le> unat a"
      and out: "unat (vq_expected_out q) \<le> unat (constant_product_out (bcu_virtual_sol_reserves (plm_curve m))
          (bcu_virtual_token_reserves (plm_curve m)) net)"
      and real: "unat (vq_expected_out q) \<le> unat (bcu_real_token_reserves (plm_curve m))"
    have pays: "unat net + unat (pump_legacy_fee_on m net) \<le> unat a"
      using swappable_affordable [OF net [unfolded net_for_spend_def] assms(3)] by (simp add: pump_legacy_fee_on_def)
    then have "unat ri * unat ro \<le> (unat ri + unat a) * (unat ro - unat (vq_expected_out q))"
      using out assms(4) False by (intro constant_product_dominated [of _ _ _ net]) auto
    then show ?thesis using False net fee real pays by (simp add: word_le_nat_alt)
  qed
qed

text \<open>The curve of the documented \<open>buy_exact_sol_in\<close>: no creator, one fee tier of 95 and 30 basis points.\<close>

definition sample_pump_legacy :: pump_legacy_market where
  "sample_pump_legacy = \<lparr>plm_curve = \<lparr>bcu_pool = sample_key ''pool'', bcu_mint = sample_key ''token'',
       bcu_virtual_token_reserves = 1073000000000000, bcu_virtual_sol_reserves = 30000000000,
       bcu_real_token_reserves = 793100000000000, bcu_real_sol_reserves = 0,
       bcu_token_total_supply = 1000000000000000, bcu_complete = False, bcu_creator = default_pubkey,
       bcu_is_mayhem_mode = False, bcu_is_cashback_coin = False, bcu_quote_mint = default_pubkey\<rparr>,
     plm_token_program = spl_token_2022_id sample_sdk, plm_mint_decimals = 6, plm_transfer_fee = None,
     plm_fee_recipient = sample_key ''fees'', plm_buyback_wallet = sample_key ''buyback0'',
     plm_buyback_paid = sample_key ''buyback1'',
     plm_tiers = Some [(0, \<lparr>pfe_lp_bps = 0, pfe_protocol_bps = 95, pfe_creator_bps = 30\<rparr>)]\<rparr>"

theorem pump_legacy_quote_sound_witness:
  "\<exists>q. pump_legacy_quote sample_sdk sample_pump_legacy (sample_key SOL_MINT) 597000000 = Inr q
     \<and> unat (vq_expected_out q) = 20742859876642 \<and> unat (vq_lp_fee q) = 5618129
     \<and> 30000000000 * 1073000000000000 \<le> 30597000000 * (1073000000000000 - unat (vq_expected_out q))"
proof -
  have side: "pump_legacy_is_base sample_sdk sample_pump_legacy (sample_key SOL_MINT) = Some False"
    by (simp add: pump_legacy_is_base_def side_of_def sample_pump_legacy_def sample_keys_apart wsol_mint_def sample_sdk_def)
  have "net_for_spend sample_pump_legacy 597000000 = Some 591381871"
    unfolding net_for_spend_def
    by (rule trans [OF swappable_unique [where n = 591381872]])
      (simp_all add: pump_legacy_fees_def pump_legacy_market_cap_def creator_set_def fees_for_def
        sample_pump_legacy_def fee_nat_def ceil_nat_def)
  then have buy: "pump_legacy_buy sample_pump_legacy 597000000 = Inr (20742859876642, 5618129)"
    by (simp add: pump_legacy_buy_def net_of_fee_def word_unat_eq_iff
        unat_constant_product_out unat_simps sample_pump_legacy_def)
  have "bcu_virtual_token_reserves (plm_curve sample_pump_legacy) = 1073000000000000"
    "bcu_virtual_sol_reserves (plm_curve sample_pump_legacy) = 30000000000"
    by (simp_all add: sample_pump_legacy_def)
  then obtain q where q: "pump_legacy_quote sample_sdk sample_pump_legacy (sample_key SOL_MINT) 597000000 = Inr q"
    "unat (vq_expected_out q) = 20742859876642" "unat (vq_lp_fee q) = 5618129"
    by (simp add: pump_legacy_quote_def side buy)
  have "30000000000 * 1073000000000000 \<le> 30597000000 * (1073000000000000 - unat (vq_expected_out q))"
    using pump_legacy_quote_sound [OF q(1) side, of 30000000000 1073000000000000]
    by (simp add: sample_pump_legacy_def)
  then show ?thesis using q by blast
qed

end
