(* ===== verification/Orca_Whirlpool.thy ===== *)
theory Orca_Whirlpool
  imports Raydium_Clmm Receipt
begin

text \<open>
  The Orca Whirlpool venue: the layouts of \<open>src/chains/solana/pools/layouts/orca_whirlpool.rs\<close>
  and the market of \<open>src/chains/solana/swaps/direct/venues/orca_whirlpool.rs\<close>, on top of the tick
  walk of \<open>Clmm_Ticks\<close>. A Whirlpool publishes no bitmap: the arrays a swap may touch are computed
  from the current tick, and the market remembers which of them exist.
\<close>

section \<open>Layouts\<close>

definition ORCA_TICK_ARRAY_SIZE :: i32 where
  "ORCA_TICK_ARRAY_SIZE = 88"

definition ORCA_TICKS_OFFSET :: nat where
  "ORCA_TICKS_OFFSET = 12"

definition ORCA_TICK_STATE_SIZE :: nat where
  "ORCA_TICK_STATE_SIZE = 113"

definition FIXED_TICK_ARRAY_LEN :: nat where
  "FIXED_TICK_ARRAY_LEN = ORCA_TICKS_OFFSET + nat ORCA_TICK_ARRAY_SIZE * ORCA_TICK_STATE_SIZE + 32"

definition DYNAMIC_TICK_BITMAP_OFFSET :: nat where
  "DYNAMIC_TICK_BITMAP_OFFSET = 44"

definition DYNAMIC_TICKS_OFFSET :: nat where
  "DYNAMIC_TICKS_OFFSET = 60"

definition DYNAMIC_TICK_DATA_SIZE :: nat where
  "DYNAMIC_TICK_DATA_SIZE = 112"

record whirlpool_state =
  wps_pool :: pubkey
  wps_tick_spacing :: u16
  wps_fee_rate :: u16
  wps_liquidity :: u128
  wps_sqrt_price :: u128
  wps_tick_current :: i32
  wps_protocol_fee_owed_a :: u64
  wps_protocol_fee_owed_b :: u64
  wps_mint_a :: pubkey
  wps_vault_a :: pubkey
  wps_mint_b :: pubkey
  wps_vault_b :: pubkey

definition whirlpool_decode :: "pubkey \<Rightarrow> bytes \<Rightarrow> whirlpool_state option" where
  "whirlpool_decode pool data = do {
     tick_spacing \<leftarrow> u16_at data 41;
     fee_rate \<leftarrow> u16_at data 45;
     liquidity \<leftarrow> u128_at data 49;
     sqrt_price \<leftarrow> u128_at data 65;
     tick_current \<leftarrow> i32_at data 81;
     protocol_fee_owed_a \<leftarrow> u64_at data 85;
     protocol_fee_owed_b \<leftarrow> u64_at data 93;
     mint_a \<leftarrow> pubkey_at data 101;
     vault_a \<leftarrow> pubkey_at data 133;
     mint_b \<leftarrow> pubkey_at data 181;
     vault_b \<leftarrow> pubkey_at data 213;
     Some \<lparr>wps_pool = pool, wps_tick_spacing = tick_spacing, wps_fee_rate = fee_rate,
       wps_liquidity = liquidity, wps_sqrt_price = sqrt_price, wps_tick_current = tick_current,
       wps_protocol_fee_owed_a = protocol_fee_owed_a, wps_protocol_fee_owed_b = protocol_fee_owed_b,
       wps_mint_a = mint_a, wps_vault_a = vault_a, wps_mint_b = mint_b, wps_vault_b = vault_b\<rparr>
   }"

text \<open>The index of the tick in slot \<open>i\<close> of the array that starts at \<open>start\<close>.\<close>

definition slot_tick :: "i32 \<Rightarrow> u16 \<Rightarrow> nat \<Rightarrow> i32" where
  "slot_tick start tick_spacing i = wrap_i32 (start + wrap_i32 (int i * int (unat tick_spacing)))"

text \<open>The loop of \<open>decode_dynamic_tick_array\<close>: the ticks found, and the offset after the last slot.\<close>

fun decode_dynamic_slots ::
  "bytes \<Rightarrow> i32 \<Rightarrow> u16 \<Rightarrow> u128 \<Rightarrow> nat list \<Rightarrow> nat \<Rightarrow> initialized_tick list
     \<Rightarrow> (initialized_tick list \<times> nat) option" where
  "decode_dynamic_slots data start tick_spacing bitmap [] offset ticks = Some (ticks, offset)"
| "decode_dynamic_slots data start tick_spacing bitmap (i # slots) offset ticks = do {
     tag \<leftarrow> u8_at data offset;
     let offset = offset + 1;
     let flagged = (bitmap AND push_bit i 1) \<noteq> 0;
     (if tag = 0 \<and> \<not> flagged
      then decode_dynamic_slots data start tick_spacing bitmap slots offset ticks
      else if tag = 1 \<and> flagged
      then do {
        liquidity_net \<leftarrow> i128_at data offset;
        liquidity_gross \<leftarrow> u128_at data (offset + 16);
        (if int (unat liquidity_gross) < \<bar>liquidity_net\<bar> then None
         else decode_dynamic_slots data start tick_spacing bitmap slots (offset + DYNAMIC_TICK_DATA_SIZE)
           (ticks @ [\<lparr>it_tick = slot_tick start tick_spacing i, it_liquidity_net = liquidity_net\<rparr>]))
      }
      else None)
   }"

definition decode_dynamic_tick_array :: "bytes \<Rightarrow> i32 \<Rightarrow> u16 \<Rightarrow> initialized_tick list option" where
  "decode_dynamic_tick_array data start tick_spacing = do {
     stored \<leftarrow> i32_at data 8;
     (if stored \<noteq> start then None
      else do {
        bitmap \<leftarrow> u128_at data DYNAMIC_TICK_BITMAP_OFFSET;
        (ticks, offset) \<leftarrow> decode_dynamic_slots data start tick_spacing bitmap
          [0..<nat ORCA_TICK_ARRAY_SIZE] DYNAMIC_TICKS_OFFSET [];
        (if offset = length data then Some ticks else None)
      })
   }"

fun decode_fixed_slots ::
  "bytes \<Rightarrow> i32 \<Rightarrow> u16 \<Rightarrow> nat list \<Rightarrow> initialized_tick list \<Rightarrow> initialized_tick list option" where
  "decode_fixed_slots data start tick_spacing [] ticks = Some ticks"
| "decode_fixed_slots data start tick_spacing (i # slots) ticks =
     (let offset = ORCA_TICKS_OFFSET + i * ORCA_TICK_STATE_SIZE in do {
        initialized \<leftarrow> u8_at data offset;
        (if initialized = 0 then decode_fixed_slots data start tick_spacing slots ticks
         else do {
           liquidity_net \<leftarrow> i128_at data (offset + 1);
           decode_fixed_slots data start tick_spacing slots
             (ticks @ [\<lparr>it_tick = slot_tick start tick_spacing i, it_liquidity_net = liquidity_net\<rparr>])
         })
      })"

definition decode_fixed_tick_array :: "bytes \<Rightarrow> i32 \<Rightarrow> u16 \<Rightarrow> initialized_tick list option" where
  "decode_fixed_tick_array data start tick_spacing =
     decode_fixed_slots data start tick_spacing [0..<nat ORCA_TICK_ARRAY_SIZE] []"

definition orca_decode_tick_array :: "bytes \<Rightarrow> i32 \<Rightarrow> u16 \<Rightarrow> initialized_tick list option" where
  "orca_decode_tick_array data start tick_spacing =
     (if length data = FIXED_TICK_ARRAY_LEN then decode_fixed_tick_array data start tick_spacing
      else decode_dynamic_tick_array data start tick_spacing)"

definition oracle_has_active_adaptive_fee :: "bytes \<Rightarrow> bool option" where
  "oracle_has_active_adaptive_fee data = map_option (\<lambda>factor. factor \<noteq> 0) (u32_at data 54)"

section \<open>Addresses\<close>

definition ORCA_SWAP :: bytes where
  "ORCA_SWAP = [0xf8, 0xc6, 0x9e, 0x91, 0xe1, 0x75, 0x87, 0xc8]"

definition ORCA_SWAP_V2 :: bytes where
  "ORCA_SWAP_V2 = [0x2b, 0x04, 0xed, 0x0b, 0x1a, 0xc9, 0x1e, 0x62]"

definition ORCA_FEE_RATE_DENOMINATOR :: u64 where
  "ORCA_FEE_RATE_DENOMINATOR = 1000000"

definition ORCA_TICK_ARRAYS_PER_SWAP :: nat where
  "ORCA_TICK_ARRAYS_PER_SWAP = 3"

definition ORCA_COMPUTE_UNITS :: u32 where
  "ORCA_COMPUTE_UNITS = 200000"

definition ORACLE_SEED :: bytes where
  "ORACLE_SEED = map of_char ''oracle''"

definition whirlpool_program_id :: "sdk \<Rightarrow> pubkey" where
  "whirlpool_program_id sdk = pubkey_from_str sdk (program_id_str OrcaWhirlpool)"

definition orca_span :: "u16 \<Rightarrow> i32" where
  "orca_span tick_spacing = wrap_i32 (ORCA_TICK_ARRAY_SIZE * int (unat tick_spacing))"

definition orca_tick_array_start_index :: "i32 \<Rightarrow> u16 \<Rightarrow> i32" where
  "orca_tick_array_start_index tick tick_spacing =
     (let span = orca_span tick_spacing in
      if span = 0 then 0
      else
        let index = trunc_div tick span;
            index = (if tick < 0 \<and> trunc_mod tick span \<noteq> 0 then index - 1 else index)
        in wrap_i32 (index * span))"

fun outward_starts :: "nat \<Rightarrow> i32 \<Rightarrow> i32 \<Rightarrow> i32 list" where
  "outward_starts 0 start step = []"
| "outward_starts (Suc n) start step =
     start # (if in_i32 (start + step) then outward_starts n (start + step) step else [])"

definition candidate_tick_array_starts :: "i32 \<Rightarrow> u16 \<Rightarrow> bool \<Rightarrow> i32 list" where
  "candidate_tick_array_starts tick_current tick_spacing zero_for_one =
     (let span = orca_span tick_spacing in
      if span = 0 then []
      else
        let step = (if zero_for_one then - span else span)
        in outward_starts ORCA_TICK_ARRAYS_PER_SWAP (orca_tick_array_start_index tick_current tick_spacing) step)"

text \<open>\<open>i32::to_string\<close>.\<close>

definition i32_to_string :: "i32 \<Rightarrow> string" where
  "i32_to_string n = (if n < 0 then CHR ''-'' # decimal (nat (- n)) else decimal (nat n))"

definition orca_tick_array_address :: "sdk \<Rightarrow> pubkey \<Rightarrow> pubkey \<Rightarrow> i32 \<Rightarrow> pubkey" where
  "orca_tick_array_address sdk program pool start_index =
     find_program_address sdk [TICK_ARRAY_SEED, pool, map of_char (i32_to_string start_index)] program"

definition oracle_address :: "sdk \<Rightarrow> pubkey \<Rightarrow> pubkey \<Rightarrow> pubkey" where
  "oracle_address sdk program pool = find_program_address sdk [ORACLE_SEED, pool] program"

section \<open>The market\<close>

record whirlpool_market =
  wpm_state :: whirlpool_state
  wpm_oracle :: pubkey
  wpm_token_program_a :: pubkey
  wpm_token_program_b :: pubkey
  wpm_decimals_a :: u8
  wpm_decimals_b :: u8
  wpm_vault_a_balance :: u64
  wpm_vault_b_balance :: u64
  wpm_transfer_fee_a :: "transfer_fee_schedule option"
  wpm_transfer_fee_b :: "transfer_fee_schedule option"
  wpm_ticks :: "initialized_tick list"
  wpm_available_tick_array_starts :: "i32 list"

fun push_new_starts :: "i32 list \<Rightarrow> i32 list \<Rightarrow> i32 list" where
  "push_new_starts [] starts = starts"
| "push_new_starts (start # rest) starts =
     push_new_starts rest (if start \<notin> set starts then starts @ [start] else starts)"

text \<open>The loop of \<open>load\<close> over the arrays: the ticks of those that exist, and their start indices.\<close>

fun collect_arrays ::
  "pubkey \<Rightarrow> u16 \<Rightarrow> account option list \<Rightarrow> nat \<Rightarrow> i32 list \<Rightarrow> initialized_tick list \<Rightarrow> i32 list
     \<Rightarrow> (initialized_tick list \<times> i32 list) direct_swap_result" where
  "collect_arrays pool tick_spacing accounts index [] ticks available = Inr (ticks, available)"
| "collect_arrays pool tick_spacing accounts index (start # rest) ticks available =
     (if index < length accounts then
        case accounts ! index of
          Some account \<Rightarrow>
            (case orca_decode_tick_array (acc_data account) start tick_spacing of
               Some decoded \<Rightarrow>
                 collect_arrays pool tick_spacing accounts (Suc index) rest (ticks @ decoded) (available @ [start])
             | None \<Rightarrow> Inl (PoolUndecodable pool ''tick array {} did not match the expected layout''))
        | None \<Rightarrow> collect_arrays pool tick_spacing accounts (Suc index) rest ticks available
      else collect_arrays pool tick_spacing accounts (Suc index) rest ticks available)"

text \<open>The check of an oracle that exists: only one that decodes to a factor of zero is accepted.\<close>

definition oracle_inert :: "account option list \<Rightarrow> bool" where
  "oracle_inert accounts \<longleftrightarrow>
     (if 4 < length accounts then
        case accounts ! 4 of
          Some account \<Rightarrow> oracle_has_active_adaptive_fee (acc_data account) = Some False
        | None \<Rightarrow> True
      else True)"

definition whirlpool_load ::
  "sdk \<Rightarrow> pubkey \<Rightarrow> account \<Rightarrow> account_reader \<Rightarrow> whirlpool_market direct_swap_result" where
  "whirlpool_load sdk pool pool_account reader =
     and_then (ok_or (whirlpool_decode pool (acc_data pool_account))
       (PoolUndecodable pool ''Whirlpool state did not match the expected layout ({} bytes)'')) (\<lambda>state.
     if wps_liquidity state = 0
     then Inl (InsufficientLiquidity pool 0 ''the pool has no liquidity in range at the current tick'')
     else
       let program = whirlpool_program_id sdk;
           oracle = oracle_address sdk program pool;
           candidates = candidate_tick_array_starts (wps_tick_current state) (wps_tick_spacing state);
           tick_array_starts = push_new_starts (candidates True @ candidates False) [];
           fixed_addresses = [wps_vault_a state, wps_vault_b state, wps_mint_a state, wps_mint_b state, oracle];
           addresses = fixed_addresses @ map (orca_tick_array_address sdk program pool) tick_array_starts in
       and_then (reader addresses) (\<lambda>accounts.
       let fetched = required addresses accounts ''account does not exist'' in
       and_then (fetched 0) (\<lambda>vault_a.
       and_then (ok_or (token_account_amount (acc_data vault_a))
         (PoolUndecodable pool ''token_vault_a is not a token account'')) (\<lambda>vault_a_balance.
       and_then (fetched 1) (\<lambda>vault_b.
       and_then (ok_or (token_account_amount (acc_data vault_b))
         (PoolUndecodable pool ''token_vault_b is not a token account'')) (\<lambda>vault_b_balance.
       and_then (fetched 2) (\<lambda>mint_a_account.
       and_then (fetched 3) (\<lambda>mint_b_account.
       and_then (ok_or (mint_decimals (acc_data mint_a_account))
         (PoolUndecodable pool ''token_mint_a is not a mint account'')) (\<lambda>decimals_a.
       and_then (ok_or (mint_decimals (acc_data mint_b_account))
         (PoolUndecodable pool ''token_mint_b is not a mint account'')) (\<lambda>decimals_b.
       if \<not> oracle_inert accounts
       then Inl (PoolNotTradable pool ''this pool's oracle account either drives an adaptive fee or does not decode -- fee_rate alone cannot be trusted as the whole fee'')
       else
         and_then (collect_arrays pool (wps_tick_spacing state) accounts (length fixed_addresses)
           tick_array_starts [] []) (\<lambda>(ticks, available).
         if available = []
         then Inl (PoolNotTradable pool ''not one tick array around the current tick exists on chain'')
         else Inr \<lparr>wpm_state = state, wpm_oracle = oracle,
                wpm_token_program_a = acc_owner mint_a_account, wpm_token_program_b = acc_owner mint_b_account,
                wpm_decimals_a = decimals_a, wpm_decimals_b = decimals_b,
                wpm_vault_a_balance = vault_a_balance, wpm_vault_b_balance = vault_b_balance,
                wpm_transfer_fee_a = transfer_fee_schedule_of sdk mint_a_account,
                wpm_transfer_fee_b = transfer_fee_schedule_of sdk mint_b_account,
                wpm_ticks = dedup_by_key it_tick (sort_key it_tick ticks),
                wpm_available_tick_array_starts = available\<rparr>)))))))))))"

definition whirlpool_is_side_a :: "whirlpool_market \<Rightarrow> pubkey \<Rightarrow> bool option" where
  "whirlpool_is_side_a m mint = side_of (wps_mint_a (wpm_state m)) (wps_mint_b (wpm_state m)) mint"

definition whirlpool_transfer_fee :: "whirlpool_market \<Rightarrow> bool \<Rightarrow> transfer_fee_schedule option" where
  "whirlpool_transfer_fee m side_a = (if side_a then wpm_transfer_fee_a m else wpm_transfer_fee_b m)"

definition whirlpool_reserve :: "whirlpool_market \<Rightarrow> bool \<Rightarrow> u64" where
  "whirlpool_reserve m side_a =
     (if side_a then saturating_sub (wpm_vault_a_balance m) (wps_protocol_fee_owed_a (wpm_state m))
      else saturating_sub (wpm_vault_b_balance m) (wps_protocol_fee_owed_b (wpm_state m)))"

definition whirlpool_output_reserve :: "whirlpool_market \<Rightarrow> bool \<Rightarrow> u64" where
  "whirlpool_output_reserve m input_is_a = whirlpool_reserve m (\<not> input_is_a)"

text \<open>The start indices the instruction names: the existing candidates, the last one repeated.\<close>

definition swap_array_starts :: "whirlpool_market \<Rightarrow> bool \<Rightarrow> i32 list" where
  "swap_array_starts m zero_for_one =
     (let starts = filter (\<lambda>start. start \<in> set (wpm_available_tick_array_starts m))
            (candidate_tick_array_starts (wps_tick_current (wpm_state m)) (wps_tick_spacing (wpm_state m)) zero_for_one)
      in if starts = [] then []
         else take ORCA_TICK_ARRAYS_PER_SWAP
           (starts @ replicate (ORCA_TICK_ARRAYS_PER_SWAP - length starts) (last starts)))"

definition whirlpool_tick_array_accounts :: "sdk \<Rightarrow> whirlpool_market \<Rightarrow> bool \<Rightarrow> pubkey list" where
  "whirlpool_tick_array_accounts sdk m zero_for_one =
     map (orca_tick_array_address sdk (whirlpool_program_id sdk) (wps_pool (wpm_state m)))
       (swap_array_starts m zero_for_one)"

definition whirlpool_walk :: "whirlpool_market \<Rightarrow> bool \<Rightarrow> u64 \<Rightarrow> (u64 \<times> u64 \<times> u128) direct_swap_result" where
  "whirlpool_walk m zero_for_one amount_in =
     (let candidates = ticks_ahead (wpm_ticks m) (wps_tick_current (wpm_state m)) zero_for_one in
      walk_ticks (wps_pool (wpm_state m)) candidates (wps_liquidity (wpm_state m))
        (wps_sqrt_price (wpm_state m)) (ucast (wps_fee_rate (wpm_state m)))
        ORCA_FEE_RATE_DENOMINATOR zero_for_one amount_in)"

definition whirlpool_token_program :: "whirlpool_market \<Rightarrow> pubkey \<Rightarrow> pubkey option" where
  "whirlpool_token_program m mint =
     map_option (\<lambda>side_a. if side_a then wpm_token_program_a m else wpm_token_program_b m) (whirlpool_is_side_a m mint)"

definition whirlpool_decimals :: "whirlpool_market \<Rightarrow> pubkey \<Rightarrow> u8 option" where
  "whirlpool_decimals m mint =
     map_option (\<lambda>side_a. if side_a then wpm_decimals_a m else wpm_decimals_b m) (whirlpool_is_side_a m mint)"

definition whirlpool_quote :: "whirlpool_market \<Rightarrow> pubkey \<Rightarrow> u64 \<Rightarrow> venue_quote direct_swap_result" where
  "whirlpool_quote m input_mint amount_in =
     and_then (ok_or (whirlpool_is_side_a m input_mint)
       (PairNotInPool (wps_pool (wpm_state m)) input_mint default_pubkey)) (\<lambda>input_is_a.
     let received_by_pool = net_of_fee (whirlpool_transfer_fee m input_is_a) amount_in in
     if received_by_pool = 0
     then Inl (InsufficientLiquidity (wps_pool (wpm_state m)) amount_in
            ''the input transfer fee consumes the whole amount at this size'')
     else
       and_then (whirlpool_walk m input_is_a received_by_pool) (\<lambda>(gross_out, lp_fee, sqrt_next).
       if gross_out = 0
       then Inl (InsufficientLiquidity (wps_pool (wpm_state m)) amount_in
              ''fees consume the whole input at this size'')
       else
         let expected_out = net_of_fee (whirlpool_transfer_fee m (\<not> input_is_a)) gross_out in
         if expected_out = 0 \<or> whirlpool_output_reserve m input_is_a \<le> expected_out
         then Inl (InsufficientLiquidity (wps_pool (wpm_state m)) amount_in
                ''the output exceeds what the pool's vault holds'')
         else Inr \<lparr>vq_amount_in = amount_in, vq_expected_out = expected_out, vq_lp_fee = lp_fee,
                vq_price_impact_pct = sqrt_price_impact (wps_sqrt_price (wpm_state m)) sqrt_next\<rparr>))"

definition owner_account_a :: "swap_accounts \<Rightarrow> bool \<Rightarrow> pubkey" where
  "owner_account_a accounts input_is_a =
     (if input_is_a then sa_input_token_account accounts else sa_output_token_account accounts)"

definition owner_account_b :: "swap_accounts \<Rightarrow> bool \<Rightarrow> pubkey" where
  "owner_account_b accounts input_is_a =
     (if input_is_a then sa_output_token_account accounts else sa_input_token_account accounts)"

text \<open>The accounts around the tick arrays, in the order of \<open>swap_v2\<close> and of \<open>swap\<close>.\<close>

definition swap_v2_accounts :: "sdk \<Rightarrow> whirlpool_market \<Rightarrow> swap_accounts \<Rightarrow> bool \<Rightarrow> pubkey list \<Rightarrow> account_meta list" where
  "swap_v2_accounts sdk m accounts input_is_a tick_arrays =
     (let state = wpm_state m in
      [meta_new_readonly (wpm_token_program_a m) False,
       meta_new_readonly (wpm_token_program_b m) False,
       meta_new_readonly (memo_program_id sdk) False,
       meta_new_readonly (sa_owner accounts) True,
       meta_new (wps_pool state) False,
       meta_new_readonly (wps_mint_a state) False,
       meta_new_readonly (wps_mint_b state) False,
       meta_new (owner_account_a accounts input_is_a) False,
       meta_new (wps_vault_a state) False,
       meta_new (owner_account_b accounts input_is_a) False,
       meta_new (wps_vault_b state) False]
      @ map (\<lambda>array. meta_new array False) (take ORCA_TICK_ARRAYS_PER_SWAP tick_arrays)
      @ [meta_new (wpm_oracle m) False])"

definition swap_v1_accounts :: "sdk \<Rightarrow> whirlpool_market \<Rightarrow> swap_accounts \<Rightarrow> bool \<Rightarrow> pubkey list \<Rightarrow> account_meta list" where
  "swap_v1_accounts sdk m accounts input_is_a tick_arrays =
     (let state = wpm_state m in
      [meta_new_readonly (spl_token_id sdk) False,
       meta_new_readonly (sa_owner accounts) True,
       meta_new (wps_pool state) False,
       meta_new (owner_account_a accounts input_is_a) False,
       meta_new (wps_vault_a state) False,
       meta_new (owner_account_b accounts input_is_a) False,
       meta_new (wps_vault_b state) False]
      @ map (\<lambda>array. meta_new array False) (take ORCA_TICK_ARRAYS_PER_SWAP tick_arrays)
      @ [meta_new_readonly (wpm_oracle m) False])"

definition whirlpool_swap_instruction ::
  "sdk \<Rightarrow> whirlpool_market \<Rightarrow> swap_accounts \<Rightarrow> u64 \<Rightarrow> u64 \<Rightarrow> instruction direct_swap_result" where
  "whirlpool_swap_instruction sdk m accounts amount_in min_out =
     and_then (oriented_pair (wps_pool (wpm_state m)) (whirlpool_is_side_a m) accounts) (\<lambda>input_is_a.
     let tick_arrays = whirlpool_tick_array_accounts sdk m input_is_a in
     if length tick_arrays \<noteq> ORCA_TICK_ARRAYS_PER_SWAP
     then Inl (InsufficientLiquidity (wps_pool (wpm_state m)) amount_in
            ''no tick array in the swap direction exists on chain'')
     else
       let uses_token_2022 =
             (wpm_token_program_a m = spl_token_2022_id sdk \<or> wpm_token_program_b m = spl_token_2022_id sdk)
       in Inr \<lparr>ix_program_id = whirlpool_program_id sdk,
            ix_accounts =
              (if uses_token_2022 then swap_v2_accounts sdk m accounts input_is_a tick_arrays
               else swap_v1_accounts sdk m accounts input_is_a tick_arrays),
            ix_data = (if uses_token_2022 then ORCA_SWAP_V2 else ORCA_SWAP)
              @ u64_to_le_bytes amount_in @ u64_to_le_bytes min_out
              @ u128_to_le_bytes 0 @ [1] @ [if input_is_a then 1 else 0]
              @ (if uses_token_2022 then [0] else [])\<rparr>)"

definition whirlpool_as_market :: "sdk \<Rightarrow> whirlpool_market \<Rightarrow> pool_market" where
  "whirlpool_as_market sdk m =
     \<lparr>pm_program = OrcaWhirlpool, pm_pool = wps_pool (wpm_state m),
      pm_mints = (wps_mint_a (wpm_state m), wps_mint_b (wpm_state m)),
      pm_token_program = whirlpool_token_program m, pm_decimals = whirlpool_decimals m,
      pm_quote = whirlpool_quote m, pm_swap_instruction = whirlpool_swap_instruction sdk m,
      pm_compute_units = ORCA_COMPUTE_UNITS, pm_settles_native_sol = False\<rparr>"

section \<open>Decoding\<close>

lemma whirlpool_decode_None: "whirlpool_decode pool data = None \<longleftrightarrow> length data < 245"
  unfolding whirlpool_decode_def by (auto simp: read_at)

lemma whirlpool_decode_pool: "whirlpool_decode pool data = Some state \<Longrightarrow> wps_pool state = pool"
  by (auto simp: whirlpool_decode_def Option.bind_eq_Some_conv)

text \<open>The ticks of a dynamic array are those of its bitmap, and its slots fill the account.\<close>

lemma decode_dynamic_step:
  assumes "decode_dynamic_slots data start sp bm (i # slots) off ticks = Some r"
  shows "if bit bm i
    then \<exists>net. decode_dynamic_slots data start sp bm slots (113 + off)
        (ticks @ [\<lparr>it_tick = slot_tick start sp i, it_liquidity_net = net\<rparr>]) = Some r
    else decode_dynamic_slots data start sp bm slots (Suc off) ticks = Some r"
  using assms unfolding decode_dynamic_slots.simps bit_iff_and_push_bit_not_eq_0
  by (auto simp: Let_def Option.bind_eq_Some_conv DYNAMIC_TICK_DATA_SIZE_def split: if_splits)

lemma decode_dynamic_slots_ok:
  "decode_dynamic_slots data start sp bm slots off ticks = Some (found, off') \<Longrightarrow>
     map it_tick found = map it_tick ticks @ map (slot_tick start sp) (filter (bit bm) slots)
     \<and> off' = off + length slots + 112 * length (filter (bit bm) slots)"
proof (induction slots arbitrary: off ticks)
  case Nil
  then show ?case by simp
next
  case (Cons i slots)
  show ?case
  proof (cases "bit bm i")
    case True
    then obtain net where "decode_dynamic_slots data start sp bm slots (113 + off)
        (ticks @ [\<lparr>it_tick = slot_tick start sp i, it_liquidity_net = net\<rparr>]) = Some (found, off')"
      using decode_dynamic_step [OF Cons.prems] by auto
    from Cons.IH [OF this] True show ?thesis by simp
  next
    case False
    then have "decode_dynamic_slots data start sp bm slots (Suc off) ticks = Some (found, off')"
      using decode_dynamic_step [OF Cons.prems] by simp
    from Cons.IH [OF this] False show ?thesis by simp
  qed
qed

lemma decode_dynamic_ok:
  assumes "decode_dynamic_tick_array data start sp = Some ticks"
  obtains bitmap where "u128_at data 44 = Some bitmap" and "i32_at data 8 = Some start"
    and "map it_tick ticks = map (slot_tick start sp) (filter (bit bitmap) [0..<88])"
    and "length data = 148 + 112 * length ticks"
proof -
  obtain bitmap off where b: "u128_at data 44 = Some bitmap" "i32_at data 8 = Some start"
    and d: "decode_dynamic_slots data start sp bitmap [0..<88] 60 [] = Some (ticks, off)" and off: "off = length data"
    using assms
    by (auto simp: decode_dynamic_tick_array_def Option.bind_eq_Some_conv DYNAMIC_TICK_BITMAP_OFFSET_def
        DYNAMIC_TICKS_OFFSET_def ORCA_TICK_ARRAY_SIZE_def split: if_splits)
  have t: "map it_tick ticks = map (slot_tick start sp) (filter (bit bitmap) [0..<88])"
    and o: "off = 60 + 88 + 112 * length (filter (bit bitmap) [0..<88])"
    using decode_dynamic_slots_ok [OF d] by simp_all
  have "length ticks = length (filter (bit bitmap) [0..<88])" using t by (metis length_map)
  then show ?thesis using that [OF b t] o off by simp
qed

section \<open>The arrays of a swap\<close>

lemma i32_to_string_inj: "i32_to_string m = i32_to_string n \<Longrightarrow> m = n"
proof -
  have inj: "decimal a = decimal b \<Longrightarrow> a = b" for a b
    by (metis option.inject parse_digits_decimal)
  have "digit_value (CHR ''-'') = None" by (simp add: digit_value_def)
  then have minus: "decimal a \<noteq> CHR ''-'' # cs" for a cs
    using parse_digits_decimal [of a] by auto
  assume eq: "i32_to_string m = i32_to_string n"
  show "m = n"
  proof (cases "m < 0")
    case True
    then have "i32_to_string n = CHR ''-'' # decimal (nat (- m))" using eq by (simp add: i32_to_string_def)
    then have "n < 0" "decimal (nat (- n)) = decimal (nat (- m))"
      using minus by (auto simp: i32_to_string_def split: if_splits)
    then show ?thesis using inj [of "nat (- n)" "nat (- m)"] True by linarith
  next
    case False
    then have "i32_to_string n = decimal (nat m)" using eq by (simp add: i32_to_string_def)
    then have "\<not> n < 0" "decimal (nat n) = decimal (nat m)"
      using minus [of "nat m", symmetric] by (auto simp: i32_to_string_def split: if_splits)
    then show ?thesis using inj [of "nat n" "nat m"] False by linarith
  qed
qed

lemma orca_span_eq: "orca_span s = 88 * int (unat s)"
  using u16_bound [of s]
  by (simp add: orca_span_def ORCA_TICK_ARRAY_SIZE_def wrap_i32_id in_i32_def uint_nat del: of_nat_unat)

lemma orca_start_floor:
  assumes "s \<noteq> 0" and "MIN_TICK \<le> tick" and "tick \<le> MAX_TICK"
  shows "orca_tick_array_start_index tick s = tick - tick mod orca_span s"
proof -
  have "0 < unat s" using assms(1) by (simp add: unat_gt_0)
  then have pos: "0 < orca_span s" unfolding orca_span_eq by linarith
  have small: "orca_span s \<le> 88 * 65536" unfolding orca_span_eq using u16_bound [of s] by linarith
  have "0 \<le> tick mod orca_span s" "tick mod orca_span s < orca_span s" using pos by simp_all
  then have "in_i32 (tick div orca_span s * orca_span s)"
    unfolding in_i32_def minus_mod_eq_div_mult [symmetric]
    using small assms(2,3) by (simp add: MIN_TICK_def MAX_TICK_def)
  then show ?thesis
    unfolding orca_tick_array_start_index_def Let_def floor_from_trunc [OF pos]
    using pos by (simp add: wrap_i32_id minus_mod_eq_div_mult)
qed

text \<open>For a tick the program allows, the candidates are the array of the tick and its two neighbours.\<close>

lemma candidate_starts_eq:
  assumes "s \<noteq> 0" and "MIN_TICK \<le> tick" and "tick \<le> MAX_TICK"
  shows "candidate_tick_array_starts tick s zfo =
    (let start = tick - tick mod orca_span s; step = (if zfo then - orca_span s else orca_span s)
     in [start, start + step, start + step + step])"
proof -
  define span where "span = orca_span s"
  have "0 < unat s" using assms(1) by (simp add: unat_gt_0)
  then have pos: "0 < span" unfolding span_def orca_span_eq by linarith
  have small: "span \<le> 88 * 65536" unfolding span_def orca_span_eq using u16_bound [of s] by linarith
  have m: "0 \<le> tick mod span" "tick mod span < span" using pos by simp_all
  have range: "in_i32 (tick - tick mod span + k)" if "\<bar>k\<bar> \<le> 2 * span" for k
    using that m small assms(2,3) by (auto simp: in_i32_def MIN_TICK_def MAX_TICK_def abs_le_iff)
  define step where "step = (if zfo then - span else span)"
  have "\<bar>step\<bar> \<le> 2 * span" "\<bar>step + step\<bar> \<le> 2 * span" using pos by (simp_all add: step_def)
  then have "in_i32 (tick - tick mod span + step)" "in_i32 (tick - tick mod span + step + step)"
    using range [of step] range [of "step + step"] by (simp_all only: add.assoc)
  then show ?thesis
    using pos
    by (cases zfo) (simp_all add: candidate_tick_array_starts_def ORCA_TICK_ARRAYS_PER_SWAP_def numeral_3_eq_3 Let_def
        orca_start_floor [OF assms] span_def [symmetric] step_def)
qed

lemma swap_array_starts_ok:
  assumes "swap_array_starts m zfo \<noteq> []"
  shows "length (swap_array_starts m zfo) = 3"
    and "set (swap_array_starts m zfo) \<subseteq> set (wpm_available_tick_array_starts m)"
    and "set (swap_array_starts m zfo) \<subseteq>
      set (candidate_tick_array_starts (wps_tick_current (wpm_state m)) (wps_tick_spacing (wpm_state m)) zfo)"
proof -
  define starts where "starts = filter (\<lambda>start. start \<in> set (wpm_available_tick_array_starts m))
    (candidate_tick_array_starts (wps_tick_current (wpm_state m)) (wps_tick_spacing (wpm_state m)) zfo)"
  have ne: "starts \<noteq> []" and eq: "swap_array_starts m zfo = take 3 (starts @ replicate (3 - length starts) (last starts))"
    using assms by (auto simp: swap_array_starts_def starts_def [symmetric] Let_def ORCA_TICK_ARRAYS_PER_SWAP_def split: if_splits)
  have "set (swap_array_starts m zfo) \<subseteq> set (starts @ replicate (3 - length starts) (last starts))"
    unfolding eq by (rule set_take_subset)
  also have "\<dots> \<subseteq> set starts" using ne by (auto simp: set_replicate_conv_if split: if_splits)
  finally show "set (swap_array_starts m zfo) \<subseteq> set (wpm_available_tick_array_starts m)"
    and "set (swap_array_starts m zfo) \<subseteq>
      set (candidate_tick_array_starts (wps_tick_current (wpm_state m)) (wps_tick_spacing (wpm_state m)) zfo)"
    by (auto simp: starts_def)
  show "length (swap_array_starts m zfo) = 3" unfolding eq by simp
qed

section \<open>Loading\<close>

text \<open>An array is remembered as available exactly when the batch returned its account.\<close>

lemma collect_arrays_available:
  "collect_arrays pool sp accounts index starts ticks avail = Inr (ticks', avail') \<Longrightarrow> x \<in> set avail' \<Longrightarrow>
     x \<in> set avail \<or>
     (\<exists>k < length starts. starts ! k = x \<and> index + k < length accounts \<and> accounts ! (index + k) \<noteq> None)"
proof (induction pool sp accounts index starts ticks avail rule: collect_arrays.induct)
  case (1 pool sp accounts index ticks avail)
  then show ?case by simp
next
  case (2 pool sp accounts index start rest ticks avail)
  define P where "P = (\<lambda>k. k < length (start # rest) \<and> (start # rest) ! k = x \<and> index + k < length accounts
     \<and> accounts ! (index + k) \<noteq> None)"
  have later: "Ex P" if late: "\<exists>k < length rest. rest ! k = x \<and> Suc index + k < length accounts \<and> accounts ! (Suc index + k) \<noteq> None"
  proof -
    obtain k where "k < length rest" "rest ! k = x" "Suc index + k < length accounts" "accounts ! (Suc index + k) \<noteq> None"
      using late by blast
    then have "P (Suc k)" by (simp add: P_def)
    then show ?thesis by blast
  qed
  have "x \<in> set avail \<or> Ex P"
  proof (cases "index < length accounts \<and> accounts ! index \<noteq> None")
    case True
    then obtain account decoded where a: "accounts ! index = Some account"
      and d: "orca_decode_tick_array (acc_data account) start sp = Some decoded"
      and rec: "collect_arrays pool sp accounts (Suc index) rest (ticks @ decoded) (avail @ [start]) = Inr (ticks', avail')"
      using "2.prems"(1) by (auto split: option.splits)
    have "P 0" if "x = start" using True that by (simp add: P_def)
    then show ?thesis using "2.IH"(2) [OF _ a d rec "2.prems"(2)] True later by auto
  next
    case False
    then have rec: "collect_arrays pool sp accounts (Suc index) rest ticks avail = Inr (ticks', avail')"
      using "2.prems"(1) by (auto split: if_splits)
    then show ?thesis using "2.IH"(1,3) "2.prems"(2) False later by blast
  qed
  then show ?case unfolding P_def by blast
qed

lemma whirlpool_load_ok:
  assumes "whirlpool_load sdk pool acc reader = Inr m"
  obtains addresses accounts where "reader addresses = Inr accounts"
    and "whirlpool_decode pool (acc_data acc) = Some (wpm_state m)" and "wps_liquidity (wpm_state m) \<noteq> 0"
    and "wpm_available_tick_array_starts m \<noteq> []"
    and "sorted_wrt (\<lambda>t u. it_tick t < it_tick u) (wpm_ticks m)"
    and "\<And>start. start \<in> set (wpm_available_tick_array_starts m) \<Longrightarrow>
      \<exists>i < length addresses. addresses ! i = orca_tick_array_address sdk (whirlpool_program_id sdk) pool start
        \<and> i < length accounts \<and> accounts ! i \<noteq> None"
proof -
  obtain state where state: "whirlpool_decode pool (acc_data acc) = Some state" "wps_liquidity state \<noteq> 0"
    using assms by (auto simp: whirlpool_load_def split: if_splits)
  define starts where "starts = push_new_starts (candidate_tick_array_starts (wps_tick_current state) (wps_tick_spacing state) True
     @ candidate_tick_array_starts (wps_tick_current state) (wps_tick_spacing state) False) []"
  define addresses where "addresses = wps_vault_a state # wps_vault_b state # wps_mint_a state # wps_mint_b state
     # oracle_address sdk (whirlpool_program_id sdk) pool # map (orca_tick_array_address sdk (whirlpool_program_id sdk) pool) starts"
  obtain accounts ticks where r: "reader addresses = Inr accounts"
    and c: "collect_arrays pool (wps_tick_spacing state) accounts (Suc (Suc (Suc (Suc (Suc 0))))) starts [] []
       = Inr (ticks, wpm_available_tick_array_starts m)"
    and m: "wpm_state m = state" "wpm_ticks m = dedup_by_key it_tick (sort_key it_tick ticks)"
      "wpm_available_tick_array_starts m \<noteq> []"
    using assms state
    by (auto simp: whirlpool_load_def Let_def starts_def [symmetric] addresses_def [symmetric] split: if_splits)
  show ?thesis
  proof (rule that [OF r])
    show "\<exists>i < length addresses. addresses ! i = orca_tick_array_address sdk (whirlpool_program_id sdk) pool start
        \<and> i < length accounts \<and> accounts ! i \<noteq> None" if avail: "start \<in> set (wpm_available_tick_array_starts m)" for start
    proof -
      obtain k where "k < length starts" "starts ! k = start" "5 + k < length accounts" "accounts ! (5 + k) \<noteq> None"
        using collect_arrays_available [OF c avail] by (auto simp: eval_nat_numeral)
      then show ?thesis by (intro exI [of _ "5 + k"]) (simp add: addresses_def eval_nat_numeral)
    qed
  qed (use state m in \<open>simp_all add: dedup_sorted_strict\<close>)
qed

section \<open>Quotes\<close>

lemma whirlpool_quote_ok:
  assumes "whirlpool_quote m mint a = Inr q"
  obtains s gross after where
    "whirlpool_is_side_a m mint = Some s"
    and "whirlpool_walk m s (net_of_fee (whirlpool_transfer_fee m s) a) = Inr (gross, vq_lp_fee q, after)"
    and "vq_expected_out q = net_of_fee (whirlpool_transfer_fee m (\<not> s)) gross"
    and "0 < unat (vq_expected_out q)"
    and "unat (vq_expected_out q) < unat (whirlpool_output_reserve m s)"
    and "vq_amount_in q = a"
    and "vq_price_impact_pct q = sqrt_price_impact (wps_sqrt_price (wpm_state m)) after"
proof -
  obtain s where s: "whirlpool_is_side_a m mint = Some s"
    using assms by (auto simp: whirlpool_quote_def)
  obtain gross fee after where w: "whirlpool_walk m s (net_of_fee (whirlpool_transfer_fee m s) a) = Inr (gross, fee, after)"
    using assms s by (auto simp: whirlpool_quote_def Let_def split: if_splits)
  show ?thesis
    by (rule that [of s gross after])
      (use assms s w in \<open>auto simp: whirlpool_quote_def Let_def unat_gt_0 word_le_nat_alt not_le split: if_splits\<close>)
qed

lemma whirlpool_quote_fee_le: "whirlpool_quote m mint a = Inr q \<Longrightarrow> unat (vq_lp_fee q) \<le> unat a"
proof (erule whirlpool_quote_ok)
  fix s gross after
  assume "whirlpool_walk m s (net_of_fee (whirlpool_transfer_fee m s) a) = Inr (gross, vq_lp_fee q, after)"
  then have "unat (vq_lp_fee q) \<le> unat (net_of_fee (whirlpool_transfer_fee m s) a)"
    unfolding whirlpool_walk_def Let_def by (rule walk_ticks_fee_bound)
  then show ?thesis using net_of_fee_le [of "whirlpool_transfer_fee m s" a] by linarith
qed

section \<open>The contract\<close>

lemma whirlpool_side: "whirlpool_is_side_a m = side_of (wps_mint_a (wpm_state m)) (wps_mint_b (wpm_state m))"
  by (rule ext) (simp add: whirlpool_is_side_a_def)

lemmas whirlpool_as_market_simps = whirlpool_as_market_def holds_def whirlpool_side

lemma whirlpool_swap_ok:
  assumes "whirlpool_swap_instruction sdk m accounts a mo = Inr ix"
  obtains s tail where "oriented_pair (wps_pool (wpm_state m)) (whirlpool_is_side_a m) accounts = Inr s"
    and "length (whirlpool_tick_array_accounts sdk m s) = 3"
    and "ix_program_id ix = whirlpool_program_id sdk"
    and "ix_accounts ix = swap_v2_accounts sdk m accounts s (whirlpool_tick_array_accounts sdk m s)
       \<or> ix_accounts ix = swap_v1_accounts sdk m accounts s (whirlpool_tick_array_accounts sdk m s)"
    and "ix_data ix = ORCA_SWAP_V2 @ u64_to_le_bytes a @ u64_to_le_bytes mo @ tail
       \<or> ix_data ix = ORCA_SWAP @ u64_to_le_bytes a @ u64_to_le_bytes mo @ tail"
proof -
  obtain s where s: "oriented_pair (wps_pool (wpm_state m)) (whirlpool_is_side_a m) accounts = Inr s"
    using assms by (auto simp: whirlpool_swap_instruction_def)
  show ?thesis
    by (rule that [OF s, of "u128_to_le_bytes 0 @ [1] @ [if s then 1 else 0]
        @ (if wpm_token_program_a m = spl_token_2022_id sdk \<or> wpm_token_program_b m = spl_token_2022_id sdk then [0] else [])"])
      (use assms s in \<open>auto simp: whirlpool_swap_instruction_def Let_def ORCA_TICK_ARRAYS_PER_SWAP_def split: if_splits\<close>)
qed

lemma whirlpool_swap_contract:
  assumes "whirlpool_swap_instruction sdk m accounts a mo = Inr ix"
  shows "swap_contract 8 16 (whirlpool_as_market sdk m) accounts a mo ix"
proof (cases rule: whirlpool_swap_ok [OF assms])
  case (1 s tail)
  have pair: "trades (whirlpool_as_market sdk m) (sa_input_mint accounts) (sa_output_mint accounts)"
    using 1(1) unfolding whirlpool_side by (rule oriented_pair_trades) (simp add: whirlpool_as_market_def)
  have len: "length ORCA_SWAP_V2 = 8" "length ORCA_SWAP = 8" by (simp_all add: ORCA_SWAP_V2_def ORCA_SWAP_def)
  have amounts: "u64_at (ix_data ix) 8 = Some a" "u64_at (ix_data ix) 16 = Some mo"
    using 1(5) swap_data_read [OF len(1), of a mo tail] swap_data_read [OF len(2), of a mo tail] by auto
  show ?thesis
    unfolding swap_contract_def
    using 1(3,4) pair amounts
    by (auto simp: swap_v2_accounts_def swap_v1_accounts_def owner_account_a_def owner_account_b_def Let_def
        meta_new_def meta_new_readonly_def list_all_iff)
qed

interpretation whirlpool: market "whirlpool_as_market sdk" "\<lambda>_ _. 8" "\<lambda>_ _. 16"
proof
  fix m :: whirlpool_market and mint a q accounts mo ix
  show "pm_token_program (whirlpool_as_market sdk m) mint \<noteq> None \<longleftrightarrow> holds (whirlpool_as_market sdk m) mint"
    by (simp add: whirlpool_as_market_simps whirlpool_token_program_def)
  show "pm_decimals (whirlpool_as_market sdk m) mint \<noteq> None \<longleftrightarrow> holds (whirlpool_as_market sdk m) mint"
    by (simp add: whirlpool_as_market_simps whirlpool_decimals_def)
  show "holds (whirlpool_as_market sdk m) mint \<and> sane_quote a q"
    if "pm_quote (whirlpool_as_market sdk m) mint a = Inr q"
  proof -
    have "whirlpool_quote m mint a = Inr q" using that by (simp add: whirlpool_as_market_def)
    then show ?thesis
      by (rule whirlpool_quote_ok)
        (auto simp: whirlpool_as_market_simps sane_quote_def sqrt_price_impact_range dest!: side_of_Some)
  qed
  show "swap_contract 8 16 (whirlpool_as_market sdk m) accounts a mo ix"
    if "pm_swap_instruction (whirlpool_as_market sdk m) accounts a mo = Inr ix"
    using that by (intro whirlpool_swap_contract) (simp add: whirlpool_as_market_def)
qed

section \<open>Properties\<close>

text \<open>
  A swap on a loaded Whirlpool names three tick arrays in front of the oracle, and each of
  them is an address the loader asked for and got an account for: the instruction never names an
  array that does not exist.
\<close>

theorem whirlpool_swap_arrays_exist:
  assumes "whirlpool_load sdk pool acc reader = Inr m"
    and "whirlpool_swap_instruction sdk m accounts a mo = Inr ix"
  shows "\<exists>addresses batch pre arrays. reader addresses = Inr batch
     \<and> map meta_pubkey (ix_accounts ix) = pre @ arrays @ [wpm_oracle m] \<and> length arrays = 3
     \<and> (\<forall>array \<in> set arrays. \<exists>i < length addresses. addresses ! i = array \<and> i < length batch \<and> batch ! i \<noteq> None)"
proof (cases rule: whirlpool_load_ok [OF assms(1)])
  case (1 addresses batch)
  have pool: "wps_pool (wpm_state m) = pool"
    using 1(2) by (rule whirlpool_decode_pool)
  obtain s where len: "length (whirlpool_tick_array_accounts sdk m s) = 3"
    and ix: "ix_accounts ix = swap_v2_accounts sdk m accounts s (whirlpool_tick_array_accounts sdk m s)
       \<or> ix_accounts ix = swap_v1_accounts sdk m accounts s (whirlpool_tick_array_accounts sdk m s)"
    by (rule whirlpool_swap_ok [OF assms(2)])
  let ?arrays = "whirlpool_tick_array_accounts sdk m s"
  have "swap_array_starts m s \<noteq> []" using len by (auto simp: whirlpool_tick_array_accounts_def)
  then have "\<exists>i < length addresses. addresses ! i = array \<and> i < length batch \<and> batch ! i \<noteq> None"
    if "array \<in> set ?arrays" for array
    using that swap_array_starts_ok(2) [of m s] 1(6) pool by (auto simp: whirlpool_tick_array_accounts_def)
  moreover have "\<exists>pre. map meta_pubkey (ix_accounts ix) = pre @ ?arrays @ [wpm_oracle m]"
    using ix len
    by (auto simp: swap_v2_accounts_def swap_v1_accounts_def Let_def ORCA_TICK_ARRAYS_PER_SWAP_def comp_def
        meta_new_def meta_new_readonly_def simp flip: append_Cons append_assoc)
  ultimately show ?thesis using 1(1) len by blast
qed

text \<open>
  A dynamic tick array that decodes holds exactly the ticks its bitmap flags, at the index of
  their slots, and its ticks fill the account to the last byte.
\<close>

theorem dynamic_tick_array_exact:
  assumes "decode_dynamic_tick_array data start sp = Some ticks"
  shows "\<exists>bitmap. u128_at data 44 = Some bitmap \<and> i32_at data 8 = Some start
    \<and> map it_tick ticks = map (slot_tick start sp) (filter (bit bitmap) [0..<88])
    \<and> length data = 148 + 112 * length ticks"
  by (rule decode_dynamic_ok [OF assms]) blast

text \<open>A dynamic array that starts at \<open>-880\<close> with one initialised tick, in slot 2.\<close>

definition sample_dynamic_array :: bytes where
  "sample_dynamic_array = (replicate 8 0 @ [0x90, 0xfc, 0xff, 0xff] @ replicate 32 0 @ [4] @ replicate 15 0
     @ [0, 0, 1] @ [0x88, 0x13] @ replicate 14 0 @ [0x88, 0x13] @ replicate 94 0) @ replicate 85 0"

lemma zero_slots:
  "(\<And>i. i \<in> set slots \<Longrightarrow> \<not> bit bm i) \<Longrightarrow> (\<And>k. k < length slots \<Longrightarrow> u8_at data (off + k) = Some 0) \<Longrightarrow>
     decode_dynamic_slots data start sp bm slots off ticks = Some (ticks, off + length slots)"
proof (induction slots arbitrary: off)
  case (Cons i slots)
  have "u8_at data (Suc off + k) = Some 0" if "k < length slots" for k
    using Cons.prems(2) [of "Suc k"] that by simp
  then have "decode_dynamic_slots data start sp bm slots (Suc off) ticks = Some (ticks, Suc off + length slots)"
    by (intro Cons.IH) (use Cons.prems(1) in auto)
  then show ?case
    using Cons.prems(1) [of i] Cons.prems(2) [of 0] by (simp add: bit_iff_and_push_bit_not_eq_0)
qed simp

lemma le_nat_zeros: "le_nat (replicate n 0) = 0"
  by (induction n) simp_all

lemma sample_dynamic_reads:
  "i32_at sample_dynamic_array 8 = Some (- 880)" "u128_at sample_dynamic_array 44 = Some 4"
  "u8_at sample_dynamic_array 60 = Some 0" "u8_at sample_dynamic_array 61 = Some 0"
  "u8_at sample_dynamic_array 62 = Some 1" "i128_at sample_dynamic_array 63 = Some 5000"
  "u128_at sample_dynamic_array 79 = Some 5000" "length sample_dynamic_array = 260"
  by (simp_all add: sample_dynamic_array_def i32_at_def u128_at_def i128_at_def u8_at_def get_range_def signed_of_def
      le_nat_zeros nth_append nth_Cons')

lemma sample_dynamic_tail: "k < 85 \<Longrightarrow> u8_at sample_dynamic_array (175 + k) = Some 0"
  unfolding sample_dynamic_array_def u8_at_def by (simp add: nth_append)

lemma sample_dynamic_decodes:
  "decode_dynamic_tick_array sample_dynamic_array (- 880) 10 = Some [\<lparr>it_tick = - 860, it_liquidity_net = 5000\<rparr>]"
proof -
  have rest: "decode_dynamic_slots sample_dynamic_array (- 880) 10 4 [3..<88] 175 ticks = Some (ticks, 260)" for ticks
  proof -
    have four: "(4 :: u128) = push_bit 2 1" by simp
    have "\<not> bit (4 :: u128) i" if "i \<in> set [3..<88]" for i
      using that unfolding four bit_push_bit_iff bit_1_iff set_upt by auto
    then have "decode_dynamic_slots sample_dynamic_array (- 880) 10 4 [3..<88] 175 ticks
        = Some (ticks, 175 + length [3..<88])"
      by (intro zero_slots) (simp_all only: sample_dynamic_tail length_upt, simp)
    then show ?thesis by (simp only: length_upt) simp
  qed
  have slots: "[0..<88] = 0 # 1 # 2 # [3..<88]" by (simp add: upt_conv_Cons)
  show ?thesis
    unfolding decode_dynamic_tick_array_def ORCA_TICK_ARRAY_SIZE_def
    using rest by (simp add: slots sample_dynamic_reads DYNAMIC_TICK_BITMAP_OFFSET_def DYNAMIC_TICKS_OFFSET_def
        DYNAMIC_TICK_DATA_SIZE_def slot_tick_def wrap_i32_def)
qed

theorem dynamic_tick_array_exact_witness:
  "\<exists>bitmap. u128_at sample_dynamic_array 44 = Some bitmap \<and> i32_at sample_dynamic_array 8 = Some (- 880)
     \<and> map (slot_tick (- 880) 10) (filter (bit bitmap) [0..<88]) = [- 860] \<and> length sample_dynamic_array = 260"
  using dynamic_tick_array_exact [OF sample_dynamic_decodes] by auto

text \<open>
  A pool at tick 0 with a spacing of 4, of whose five candidate arrays only the one of the tick
  itself exists.
\<close>

definition sample_whirlpool_account :: account where
  "sample_whirlpool_account = \<lparr>acc_data = replicate 41 0 @ [4] @ replicate 7 0 @ [1] @ replicate 51 0
       @ replicate 32 1 @ replicate 48 0 @ replicate 32 2 @ replicate 32 0, acc_owner = sample_key ''orca''\<rparr>"

definition sample_whirlpool_reader :: account_reader where
  "sample_whirlpool_reader addresses =
     (let vault = Some \<lparr>acc_data = replicate 165 0, acc_owner = spl_token_id sample_sdk\<rparr>;
          mint = Some \<lparr>acc_data = replicate 82 0, acc_owner = spl_token_id sample_sdk\<rparr>
      in Inr [vault, vault, mint, mint, None, Some \<lparr>acc_data = replicate 148 0, acc_owner = sample_key ''orca''\<rparr>])"

definition sample_whirlpool_swap :: swap_accounts where
  "sample_whirlpool_swap = \<lparr>sa_owner = sample_key ''owner'', sa_input_mint = replicate 32 1,
     sa_output_mint = replicate 32 2, sa_input_token_account = sample_key ''in'', sa_output_token_account = sample_key ''out''\<rparr>"

lemma empty_dynamic_array: "orca_decode_tick_array (replicate 148 0) 0 sp = Some []"
proof -
  have "decode_dynamic_slots (replicate 148 0) 0 sp 0 [0..<88] 60 [] = Some ([], 60 + length [0..<88])"
    by (rule zero_slots) (simp_all only: bit_0_eq length_upt, simp_all add: u8_at_def)
  moreover have "i32_at (replicate 148 0) 8 = Some 0" "u128_at (replicate 148 0) 44 = Some 0"
    by (simp_all add: i32_at_def u128_at_def get_range_def le_nat_zeros signed_of_def)
  ultimately show ?thesis
    by (simp only: orca_decode_tick_array_def decode_dynamic_tick_array_def FIXED_TICK_ARRAY_LEN_def length_upt length_replicate
        ORCA_TICKS_OFFSET_def ORCA_TICK_ARRAY_SIZE_def ORCA_TICK_STATE_SIZE_def DYNAMIC_TICK_BITMAP_OFFSET_def
        DYNAMIC_TICKS_OFFSET_def) simp
qed

lemma sample_whirlpool_state:
  "\<exists>state. whirlpool_decode pool (acc_data sample_whirlpool_account) = Some state \<and> wps_liquidity state \<noteq> 0
     \<and> wps_tick_spacing state = 4 \<and> wps_tick_current state = 0 \<and> wps_mint_a state = replicate 32 1
     \<and> wps_mint_b state = replicate 32 2"
  by (simp add: sample_whirlpool_account_def whirlpool_decode_def u16_at_def i32_at_def u128_at_def u64_at_def
      pubkey_at_def get_range_def le_nat_zeros signed_of_def)

lemma sample_candidates:
  "candidate_tick_array_starts 0 4 True = [0, - 352, - 704]" "candidate_tick_array_starts 0 4 False = [0, 352, 704]"
  by (simp_all add: candidate_starts_eq MIN_TICK_def MAX_TICK_def orca_span_eq Let_def)

lemma sample_whirlpool_loads:
  "\<exists>m. whirlpool_load sample_sdk pool sample_whirlpool_account sample_whirlpool_reader = Inr m
     \<and> wps_tick_spacing (wpm_state m) = 4 \<and> wps_tick_current (wpm_state m) = 0
     \<and> wps_mint_a (wpm_state m) = replicate 32 1 \<and> wps_mint_b (wpm_state m) = replicate 32 2
     \<and> wpm_available_tick_array_starts m = [0]"
proof -
  obtain state where "whirlpool_decode pool (acc_data sample_whirlpool_account) = Some state" "wps_liquidity state \<noteq> 0"
    "wps_tick_spacing state = 4" "wps_tick_current state = 0" "wps_mint_a state = replicate 32 1"
    "wps_mint_b state = replicate 32 2"
    using sample_whirlpool_state by blast
  then show ?thesis
    by (simp add: whirlpool_load_def Let_def sample_candidates sample_whirlpool_reader_def required_def oracle_inert_def
        empty_dynamic_array token_account_amount_def mint_decimals_def u64_at_def u8_at_def get_range_def)
qed

theorem whirlpool_swap_arrays_exist_witness:
  "\<exists>m ix addresses batch pre arrays.
     whirlpool_load sample_sdk (sample_key ''pool'') sample_whirlpool_account sample_whirlpool_reader = Inr m
     \<and> whirlpool_swap_instruction sample_sdk m sample_whirlpool_swap 1000 900 = Inr ix
     \<and> sample_whirlpool_reader addresses = Inr batch
     \<and> map meta_pubkey (ix_accounts ix) = pre @ arrays @ [wpm_oracle m] \<and> length arrays = 3"
proof -
  obtain m where m: "whirlpool_load sample_sdk (sample_key ''pool'') sample_whirlpool_account sample_whirlpool_reader = Inr m"
    and state: "wps_tick_spacing (wpm_state m) = 4" "wps_tick_current (wpm_state m) = 0"
      "wps_mint_a (wpm_state m) = replicate 32 1" "wps_mint_b (wpm_state m) = replicate 32 2"
      "wpm_available_tick_array_starts m = [0]"
    using sample_whirlpool_loads by blast
  have "oriented_pair (wps_pool (wpm_state m)) (whirlpool_is_side_a m) sample_whirlpool_swap = Inr True"
    by (simp add: whirlpool_side oriented_pair_ok state sample_whirlpool_swap_def replicate_eq_replicate)
  moreover have "length (whirlpool_tick_array_accounts sample_sdk m True) = 3"
    by (simp add: whirlpool_tick_array_accounts_def swap_array_starts_def state sample_candidates
        ORCA_TICK_ARRAYS_PER_SWAP_def)
  ultimately obtain ix where ix: "whirlpool_swap_instruction sample_sdk m sample_whirlpool_swap 1000 900 = Inr ix"
    by (simp add: whirlpool_swap_instruction_def Let_def ORCA_TICK_ARRAYS_PER_SWAP_def)
  show ?thesis using whirlpool_swap_arrays_exist [OF m ix] m ix by blast
qed

end
