(* ===== verification/Moonit_Curve.thy ===== *)
theory Moonit_Curve
  imports Native_Sol
begin

text \<open>
  The Moonit venue: the layouts and the virtual reserves of
  \<open>src/chains/solana/pools/layouts/moonit.rs\<close> and the market of
  \<open>src/chains/solana/swaps/direct/venues/moonit.rs\<close>. The curve settles in native SOL, and its
  instruction names the token amount first: a buy carries its minimum in front of its amount.

  The lemmas give the reserves and both directions of the curve over \<open>nat\<close>, show in which
  direction they round, and that selling what was just bought returns exactly what was paid
  before fees.
\<close>

section \<open>Layouts\<close>

definition CURVE_TYPE_CONSTANT_PRODUCT_V1 :: u8 where
  "CURVE_TYPE_CONSTANT_PRODUCT_V1 = 1"

definition COLLATERAL_CURRENCY_SOL :: u8 where
  "COLLATERAL_CURRENCY_SOL = 0"

definition INITIAL_VIRTUAL_TOKEN_RESERVES :: u128 where
  "INITIAL_VIRTUAL_TOKEN_RESERVES = 1073000000000000000"

definition INITIAL_VIRTUAL_COLLATERAL_RESERVES :: u128 where
  "INITIAL_VIRTUAL_COLLATERAL_RESERVES = 30000000000"

definition moonit_constant_product :: u128 where
  "moonit_constant_product = INITIAL_VIRTUAL_TOKEN_RESERVES * INITIAL_VIRTUAL_COLLATERAL_RESERVES"

definition current_reserves :: "u128 \<Rightarrow> (u128 \<times> u128) option" where
  "current_reserves curve_position = do {
     vtr \<leftarrow> checked_sub INITIAL_VIRTUAL_TOKEN_RESERVES curve_position;
     (if vtr = 0 then None else Some (vtr, moonit_constant_product div vtr))
   }"

record curve_account_state =
  cas_pool :: pubkey
  cas_total_supply :: u64
  cas_curve_amount :: u64
  cas_mint :: pubkey
  cas_decimals :: u8
  cas_collateral_currency :: u8
  cas_curve_type :: u8

definition curve_account_decode :: "pubkey \<Rightarrow> bytes \<Rightarrow> curve_account_state option" where
  "curve_account_decode pool data =
     (if length data < 82 then None
      else do {
        total_supply \<leftarrow> u64_at data 8;
        curve_amount \<leftarrow> u64_at data 16;
        mint \<leftarrow> pubkey_at data 24;
        decimals \<leftarrow> u8_at data 56;
        collateral_currency \<leftarrow> u8_at data 57;
        curve_type \<leftarrow> u8_at data 58;
        Some \<lparr>cas_pool = pool, cas_total_supply = total_supply, cas_curve_amount = curve_amount,
          cas_mint = mint, cas_decimals = decimals, cas_collateral_currency = collateral_currency,
          cas_curve_type = curve_type\<rparr>
      })"

definition curve_position :: "curve_account_state \<Rightarrow> u128" where
  "curve_position s = saturating_sub (ucast (cas_total_supply s)) (ucast (cas_curve_amount s))"

record config_account_state =
  cfg_helio_fee :: pubkey
  cfg_dex_fee :: pubkey
  cfg_fee_bps :: u16

definition config_account_decode :: "bytes \<Rightarrow> config_account_state option" where
  "config_account_decode data = do {
     helio_fee \<leftarrow> pubkey_at data 104;
     dex_fee \<leftarrow> pubkey_at data 136;
     fee_bps \<leftarrow> u16_at data 168;
     Some \<lparr>cfg_helio_fee = helio_fee, cfg_dex_fee = dex_fee, cfg_fee_bps = fee_bps\<rparr>
   }"

section \<open>The market\<close>

definition MOONIT_BUY :: bytes where
  "MOONIT_BUY = [0x66, 0x06, 0x3d, 0x12, 0x01, 0xda, 0xeb, 0xea]"

definition MOONIT_SELL :: bytes where
  "MOONIT_SELL = [0x33, 0xe6, 0x85, 0xa4, 0x01, 0x7f, 0x83, 0xad]"

definition FIXED_SIDE_IN :: u8 where
  "FIXED_SIDE_IN = 0"

definition CONFIG_ACCOUNT_SEED :: bytes where
  "CONFIG_ACCOUNT_SEED = map of_char ''config_account''"

definition MOONIT_BPS :: u128 where
  "MOONIT_BPS = 10000"

definition MOONIT_COMPUTE_UNITS :: u32 where
  "MOONIT_COMPUTE_UNITS = 90000"

definition moonit_program_id :: "sdk \<Rightarrow> pubkey" where
  "moonit_program_id sdk = pubkey_from_str sdk (program_id_str Moonit)"

definition config_account_address :: "sdk \<Rightarrow> pubkey" where
  "config_account_address sdk = find_program_address sdk [CONFIG_ACCOUNT_SEED] (moonit_program_id sdk)"

record moonit_market =
  mom_curve :: curve_account_state
  mom_token_program :: pubkey
  mom_mint_decimals :: u8
  mom_curve_token_account :: pubkey
  mom_dex_fee :: pubkey
  mom_helio_fee :: pubkey
  mom_fee_bps :: u16

definition moonit_new ::
  "sdk \<Rightarrow> curve_account_state \<Rightarrow> pubkey \<Rightarrow> u8 \<Rightarrow> pubkey \<Rightarrow> pubkey \<Rightarrow> u16 \<Rightarrow> moonit_market" where
  "moonit_new sdk curve token_program decimals dex_fee helio_fee fee_bps =
     \<lparr>mom_curve = curve, mom_token_program = token_program, mom_mint_decimals = decimals,
      mom_curve_token_account = associated_token_address sdk (cas_pool curve) (cas_mint curve) token_program,
      mom_dex_fee = dex_fee, mom_helio_fee = helio_fee, mom_fee_bps = fee_bps\<rparr>"

definition moonit_load ::
  "sdk \<Rightarrow> pubkey \<Rightarrow> account \<Rightarrow> account_reader \<Rightarrow> moonit_market direct_swap_result" where
  "moonit_load sdk pool pool_account reader =
     and_then (ok_or (curve_account_decode pool (acc_data pool_account))
       (PoolUndecodable pool ''Moonit curve account did not match the expected layout ({} bytes)'')) (\<lambda>curve.
     if cas_curve_type curve \<noteq> CURVE_TYPE_CONSTANT_PRODUCT_V1
     then Inl (PoolNotTradable pool ''curve_type {} is not ConstantProductV1 (1); this venue's formula was verified only for that curve'')
     else if cas_collateral_currency curve \<noteq> COLLATERAL_CURRENCY_SOL
     then Inl (PoolNotTradable pool ''collateral_currency {} is not SOL (0); this venue trades SOL-collateral curves only'')
     else if cas_total_supply curve < cas_curve_amount curve
     then Inl (PoolUndecodable pool ''curve_amount exceeds total_supply'')
     else if INITIAL_VIRTUAL_TOKEN_RESERVES \<le> ucast (cas_total_supply curve)
     then Inl (PoolNotTradable pool
            ''total_supply {} leaves no headroom under the protocol's virtual token reserve; unverified for this venue's formula'')
     else
       let config = config_account_address sdk; addresses = [cas_mint curve, config] in
       and_then (reader addresses) (\<lambda>accounts.
       let fetched = required addresses accounts ''account does not exist'' in
       and_then (fetched 0) (\<lambda>mint_account.
       if acc_owner mint_account \<noteq> spl_token_id sdk
       then Inl (PoolNotTradable pool ''the mint is not owned by the legacy SPL token programme; this venue's account order was verified only for legacy-token Moonit mints'')
       else
         and_then (ok_or (mint_decimals (acc_data mint_account))
           (PoolUndecodable pool ''the curve's mint is not a mint account'')) (\<lambda>decimals.
         and_then (fetched 1) (\<lambda>config_account.
         and_then (ok_or (config_account_decode (acc_data config_account))
           (PoolUndecodable pool ''Moonit ConfigAccount did not match the expected layout'')) (\<lambda>config_state.
         Inr (moonit_new sdk curve (acc_owner mint_account) decimals (cfg_dex_fee config_state)
           (cfg_helio_fee config_state) (cfg_fee_bps config_state))))))))"

definition buy_in_collateral :: "u128 \<Rightarrow> u128 \<Rightarrow> u128 option" where
  "buy_in_collateral net_collateral position = do {
     (vtr, vcr) \<leftarrow> current_reserves position;
     new_vcr \<leftarrow> checked_add vcr net_collateral;
     (if new_vcr = 0 then None else checked_sub vtr (moonit_constant_product div new_vcr))
   }"

definition sell_in_token :: "u128 \<Rightarrow> u128 \<Rightarrow> u128 option" where
  "sell_in_token token_amount position = do {
     (vtr, vcr) \<leftarrow> current_reserves position;
     new_vtr \<leftarrow> checked_add vtr token_amount;
     (if new_vtr = 0 then None else checked_sub vcr (moonit_constant_product div new_vtr))
   }"

definition fee_on_gross :: "u64 \<Rightarrow> u16 \<Rightarrow> u64" where
  "fee_on_gross gross fee_bps =
     (if fee_bps = 0 then 0
      else ucast (min ((ucast gross * ucast fee_bps :: u128) div MOONIT_BPS) (ucast gross)))"

definition moonit_is_base :: "sdk \<Rightarrow> moonit_market \<Rightarrow> pubkey \<Rightarrow> bool option" where
  "moonit_is_base sdk m mint = side_of (cas_mint (mom_curve m)) (wsol_mint sdk) mint"

text \<open>The two branches of \<open>quote\<close>: the output, the fee in input units, and the reserves.\<close>

definition moonit_sell_quote :: "moonit_market \<Rightarrow> u64 \<Rightarrow> (u64 \<times> u64 \<times> u128 \<times> u128) option" where
  "moonit_sell_quote m amount_in = (let position = curve_position (mom_curve m) in do {
     (vtr, vcr) \<leftarrow> current_reserves position;
     gross \<leftarrow> sell_in_token (ucast amount_in) position;
     gross_u64 \<leftarrow> try_into_u64 gross;
     let fee = fee_on_gross gross_u64 (mom_fee_bps m);
     Some (saturating_sub gross_u64 fee, fee_in_input fee amount_in gross_u64, vtr, vcr)
   })"

definition moonit_buy_quote :: "moonit_market \<Rightarrow> u64 \<Rightarrow> (u64 \<times> u64 \<times> u128 \<times> u128) option" where
  "moonit_buy_quote m amount_in = (let position = curve_position (mom_curve m) in do {
     (vtr, vcr) \<leftarrow> current_reserves position;
     let fee = fee_on_gross amount_in (mom_fee_bps m);
     let net_collateral = saturating_sub amount_in fee;
     tokens \<leftarrow> buy_in_collateral (ucast net_collateral) position;
     tokens_u64 \<leftarrow> try_into_u64 tokens;
     Some (tokens_u64, fee, vcr, vtr)
   })"

definition moonit_math_error :: direct_swap_error where
  "moonit_math_error = QuoteMath ''Moonit curve arithmetic overflowed or produced a non-positive reserve''"

definition moonit_quote :: "sdk \<Rightarrow> moonit_market \<Rightarrow> pubkey \<Rightarrow> u64 \<Rightarrow> venue_quote direct_swap_result" where
  "moonit_quote sdk m input_mint amount_in =
     and_then (ok_or (moonit_is_base sdk m input_mint)
       (PairNotInPool (cas_pool (mom_curve m)) input_mint default_pubkey)) (\<lambda>input_is_base.
     if amount_in = 0
     then Inl (InsufficientLiquidity (cas_pool (mom_curve m)) amount_in ''zero input'')
     else
       and_then (ok_or (if input_is_base then moonit_sell_quote m amount_in else moonit_buy_quote m amount_in)
         moonit_math_error) (\<lambda>(expected_out, lp_fee, reserve_in, reserve_out).
       if expected_out = 0
       then Inl (InsufficientLiquidity (cas_pool (mom_curve m)) amount_in ''the curve returns nothing at this size'')
       else
         and_then (ok_or (try_into_u64 reserve_in) moonit_math_error) (\<lambda>reserve_in_u64.
         and_then (ok_or (try_into_u64 reserve_out) moonit_math_error) (\<lambda>reserve_out_u64.
         Inr \<lparr>vq_amount_in = amount_in, vq_expected_out = expected_out, vq_lp_fee = lp_fee,
              vq_price_impact_pct =
                price_impact_pct reserve_in_u64 reserve_out_u64 amount_in lp_fee expected_out\<rparr>))))"

definition moonit_swap_instruction ::
  "sdk \<Rightarrow> moonit_market \<Rightarrow> swap_accounts \<Rightarrow> u64 \<Rightarrow> u64 \<Rightarrow> instruction direct_swap_result" where
  "moonit_swap_instruction sdk m accounts amount_in min_out =
     (let curve = mom_curve m in
      and_then (oriented_pair (cas_pool curve) (moonit_is_base sdk m) accounts) (\<lambda>input_is_base.
      let sender_token_account =
            (if input_is_base then sa_input_token_account accounts else sa_output_token_account accounts);
          (disc, token_amount, collateral_amount) =
            (if input_is_base then (MOONIT_SELL, amount_in, min_out) else (MOONIT_BUY, min_out, amount_in))
      in Inr \<lparr>ix_program_id = moonit_program_id sdk,
           ix_accounts =
             [meta_new (sa_owner accounts) True,
              meta_new sender_token_account False,
              meta_new (cas_pool curve) False,
              meta_new (mom_curve_token_account m) False,
              meta_new (mom_dex_fee m) False,
              meta_new (mom_helio_fee m) False,
              meta_new_readonly (cas_mint curve) False,
              meta_new_readonly (config_account_address sdk) False,
              meta_new_readonly (mom_token_program m) False,
              meta_new_readonly (associated_token_program_id sdk) False,
              meta_new_readonly (system_program_id sdk) False],
           ix_data = disc @ u64_to_le_bytes token_amount @ u64_to_le_bytes collateral_amount
             @ [FIXED_SIDE_IN] @ u64_to_le_bytes 0\<rparr>))"

definition moonit_as_market :: "sdk \<Rightarrow> moonit_market \<Rightarrow> pool_market" where
  "moonit_as_market sdk m =
     \<lparr>pm_program = Moonit, pm_pool = cas_pool (mom_curve m),
      pm_mints = (cas_mint (mom_curve m), wsol_mint sdk),
      pm_token_program = native_token_program sdk (cas_mint (mom_curve m)) (mom_token_program m),
      pm_decimals = native_decimals sdk (cas_mint (mom_curve m)) (mom_mint_decimals m),
      pm_quote = moonit_quote sdk m, pm_swap_instruction = moonit_swap_instruction sdk m,
      pm_compute_units = MOONIT_COMPUTE_UNITS, pm_settles_native_sol = True\<rparr>"

section \<open>The curve\<close>

lemma moonit_constants:
  "unat INITIAL_VIRTUAL_TOKEN_RESERVES = 1073000000000000000"
  "unat moonit_constant_product = 32190000000000000000000000000"
  by (simp_all add: INITIAL_VIRTUAL_TOKEN_RESERVES_def INITIAL_VIRTUAL_COLLATERAL_RESERVES_def moonit_constant_product_def)

text \<open>The constant product and the reserves at a position, over \<open>nat\<close>.\<close>

abbreviation cp_nat :: nat where
  "cp_nat \<equiv> 32190000000000000000000000000"

definition vtr_at :: "nat \<Rightarrow> nat" where
  "vtr_at position = 1073000000000000000 - position"

definition vcr_at :: "nat \<Rightarrow> nat" where
  "vcr_at position = cp_nat div vtr_at position"

lemma current_reserves_Some:
  "current_reserves p = Some (vtr, vcr) \<longleftrightarrow>
     unat p < 1073000000000000000 \<and> unat vtr = vtr_at (unat p) \<and> unat vcr = vcr_at (unat p)"
proof (cases "checked_sub INITIAL_VIRTUAL_TOKEN_RESERVES p")
  case None
  then have "\<not> unat p \<le> 1073000000000000000"
    by (simp add: checked_sub_def word_le_nat_alt moonit_constants split: if_splits)
  then show ?thesis using None by (simp add: current_reserves_def)
next
  case (Some v)
  then have v: "unat p \<le> 1073000000000000000" "unat v = vtr_at (unat p)"
    by (simp_all add: checked_sub_Some moonit_constants vtr_at_def)
  then have z: "v = 0 \<longleftrightarrow> unat p = 1073000000000000000" by (auto simp: unat_eq_0 [symmetric] vtr_at_def)
  show ?thesis
    using Some v z by (auto simp: current_reserves_def word_unat_eq_iff [of _ vtr] word_unat_eq_iff [of _ vcr]
        unat_div moonit_constants vcr_at_def)
qed

lemma sell_in_token_value:
  assumes "unat p < 1073000000000000000" and "unat amount < 2 ^ 64"
  shows "\<exists>g. sell_in_token amount p = Some g \<and> unat g = vcr_at (unat p) - cp_nat div (vtr_at (unat p) + unat amount)"
proof -
  let ?vtr = "of_nat (vtr_at (unat p)) :: u128" and ?vcr = "of_nat (vcr_at (unat p)) :: u128"
  have pos: "0 < vtr_at (unat p)" and lt: "vtr_at (unat p) < 2 ^ 64" using assms(1) by (auto simp: vtr_at_def)
  have small: "vcr_at (unat p) \<le> cp_nat" unfolding vcr_at_def by (rule div_le_dividend)
  have u: "unat ?vtr = vtr_at (unat p)" "unat ?vcr = vcr_at (unat p)"
    using lt small by (simp_all add: unat_of_nat)
  have cur: "current_reserves p = Some (?vtr, ?vcr)" using assms(1) u by (simp add: current_reserves_Some)
  obtain n where n: "checked_add ?vtr amount = Some n" "unat n = vtr_at (unat p) + unat amount"
    using lt assms(2) u by (auto simp: checked_add_def unat_word_ariths)
  have "n \<noteq> 0" using n(2) pos by (auto simp: unat_eq_0)
  moreover have "cp_nat div (vtr_at (unat p) + unat amount) \<le> vcr_at (unat p)"
    unfolding vcr_at_def using pos by (intro div_le_mono2) auto
  then obtain g where "checked_sub ?vcr (moonit_constant_product div n) = Some g"
    and "unat g = vcr_at (unat p) - cp_nat div (vtr_at (unat p) + unat amount)"
    using u n by (auto simp: checked_sub_def word_le_nat_alt unat_div moonit_constants unat_sub)
  ultimately show ?thesis using cur n by (simp add: sell_in_token_def)
qed

text \<open>A buy of at least one lamport: the virtual collateral it reaches is above the exact price.\<close>

lemma bought_le:
  fixes cp vtr net :: nat
  assumes "0 < vtr" and "0 < net"
  shows "cp div (cp div vtr + net) < vtr"
proof -
  have "cp < vtr * (cp div vtr + 1)" using dividend_less_times_div [OF assms(1), of cp] by simp
  also have "\<dots> \<le> vtr * (cp div vtr + net)" using assms(2) by (intro mult_le_mono2) simp
  finally show ?thesis using assms by (simp add: div_less_iff_less_mult mult.commute)
qed

lemma buy_in_collateral_value:
  assumes "unat p < 1073000000000000000" and "unat net < 2 ^ 64" and "0 < unat net"
  shows "\<exists>t. buy_in_collateral net p = Some t
     \<and> unat t = vtr_at (unat p) - cp_nat div (vcr_at (unat p) + unat net)"
proof -
  let ?vtr = "of_nat (vtr_at (unat p)) :: u128" and ?vcr = "of_nat (vcr_at (unat p)) :: u128"
  have pos: "0 < vtr_at (unat p)" and lt: "vtr_at (unat p) < 2 ^ 64" using assms(1) by (auto simp: vtr_at_def)
  have small: "vcr_at (unat p) \<le> cp_nat" unfolding vcr_at_def by (rule div_le_dividend)
  have u: "unat ?vtr = vtr_at (unat p)" "unat ?vcr = vcr_at (unat p)"
    using lt small by (simp_all add: unat_of_nat)
  have cur: "current_reserves p = Some (?vtr, ?vcr)" using assms(1) u by (simp add: current_reserves_Some)
  obtain n where n: "checked_add ?vcr net = Some n" "unat n = vcr_at (unat p) + unat net"
    using small assms(2) u by (auto simp: checked_add_def unat_word_ariths)
  have "n \<noteq> 0" using n(2) assms(3) by (auto simp: unat_eq_0)
  moreover have "cp_nat div (vcr_at (unat p) + unat net) \<le> vtr_at (unat p)"
    using bought_le [OF pos assms(3), of cp_nat] by (simp add: vcr_at_def)
  then obtain t where "checked_sub ?vtr (moonit_constant_product div n) = Some t"
    and "unat t = vtr_at (unat p) - cp_nat div (vcr_at (unat p) + unat net)"
    using u n by (auto simp: checked_sub_def word_le_nat_alt unat_div moonit_constants unat_sub)
  ultimately show ?thesis using cur n by (simp add: buy_in_collateral_def)
qed

section \<open>Quotes\<close>

lemma unat_fee_on_gross: "unat (fee_on_gross g bps) = min (unat g * unat bps div 10000) (unat g)"
proof (cases "bps = 0")
  case False
  have "unat g * unat bps < 2 ^ 64 * 2 ^ 16"
    using u64_bound [of g] u16_bound [of bps] by (intro mult_strict_mono) simp_all
  then have "unat (ucast g * ucast bps :: u128) = unat g * unat bps"
    by (simp add: unat_word_ariths unat_simps)
  then show ?thesis using False by (simp add: fee_on_gross_def unat_min_narrow unat_div MOONIT_BPS_def)
qed (simp add: fee_on_gross_def)

lemma fee_on_gross_le: "unat (fee_on_gross g bps) \<le> unat g"
  by (simp add: unat_fee_on_gross)

lemma fee_on_gross_less: "0 < unat g \<Longrightarrow> unat bps < 10000 \<Longrightarrow> unat (fee_on_gross g bps) < unat g"
  by (simp add: unat_fee_on_gross min_less_iff_disj div_less_iff_less_mult)

lemma unat_curve_position:
  "unat (curve_position c) = unat (cas_total_supply c) - unat (cas_curve_amount c)"
  by (simp add: curve_position_def unat_simps)

lemma moonit_quote_ok:
  assumes "moonit_quote sdk m mint a = Inr q"
  obtains s ri ro where "moonit_is_base sdk m mint = Some s" and "a \<noteq> 0"
    and "(if s then moonit_sell_quote m a else moonit_buy_quote m a) = Some (vq_expected_out q, vq_lp_fee q, ri, ro)"
    and "vq_expected_out q \<noteq> 0" and "vq_amount_in q = a"
    and "0 \<le> vq_price_impact_pct q" and "vq_price_impact_pct q \<le> 100"
proof -
  obtain s where s: "moonit_is_base sdk m mint = Some s" using assms by (auto simp: moonit_quote_def)
  obtain out fee ri ro where r: "(if s then moonit_sell_quote m a else moonit_buy_quote m a) = Some (out, fee, ri, ro)"
    using assms s by (auto simp: moonit_quote_def split: if_splits)
  show ?thesis
    by (rule that [of s ri ro])
      (use assms s r price_impact_pct_range in \<open>auto simp: moonit_quote_def split: if_splits\<close>)
qed

lemma moonit_buy_quote_bounds:
  assumes "moonit_buy_quote m a = Some (out, fee, ri, ro)"
  shows "unat fee \<le> unat a" and "unat out \<le> unat ro"
    and "unat ro = vtr_at (unat (curve_position (mom_curve m)))"
  using assms
  by (auto simp: moonit_buy_quote_def Let_def current_reserves_Some buy_in_collateral_def checked_sub_Some
      checked_add_Some try_into_u64_Some fee_on_gross_le split: if_splits Option.bind_splits)

lemma moonit_sell_quote_bounds:
  assumes "moonit_sell_quote m a = Some (out, fee, ri, ro)"
  shows "unat fee \<le> unat a" and "unat out \<le> unat ro"
    and "unat ro = vcr_at (unat (curve_position (mom_curve m)))"
  using assms fee_in_input_le [OF fee_on_gross_le, of _ "mom_fee_bps m" a]
  by (auto simp: moonit_sell_quote_def Let_def current_reserves_Some sell_in_token_def checked_sub_Some
      checked_add_Some try_into_u64_Some unat_simps
      split: if_splits Option.bind_splits)

text \<open>On a curve with the supply the program enforces no step of the arithmetic fails.\<close>

lemma moonit_arithmetic_total:
  assumes "unat (cas_total_supply (mom_curve m)) \<le> 10 ^ 18" and "unat (mom_fee_bps m) < 10000" and "a \<noteq> 0"
  shows "\<exists>out fee ri ro. (if s then moonit_sell_quote m a else moonit_buy_quote m a) = Some (out, fee, ri, ro)
      \<and> unat ri < 2 ^ 64 \<and> unat ro < 2 ^ 64"
proof -
  let ?p = "curve_position (mom_curve m)"
  have p: "unat ?p \<le> 10 ^ 18" using assms(1) by (simp add: unat_curve_position)
  then have lt: "unat ?p < 1073000000000000000" by simp
  have "vcr_at (unat ?p) \<le> cp_nat div 73000000000000000"
    unfolding vcr_at_def vtr_at_def using p by (intro div_le_mono2) auto
  then have vcr: "vcr_at (unat ?p) < 2 ^ 64" by simp
  have vtr: "vtr_at (unat ?p) < 2 ^ 64" by (simp add: vtr_at_def)
  obtain v c where cur: "current_reserves ?p = Some (v, c)" "unat v = vtr_at (unat ?p)" "unat c = vcr_at (unat ?p)"
  proof -
    have "unat (of_nat (vtr_at (unat ?p)) :: u128) = vtr_at (unat ?p)" "unat (of_nat (vcr_at (unat ?p)) :: u128) = vcr_at (unat ?p)"
      using vtr vcr by (simp_all add: unat_of_nat)
    then show ?thesis using that lt by (simp add: current_reserves_Some)
  qed
  show ?thesis
  proof (cases s)
    case True
    obtain g where g: "sell_in_token (ucast a) ?p = Some g"
      "unat g = vcr_at (unat ?p) - cp_nat div (vtr_at (unat ?p) + unat (ucast a :: u128))"
      using sell_in_token_value [OF lt, of "ucast a"] u64_bound [of a] by (auto simp: unat_simps)
    then have "unat g < 2 ^ 64" using vcr by simp
    then show ?thesis using True g(1) cur vtr vcr by (simp add: moonit_sell_quote_def try_into_u64_def Let_def)
  next
    case False
    let ?net = "saturating_sub a (fee_on_gross a (mom_fee_bps m))"
    have "0 < unat a" using assms(3) by (simp add: unat_gt_0)
    then have "0 < unat (ucast ?net :: u128)"
      using fee_on_gross_less [OF _ assms(2), of a] by (simp add: unat_simps)
    then obtain t where t: "buy_in_collateral (ucast ?net) ?p = Some t"
      "unat t = vtr_at (unat ?p) - cp_nat div (vcr_at (unat ?p) + unat (ucast ?net :: u128))"
      using buy_in_collateral_value [OF lt, of "ucast ?net"] u64_bound [of ?net] by (auto simp: unat_simps)
    then have "unat t < 2 ^ 64" using vtr by simp
    then show ?thesis using False t(1) cur vtr vcr by (simp add: moonit_buy_quote_def try_into_u64_def Let_def)
  qed
qed

section \<open>The contract\<close>

lemma moonit_side: "moonit_is_base sdk m = side_of (cas_mint (mom_curve m)) (wsol_mint sdk)"
  by (rule ext) (simp add: moonit_is_base_def)

lemmas moonit_as_market_simps = moonit_as_market_def holds_def moonit_side

text \<open>Where the instruction carries the amount and the minimum: the token amount comes first.\<close>

definition moonit_amount_pos :: "moonit_market \<Rightarrow> pubkey \<Rightarrow> nat" where
  "moonit_amount_pos m input_mint = (if input_mint = cas_mint (mom_curve m) then 8 else 16)"

definition moonit_min_pos :: "moonit_market \<Rightarrow> pubkey \<Rightarrow> nat" where
  "moonit_min_pos m input_mint = (if input_mint = cas_mint (mom_curve m) then 16 else 8)"

lemma moonit_swap_contract:
  assumes "moonit_swap_instruction sdk m accounts a mo = Inr ix"
  shows "swap_contract (moonit_amount_pos m (sa_input_mint accounts)) (moonit_min_pos m (sa_input_mint accounts))
      (moonit_as_market sdk m) accounts a mo ix"
proof -
  obtain s where s: "oriented_pair (cas_pool (mom_curve m)) (moonit_is_base sdk m) accounts = Inr s"
    using assms by (auto simp: moonit_swap_instruction_def Let_def)
  then have sides: "sa_input_mint accounts = (if s then cas_mint (mom_curve m) else wsol_mint sdk)"
    "cas_mint (mom_curve m) \<noteq> wsol_mint sdk"
    unfolding moonit_side by (auto simp: oriented_pair_ok)
  have pair: "trades (moonit_as_market sdk m) (sa_input_mint accounts) (sa_output_mint accounts)"
    using s unfolding moonit_side by (rule oriented_pair_trades) (simp add: moonit_as_market_def)
  have len: "length MOONIT_SELL = 8" "length MOONIT_BUY = 8" by (simp_all add: MOONIT_SELL_def MOONIT_BUY_def)
  show ?thesis
    unfolding swap_contract_def
    using assms s sides pair swap_data_read [OF len(1), of a mo "[FIXED_SIDE_IN] @ u64_to_le_bytes 0"]
      swap_data_read [OF len(2), of mo a "[FIXED_SIDE_IN] @ u64_to_le_bytes 0"]
    by (cases s) (auto simp: moonit_swap_instruction_def Let_def meta_new_def meta_new_readonly_def list_all_iff
        moonit_amount_pos_def moonit_min_pos_def moonit_as_market_def)
qed

interpretation moonit: market "moonit_as_market sdk" moonit_amount_pos moonit_min_pos
proof
  fix m :: moonit_market and mint a q accounts mo ix
  show "pm_token_program (moonit_as_market sdk m) mint \<noteq> None \<longleftrightarrow> holds (moonit_as_market sdk m) mint"
    using native_token_program_None by (simp add: moonit_as_market_simps)
  show "pm_decimals (moonit_as_market sdk m) mint \<noteq> None \<longleftrightarrow> holds (moonit_as_market sdk m) mint"
    using native_decimals_None by (simp add: moonit_as_market_simps)
  show "holds (moonit_as_market sdk m) mint \<and> sane_quote a q"
    if "pm_quote (moonit_as_market sdk m) mint a = Inr q"
  proof -
    have "moonit_quote sdk m mint a = Inr q" using that by (simp add: moonit_as_market_def)
    then show ?thesis
      by (rule moonit_quote_ok) (auto simp: moonit_as_market_simps sane_quote_def dest!: side_of_Some)
  qed
  show "swap_contract (moonit_amount_pos m (sa_input_mint accounts)) (moonit_min_pos m (sa_input_mint accounts))
      (moonit_as_market sdk m) accounts a mo ix"
    if "pm_swap_instruction (moonit_as_market sdk m) accounts a mo = Inr ix"
    using that by (intro moonit_swap_contract) (simp add: moonit_as_market_def)
qed

section \<open>Round trips and rounding\<close>

lemma div_div_inverse:
  fixes cp n :: nat
  assumes "0 < n" and "n \<le> cp div n"
  shows "cp div (cp div n) = n"
proof (rule div_nat_eqI)
  show "cp div n * n \<le> cp" by simp
  have "cp < n * Suc (cp div n)" using dividend_less_times_div [OF assms(1), of cp] by simp
  also have "\<dots> \<le> cp div n * Suc n" using assms(2) by simp
  finally show "cp < cp div n * Suc n" .
qed

lemma difference_rounds_up:
  fixes cp n v :: nat
  assumes "0 < n" and "cp \<le> v * n"
  shows "v - cp div n = ceil_nat (v * n - cp) n"
proof -
  let ?c = "ceil_nat (v * n - cp) n"
  have le: "cp div n \<le> v" using assms by (metis div_le_mono nonzero_mult_div_cancel_right less_numeral_extra(3))
  have "v * n - cp \<le> ?c * n" "?c * n < v * n - cp + n" using assms(1) by (simp_all add: ceil_nat_ge ceil_nat_less)
  then have "(v - ?c) * n \<le> cp" "cp < (v - ?c) * n + n \<or> v < ?c"
    using assms(2) by (auto simp: diff_mult_distrib)
  moreover have "?c \<le> v" using assms(1) by (simp add: ceil_nat_le_iff)
  ultimately have "cp div n = v - ?c" using assms(1) by (intro div_nat_eqI) (auto simp: mult.commute)
  then show ?thesis using \<open>?c \<le> v\<close> by simp
qed

section \<open>Properties\<close>

text \<open>
  Selling what was just bought returns exactly the lamports that reached the curve, before
  fees, although every step of the curve is rounded: nothing is lost and nothing is gained, as
  long as the curve keeps at least as many tokens as it holds lamports.
\<close>

theorem moonit_round_trip:
  assumes "buy_in_collateral net p = Some t" and "unat p < 1073000000000000000"
    and "0 < unat net" and "unat net < 2 ^ 64"
    and "vcr_at (unat p) + unat net \<le> vtr_at (unat p) - unat t"
    and "unat p' = unat p + unat t"
  shows "\<exists>g. sell_in_token t p' = Some g \<and> unat g = unat net"
proof -
  let ?v = "vtr_at (unat p)" and ?n = "vcr_at (unat p) + unat net"
  have v: "0 < ?v" "?v < 2 ^ 64" using assms(2) by (auto simp: vtr_at_def)
  have t: "unat t = ?v - cp_nat div ?n"
    using buy_in_collateral_value [OF assms(2,4,3)] assms(1) by auto
  have less: "cp_nat div ?n < ?v" using bought_le [OF v(1) assms(3), of cp_nat] by (simp add: vcr_at_def)
  then have left: "?v - unat t = cp_nat div ?n" by (simp add: t)
  have p': "unat p' < 1073000000000000000" "vtr_at (unat p') = cp_nat div ?n" "vtr_at (unat p') + unat t = ?v"
    using assms(2,3,5,6) left less t by (auto simp: vtr_at_def)
  have "vcr_at (unat p') = ?n"
    unfolding vcr_at_def [of "unat p'"] p'(2)
    by (rule div_div_inverse) (use assms(3,5) left in simp_all)
  then show ?thesis
    using sell_in_token_value [OF p'(1), of t] v t p'(3) by (simp add: vcr_at_def [of "unat p", symmetric])
qed

theorem moonit_round_trip_witness:
  "\<exists>t g. buy_in_collateral 29447550 137625459843417018 = Some t \<and> unat t = 799701317842959
     \<and> sell_in_token t (137625459843417018 + t) = Some g \<and> unat g = 29447550"
proof -
  obtain t where t: "buy_in_collateral 29447550 137625459843417018 = Some t" "unat t = 799701317842959"
    using buy_in_collateral_value [of 137625459843417018 29447550] by (auto simp: vtr_at_def vcr_at_def)
  have p: "unat (137625459843417018 + t :: u128) = 137625459843417018 + unat t"
    using t(2) by (simp add: unat_word_ariths)
  show ?thesis
    using moonit_round_trip [OF t(1), of "137625459843417018 + t"] t p by (simp add: vtr_at_def vcr_at_def)
qed

text \<open>
  What a buy pays is the exact share of the curve rounded up, never down: the code floors the
  tokens that stay behind and takes the difference.
\<close>

theorem moonit_buy_rounds_up:
  assumes "buy_in_collateral net p = Some t" and "unat p < 1073000000000000000"
    and "0 < unat net" and "unat net < 2 ^ 64"
  shows "unat t = ceil_nat (vtr_at (unat p) * (vcr_at (unat p) + unat net) - cp_nat) (vcr_at (unat p) + unat net)"
proof -
  let ?v = "vtr_at (unat p)" and ?n = "vcr_at (unat p) + unat net"
  have v: "0 < ?v" using assms(2) by (simp add: vtr_at_def)
  have "cp_nat div ?n < ?v" using bought_le [OF v assms(3), of cp_nat] by (simp add: vcr_at_def)
  then have "cp_nat \<le> ?v * ?n" using assms(3) by (simp add: div_less_iff_less_mult)
  then show ?thesis
    using buy_in_collateral_value [OF assms(2,4,3)] assms(1,3) difference_rounds_up [of ?n cp_nat ?v] by simp
qed

theorem moonit_buy_rounds_up_witness:
  "\<exists>t. buy_in_collateral 29447550 137625459843417018 = Some t \<and> unat t = 799701317842959
     \<and> unat t * (vcr_at 137625459843417018 + 29447550)
         > vtr_at 137625459843417018 * (vcr_at 137625459843417018 + 29447550) - cp_nat"
proof -
  obtain t where t: "buy_in_collateral 29447550 137625459843417018 = Some t"
    using buy_in_collateral_value [of 137625459843417018 29447550] by auto
  show ?thesis
    using moonit_buy_rounds_up [OF t] t by (simp add: vtr_at_def vcr_at_def ceil_nat_def)
qed

text \<open>
  On a curve with the supply the program enforces and a fee below the whole amount a quote
  never fails arithmetically: it returns an amount within the virtual reserve, with a fee of at
  most the input, or reports that nothing comes out.
\<close>

theorem moonit_quote_total:
  assumes "unat (cas_total_supply (mom_curve m)) \<le> 10 ^ 18" and "unat (mom_fee_bps m) < 10000"
    and "a \<noteq> 0" and "moonit_is_base sdk m mint = Some s"
  shows "case moonit_quote sdk m mint a of
      Inr q \<Rightarrow> unat (vq_lp_fee q) \<le> unat a
        \<and> unat (vq_expected_out q) \<le> (if s then vcr_at (unat (curve_position (mom_curve m)))
            else vtr_at (unat (curve_position (mom_curve m))))
    | Inl e \<Rightarrow> \<exists>detail. e = InsufficientLiquidity (cas_pool (mom_curve m)) a detail"
proof -
  obtain out fee ri ro where r: "(if s then moonit_sell_quote m a else moonit_buy_quote m a) = Some (out, fee, ri, ro)"
    and fit: "unat ri < 2 ^ 64" "unat ro < 2 ^ 64"
    using moonit_arithmetic_total [OF assms(1-3)] by blast
  have "unat fee \<le> unat a" "unat out \<le> unat ro"
    "unat ro = (if s then vcr_at (unat (curve_position (mom_curve m))) else vtr_at (unat (curve_position (mom_curve m))))"
    using r moonit_sell_quote_bounds moonit_buy_quote_bounds by (cases s; simp)+
  moreover have "try_into_u64 ri \<noteq> None" "try_into_u64 ro \<noteq> None" using fit by (simp_all add: try_into_u64_def)
  ultimately show ?thesis using assms(3,4) r by (auto simp: moonit_quote_def)
qed

definition sample_moonit :: moonit_market where
  "sample_moonit = \<lparr>mom_curve = \<lparr>cas_pool = sample_key ''pool'', cas_total_supply = 1000000000000000000,
       cas_curve_amount = 861574838838740023, cas_mint = sample_key ''token'', cas_decimals = 9,
       cas_collateral_currency = 0, cas_curve_type = 1\<rparr>,
     mom_token_program = spl_token_id sample_sdk, mom_mint_decimals = 9, mom_curve_token_account = sample_key ''curve'',
     mom_dex_fee = sample_key ''dex'', mom_helio_fee = sample_key ''helio'', mom_fee_bps = 100\<rparr>"

theorem moonit_quote_total_witness:
  "case moonit_quote sample_sdk sample_moonit (sample_key ''token'') 28719041 of
     Inr q \<Rightarrow> unat (vq_lp_fee q) \<le> 28719041 | Inl e \<Rightarrow> \<exists>detail. e = InsufficientLiquidity (sample_key ''pool'') 28719041 detail"
proof -
  have side: "moonit_is_base sample_sdk sample_moonit (sample_key ''token'') = Some True"
    by (simp add: moonit_is_base_def side_of_def sample_moonit_def)
  show ?thesis
    using moonit_quote_total [OF _ _ _ side, of 28719041]
    by (auto simp: sample_moonit_def split: sum.splits)
qed

end
