(* ===== verification/Fluxbeam.thy ===== *)
theory Fluxbeam
  imports Swap_Plan Token2022
begin

text \<open>
  The FluxBeam venue: the layout of \<open>src/chains/solana/pools/layouts/fluxbeam.rs\<close> and the
  market of \<open>src/chains/solana/swaps/direct/venues/fluxbeam.rs\<close>. The program is a fork of
  \<open>spl-token-swap\<close>: one tag byte in front of the arguments, both fees on the input, and the
  output computed as what the reserve loses when its new value is rounded up.

  The lemmas show that this equals the floor of the constant product that the other venues
  compute, and that the two arithmetic errors of the quote cannot occur.
\<close>

section \<open>Layout\<close>

record fluxbeam_pool_state =
  fbs_pool :: pubkey
  fbs_is_initialized :: bool
  fbs_vault_a :: pubkey
  fbs_vault_b :: pubkey
  fbs_pool_mint :: pubkey
  fbs_mint_a :: pubkey
  fbs_mint_b :: pubkey
  fbs_fee_account :: pubkey
  fbs_trade_fee_numerator :: u64
  fbs_trade_fee_denominator :: u64
  fbs_owner_trade_fee_numerator :: u64
  fbs_owner_trade_fee_denominator :: u64
  fbs_curve_type :: u8

definition fluxbeam_decode :: "pubkey \<Rightarrow> bytes \<Rightarrow> fluxbeam_pool_state option" where
  "fluxbeam_decode pool data =
     (if length data \<noteq> 324 then None
      else do {
        is_initialized \<leftarrow> u8_at data 1;
        vault_a \<leftarrow> pubkey_at data 35;
        vault_b \<leftarrow> pubkey_at data 67;
        pool_mint \<leftarrow> pubkey_at data 99;
        mint_a \<leftarrow> pubkey_at data 131;
        mint_b \<leftarrow> pubkey_at data 163;
        fee_account \<leftarrow> pubkey_at data 195;
        trade_fee_numerator \<leftarrow> u64_at data 227;
        trade_fee_denominator \<leftarrow> u64_at data 235;
        owner_trade_fee_numerator \<leftarrow> u64_at data 243;
        owner_trade_fee_denominator \<leftarrow> u64_at data 251;
        curve_type \<leftarrow> u8_at data 291;
        Some \<lparr>fbs_pool = pool, fbs_is_initialized = is_initialized \<noteq> 0, fbs_vault_a = vault_a,
          fbs_vault_b = vault_b, fbs_pool_mint = pool_mint, fbs_mint_a = mint_a, fbs_mint_b = mint_b,
          fbs_fee_account = fee_account, fbs_trade_fee_numerator = trade_fee_numerator,
          fbs_trade_fee_denominator = trade_fee_denominator,
          fbs_owner_trade_fee_numerator = owner_trade_fee_numerator,
          fbs_owner_trade_fee_denominator = owner_trade_fee_denominator,
          fbs_curve_type = curve_type\<rparr>
      })"

section \<open>The market\<close>

definition SWAP_TAG :: u8 where
  "SWAP_TAG = 1"

definition CURVE_TYPE_CONSTANT_PRODUCT :: u8 where
  "CURVE_TYPE_CONSTANT_PRODUCT = 0"

definition FLUXBEAM_COMPUTE_UNITS :: u32 where
  "FLUXBEAM_COMPUTE_UNITS = 160000"

definition fluxbeam_program_id :: "sdk \<Rightarrow> pubkey" where
  "fluxbeam_program_id sdk = pubkey_from_str sdk (program_id_str FluxbeamAmm)"

record fluxbeam_market =
  fbm_state :: fluxbeam_pool_state
  fbm_vault_a_balance :: u64
  fbm_vault_b_balance :: u64
  fbm_decimals_a :: u8
  fbm_decimals_b :: u8
  fbm_program_a :: pubkey
  fbm_program_b :: pubkey
  fbm_program_pool :: pubkey

text \<open>A mint whose schedule charges something.\<close>

definition charges_transfer_fee :: "sdk \<Rightarrow> account \<Rightarrow> bool" where
  "charges_transfer_fee sdk mint_account =
     (case transfer_fee_schedule_of sdk mint_account of
        Some schedule \<Rightarrow> 0 < basis_points schedule
      | None \<Rightarrow> False)"

definition fluxbeam_load ::
  "sdk \<Rightarrow> pubkey \<Rightarrow> account \<Rightarrow> account_reader \<Rightarrow> fluxbeam_market direct_swap_result" where
  "fluxbeam_load sdk pool pool_account reader =
     and_then (ok_or (fluxbeam_decode pool (acc_data pool_account))
       (PoolUndecodable pool ''FluxBeam SwapV1 state did not match the expected layout ({} bytes)'')) (\<lambda>state.
     if \<not> fbs_is_initialized state
     then Inl (PoolNotTradable pool ''pool is not initialized'')
     else if fbs_curve_type state \<noteq> CURVE_TYPE_CONSTANT_PRODUCT
     then Inl (PoolNotTradable pool
            ''curve_type {} is not ConstantProduct (0); this venue's formula was verified only for that curve'')
     else
       let addresses = [fbs_vault_a state, fbs_vault_b state, fbs_mint_a state, fbs_mint_b state, fbs_pool_mint state] in
       and_then (reader addresses) (\<lambda>accounts.
       let fetched = required addresses accounts ''account does not exist'' in
       and_then (fetched 0) (\<lambda>vault_a.
       and_then (fetched 1) (\<lambda>vault_b.
       and_then (ok_or (token_account_amount (acc_data vault_a))
         (PoolUndecodable pool ''token_a vault is not a token account'')) (\<lambda>vault_a_balance.
       and_then (ok_or (token_account_amount (acc_data vault_b))
         (PoolUndecodable pool ''token_b vault is not a token account'')) (\<lambda>vault_b_balance.
       and_then (fetched 2) (\<lambda>mint_a_account.
       and_then (fetched 3) (\<lambda>mint_b_account.
       and_then (fetched 4) (\<lambda>pool_mint_account.
       and_then (ok_or (mint_decimals (acc_data mint_a_account))
         (PoolUndecodable pool ''token_a_mint is not a mint account'')) (\<lambda>decimals_a.
       and_then (ok_or (mint_decimals (acc_data mint_b_account))
         (PoolUndecodable pool ''token_b_mint is not a mint account'')) (\<lambda>decimals_b.
       if charges_transfer_fee sdk mint_a_account
       then Inl (PoolNotTradable pool
              ''token_a carries a Token-2022 transfer fee, unverified against this venue's fee math'')
       else if charges_transfer_fee sdk mint_b_account
       then Inl (PoolNotTradable pool
              ''token_b carries a Token-2022 transfer fee, unverified against this venue's fee math'')
       else Inr \<lparr>fbm_state = state, fbm_vault_a_balance = vault_a_balance,
              fbm_vault_b_balance = vault_b_balance, fbm_decimals_a = decimals_a,
              fbm_decimals_b = decimals_b, fbm_program_a = acc_owner mint_a_account,
              fbm_program_b = acc_owner mint_b_account,
              fbm_program_pool = acc_owner pool_mint_account\<rparr>)))))))))))"

definition fluxbeam_is_side_a :: "fluxbeam_market \<Rightarrow> pubkey \<Rightarrow> bool option" where
  "fluxbeam_is_side_a m mint = side_of (fbs_mint_a (fbm_state m)) (fbs_mint_b (fbm_state m)) mint"

definition fluxbeam_token_program :: "fluxbeam_market \<Rightarrow> pubkey \<Rightarrow> pubkey option" where
  "fluxbeam_token_program m mint =
     map_option (\<lambda>side_a. if side_a then fbm_program_a m else fbm_program_b m) (fluxbeam_is_side_a m mint)"

definition fluxbeam_decimals :: "fluxbeam_market \<Rightarrow> pubkey \<Rightarrow> u8 option" where
  "fluxbeam_decimals m mint =
     map_option (\<lambda>side_a. if side_a then fbm_decimals_a m else fbm_decimals_b m) (fluxbeam_is_side_a m mint)"

definition fluxbeam_fee :: "fluxbeam_market \<Rightarrow> u64 \<Rightarrow> u64" where
  "fluxbeam_fee m amount_in =
     (let state = fbm_state m;
          trade_fee = fee_amount amount_in (fbs_trade_fee_numerator state) (fbs_trade_fee_denominator state);
          owner_fee = fee_amount amount_in (fbs_owner_trade_fee_numerator state)
            (fbs_owner_trade_fee_denominator state)
      in min (saturating_add trade_fee owner_fee) amount_in)"

definition fluxbeam_quote :: "fluxbeam_market \<Rightarrow> pubkey \<Rightarrow> u64 \<Rightarrow> venue_quote direct_swap_result" where
  "fluxbeam_quote m input_mint amount_in =
     and_then (ok_or (fluxbeam_is_side_a m input_mint)
       (PairNotInPool (fbs_pool (fbm_state m)) input_mint default_pubkey)) (\<lambda>input_is_a.
     let (reserve_in, reserve_out) =
           (if input_is_a then (fbm_vault_a_balance m, fbm_vault_b_balance m)
            else (fbm_vault_b_balance m, fbm_vault_a_balance m)) in
     if reserve_in = 0 \<or> reserve_out = 0
     then Inl (InsufficientLiquidity (fbs_pool (fbm_state m)) amount_in ''a vault side is empty'')
     else
       let lp_fee = fluxbeam_fee m amount_in;
           source_less_fees = saturating_sub amount_in lp_fee in
       if source_less_fees = 0
       then Inr \<lparr>vq_amount_in = amount_in, vq_expected_out = 0, vq_lp_fee = lp_fee, vq_price_impact_pct = 0\<rparr>
       else
         let new_source = saturating_add (ucast reserve_in :: u128) (ucast source_less_fees) in
         and_then (ok_or (mul_div_ceil (ucast reserve_out) (ucast reserve_in) new_source)
           (QuoteMath ''FluxBeam curve division overflowed'')) (\<lambda>new_dest.
         if ucast reserve_out < new_dest
         then Inl (QuoteMath ''FluxBeam curve produced an output above the pool's own reserve'')
         else
           let expected_out = reserve_out - ucast new_dest
           in Inr \<lparr>vq_amount_in = amount_in, vq_expected_out = expected_out, vq_lp_fee = lp_fee,
                vq_price_impact_pct =
                  price_impact_pct reserve_in reserve_out amount_in lp_fee expected_out\<rparr>))"

definition fluxbeam_swap_instruction ::
  "sdk \<Rightarrow> fluxbeam_market \<Rightarrow> swap_accounts \<Rightarrow> u64 \<Rightarrow> u64 \<Rightarrow> instruction direct_swap_result" where
  "fluxbeam_swap_instruction sdk m accounts amount_in min_out =
     (let state = fbm_state m in
      and_then (oriented_pair (fbs_pool state) (fluxbeam_is_side_a m) accounts) (\<lambda>input_is_a.
      let (source_vault, destination_vault) =
            (if input_is_a then (fbs_vault_a state, fbs_vault_b state) else (fbs_vault_b state, fbs_vault_a state));
          (source_mint, destination_mint) =
            (if input_is_a then (fbs_mint_a state, fbs_mint_b state) else (fbs_mint_b state, fbs_mint_a state));
          (source_program, destination_program) =
            (if input_is_a then (fbm_program_a m, fbm_program_b m) else (fbm_program_b m, fbm_program_a m));
          authority = find_program_address sdk [fbs_pool state] (fluxbeam_program_id sdk)
      in Inr \<lparr>ix_program_id = fluxbeam_program_id sdk,
           ix_accounts =
             [meta_new (fbs_pool state) False,
              meta_new_readonly authority False,
              meta_new (sa_owner accounts) True,
              meta_new (sa_input_token_account accounts) False,
              meta_new source_vault False,
              meta_new destination_vault False,
              meta_new (sa_output_token_account accounts) False,
              meta_new (fbs_pool_mint state) False,
              meta_new (fbs_fee_account state) False,
              meta_new_readonly source_mint False,
              meta_new_readonly destination_mint False,
              meta_new_readonly source_program False,
              meta_new_readonly destination_program False,
              meta_new_readonly (fbm_program_pool m) False],
           ix_data = [SWAP_TAG] @ u64_to_le_bytes amount_in @ u64_to_le_bytes min_out\<rparr>))"

definition fluxbeam_as_market :: "sdk \<Rightarrow> fluxbeam_market \<Rightarrow> pool_market" where
  "fluxbeam_as_market sdk m =
     \<lparr>pm_program = FluxbeamAmm, pm_pool = fbs_pool (fbm_state m),
      pm_mints = (fbs_mint_a (fbm_state m), fbs_mint_b (fbm_state m)),
      pm_token_program = fluxbeam_token_program m, pm_decimals = fluxbeam_decimals m,
      pm_quote = fluxbeam_quote m, pm_swap_instruction = fluxbeam_swap_instruction sdk m,
      pm_compute_units = FLUXBEAM_COMPUTE_UNITS, pm_settles_native_sol = False\<rparr>"

section \<open>Decoding\<close>

lemma fluxbeam_decode_None: "fluxbeam_decode pool data = None \<longleftrightarrow> length data \<noteq> 324"
  unfolding fluxbeam_decode_def by (auto simp: read_at)

section \<open>Quotes\<close>

text \<open>Rounding the new reserve up is rounding the output down.\<close>

lemma ceil_complement:
  fixes ri ro x :: nat
  assumes "0 < ri"
  shows "ceil_nat (ro * ri) (ri + x) \<le> ro" and "ro - ceil_nat (ro * ri) (ri + x) = ro * x div (ri + x)"
proof -
  let ?c = "ceil_nat (ro * ri) (ri + x)"
  show le: "?c \<le> ro" using assms by (simp add: ceil_nat_le_iff algebra_simps)
  have split: "ro * (ri + x) = ro * ri + ro * x" by (simp add: algebra_simps)
  have c: "ro * ri \<le> ?c * (ri + x)" "?c * (ri + x) < ro * ri + (ri + x)"
    using assms by (simp_all add: ceil_nat_ge ceil_nat_less)
  have "(ro - ?c) * (ri + x) = ro * ri + ro * x - ?c * (ri + x)"
    by (simp only: diff_mult_distrib split)
  then have "(ro - ?c) * (ri + x) \<le> ro * x" and "ro * x < (ro - ?c) * (ri + x) + (ri + x)"
    using c mult_le_mono1 [OF le, of "ri + x"] split by linarith+
  then show "ro - ?c = ro * x div (ri + x)"
    by (intro div_nat_eqI [symmetric]) (simp_all add: algebra_simps)
qed

lemma fluxbeam_fee_le: "unat (fluxbeam_fee m a) \<le> unat a"
  by (simp add: fluxbeam_fee_def Let_def unat_simps)

lemma fluxbeam_quote_value:
  assumes "fluxbeam_is_side_a m mint = Some s"
    and "oriented s (fbm_vault_a_balance m, fbm_vault_b_balance m) = (ri, ro)"
    and "0 < unat ri" and "0 < unat ro"
  shows "\<exists>q. fluxbeam_quote m mint a = Inr q \<and> vq_amount_in q = a \<and> vq_lp_fee q = fluxbeam_fee m a
       \<and> vq_expected_out q = constant_product_out ri ro (saturating_sub a (fluxbeam_fee m a))
       \<and> 0 \<le> vq_price_impact_pct q \<and> vq_price_impact_pct q \<le> 100"
proof -
  define x where "x = saturating_sub a (fluxbeam_fee m a)"
  define n where "n = saturating_add (ucast ri :: u128) (ucast x)"
  define c where "c = ceil_nat (unat ro * unat ri) (unat ri + unat x)"
  have pair: "(if s then (fbm_vault_a_balance m, fbm_vault_b_balance m) else (fbm_vault_b_balance m, fbm_vault_a_balance m)) = (ri, ro)"
    using assms(2) by (cases s) simp_all
  have nz: "ri \<noteq> 0" "ro \<noteq> 0" using assms(3,4) by auto
  have n: "unat n = unat ri + unat x"
    using u64_bound [of ri] u64_bound [of x] by (simp add: n_def unat_simps min_absorb1)
  note comp = ceil_complement [OF assms(3), of "unat ro" "unat x", folded c_def]
  have small: "c < 2 ^ 64" using comp(1) u64_bound [of ro] by simp
  have div: "mul_div_ceil (ucast ro) (ucast ri) n = Some (of_nat c)"
    unfolding mul_div_ceil_spec n unat_widen_128 c_def [symmetric] using small assms(3) by simp
  have c: "unat (of_nat c :: u128) = c" using small by (simp add: unat_of_nat)
  have ok: "\<not> ucast ro < (of_nat c :: u128)" using comp(1) by (simp add: word_less_nat_alt c unat_simps)
  have c64: "unat (ucast (of_nat c :: u128) :: u64) = c" using small by (simp add: unat_narrow_64 c)
  have out: "ro - ucast (of_nat c :: u128) = constant_product_out ri ro x"
    using comp assms(3,4) by (intro word_nat_eqI) (simp add: unat_constant_product_out unat_sub word_le_nat_alt c64)
  have none: "constant_product_out ri ro 0 = 0" by (simp add: constant_product_out_def)
  show ?thesis
    using assms(1) nz none
    by (simp add: fluxbeam_quote_def pair Let_def x_def [symmetric] n_def [symmetric] div ok out price_impact_pct_range)
qed

lemma fluxbeam_quote_ok:
  assumes "fluxbeam_quote m mint a = Inr q"
  obtains s ri ro where "fluxbeam_is_side_a m mint = Some s"
    and "oriented s (fbm_vault_a_balance m, fbm_vault_b_balance m) = (ri, ro)"
    and "0 < unat ri" and "0 < unat ro" and "vq_amount_in q = a" and "vq_lp_fee q = fluxbeam_fee m a"
    and "vq_expected_out q = constant_product_out ri ro (saturating_sub a (fluxbeam_fee m a))"
    and "0 \<le> vq_price_impact_pct q" and "vq_price_impact_pct q \<le> 100"
proof -
  obtain s where s: "fluxbeam_is_side_a m mint = Some s" using assms by (auto simp: fluxbeam_quote_def)
  obtain ri ro where r: "oriented s (fbm_vault_a_balance m, fbm_vault_b_balance m) = (ri, ro)" by (cases s) simp_all
  have pos: "0 < unat ri" "0 < unat ro"
    using assms s r by (auto simp: fluxbeam_quote_def Let_def unat_gt_0 split: if_splits)
  show ?thesis
    using fluxbeam_quote_value [OF s r pos, of a] assms that [OF s r pos] by auto
qed

lemma fluxbeam_quote_invariant:
  assumes "fluxbeam_quote m mint a = Inr q" and "fluxbeam_is_side_a m mint = Some s"
    and "oriented s (fbm_vault_a_balance m, fbm_vault_b_balance m) = (ri, ro)"
  shows "unat ri * unat ro \<le> (unat ri + unat a) * (unat ro - unat (vq_expected_out q))"
    and "unat (vq_expected_out q) < unat ro"
proof -
  let ?x = "saturating_sub a (fluxbeam_fee m a)"
  have out: "vq_expected_out q = constant_product_out ri ro ?x" and "0 < unat ro"
    using assms(2,3) by (auto intro: fluxbeam_quote_ok [OF assms(1)])
  then show "unat (vq_expected_out q) < unat ro" by (simp add: constant_product_out_less)
  have "unat ri * unat ro \<le> (unat ri + unat ?x) * (unat ro - unat (vq_expected_out q))"
    using constant_product_invariant [of ri ro ?x] out by simp
  also have "\<dots> \<le> (unat ri + unat a) * (unat ro - unat (vq_expected_out q))" by (simp add: unat_simps)
  finally show "unat ri * unat ro \<le> (unat ri + unat a) * (unat ro - unat (vq_expected_out q))" .
qed

section \<open>The contract\<close>

lemma fluxbeam_side: "fluxbeam_is_side_a m = side_of (fbs_mint_a (fbm_state m)) (fbs_mint_b (fbm_state m))"
  by (rule ext) (simp add: fluxbeam_is_side_a_def)

lemmas fluxbeam_as_market_simps = fluxbeam_as_market_def holds_def fluxbeam_side

lemma fluxbeam_swap_contract:
  assumes "fluxbeam_swap_instruction sdk m accounts a mo = Inr ix"
  shows "swap_contract 1 9 (fluxbeam_as_market sdk m) accounts a mo ix"
proof -
  obtain s where s: "oriented_pair (fbs_pool (fbm_state m)) (fluxbeam_is_side_a m) accounts = Inr s"
    using assms by (auto simp: fluxbeam_swap_instruction_def Let_def)
  have pair: "trades (fluxbeam_as_market sdk m) (sa_input_mint accounts) (sa_output_mint accounts)"
    using s unfolding fluxbeam_side by (rule oriented_pair_trades) (simp add: fluxbeam_as_market_def)
  have len: "length [SWAP_TAG] = 1" by simp
  show ?thesis
    unfolding swap_contract_def
    using assms s pair swap_data_read [OF len, of a mo "[]"]
    by (auto simp: fluxbeam_swap_instruction_def Let_def meta_new_def meta_new_readonly_def list_all_iff
        split: prod.splits)
qed

text \<open>The accounts after the wallet's own follow the direction of the swap, mints and programs included.\<close>

lemma fluxbeam_accounts_follow_swap:
  assumes "fluxbeam_swap_instruction sdk m accounts a mo = Inr ix"
  shows "length (ix_accounts ix) = 14
    \<and> map meta_pubkey (take 2 (drop 9 (ix_accounts ix))) = [sa_input_mint accounts, sa_output_mint accounts]"
proof -
  obtain s where s: "oriented_pair (fbs_pool (fbm_state m)) (fluxbeam_is_side_a m) accounts = Inr s"
    using assms by (auto simp: fluxbeam_swap_instruction_def Let_def)
  then show ?thesis
    using assms oriented_pair_ok [of "fbs_pool (fbm_state m)" "fbs_mint_a (fbm_state m)" "fbs_mint_b (fbm_state m)" accounts s]
    by (cases s) (auto simp: fluxbeam_swap_instruction_def Let_def fluxbeam_side meta_new_def meta_new_readonly_def)
qed

interpretation fluxbeam: market "fluxbeam_as_market sdk" "\<lambda>_ _. 1" "\<lambda>_ _. 9"
proof
  fix m :: fluxbeam_market and mint a q accounts mo ix
  show "pm_token_program (fluxbeam_as_market sdk m) mint \<noteq> None \<longleftrightarrow> holds (fluxbeam_as_market sdk m) mint"
    by (simp add: fluxbeam_as_market_simps fluxbeam_token_program_def)
  show "pm_decimals (fluxbeam_as_market sdk m) mint \<noteq> None \<longleftrightarrow> holds (fluxbeam_as_market sdk m) mint"
    by (simp add: fluxbeam_as_market_simps fluxbeam_decimals_def)
  show "holds (fluxbeam_as_market sdk m) mint \<and> sane_quote a q"
    if "pm_quote (fluxbeam_as_market sdk m) mint a = Inr q"
  proof -
    have "fluxbeam_quote m mint a = Inr q" using that by (simp add: fluxbeam_as_market_def)
    then show ?thesis
      by (rule fluxbeam_quote_ok) (auto simp: fluxbeam_as_market_simps sane_quote_def dest!: side_of_Some)
  qed
  show "swap_contract 1 9 (fluxbeam_as_market sdk m) accounts a mo ix"
    if "pm_swap_instruction (fluxbeam_as_market sdk m) accounts a mo = Inr ix"
    using that by (intro fluxbeam_swap_contract) (simp add: fluxbeam_as_market_def)
qed

section \<open>Properties\<close>

text \<open>
  With two filled vaults a FluxBeam quote always succeeds and equals the constant-product
  output of the input less both fees, although the code rounds the new reserve up and takes the
  difference: neither of its arithmetic errors can occur.
\<close>

theorem fluxbeam_quote_exact:
  assumes "fluxbeam_is_side_a m mint = Some s"
    and "oriented s (fbm_vault_a_balance m, fbm_vault_b_balance m) = (ri, ro)"
    and "0 < unat ri" and "0 < unat ro"
  shows "\<exists>q. fluxbeam_quote m mint a = Inr q
       \<and> vq_expected_out q = constant_product_out ri ro (saturating_sub a (fluxbeam_fee m a))
       \<and> unat (vq_lp_fee q) \<le> unat a
       \<and> unat ri * unat ro \<le> (unat ri + unat a) * (unat ro - unat (vq_expected_out q))"
  using fluxbeam_quote_value [OF assms, of a] fluxbeam_quote_invariant(1) [OF _ assms(1,2)] fluxbeam_fee_le [of m a]
  by fastforce

definition sample_fluxbeam :: fluxbeam_market where
  "sample_fluxbeam = \<lparr>fbm_state = \<lparr>fbs_pool = sample_key ''pool'', fbs_is_initialized = True,
       fbs_vault_a = sample_key ''vault0'', fbs_vault_b = sample_key ''vault1'', fbs_pool_mint = sample_key ''lp'',
       fbs_mint_a = sample_key SOL_MINT, fbs_mint_b = sample_key ''token'', fbs_fee_account = sample_key ''fees'',
       fbs_trade_fee_numerator = 20, fbs_trade_fee_denominator = 10000, fbs_owner_trade_fee_numerator = 99,
       fbs_owner_trade_fee_denominator = 100, fbs_curve_type = 0\<rparr>,
     fbm_vault_a_balance = 46507309993, fbm_vault_b_balance = 987683727042899679, fbm_decimals_a = 9,
     fbm_decimals_b = 6, fbm_program_a = spl_token_id sample_sdk, fbm_program_b = spl_token_2022_id sample_sdk,
     fbm_program_pool = spl_token_2022_id sample_sdk\<rparr>"

theorem fluxbeam_quote_exact_witness:
  "\<exists>q. fluxbeam_quote sample_fluxbeam (sample_key SOL_MINT) 330352000 = Inr q
     \<and> unat (vq_expected_out q) = 56122747909206"
proof -
  have side: "fluxbeam_is_side_a sample_fluxbeam (sample_key SOL_MINT) = Some True"
    by (simp add: sample_fluxbeam_def fluxbeam_is_side_a_def side_of_def)
  have fee: "unat (fluxbeam_fee sample_fluxbeam 330352000) = 327709184"
    by (simp add: fluxbeam_fee_def Let_def unat_simps unat_fee_amount sample_fluxbeam_def ceil_nat_def)
  obtain q where q: "fluxbeam_quote sample_fluxbeam (sample_key SOL_MINT) 330352000 = Inr q"
    and out: "vq_expected_out q = constant_product_out 46507309993 987683727042899679
       (saturating_sub 330352000 (fluxbeam_fee sample_fluxbeam 330352000))"
    using fluxbeam_quote_exact [OF side, of 46507309993 987683727042899679 330352000]
    by (auto simp: sample_fluxbeam_def)
  then show ?thesis by (simp add: unat_constant_product_out unat_simps fee)
qed

end
