(* ===== verification/Engine.thy ===== *)
theory Engine
  imports Raydium_Cpmm Raydium_Amm_V4 Raydium_Clmm Meteora_Damm Meteora_Dbc Meteora_Dlmm
    Pumpfun_Legacy Orca_Whirlpool Moonit_Curve Fluxbeam
begin

text \<open>
  The entry points of the engine: the venue registry of
  \<open>src/chains/solana/swaps/direct/registry.rs\<close> and \<open>quote_with_market\<close> of
  \<open>src/chains/solana/swaps/direct/mod.rs\<close>. A venue is a unit struct in the source, so
  the registry lists the kinds of the venues; a venue's program id is the id of its kind.

  The lemmas show that a lookup by program id and by kind find the same venue, and, inside
  the locale of a market, what an executable plan for a quoted intent contains.
\<close>

section \<open>The registry\<close>

definition venues :: "program_kind list" where
  "venues = [RaydiumCpmm, RaydiumLegacyAmm, RaydiumClmm, MeteoraDamm, MeteoraDbc, MeteoraDlmm,
     PumpFunAmm, PumpFunLegacy, OrcaWhirlpool, Moonit, FluxbeamAmm]"

definition venue_program_id :: "sdk \<Rightarrow> program_kind \<Rightarrow> pubkey" where
  "venue_program_id sdk venue = pubkey_from_str sdk (program_id_str venue)"

definition venue_for_program_id :: "sdk \<Rightarrow> pubkey \<Rightarrow> program_kind option" where
  "venue_for_program_id sdk program = find (\<lambda>venue. venue_program_id sdk venue = program) venues"

definition venue_for_kind :: "program_kind \<Rightarrow> program_kind option" where
  "venue_for_kind kind = find (\<lambda>venue. venue = kind) venues"

definition supports :: "program_kind \<Rightarrow> bool" where
  "supports kind \<longleftrightarrow> venue_for_kind kind \<noteq> None"

definition supported_kinds :: "program_kind list" where
  "supported_kinds = map (\<lambda>venue. venue) venues"

definition require_venue :: "sdk \<Rightarrow> pubkey \<Rightarrow> program_kind direct_swap_result" where
  "require_venue sdk program = ok_or (venue_for_program_id sdk program) (UnsupportedVenue program)"

section \<open>Quoting an intent\<close>

definition quote_with_market ::
  "sdk \<Rightarrow> direct_swap_intent \<Rightarrow> pool_market \<Rightarrow> direct_quote direct_swap_result" where
  "quote_with_market sdk intent mkt =
     and_then (validate intent) (\<lambda>_.
     if \<not> trades mkt (in_input_mint intent) (in_output_mint intent)
     then Inl (PairNotInPool (pm_pool mkt) (in_input_mint intent) (in_output_mint intent))
     else
       let side = for_pair sdk (in_input_mint intent) (in_output_mint intent);
           base = (if side = FeeInput then in_amount_in intent else 0) in
       and_then (resolve_fee sdk side (in_input_mint intent) (in_output_mint intent) base) (\<lambda>input_fee.
       let swap_amount_in =
             (if side = FeeInput then saturating_sub (in_amount_in intent) (pf_amount input_fee)
              else in_amount_in intent) in
       if swap_amount_in = 0
       then Inl (InvalidRequest ''the platform fee consumes the entire input at this size'')
       else
         and_then (pm_quote mkt (in_input_mint intent) swap_amount_in) (\<lambda>venue_quote.
         assemble sdk intent (pm_program mkt) swap_amount_in venue_quote input_fee)))"

section \<open>Lookups\<close>

lemma distinct_venues: "distinct venues"
  by (simp add: venues_def)

lemma set_venues: "set venues = UNIV - {Unknown}"
proof -
  have "k \<in> set venues \<longleftrightarrow> k \<noteq> Unknown" for k by (cases k) (simp_all add: venues_def)
  then show ?thesis by auto
qed

lemma distinct_program_id_str: "inj_on program_id_str (set venues)"
  by (simp add: venues_def)

text \<open>
  What the engine relies on of \<open>Pubkey::from_str\<close>: it decodes different program ids to
  different keys.
\<close>

definition decodes_apart :: "sdk \<Rightarrow> bool" where
  "decodes_apart sdk \<longleftrightarrow> inj_on (pubkey_from_str sdk) (program_id_str ` set venues)"

lemma find_Some_inj:
  "inj_on f (set xs) \<Longrightarrow> x \<in> set xs \<Longrightarrow> find (\<lambda>y. f y = f x) xs = Some x"
  by (induction xs) (auto simp: inj_on_def)

lemma venue_program_id_inj: "decodes_apart sdk \<Longrightarrow> inj_on (venue_program_id sdk) (set venues)"
  unfolding decodes_apart_def venue_program_id_def
  using comp_inj_on [OF distinct_program_id_str] by (simp add: comp_def)

lemma registry_lookups:
  assumes "decodes_apart sdk" and "kind \<in> set venues"
  shows "venue_for_program_id sdk (venue_program_id sdk kind) = Some kind"
    and "venue_for_kind kind = Some kind"
    and "require_venue sdk (venue_program_id sdk kind) = Inr kind"
proof -
  show id: "venue_for_program_id sdk (venue_program_id sdk kind) = Some kind"
    unfolding venue_for_program_id_def
    by (rule find_Some_inj [OF venue_program_id_inj [OF assms(1)] assms(2)])
  show "venue_for_kind kind = Some kind"
    using find_Some_inj [of "\<lambda>k. k" venues kind] assms(2) by (simp add: venue_for_kind_def)
  show "require_venue sdk (venue_program_id sdk kind) = Inr kind" by (simp add: require_venue_def id)
qed

lemma require_venue_error:
  "program \<notin> venue_program_id sdk ` set venues \<Longrightarrow> require_venue sdk program = Inl (UnsupportedVenue program)"
  by (auto simp: require_venue_def venue_for_program_id_def find_None_iff)

section \<open>A quoted intent\<close>

lemma quote_with_market_ok:
  assumes "quote_with_market sdk intent mkt = Inr q"
  obtains fee vq where
    "validate intent = Inr ()"
    and "trades mkt (in_input_mint intent) (in_output_mint intent)"
    and "pf_side fee = for_pair sdk (in_input_mint intent) (in_output_mint intent)"
    and "pf_amount fee = (if pf_side fee = FeeInput then platform_fee_amount (in_amount_in intent) else 0)"
    and "dq_swap_amount_in q = saturating_sub (in_amount_in intent) (pf_amount fee)"
    and "dq_swap_amount_in q \<noteq> 0"
    and "pm_quote mkt (in_input_mint intent) (dq_swap_amount_in q) = Inr vq"
    and "assemble sdk intent (pm_program mkt) (dq_swap_amount_in q) vq fee = Inr q"
proof -
  let ?side = "for_pair sdk (in_input_mint intent) (in_output_mint intent)"
  obtain fee vq where v: "validate intent = Inr ()"
    and t: "trades mkt (in_input_mint intent) (in_output_mint intent)"
    and fee: "resolve_fee sdk ?side (in_input_mint intent) (in_output_mint intent)
        (if ?side = FeeInput then in_amount_in intent else 0) = Inr fee"
    and nz: "(if ?side = FeeInput then saturating_sub (in_amount_in intent) (pf_amount fee)
              else in_amount_in intent) \<noteq> 0"
    and vq: "pm_quote mkt (in_input_mint intent)
        (if ?side = FeeInput then saturating_sub (in_amount_in intent) (pf_amount fee)
              else in_amount_in intent) = Inr vq"
    and asm: "assemble sdk intent (pm_program mkt)
        (if ?side = FeeInput then saturating_sub (in_amount_in intent) (pf_amount fee)
              else in_amount_in intent) vq fee = Inr q"
    using assms unfolding quote_with_market_def Let_def
    by (cases "?side = FeeInput") (auto split: if_splits)
  have zero: "platform_fee_amount 0 = 0"
    using unat_platform_fee_amount [of 0] by (simp add: unat_eq_0)
  have side: "pf_side fee = ?side"
    and amount: "pf_amount fee = (if ?side = FeeInput then platform_fee_amount (in_amount_in intent) else 0)"
    using resolve_fee_amount [OF fee] zero by (auto split: if_splits)
  have swap: "(if ?side = FeeInput then saturating_sub (in_amount_in intent) (pf_amount fee)
      else in_amount_in intent) = saturating_sub (in_amount_in intent) (pf_amount fee)"
    using amount by (simp add: saturating_sub_def)
  have eq: "dq_swap_amount_in q = saturating_sub (in_amount_in intent) (pf_amount fee)"
    using asm unfolding swap by (rule assemble_cases) simp
  show ?thesis
    using that [of fee vq] v t side amount eq nz vq asm unfolding swap by simp
qed

text \<open>The input is split exactly between the fee and the pool.\<close>

lemma quote_splits_input:
  assumes "quote_with_market sdk intent mkt = Inr q"
  shows "unat (dq_swap_amount_in q)
       + (if for_pair sdk (in_input_mint intent) (in_output_mint intent) = FeeInput
          then unat (pf_amount (dq_fee q)) else 0) = unat (dq_amount_in q)"
    and "dq_amount_in q = in_amount_in intent"
proof -
  obtain fee vq where side: "pf_side fee = for_pair sdk (in_input_mint intent) (in_output_mint intent)"
    and amount: "pf_amount fee = (if pf_side fee = FeeInput then platform_fee_amount (in_amount_in intent) else 0)"
    and swap: "dq_swap_amount_in q = saturating_sub (in_amount_in intent) (pf_amount fee)"
    and asm: "assemble sdk intent (pm_program mkt) (dq_swap_amount_in q) vq fee = Inr q"
    by (rule quote_with_market_ok [OF assms]) blast
  show a: "dq_amount_in q = in_amount_in intent" by (rule assemble_cases [OF asm]) simp
  have keep: "dq_fee q = fee" if "pf_side fee = FeeInput"
    by (rule assemble_cases [OF asm]) (use that in simp)
  show "unat (dq_swap_amount_in q)
       + (if for_pair sdk (in_input_mint intent) (in_output_mint intent) = FeeInput
          then unat (pf_amount (dq_fee q)) else 0) = unat (dq_amount_in q)"
    using keep platform_fee_le [of "in_amount_in intent"]
    by (auto simp: a swap amount side [symmetric] unat_simps)
qed

context market
begin

text \<open>
  From intent to plan: the swap instruction of the plan trades the intent's pair for the
  amount left after the input fee, and demands at least the guaranteed output, which covers
  the output fee and leaves the wallet something.
\<close>

lemma engine_contract:
  assumes "quote_with_market sdk intent (as_market m) = Inr q"
    and "build_plan sdk price intent (as_market m) q = Inr plan"
  obtains pre swap post where
    "sp_instructions plan = pre @ [swap] @ post" and "length pre \<ge> 4"
    and "trades (as_market m) (in_input_mint intent) (in_output_mint intent)"
    and "u64_at (ix_data swap) (amount_pos m (in_input_mint intent)) = Some (dq_swap_amount_in q)"
    and "u64_at (ix_data swap) (min_pos m (in_input_mint intent)) = Some (dq_min_out q)"
    and "0 < unat (dq_min_net_out q)" and "unat (dq_min_net_out q) \<le> unat (dq_min_out q)"
    and "unat (dq_min_out q) \<le> unat (dq_expected_out q)"
    and "list_all (\<lambda>meta. meta_signer meta \<longrightarrow> meta_pubkey meta = in_owner intent) (ix_accounts swap)"
proof -
  obtain fee vq where asm: "assemble sdk intent (pm_program (as_market m)) (dq_swap_amount_in q) vq fee = Inr q"
    by (rule quote_with_market_ok [OF assms(1)]) blast
  show ?thesis
    by (rule plan_contract [OF assms(2)], rule that)
      (use assemble_bounds(1,2,4) [OF asm] in \<open>auto simp: swap_contract_def\<close>)
qed

end

section \<open>Loaded markets\<close>

text \<open>
  \<open>Box<dyn PoolMarket>\<close>: a loaded market of one of the venues, and the interface it offers.
\<close>

datatype loaded_market =
    LoadedCpmm cpmm_market
  | LoadedAmmV4 amm_v4_market
  | LoadedClmm clmm_market
  | LoadedDamm damm_market
  | LoadedDbc dbc_market
  | LoadedDlmm dlmm_market
  | LoadedPumpAmm pump_amm_market
  | LoadedPumpLegacy pump_legacy_market
  | LoadedWhirlpool whirlpool_market
  | LoadedMoonit moonit_market
  | LoadedFluxbeam fluxbeam_market

fun loaded_as_market :: "sdk \<Rightarrow> loaded_market \<Rightarrow> pool_market" where
  "loaded_as_market sdk (LoadedCpmm m) = cpmm_as_market sdk m"
| "loaded_as_market sdk (LoadedAmmV4 m) = amm_v4_as_market sdk m"
| "loaded_as_market sdk (LoadedClmm m) = clmm_as_market sdk m"
| "loaded_as_market sdk (LoadedDamm m) = damm_as_market sdk m"
| "loaded_as_market sdk (LoadedDbc m) = dbc_as_market sdk m"
| "loaded_as_market sdk (LoadedDlmm m) = dlmm_as_market sdk m"
| "loaded_as_market sdk (LoadedPumpAmm m) = pump_amm_as_market sdk m"
| "loaded_as_market sdk (LoadedPumpLegacy m) = pump_legacy_as_market sdk m"
| "loaded_as_market sdk (LoadedWhirlpool m) = whirlpool_as_market sdk m"
| "loaded_as_market sdk (LoadedMoonit m) = moonit_as_market sdk m"
| "loaded_as_market sdk (LoadedFluxbeam m) = fluxbeam_as_market sdk m"

text \<open>Where a swap instruction carries the amount and the minimum, for an input mint.\<close>

fun amount_offset :: "loaded_market \<Rightarrow> pubkey \<Rightarrow> nat" where
  "amount_offset (LoadedAmmV4 m) input_mint = 1"
| "amount_offset (LoadedMoonit m) input_mint = moonit_amount_pos m input_mint"
| "amount_offset (LoadedFluxbeam m) input_mint = 1"
| "amount_offset _ _ = 8"

fun min_offset :: "loaded_market \<Rightarrow> pubkey \<Rightarrow> nat" where
  "min_offset (LoadedAmmV4 m) input_mint = 9"
| "min_offset (LoadedMoonit m) input_mint = moonit_min_pos m input_mint"
| "min_offset (LoadedFluxbeam m) input_mint = 9"
| "min_offset _ _ = 16"

interpretation loaded: market "loaded_as_market sdk" amount_offset min_offset
proof
  fix m mint a q accounts mo ix
  show "pm_token_program (loaded_as_market sdk m) mint \<noteq> None \<longleftrightarrow> holds (loaded_as_market sdk m) mint"
    by (cases m) (simp_all only: loaded_as_market.simps cpmm.token_program_law amm_v4.token_program_law clmm.token_program_law damm.token_program_law
      dbc.token_program_law dlmm.token_program_law pump_amm.token_program_law pump_legacy.token_program_law
      whirlpool.token_program_law moonit.token_program_law fluxbeam.token_program_law)
  show "pm_decimals (loaded_as_market sdk m) mint \<noteq> None \<longleftrightarrow> holds (loaded_as_market sdk m) mint"
    by (cases m) (simp_all only: loaded_as_market.simps cpmm.decimals_law amm_v4.decimals_law clmm.decimals_law damm.decimals_law
      dbc.decimals_law dlmm.decimals_law pump_amm.decimals_law pump_legacy.decimals_law
      whirlpool.decimals_law moonit.decimals_law fluxbeam.decimals_law)
  show "holds (loaded_as_market sdk m) mint \<and> sane_quote a q"
    if "pm_quote (loaded_as_market sdk m) mint a = Inr q"
    using that by (cases m) (simp_all only: loaded_as_market.simps cpmm.quote_law amm_v4.quote_law clmm.quote_law damm.quote_law
      dbc.quote_law dlmm.quote_law pump_amm.quote_law pump_legacy.quote_law
      whirlpool.quote_law moonit.quote_law fluxbeam.quote_law)
  show "swap_contract (amount_offset m (sa_input_mint accounts)) (min_offset m (sa_input_mint accounts))
      (loaded_as_market sdk m) accounts a mo ix"
    if "pm_swap_instruction (loaded_as_market sdk m) accounts a mo = Inr ix"
    using that by (cases m) (simp_all only: loaded_as_market.simps amount_offset.simps min_offset.simps
      cpmm.swap_law amm_v4.swap_law clmm.swap_law damm.swap_law
      dbc.swap_law dlmm.swap_law pump_amm.swap_law pump_legacy.swap_law
      whirlpool.swap_law moonit.swap_law fluxbeam.swap_law)
qed

end
