(* ===== verification/Rpc_Errors.thy ===== *)
theory Rpc_Errors
  imports Direct_Types
begin

text \<open>
  The error values a node call of the swap path can end with, and the questions the pre-send
  gate asks of them: \<open>RpcError\<close> of \<open>src/rpc/errors.rs\<close>, the chain access errors of
  \<open>src/chains/error.rs\<close> and the execution failures of \<open>src/chains/execution.rs\<close>. Durations
  are milliseconds. The text a formatted error interpolates is not modelled.
\<close>

section \<open>RPC errors\<close>

datatype rpc_error =
    RateLimited string "nat option"
  | RpcNetwork string bool
  | ProviderError i64 string "string option"
  | RpcTimeout string nat
  | CircuitOpen string nat
  | NoProvidersAvailable "string option"
  | RpcAccountNotFound string
  | InvalidResponse string
  | RpcConfiguration string
  | RpcOther string
  | RefusedAfterDelivery u32 rpc_error
  | PaperScopeRefused

fun is_retryable :: "rpc_error \<Rightarrow> bool" where
  "is_retryable (RateLimited _ _) = True"
| "is_retryable (RpcNetwork _ _) = True"
| "is_retryable (RpcTimeout _ _) = True"
| "is_retryable (ProviderError code _ _) =
     (- 32099 \<le> code \<and> code \<le> - 32000 \<and> \<not> (code = - 32002 \<or> code = - 32015))"
| "is_retryable _ = False"

fun is_provider_health_failure :: "rpc_error \<Rightarrow> bool" where
  "is_provider_health_failure (RateLimited _ _) = True"
| "is_provider_health_failure (RpcNetwork _ _) = True"
| "is_provider_health_failure (RpcTimeout _ _) = True"
| "is_provider_health_failure (InvalidResponse _) = True"
| "is_provider_health_failure (ProviderError code message data) = is_retryable (ProviderError code message data)"
| "is_provider_health_failure _ = False"

fun is_request_rejection :: "rpc_error \<Rightarrow> bool" where
  "is_request_rejection (ProviderError code _ _) = (code = - 32700 \<or> code = - 32600 \<or> code = - 32602)"
| "is_request_rejection PaperScopeRefused = True"
| "is_request_rejection _ = False"

text \<open>\<open>str::contains\<close> and \<open>str::to_ascii_lowercase\<close>.\<close>

fun str_starts :: "string \<Rightarrow> string \<Rightarrow> bool" where
  "str_starts [] hay = True"
| "str_starts (c # cs) [] = False"
| "str_starts (c # cs) (d # ds) = (c = d \<and> str_starts cs ds)"

fun str_contains :: "string \<Rightarrow> string \<Rightarrow> bool" where
  "str_contains [] pat = str_starts pat []"
| "str_contains (c # cs) pat = (str_starts pat (c # cs) \<or> str_contains cs pat)"

definition ascii_lowercase_char :: "char \<Rightarrow> char" where
  "ascii_lowercase_char c =
     (let n = of_char c :: nat in if 65 \<le> n \<and> n \<le> 90 then char_of (n + 32) else c)"

definition says_landed :: "string \<Rightarrow> bool" where
  "says_landed hay \<longleftrightarrow>
     str_contains hay ''AlreadyProcessed''
   \<or> str_contains (map ascii_lowercase_char hay) ''already been processed''"

fun is_preflight_refusal :: "rpc_error \<Rightarrow> bool" where
  "is_preflight_refusal (ProviderError code message data) =
     (code = - 32002 \<and> \<not> says_landed message
        \<and> \<not> (case data of Some hay \<Rightarrow> says_landed hay | None \<Rightarrow> False))"
| "is_preflight_refusal _ = False"

definition is_send_refusal :: "rpc_error \<Rightarrow> bool" where
  "is_send_refusal e \<longleftrightarrow> is_request_rejection e \<or> is_preflight_refusal e"

fun is_rate_limited :: "rpc_error \<Rightarrow> bool" where
  "is_rate_limited (RateLimited _ _) = True"
| "is_rate_limited _ = False"

fun is_timeout :: "rpc_error \<Rightarrow> bool" where
  "is_timeout (RpcTimeout _ _) = True"
| "is_timeout (RpcNetwork _ timed_out) = timed_out"
| "is_timeout _ = False"

fun rpc_retry_after :: "rpc_error \<Rightarrow> nat option" where
  "rpc_retry_after (RateLimited _ retry_after) = retry_after"
| "rpc_retry_after (CircuitOpen _ retry_after) = Some retry_after"
| "rpc_retry_after _ = None"

definition from_jsonrpc_error :: "i64 \<Rightarrow> string \<Rightarrow> string option \<Rightarrow> rpc_error" where
  "from_jsonrpc_error code message data =
     (let msg_lower = map ascii_lowercase_char message in
      if str_contains msg_lower ''rate limit'' \<or> str_contains msg_lower ''too many requests''
      then RateLimited '''' None
      else ProviderError code message data)"

section \<open>Chain access errors\<close>

text \<open>The chain identifier, which every constructor but two carries, is \<open>Solana\<close> here.\<close>

datatype chains_error =
    EmptyIdentifier string
  | WrongChain
  | InvalidAccount string
  | ChainAccountNotFound string
  | AccountRead string string
  | InvalidKey string
  | UnrecognizedAddress string
  | AmbiguousChain
  | ChainNotEnabled
  | SettlementRead string
  | CapabilityUnavailable string
  | ServiceSignInRequired
  | ServiceScopeMissing string
  | ServiceBusy nat
  | ServiceDailyLimit nat
  | ServiceVersionUnsupported string
  | ServiceRequestRefused string
  | ServiceUnreachable string
  | ServiceNotContacted
  | NotTradingWallet string
  | ChainExecution string

fun is_access_refusal :: "chains_error \<Rightarrow> bool" where
  "is_access_refusal (CapabilityUnavailable _) = True"
| "is_access_refusal ServiceSignInRequired = True"
| "is_access_refusal (ServiceScopeMissing _) = True"
| "is_access_refusal (ServiceBusy _) = True"
| "is_access_refusal (ServiceDailyLimit _) = True"
| "is_access_refusal (ServiceVersionUnsupported _) = True"
| "is_access_refusal (ServiceRequestRefused _) = True"
| "is_access_refusal ServiceNotContacted = True"
| "is_access_refusal (NotTradingWallet _) = True"
| "is_access_refusal _ = False"

text \<open>\<open>crate::Error\<close>, with the variants the swap path distinguishes.\<close>

datatype app_error =
    RpcErr rpc_error
  | ChainsErr chains_error
  | OtherErr string

section \<open>Execution failures\<close>

datatype execution_failure =
    NotFound string
  | ExecConfirmationTimeout string u64
  | IndexingDelay string
  | Reverted string string
  | ExecExpired string u64 u64

fun failure_reference :: "execution_failure \<Rightarrow> string" where
  "failure_reference (NotFound reference) = reference"
| "failure_reference (ExecConfirmationTimeout reference _) = reference"
| "failure_reference (IndexingDelay reference) = reference"
| "failure_reference (Reverted reference _) = reference"
| "failure_reference (ExecExpired reference _ _) = reference"

section \<open>Lemmas\<close>

text \<open>
  The classes do not overlap where the gate relies on it: what proves a send unsent is never
  worth retrying as it is, and a refusal after an earlier attempt proves nothing.
\<close>

lemma send_refusal_not_retryable: "is_send_refusal e \<Longrightarrow> \<not> is_retryable e \<and> \<not> is_provider_health_failure e"
  by (cases e) (auto simp: is_send_refusal_def)

lemma refused_after_delivery_unproven: "\<not> is_send_refusal (RefusedAfterDelivery n e)"
  by (simp add: is_send_refusal_def)

lemma rejection_not_preflight: "is_request_rejection e \<Longrightarrow> \<not> is_preflight_refusal e"
  by (cases e) auto

lemma str_starts_append: "str_starts pat hay \<longleftrightarrow> (\<exists>post. hay = pat @ post)"
  by (induction pat hay rule: str_starts.induct) auto

lemma str_contains_iff: "str_contains hay pat \<longleftrightarrow> (\<exists>pre post. hay = pre @ pat @ post)"
proof (induction hay)
  case Nil
  then show ?case by (auto simp: str_starts_append)
next
  case (Cons c cs)
  have "(\<exists>pre post. c # cs = pre @ pat @ post)
      \<longleftrightarrow> (\<exists>post. c # cs = pat @ post) \<or> (\<exists>pre post. cs = pre @ pat @ post)"
    by (auto simp: Cons_eq_append_conv)
  then show ?case using Cons by (simp add: str_starts_append)
qed

text \<open>
  A preflight that reports the transaction as already processed, in its message or in its data,
  is never taken for a refusal.
\<close>

lemma already_processed_not_refused:
  assumes "message = pre @ ''AlreadyProcessed'' @ post \<or> data = Some (pre @ ''AlreadyProcessed'' @ post)"
  shows "\<not> is_preflight_refusal (ProviderError code message data)"
proof -
  have "says_landed (pre @ ''AlreadyProcessed'' @ post)"
    unfolding says_landed_def str_contains_iff by blast
  then show ?thesis using assms by auto
qed

end
