(* ===== verification/Settlement.thy ===== *)
theory Settlement
  imports Rpc_Errors
begin

text \<open>
  The settlement rule of \<open>src/chains/solana/settlement.rs\<close> and its vocabulary from
  \<open>src/chains/settlement.rs\<close>: what a signature status, the finalized tip and a transaction
  lookup prove about a submitted signature. The chain access facade is the parameter
  \<open>settlement_access\<close>; a status carries the confirmation level the SDK reports for it and the
  printed error.

  The lemmas show when a signature is declared dead, that a batch keeps the order of its
  checks, and that a signature declared dead cannot be on a chain whose lookup finds what is
  finalized.
\<close>

section \<open>Facts\<close>

type_synonym signature = bytes

datatype signature_verdict = SigLanded | SigFailedOnChain | SigPending | SigNotLanded

record signature_check =
  sc_signature :: string
  sc_expiry_bound :: "u64 option"

record holding =
  ho_amount :: u128
  ho_frozen :: bool

record finalized_tip =
  ft_slot :: u64
  ft_block_height :: u64

datatype confirmation_status = Processed | Confirmed | Finalized

record transaction_status =
  ts_confirmation_status :: confirmation_status
  ts_err :: "string option"

text \<open>A transaction as \<open>getTransaction\<close> returns it: its metadata, when the node has them.\<close>

record status_meta =
  sm_err :: "string option"

record encoded_transaction =
  et_meta :: "status_meta option"

definition MAX_SIGNATURES_PER_STATUS_READ :: nat where
  "MAX_SIGNATURES_PER_STATUS_READ = 256"

section \<open>The rule\<close>

definition holding_settled :: "finalized_tip \<Rightarrow> u64 \<Rightarrow> u64 option \<Rightarrow> bool" where
  "holding_settled tip expiry_bound read_slot \<longleftrightarrow>
     expiry_bound < ft_block_height tip
   \<and> (case read_slot of Some slot \<Rightarrow> ft_slot tip \<le> slot | None \<Rightarrow> False)"

datatype status_read = Decided signature_verdict | LookUpTransaction

definition classify_status ::
  "transaction_status option \<Rightarrow> u64 \<Rightarrow> u64 option \<Rightarrow> finalized_tip option \<Rightarrow> status_read" where
  "classify_status status read_slot expiry_bound tip =
     (case status of
        Some s \<Rightarrow> Decided (case ts_confirmation_status s of
            Processed \<Rightarrow> SigPending
          | Confirmed \<Rightarrow> if ts_err s \<noteq> None then SigFailedOnChain else SigLanded
          | Finalized \<Rightarrow> if ts_err s \<noteq> None then SigFailedOnChain else SigLanded)
      | None \<Rightarrow> (case (expiry_bound, tip) of
            (Some bound, Some t) \<Rightarrow>
              if bound < ft_block_height t \<and> ft_slot t \<le> read_slot then LookUpTransaction
              else Decided SigPending
          | _ \<Rightarrow> Decided SigPending))"

datatype transaction_lookup = LookupMissing | LookupExecuted "string option" | LookupUnreadable

definition lookup_verdict :: "transaction_lookup \<Rightarrow> signature_verdict" where
  "lookup_verdict l =
     (case l of
        LookupMissing \<Rightarrow> SigNotLanded
      | LookupExecuted (Some _) \<Rightarrow> SigFailedOnChain
      | LookupExecuted None \<Rightarrow> SigLanded
      | LookupUnreadable \<Rightarrow> SigPending)"

definition transaction_lookup_of :: "app_error + encoded_transaction option \<Rightarrow> transaction_lookup" where
  "transaction_lookup_of result =
     (case result of
        Inr None \<Rightarrow> LookupMissing
      | Inr (Some transaction) \<Rightarrow>
          (case et_meta transaction of
             Some meta \<Rightarrow> LookupExecuted (sm_err meta)
           | None \<Rightarrow> LookupUnreadable)
      | Inl _ \<Rightarrow> LookupUnreadable)"

section \<open>Reading a batch\<close>

record settlement_access =
  ax_parse_signature :: "string \<Rightarrow> signature option"
  ax_signature_statuses :: "signature list \<Rightarrow> app_error + u64 \<times> transaction_status option list"
  ax_finalized_tip :: "app_error + finalized_tip"
  ax_transaction :: "signature \<Rightarrow> app_error + encoded_transaction option"
  ax_token_holding_with_slot :: "string \<Rightarrow> string \<Rightarrow> u64 \<Rightarrow> app_error + holding \<times> u64 option"

definition settlement_read :: "app_error + 'a \<Rightarrow> chains_error + 'a" where
  "settlement_read r = (case r of Inl _ \<Rightarrow> Inl (SettlementRead ''{error}'') | Inr x \<Rightarrow> Inr x)"

text \<open>The \<open>collect\<close> over the checks, and the loop over the chunks of signatures.\<close>

fun parse_signatures :: "settlement_access \<Rightarrow> signature_check list \<Rightarrow> chains_error + signature list" where
  "parse_signatures access [] = Inr []"
| "parse_signatures access (check # checks) =
     and_then (ok_or (ax_parse_signature access (sc_signature check))
                 (SettlementRead ''invalid signature '{}': {error}'')) (\<lambda>signature.
     and_then (parse_signatures access checks) (\<lambda>signatures. Inr (signature # signatures)))"

fun read_statuses ::
  "settlement_access \<Rightarrow> signature list list \<Rightarrow> (u64 \<times> transaction_status option) list
   \<Rightarrow> chains_error + (u64 \<times> transaction_status option) list" where
  "read_statuses access [] statuses = Inr statuses"
| "read_statuses access (chunk # rest) statuses =
     and_then (settlement_read (ax_signature_statuses access chunk)) (\<lambda>(read_slot, chunk_statuses).
     read_statuses access rest (statuses @ map (\<lambda>status. (read_slot, status)) chunk_statuses))"

definition needs_tip :: "signature_check list \<Rightarrow> (u64 \<times> transaction_status option) list \<Rightarrow> bool" where
  "needs_tip checks statuses \<longleftrightarrow>
     (\<exists>(check, (_, status)) \<in> set (zip checks statuses). status = None \<and> sc_expiry_bound check \<noteq> None)"

definition verdict_of ::
  "settlement_access \<Rightarrow> finalized_tip option \<Rightarrow> signature_check \<Rightarrow> signature
   \<Rightarrow> u64 \<times> transaction_status option \<Rightarrow> signature_verdict" where
  "verdict_of access tip check signature read =
     (case classify_status (snd read) (fst read) (sc_expiry_bound check) tip of
        Decided verdict \<Rightarrow> verdict
      | LookUpTransaction \<Rightarrow> lookup_verdict (transaction_lookup_of (ax_transaction access signature)))"

definition signature_verdicts ::
  "settlement_access \<Rightarrow> signature_check list \<Rightarrow> chains_error + signature_verdict list" where
  "signature_verdicts access checks =
     (if checks = [] then Inr []
      else
        and_then (parse_signatures access checks) (\<lambda>signatures.
        and_then (read_statuses access (chunks MAX_SIGNATURES_PER_STATUS_READ signatures) []) (\<lambda>statuses.
        if length statuses \<noteq> length checks
        then Inl (SettlementRead ''{} statuses returned for {} signatures'')
        else
          let tip = (if needs_tip checks statuses
                     then (case ax_finalized_tip access of Inr t \<Rightarrow> Some t | Inl _ \<Rightarrow> None)
                     else None) in
          Inr (map (\<lambda>((check, signature), read). verdict_of access tip check signature read)
                 (zip (zip checks signatures) statuses)))))"

definition settled_holding ::
  "settlement_access \<Rightarrow> string \<Rightarrow> string \<Rightarrow> u64 \<Rightarrow> chains_error + holding option" where
  "settled_holding access owner asset expiry_bound =
     and_then (settlement_read (ax_finalized_tip access)) (\<lambda>tip.
     if ft_block_height tip \<le> expiry_bound then Inr None
     else
       and_then (settlement_read (ax_token_holding_with_slot access owner asset (ft_slot tip)))
         (\<lambda>(holding, read_slot).
       Inr (if holding_settled tip expiry_bound read_slot then Some holding else None)))"

section \<open>When a signature is dead\<close>

lemma classify_look_up:
  "classify_status status read_slot bound tip = LookUpTransaction \<longleftrightarrow>
     status = None \<and> (\<exists>b t. bound = Some b \<and> tip = Some t \<and> b < ft_block_height t \<and> ft_slot t \<le> read_slot)"
  by (auto simp: classify_status_def split: option.splits confirmation_status.splits)

lemma classify_never_dead: "classify_status status read_slot bound tip \<noteq> Decided SigNotLanded"
  by (auto simp: classify_status_def split: option.splits confirmation_status.splits)

lemma classify_failed:
  "classify_status status read_slot bound tip = Decided SigFailedOnChain \<longleftrightarrow>
     (\<exists>s. status = Some s \<and> ts_confirmation_status s \<noteq> Processed \<and> ts_err s \<noteq> None)"
  by (auto simp: classify_status_def split: option.splits confirmation_status.splits)

lemma classify_landed:
  "classify_status status read_slot bound tip = Decided SigLanded \<longleftrightarrow>
     (\<exists>s. status = Some s \<and> ts_confirmation_status s \<noteq> Processed \<and> ts_err s = None)"
  by (auto simp: classify_status_def split: option.splits confirmation_status.splits)

lemma lookup_missing: "transaction_lookup_of r = LookupMissing \<longleftrightarrow> r = Inr None"
  by (auto simp: transaction_lookup_of_def split: sum.splits option.splits)

lemma lookup_verdict_dead: "lookup_verdict l = SigNotLanded \<longleftrightarrow> l = LookupMissing"
  by (auto simp: lookup_verdict_def split: transaction_lookup.splits option.splits)

lemmas settlement_rule = classify_look_up classify_never_dead lookup_missing lookup_verdict_dead

lemma verdict_dead:
  "verdict_of access tip check signature read = SigNotLanded \<longleftrightarrow>
     snd read = None \<and> ax_transaction access signature = Inr None
   \<and> (\<exists>b t. sc_expiry_bound check = Some b \<and> tip = Some t
        \<and> b < ft_block_height t \<and> ft_slot t \<le> fst read)"
proof (cases "classify_status (snd read) (fst read) (sc_expiry_bound check) tip")
  case (Decided v)
  then show ?thesis
    using classify_never_dead [of "snd read" "fst read" "sc_expiry_bound check" tip]
      classify_look_up [of "snd read" "fst read" "sc_expiry_bound check" tip]
    by (auto simp: verdict_of_def)
next
  case LookUpTransaction
  show ?thesis
    unfolding verdict_of_def LookUpTransaction
    using LookUpTransaction [unfolded classify_look_up] by (simp add: lookup_verdict_dead lookup_missing)
qed

section \<open>The batch\<close>

lemma parse_signatures_ok:
  "parse_signatures access checks = Inr signatures \<Longrightarrow>
     length signatures = length checks
   \<and> (\<forall>i < length checks. ax_parse_signature access (sc_signature (checks ! i)) = Some (signatures ! i))"
  by (induction checks arbitrary: signatures) (auto simp: nth_Cons split: nat.splits)

lemma signature_verdicts_ok:
  assumes "signature_verdicts access checks = Inr verdicts" and "i < length checks"
  obtains signature read tip where
    "length verdicts = length checks"
    and "ax_parse_signature access (sc_signature (checks ! i)) = Some signature"
    and "verdicts ! i = verdict_of access tip (checks ! i) signature read"
    and "tip = None \<or> (\<exists>t. tip = Some t \<and> ax_finalized_tip access = Inr t)"
proof -
  have "checks \<noteq> []" using assms(2) by auto
  then obtain signatures statuses where
    s: "parse_signatures access checks = Inr signatures" and len: "length statuses = length checks"
    and v: "verdicts = map (\<lambda>((check, signature), read). verdict_of access
        (if needs_tip checks statuses
         then (case ax_finalized_tip access of Inr t \<Rightarrow> Some t | Inl _ \<Rightarrow> None) else None)
        check signature read) (zip (zip checks signatures) statuses)"
    using assms(1) by (auto simp: signature_verdicts_def Let_def split: if_splits)
  show ?thesis
    using parse_signatures_ok [OF s] len assms(2)
    by (intro that [of "signatures ! i"
          "if needs_tip checks statuses
           then (case ax_finalized_tip access of Inr t \<Rightarrow> Some t | Inl _ \<Rightarrow> None) else None"
          "statuses ! i"]) (auto simp: v split: sum.splits)
qed

text \<open>
  What a dead verdict relies on of the chain, for a transaction in the block of height
  \<open>landing\<close>. The runtime accepts a transaction only up to the last block its blockhash is
  valid for, and \<open>getTransaction\<close> finds every transaction of a finalized block.
\<close>

definition finds_finalized ::
  "(app_error + encoded_transaction option) \<Rightarrow> finalized_tip \<Rightarrow> u64 \<Rightarrow> bool" where
  "finds_finalized lookup tip landing \<longleftrightarrow> (landing \<le> ft_block_height tip \<longrightarrow> lookup \<noteq> Inr None)"

section \<open>Properties\<close>

text \<open>
  A batch of signature verdicts answers every check in order, and a transaction that landed
  within its expiry bound is never declared not landed, provided the lookup finds what is
  finalized.
\<close>

theorem landed_never_dead:
  assumes "signature_verdicts access checks = Inr verdicts" and "i < length checks"
    and "ax_parse_signature access (sc_signature (checks ! i)) = Some signature"
    and "case ax_finalized_tip access of Inr tip \<Rightarrow> finds_finalized (ax_transaction access signature) tip landing
         | Inl _ \<Rightarrow> True"
    and "case sc_expiry_bound (checks ! i) of Some bound \<Rightarrow> landing \<le> bound | None \<Rightarrow> True"
  shows "verdicts ! i \<noteq> SigNotLanded \<and> length verdicts = length checks"
proof (rule signature_verdicts_ok [OF assms(1,2)])
  fix sig read t
  assume len: "length verdicts = length checks"
    and sig: "ax_parse_signature access (sc_signature (checks ! i)) = Some sig"
    and v: "verdicts ! i = verdict_of access t (checks ! i) sig read"
    and t: "t = None \<or> (\<exists>u. t = Some u \<and> ax_finalized_tip access = Inr u)"
  have "verdicts ! i \<noteq> SigNotLanded"
    unfolding v verdict_dead using assms(3-5) sig t by (auto simp: finds_finalized_def)
  then show "verdicts ! i \<noteq> SigNotLanded \<and> length verdicts = length checks" using len by simp
qed

definition sample_access :: settlement_access where
  "sample_access = \<lparr>ax_parse_signature = (\<lambda>s. Some (map of_char s)),
     ax_signature_statuses = (\<lambda>signatures. Inr (900, map (\<lambda>_. None) signatures)),
     ax_finalized_tip = Inr \<lparr>ft_slot = 800, ft_block_height = 700\<rparr>,
     ax_transaction = (\<lambda>signature. Inr (if signature = [97] then Some \<lparr>et_meta = Some \<lparr>sm_err = None\<rparr>\<rparr> else None)),
     ax_token_holding_with_slot = (\<lambda>owner asset slot. Inr (\<lparr>ho_amount = 0, ho_frozen = False\<rparr>, Some slot))\<rparr>"

lemma sample_verdicts:
  "signature_verdicts sample_access [\<lparr>sc_signature = ''a'', sc_expiry_bound = Some 600\<rparr>,
      \<lparr>sc_signature = ''b'', sc_expiry_bound = Some 600\<rparr>] = Inr [SigLanded, SigNotLanded]"
  by (simp add: signature_verdicts_def sample_access_def chunks.simps MAX_SIGNATURES_PER_STATUS_READ_def
      settlement_read_def needs_tip_def verdict_of_def classify_status_def transaction_lookup_of_def
      lookup_verdict_def)

theorem landed_never_dead_witness:
  "\<exists>verdicts. signature_verdicts sample_access [\<lparr>sc_signature = ''a'', sc_expiry_bound = Some 600\<rparr>,
      \<lparr>sc_signature = ''b'', sc_expiry_bound = Some 600\<rparr>] = Inr verdicts
     \<and> verdicts ! 0 \<noteq> SigNotLanded \<and> length verdicts = 2"
  using landed_never_dead [OF sample_verdicts, of 0 "[97]" 500] sample_verdicts
  by (simp add: sample_access_def finds_finalized_def)

end
