(* ===== verification/Presend.thy ===== *)
theory Presend
  imports Settlement Receipt
begin

text \<open>
  The pre-send gate of \<open>src/chains/solana/swaps/presend.rs\<close>: measuring a transaction against
  the packet limit, what a simulation and a send prove, and the loop that settles a sent
  transaction. \<open>NotSubmittedReason\<close> is the one of \<open>src/swaps/error.rs\<close>.

  The node is not part of the sources. Its simulate and send calls and the serialization of the
  SDK are the parameter \<open>swap_node\<close>. The settle loop reads the node and the clock many times;
  one \<open>settle_round\<close> holds the answers and clock readings of one pass of the loop in the order
  the code reads them, in milliseconds, and a run of the loop is a list of rounds. A list that
  ends before the loop does is a loop still running, the value \<open>None\<close>.

  The lemmas show that the loop returns once a round reads the clock past the deadline, what
  evidence an expiry has, that the tip it is judged by was read in an earlier round, and that
  at most three copies are in flight, sent at least two seconds apart.
\<close>

section \<open>Measuring\<close>

datatype not_submitted_reason =
    BuildUnavailable string
  | BuildUnusable string
  | ReasonTooLarge nat nat
  | UnsupportedFormat u8
  | RequestRejected string
  | SimulationFailed string
  | CostExceeded u64 string string
  | ReasonSimulationUnavailable string
  | InsufficientFunds u64 u64
  | PaperScope
  | Halted
  | RouterUnavailable string
  | SignerUnavailable string
  | QuoteUnusable string
  | ServicePaused string

definition PACKET_DATA_SIZE :: nat where
  "PACKET_DATA_SIZE = 1232"

definition MESSAGE_VERSION_PREFIX :: u8 where
  "MESSAGE_VERSION_PREFIX = 0x80"

definition SIGNATURE_BYTES :: nat where
  "SIGNATURE_BYTES = 64"

datatype wire_format = LegacyFormat | V0Format

fun size_limit :: "wire_format \<Rightarrow> nat" where
  "size_limit LegacyFormat = PACKET_DATA_SIZE"
| "size_limit V0Format = PACKET_DATA_SIZE"

record measured =
  me_format :: wire_format
  me_bytes :: nat
  me_limit :: nat

text \<open>The loop of \<open>short_vec_len\<close>, at \<open>index\<close> with the bits read so far.\<close>

fun short_vec_loop :: "bytes \<Rightarrow> nat \<Rightarrow> nat \<Rightarrow> (nat \<times> nat) option" where
  "short_vec_loop [] index acc = None"
| "short_vec_loop (byte # rest) index acc =
     (let acc = acc OR push_bit (7 * index) (unat (byte AND 0x7f)) in
      if byte AND 0x80 = 0 then Some (acc, index + 1) else short_vec_loop rest (index + 1) acc)"

definition short_vec_len :: "bytes \<Rightarrow> (nat \<times> nat) option" where
  "short_vec_len bytes = short_vec_loop (take 3 bytes) 0 0"

text \<open>\<open>checked_mul\<close> and \<open>checked_add\<close> of \<open>usize\<close>.\<close>

definition checked_usize :: "nat \<Rightarrow> nat option" where
  "checked_usize n = (if n < 2 ^ 64 then Some n else None)"

definition wire_format_of :: "bytes \<Rightarrow> not_submitted_reason + wire_format" where
  "wire_format_of bytes =
     (let truncated = BuildUnusable ''the transaction bytes end before its message'' in
      and_then (ok_or (short_vec_len bytes) truncated) (\<lambda>(signatures, prefix_len).
      and_then (ok_or (Option.bind (checked_usize (signatures * SIGNATURE_BYTES))
                  (\<lambda>signature_bytes. checked_usize (signature_bytes + prefix_len))) truncated)
        (\<lambda>message_start.
      and_then (ok_or (if message_start < length bytes then Some (bytes ! message_start) else None)
                  truncated) (\<lambda>prefix.
      if prefix AND MESSAGE_VERSION_PREFIX = 0 then Inr LegacyFormat
      else let version = prefix AND NOT MESSAGE_VERSION_PREFIX in
        if version = 0 then Inr V0Format else Inl (UnsupportedFormat version)))))"

definition measure_bytes :: "bytes \<Rightarrow> not_submitted_reason + measured" where
  "measure_bytes bytes =
     and_then (wire_format_of bytes) (\<lambda>format.
     let limit = size_limit format in
     if limit < length bytes then Inl (ReasonTooLarge (length bytes) limit)
     else Inr \<lparr>me_format = format, me_bytes = length bytes, me_limit = limit\<rparr>)"

section \<open>Transactions and the node\<close>

record compiled_instruction =
  ci_program_id_index :: u8
  ci_accounts :: bytes
  ci_data :: bytes

record message =
  ms_account_keys :: "pubkey list"
  ms_instructions :: "compiled_instruction list"

datatype versioned_message = LegacyMessage message | V0Message message

record versioned_transaction =
  vt_signatures :: "signature list"
  vt_message :: versioned_message

record simulation_outcome =
  so_err :: "json option"
  so_logs :: "string list"
  so_units_consumed :: "u64 option"

definition succeeded :: "simulation_outcome \<Rightarrow> bool" where
  "succeeded outcome \<longleftrightarrow> so_err outcome = None"

definition failure_detail :: "display \<Rightarrow> simulation_outcome \<Rightarrow> string" where
  "failure_detail display outcome = (case so_err outcome of Some err \<Rightarrow> show_json display err | None \<Rightarrow> '''')"

record swap_node =
  nd_serialize :: "versioned_transaction \<Rightarrow> bytes option"
  nd_simulate :: "versioned_transaction \<Rightarrow> app_error + simulation_outcome"
  nd_send :: "versioned_transaction \<Rightarrow> app_error + signature"
  nd_show_signature :: "signature \<Rightarrow> string"

definition measure_transaction :: "swap_node \<Rightarrow> versioned_transaction \<Rightarrow> not_submitted_reason + measured" where
  "measure_transaction node transaction =
     and_then (ok_or (nd_serialize node transaction)
                 (BuildUnusable ''the transaction does not serialize: {e}'')) measure_bytes"

datatype presend_verdict =
    Cleared simulation_outcome
  | Failed simulation_outcome
  | Refused not_submitted_reason
  | VerdictNodeUnavailable string

definition simulation_verdict :: "app_error + simulation_outcome \<Rightarrow> presend_verdict" where
  "simulation_verdict result =
     (case result of
        Inr outcome \<Rightarrow> if succeeded outcome then Cleared outcome else Failed outcome
      | Inl (RpcErr error) \<Rightarrow>
          if is_request_rejection error then Refused (RequestRejected ''{error}'')
          else VerdictNodeUnavailable ''{error}''
      | Inl _ \<Rightarrow> VerdictNodeUnavailable ''{error}'')"

definition gate :: "swap_node \<Rightarrow> versioned_transaction \<Rightarrow> presend_verdict" where
  "gate node transaction =
     (case measure_transaction node transaction of
        Inl reason \<Rightarrow> Refused reason
      | Inr _ \<Rightarrow> simulation_verdict (nd_simulate node transaction))"

datatype send_failure = NotSent not_submitted_reason | Unproven app_error

fun send_failure_of :: "app_error \<Rightarrow> send_failure" where
  "send_failure_of (RpcErr e) =
     (if is_request_rejection e then NotSent (RequestRejected ''{rejection}'')
      else if is_preflight_refusal e then NotSent (SimulationFailed ''{refusal}'')
      else Unproven (RpcErr e))"
| "send_failure_of (ChainsErr e) =
     (if is_access_refusal e then NotSent (ServicePaused ''{refusal}'') else Unproven (ChainsErr e))"
| "send_failure_of (OtherErr e) = Unproven (OtherErr e)"

section \<open>Settling\<close>

definition REBROADCAST_INTERVAL :: nat where
  "REBROADCAST_INTERVAL = 2000"

definition MAX_REBROADCASTS_IN_FLIGHT :: nat where
  "MAX_REBROADCASTS_IN_FLIGHT = 3"

definition TIP_CHECK_INTERVAL :: nat where
  "TIP_CHECK_INTERVAL = 4000"

datatype settled = Landed | SettledReverted string | Expired u64 u64 | Unsettled u64

datatype poll_result = PollSettled settled | PollPending

definition poll ::
  "u64 option \<Rightarrow> finalized_tip option \<Rightarrow> app_error + u64 \<times> transaction_status option
   \<Rightarrow> app_error + encoded_transaction option \<Rightarrow> poll_result" where
  "poll last_valid_block_height tip status_answer lookup_answer =
     (case status_answer of
        Inl _ \<Rightarrow> PollPending
      | Inr (read_slot, status) \<Rightarrow>
          let failure = (\<lambda>err. SettledReverted (unwrap_or err '''')) in
          (case classify_status status read_slot last_valid_block_height tip of
             Decided SigLanded \<Rightarrow> PollSettled Landed
           | Decided SigFailedOnChain \<Rightarrow> PollSettled (failure (Option.bind status ts_err))
           | Decided _ \<Rightarrow> PollPending
           | LookUpTransaction \<Rightarrow>
               (case transaction_lookup_of lookup_answer of
                  LookupExecuted None \<Rightarrow> PollSettled Landed
                | LookupExecuted error \<Rightarrow> PollSettled (failure error)
                | LookupUnreadable \<Rightarrow> PollPending
                | LookupMissing \<Rightarrow>
                    (case (last_valid_block_height, tip) of
                       (Some last_valid, Some t) \<Rightarrow> PollSettled (Expired last_valid (ft_block_height t))
                     | _ \<Rightarrow> PollPending))))"

record settle_params =
  se_last_valid :: "u64 option"
  se_deadline :: nat
  se_timeout_ms :: nat

record settle_round =
  rd_status :: "app_error + u64 \<times> transaction_status option"
  rd_lookup :: "app_error + encoded_transaction option"
  rd_deadline_now :: nat
  rd_rebroadcast_check :: nat
  rd_rebroadcast_stamp :: nat
  rd_tip_check :: nat
  rd_tip_stamp :: nat
  rd_tip :: "app_error + finalized_tip"
  rd_answered :: nat

record settle_state =
  ss_last_rebroadcast :: nat
  ss_last_tip_check :: nat
  ss_tip :: "finalized_tip option"
  ss_in_flight :: nat

text \<open>The three statements of the loop after the poll and the deadline, in order.\<close>

definition rebroadcasts_now :: "settle_state \<Rightarrow> settle_round \<Rightarrow> bool" where
  "rebroadcasts_now st r \<longleftrightarrow>
     REBROADCAST_INTERVAL \<le> rd_rebroadcast_check r - ss_last_rebroadcast st
   \<and> ss_in_flight st < MAX_REBROADCASTS_IN_FLIGHT"

definition rebroadcast :: "settle_round \<Rightarrow> settle_state \<Rightarrow> settle_state" where
  "rebroadcast r st =
     (if rebroadcasts_now st r
      then st\<lparr>ss_last_rebroadcast := rd_rebroadcast_stamp r, ss_in_flight := ss_in_flight st + 1\<rparr>
      else st)"

definition check_tip :: "settle_params \<Rightarrow> settle_round \<Rightarrow> settle_state \<Rightarrow> settle_state" where
  "check_tip p r st =
     (if se_last_valid p \<noteq> None \<and> TIP_CHECK_INTERVAL \<le> rd_tip_check r - ss_last_tip_check st
      then let st = st\<lparr>ss_last_tip_check := rd_tip_stamp r\<rparr> in
        (case rd_tip r of Inr read \<Rightarrow> st\<lparr>ss_tip := Some read\<rparr> | Inl _ \<Rightarrow> st)
      else st)"

definition settle_pause :: "settle_round \<Rightarrow> settle_state \<Rightarrow> settle_state" where
  "settle_pause r st = st\<lparr>ss_in_flight := ss_in_flight st - rd_answered r\<rparr>"

definition settle_pass :: "settle_params \<Rightarrow> settle_state \<Rightarrow> settle_round \<Rightarrow> settled + settle_state" where
  "settle_pass p st r =
     (case poll (se_last_valid p) (ss_tip st) (rd_status r) (rd_lookup r) of
        PollSettled s \<Rightarrow> Inl s
      | PollPending \<Rightarrow>
          if se_deadline p \<le> rd_deadline_now r then Inl (Unsettled (of_nat (se_timeout_ms p)))
          else Inr (settle_pause r (check_tip p r (rebroadcast r st))))"

fun settle_loop :: "settle_params \<Rightarrow> settle_state \<Rightarrow> settle_round list \<Rightarrow> settled option" where
  "settle_loop p st [] = None"
| "settle_loop p st (r # rest) =
     (case settle_pass p st r of Inl s \<Rightarrow> Some s | Inr st \<Rightarrow> settle_loop p st rest)"

definition settle_start :: "nat \<Rightarrow> settle_state" where
  "settle_start now =
     \<lparr>ss_last_rebroadcast = now, ss_last_tip_check = now, ss_tip = None, ss_in_flight = 0\<rparr>"

definition settle :: "u64 option \<Rightarrow> nat \<Rightarrow> nat \<Rightarrow> settle_round list \<Rightarrow> settled option" where
  "settle last_valid_block_height timeout_ms started rounds =
     settle_loop \<lparr>se_last_valid = last_valid_block_height, se_deadline = started + timeout_ms,
                  se_timeout_ms = timeout_ms\<rparr> (settle_start started) rounds"

definition send_and_settle ::
  "swap_node \<Rightarrow> versioned_transaction \<Rightarrow> u64 option \<Rightarrow> nat \<Rightarrow> nat \<Rightarrow> settle_round list
   \<Rightarrow> (not_submitted_reason + signature \<times> settled) option" where
  "send_and_settle node transaction last_valid_block_height timeout_ms started rounds =
     (case measure_transaction node transaction of
        Inl reason \<Rightarrow> Some (Inl reason)
      | Inr _ \<Rightarrow>
          (case vt_signatures transaction of
             [] \<Rightarrow> Some (Inl (BuildUnusable ''the transaction carries no signature''))
           | signature # _ \<Rightarrow>
               let settled = map_option (\<lambda>s. Inr (signature, s))
                     (settle last_valid_block_height timeout_ms started rounds) in
               (case nd_send node transaction of
                  Inl error \<Rightarrow>
                    (case send_failure_of error of
                       NotSent reason \<Rightarrow> Some (Inl reason)
                     | Unproven _ \<Rightarrow> settled)
                | Inr _ \<Rightarrow> settled)))"

definition landed :: "swap_node \<Rightarrow> signature \<Rightarrow> settled \<Rightarrow> execution_failure + signature" where
  "landed node signature settled =
     (let reference = nd_show_signature node signature in
      case settled of
        Landed \<Rightarrow> Inr signature
      | SettledReverted detail \<Rightarrow> Inl (Reverted reference detail)
      | Expired last_valid current \<Rightarrow> Inl (ExecExpired reference last_valid current)
      | Unsettled waited_ms \<Rightarrow> Inl (ExecConfirmationTimeout reference waited_ms))"

datatype signed_error = SignedNotSent not_submitted_reason | SignedExecution execution_failure

definition send_and_settle_signed_on ::
  "swap_node \<Rightarrow> versioned_transaction \<Rightarrow> u64 \<Rightarrow> nat \<Rightarrow> nat \<Rightarrow> settle_round list
   \<Rightarrow> (signed_error + signature) option" where
  "send_and_settle_signed_on node transaction last_valid_block_height timeout_ms started rounds =
     map_option (\<lambda>result. case result of
         Inl reason \<Rightarrow> Inl (SignedNotSent reason)
       | Inr (signature, settled) \<Rightarrow>
           (case landed node signature settled of
              Inl failure \<Rightarrow> Inl (SignedExecution failure)
            | Inr s \<Rightarrow> Inr s))
       (send_and_settle node transaction (Some last_valid_block_height) timeout_ms started rounds)"

text \<open>
  \<open>tighten_compute_unit_limit\<close>: the first compute-budget instruction that sets a limit is
  lowered to the measured units, in place.
\<close>

definition message_of :: "versioned_message \<Rightarrow> message" where
  "message_of vm = (case vm of LegacyMessage m \<Rightarrow> m | V0Message m \<Rightarrow> m)"

fun with_message :: "versioned_message \<Rightarrow> message \<Rightarrow> versioned_message" where
  "with_message (LegacyMessage _) m = LegacyMessage m"
| "with_message (V0Message _) m = V0Message m"

definition sets_limit :: "pubkey \<Rightarrow> pubkey list \<Rightarrow> compiled_instruction \<Rightarrow> bool" where
  "sets_limit program keys ix \<longleftrightarrow>
     unat (ci_program_id_index ix) < length keys \<and> keys ! unat (ci_program_id_index ix) = program
   \<and> length (ci_data ix) = 5 \<and> ci_data ix ! 0 = 2"

definition tighten_compute_unit_limit ::
  "pubkey \<Rightarrow> versioned_transaction \<Rightarrow> u64 \<Rightarrow> versioned_transaction \<times> (u32 \<times> u32) option" where
  "tighten_compute_unit_limit program transaction units_consumed =
     (let measured = compute_unit_limit_from_measured units_consumed;
          m = message_of (vt_message transaction) in
      case position (sets_limit program (ms_account_keys m)) (ms_instructions m) of
        None \<Rightarrow> (transaction, None)
      | Some k \<Rightarrow>
          let ix = ms_instructions m ! k in
          (case u32_at (ci_data ix) 1 of
             None \<Rightarrow> (transaction, None)
           | Some requested \<Rightarrow>
               if requested \<le> measured then (transaction, None)
               else
                 let ix' = ix\<lparr>ci_data := take 1 (ci_data ix) @ u32_to_le_bytes measured\<rparr>;
                     m' = m\<lparr>ms_instructions := (ms_instructions m)[k := ix']\<rparr>
                 in (transaction\<lparr>vt_message := with_message (vt_message transaction) m'\<rparr>,
                     Some (requested, measured))))"

section \<open>The size gate\<close>

text \<open>The reference encoder of a compact length: seven bits per byte, the high bit on all but the last.\<close>

fun short_vec_bytes :: "nat \<Rightarrow> bytes" where
  "short_vec_bytes n =
     (if n < 128 then [of_nat n] else of_nat (n mod 128 + 128) # short_vec_bytes (n div 128))"

declare short_vec_bytes.simps [simp del]

lemma and_7f: "b AND 0x7f = take_bit 7 (b :: u8)"
  by (simp add: take_bit_eq_mask mask_eq_exp_minus_1)

lemma and_80: "b AND 0x80 = 0 \<longleftrightarrow> unat (b :: u8) < 128"
proof -
  have "b AND 0x80 = 0 \<longleftrightarrow> \<not> bit b 7"
    using and_exp_eq_0_iff_not_bit [of b 7] by simp
  also have "bit b 7 \<longleftrightarrow> bit (unat b) 7" by (simp add: bit_unsigned_iff)
  also have "\<dots> \<longleftrightarrow> odd (unat b div 128)" by (simp add: bit_iff_odd)
  also have "\<not> odd (unat b div 128) \<longleftrightarrow> unat b < 128"
  proof -
    have "unat b < 256" using word_unat_bound [of b] by simp
    then have "unat b div 128 < 2" by (simp add: div_less_iff_less_mult)
    then have "\<not> odd (unat b div 128) \<longleftrightarrow> unat b div 128 = 0" by (auto simp: less_2_cases_iff)
    then show ?thesis by (simp add: div_eq_0_iff)
  qed
  finally show ?thesis .
qed

lemma or_shifted: "v < 2 ^ k \<Longrightarrow> v OR push_bit k x = v + x * 2 ^ k" for v x :: nat
proof -
  assume "v < 2 ^ k"
  then have v: "take_bit k v = v" by (simp add: take_bit_nat_eq_self)
  have "take_bit k v AND push_bit k x = 0"
    by (rule bit_eqI) (auto simp: bit_simps)
  then show ?thesis unfolding v by (simp add: push_bit_eq_mult flip: disjunctive_add_eq_or)
qed

lemma unat_of_byte: "n < 256 \<Longrightarrow> unat (of_nat n :: u8) = n"
  by (simp add: unat_of_nat)

lemma short_vec_loop_bytes:
  assumes "acc < 2 ^ (7 * index)" and "n < 128 ^ m" and "0 < m"
  shows "short_vec_loop (take m (short_vec_bytes n @ rest)) index acc
     = Some (acc + n * 2 ^ (7 * index), index + length (short_vec_bytes n))"
  using assms
proof (induction n arbitrary: index acc m rule: short_vec_bytes.induct)
  case (1 n)
  obtain k where m: "m = Suc k" using "1.prems"(3) by (cases m) auto
  show ?case
  proof (cases "n < 128")
    case True
    then show ?thesis
      using "1.prems" by (simp add: m short_vec_bytes.simps [of n] Let_def and_80 and_7f or_shifted unat_of_byte
        unsigned_take_bit_eq take_bit_nat_eq_self)
  next
    case False
    let ?v = "acc + (n mod 128) * 2 ^ (7 * index)"
    have "n mod 128 * 2 ^ (7 * index) \<le> 127 * 2 ^ (7 * index)" by (intro mult_le_mono1) simp
    then have "?v < 128 * 2 ^ (7 * index)" using "1.prems"(1) by linarith
    then have "?v < 2 ^ (7 * (index + 1))" by (simp add: power_add)
    moreover have "n div 128 < 128 ^ k" using "1.prems"(2) by (simp add: m less_mult_imp_div_less)
    moreover have "0 < k" using "1.prems"(2) False by (cases k) (simp_all add: m)
    ultimately have "short_vec_loop (take k (short_vec_bytes (n div 128) @ rest)) (index + 1) ?v
      = Some (?v + n div 128 * 2 ^ (7 * (index + 1)), index + 1 + length (short_vec_bytes (n div 128)))"
      using False "1.IH" by blast
    moreover have "n mod 128 * 2 ^ (7 * index) + n div 128 * 2 ^ (7 * (index + 1)) = n * 2 ^ (7 * index)"
    proof -
      have "r * x + q * (x * 128) = (q * 128 + r) * x" for q r x :: nat by (simp add: algebra_simps)
      from this [of "n mod 128" "2 ^ (7 * index)" "n div 128"] show ?thesis by (simp add: power_add)
    qed
    moreover have "take_bit 7 (n mod 128 + 128) = n mod 128" by (simp add: take_bit_eq_mod)
    moreover have "n mod 128 < 128" by simp
    then have "unat (of_nat (n mod 128) + 128 :: u8) = n mod 128 + 128"
      using unat_of_byte [of "n mod 128 + 128"] by simp
    ultimately show ?thesis
      using "1.prems"(1) False
      by (simp add: m short_vec_bytes.simps [of n] Let_def and_80 and_7f or_shifted unat_of_byte
        unsigned_take_bit_eq add.assoc del: of_nat_mod)
  qed
qed

lemma short_vec_round_trip:
  "n < 128 ^ 3 \<Longrightarrow> short_vec_len (short_vec_bytes n @ rest) = Some (n, length (short_vec_bytes n))"
  using short_vec_loop_bytes [of 0 0 n 3 rest] by (simp add: short_vec_len_def)

lemma measure_ok:
  "measure_bytes bytes = Inr m \<longleftrightarrow>
     wire_format_of bytes = Inr (me_format m) \<and> length bytes \<le> 1232
       \<and> me_bytes m = length bytes \<and> me_limit m = 1232"
  by (cases "wire_format_of bytes"; cases m; rename_tac f fmt b l; case_tac f)
    (auto simp: measure_bytes_def Let_def PACKET_DATA_SIZE_def)

section \<open>What a send proves\<close>

lemma send_failure_not_sent:
  "send_failure_of error = NotSent reason \<Longrightarrow>
     (case error of RpcErr e \<Rightarrow> is_send_refusal e | ChainsErr e \<Rightarrow> is_access_refusal e | OtherErr _ \<Rightarrow> False)"
  by (cases error) (auto simp: is_send_refusal_def split: if_splits)

section \<open>Runs of the settle loop\<close>

text \<open>A run through passes that decide nothing.\<close>

inductive settle_run :: "settle_params \<Rightarrow> settle_state \<Rightarrow> settle_round list \<Rightarrow> settle_state \<Rightarrow> bool"
  for p :: settle_params where
  run_start: "settle_run p st [] st"
| run_pass: "settle_run p st rs st' \<Longrightarrow> settle_pass p st' r = Inr st'' \<Longrightarrow> settle_run p st (rs @ [r]) st''"

inductive_cases settle_run_NilE: "settle_run p st [] st'"

lemma settle_run_Cons:
  "settle_run p st' rs st'' \<Longrightarrow> settle_pass p st r = Inr st' \<Longrightarrow> settle_run p st (r # rs) st''"
proof (induction rule: settle_run.induct)
  case (run_start st')
  then show ?case using settle_run.run_pass [OF settle_run.run_start, of p st r st'] by simp
next
  case (run_pass st1 rs st2 r' st3)
  then show ?case using settle_run.run_pass [of p st "r # rs" st2 r' st3] by simp
qed

lemma settle_loop_Some:
  "settle_loop p st rounds = Some s \<Longrightarrow>
     \<exists>pre r post st'. rounds = pre @ r # post \<and> settle_run p st pre st' \<and> settle_pass p st' r = Inl s"
proof (induction rounds arbitrary: st)
  case (Cons r rest)
  show ?case
  proof (cases "settle_pass p st r")
    case (Inl s')
    then show ?thesis using Cons.prems settle_run.run_start [of p st] by fastforce
  next
    case (Inr st1)
    then obtain pre r' post st' where "rest = pre @ r' # post" "settle_run p st1 pre st'"
      "settle_pass p st' r' = Inl s"
      using Cons.IH [of st1] Cons.prems by auto
    then show ?thesis using settle_run_Cons [OF _ Inr] by (metis append_Cons)
  qed
qed simp

lemma settle_pass_continues:
  assumes "settle_pass p st r = Inr st'"
  shows "rd_deadline_now r < se_deadline p"
    and "poll (se_last_valid p) (ss_tip st) (rd_status r) (rd_lookup r) = PollPending"
    and "st' = settle_pause r (check_tip p r (rebroadcast r st))"
  using assms by (auto simp: settle_pass_def split: poll_result.splits if_splits)

lemma settle_returns:
  "\<exists>r \<in> set rounds. se_deadline p \<le> rd_deadline_now r \<Longrightarrow> \<exists>s. settle_loop p st rounds = Some s"
proof (induction rounds arbitrary: st)
  case (Cons r rest)
  show ?case
  proof (cases "settle_pass p st r")
    case (Inr st')
    then show ?thesis using Cons settle_pass_continues(1) [OF Inr] by fastforce
  qed simp
qed simp

subsection \<open>Invariants\<close>

lemma pass_tip:
  assumes "settle_pass p st r = Inr st'"
  shows "ss_tip st' = ss_tip st \<or> (\<exists>t. ss_tip st' = Some t \<and> rd_tip r = Inr t \<and> se_last_valid p \<noteq> None)"
  unfolding settle_pass_continues(3) [OF assms]
  by (auto simp: settle_pause_def check_tip_def rebroadcast_def Let_def split: sum.splits)

lemma pass_in_flight:
  assumes "settle_pass p st r = Inr st'" and "ss_in_flight st \<le> MAX_REBROADCASTS_IN_FLIGHT"
  shows "ss_in_flight st' \<le> MAX_REBROADCASTS_IN_FLIGHT"
  unfolding settle_pass_continues(3) [OF assms(1)] using assms(2)
  by (auto simp: settle_pause_def check_tip_def rebroadcast_def rebroadcasts_now_def Let_def split: sum.splits)

lemma run_in_flight:
  "settle_run p st rs st' \<Longrightarrow> ss_in_flight st \<le> MAX_REBROADCASTS_IN_FLIGHT \<Longrightarrow>
     ss_in_flight st' \<le> MAX_REBROADCASTS_IN_FLIGHT"
  by (induction rule: settle_run.induct) (auto dest: pass_in_flight)

text \<open>The tip of a run was read in one of its rounds, so before the status it judges.\<close>

lemma run_tip:
  "settle_run p st rs st' \<Longrightarrow> ss_tip st = None \<Longrightarrow> ss_tip st' = Some t \<Longrightarrow>
     \<exists>r \<in> set rs. rd_tip r = Inr t"
  by (induction arbitrary: t rule: settle_run.induct) (use pass_tip in fastforce)+

subsection \<open>Terminal evidence\<close>

lemma poll_expired:
  assumes "poll last_valid tip status lookup = PollSettled (Expired bound height)"
  shows "\<exists>t slot. last_valid = Some bound \<and> tip = Some t \<and> height = ft_block_height t \<and> bound < height
     \<and> status = Inr (slot, None) \<and> ft_slot t \<le> slot \<and> lookup = Inr None"
proof -
  obtain slot st where status: "status = Inr (slot, st)"
    using assms by (auto simp: poll_def split: sum.splits)
  have look: "classify_status st slot last_valid tip = LookUpTransaction"
    using assms unfolding status
    by (auto simp: poll_def Let_def split: status_read.splits signature_verdict.splits)
  then obtain b t where "st = None" "last_valid = Some b" "tip = Some t" "b < ft_block_height t" "ft_slot t \<le> slot"
    unfolding classify_look_up by blast
  then show ?thesis
    using assms look unfolding status
    by (auto simp: poll_def Let_def lookup_missing split: transaction_lookup.splits option.splits)
qed

subsection \<open>Re-broadcasts\<close>

text \<open>The clock readings at which the loop sends another copy.\<close>

fun broadcasts :: "settle_params \<Rightarrow> settle_state \<Rightarrow> settle_round list \<Rightarrow> nat list" where
  "broadcasts p st [] = []"
| "broadcasts p st (r # rest) =
     (case settle_pass p st r of
        Inl _ \<Rightarrow> []
      | Inr st' \<Rightarrow> (if rebroadcasts_now st r then [rd_rebroadcast_stamp r] else []) @ broadcasts p st' rest)"

lemma pass_last_rebroadcast:
  assumes "settle_pass p st r = Inr st'"
  shows "ss_last_rebroadcast st' = (if rebroadcasts_now st r then rd_rebroadcast_stamp r else ss_last_rebroadcast st)"
  unfolding settle_pass_continues(3) [OF assms]
  by (auto simp: settle_pause_def check_tip_def rebroadcast_def Let_def split: sum.splits)

lemma broadcasts_spaced:
  assumes "\<forall>r \<in> set rounds. rd_rebroadcast_check r \<le> rd_rebroadcast_stamp r"
  shows "sorted_wrt (\<lambda>a b. a + REBROADCAST_INTERVAL \<le> b) (ss_last_rebroadcast st # broadcasts p st rounds)"
  using assms
proof (induction rounds arbitrary: st)
  case (Cons r rest)
  show ?case
  proof (cases "settle_pass p st r")
    case (Inr st')
    note IH = Cons.IH [of st'] and last = pass_last_rebroadcast [OF Inr]
    show ?thesis
    proof (cases "rebroadcasts_now st r")
      case True
      then have "ss_last_rebroadcast st + REBROADCAST_INTERVAL \<le> rd_rebroadcast_stamp r"
        using Cons.prems by (auto simp: rebroadcasts_now_def REBROADCAST_INTERVAL_def)
      then show ?thesis using True Inr IH last Cons.prems by auto
    next
      case False
      then show ?thesis using Inr IH last Cons.prems by auto
    qed
  qed simp
qed simp

lemma spaced_length:
  "sorted_wrt (\<lambda>a b. a + d \<le> b) (t # ts) \<Longrightarrow> ts \<noteq> [] \<Longrightarrow> t + length ts * d \<le> last ts" for d :: nat
proof (induction ts arbitrary: t)
  case (Cons u us)
  then show ?case by (cases us) force+
qed simp

subsection \<open>Terminal evidence\<close>

lemma poll_landed:
  assumes "poll last_valid tip status lookup = PollSettled Landed"
  shows "(\<exists>slot s. status = Inr (slot, Some s) \<and> ts_confirmation_status s \<noteq> Processed \<and> ts_err s = None)
     \<or> (\<exists>tx meta. lookup = Inr (Some tx) \<and> et_meta tx = Some meta \<and> sm_err meta = None)"
  using assms classify_landed
  by (auto simp: poll_def Let_def transaction_lookup_of_def
      split: sum.splits status_read.splits signature_verdict.splits transaction_lookup.splits option.splits prod.splits)

lemma poll_reverted:
  assumes "poll last_valid tip status lookup = PollSettled (SettledReverted detail)"
  shows "(\<exists>slot s. status = Inr (slot, Some s) \<and> ts_confirmation_status s \<noteq> Processed \<and> ts_err s = Some detail)
     \<or> (\<exists>tx meta. lookup = Inr (Some tx) \<and> et_meta tx = Some meta \<and> sm_err meta = Some detail)"
  using assms classify_failed
  by (auto simp: poll_def Let_def transaction_lookup_of_def
      split: sum.splits status_read.splits signature_verdict.splits transaction_lookup.splits option.splits prod.splits)

lemma poll_unsettled: "poll last_valid tip status lookup \<noteq> PollSettled (Unsettled w)"
  by (auto simp: poll_def Let_def
      split: sum.splits status_read.splits signature_verdict.splits transaction_lookup.splits option.splits)

text \<open>What the last round of a run shows, for every verdict.\<close>

definition settle_evidence :: "u64 option \<Rightarrow> nat \<Rightarrow> settle_round list \<Rightarrow> settled \<Rightarrow> bool" where
  "settle_evidence last_valid deadline rounds s =
     (\<exists>pre r post. rounds = pre @ r # post
      \<and> (case s of
           Landed \<Rightarrow>
             (\<exists>slot st. rd_status r = Inr (slot, Some st) \<and> ts_confirmation_status st \<noteq> Processed \<and> ts_err st = None)
           \<or> (\<exists>tx meta. rd_lookup r = Inr (Some tx) \<and> et_meta tx = Some meta \<and> sm_err meta = None)
         | SettledReverted detail \<Rightarrow>
             (\<exists>slot st. rd_status r = Inr (slot, Some st) \<and> ts_confirmation_status st \<noteq> Processed
                \<and> ts_err st = Some detail)
           \<or> (\<exists>tx meta. rd_lookup r = Inr (Some tx) \<and> et_meta tx = Some meta \<and> sm_err meta = Some detail)
         | Expired bound height \<Rightarrow>
             (\<exists>t slot. last_valid = Some bound \<and> (\<exists>r' \<in> set pre. rd_tip r' = Inr t) \<and> height = ft_block_height t
                \<and> bound < height \<and> rd_status r = Inr (slot, None) \<and> ft_slot t \<le> slot \<and> rd_lookup r = Inr None)
         | Unsettled _ \<Rightarrow> deadline \<le> rd_deadline_now r))"

lemma settle_has_evidence:
  assumes "settle_loop p st rounds = Some s" and "ss_tip st = None"
  shows "settle_evidence (se_last_valid p) (se_deadline p) rounds s"
proof -
  obtain pre r post st' where rounds: "rounds = pre @ r # post" and run: "settle_run p st pre st'"
    and pass: "settle_pass p st' r = Inl s"
    using settle_loop_Some [OF assms(1)] by blast
  consider (poll) "poll (se_last_valid p) (ss_tip st') (rd_status r) (rd_lookup r) = PollSettled s"
    | (late) w where "s = Unsettled w" and "se_deadline p \<le> rd_deadline_now r"
    using pass by (auto simp: settle_pass_def split: poll_result.splits if_splits)
  then show ?thesis
  proof cases
    case poll
    show ?thesis
    proof (cases s)
      case Landed
      show ?thesis unfolding settle_evidence_def
        by (intro exI conjI, rule rounds) (use poll_landed poll Landed in fastforce)
    next
      case (SettledReverted d)
      show ?thesis unfolding settle_evidence_def
        by (intro exI conjI, rule rounds) (use poll_reverted poll SettledReverted in fastforce)
    next
      case (Expired b h)
      then obtain t slot where "se_last_valid p = Some b" and tip: "ss_tip st' = Some t"
        and "h = ft_block_height t" "b < h" "rd_status r = Inr (slot, None)" "ft_slot t \<le> slot" "rd_lookup r = Inr None"
        using poll_expired poll by blast
      moreover have "\<exists>r' \<in> set pre. rd_tip r' = Inr t" by (rule run_tip [OF run assms(2) tip])
      ultimately show ?thesis unfolding settle_evidence_def using rounds Expired by fastforce
    next
      case (Unsettled w)
      then show ?thesis using poll poll_unsettled by blast
    qed
  next
    case late
    show ?thesis unfolding settle_evidence_def
      by (intro exI conjI, rule rounds) (use late in simp)
  qed
qed

section \<open>Sending\<close>

text \<open>The answers of a send that prove the transaction never reached the chain.\<close>

definition proves_unsent :: "app_error + signature \<Rightarrow> bool" where
  "proves_unsent answer =
     (case answer of
        Inl (RpcErr e) \<Rightarrow> is_send_refusal e
      | Inl (ChainsErr e) \<Rightarrow> is_access_refusal e
      | _ \<Rightarrow> False)"

lemma proves_unsent_iff:
  "proves_unsent answer \<longleftrightarrow> (\<exists>e reason. answer = Inl e \<and> send_failure_of e = NotSent reason)"
proof (cases answer)
  case (Inl e)
  then show ?thesis by (cases e) (auto simp: proves_unsent_def is_send_refusal_def)
qed (simp add: proves_unsent_def)

lemma send_and_settle_cases:
  assumes "send_and_settle node tx last_valid timeout started rounds = Some result"
  obtains (refused) reason where "result = Inl reason"
      and "isl (measure_transaction node tx) \<or> vt_signatures tx = [] \<or> proves_unsent (nd_send node tx)"
  | (settled) signature rest s where "result = Inr (signature, s)" and "vt_signatures tx = signature # rest"
      and "\<not> proves_unsent (nd_send node tx)"
      and "settle last_valid timeout started rounds = Some s"
proof (cases "measure_transaction node tx")
  case (Inl reason)
  then show ?thesis using assms refused [of reason] by (simp add: send_and_settle_def)
next
  case (Inr m)
  show ?thesis
  proof (cases "vt_signatures tx")
    case Nil
    then show ?thesis using assms refused [OF sym] Inr by (simp add: send_and_settle_def)
  next
    case (Cons signature rest)
    show ?thesis
    proof (cases "proves_unsent (nd_send node tx)")
      case True
      then obtain e reason where "nd_send node tx = Inl e" "send_failure_of e = NotSent reason"
        by (auto simp: proves_unsent_iff)
      then show ?thesis using assms Inr Cons True refused [of reason] by (simp add: send_and_settle_def)
    next
      case False
      then have "map_option (\<lambda>s. Inr (signature, s)) (settle last_valid timeout started rounds) = Some result"
        using assms Inr Cons
        by (auto simp: send_and_settle_def proves_unsent_iff Let_def split: sum.splits send_failure.splits)
      then show ?thesis using settled [OF _ Cons False] by blast
    qed
  qed
qed

lemma send_and_settle_returns:
  assumes "\<exists>r \<in> set rounds. started + timeout \<le> rd_deadline_now r"
  shows "\<exists>result. send_and_settle node tx last_valid timeout started rounds = Some result"
proof -
  obtain s where "settle last_valid timeout started rounds = Some s"
    using settle_returns [of rounds "\<lparr>se_last_valid = last_valid, se_deadline = started + timeout,
      se_timeout_ms = timeout\<rparr>" "settle_start started"] assms by (auto simp: settle_def)
  then show ?thesis
    by (auto simp: send_and_settle_def Let_def split: sum.split list.split send_failure.split)
qed

section \<open>Tightening the compute limit\<close>

lemma position_Some: "position P xs = Some k \<Longrightarrow> k < length xs \<and> P (xs ! k) \<and> (\<forall>j < k. \<not> P (xs ! j))"
proof (induction xs arbitrary: k)
  case (Cons x xs)
  show ?case
  proof (cases "P x")
    case False
    then obtain i where "position P xs = Some i" "k = Suc i" using Cons.prems by auto
    then show ?thesis using Cons.IH [of i] False by (auto simp: nth_Cons split: nat.splits)
  qed (use Cons.prems in simp)
qed simp

lemma tighten_lowers:
  assumes "tighten_compute_unit_limit program tx units = (tx', Some (requested, measured))"
  obtains k where
    "k < length (ms_instructions (message_of (vt_message tx)))"
    and "measured = compute_unit_limit_from_measured units" and "measured < requested"
    and "vt_signatures tx' = vt_signatures tx"
    and "ms_account_keys (message_of (vt_message tx')) = ms_account_keys (message_of (vt_message tx))"
    and "\<And>j. j \<noteq> k \<Longrightarrow> ms_instructions (message_of (vt_message tx')) ! j = ms_instructions (message_of (vt_message tx)) ! j"
    and "u32_at (ci_data (ms_instructions (message_of (vt_message tx)) ! k)) 1 = Some requested"
    and "u32_at (ci_data (ms_instructions (message_of (vt_message tx')) ! k)) 1 = Some measured"
proof -
  let ?m = "message_of (vt_message tx)"
  obtain k where k: "position (sets_limit program (ms_account_keys ?m)) (ms_instructions ?m) = Some k"
    using assms by (auto simp: tighten_compute_unit_limit_def Let_def split: option.splits)
  let ?ix = "ms_instructions ?m ! k"
  have req: "u32_at (ci_data ?ix) 1 = Some requested" and less: "measured < requested"
    and meas: "measured = compute_unit_limit_from_measured units"
    and tx': "tx' = tx\<lparr>vt_message := with_message (vt_message tx)
        (?m\<lparr>ms_instructions := (ms_instructions ?m)
           [k := ?ix\<lparr>ci_data := take 1 (ci_data ?ix) @ u32_to_le_bytes measured\<rparr>]\<rparr>)\<rparr>"
    using assms k by (auto simp: tighten_compute_unit_limit_def Let_def split: option.splits if_splits)
  have klen: "k < length (ms_instructions ?m)" and "length (ci_data ?ix) = 5"
    using position_Some [OF k] by (auto simp: sets_limit_def)
  then have written: "u32_at (take 1 (ci_data ?ix) @ u32_to_le_bytes measured) 1 = Some measured"
    using u32_at_written [of "take 1 (ci_data ?ix)" 1 measured "[]"] by simp
  have msg: "message_of (with_message v m') = m'" for v m'
    by (cases v) (simp_all add: message_of_def)
  show ?thesis
    by (rule that [of k]) (use klen req less meas written in \<open>simp_all add: tx' msg\<close>)
qed

lemma tighten_keeps: "tighten_compute_unit_limit program tx units = (tx', None) \<Longrightarrow> tx' = tx"
  by (auto simp: tighten_compute_unit_limit_def Let_def split: option.splits if_splits)

section \<open>Properties\<close>

text \<open>
  C3: every verdict of the settle loop is justified by what a node answered. Landed and reverted
  come from a status at confirmed or above, or from the transaction itself; expired needs a
  finalized height past the last valid block that was read in an earlier round, a null status
  from a node that had reached that slot, and a lookup that found nothing; and the loop gives up
  only past its deadline.
\<close>

theorem settle_verdict_justified:
  assumes "settle last_valid timeout started rounds = Some s"
  shows "settle_evidence last_valid (started + timeout) rounds s"
  using settle_has_evidence [OF assms [unfolded settle_def]] by (simp add: settle_start_def)

definition sample_round :: "nat \<Rightarrow> u64 \<Rightarrow> settle_round" where
  "sample_round now slot = \<lparr>rd_status = Inr (slot, None), rd_lookup = Inr None, rd_deadline_now = now,
     rd_rebroadcast_check = now, rd_rebroadcast_stamp = now, rd_tip_check = now, rd_tip_stamp = now,
     rd_tip = Inr \<lparr>ft_slot = 20, ft_block_height = 2000\<rparr>, rd_answered = 0\<rparr>"

lemmas sample_settle_defs = settle_def settle_start_def settle_pass_def poll_def classify_status_def sample_round_def
  settle_pause_def check_tip_def rebroadcast_def rebroadcasts_now_def REBROADCAST_INTERVAL_def
  MAX_REBROADCASTS_IN_FLIGHT_def TIP_CHECK_INTERVAL_def transaction_lookup_of_def

lemma sample_settle:
  "settle (Some 1000) 60000 0 [sample_round 1000 10, sample_round 5000 15, sample_round 6000 25] = Some (Expired 1000 2000)"
  by (simp add: sample_settle_defs)

theorem settle_verdict_justified_witness:
  "settle (Some 1000) 60000 0 [sample_round 1000 10, sample_round 5000 15, sample_round 6000 25] = Some (Expired 1000 2000)
   \<and> settle_evidence (Some 1000) 60000 [sample_round 1000 10, sample_round 5000 15, sample_round 6000 25] (Expired 1000 2000)"
  using settle_verdict_justified [OF sample_settle] sample_settle by simp

text \<open>
  C4: a transaction that landed by its last valid block is never settled as expired, whatever the
  nodes answer and whenever they are read, as long as the lookup finds finalized transactions.
\<close>

theorem landed_never_expires:
  assumes "settle (Some bound) timeout started rounds = Some s" and "landing \<le> bound"
    and "\<forall>r \<in> set rounds. \<forall>r' \<in> set rounds.
      case rd_tip r' of Inr t \<Rightarrow> finds_finalized (rd_lookup r) t landing | Inl _ \<Rightarrow> True"
  shows "s \<noteq> Expired b h"
proof
  assume s: "s = Expired b h"
  have "settle_evidence (Some bound) (started + timeout) rounds s"
    using settle_has_evidence [OF assms(1) [unfolded settle_def]] by (simp add: settle_start_def)
  then obtain pre r post t r' where rounds: "rounds = pre @ r # post" and r': "r' \<in> set pre" "rd_tip r' = Inr t"
    and "b = bound" "h = ft_block_height t" "b < h" and none: "rd_lookup r = Inr None"
    unfolding settle_evidence_def s by auto
  then have "case rd_tip r' of Inr t \<Rightarrow> finds_finalized (rd_lookup r) t landing | Inl _ \<Rightarrow> True"
    using assms(3) unfolding rounds by (metis UnCI list.set_intros(1) set_append)
  then have "finds_finalized (rd_lookup r) t landing" by (simp add: r'(2))
  then show False
    using none \<open>b = bound\<close> \<open>h = ft_block_height t\<close> \<open>b < h\<close> assms(2) by (auto simp: finds_finalized_def)
qed

definition sample_landed_round :: "nat \<Rightarrow> u64 \<Rightarrow> settle_round" where
  "sample_landed_round now slot = (sample_round now slot)
     \<lparr>rd_lookup := Inr (Some \<lparr>et_meta = Some \<lparr>sm_err = None\<rparr>\<rparr>)\<rparr>"

theorem landed_never_expires_witness:
  "\<exists>s. settle (Some 1000) 60000 0 [sample_landed_round 5000 15, sample_landed_round 6000 25] = Some s \<and> s \<noteq> Expired 1000 2000"
proof -
  have s: "settle (Some 1000) 60000 0 [sample_landed_round 5000 15, sample_landed_round 6000 25] = Some Landed"
    by (simp add: sample_settle_defs sample_landed_round_def)
  show ?thesis
    using landed_never_expires [OF s, of 900 1000 2000] s
    by (simp add: sample_landed_round_def sample_round_def finds_finalized_def)
qed

definition sample_node :: swap_node where
  "sample_node = \<lparr>nd_serialize = (\<lambda>tx. Some (1 # replicate 64 0 @ [1, 0, 0])),
     nd_simulate = (\<lambda>tx. Inr \<lparr>so_err = None, so_logs = [], so_units_consumed = Some 50000\<rparr>),
     nd_send = (\<lambda>tx. Inl (OtherErr ''no answer'')),
     nd_show_signature = (\<lambda>signature. ''signature'')\<rparr>"

text \<open>
  A send is reported as not submitted only with proof: the transaction did not measure,
  carried no signature, or the send was refused before it could reach the chain. In every other
  case the result is the transaction's own first signature with a justified verdict.
\<close>

theorem not_submitted_is_proved:
  assumes "send_and_settle node tx last_valid timeout started rounds = Some result"
  shows "case result of
      Inl reason \<Rightarrow> isl (measure_transaction node tx) \<or> vt_signatures tx = [] \<or> proves_unsent (nd_send node tx)
    | Inr (signature, s) \<Rightarrow> vt_signatures tx \<noteq> [] \<and> signature = hd (vt_signatures tx)
        \<and> \<not> proves_unsent (nd_send node tx) \<and> settle_evidence last_valid (started + timeout) rounds s"
proof (cases rule: send_and_settle_cases [OF assms])
  case (2 signature rest s)
  then show ?thesis
    using settle_has_evidence [OF 2(4) [unfolded settle_def]] by (simp add: settle_start_def)
qed simp

theorem not_submitted_is_proved_witness:
  "\<exists>s. send_and_settle sample_node \<lparr>vt_signatures = [[7]], vt_message = LegacyMessage \<lparr>ms_account_keys = [], ms_instructions = []\<rparr>\<rparr>
      (Some 1000) 60000 0 [sample_round 1000 10, sample_round 5000 15, sample_round 6000 25] = Some (Inr ([7], s))
     \<and> settle_evidence (Some 1000) 60000 [sample_round 1000 10, sample_round 5000 15, sample_round 6000 25] s"
proof -
  let ?rounds = "[sample_round 1000 10, sample_round 5000 15, sample_round 6000 25]"
  let ?tx = "\<lparr>vt_signatures = [[7]], vt_message = LegacyMessage \<lparr>ms_account_keys = [], ms_instructions = []\<rparr>\<rparr>"
  have "measure_transaction sample_node ?tx = Inr \<lparr>me_format = LegacyFormat, me_bytes = 68, me_limit = 1232\<rparr>"
    by (simp add: measure_transaction_def sample_node_def measure_bytes_def wire_format_of_def short_vec_len_def
        checked_usize_def SIGNATURE_BYTES_def PACKET_DATA_SIZE_def MESSAGE_VERSION_PREFIX_def nth_append
        Let_def)
  then have r: "send_and_settle sample_node ?tx (Some 1000) 60000 0 ?rounds = Some (Inr ([7], Expired 1000 2000))"
    using sample_settle by (simp add: send_and_settle_def sample_node_def)
  show ?thesis using not_submitted_is_proved [OF r] r by auto
qed

text \<open>
  The loop never has more than three re-broadcasts in flight, and it sends copies at least
  two seconds apart, so their number is bounded by the time that has passed.
\<close>

theorem rebroadcasts_bounded:
  assumes "settle_run p (settle_start started) rounds st"
    and "\<forall>r \<in> set rounds. rd_rebroadcast_check r \<le> rd_rebroadcast_stamp r"
  shows "ss_in_flight st \<le> 3
    \<and> sorted_wrt (\<lambda>a b. a + 2000 \<le> b) (started # broadcasts p (settle_start started) rounds)
    \<and> started + 2000 * length (broadcasts p (settle_start started) rounds)
        \<le> last (started # broadcasts p (settle_start started) rounds)"
proof -
  have s: "sorted_wrt (\<lambda>a b. a + 2000 \<le> b) (started # broadcasts p (settle_start started) rounds)"
    using broadcasts_spaced [OF assms(2), of "settle_start started" p]
    by (simp only: REBROADCAST_INTERVAL_def settle_start_def settle_state.select_convs)
  have "started + 2000 * length (broadcasts p (settle_start started) rounds)
        \<le> last (started # broadcasts p (settle_start started) rounds)"
    using spaced_length [OF s] by (cases "broadcasts p (settle_start started) rounds = []") (simp_all add: mult.commute)
  moreover have "ss_in_flight st \<le> 3"
    using run_in_flight [OF assms(1)] by (simp add: settle_start_def MAX_REBROADCASTS_IN_FLIGHT_def)
  ultimately show ?thesis using s by simp
qed

theorem rebroadcasts_bounded_witness:
  "\<exists>st. settle_run \<lparr>se_last_valid = None, se_deadline = 60000, se_timeout_ms = 60000\<rparr> (settle_start 0) [sample_round 2500 1] st
     \<and> ss_in_flight st \<le> 3"
proof -
  let ?p = "\<lparr>se_last_valid = None, se_deadline = 60000, se_timeout_ms = 60000\<rparr>"
  obtain st where "settle_pass ?p (settle_start 0) (sample_round 2500 1) = Inr st"
    by (simp add: sample_settle_defs)
  then have run: "settle_run ?p (settle_start 0) [sample_round 2500 1] st"
    using settle_run.run_pass [OF settle_run.run_start] by force
  have "ss_in_flight st \<le> 3"
    using rebroadcasts_bounded [OF run] by (simp add: sample_round_def)
  then show ?thesis using run by blast
qed

lemma version_bits: "\<not> unat b < 128 \<Longrightarrow> b AND NOT 0x80 = of_nat (unat b - 128)" for b :: u8
proof -
  assume b: "\<not> unat b < 128"
  have "unat b < 256" using word_unat_bound [of b] by simp
  then have "unat b mod 128 = unat b - 128" using b by (simp add: mod_if)
  moreover have "NOT 0x80 = (0x7f :: u8)" by simp
  then have "unat (b AND NOT 0x80) = unat b mod 128"
    by (simp only: and_7f unsigned_take_bit_eq) (simp add: take_bit_eq_mod)
  ultimately show ?thesis using \<open>unat b < 256\<close> by (intro word_nat_eqI) (simp add: unat_of_nat)
qed

text \<open>
  The size gate reads the message format behind the signatures of any well-formed
  transaction, and passes exactly the supported formats that fit a packet.
\<close>

theorem size_gate:
  assumes "length signature_bytes = 64 * n" and "n < 2 ^ 16"
  shows "measure_bytes (short_vec_bytes n @ signature_bytes @ prefix # rest) =
     (let bytes = length (short_vec_bytes n) + 64 * n + 1 + length rest in
      if unat prefix < 128
      then if bytes \<le> 1232 then Inr \<lparr>me_format = LegacyFormat, me_bytes = bytes, me_limit = 1232\<rparr>
           else Inl (ReasonTooLarge bytes 1232)
      else if unat prefix = 128
      then if bytes \<le> 1232 then Inr \<lparr>me_format = V0Format, me_bytes = bytes, me_limit = 1232\<rparr>
           else Inl (ReasonTooLarge bytes 1232)
      else Inl (UnsupportedFormat (of_nat (unat prefix - 128))))"
proof -
  let ?sv = "short_vec_bytes n" and ?bytes = "short_vec_bytes n @ signature_bytes @ prefix # rest"
  have sv: "short_vec_len ?bytes = Some (n, length ?sv)" using assms(2) by (intro short_vec_round_trip) simp
  have len: "length ?sv \<le> 3"
    using assms(2) by (simp add: short_vec_bytes.simps [of n] short_vec_bytes.simps [of "n div 128"]
        short_vec_bytes.simps [of "n div 128 div 128"] div_less_iff_less_mult)
  have pos: "?bytes ! (n * 64 + length ?sv) = prefix" using assms(1) by (simp add: nth_append)
  have fit: "n * 64 < 2 ^ 64" "n * 64 + length ?sv < 2 ^ 64" using assms(2) len by simp_all
  have "wire_format_of ?bytes =
      (if unat prefix < 128 then Inr LegacyFormat
       else if unat prefix = 128 then Inr V0Format else Inl (UnsupportedFormat (of_nat (unat prefix - 128))))"
  proof (cases "unat prefix < 128")
    case True
    then show ?thesis
      using fit assms(1) by (simp add: wire_format_of_def Let_def sv checked_usize_def SIGNATURE_BYTES_def
          MESSAGE_VERSION_PREFIX_def pos and_80)
  next
    case False
    have "unat prefix < 256" using word_unat_bound [of prefix] by simp
    then have "unat (of_nat (unat prefix - 128) :: u8) = unat prefix - 128" by (intro unat_of_byte) simp
    then have "(of_nat (unat prefix - 128) :: u8) = 0 \<longleftrightarrow> unat prefix = 128"
      using False unat_eq_0 [of "of_nat (unat prefix - 128) :: u8"] by linarith
    moreover have "prefix AND NOT MESSAGE_VERSION_PREFIX = of_nat (unat prefix - 128)"
      unfolding MESSAGE_VERSION_PREFIX_def by (rule version_bits [OF False])
    moreover have "prefix AND MESSAGE_VERSION_PREFIX \<noteq> 0"
      using False by (simp add: MESSAGE_VERSION_PREFIX_def and_80)
    ultimately show ?thesis
      using fit assms(1) False
      by (simp add: wire_format_of_def Let_def sv checked_usize_def SIGNATURE_BYTES_def pos del: of_nat_diff)
  qed
  then show ?thesis
    using assms(1) by (simp add: measure_bytes_def Let_def PACKET_DATA_SIZE_def)
qed

theorem size_gate_witness:
  "measure_bytes (short_vec_bytes 1 @ replicate 64 0 @ 0x80 # replicate 100 0)
     = Inr \<lparr>me_format = V0Format, me_bytes = 166, me_limit = 1232\<rparr>"
  using size_gate [of "replicate 64 0" 1 "0x80" "replicate 100 0"] by (simp add: short_vec_bytes.simps Let_def)

text \<open>
  Tightening only ever lowers the requested compute limit, to the measured units with margin,
  and changes nothing else of the transaction.
\<close>

theorem tighten_only_lowers:
  "case tighten_compute_unit_limit program tx units of
     (tx', None) \<Rightarrow> tx' = tx
   | (tx', Some (requested, measured)) \<Rightarrow>
       measured < requested \<and> unat measured = max 60000 (min (unat units * 115 div 100 + 2000) 1400000)
     \<and> vt_signatures tx' = vt_signatures tx
     \<and> ms_account_keys (message_of (vt_message tx')) = ms_account_keys (message_of (vt_message tx))
     \<and> (\<exists>k. {j. ms_instructions (message_of (vt_message tx')) ! j \<noteq> ms_instructions (message_of (vt_message tx)) ! j} \<subseteq> {k}
          \<and> u32_at (ci_data (ms_instructions (message_of (vt_message tx)) ! k)) 1 = Some requested
          \<and> u32_at (ci_data (ms_instructions (message_of (vt_message tx')) ! k)) 1 = Some measured)"
proof (cases "tighten_compute_unit_limit program tx units")
  case (Pair tx' change)
  show ?thesis
  proof (cases change)
    case None
    then show ?thesis using Pair tighten_keeps by simp
  next
    case (Some c)
    obtain requested measured where c: "c = (requested, measured)" by (cases c)
    show ?thesis
      by (rule tighten_lowers [OF Pair [unfolded Some c]])
        (auto simp: Pair Some c unat_limit_from_measured)
  qed
qed

end
