(* ===== verification/Execute.thy ===== *)
theory Execute
  imports Presend
begin

text \<open>
  \<open>src/chains/solana/swaps/direct/execute.rs\<close>: from a plan to a settled swap and its receipt.
  The answers of the node, the clock and the signing functions of the SDK are the parameter
  \<open>execution_env\<close>; whether the engine has a node of its own is fixed for the process. The
  rounds of the settle loop are those of \<open>Presend\<close>, and a run that has not settled yet is
  \<open>None\<close>.

  The lemmas show what a preflight guarantees and, for every error of an execution, whether the
  transaction was sent and what is known about it: an error that allows another route proves
  that this one can no longer land.
\<close>

section \<open>The environment\<close>

record balance_account = account +
  acc_lamports :: u64

record execution_env =
  ee_direct_node :: bool
  ee_get_multiple_accounts :: "pubkey list \<Rightarrow> app_error + balance_account option list"
  ee_ata_rent :: "app_error + u64"
  ee_latest_blockhash :: "app_error + bytes \<times> u64"
  ee_new_signed :: "instruction list \<Rightarrow> pubkey \<Rightarrow> bytes \<Rightarrow> versioned_transaction"
  ee_new_unsigned :: "instruction list \<Rightarrow> pubkey \<Rightarrow> bytes \<Rightarrow> versioned_transaction"
  ee_node :: swap_node
  ee_config_price :: u64
  ee_confirmation_timeout_secs :: u64
  ee_settle_started :: nat
  ee_settle_rounds :: "settle_round list"
  ee_transaction_details :: "nat \<Rightarrow> app_error + transaction_details"
  ee_display :: display
  ee_duration_ms :: u64

definition direct_node :: "execution_env \<Rightarrow> string \<Rightarrow> unit direct_swap_result" where
  "direct_node env operation =
     (if ee_direct_node env then Inr () else Inl (NodeUnavailable operation ''{error}''))"

definition map_err :: "('e \<Rightarrow> 'f) \<Rightarrow> 'e + 'a \<Rightarrow> 'f + 'a" where
  "map_err f r = (case r of Inl e \<Rightarrow> Inl (f e) | Inr x \<Rightarrow> Inr x)"

text \<open>\<open>From<NotSubmittedReason> for DirectSwapError\<close>.\<close>

fun from_reason :: "not_submitted_reason \<Rightarrow> direct_swap_error" where
  "from_reason (ReasonTooLarge bytes limit) = TransactionTooLarge bytes limit"
| "from_reason (RequestRejected detail) = SimulationRejected detail []"
| "from_reason (SimulationFailed detail) = SimulationRejected detail []"
| "from_reason (ReasonSimulationUnavailable detail) = SimulationUnavailable detail"
| "from_reason _ = Build ''{other}''"

section \<open>Preflight\<close>

definition NETWORK_FEE_HEADROOM_PCT :: u64 where
  "NETWORK_FEE_HEADROOM_PCT = 20"

definition network_fee_cushion_lamports :: "execution_env \<Rightarrow> swap_plan \<Rightarrow> u64" where
  "network_fee_cushion_lamports env plan =
     saturating_mul (network_fee_lamports (ee_config_price env) (sp_instructions plan))
       (100 + NETWORK_FEE_HEADROOM_PCT) div 100"

definition ata_rent_lamports :: "execution_env \<Rightarrow> u64 direct_swap_result" where
  "ata_rent_lamports env =
     map_err (\<lambda>_. NodeUnavailable ''getMinimumBalanceForRentExemption''
       ''could not read the ATA rent-exempt minimum: {e}'') (ee_ata_rent env)"

definition preflight_balance :: "sdk \<Rightarrow> execution_env \<Rightarrow> swap_plan \<Rightarrow> pubkey \<Rightarrow> unit direct_swap_result" where
  "preflight_balance sdk env plan owner =
     and_then (direct_node env ''getMultipleAccounts'') (\<lambda>_.
     and_then (map_err (\<lambda>_. AccountUnavailable owner ''could not read wallet balances for preflight: {e}'')
       (ee_get_multiple_accounts env [owner, sp_input_account plan, sp_output_account plan])) (\<lambda>accounts.
     and_then (if 0 < length accounts
               then Inr (case accounts ! 0 of Some a \<Rightarrow> acc_lamports a | None \<Rightarrow> 0)
               else Inl (AccountUnavailable owner
                 ''getMultipleAccounts returned no entry for the preflight balance batch'')) (\<lambda>owner_lamports.
     and_then (if 1 < length accounts then Inr (accounts ! 1)
               else Inl (AccountUnavailable (sp_input_account plan)
                 ''getMultipleAccounts returned no input token-account entry'')) (\<lambda>input_account.
     and_then (if 2 < length accounts then Inr (accounts ! 2 \<noteq> None)
               else Inl (AccountUnavailable (sp_output_account plan)
                 ''getMultipleAccounts returned no output token-account entry'')) (\<lambda>output_exists.
     let missing_accounts = (if input_account = None then 1 else 0) + (if \<not> output_exists then 1 else 0) :: u64 in
     and_then (if missing_accounts = 0 then Inr 0
               else and_then (ata_rent_lamports env) (\<lambda>rent. Inr (saturating_mul rent missing_accounts)))
       (\<lambda>rent_cushion.
     let network_cushion = network_fee_cushion_lamports env plan; quote = sp_quote plan in
     if is_wsol sdk (dq_input_mint quote)
     then
       let required = saturating_add (saturating_add (dq_amount_in quote) rent_cushion) network_cushion in
       if owner_lamports < required
       then Inl (InsufficientBalance (dq_input_mint quote) required owner_lamports)
       else Inr ()
     else
       and_then (case input_account of
           None \<Rightarrow> Inr 0
         | Some account \<Rightarrow> ok_or (token_account_amount (acc_data account))
             (AccountUnavailable (sp_input_account plan) ''source token-account data is malformed''))
         (\<lambda>token_balance.
       if token_balance < dq_amount_in quote
       then Inl (InsufficientBalance (dq_input_mint quote) (dq_amount_in quote) token_balance)
       else
         let required_lamports = saturating_add rent_cushion network_cushion in
         if owner_lamports < required_lamports
         then Inl (InsufficientBalance (wsol_mint sdk) required_lamports owner_lamports)
         else Inr ())))))))"

section \<open>Reading the receipt\<close>

definition RECEIPT_READ_ATTEMPTS :: nat where
  "RECEIPT_READ_ATTEMPTS = 6"

text \<open>The \<open>for\<close> loop over the attempts from \<open>attempt\<close> on; the result is the first answer.\<close>

fun read_details ::
  "(nat \<Rightarrow> app_error + transaction_details) \<Rightarrow> nat \<Rightarrow> nat \<Rightarrow> transaction_details option" where
  "read_details answers attempt 0 = None"
| "read_details answers attempt (Suc left) =
     (case answers attempt of Inr details \<Rightarrow> Some details | Inl _ \<Rightarrow> read_details answers (Suc attempt) left)"

definition read_receipt ::
  "execution_env \<Rightarrow> string \<Rightarrow> pubkey \<Rightarrow> swap_plan \<Rightarrow> receipt direct_swap_result" where
  "read_receipt env signature owner plan =
     and_then (direct_node env ''getTransaction'') (\<lambda>_.
     case read_details (ee_transaction_details env) 0 RECEIPT_READ_ATTEMPTS of
       Some details \<Rightarrow> receipt_from_transaction (ee_display env) signature owner plan details
     | None \<Rightarrow> Inr \<lparr>rc_received = dq_min_net_out (sp_quote plan), rc_exact = False,
                   rc_network_fee_lamports = 0, rc_slot = 0\<rparr>)"

section \<open>Executing\<close>

record direct_swap_outcome =
  so_signature :: string
  so_amount_in :: u64
  so_receipt :: receipt
  so_platform_fee :: u64
  so_platform_fee_mint :: "pubkey option"
  so_duration_ms :: u64

definition platform_fee_lamports :: "sdk \<Rightarrow> direct_swap_outcome \<Rightarrow> u64" where
  "platform_fee_lamports sdk outcome =
     (case so_platform_fee_mint outcome of
        Some mint \<Rightarrow> if is_wsol sdk mint then so_platform_fee outcome else 0
      | None \<Rightarrow> 0)"

definition latest_blockhash :: "execution_env \<Rightarrow> (bytes \<times> u64) direct_swap_result" where
  "latest_blockhash env =
     map_err (\<lambda>_. NodeUnavailable ''getLatestBlockhash'' ''no recent blockhash: {e}'') (ee_latest_blockhash env)"

definition unsigned_transaction ::
  "execution_env \<Rightarrow> swap_plan \<Rightarrow> pubkey \<Rightarrow> versioned_transaction direct_swap_result" where
  "unsigned_transaction env plan owner =
     and_then (direct_node env ''getLatestBlockhash'') (\<lambda>_.
     and_then (latest_blockhash env) (\<lambda>(blockhash, _).
     Inr (ee_new_unsigned env (sp_instructions plan) owner blockhash)))"

definition simulate_plan ::
  "execution_env \<Rightarrow> swap_plan \<Rightarrow> pubkey \<Rightarrow> simulation_outcome direct_swap_result" where
  "simulate_plan env plan owner =
     and_then (unsigned_transaction env plan owner) (\<lambda>transaction.
     case gate (ee_node env) transaction of
       Cleared outcome \<Rightarrow> Inr outcome
     | Failed outcome \<Rightarrow> Inr outcome
     | Refused reason \<Rightarrow> Inl (from_reason reason)
     | VerdictNodeUnavailable detail \<Rightarrow> Inl (SimulationUnavailable ''simulation could not be run: {detail}''))"

text \<open>
  The instruction list after the simulation: the limit is replaced only by a lower one.
\<close>

definition tightened_instructions ::
  "sdk \<Rightarrow> simulation_outcome \<Rightarrow> instruction list \<Rightarrow> instruction list" where
  "tightened_instructions sdk outcome instructions =
     (case so_units_consumed outcome of
        None \<Rightarrow> instructions
      | Some units \<Rightarrow>
          let measured_limit = compute_unit_limit_from_measured units in
          (case requested_compute_unit_limit instructions of
             Some requested_limit \<Rightarrow>
               if measured_limit < requested_limit
               then instructions[0 := set_compute_unit_limit sdk measured_limit]
               else instructions
           | None \<Rightarrow> instructions))"

text \<open>\<open>execute_plan\<close> up to the send: nothing has been handed to the network yet.\<close>

definition prepare_transaction ::
  "sdk \<Rightarrow> execution_env \<Rightarrow> swap_plan \<Rightarrow> pubkey \<Rightarrow> (versioned_transaction \<times> u64) direct_swap_result" where
  "prepare_transaction sdk env plan owner =
     and_then (direct_node env ''getLatestBlockhash'') (\<lambda>_.
     and_then (preflight_balance sdk env plan owner) (\<lambda>_.
     and_then (latest_blockhash env) (\<lambda>(blockhash, last_valid_block_height).
     let instructions = sp_instructions plan;
         transaction = ee_new_signed env instructions owner blockhash in
     and_then
       (case gate (ee_node env) transaction of
          Cleared outcome \<Rightarrow> Inr outcome
        | Failed outcome \<Rightarrow> Inl (SimulationRejected (failure_detail (ee_display env) outcome) (so_logs outcome))
        | Refused reason \<Rightarrow> Inl (from_reason reason)
        | VerdictNodeUnavailable detail \<Rightarrow> Inl (SimulationUnavailable ''simulation could not be run: {detail}''))
       (\<lambda>outcome.
     Inr (ee_new_signed env (tightened_instructions sdk outcome instructions) owner blockhash,
          last_valid_block_height)))))"

fun submit_error :: "not_submitted_reason \<Rightarrow> direct_swap_error" where
  "submit_error (RequestRejected detail) = SubmitFailed detail"
| "submit_error other = from_reason other"

fun settled_result :: "string \<Rightarrow> settled \<Rightarrow> string direct_swap_result" where
  "settled_result signature Landed = Inr signature"
| "settled_result signature (SettledReverted detail) = Inl (TransactionFailed signature detail)"
| "settled_result signature (Expired last_valid current) = Inl (BlockhashExpired signature last_valid current)"
| "settled_result signature (Unsettled waited_ms) = Inl (ConfirmationTimeout signature waited_ms)"

definition send_settled ::
  "swap_node \<Rightarrow> versioned_transaction \<Rightarrow> u64 \<Rightarrow> nat \<Rightarrow> nat \<Rightarrow> settle_round list
   \<Rightarrow> string direct_swap_result option" where
  "send_settled node transaction last_valid_block_height timeout_ms started rounds =
     map_option (\<lambda>result. case result of
         Inl reason \<Rightarrow> Inl (submit_error reason)
       | Inr (signature, settled) \<Rightarrow> settled_result (nd_show_signature node signature) settled)
       (send_and_settle node transaction (Some last_valid_block_height) timeout_ms started rounds)"

definition execute_plan ::
  "sdk \<Rightarrow> execution_env \<Rightarrow> swap_plan \<Rightarrow> pubkey \<Rightarrow> direct_swap_outcome direct_swap_result option" where
  "execute_plan sdk env plan owner =
     (case prepare_transaction sdk env plan owner of
        Inl e \<Rightarrow> Some (Inl e)
      | Inr (transaction, last_valid_block_height) \<Rightarrow>
          map_option (\<lambda>result.
              and_then result (\<lambda>signature.
              and_then (read_receipt env signature owner plan) (\<lambda>receipt.
              Inr \<lparr>so_signature = signature, so_amount_in = dq_amount_in (sp_quote plan),
                   so_receipt = receipt, so_platform_fee = pf_amount (dq_fee (sp_quote plan)),
                   so_platform_fee_mint = pf_mint (dq_fee (sp_quote plan)),
                   so_duration_ms = ee_duration_ms env\<rparr>)))
            (send_settled (ee_node env) transaction last_valid_block_height
               (1000 * unat (ee_confirmation_timeout_secs env)) (ee_settle_started env) (ee_settle_rounds env)))"

section \<open>Preflight: lemmas\<close>

lemma unat_network_fee_le: "unat (network_fee_lamports price ixs) \<le> 18446744078710"
proof -
  have "ceil_nat (min n u64_max) 1000000 \<le> 18446744073710" for n by (simp add: ceil_nat_le_iff)
  then show ?thesis unfolding unat_network_fee Let_def by (simp add: add_mono [of _ 18446744073710 5000 5000, simplified])
qed

lemma unat_cushion:
  "unat (network_fee_cushion_lamports env plan)
     = unat (network_fee_lamports (ee_config_price env) (sp_instructions plan)) * 120 div 100"
proof -
  have "unat (network_fee_lamports (ee_config_price env) (sp_instructions plan)) * 120 \<le> 18446744073709551615"
    using unat_network_fee_le [of "ee_config_price env" "sp_instructions plan"] by linarith
  then show ?thesis
    by (simp add: network_fee_cushion_lamports_def NETWORK_FEE_HEADROOM_PCT_def unat_div unat_simps min_absorb1)
qed

lemma map_err_eq_Inr [simp]: "map_err f r = Inr x \<longleftrightarrow> r = Inr x"
  by (simp add: map_err_def split: sum.split)

lemma direct_node_eq_Inr [simp]: "direct_node env op = Inr u \<longleftrightarrow> ee_direct_node env"
  by (simp add: direct_node_def)

text \<open>What a passed preflight has seen.\<close>

lemma preflight_ok:
  assumes "preflight_balance sdk env plan owner = Inr ()"
  obtains owner_account input_account output_account rest rent where
    "ee_get_multiple_accounts env [owner, sp_input_account plan, sp_output_account plan]
       = Inr (owner_account # input_account # output_account # rest)"
    and "rent = (if input_account \<noteq> None \<and> output_account \<noteq> None then 0
       else case ee_ata_rent env of Inr r \<Rightarrow> min (unat r * (if input_account = None \<and> output_account = None then 2 else 1)) u64_max
         | Inl _ \<Rightarrow> 0)"
    and "if is_wsol sdk (dq_input_mint (sp_quote plan))
       then min (unat (dq_amount_in (sp_quote plan)) + rent + unat (network_fee_cushion_lamports env plan)) u64_max
              \<le> unat (case owner_account of Some a \<Rightarrow> acc_lamports a | None \<Rightarrow> 0)
       else min (rent + unat (network_fee_cushion_lamports env plan)) u64_max
              \<le> unat (case owner_account of Some a \<Rightarrow> acc_lamports a | None \<Rightarrow> 0)
          \<and> (\<exists>balance. (case input_account of Some a \<Rightarrow> token_account_amount (acc_data a) | None \<Rightarrow> Some 0) = Some balance
               \<and> unat (dq_amount_in (sp_quote plan)) \<le> unat balance)"
proof -
  let ?cushion = "network_fee_cushion_lamports env plan" and ?quote = "sp_quote plan"
  obtain accounts where read: "ee_get_multiple_accounts env [owner, sp_input_account plan, sp_output_account plan] = Inr accounts"
    and "2 < length accounts"
    using assms by (auto simp: preflight_balance_def Let_def split: if_splits)
  then obtain oa ia out rest where accounts: "accounts = oa # ia # out # rest"
    by (cases accounts; cases "tl accounts"; cases "tl (tl accounts)") auto
  let ?missing = "(if ia = None then 1 else 0) + (if out = None then 1 else 0) :: u64"
  let ?lamports = "case oa of Some a \<Rightarrow> acc_lamports a | None \<Rightarrow> 0"
  obtain rc where rc: "(if ?missing = 0 then Inr 0
       else and_then (ata_rent_lamports env) (\<lambda>rent. Inr (saturating_mul rent ?missing))) = Inr rc"
    and pay: "if is_wsol sdk (dq_input_mint ?quote)
       then \<not> ?lamports < saturating_add (saturating_add (dq_amount_in ?quote) rc) ?cushion
       else \<not> ?lamports < saturating_add rc ?cushion
          \<and> (\<exists>balance. (case ia of Some a \<Rightarrow> token_account_amount (acc_data a) | None \<Rightarrow> Some 0) = Some balance
               \<and> \<not> balance < dq_amount_in ?quote)"
    using assms unfolding preflight_balance_def read accounts Let_def
    by (auto simp: map_err_def split: if_splits option.splits)
  have rent: "unat rc = (if ia \<noteq> None \<and> out \<noteq> None then 0
       else case ee_ata_rent env of Inr r \<Rightarrow> min (unat r * (if ia = None \<and> out = None then 2 else 1)) u64_max
         | Inl _ \<Rightarrow> 0)"
    using rc by (auto simp: ata_rent_lamports_def map_err_def unat_simps split: if_splits sum.splits)
  show ?thesis
    by (rule that [OF read [unfolded accounts] rent])
      (use pay in \<open>auto simp: word_less_nat_alt unat_simps not_less split: if_splits option.splits\<close>)
qed

section \<open>What an error of an execution proves\<close>

text \<open>The timeout of the settle loop, in milliseconds.\<close>

abbreviation settle_timeout :: "execution_env \<Rightarrow> nat" where
  "settle_timeout env \<equiv> 1000 * unat (ee_confirmation_timeout_secs env)"

lemma from_reason_unsubmitted: "\<not> submitted (from_reason reason) \<and> \<not> submitted (submit_error reason)"
  by (cases reason) simp_all

lemma prepare_ok:
  assumes "prepare_transaction sdk env plan owner = Inr (tx, lv)"
  obtains blockhash outcome where "ee_direct_node env" and "preflight_balance sdk env plan owner = Inr ()"
    and "ee_latest_blockhash env = Inr (blockhash, lv)"
    and "gate (ee_node env) (ee_new_signed env (sp_instructions plan) owner blockhash) = Cleared outcome"
    and "tx = ee_new_signed env (tightened_instructions sdk outcome (sp_instructions plan)) owner blockhash"
proof -
  obtain blockhash v where own: "ee_direct_node env" "preflight_balance sdk env plan owner = Inr ()"
    and hash: "ee_latest_blockhash env = Inr (blockhash, v)"
    using assms by (auto simp: prepare_transaction_def latest_blockhash_def)
  show ?thesis
  proof (cases "gate (ee_node env) (ee_new_signed env (sp_instructions plan) owner blockhash)")
    case (Cleared outcome)
    then show ?thesis
      using assms own hash that by (simp add: prepare_transaction_def latest_blockhash_def map_err_def)
  qed (use assms own hash in \<open>simp_all add: prepare_transaction_def latest_blockhash_def map_err_def\<close>)
qed

text \<open>Everything that stops an execution before the send leaves another route open.\<close>

definition stops_unsent :: "direct_swap_error \<Rightarrow> bool" where
  "stops_unsent e \<longleftrightarrow> \<not> submitted e \<and> safe_to_fallback e"

lemma stops_unsent_simps [simp]:
  "stops_unsent (NodeUnavailable a b)" "stops_unsent (AccountUnavailable k b)"
  "stops_unsent (InsufficientBalance k x y)" "stops_unsent (SimulationRejected b logs)"
  "stops_unsent (SimulationUnavailable b)" "stops_unsent (from_reason reason)" "stops_unsent (submit_error reason)"
proof -
  show "stops_unsent (from_reason reason)" "stops_unsent (submit_error reason)"
    by (cases reason; simp add: stops_unsent_def)+
qed (simp_all add: stops_unsent_def)

lemma direct_node_error [simp]: "direct_node env op = Inl e \<longleftrightarrow> \<not> ee_direct_node env \<and> e = NodeUnavailable op ''{error}''"
  by (auto simp: direct_node_def)

lemma map_err_eq_Inl: "map_err f r = Inl e \<longleftrightarrow> (\<exists>x. r = Inl x \<and> e = f x)"
  by (auto simp: map_err_def split: sum.split)

lemma preflight_error: "preflight_balance sdk env plan owner = Inl e \<Longrightarrow> stops_unsent e"
  unfolding preflight_balance_def Let_def
  by (auto simp: map_err_eq_Inl ata_rent_lamports_def split: if_splits option.splits)

lemma prepare_error:
  assumes "prepare_transaction sdk env plan owner = Inl e"
  shows "stops_unsent e"
proof (cases "ee_direct_node env \<and> preflight_balance sdk env plan owner = Inr ()")
  case False
  then show ?thesis
    using assms preflight_error by (cases "ee_direct_node env") (auto simp: prepare_transaction_def)
next
  case True
  show ?thesis
  proof (cases "ee_latest_blockhash env")
    case (Inl x)
    then show ?thesis using assms True by (auto simp: prepare_transaction_def latest_blockhash_def map_err_def)
  next
    case (Inr pair)
    obtain blockhash v where pair: "pair = (blockhash, v)" by (cases pair)
    show ?thesis
      by (cases "gate (ee_node env) (ee_new_signed env (sp_instructions plan) owner blockhash)")
        (use assms True Inr in \<open>auto simp: prepare_transaction_def latest_blockhash_def map_err_def pair\<close>)
  qed
qed

lemma execute_cases:
  assumes "execute_plan sdk env plan owner = Some result"
  obtains (unsent) e where "prepare_transaction sdk env plan owner = Inl e" and "result = Inl e"
  | (refused) tx lv reason where "prepare_transaction sdk env plan owner = Inr (tx, lv)"
      and "result = Inl (submit_error reason)"
      and "isl (measure_transaction (ee_node env) tx) \<or> vt_signatures tx = []
         \<or> proves_unsent (nd_send (ee_node env) tx)"
  | (sent) tx lv signature rest s where "prepare_transaction sdk env plan owner = Inr (tx, lv)"
      and "vt_signatures tx = signature # rest" and "\<not> proves_unsent (nd_send (ee_node env) tx)"
      and "settle (Some lv) (settle_timeout env) (ee_settle_started env) (ee_settle_rounds env) = Some s"
      and "result = and_then (settled_result (nd_show_signature (ee_node env) signature) s) (\<lambda>sig.
              and_then (read_receipt env sig owner plan) (\<lambda>receipt.
              Inr \<lparr>so_signature = sig, so_amount_in = dq_amount_in (sp_quote plan),
                   so_receipt = receipt, so_platform_fee = pf_amount (dq_fee (sp_quote plan)),
                   so_platform_fee_mint = pf_mint (dq_fee (sp_quote plan)),
                   so_duration_ms = ee_duration_ms env\<rparr>))"
proof (cases "prepare_transaction sdk env plan owner")
  case (Inl e)
  then show ?thesis using assms unsent [of e] by (simp add: execute_plan_def)
next
  case (Inr pair)
  obtain tx lv where pair: "pair = (tx, lv)" by (cases pair)
  obtain outcome where outcome: "send_and_settle (ee_node env) tx (Some lv) (settle_timeout env)
      (ee_settle_started env) (ee_settle_rounds env) = Some outcome"
    using assms Inr by (auto simp: execute_plan_def pair send_settled_def)
  note result = assms [unfolded execute_plan_def Inr pair sum.case prod.case send_settled_def outcome option.map]
  show ?thesis
  proof (cases rule: send_and_settle_cases [OF outcome])
    case (1 reason)
    then show ?thesis using result refused [OF Inr [unfolded pair], of reason] by simp
  next
    case (2 signature rest s)
    then show ?thesis using result sent [OF Inr [unfolded pair] 2(2,3,4)] by simp
  qed
qed

lemma read_receipt_error:
  assumes "read_receipt env signature owner plan = Inl e" and "ee_direct_node env"
  shows "(\<exists>attempt details meta err. ee_transaction_details env attempt = Inr details \<and> td_meta details = Some meta
            \<and> tm_err meta = Some err \<and> e = TransactionFailed signature (show_json (ee_display env) err))
       \<or> (\<exists>required received. e = OutputNotReceived signature required received)"
proof -
  obtain details where d: "read_details (ee_transaction_details env) 0 RECEIPT_READ_ATTEMPTS = Some details"
    and r: "receipt_from_transaction (ee_display env) signature owner plan details = Inl e"
    using assms by (auto simp: read_receipt_def split: option.splits)
  have "read_details answers k n = Some details \<Longrightarrow> \<exists>attempt. answers attempt = Inr details" for answers k n
    by (induction answers k n rule: read_details.induct) (auto split: sum.splits)
  then obtain attempt where "ee_transaction_details env attempt = Inr details" using d by blast
  moreover obtain meta where meta: "td_meta details = Some meta"
    and e: "case tm_err meta of Some err \<Rightarrow> e = TransactionFailed signature (show_json (ee_display env) err)
       | None \<Rightarrow> \<exists>required received. e = OutputNotReceived signature required received"
    using receipt_error [OF r] by (auto split: option.splits)
  ultimately show ?thesis by (cases "tm_err meta") auto
qed

lemma read_receipt_ok:
  assumes "read_receipt env signature owner plan = Inr r"
  shows "if rc_exact r then dq_min_net_out (sp_quote plan) \<le> rc_received r
         else sp_output_is_native plan \<or> rc_received r = dq_min_net_out (sp_quote plan)"
proof (cases "read_details (ee_transaction_details env) 0 RECEIPT_READ_ATTEMPTS")
  case None
  then show ?thesis using assms by (auto simp: read_receipt_def)
next
  case (Some details)
  then have "receipt_from_transaction (ee_display env) signature owner plan details = Inr r"
    using assms by (auto simp: read_receipt_def)
  note covers = receipt_exact_covers_minimum [OF this] and inexact = receipt_inexact_token [OF this]
  show ?thesis using covers inexact by auto
qed

lemma execution_success:
  assumes "execute_plan sdk env plan owner = Some (Inr outcome)"
  shows "preflight_balance sdk env plan owner = Inr ()
    \<and> (\<exists>tx lv. prepare_transaction sdk env plan owner = Inr (tx, lv) \<and> vt_signatures tx \<noteq> []
       \<and> so_signature outcome = nd_show_signature (ee_node env) (hd (vt_signatures tx))
       \<and> settle_evidence (Some lv) (ee_settle_started env + 1000 * unat (ee_confirmation_timeout_secs env)) (ee_settle_rounds env) Landed)
    \<and> (if rc_exact (so_receipt outcome) then dq_min_net_out (sp_quote plan) \<le> rc_received (so_receipt outcome)
       else sp_output_is_native plan \<or> rc_received (so_receipt outcome) = dq_min_net_out (sp_quote plan))
    \<and> so_amount_in outcome = dq_amount_in (sp_quote plan) \<and> so_platform_fee outcome = pf_amount (dq_fee (sp_quote plan))"
proof (cases rule: execute_cases [OF assms])
  case (3 tx lv signature rest s)
  have s: "s = Landed" using 3(5) by (cases s) auto
  have "settle_evidence (Some lv) (ee_settle_started env + settle_timeout env) (ee_settle_rounds env) Landed"
    using settle_has_evidence [OF 3(4) [unfolded settle_def]] by (simp add: settle_start_def s)
  moreover have "preflight_balance sdk env plan owner = Inr ()" by (rule prepare_ok [OF 3(1)])
  moreover obtain r where "read_receipt env (nd_show_signature (ee_node env) signature) owner plan = Inr r"
    and "outcome = \<lparr>so_signature = nd_show_signature (ee_node env) signature, so_amount_in = dq_amount_in (sp_quote plan),
           so_receipt = r, so_platform_fee = pf_amount (dq_fee (sp_quote plan)),
           so_platform_fee_mint = pf_mint (dq_fee (sp_quote plan)), so_duration_ms = ee_duration_ms env\<rparr>"
    using 3(5) [symmetric] s by auto
  ultimately show ?thesis using 3(1,2) read_receipt_ok by simp
qed simp_all

section \<open>Properties\<close>

text \<open>
  C2: an error that allows another route to trade proves that this one can no longer: nothing was
  handed to the network, the send was refused before it could reach the chain, the chain reports
  the transaction as failed, or its blockhash provably expired with the signature unseen.
\<close>

theorem fallback_is_safe:
  assumes "execute_plan sdk env plan owner = Some (Inl e)" and "safe_to_fallback e"
  shows "case prepare_transaction sdk env plan owner of
      Inl e' \<Rightarrow> e' = e \<and> \<not> submitted e
    | Inr (tx, lv) \<Rightarrow>
        isl (measure_transaction (ee_node env) tx) \<or> vt_signatures tx = [] \<or> proves_unsent (nd_send (ee_node env) tx)
      \<or> (\<exists>s. settle (Some lv) (1000 * unat (ee_confirmation_timeout_secs env)) (ee_settle_started env) (ee_settle_rounds env) = Some s
           \<and> settle_evidence (Some lv) (ee_settle_started env + 1000 * unat (ee_confirmation_timeout_secs env)) (ee_settle_rounds env) s
           \<and> ((\<exists>detail. s = SettledReverted detail) \<or> (\<exists>height. s = Expired lv height)))
      \<or> (\<exists>attempt details meta err. ee_transaction_details env attempt = Inr details \<and> td_meta details = Some meta
           \<and> tm_err meta = Some err \<and> submitted e)"
proof (cases rule: execute_cases [OF assms(1)])
  case (1 e')
  then show ?thesis using prepare_error [OF 1(1)] by (simp add: stops_unsent_def)
next
  case (2 tx lv reason)
  then show ?thesis by auto
next
  case (3 tx lv signature rest s)
  have ev: "settle_evidence (Some lv) (ee_settle_started env + settle_timeout env) (ee_settle_rounds env) s"
    using settle_has_evidence [OF 3(4) [unfolded settle_def]] by (simp add: settle_start_def)
  show ?thesis
  proof (cases s)
    case Landed
    have "ee_direct_node env" by (rule prepare_ok [OF 3(1)])
    moreover have "read_receipt env (nd_show_signature (ee_node env) signature) owner plan = Inl e"
      using 3(5) [symmetric] Landed by (simp add: and_then_eq_Inl)
    ultimately obtain attempt details meta err where "ee_transaction_details env attempt = Inr details"
      "td_meta details = Some meta" "tm_err meta = Some err" "submitted e"
      using read_receipt_error assms(2) by fastforce
    then show ?thesis unfolding 3(1) by auto
  next
    case (SettledReverted detail)
    then show ?thesis using 3 ev by auto
  next
    case (Expired b h)
    have "b = lv" using ev Expired by (auto simp: settle_evidence_def)
    then show ?thesis using 3 ev Expired by auto
  next
    case (Unsettled w)
    then show ?thesis using 3 assms(2) by auto
  qed
qed

definition sample_exec_quote :: direct_quote where
  "sample_exec_quote = \<lparr>dq_pool = sample_key ''pool'', dq_program = RaydiumCpmm, dq_input_mint = sample_key SOL_MINT,
     dq_output_mint = sample_key ''token'', dq_amount_in = 1000000, dq_swap_amount_in = 995000, dq_expected_out = 5000,
     dq_min_out = 4900, dq_expected_net_out = 5000, dq_min_net_out = 4900,
     dq_fee = \<lparr>pf_side = FeeInput, pf_amount = 5000, pf_mint = Some (sample_key SOL_MINT),
       pf_destination = Some (sample_key ''treasury''), pf_decimals = 9\<rparr>,
     dq_lp_fee = 10, dq_price_impact_pct = 0, dq_slippage_bps = 200\<rparr>"

definition sample_exec_plan :: swap_plan where
  "sample_exec_plan = \<lparr>sp_instructions = compute_budget_instructions sample_sdk 1000 120000, sp_venue_compute_units = 120000,
     sp_input_account = sample_key ''in'', sp_output_account = sample_key ''out'', sp_output_is_native = False,
     sp_quote = sample_exec_quote\<rparr>"

definition sample_env :: "settle_round list \<Rightarrow> execution_env" where
  "sample_env rounds = \<lparr>ee_direct_node = True,
     ee_get_multiple_accounts = (\<lambda>keys. Inr [Some \<lparr>acc_data = [], acc_owner = sample_key ''system'', acc_lamports = 2000000\<rparr>,
        Some \<lparr>acc_data = [], acc_owner = sample_key ''token'', acc_lamports = 0\<rparr>,
        Some \<lparr>acc_data = [], acc_owner = sample_key ''token'', acc_lamports = 0\<rparr>]),
     ee_ata_rent = Inr 2039280, ee_latest_blockhash = Inr ([1], 1000),
     ee_new_signed = (\<lambda>ixs payer hash. \<lparr>vt_signatures = [[7]], vt_message = LegacyMessage \<lparr>ms_account_keys = [payer], ms_instructions = []\<rparr>\<rparr>),
     ee_new_unsigned = (\<lambda>ixs payer hash. \<lparr>vt_signatures = [[0]], vt_message = LegacyMessage \<lparr>ms_account_keys = [payer], ms_instructions = []\<rparr>\<rparr>),
     ee_node = sample_node, ee_config_price = 1000, ee_confirmation_timeout_secs = 60, ee_settle_started = 0,
     ee_settle_rounds = rounds, ee_transaction_details = (\<lambda>attempt. Inl (OtherErr ''not found'')),
     ee_display = \<lparr>show_pubkey = (\<lambda>key. ''key''), show_json = (\<lambda>value. ''value'')\<rparr>, ee_duration_ms = 0\<rparr>"

lemma sample_preflight: "preflight_balance sample_sdk (sample_env rounds) sample_exec_plan owner = Inr ()"
proof -
  have "unat (network_fee_lamports 1000 (compute_budget_instructions sample_sdk 1000 120000)) = 5156"
    using network_fee_exact [OF sample_budget_encoding, of 1000 1000 120000 "[]"]
    by (simp add: ceil_nat_def unat_compute_unit_limit)
  then have "unat (network_fee_cushion_lamports (sample_env rounds) sample_exec_plan) = 6187"
    by (simp add: unat_cushion sample_env_def sample_exec_plan_def)
  moreover have "is_wsol sample_sdk (sample_key SOL_MINT)"
    by (simp add: is_wsol_def wsol_mint_def sample_sdk_def)
  ultimately show ?thesis
    by (simp add: preflight_balance_def sample_env_def direct_node_def map_err_def Let_def sample_exec_plan_def sample_exec_quote_def
        word_less_nat_alt unat_simps)
qed

lemma sample_measure:
  "measure_transaction sample_node tx = Inr \<lparr>me_format = LegacyFormat, me_bytes = 68, me_limit = 1232\<rparr>"
  by (simp add: measure_transaction_def sample_node_def measure_bytes_def wire_format_of_def short_vec_len_def
      checked_usize_def SIGNATURE_BYTES_def PACKET_DATA_SIZE_def MESSAGE_VERSION_PREFIX_def nth_append Let_def)

lemma sample_prepare:
  "\<exists>tx. prepare_transaction sample_sdk (sample_env rounds) sample_exec_plan owner = Inr (tx, 1000) \<and> vt_signatures tx = [[7]]"
proof -
  have "gate (ee_node (sample_env rounds)) tx = Cleared \<lparr>so_err = None, so_logs = [], so_units_consumed = Some 50000\<rparr>" for tx
    using sample_measure [of tx] by (simp add: gate_def sample_env_def simulation_verdict_def succeeded_def sample_node_def)
  then show ?thesis
    using sample_preflight [of rounds owner]
    by (simp add: prepare_transaction_def latest_blockhash_def map_err_def Let_def sample_env_def direct_node_def)
qed

lemma sample_execute:
  assumes "settle (Some 1000) 60000 0 rounds = Some s"
  shows "execute_plan sample_sdk (sample_env rounds) sample_exec_plan owner =
     Some (and_then (settled_result ''signature'' s) (\<lambda>sig.
       Inr \<lparr>so_signature = sig, so_amount_in = 1000000,
         so_receipt = \<lparr>rc_received = 4900, rc_exact = False, rc_network_fee_lamports = 0, rc_slot = 0\<rparr>,
         so_platform_fee = 5000, so_platform_fee_mint = Some (sample_key SOL_MINT), so_duration_ms = 0\<rparr>))"
proof -
  obtain tx where tx: "prepare_transaction sample_sdk (sample_env rounds) sample_exec_plan owner = Inr (tx, 1000)" "vt_signatures tx = [[7]]"
    using sample_prepare by blast
  have "read_details (\<lambda>attempt. Inl (OtherErr ''not found'')) k n = None" for k n
    by (induction n arbitrary: k) simp_all
  then have "read_receipt (sample_env rounds) sig owner sample_exec_plan =
      Inr \<lparr>rc_received = 4900, rc_exact = False, rc_network_fee_lamports = 0, rc_slot = 0\<rparr>" for sig
    by (simp add: read_receipt_def direct_node_def sample_env_def sample_exec_plan_def sample_exec_quote_def)
  then show ?thesis
    using tx assms sample_measure [of tx]
    by (simp add: execute_plan_def send_settled_def send_and_settle_def Let_def sample_env_def sample_exec_plan_def sample_exec_quote_def
        sample_node_def)
qed

theorem fallback_is_safe_witness:
  "\<exists>tx s. prepare_transaction sample_sdk (sample_env [sample_round 1000 10, sample_round 5000 15, sample_round 6000 25])
        sample_exec_plan (sample_key ''owner'') = Inr (tx, 1000)
     \<and> settle_evidence (Some 1000) 60000 [sample_round 1000 10, sample_round 5000 15, sample_round 6000 25] s"
proof -
  let ?rounds = "[sample_round 1000 10, sample_round 5000 15, sample_round 6000 25]"
  obtain tx where tx: "prepare_transaction sample_sdk (sample_env ?rounds) sample_exec_plan (sample_key ''owner'') = Inr (tx, 1000)"
      "vt_signatures tx = [[7]]"
    using sample_prepare by blast
  have run: "execute_plan sample_sdk (sample_env ?rounds) sample_exec_plan (sample_key ''owner'')
      = Some (Inl (BlockhashExpired ''signature'' 1000 2000))"
    by (simp add: sample_execute [OF sample_settle])
  have "\<exists>s. settle_evidence (Some 1000) 60000 ?rounds s"
    using fallback_is_safe [OF run] tx sample_measure [of tx]
    by (auto simp: sample_env_def sample_node_def proves_unsent_def)
  then show ?thesis using tx(1) by blast
qed



text \<open>
  C38: an execution returns. Once a round of the settle loop reads the clock past the confirmation
  timeout there is an outcome or an error, whatever the nodes answered before.
\<close>

theorem execution_ends:
  assumes "\<exists>r \<in> set (ee_settle_rounds env).
      ee_settle_started env + 1000 * unat (ee_confirmation_timeout_secs env) \<le> rd_deadline_now r"
  shows "\<exists>result. execute_plan sdk env plan owner = Some result"
proof (cases "prepare_transaction sdk env plan owner")
  case (Inr pair)
  obtain tx lv where pair: "pair = (tx, lv)" by (cases pair)
  obtain result where "send_and_settle (ee_node env) tx (Some lv) (settle_timeout env) (ee_settle_started env) (ee_settle_rounds env) = Some result"
    using send_and_settle_returns [OF assms] by blast
  then show ?thesis by (simp add: execute_plan_def Inr pair send_settled_def)
qed (simp add: execute_plan_def)

theorem execution_ends_witness:
  "\<exists>result. execute_plan sample_sdk (sample_env [sample_round 1000 10, sample_round 61000 15]) sample_exec_plan (sample_key ''owner'') = Some result"
  by (rule execution_ends) (simp add: sample_env_def sample_round_def)

text \<open>
  A passed preflight means the wallet can pay. With a SOL input its lamports cover the amount,
  the rent of every token account that is missing and the network fee with a fifth on top; with
  a token input the token account holds the amount and the lamports cover rent and fee.
\<close>

theorem preflight_covers:
  assumes "preflight_balance sdk env plan owner = Inr ()"
  shows "\<exists>owner_account input_account output_account rest rent.
      ee_get_multiple_accounts env [owner, sp_input_account plan, sp_output_account plan]
        = Inr (owner_account # input_account # output_account # rest)
    \<and> rent = (if input_account \<noteq> None \<and> output_account \<noteq> None then 0
        else case ee_ata_rent env of
            Inr r \<Rightarrow> min (unat r * (if input_account = None \<and> output_account = None then 2 else 1)) u64_max
          | Inl _ \<Rightarrow> 0)
    \<and> (let lamports = unat (case owner_account of Some a \<Rightarrow> acc_lamports a | None \<Rightarrow> 0);
           fee = unat (network_fee_lamports (ee_config_price env) (sp_instructions plan)) * 120 div 100;
           amount = unat (dq_amount_in (sp_quote plan)) in
       if is_wsol sdk (dq_input_mint (sp_quote plan))
       then min (amount + rent + fee) u64_max \<le> lamports
       else min (rent + fee) u64_max \<le> lamports
          \<and> (\<exists>balance. (case input_account of Some a \<Rightarrow> token_account_amount (acc_data a) | None \<Rightarrow> Some 0) = Some balance
               \<and> amount \<le> unat balance))"
  by (rule preflight_ok [OF assms], unfold unat_cushion Let_def) blast

theorem preflight_covers_witness:
  "preflight_balance sample_sdk (sample_env []) sample_exec_plan (sample_key ''owner'') = Inr ()
   \<and> (\<exists>lamports fee. 1000000 + fee \<le> (lamports :: nat) \<and> fee = unat (network_fee_lamports 1000 (sp_instructions sample_exec_plan)) * 120 div 100)"
proof -
  note covers = preflight_covers [OF sample_preflight [of "[]" "sample_key ''owner''"]]
  have "is_wsol sample_sdk (sample_key SOL_MINT)"
    by (simp add: is_wsol_def wsol_mint_def sample_sdk_def)
  moreover have "min (n :: nat) u64_max \<le> 2000000 \<Longrightarrow> n \<le> 2000000" for n by simp
  ultimately show ?thesis
    using covers sample_preflight
    by (auto simp: sample_env_def sample_exec_plan_def sample_exec_quote_def Let_def)
qed

end
