(* ===== verification/Direct_Swap.thy ===== *)
theory Direct_Swap
  imports Engine Execute
begin

text \<open>
  A direct swap from end to end: \<open>load_market\<close>, \<open>quote\<close> and \<open>swap\<close> of
  \<open>src/chains/solana/swaps/direct/mod.rs\<close>, which connect the registry, the venues, the plan and
  its execution. The chain is read through one record: batches of accounts, the token accounts of
  an owner, the parser of keys, the current slot and the clock.

  The lemmas show that a pool is only ever decoded by the venue of the program that owns it, that
  the market carries the pool it was loaded from, and what a swap that returns has done.
\<close>

section \<open>Loading\<close>

record chain_reader =
  cr_accounts :: account_reader
  cr_token_accounts :: token_account_reader
  cr_parse_pubkey :: "string \<Rightarrow> pubkey option"
  cr_slot :: "u64 option"
  cr_now_unix :: u64

definition loaded_as :: "('m \<Rightarrow> loaded_market) \<Rightarrow> 'm direct_swap_result \<Rightarrow> loaded_market direct_swap_result" where
  "loaded_as boxed result = and_then result (\<lambda>m. Inr (boxed m))"

text \<open>The dynamic call \<open>venue.load\<close>; the registry never returns the kind \<open>Unknown\<close>.\<close>

fun venue_load ::
  "sdk \<Rightarrow> chain_reader \<Rightarrow> program_kind \<Rightarrow> pubkey \<Rightarrow> account \<Rightarrow> loaded_market direct_swap_result" where
  "venue_load sdk reader RaydiumCpmm pool account =
     loaded_as LoadedCpmm (cpmm_load sdk (cr_now_unix reader) pool account (cr_accounts reader))"
| "venue_load sdk reader RaydiumLegacyAmm pool account =
     loaded_as LoadedAmmV4 (amm_v4_load pool account (cr_accounts reader))"
| "venue_load sdk reader RaydiumClmm pool account =
     loaded_as LoadedClmm (clmm_load sdk pool account (cr_accounts reader))"
| "venue_load sdk reader MeteoraDamm pool account =
     loaded_as LoadedDamm (damm_load sdk (cr_slot reader) (cr_now_unix reader) pool account (cr_accounts reader))"
| "venue_load sdk reader MeteoraDbc pool account =
     loaded_as LoadedDbc (dbc_load sdk pool account (cr_accounts reader))"
| "venue_load sdk reader MeteoraDlmm pool account =
     loaded_as LoadedDlmm (dlmm_load sdk pool account (cr_accounts reader))"
| "venue_load sdk reader PumpFunAmm pool account =
     loaded_as LoadedPumpAmm (pump_amm_load sdk pool account (cr_accounts reader))"
| "venue_load sdk reader PumpFunLegacy pool account =
     loaded_as LoadedPumpLegacy (pump_legacy_load sdk (cr_parse_pubkey reader) pool account
       (cr_accounts reader) (cr_token_accounts reader))"
| "venue_load sdk reader OrcaWhirlpool pool account =
     loaded_as LoadedWhirlpool (whirlpool_load sdk pool account (cr_accounts reader))"
| "venue_load sdk reader Moonit pool account =
     loaded_as LoadedMoonit (moonit_load sdk pool account (cr_accounts reader))"
| "venue_load sdk reader FluxbeamAmm pool account =
     loaded_as LoadedFluxbeam (fluxbeam_load sdk pool account (cr_accounts reader))"
| "venue_load sdk reader Unknown pool account = Inl (UnsupportedVenue (acc_owner account))"

definition load_market :: "sdk \<Rightarrow> chain_reader \<Rightarrow> pubkey \<Rightarrow> loaded_market direct_swap_result" where
  "load_market sdk reader pool =
     and_then (cr_accounts reader [pool]) (\<lambda>accounts.
     and_then (ok_or (case accounts of [] \<Rightarrow> None | first # _ \<Rightarrow> first)
       (AccountUnavailable pool ''pool account does not exist'')) (\<lambda>account.
     and_then (require_venue sdk (acc_owner account)) (\<lambda>venue.
     venue_load sdk reader venue pool account)))"

section \<open>Quoting and swapping\<close>

definition quote_intent ::
  "sdk \<Rightarrow> chain_reader \<Rightarrow> direct_swap_intent \<Rightarrow> (direct_quote \<times> loaded_market) direct_swap_result" where
  "quote_intent sdk reader intent =
     and_then (validate intent) (\<lambda>_.
     and_then (load_market sdk reader (in_pool intent)) (\<lambda>m.
     and_then (quote_with_market sdk intent (loaded_as_market sdk m)) (\<lambda>quote.
     Inr (quote, m))))"

text \<open>\<open>price\<close> is the compute unit price of the configuration, \<open>owner\<close> the key of the keypair.\<close>

definition swap_intent ::
  "sdk \<Rightarrow> chain_reader \<Rightarrow> u64 \<Rightarrow> execution_env \<Rightarrow> direct_swap_intent \<Rightarrow> pubkey
     \<Rightarrow> direct_swap_outcome direct_swap_result option" where
  "swap_intent sdk reader price env intent owner =
     (case quote_intent sdk reader intent of
        Inl e \<Rightarrow> Some (Inl e)
      | Inr (quote, m) \<Rightarrow>
          (case build_plan sdk price intent (loaded_as_market sdk m) quote of
             Inl e \<Rightarrow> Some (Inl e)
           | Inr plan \<Rightarrow> execute_plan sdk env plan owner))"

section \<open>What is loaded\<close>

lemma loaded_as_Inr [simp]: "loaded_as boxed r = Inr l \<longleftrightarrow> (\<exists>m. r = Inr m \<and> l = boxed m)"
  by (auto simp: loaded_as_def)

text \<open>Every decoder stamps the state with the pool it was asked for.\<close>

lemma decoded_pool:
  "cpmm_pool_state_decode pool data = Some cp \<Longrightarrow> cps_pool cp = pool"
  "amm_v4_decode pool data = Some av \<Longrightarrow> avs_pool av = pool"
  "clmm_pool_state_decode pool data = Some cl \<Longrightarrow> cls_pool cl = pool"
  "damm_pool_state_decode pool data = Some da \<Longrightarrow> das_pool da = pool"
  "virtual_pool_decode pool data = Some vp \<Longrightarrow> vps_pool vp = pool"
  "lb_pair_decode pool data = Some lb \<Longrightarrow> lbs_pool lb = pool"
  "pump_amm_decode pool data = Some pa \<Longrightarrow> pas_pool pa = pool"
  "whirlpool_decode pool data = Some wp \<Longrightarrow> wps_pool wp = pool"
  "curve_account_decode pool data = Some ca \<Longrightarrow> cas_pool ca = pool"
  "fluxbeam_decode pool data = Some fb \<Longrightarrow> fbs_pool fb = pool"
  by (auto simp: cpmm_pool_state_decode_def amm_v4_decode_def clmm_pool_state_decode_def
      damm_pool_state_decode_def virtual_pool_decode_def lb_pair_decode_def pump_amm_decode_def
      whirlpool_decode_def curve_account_decode_def fluxbeam_decode_def split: if_splits bind_splits)

lemma loaded_state:
  "damm_load sdk slot now pool acc reader = Inr da
     \<Longrightarrow> damm_pool_state_decode pool (acc_data acc) = Some (dam_state da)"
  "dbc_load sdk pool acc reader = Inr db \<Longrightarrow> virtual_pool_decode pool (acc_data acc) = Some (dbm_state db)"
  "dlmm_load sdk pool acc reader = Inr dl \<Longrightarrow> lb_pair_decode pool (acc_data acc) = Some (dlm_state dl)"
  "pump_amm_load sdk pool acc reader = Inr pa \<Longrightarrow> pump_amm_decode pool (acc_data acc) = Some (pam_state pa)"
  "moonit_load sdk pool acc reader = Inr mo \<Longrightarrow> curve_account_decode pool (acc_data acc) = Some (mom_curve mo)"
  "fluxbeam_load sdk pool acc reader = Inr fb \<Longrightarrow> fluxbeam_decode pool (acc_data acc) = Some (fbm_state fb)"
  by (auto simp: damm_load_def dbc_load_def dlmm_load_def pump_amm_load_def moonit_load_def moonit_new_def
      fluxbeam_load_def Let_def split: if_splits)

text \<open>The market of a pool carries that pool, under the kind of the venue that decoded it.\<close>

lemma venue_load_identity:
  assumes "venue_load sdk reader venue pool account = Inr m"
  shows "pm_pool (loaded_as_market sdk m) = pool" and "pm_program (loaded_as_market sdk m) = venue"
proof -
  have "pm_pool (loaded_as_market sdk m) = pool \<and> pm_program (loaded_as_market sdk m) = venue"
  proof (cases venue)
    case PumpFunLegacy
    then obtain p where p: "m = LoadedPumpLegacy p" "pump_legacy_load sdk (cr_parse_pubkey reader) pool account
       (cr_accounts reader) (cr_token_accounts reader) = Inr p" using assms by auto
    have "bcu_pool (plm_curve p) = pool" by (cases rule: pump_legacy_load_ok [OF p(2)]) simp
    then show ?thesis by (simp add: p(1) PumpFunLegacy pump_legacy_as_market_def)
  next
    case OrcaWhirlpool
    then obtain w where w: "m = LoadedWhirlpool w" "whirlpool_load sdk pool account (cr_accounts reader) = Inr w"
      using assms by auto
    have "wps_pool (wpm_state w) = pool" by (cases rule: whirlpool_load_ok [OF w(2)]) (simp add: decoded_pool)
    then show ?thesis by (simp add: w(1) OrcaWhirlpool whirlpool_as_market_def)
  qed (use assms in \<open>auto simp: cpmm_as_market_def amm_v4_as_market_def clmm_as_market_def damm_as_market_def
      dbc_as_market_def dlmm_as_market_def pump_amm_as_market_def moonit_as_market_def fluxbeam_as_market_def
      dest!: cpmm_load_ok(1) amm_v4_load_ok(1) clmm_load_ok(1) loaded_state dest: decoded_pool\<close>)
  then show "pm_pool (loaded_as_market sdk m) = pool" and "pm_program (loaded_as_market sdk m) = venue" by simp_all
qed

lemma load_market_identity:
  assumes "load_market sdk reader pool = Inr m"
  obtains account rest where "cr_accounts reader [pool] = Inr (Some account # rest)"
    and "acc_owner account = venue_program_id sdk (pm_program (loaded_as_market sdk m))"
    and "pm_program (loaded_as_market sdk m) \<in> set venues"
    and "pm_pool (loaded_as_market sdk m) = pool"
proof -
  obtain accounts account venue where r: "cr_accounts reader [pool] = Inr accounts"
    and a: "(case accounts of [] \<Rightarrow> None | first # _ \<Rightarrow> first) = Some account"
    and v: "venue_for_program_id sdk (acc_owner account) = Some venue"
    and l: "venue_load sdk reader venue pool account = Inr m"
    using assms by (auto simp: load_market_def require_venue_def)
  have "venue_program_id sdk venue = acc_owner account" "venue \<in> set venues"
    using v by (auto simp: venue_for_program_id_def find_Some_iff)
  moreover obtain rest where "accounts = Some account # rest" using a by (cases accounts) auto
  ultimately show ?thesis using that [of account rest] r venue_load_identity [OF l] by simp
qed

section \<open>What a swap has done\<close>

text \<open>
  A swap that returns an outcome went through every stage: the market is the pool's own, the plan's
  swap instruction demands the quoted minimum of that pool for the intent's pair, and the receipt is
  not below what the quote guaranteed after fees.
\<close>

lemma swap_delivers:
  assumes "swap_intent sdk reader price env intent owner = Some (Inr outcome)"
  obtains m and q :: direct_quote and plan :: swap_plan and pre swap post where
    "load_market sdk reader (in_pool intent) = Inr m" and "pm_pool (loaded_as_market sdk m) = in_pool intent"
    and "sp_instructions plan = pre @ [swap] @ post"
    and "u64_at (ix_data swap) (amount_offset m (in_input_mint intent)) = Some (dq_swap_amount_in q)"
    and "u64_at (ix_data swap) (min_offset m (in_input_mint intent)) = Some (dq_min_out q)"
    and "0 < unat (dq_min_net_out q)"
    and "if rc_exact (so_receipt outcome) then dq_min_net_out q \<le> rc_received (so_receipt outcome)
       else sp_output_is_native plan \<or> rc_received (so_receipt outcome) = dq_min_net_out q"
    and "so_amount_in outcome = in_amount_in intent"
proof -
  obtain m q plan where m: "load_market sdk reader (in_pool intent) = Inr m"
    and q: "quote_with_market sdk intent (loaded_as_market sdk m) = Inr q"
    and plan: "build_plan sdk price intent (loaded_as_market sdk m) q = Inr plan"
    and run: "execute_plan sdk env plan owner = Some (Inr outcome)"
    using assms by (auto simp: swap_intent_def quote_intent_def split: sum.splits prod.splits)
  have pool: "pm_pool (loaded_as_market sdk m) = in_pool intent" by (rule load_market_identity [OF m])
  have sp: "sp_quote plan = q" by (rule build_plan_shape [OF plan])
  have outcome: "if rc_exact (so_receipt outcome) then dq_min_net_out q \<le> rc_received (so_receipt outcome)
       else sp_output_is_native plan \<or> rc_received (so_receipt outcome) = dq_min_net_out q"
    "so_amount_in outcome = in_amount_in intent"
    using execution_success [OF run, unfolded sp] quote_splits_input(2) [OF q] by simp_all
  obtain pre swap post where c: "sp_instructions plan = pre @ [swap] @ post"
    "u64_at (ix_data swap) (amount_offset m (in_input_mint intent)) = Some (dq_swap_amount_in q)"
    "u64_at (ix_data swap) (min_offset m (in_input_mint intent)) = Some (dq_min_out q)"
    "0 < unat (dq_min_net_out q)"
    by (rule loaded.engine_contract [OF q plan])
  show ?thesis by (rule that [OF m pool c outcome])
qed

section \<open>Properties\<close>

text \<open>
  C30: a market that loads was decoded by the venue of the program that owns the pool's account on
  chain, a venue of the registry, and carries that pool: no venue ever decodes another's account.
\<close>

theorem loaded_market_belongs:
  assumes "load_market sdk reader pool = Inr m"
  shows "pm_pool (loaded_as_market sdk m) = pool
    \<and> (\<exists>account rest. cr_accounts reader [pool] = Inr (Some account # rest)
       \<and> venue_for_program_id sdk (acc_owner account) = Some (pm_program (loaded_as_market sdk m))
       \<and> acc_owner account = pubkey_from_str sdk (program_id_str (pm_program (loaded_as_market sdk m)))
       \<and> venue_load sdk reader (pm_program (loaded_as_market sdk m)) pool account = Inr m)"
proof -
  obtain accounts account venue where r: "cr_accounts reader [pool] = Inr accounts"
    and a: "(case accounts of [] \<Rightarrow> None | first # _ \<Rightarrow> first) = Some account"
    and v: "venue_for_program_id sdk (acc_owner account) = Some venue"
    and l: "venue_load sdk reader venue pool account = Inr m"
    using assms by (auto simp: load_market_def require_venue_def)
  have "accounts = Some account # tl accounts" using a by (cases accounts) auto
  moreover have "acc_owner account = pubkey_from_str sdk (program_id_str venue)"
    using v by (auto simp: venue_for_program_id_def find_Some_iff venue_program_id_def)
  ultimately show ?thesis using r v l venue_load_identity [OF l] by auto
qed

text \<open>A chain whose only accounts are those of the sample Whirlpool.\<close>

definition sample_chain :: chain_reader where
  "sample_chain = \<lparr>cr_accounts = (\<lambda>addresses. if addresses = [sample_key ''pool'']
       then Inr [Some (sample_whirlpool_account\<lparr>acc_owner := venue_program_id sample_sdk OrcaWhirlpool\<rparr>)]
       else sample_whirlpool_reader addresses),
     cr_token_accounts = (\<lambda>_. Inr []), cr_parse_pubkey = (\<lambda>_. None), cr_slot = None, cr_now_unix = 0\<rparr>"

lemma sample_decodes_apart: "decodes_apart sample_sdk"
  unfolding decodes_apart_def by (simp add: sample_sdk_def venues_def sample_key_def)

lemma sample_chain_loads: "\<exists>m. load_market sample_sdk sample_chain (sample_key ''pool'') = Inr (LoadedWhirlpool m)"
proof -
  let ?account = "sample_whirlpool_account\<lparr>acc_owner := venue_program_id sample_sdk OrcaWhirlpool\<rparr>"
  have venue: "require_venue sample_sdk (venue_program_id sample_sdk OrcaWhirlpool) = Inr OrcaWhirlpool"
    by (rule registry_lookups [OF sample_decodes_apart]) (simp add: set_venues)
  obtain state where "whirlpool_decode (sample_key ''pool'') (acc_data sample_whirlpool_account) = Some state"
    "wps_liquidity state \<noteq> 0" "wps_tick_spacing state = 4" "wps_tick_current state = 0"
    using sample_whirlpool_state by blast
  then have "\<exists>m. whirlpool_load sample_sdk (sample_key ''pool'') ?account (cr_accounts sample_chain) = Inr m"
    by (simp add: whirlpool_load_def Let_def sample_candidates sample_chain_def sample_whirlpool_reader_def required_def
        oracle_inert_def empty_dynamic_array token_account_amount_def mint_decimals_def u64_at_def u8_at_def get_range_def)
  then show ?thesis by (auto simp: load_market_def venue) (simp add: sample_chain_def venue)
qed

theorem loaded_market_belongs_witness:
  "\<exists>m. load_market sample_sdk sample_chain (sample_key ''pool'') = Inr (LoadedWhirlpool m)
     \<and> wps_pool (wpm_state m) = sample_key ''pool''"
proof -
  obtain m where m: "load_market sample_sdk sample_chain (sample_key ''pool'') = Inr (LoadedWhirlpool m)"
    using sample_chain_loads by blast
  show ?thesis using loaded_market_belongs [OF m] m by (simp add: whirlpool_as_market_def)
qed

end
