(* ===== verification/Rate_Limiter.thy ===== *)
theory Rate_Limiter
  imports Raw_Amount "HOL-Library.AList"
begin

text \<open>
  The rate limits of node providers: the providers' kinds and the methods with their weights
  (\<open>src/rpc/types.rs\<close>), the limiter that backs off on HTTP 429 and recovers (\<open>src/rpc/rate_limiter/provider.rs\<close>),
  the backoff with jitter and the sliding window (\<open>adaptive.rs\<close>) and the manager of the limiters
  (\<open>mod.rs\<close>). The cell-rate limiter of the library \<open>governor\<close> is a parameter. Times and durations are
  milliseconds.

  The lemmas show that the reported rate stays between the floor and the base rate, that ten
  successes restore it and no fewer, and that a backoff delay is bounded.
\<close>

section \<open>Providers and methods\<close>

datatype provider_kind = Helius | QuickNode | Triton | Alchemy | GetBlock | Shyft | Public | UnknownKind

fun default_rate_limit :: "provider_kind \<Rightarrow> u32" where
  "default_rate_limit Helius = 50"
| "default_rate_limit QuickNode = 25"
| "default_rate_limit Triton = 100"
| "default_rate_limit Alchemy = 25"
| "default_rate_limit GetBlock = 25"
| "default_rate_limit Shyft = 25"
| "default_rate_limit Public = 4"
| "default_rate_limit UnknownKind = 10"

definition supports_priority_fee_estimate :: "provider_kind \<Rightarrow> bool" where
  "supports_priority_fee_estimate kind \<longleftrightarrow> kind = Helius"

definition supports_das_api :: "provider_kind \<Rightarrow> bool" where
  "supports_das_api kind \<longleftrightarrow> kind = Helius"

definition is_premium :: "provider_kind \<Rightarrow> bool" where
  "is_premium kind \<longleftrightarrow> \<not> (kind = Public \<or> kind = UnknownKind)"

datatype rpc_method =
    GetHealth | GetVersion | GetSlot | GetBlockHeight | GetEpochInfo
  | GetBalance | GetAccountInfo | GetMultipleAccounts | GetTokenAccountBalance | GetTokenAccountsByOwner
  | GetProgramAccounts
  | GetTransaction | GetSignaturesForAddress | GetSignatureStatuses
  | GetLatestBlockhash | GetRecentBlockhash | IsBlockhashValid | GetFeeForMessage
  | GetMinimumBalanceForRentExemption
  | SendTransaction | SimulateTransaction
  | GetPriorityFeeEstimate | GetTransactionsForAddress | GetAsset | GetAssetsByOwner | SearchAssets
  | OtherMethod string

fun method_as_str :: "rpc_method \<Rightarrow> string" where
  "method_as_str GetHealth = ''getHealth''"
| "method_as_str GetVersion = ''getVersion''"
| "method_as_str GetSlot = ''getSlot''"
| "method_as_str GetBlockHeight = ''getBlockHeight''"
| "method_as_str GetEpochInfo = ''getEpochInfo''"
| "method_as_str GetBalance = ''getBalance''"
| "method_as_str GetAccountInfo = ''getAccountInfo''"
| "method_as_str GetMultipleAccounts = ''getMultipleAccounts''"
| "method_as_str GetTokenAccountBalance = ''getTokenAccountBalance''"
| "method_as_str GetTokenAccountsByOwner = ''getTokenAccountsByOwner''"
| "method_as_str GetProgramAccounts = ''getProgramAccounts''"
| "method_as_str GetTransaction = ''getTransaction''"
| "method_as_str GetSignaturesForAddress = ''getSignaturesForAddress''"
| "method_as_str GetSignatureStatuses = ''getSignatureStatuses''"
| "method_as_str GetLatestBlockhash = ''getLatestBlockhash''"
| "method_as_str GetRecentBlockhash = ''getRecentBlockhash''"
| "method_as_str IsBlockhashValid = ''isBlockhashValid''"
| "method_as_str GetFeeForMessage = ''getFeeForMessage''"
| "method_as_str GetMinimumBalanceForRentExemption = ''getMinimumBalanceForRentExemption''"
| "method_as_str SendTransaction = ''sendTransaction''"
| "method_as_str SimulateTransaction = ''simulateTransaction''"
| "method_as_str GetPriorityFeeEstimate = ''getPriorityFeeEstimate''"
| "method_as_str GetTransactionsForAddress = ''getTransactionsForAddress''"
| "method_as_str GetAsset = ''getAsset''"
| "method_as_str GetAssetsByOwner = ''getAssetsByOwner''"
| "method_as_str SearchAssets = ''searchAssets''"
| "method_as_str (OtherMethod name) = name"

definition named_methods :: "rpc_method list" where
  "named_methods = [GetHealth, GetVersion, GetSlot, GetBlockHeight, GetEpochInfo, GetBalance, GetAccountInfo,
     GetMultipleAccounts, GetTokenAccountBalance, GetTokenAccountsByOwner, GetProgramAccounts, GetTransaction,
     GetSignaturesForAddress, GetSignatureStatuses, GetLatestBlockhash, GetRecentBlockhash, IsBlockhashValid,
     GetFeeForMessage, GetMinimumBalanceForRentExemption, SendTransaction, SimulateTransaction,
     GetPriorityFeeEstimate, GetTransactionsForAddress, GetAsset, GetAssetsByOwner, SearchAssets]"

text \<open>The match of \<open>from_str\<close> pairs every name with its method.\<close>

definition method_from_str :: "string \<Rightarrow> rpc_method" where
  "method_from_str name = unwrap_or (map_of (map (\<lambda>m. (method_as_str m, m)) named_methods) name) (OtherMethod name)"

fun method_cost :: "rpc_method \<Rightarrow> nat" where
  "method_cost GetMultipleAccounts = 2"
| "method_cost GetTransaction = 2"
| "method_cost GetSignatureStatuses = 2"
| "method_cost SendTransaction = 2"
| "method_cost SimulateTransaction = 2"
| "method_cost GetTransactionsForAddress = 5"
| "method_cost GetSignaturesForAddress = 3"
| "method_cost GetTokenAccountsByOwner = 3"
| "method_cost GetAssetsByOwner = 3"
| "method_cost SearchAssets = 4"
| "method_cost GetProgramAccounts = 5"
| "method_cost (OtherMethod _) = 2"
| "method_cost _ = 1"

definition requires_premium_provider :: "rpc_method \<Rightarrow> bool" where
  "requires_premium_provider m \<longleftrightarrow>
     m \<in> {GetPriorityFeeEstimate, GetTransactionsForAddress, GetAsset, GetAssetsByOwner, SearchAssets}"

section \<open>Casts and powers of floats\<close>

text \<open>The saturating cast of a float to an unsigned integer.\<close>

fun flt_to_word :: "flt \<Rightarrow> 'a::len word" where
  "flt_to_word (Fin r) = of_nat (min (nat \<lfloor>r\<rfloor>) (2 ^ LENGTH('a) - 1))"
| "flt_to_word PosInf = of_nat (2 ^ LENGTH('a) - 1)"
| "flt_to_word NegInf = 0"
| "flt_to_word NaN = 0"

primrec flt_pow :: "flt \<Rightarrow> nat \<Rightarrow> flt" where
  "flt_pow x 0 = Fin 1"
| "flt_pow x (Suc n) = flt_mul x (flt_pow x n)"

definition flt_powi :: "flt \<Rightarrow> i32 \<Rightarrow> flt" where
  "flt_powi x n = (if 0 \<le> n then flt_pow x (nat n) else flt_div (Fin 1) (flt_pow x (nat (- n))))"

section \<open>The limiter of a provider\<close>

record limiter =
  rl_provider_id :: string
  rl_base_rate :: u32
  rl_current_rate :: u32
  rl_consecutive_429s :: u32
  rl_last_429 :: "nat option"
  rl_backoff_multiplier :: flt
  rl_min_rate :: u32
  rl_recovery_rate :: flt
  rl_recovery_threshold :: u32
  rl_recovery_progress :: u32

definition limiter_new :: "string \<Rightarrow> u32 \<Rightarrow> limiter" where
  "limiter_new provider_id rate_per_second =
     (let rate = max rate_per_second 1 in
      \<lparr>rl_provider_id = provider_id, rl_base_rate = rate, rl_current_rate = rate, rl_consecutive_429s = 0,
       rl_last_429 = None, rl_backoff_multiplier = Fin (1 / 2), rl_min_rate = 1, rl_recovery_rate = Fin (1 / 10),
       rl_recovery_threshold = 10, rl_recovery_progress = 0\<rparr>)"

definition with_backoff :: "string \<Rightarrow> u32 \<Rightarrow> flt \<Rightarrow> u32 \<Rightarrow> limiter" where
  "with_backoff provider_id rate_per_second backoff_multiplier min_rate =
     (limiter_new provider_id rate_per_second)\<lparr>
       rl_backoff_multiplier := flt_clamp backoff_multiplier (Fin (1 / 10)) (Fin (9 / 10)), rl_min_rate := max min_rate 1\<rparr>"

text \<open>\<open>acquire\<close> and \<open>try_acquire\<close> ask the cell-rate limiter once per unit of the method's cost.\<close>

definition acquire_cells :: "('g \<Rightarrow> 'g) \<Rightarrow> rpc_method \<Rightarrow> 'g \<Rightarrow> 'g" where
  "acquire_cells until_ready m g = (until_ready ^^ method_cost m) g"

fun take_cells :: "('g \<Rightarrow> bool \<times> 'g) \<Rightarrow> nat \<Rightarrow> 'g \<Rightarrow> bool \<times> 'g" where
  "take_cells check 0 g = (True, g)"
| "take_cells check (Suc n) g = (case check g of (True, g) \<Rightarrow> take_cells check n g | (False, g) \<Rightarrow> (False, g))"

definition try_acquire :: "('g \<Rightarrow> bool \<times> 'g) \<Rightarrow> rpc_method \<Rightarrow> 'g \<Rightarrow> bool \<times> 'g" where
  "try_acquire check m g = take_cells check (method_cost m) g"

text \<open>\<open>count as i32\<close> is the two's complement reading; the second result is the time slept.\<close>

definition record_429 :: "nat \<Rightarrow> nat option \<Rightarrow> limiter \<Rightarrow> limiter \<times> nat" where
  "record_429 now retry_after l =
     (let count = rl_consecutive_429s l + 1;
          reduction = flt_powi (rl_backoff_multiplier l) (sint count);
          new_rate = flt_to_word (flt_max (flt_mul (Fin (real (unat (rl_base_rate l)))) reduction)
            (Fin (real (unat (rl_min_rate l)))))
      in (l\<lparr>rl_consecutive_429s := count, rl_last_429 := Some now, rl_current_rate := new_rate, rl_recovery_progress := 0\<rparr>,
          case retry_after of Some delay \<Rightarrow> if 100 < delay \<and> delay < 60000 then delay else 0 | None \<Rightarrow> 0))"

definition limiter_success :: "limiter \<Rightarrow> limiter" where
  "limiter_success l =
     (if 0 < rl_consecutive_429s l then
        let progress = rl_recovery_progress l + 1; l = l\<lparr>rl_recovery_progress := progress\<rparr> in
        if rl_recovery_threshold l \<le> progress
        then l\<lparr>rl_consecutive_429s := 0, rl_current_rate := rl_base_rate l, rl_recovery_progress := 0\<rparr>
        else let current = rl_current_rate l;
                 recovery_amount = flt_to_word (flt_mul (Fin (real (unat (rl_base_rate l - current)))) (rl_recovery_rate l));
                 new_rate = min (current + recovery_amount) (rl_base_rate l)
             in l\<lparr>rl_current_rate := new_rate\<rparr>
      else l)"

definition is_backing_off :: "limiter \<Rightarrow> bool" where
  "is_backing_off l \<longleftrightarrow> 0 < rl_consecutive_429s l"

definition time_since_last_429 :: "nat \<Rightarrow> limiter \<Rightarrow> nat option" where
  "time_since_last_429 now l = map_option (\<lambda>t. now - t) (rl_last_429 l)"

definition limiter_reset :: "limiter \<Rightarrow> limiter" where
  "limiter_reset l = l\<lparr>rl_consecutive_429s := 0, rl_current_rate := rl_base_rate l, rl_recovery_progress := 0\<rparr>"

section \<open>The limiters of all providers\<close>

record limiter_manager =
  lm_limiters :: "(string \<times> limiter) list"
  lm_default_rates :: "(provider_kind \<times> u32) list"
  lm_backoff_multiplier :: flt
  lm_min_rate :: u32

definition limiter_manager_new :: limiter_manager where
  "limiter_manager_new = \<lparr>lm_limiters = [], lm_default_rates = map (\<lambda>kind. (kind, default_rate_limit kind))
     [Helius, QuickNode, Triton, Alchemy, GetBlock, Shyft, Public, UnknownKind],
     lm_backoff_multiplier = Fin (1 / 2), lm_min_rate = 1\<rparr>"

record rpc_rates =
  rr_default_rate_limit :: u32
  rr_helius_rate_limit :: u32
  rr_quicknode_rate_limit :: u32
  rr_triton_rate_limit :: u32
  rr_public_rate_limit :: u32

definition from_config :: "rpc_rates \<Rightarrow> limiter_manager" where
  "from_config rpc = \<lparr>lm_limiters = [], lm_default_rates = [(Helius, rr_helius_rate_limit rpc),
     (QuickNode, rr_quicknode_rate_limit rpc), (Triton, rr_triton_rate_limit rpc), (Alchemy, rr_quicknode_rate_limit rpc),
     (GetBlock, rr_quicknode_rate_limit rpc), (Shyft, rr_quicknode_rate_limit rpc), (Public, rr_public_rate_limit rpc),
     (UnknownKind, rr_default_rate_limit rpc)], lm_backoff_multiplier = Fin (1 / 2), lm_min_rate = 1\<rparr>"

definition with_settings :: "flt \<Rightarrow> u32 \<Rightarrow> limiter_manager" where
  "with_settings backoff_multiplier min_rate = limiter_manager_new\<lparr>
     lm_backoff_multiplier := flt_clamp backoff_multiplier (Fin (1 / 10)) (Fin (9 / 10)), lm_min_rate := max min_rate 1\<rparr>"

definition set_default_rate :: "provider_kind \<Rightarrow> u32 \<Rightarrow> limiter_manager \<Rightarrow> limiter_manager" where
  "set_default_rate kind rate m = m\<lparr>lm_default_rates := AList.update kind rate (lm_default_rates m)\<rparr>"

definition get_limiter :: "string \<Rightarrow> u32 option \<Rightarrow> provider_kind \<Rightarrow> limiter_manager \<Rightarrow> limiter \<times> limiter_manager" where
  "get_limiter provider_id rate_override kind m =
     (case map_of (lm_limiters m) provider_id of
        Some l \<Rightarrow> (l, m)
      | None \<Rightarrow>
          let rate = (case rate_override of Some rate \<Rightarrow> rate | None \<Rightarrow> unwrap_or (map_of (lm_default_rates m) kind) 10);
              l = with_backoff provider_id rate (lm_backoff_multiplier m) (lm_min_rate m)
          in (l, m\<lparr>lm_limiters := AList.update provider_id l (lm_limiters m)\<rparr>))"

definition remove_limiter :: "string \<Rightarrow> limiter_manager \<Rightarrow> limiter_manager" where
  "remove_limiter provider_id m = m\<lparr>lm_limiters := AList.delete provider_id (lm_limiters m)\<rparr>"

definition reset_limiters :: "limiter_manager \<Rightarrow> limiter_manager" where
  "reset_limiters m = m\<lparr>lm_limiters := map (\<lambda>(i, l). (i, limiter_reset l)) (lm_limiters m)\<rparr>"

section \<open>Backoff with jitter, and a sliding window\<close>

record exponential_backoff =
  eb_base_delay :: nat
  eb_max_delay :: nat
  eb_attempt :: u64
  eb_jitter :: flt

definition backoff_new :: "nat \<Rightarrow> nat \<Rightarrow> exponential_backoff" where
  "backoff_new base_delay max_delay =
     \<lparr>eb_base_delay = base_delay, eb_max_delay = max_delay, eb_attempt = 0, eb_jitter = Fin (1 / 10)\<rparr>"

definition backoff_default :: exponential_backoff where
  "backoff_default = backoff_new 100 30000"

definition with_jitter :: "nat \<Rightarrow> nat \<Rightarrow> flt \<Rightarrow> exponential_backoff" where
  "with_jitter base_delay max_delay jitter =
     \<lparr>eb_base_delay = base_delay, eb_max_delay = max_delay, eb_attempt = 0, eb_jitter = flt_clamp jitter (Fin 0) (Fin (1 / 2))\<rparr>"

definition rand_jitter :: "u64 \<Rightarrow> u64 \<Rightarrow> u64" where
  "rand_jitter nanos bound = (if bound = 0 then 0 else nanos mod bound)"

definition calculate_delay :: "u64 \<Rightarrow> u64 \<Rightarrow> exponential_backoff \<Rightarrow> u64" where
  "calculate_delay nanos attempt e =
     (let multiplier = (2 :: u64) ^ unat (min attempt 10);
          delay_ms = of_nat (eb_base_delay e) * multiplier;
          delay = min delay_ms (of_nat (eb_max_delay e))
      in if flt_lt (Fin 0) (eb_jitter e)
         then let jitter_range = flt_to_word (flt_mul (Fin (real (unat delay))) (eb_jitter e))
              in delay + rand_jitter nanos jitter_range
         else delay)"

definition next_delay :: "u64 \<Rightarrow> exponential_backoff \<Rightarrow> u64 \<times> exponential_backoff" where
  "next_delay nanos e = (calculate_delay nanos (eb_attempt e) e, e\<lparr>eb_attempt := eb_attempt e + 1\<rparr>)"

definition backoff_reset :: "exponential_backoff \<Rightarrow> exponential_backoff" where
  "backoff_reset e = e\<lparr>eb_attempt := 0\<rparr>"

record sliding_window =
  sw_window_size :: nat
  sw_timestamps :: "nat list"
  sw_capacity :: nat

definition window_new :: "nat \<Rightarrow> nat \<Rightarrow> sliding_window" where
  "window_new window_size capacity = \<lparr>sw_window_size = window_size, sw_timestamps = [], sw_capacity = capacity\<rparr>"

definition window_default :: sliding_window where
  "window_default = window_new 1000 1000"

definition window_record :: "nat \<Rightarrow> sliding_window \<Rightarrow> sliding_window" where
  "window_record now w =
     (let kept = filter (\<lambda>t. now < t + sw_window_size w) (sw_timestamps w) in
      w\<lparr>sw_timestamps := if length kept < sw_capacity w then kept @ [now] else kept\<rparr>)"

definition window_count :: "nat \<Rightarrow> sliding_window \<Rightarrow> nat" where
  "window_count now w = length (filter (\<lambda>t. now < t + sw_window_size w) (sw_timestamps w))"

definition window_rate :: "nat \<Rightarrow> sliding_window \<Rightarrow> flt" where
  "window_rate now w = flt_div (Fin (real (window_count now w))) (Fin (real (sw_window_size w) / 1000))"

definition window_clear :: "sliding_window \<Rightarrow> sliding_window" where
  "window_clear w = w\<lparr>sw_timestamps := []\<rparr>"

section \<open>Names of methods\<close>

lemma map_of_named: "map_of (map (\<lambda>m. (f m, m)) ms) name = Some m \<Longrightarrow> f m = name"
  by (induction ms) (auto split: if_splits)

lemma method_str_round_trip: "method_as_str (method_from_str name) = name"
  by (cases "map_of (map (\<lambda>m. (method_as_str m, m)) named_methods) name")
    (auto simp: method_from_str_def dest: map_of_named)

lemma send_transaction_name: "method_from_str name = SendTransaction \<longleftrightarrow> name = ''sendTransaction''"
proof
  assume "method_from_str name = SendTransaction"
  then show "name = ''sendTransaction''" using method_str_round_trip [of name] by simp
next
  assume "name = ''sendTransaction''"
  then show "method_from_str name = SendTransaction" by (simp add: method_from_str_def named_methods_def)
qed

section \<open>The reported rate\<close>

lemma flt_to_word_Fin:
  assumes "0 \<le> r" and "r < 2 ^ LENGTH('a)"
  shows "unat (flt_to_word (Fin r) :: 'a::len word) = nat \<lfloor>r\<rfloor>"
proof -
  have "nat \<lfloor>r\<rfloor> < 2 ^ LENGTH('a)" using assms by (simp add: nat_less_iff floor_less_iff)
  then have "min (nat \<lfloor>r\<rfloor>) (2 ^ LENGTH('a) - 1) = nat \<lfloor>r\<rfloor>" by linarith
  then show ?thesis using \<open>nat \<lfloor>r\<rfloor> < 2 ^ LENGTH('a)\<close> by (simp only: flt_to_word.simps) (simp add: unat_of_nat)
qed

lemma real_unat_u32: "real (unat (w :: u32)) < 2 ^ 32"
proof -
  have "unat w < 2 ^ 32" by (rule order_less_le_trans [OF unsigned_less]) simp
  then have "real (unat w) < real (2 ^ 32)" by (simp only: of_nat_less_iff)
  then show ?thesis by (simp del: of_nat_unat)
qed

lemma flt_pow_Fin [simp]: "flt_pow (Fin r) n = Fin (r ^ n)"
  by (induction n) simp_all

lemma flt_pow_NaN: "flt_pow NaN n = (if n = 0 then Fin 1 else NaN)"
  by (induction n) (auto simp: inf_of_sign_def)

fun share :: "flt \<Rightarrow> bool" where
  "share (Fin m) \<longleftrightarrow> 0 \<le> m \<and> m \<le> 1"
| "share _ \<longleftrightarrow> False"

lemma share_Fin: "share x \<longleftrightarrow> (\<exists>m. x = Fin m \<and> 0 \<le> m \<and> m \<le> 1)"
  by (cases x) auto

definition limiter_inv :: "limiter \<Rightarrow> bool" where
  "limiter_inv l \<longleftrightarrow> (rl_backoff_multiplier l = NaN \<or> share (rl_backoff_multiplier l)) \<and> share (rl_recovery_rate l)
     \<and> rl_min_rate l \<le> rl_current_rate l \<and> rl_current_rate l \<le> rl_base_rate l"

lemma with_backoff_inv:
  assumes "max min_rate 1 \<le> max rate 1"
  shows "limiter_inv (with_backoff provider rate multiplier min_rate)"
  using assms
  by (cases multiplier) (auto simp: limiter_inv_def with_backoff_def limiter_new_def flt_clamp_def Let_def)

lemma record_429_inv:
  assumes "limiter_inv l" and "unat (rl_consecutive_429s l) + 1 < 2 ^ 31"
  shows "limiter_inv (fst (record_429 now retry l))"
proof -
  let ?c = "rl_consecutive_429s l + 1" and ?b = "unat (rl_base_rate l)" and ?m = "unat (rl_min_rate l)"
  have c: "unat ?c = unat (rl_consecutive_429s l) + 1" using assms(2) by (simp add: unat_word_ariths)
  have "int (unat ?c) < 2 ^ 31" using c assms(2) by (simp del: of_nat_unat)
  then have small: "uint ?c < 2 ^ 31" by simp
  have "- (2 ^ 31) \<le> uint ?c" by (rule order_trans [OF _ uint_ge_0]) simp
  then have "signed_take_bit 31 (uint ?c) = uint ?c" by (rule signed_take_bit_int_eq_self [OF _ small])
  then have "sint ?c = int (unat ?c)" by (simp add: sint_uint)
  then have powi: "flt_powi x (sint ?c) = flt_pow x (unat ?c)" for x by (simp add: flt_powi_def)
  have mb: "?m \<le> ?b" using assms(1) by (auto simp: limiter_inv_def word_le_nat_alt intro: order_trans)
  obtain v where v: "flt_max (flt_mul (Fin (real ?b)) (flt_pow (rl_backoff_multiplier l) (unat ?c))) (Fin (real ?m)) = Fin v"
    "real ?m \<le> v" "v \<le> real ?b"
  proof -
    consider "rl_backoff_multiplier l = NaN" | m where "rl_backoff_multiplier l = Fin m" "0 \<le> m" "m \<le> 1"
      using assms(1) by (auto simp: limiter_inv_def share_Fin)
    then show ?thesis
    proof cases
      case 1
      then show ?thesis using that [of "real ?m"] mb c
        by (simp add: flt_pow_NaN flt_max_def inf_of_sign_def del: of_nat_unat)
    next
      case 2
      have "real ?b * m ^ unat ?c \<le> real ?b" using 2 by (intro mult_left_le power_le_one) (simp_all del: of_nat_unat)
      then show ?thesis using that [of "max (real ?b * m ^ unat ?c) (real ?m)"] 2 mb
        by (simp add: flt_max_def max_def not_less del: of_nat_unat split: if_splits)
    qed
  qed
  have "v < 2 ^ LENGTH(32)" using v(3) real_unat_u32 [of "rl_base_rate l"] by simp
  then have "unat (flt_to_word (Fin v) :: u32) = nat \<lfloor>v\<rfloor>" using order_trans [OF of_nat_0_le_iff v(2)] by (intro flt_to_word_Fin) simp_all
  moreover have "?m \<le> nat \<lfloor>v\<rfloor>" "nat \<lfloor>v\<rfloor> \<le> ?b" using v(2,3)
    by (simp_all add: le_nat_floor nat_le_iff floor_le_iff del: of_nat_unat)
  ultimately show ?thesis
    using assms(1) by (simp add: limiter_inv_def record_429_def Let_def powi v(1) word_le_nat_alt del: of_nat_unat flt_to_word.simps)
qed

lemma limiter_success_inv:
  assumes "limiter_inv l"
  shows "limiter_inv (limiter_success l)"
proof -
  obtain q where q: "rl_recovery_rate l = Fin q" "0 \<le> q" "q \<le> 1" using assms by (auto simp: limiter_inv_def share_Fin)
  let ?d = "rl_base_rate l - rl_current_rate l"
  let ?a = "flt_to_word (Fin (real (unat ?d) * q)) :: u32"
  have bound: "real (unat ?d) * q \<le> real (unat ?d)" using q by (simp add: mult_left_le del: of_nat_unat)
  have "real (unat ?d) * q < 2 ^ LENGTH(32)" using bound real_unat_u32 [of ?d] by (simp del: of_nat_unat)
  then have a: "unat ?a = nat \<lfloor>real (unat ?d) * q\<rfloor>" using q by (intro flt_to_word_Fin) (simp_all del: of_nat_unat)
  then have "unat ?a \<le> unat ?d" using bound by (simp add: nat_le_iff floor_le_iff)
  moreover have d: "unat ?d = unat (rl_base_rate l) - unat (rl_current_rate l)"
    using assms by (simp add: limiter_inv_def unat_sub)
  moreover have "unat (rl_base_rate l) < 2 ^ LENGTH(32)" by (rule unsigned_less)
  moreover have "unat (rl_current_rate l) \<le> unat (rl_base_rate l)" using assms by (simp add: limiter_inv_def word_le_nat_alt)
  ultimately have "unat (rl_current_rate l) + unat ?a < 2 ^ LENGTH(32)" by linarith
  then have "unat (rl_current_rate l + ?a) = unat (rl_current_rate l) + unat ?a" by (rule unat_add_lem [THEN iffD1])
  then have "rl_current_rate l \<le> rl_current_rate l + ?a" by (simp add: word_le_nat_alt)
  then have "rl_min_rate l \<le> min (rl_current_rate l + ?a) (rl_base_rate l)"
    using assms by (auto simp: limiter_inv_def)
  then show ?thesis
    using assms q by (auto simp: limiter_inv_def limiter_success_def Let_def)
qed

section \<open>Sequences of answers\<close>

text \<open>What a provider's limiter sees over its life: refusals at a time and with a \<open>Retry-After\<close>, successes, resets.\<close>

datatype limiter_event = Refused nat "nat option" | Succeeded | WasReset

primrec limiter_apply :: "limiter_event \<Rightarrow> limiter \<Rightarrow> limiter" where
  "limiter_apply (Refused now retry_after) l = fst (record_429 now retry_after l)"
| "limiter_apply Succeeded l = limiter_success l"
| "limiter_apply WasReset l = limiter_reset l"

lemma limiter_apply_fixed [simp]:
  "rl_base_rate (limiter_apply e l) = rl_base_rate l"
  "rl_min_rate (limiter_apply e l) = rl_min_rate l"
  "rl_recovery_threshold (limiter_apply e l) = rl_recovery_threshold l"
  by (cases e; simp add: record_429_def limiter_success_def limiter_reset_def Let_def)+

lemma fold_limiter_fixed [simp]:
  "rl_base_rate (fold limiter_apply es l) = rl_base_rate l"
  "rl_min_rate (fold limiter_apply es l) = rl_min_rate l"
  "rl_recovery_threshold (fold limiter_apply es l) = rl_recovery_threshold l"
  by (induction es arbitrary: l) simp_all

lemma unat_Suc_le: "unat (w + 1 :: u32) \<le> Suc (unat w)"
  by (simp add: unat_word_ariths)

lemma limiter_apply_count: "unat (rl_consecutive_429s (limiter_apply e l)) \<le> unat (rl_consecutive_429s l) + 1"
  by (cases e) (simp_all add: record_429_def limiter_success_def limiter_reset_def Let_def unat_Suc_le)

lemma limiter_reset_inv: "limiter_inv l \<Longrightarrow> limiter_inv (limiter_reset l)"
  by (auto simp: limiter_inv_def limiter_reset_def)

lemma limiter_apply_inv:
  assumes "limiter_inv l" and "unat (rl_consecutive_429s l) + 1 < 2 ^ 31"
  shows "limiter_inv (limiter_apply e l)"
  using assms record_429_inv limiter_success_inv limiter_reset_inv by (cases e) simp_all

lemma fold_limiter_inv:
  "limiter_inv l \<Longrightarrow> unat (rl_consecutive_429s l) + length es < 2 ^ 31 \<Longrightarrow>
     limiter_inv (fold limiter_apply es l) \<and>
     unat (rl_consecutive_429s (fold limiter_apply es l)) \<le> unat (rl_consecutive_429s l) + length es"
proof (induction es arbitrary: l)
  case (Cons e es)
  have step: "unat (rl_consecutive_429s (limiter_apply e l)) \<le> unat (rl_consecutive_429s l) + 1"
    by (rule limiter_apply_count)
  have "limiter_inv (limiter_apply e l)" using Cons.prems by (intro limiter_apply_inv) simp_all
  then show ?case using Cons.IH [of "limiter_apply e l"] step Cons.prems(2) by simp
qed simp

lemma with_backoff_fields [simp]:
  "rl_base_rate (with_backoff p r m mn) = max r 1"
  "rl_min_rate (with_backoff p r m mn) = max mn 1"
  "rl_consecutive_429s (with_backoff p r m mn) = 0"
  "rl_recovery_threshold (with_backoff p r m mn) = 10"
  by (simp_all add: with_backoff_def limiter_new_def Let_def)

lemma fold_limiter_count:
  "length es < 2 ^ 31 \<Longrightarrow> unat (rl_consecutive_429s l) = 0 \<Longrightarrow>
     unat (rl_consecutive_429s (fold limiter_apply es l)) \<le> length es"
proof (induction es rule: rev_induct)
  case (snoc e es)
  then show ?case using limiter_apply_count [of e "fold limiter_apply es l"] by simp
qed simp

lemma success_pending:
  assumes "rl_consecutive_429s l \<noteq> 0" "rl_recovery_threshold l = 10" "rl_recovery_progress l = of_nat k" "k < 9"
  shows "rl_consecutive_429s (limiter_success l) \<noteq> 0" "rl_recovery_threshold (limiter_success l) = 10"
    "rl_recovery_progress (limiter_success l) = of_nat (Suc k)"
proof -
  have "unat (of_nat k + 1 :: u32) = k + 1" using assms(4) by (simp add: unat_word_ariths unat_of_nat)
  then have "\<not> 10 \<le> (of_nat k + 1 :: u32)" using assms(4) by (simp add: word_le_nat_alt)
  then show "rl_consecutive_429s (limiter_success l) \<noteq> 0" "rl_recovery_threshold (limiter_success l) = 10"
    "rl_recovery_progress (limiter_success l) = of_nat (Suc k)"
    using assms by (simp_all add: limiter_success_def Let_def word_gt_0 add.commute)
qed

lemma successes_pending:
  assumes "rl_consecutive_429s l \<noteq> 0" "rl_recovery_threshold l = 10" "rl_recovery_progress l = 0"
  shows "k < 10 \<Longrightarrow> rl_consecutive_429s ((limiter_success ^^ k) l) \<noteq> 0 \<and>
    rl_recovery_threshold ((limiter_success ^^ k) l) = 10 \<and> rl_recovery_progress ((limiter_success ^^ k) l) = of_nat k"
  by (induction k) (use assms success_pending in auto)

lemma healthy_success: "rl_consecutive_429s l = 0 \<Longrightarrow> (limiter_success ^^ k) l = l"
  by (induction k) (simp_all add: limiter_success_def)

lemma tenth_success:
  assumes "rl_consecutive_429s l \<noteq> 0" "rl_recovery_threshold l = 10" "rl_recovery_progress l = 0" and "10 \<le> k"
  shows "(limiter_success ^^ k) l = (let l' = (limiter_success ^^ 9) l in
    l'\<lparr>rl_consecutive_429s := 0, rl_current_rate := rl_base_rate l', rl_recovery_progress := 0\<rparr>)"
proof -
  have j: "k = (k - 10) + (1 + 9)" using assms(4) by simp
  have "limiter_success ((limiter_success ^^ 9) l) = (let l' = (limiter_success ^^ 9) l in
      l'\<lparr>rl_consecutive_429s := 0, rl_current_rate := rl_base_rate l', rl_recovery_progress := 0\<rparr>)"
    using successes_pending [OF assms(1-3), of 9] by (simp add: limiter_success_def Let_def word_gt_0)
  then show ?thesis by (subst j) (simp only: funpow_add o_apply funpow.simps One_nat_def id_apply, simp add: healthy_success Let_def)
qed

text \<open>Over any life of fewer than two to the thirty-first answers and resets, the rate a limiter reports stays
  between its floor and its base rate, whatever the backoff factor it was made with (a factor that is no number
  included); the base rate is the configured one and at least one.\<close>

theorem rate_within_bounds:
  assumes "max min_rate 1 \<le> max rate 1" and "length answers < 2 ^ 31"
  shows "let l = fold limiter_apply answers (with_backoff provider rate multiplier min_rate) in
    max min_rate 1 \<le> rl_current_rate l \<and> rl_current_rate l \<le> rl_base_rate l \<and> rl_base_rate l = max rate 1"
  using fold_limiter_inv [OF with_backoff_inv [OF assms(1)], of provider multiplier answers] assms(2)
  by (simp add: Let_def limiter_inv_def)

theorem rate_within_bounds_witness:
  "let l = fold limiter_apply [Refused 0 None, Refused 5 (Some 2000), Succeeded] (with_backoff ''p'' 50 NaN 3) in
    max 3 1 \<le> rl_current_rate l \<and> rl_current_rate l \<le> rl_base_rate l \<and> rl_base_rate l = max 50 1"
  by (rule rate_within_bounds) simp_all

text \<open>After a 429, whatever came before it, a provider is reported as backing off until its tenth success
  and not after; the tenth success restores the base rate.\<close>

theorem recovers_on_tenth_success:
  assumes "length answers < 2 ^ 31"
  shows "let l = (limiter_success ^^ k) (fst (record_429 now retry_after
      (fold limiter_apply answers (with_backoff provider rate multiplier min_rate)))) in
    (is_backing_off l \<longleftrightarrow> k < 10) \<and> (is_backing_off l \<or> rl_current_rate l = rl_base_rate l)"
proof -
  let ?s = "fold limiter_apply answers (with_backoff provider rate multiplier min_rate)"
  let ?l = "fst (record_429 now retry_after ?s)"
  have "unat (rl_consecutive_429s ?s) < 2 ^ 31"
    using fold_limiter_count [OF assms, of "with_backoff provider rate multiplier min_rate"] assms by simp
  then have "unat (rl_consecutive_429s ?s + 1) \<noteq> 0" by (simp add: unat_word_ariths)
  then have "rl_consecutive_429s ?s + 1 \<noteq> 0" by (metis unat_0)
  then have l: "rl_consecutive_429s ?l \<noteq> 0" "rl_recovery_threshold ?l = 10" "rl_recovery_progress ?l = 0"
    by (simp_all add: record_429_def Let_def)
  show ?thesis
  proof (cases "k < 10")
    case True
    then show ?thesis using successes_pending [OF l True] by (simp add: Let_def is_backing_off_def word_gt_0)
  next
    case False
    then have "(limiter_success ^^ k) ?l = (let l' = (limiter_success ^^ 9) ?l in
      l'\<lparr>rl_consecutive_429s := 0, rl_current_rate := rl_base_rate l', rl_recovery_progress := 0\<rparr>)"
      by (intro tenth_success [OF l]) simp
    then show ?thesis using False by (simp add: Let_def is_backing_off_def)
  qed
qed

theorem recovers_on_tenth_success_witness:
  "let l = (limiter_success ^^ 10) (fst (record_429 7 None
      (fold limiter_apply [Succeeded, Refused 3 None, Succeeded] (with_backoff ''p'' 50 (Fin (1 / 2)) 1)))) in
    (is_backing_off l \<longleftrightarrow> (10 :: nat) < 10) \<and> (is_backing_off l \<or> rl_current_rate l = rl_base_rate l)"
  by (rule recovers_on_tenth_success) simp

lemma unat_rand_jitter: "unat (rand_jitter nanos n) \<le> unat n"
proof (cases "n = 0")
  case False
  then have "0 < unat n" by (simp add: unat_gt_0)
  then have "unat nanos mod unat n \<le> unat n" by (intro less_imp_le mod_less_divisor)
  then show ?thesis using False by (simp add: rand_jitter_def unat_mod_distrib)
qed (simp add: rand_jitter_def)

lemma jittered_delay:
  fixes d :: u64
  assumes "d = min (of_nat base * 2 ^ unat (min attempt 10)) (of_nat cap)" and "unat d < 2 ^ 53"
  shows "\<exists>n. unat (calculate_delay nanos attempt (with_jitter base cap jitter)) = unat d + n \<and> real n \<le> real (unat d) / 2"
proof -
  let ?r = "flt_to_word (flt_mul (Fin (real (unat d))) (flt_clamp jitter (Fin 0) (Fin (1 / 2)))) :: u64"
  have delay: "calculate_delay nanos attempt (with_jitter base cap jitter) =
      (if flt_lt (Fin 0) (flt_clamp jitter (Fin 0) (Fin (1 / 2))) then d + rand_jitter nanos ?r else d)"
    using assms(1) by (simp add: calculate_delay_def with_jitter_def Let_def)
  show ?thesis
  proof (cases "flt_lt (Fin 0) (flt_clamp jitter (Fin 0) (Fin (1 / 2)))")
    case True
    then obtain j where j: "flt_clamp jitter (Fin 0) (Fin (1 / 2)) = Fin j" "0 < j" "j \<le> 1 / 2"
      by (cases jitter) (auto simp: flt_clamp_def split: if_splits intro: that [of "1 / 2"])
    have bound: "real (unat d) * j \<le> real (unat d) / 2" using j(3) mult_left_mono [of j "1 / 2" "real (unat d)"]
      by (simp del: of_nat_unat)
    have "real (unat d) < 2 ^ 53" using assms(2) by (metis of_nat_less_iff of_nat_numeral of_nat_power)
    then have "real (unat d) * j < 2 ^ LENGTH(64)" using bound by simp
    then have "unat ?r = nat \<lfloor>real (unat d) * j\<rfloor>" using j
      by (simp only: flt_mul.simps) (intro flt_to_word_Fin mult_nonneg_nonneg, simp_all del: of_nat_unat)
    moreover have "real (nat \<lfloor>real (unat d) * j\<rfloor>) \<le> real (unat d) * j"
      using j(2) by (intro of_nat_floor mult_nonneg_nonneg) (simp_all del: of_nat_unat)
    ultimately have range: "real (unat ?r) \<le> real (unat d) / 2" using bound by (simp del: of_nat_unat flt_to_word.simps)
    have le: "unat (rand_jitter nanos ?r) \<le> unat ?r" by (rule unat_rand_jitter)
    then have "real (unat (rand_jitter nanos ?r)) \<le> real (unat d)" using range by (simp del: of_nat_unat flt_to_word.simps)
    then have "unat d + unat (rand_jitter nanos ?r) < 2 ^ LENGTH(64)" using assms(2) by (simp only: of_nat_le_iff) simp
    then have "unat (d + rand_jitter nanos ?r) = unat d + unat (rand_jitter nanos ?r)" by (rule unat_add_lem [THEN iffD1])
    then show ?thesis using True delay le range by (intro exI [of _ "unat (rand_jitter nanos ?r)"])
      (simp del: of_nat_unat flt_to_word.simps)
  next
    case False
    then show ?thesis using delay by (intro exI [of _ 0]) (simp del: of_nat_unat)
  qed
qed

text \<open>A delay of the backoff is at least the base delay doubled per attempt (ten times at most) and capped at the
  maximum, and exceeds that by at most half; so it never wraps for delays below two to the fifty-third milliseconds.\<close>

theorem backoff_delay_bounded:
  assumes "base < 2 ^ 53" and "cap < 2 ^ 53"
  shows "let d = min (base * 2 ^ min (unat attempt) 10) cap; r = unat (calculate_delay nanos attempt (with_jitter base cap jitter))
    in d \<le> r \<and> real r \<le> real d * 3 / 2"
proof -
  let ?a = "min (unat attempt) 10"
  have "(2::nat) ^ ?a \<le> 2 ^ 10" by (rule power_increasing) simp_all
  then have fits: "base * 2 ^ ?a < 2 ^ 64" using assms(1) mult_less_le_imp_less [of base "2 ^ 53" "2 ^ ?a" "2 ^ 10"] by simp
  define d :: u64 where "d = min (of_nat base * 2 ^ unat (min attempt 10)) (of_nat cap)"
  have "unat (min attempt 10) = ?a" by (simp add: min_def word_le_nat_alt)
  then have "d = min (of_nat (base * 2 ^ ?a)) (of_nat cap)" by (simp add: d_def)
  then have ud: "unat d = min (base * 2 ^ ?a) cap"
    using fits assms(2) by (simp only: unat_min_word unat_of_nat) simp
  obtain n where n: "unat (calculate_delay nanos attempt (with_jitter base cap jitter)) = unat d + n" "real n \<le> real (unat d) / 2"
    using jittered_delay [OF d_def] ud assms(2) by (metis min.strict_coboundedI2)
  then show ?thesis by (simp add: Let_def ud)
qed

theorem backoff_delay_bounded_witness:
  "let d = min (100 * 2 ^ min (unat (3 :: u64)) 10) 30000; r = unat (calculate_delay 77 3 (with_jitter 100 30000 (Fin (1 / 10))))
    in d \<le> r \<and> real r \<le> real d * 3 / 2"
  by (rule backoff_delay_bounded) simp_all

end
