(* ===== verification/Circuit_Breaker.thy ===== *)
theory Circuit_Breaker
  imports Rust_Prelude "HOL-Library.AList"
begin

text \<open>
  The circuit breaker of a node provider, \<open>src/rpc/circuit_breaker/\<close>: its configuration, its state
  machine and the manager that keeps one breaker per provider. A time is a reading of the clock in
  milliseconds, which every operation takes as an argument.

  An operation that holds the state lock is one step. \<open>can_execute\<close> gives the lock up between
  reading the state and acting on it, so the step relation \<open>breaker_step\<close> keeps the callers that
  have read the state apart from what they do next. The lemmas show which states are reachable, that
  an open circuit admits nobody before its time, that it closes only on enough successes, and for
  which configurations it closes at all.
\<close>

section \<open>Configuration and state\<close>

datatype circuit_state = Closed | Open | HalfOpen

definition from_secs :: "nat \<Rightarrow> nat" where
  "from_secs secs = secs * 1000"

record breaker_config =
  bc_failure_threshold :: u32
  bc_success_threshold :: u32
  bc_open_duration :: nat
  bc_half_open_timeout :: nat
  bc_half_open_max_requests :: u32
  bc_ignore_rate_limits :: bool
  bc_min_state_duration :: nat

definition default_breaker_config :: breaker_config where
  "default_breaker_config = \<lparr>bc_failure_threshold = 5, bc_success_threshold = 3, bc_open_duration = from_secs 30,
     bc_half_open_timeout = from_secs 10, bc_half_open_max_requests = 2, bc_ignore_rate_limits = True,
     bc_min_state_duration = from_secs 5\<rparr>"

definition with_threshold :: "u32 \<Rightarrow> breaker_config" where
  "with_threshold failure_threshold = default_breaker_config\<lparr>bc_failure_threshold := failure_threshold\<rparr>"

definition aggressive :: breaker_config where
  "aggressive = \<lparr>bc_failure_threshold = 3, bc_success_threshold = 2, bc_open_duration = from_secs 15,
     bc_half_open_timeout = from_secs 5, bc_half_open_max_requests = 1, bc_ignore_rate_limits = True,
     bc_min_state_duration = from_secs 5\<rparr>"

definition conservative :: breaker_config where
  "conservative = \<lparr>bc_failure_threshold = 10, bc_success_threshold = 5, bc_open_duration = from_secs 60,
     bc_half_open_timeout = from_secs 10, bc_half_open_max_requests = 3, bc_ignore_rate_limits = True,
     bc_min_state_duration = from_secs 10\<rparr>"

record breaker =
  cb_provider_id :: string
  cb_config :: breaker_config
  cb_state :: circuit_state
  cb_failures :: u32
  cb_successes :: u32
  cb_opened_at :: "nat option"
  cb_last_state_change :: nat
  cb_total_opens :: u64
  cb_last_error :: "string option"
  cb_half_open_requests :: u32

definition breaker_new :: "nat \<Rightarrow> string \<Rightarrow> breaker_config \<Rightarrow> breaker" where
  "breaker_new now provider_id config = \<lparr>cb_provider_id = provider_id, cb_config = config, cb_state = Closed,
     cb_failures = 0, cb_successes = 0, cb_opened_at = None, cb_last_state_change = now, cb_total_opens = 0,
     cb_last_error = None, cb_half_open_requests = 0\<rparr>"

section \<open>Operations\<close>

definition transition_to_half_open :: "nat \<Rightarrow> breaker \<Rightarrow> breaker" where
  "transition_to_half_open now b =
     (if cb_state b = Open
      then b\<lparr>cb_state := HalfOpen, cb_successes := 0, cb_half_open_requests := 0, cb_last_state_change := now\<rparr>
      else b)"

text \<open>The half-open arm of \<open>can_execute\<close>; the atomic counter wraps.\<close>

definition probe :: "breaker \<Rightarrow> (nat + unit) \<times> breaker" where
  "probe b =
     (let current = cb_half_open_requests b in
      (if current < bc_half_open_max_requests (cb_config b) then Inr () else Inl 100,
       b\<lparr>cb_half_open_requests := current + 1\<rparr>))"

definition can_execute :: "nat \<Rightarrow> breaker \<Rightarrow> (nat + unit) \<times> breaker" where
  "can_execute now b =
     (case cb_state b of
        Closed \<Rightarrow> (Inr (), b)
      | HalfOpen \<Rightarrow> probe b
      | Open \<Rightarrow>
          (case cb_opened_at b of
             Some time \<Rightarrow>
               let elapsed = now - time in
               if bc_open_duration (cb_config b) \<le> elapsed then (Inr (), transition_to_half_open now b)
               else (Inl (bc_open_duration (cb_config b) - elapsed), b)
           | None \<Rightarrow> (Inr (), b)))"

definition record_success :: "nat \<Rightarrow> breaker \<Rightarrow> breaker" where
  "record_success now b =
     (case cb_state b of
        Closed \<Rightarrow> b\<lparr>cb_failures := 0\<rparr>
      | HalfOpen \<Rightarrow>
          let successes = cb_successes b + 1; b = b\<lparr>cb_successes := successes\<rparr> in
          if bc_success_threshold (cb_config b) \<le> successes
          then b\<lparr>cb_state := Closed, cb_failures := 0, cb_successes := 0, cb_half_open_requests := 0,
                 cb_opened_at := None, cb_last_state_change := now, cb_last_error := None\<rparr>
          else b
      | Open \<Rightarrow> b)"

definition record_failure :: "nat \<Rightarrow> string \<Rightarrow> bool \<Rightarrow> breaker \<Rightarrow> breaker" where
  "record_failure now error is_rate_limit b =
     (if is_rate_limit \<and> bc_ignore_rate_limits (cb_config b) then b
      else let b = b\<lparr>cb_last_error := Some error\<rparr> in
        case cb_state b of
          Closed \<Rightarrow>
            let failures = cb_failures b + 1; b = b\<lparr>cb_failures := failures\<rparr> in
            if bc_failure_threshold (cb_config b) \<le> failures
               \<and> bc_min_state_duration (cb_config b) \<le> now - cb_last_state_change b
            then b\<lparr>cb_state := Open, cb_opened_at := Some now, cb_last_state_change := now,
                   cb_total_opens := cb_total_opens b + 1\<rparr>
            else b
        | HalfOpen \<Rightarrow>
            b\<lparr>cb_state := Open, cb_opened_at := Some now, cb_last_state_change := now, cb_successes := 0,
              cb_half_open_requests := 0, cb_total_opens := cb_total_opens b + 1\<rparr>
        | Open \<Rightarrow> b\<lparr>cb_opened_at := Some now\<rparr>)"

definition force_open :: "nat \<Rightarrow> string \<Rightarrow> breaker \<Rightarrow> breaker" where
  "force_open now reason b = b\<lparr>cb_state := Open, cb_opened_at := Some now, cb_last_state_change := now,
     cb_last_error := Some reason, cb_total_opens := cb_total_opens b + 1\<rparr>"

definition force_close :: "nat \<Rightarrow> breaker \<Rightarrow> breaker" where
  "force_close now b = b\<lparr>cb_state := Closed, cb_failures := 0, cb_successes := 0, cb_half_open_requests := 0,
     cb_opened_at := None, cb_last_state_change := now, cb_last_error := None\<rparr>"

definition time_until_transition :: "nat \<Rightarrow> breaker \<Rightarrow> nat option" where
  "time_until_transition now b =
     (case cb_state b of
        Open \<Rightarrow> map_option (\<lambda>t. let elapsed = now - t in
            if elapsed < bc_open_duration (cb_config b) then bc_open_duration (cb_config b) - elapsed else 0)
          (cb_opened_at b)
      | _ \<Rightarrow> None)"

record breaker_status =
  bs_provider_id :: string
  bs_state :: circuit_state
  bs_failure_count :: u32
  bs_success_count :: u32
  bs_total_opens :: u64
  bs_last_error :: "string option"
  bs_time_until_transition :: "nat option"

definition status :: "nat \<Rightarrow> breaker \<Rightarrow> breaker_status" where
  "status now b = \<lparr>bs_provider_id = cb_provider_id b, bs_state = cb_state b, bs_failure_count = cb_failures b,
     bs_success_count = cb_successes b, bs_total_opens = cb_total_opens b, bs_last_error = cb_last_error b,
     bs_time_until_transition = time_until_transition now b\<rparr>"

section \<open>One breaker per provider\<close>

record breaker_manager =
  bm_breakers :: "(string \<times> breaker) list"
  bm_default_config :: breaker_config

definition breaker_manager_new :: breaker_manager where
  "breaker_manager_new = \<lparr>bm_breakers = [], bm_default_config = default_breaker_config\<rparr>"

definition with_config :: "breaker_config \<Rightarrow> breaker_manager" where
  "with_config config = \<lparr>bm_breakers = [], bm_default_config = config\<rparr>"

definition put_breaker :: "string \<Rightarrow> breaker \<Rightarrow> breaker_manager \<Rightarrow> breaker_manager" where
  "put_breaker provider_id b m = m\<lparr>bm_breakers := AList.update provider_id b (bm_breakers m)\<rparr>"

definition get_breaker :: "nat \<Rightarrow> string \<Rightarrow> breaker_manager \<Rightarrow> breaker \<times> breaker_manager" where
  "get_breaker now provider_id m =
     (case map_of (bm_breakers m) provider_id of
        Some b \<Rightarrow> (b, m)
      | None \<Rightarrow> let b = breaker_new now provider_id (bm_default_config m) in (b, put_breaker provider_id b m))"

definition get_breaker_with_config :: "nat \<Rightarrow> string \<Rightarrow> breaker_config \<Rightarrow> breaker_manager \<Rightarrow> breaker \<times> breaker_manager" where
  "get_breaker_with_config now provider_id config m =
     (let b = breaker_new now provider_id config in (b, put_breaker provider_id b m))"

definition remove_breaker :: "string \<Rightarrow> breaker_manager \<Rightarrow> breaker_manager" where
  "remove_breaker provider_id m = m\<lparr>bm_breakers := AList.delete provider_id (bm_breakers m)\<rparr>"

definition is_available :: "nat \<Rightarrow> string \<Rightarrow> breaker_manager \<Rightarrow> bool \<times> breaker_manager" where
  "is_available now provider_id m =
     (case map_of (bm_breakers m) provider_id of
        Some b \<Rightarrow> (let (r, b) = can_execute now b in (\<not> isl r, put_breaker provider_id b m))
      | None \<Rightarrow> (True, m))"

fun split_health :: "nat \<Rightarrow> (string \<times> breaker) list \<Rightarrow> string list \<times> (string \<times> nat) list \<times> (string \<times> breaker) list" where
  "split_health now [] = ([], [], [])"
| "split_health now ((i, b) # rest) =
     (let (r, b) = can_execute now b; (healthy, unhealthy, rest) = split_health now rest in
      case r of
        Inr _ \<Rightarrow> (i # healthy, unhealthy, (i, b) # rest)
      | Inl wait_time \<Rightarrow> (healthy, (i, wait_time) # unhealthy, (i, b) # rest))"

definition get_healthy_providers :: "nat \<Rightarrow> breaker_manager \<Rightarrow> string list \<times> breaker_manager" where
  "get_healthy_providers now m =
     (let (healthy, _, bs) = split_health now (bm_breakers m) in (healthy, m\<lparr>bm_breakers := bs\<rparr>))"

definition get_unhealthy_providers :: "nat \<Rightarrow> breaker_manager \<Rightarrow> (string \<times> nat) list \<times> breaker_manager" where
  "get_unhealthy_providers now m =
     (let (_, unhealthy, bs) = split_health now (bm_breakers m) in (unhealthy, m\<lparr>bm_breakers := bs\<rparr>))"

definition reset_all :: "nat \<Rightarrow> breaker_manager \<Rightarrow> breaker_manager" where
  "reset_all now m = m\<lparr>bm_breakers := map (\<lambda>(i, b). (i, force_close now b)) (bm_breakers m)\<rparr>"

definition get_all_status :: "nat \<Rightarrow> breaker_manager \<Rightarrow> breaker_status list" where
  "get_all_status now m = map (status now \<circ> snd) (bm_breakers m)"

definition get_status :: "nat \<Rightarrow> string \<Rightarrow> breaker_manager \<Rightarrow> breaker_status option" where
  "get_status now provider_id m = map_option (status now) (map_of (bm_breakers m) provider_id)"

definition open_circuit_count :: "breaker_manager \<Rightarrow> nat" where
  "open_circuit_count m = length (filter (\<lambda>(_, b). cb_state b = Open) (bm_breakers m))"

section \<open>Steps of concurrent callers\<close>

text \<open>
  A caller of \<open>can_execute\<close> has read the state, or has read it as open and found the cooldown over.
  A request that was admitted reports a success or a failure, or neither.
\<close>

datatype caller = Checked circuit_state | Cleared

record breaker_system =
  sy_breaker :: breaker
  sy_callers :: "caller list"

datatype breaker_event = Arrived | Admitted | Refused nat | CooldownOver | Succeeded | Failed string bool
  | ForcedOpen string | ForcedClosed

inductive breaker_step :: "nat \<Rightarrow> breaker_system \<Rightarrow> breaker_event \<Rightarrow> breaker_system \<Rightarrow> bool" where
  arrive: "breaker_step now s Arrived (s\<lparr>sy_callers := Checked (cb_state (sy_breaker s)) # sy_callers s\<rparr>)"
| closed: "Checked Closed \<in> set (sy_callers s) \<Longrightarrow>
    breaker_step now s Admitted (s\<lparr>sy_callers := remove1 (Checked Closed) (sy_callers s)\<rparr>)"
| probe: "Checked HalfOpen \<in> set (sy_callers s) \<Longrightarrow> probe (sy_breaker s) = (r, b) \<Longrightarrow>
    breaker_step now s (case r of Inl wait \<Rightarrow> Refused wait | Inr _ \<Rightarrow> Admitted)
      (s\<lparr>sy_breaker := b, sy_callers := remove1 (Checked HalfOpen) (sy_callers s)\<rparr>)"
| reset_meanwhile: "Checked Open \<in> set (sy_callers s) \<Longrightarrow> cb_opened_at (sy_breaker s) = None \<Longrightarrow>
    breaker_step now s Admitted (s\<lparr>sy_callers := remove1 (Checked Open) (sy_callers s)\<rparr>)"
| cooling: "Checked Open \<in> set (sy_callers s) \<Longrightarrow> cb_opened_at (sy_breaker s) = Some time \<Longrightarrow>
    now - time < bc_open_duration (cb_config (sy_breaker s)) \<Longrightarrow>
    breaker_step now s (Refused (bc_open_duration (cb_config (sy_breaker s)) - (now - time)))
      (s\<lparr>sy_callers := remove1 (Checked Open) (sy_callers s)\<rparr>)"
| cooled: "Checked Open \<in> set (sy_callers s) \<Longrightarrow> cb_opened_at (sy_breaker s) = Some time \<Longrightarrow>
    bc_open_duration (cb_config (sy_breaker s)) \<le> now - time \<Longrightarrow>
    breaker_step now s CooldownOver (s\<lparr>sy_callers := Cleared # remove1 (Checked Open) (sy_callers s)\<rparr>)"
| transit: "Cleared \<in> set (sy_callers s) \<Longrightarrow>
    breaker_step now s Admitted (s\<lparr>sy_breaker := transition_to_half_open now (sy_breaker s),
      sy_callers := remove1 Cleared (sy_callers s)\<rparr>)"
| success: "breaker_step now s Succeeded (s\<lparr>sy_breaker := record_success now (sy_breaker s)\<rparr>)"
| failure: "breaker_step now s (Failed e rate_limited) (s\<lparr>sy_breaker := record_failure now e rate_limited (sy_breaker s)\<rparr>)"
| force_open: "breaker_step now s (ForcedOpen reason) (s\<lparr>sy_breaker := force_open now reason (sy_breaker s)\<rparr>)"
| force_close: "breaker_step now s ForcedClosed (s\<lparr>sy_breaker := force_close now (sy_breaker s)\<rparr>)"

text \<open>A run, with the clock reading and the event of every step, the latest last.\<close>

inductive breaker_run :: "breaker_system \<Rightarrow> (nat \<times> breaker_event) list \<Rightarrow> breaker_system \<Rightarrow> bool" where
  start: "breaker_run s [] s"
| step: "breaker_run s evs t \<Longrightarrow> breaker_step now t e u \<Longrightarrow> breaker_run s (evs @ [(now, e)]) u"

inductive_cases breaker_stepE: "breaker_step now s e t"
inductive_cases breaker_runE: "breaker_run s evs t"

text \<open>A caller alone is a sequence of steps with the outcome of \<open>can_execute\<close>.\<close>

definition alone :: "breaker \<Rightarrow> breaker_system" where
  "alone b = \<lparr>sy_breaker = b, sy_callers = []\<rparr>"

lemma run_one: "breaker_step now s e t \<Longrightarrow> breaker_run s [(now, e)] t"
  using breaker_run.step [OF breaker_run.start] by simp

lemma run_append: "breaker_run t evs u \<Longrightarrow> breaker_run s evs' t \<Longrightarrow> breaker_run s (evs' @ evs) u"
  by (induction rule: breaker_run.induct) (auto simp flip: append_assoc intro: breaker_run.intros)

lemma can_execute_is_run:
  assumes "can_execute now b = (r, b')"
  shows "\<exists>evs. breaker_run (alone b) (evs @ [(now, case r of Inl wait \<Rightarrow> Refused wait | Inr _ \<Rightarrow> Admitted)]) (alone b')
     \<and> set evs \<subseteq> {(now, Arrived), (now, CooldownOver)}"
proof -
  let ?s = "(alone b)\<lparr>sy_callers := [Checked (cb_state b)]\<rparr>"
  let ?e = "case r of Inl wait \<Rightarrow> Refused wait | Inr _ \<Rightarrow> Admitted"
  have a: "breaker_run (alone b) [(now, Arrived)] ?s"
    using run_one [OF arrive [of now "alone b"]] by (simp add: alone_def)
  have once: ?thesis if "breaker_step now ?s ?e (alone b')"
    using run_append [OF run_one [OF that] a] by (intro exI [of _ "[(now, Arrived)]"]) simp
  show ?thesis
  proof (cases "cb_state b")
    case Closed
    then show ?thesis using once assms closed [of ?s now] by (auto simp: can_execute_def alone_def)
  next
    case HalfOpen
    then show ?thesis using once assms probe [of ?s r b' now] by (simp add: can_execute_def alone_def)
  next
    case Open
    show ?thesis
    proof (cases "cb_opened_at b")
      case None
      then show ?thesis using once assms Open reset_meanwhile [of ?s now] by (auto simp: can_execute_def alone_def)
    next
      case (Some time)
      show ?thesis
      proof (cases "bc_open_duration (cb_config b) \<le> now - time")
        case False
        then show ?thesis using once assms Open Some cooling [of ?s time now] by (auto simp: can_execute_def alone_def)
      next
        case True
        let ?t = "?s\<lparr>sy_callers := [Cleared]\<rparr>"
        have "breaker_step now ?s CooldownOver ?t" using cooled [of ?s time now] Open Some True by (simp add: alone_def)
        moreover have "breaker_step now ?t ?e (alone b')"
          using transit [of ?t now] assms Open Some True by (auto simp: can_execute_def alone_def)
        ultimately have "breaker_run (alone b) ([(now, Arrived)] @ [(now, CooldownOver)] @ [(now, ?e)]) (alone b')"
          using a by (blast intro: run_append run_one)
        then show ?thesis by (intro exI [of _ "[(now, Arrived), (now, CooldownOver)]"]) simp
      qed
    qed
  qed
qed

section \<open>Reachable states\<close>

lemmas breaker_defs = transition_to_half_open_def probe_def record_success_def record_failure_def force_open_def
  force_close_def Let_def

definition breaker_inv :: "breaker \<Rightarrow> bool" where
  "breaker_inv b \<longleftrightarrow> (cb_opened_at b = None \<longleftrightarrow> cb_state b = Closed)
     \<and> (cb_state b = HalfOpen \<and> 0 < bc_success_threshold (cb_config b) \<longrightarrow> cb_successes b < bc_success_threshold (cb_config b))"

lemma word_less_succ: "\<not> t \<le> s + 1 \<Longrightarrow> s + 1 < (t :: 'a::len word)"
  by simp

lemma breaker_ops_inv:
  assumes "breaker_inv b"
  shows "breaker_inv (transition_to_half_open now b)" "breaker_inv (snd (probe b))" "breaker_inv (record_success now b)"
    "breaker_inv (record_failure now e rl b)" "breaker_inv (force_open now e b)" "breaker_inv (force_close now b)"
  using assms by (auto simp: breaker_inv_def breaker_defs split: circuit_state.split)

lemma breaker_step_inv: "breaker_step now s e t \<Longrightarrow> breaker_inv (sy_breaker s) \<Longrightarrow> breaker_inv (sy_breaker t)"
  by (erule breaker_step.cases) (auto intro: breaker_ops_inv dest: breaker_ops_inv(2))

lemma breaker_step_config: "breaker_step now s e t \<Longrightarrow> cb_config (sy_breaker t) = cb_config (sy_breaker s)"
  by (erule breaker_step.cases) (auto simp: breaker_defs split: circuit_state.split)

lemma breaker_run_config: "breaker_run s evs t \<Longrightarrow> cb_config (sy_breaker t) = cb_config (sy_breaker s)"
  by (induction rule: breaker_run.induct) (simp_all add: breaker_step_config)

lemma breaker_run_inv: "breaker_run s evs t \<Longrightarrow> breaker_inv (sy_breaker s) \<Longrightarrow> breaker_inv (sy_breaker t)"
  by (induction rule: breaker_run.induct) (simp_all add: breaker_step_inv)

text \<open>
  In every state concurrent callers can bring a breaker into, it remembers when it opened
  exactly while it is not closed, and a half-open breaker has seen fewer successes than it needs.
\<close>

theorem breaker_reachable:
  assumes "breaker_run (alone (breaker_new start provider config)) evs s"
  shows "(cb_opened_at (sy_breaker s) = None \<longleftrightarrow> cb_state (sy_breaker s) = Closed)
    \<and> (cb_state (sy_breaker s) = HalfOpen \<and> 0 < bc_success_threshold config
        \<longrightarrow> cb_successes (sy_breaker s) < bc_success_threshold config)"
proof -
  have "breaker_inv (sy_breaker s)"
    by (rule breaker_run_inv [OF assms]) (simp add: alone_def breaker_new_def breaker_inv_def)
  moreover have "cb_config (sy_breaker s) = config"
    using breaker_run_config [OF assms] by (simp add: alone_def breaker_new_def)
  ultimately show ?thesis by (simp add: breaker_inv_def)
qed

text \<open>While the circuit cools down its callers have read it as open and its opening is no older than \<open>since\<close>.\<close>

definition cooling_since :: "nat \<Rightarrow> breaker_system \<Rightarrow> bool" where
  "cooling_since since s \<longleftrightarrow> cb_state (sy_breaker s) = Open \<and> (\<exists>t \<ge> since. cb_opened_at (sy_breaker s) = Some t)
     \<and> set (sy_callers s) \<subseteq> {Checked Open}"

lemma cooling_step:
  assumes "breaker_step now s e t" and "cooling_since since s" and "e \<noteq> ForcedClosed"
    and "since \<le> now" and "now < since + bc_open_duration (cb_config (sy_breaker s))"
  shows "e \<noteq> Admitted \<and> cooling_since since t"
  using assms(1)
proof cases
  case (cooled time)
  then show ?thesis using assms by (fastforce simp: cooling_since_def)
next
  case (cooling time)
  then show ?thesis using assms(2) set_remove1_subset [of "Checked Open" "sy_callers s"] by (auto simp: cooling_since_def)
qed (use assms(2-4) in \<open>auto simp: cooling_since_def breaker_defs split: circuit_state.splits\<close>)

text \<open>
  C22: an open circuit admits no caller before its cooldown is over, whatever callers interleave and
  whatever failures are reported, and stays open, unless it is reset.
\<close>

theorem open_circuit_refuses:
  assumes "breaker_run (alone b) evs s" and "cb_state b = Open" and "cb_opened_at b = Some since"
    and "\<forall>(now, e) \<in> set evs. since \<le> now \<and> now < since + bc_open_duration (cb_config b) \<and> e \<noteq> ForcedClosed"
  shows "Admitted \<notin> snd ` set evs \<and> cb_state (sy_breaker s) = Open"
proof -
  have "cooling_since since s \<and> Admitted \<notin> snd ` set evs"
    using assms(1,4)
  proof (induction "alone b" evs s rule: breaker_run.induct)
    case start
    show ?case using assms(2,3) by (auto simp: cooling_since_def alone_def)
  next
    case (step evs t now e u)
    then have "cooling_since since t" "Admitted \<notin> snd ` set evs" by auto
    moreover have "cb_config (sy_breaker t) = cb_config b" using breaker_run_config [OF step(1)] by (simp add: alone_def)
    ultimately show ?case using cooling_step [OF step(3), of since] step(4) by auto
  qed
  then show ?thesis by (simp add: cooling_since_def)
qed

section \<open>Recovery\<close>

definition successes_in :: "(nat \<times> breaker_event) list \<Rightarrow> nat" where
  "successes_in evs = length (filter (\<lambda>(_, e). e = Succeeded) evs)"

lemma unat_succ_le: "unat (x + 1 :: 'a::len word) \<le> unat x + 1"
  by (metis mod_less_eq_dividend unat_1 unat_word_ariths(1))

definition earned :: "nat \<Rightarrow> breaker \<Rightarrow> bool" where
  "earned n b \<longleftrightarrow> (cb_state b = HalfOpen \<longrightarrow> unat (cb_successes b) \<le> n)
     \<and> (cb_state b = Closed \<longrightarrow> unat (bc_success_threshold (cb_config b)) \<le> n)"

lemma earned_success: "earned n b \<Longrightarrow> earned (n + 1) (record_success now b)"
  using unat_succ_le [of "cb_successes b"]
  by (auto simp: earned_def record_success_def Let_def word_le_nat_alt split: circuit_state.split)

lemma earned_step:
  assumes "breaker_step now s e t" and "earned n (sy_breaker s)" and "e \<noteq> ForcedClosed"
  shows "earned (if e = Succeeded then n + 1 else n) (sy_breaker t)"
  using assms(1)
proof cases
  case success
  then show ?thesis using earned_success [OF assms(2)] by simp
qed (use assms(2,3) in \<open>auto simp: earned_def breaker_defs split: circuit_state.splits\<close>)

text \<open>
  An open circuit closes again only on as many reported successes as its configuration asks for,
  whatever callers interleave, unless it is reset.
\<close>

theorem closes_on_enough_successes:
  assumes "breaker_run (alone b) evs s" and "cb_state b = Open" and "\<forall>(now, e) \<in> set evs. e \<noteq> ForcedClosed"
    and "cb_state (sy_breaker s) = Closed"
  shows "unat (bc_success_threshold (cb_config b)) \<le> successes_in evs"
proof -
  have "earned (successes_in evs) (sy_breaker s)"
    using assms(1,3)
  proof (induction "alone b" evs s rule: breaker_run.induct)
    case start
    show ?case using assms(2) by (simp add: earned_def alone_def)
  next
    case (step evs t now e u)
    then show ?case using earned_step [OF step(3), of "successes_in evs"] by (auto simp: successes_in_def split: if_splits)
  qed
  moreover have "cb_config (sy_breaker s) = cb_config b" using breaker_run_config [OF assms(1)] by (simp add: alone_def)
  ultimately show ?thesis using assms(4) by (simp add: earned_def)
qed

text \<open>Calls one after the other, each made only when it is admitted, and each successful.\<close>

fun guarded_calls :: "nat list \<Rightarrow> breaker \<Rightarrow> breaker" where
  "guarded_calls [] b = b"
| "guarded_calls (now # ticks) b =
     (case can_execute now b of
        (Inr _, b) \<Rightarrow> guarded_calls ticks (record_success now b)
      | (Inl _, b) \<Rightarrow> guarded_calls ticks b)"

lemma guarded_calls_append: "guarded_calls (xs @ ys) b = guarded_calls ys (guarded_calls xs b)"
  by (induction xs b rule: guarded_calls.induct) (auto split: prod.split sum.split)

definition recovering :: "nat \<Rightarrow> nat \<Rightarrow> nat \<Rightarrow> breaker \<Rightarrow> bool" where
  "recovering k T M b \<longleftrightarrow>
     (if T \<le> min k (M + 1) then cb_state b = Closed
      else cb_state b = HalfOpen \<and> unat (cb_successes b) = min k (M + 1) \<and> unat (cb_half_open_requests b) = k - 1)"

lemma recovering_step:
  assumes "recovering k T M b" and "1 \<le> k" and "k < 2 ^ 32" and "T < 2 ^ 32"
    and "unat (bc_success_threshold (cb_config b)) = T" and "unat (bc_half_open_max_requests (cb_config b)) = M"
  shows "recovering (k + 1) T M (guarded_calls [now] b)" "cb_config (guarded_calls [now] b) = cb_config b"
proof -
  show "cb_config (guarded_calls [now] b) = cb_config b"
    by (auto simp: can_execute_def breaker_defs split: circuit_state.split option.split)
  show "recovering (k + 1) T M (guarded_calls [now] b)"
  proof (cases "T \<le> min k (M + 1)")
    case True
    then show ?thesis using assms(1) by (auto simp: recovering_def can_execute_def record_success_def)
  next
    case False
    then have h: "cb_state b = HalfOpen" "unat (cb_successes b) = min k (M + 1)" "unat (cb_half_open_requests b) = k - 1"
      using assms(1) by (simp_all add: recovering_def)
    have req: "unat (cb_half_open_requests b + 1) = k" using h(3) assms(2,3) by (simp add: unat_word_ariths)
    have suc: "unat (cb_successes b + 1) = min k (M + 1) + 1"
    proof -
      have "min k (M + 1) + 1 < 2 ^ 32" using False assms(4) by linarith
      then show ?thesis using h(2) by (simp add: unat_word_ariths)
    qed
    show ?thesis
    proof (cases "k \<le> M")
      case True
      then have "cb_half_open_requests b < bc_half_open_max_requests (cb_config b)"
        using h(3) assms(2,6) by (simp add: word_less_nat_alt)
      then show ?thesis
        using h False True req suc assms(2,5) by (auto simp: recovering_def can_execute_def breaker_defs word_le_nat_alt)
    next
      case over: False
      then have "\<not> cb_half_open_requests b < bc_half_open_max_requests (cb_config b)"
        using h(3) assms(2,6) by (simp add: word_less_nat_alt)
      then show ?thesis
        using h False over req by (auto simp: recovering_def can_execute_def breaker_defs)
    qed
  qed
qed

lemma recovering_run:
  assumes "recovering k T M b" and "1 \<le> k" and "k + length ticks \<le> 2 ^ 32" and "T < 2 ^ 32"
    and "unat (bc_success_threshold (cb_config b)) = T" and "unat (bc_half_open_max_requests (cb_config b)) = M"
  shows "recovering (k + length ticks) T M (guarded_calls ticks b)"
  using assms
proof (induction ticks arbitrary: k b)
  case (Cons now ticks)
  have "k < 2 ^ 32" using Cons.prems(3) by simp
  note next_state = recovering_step [OF Cons.prems(1,2) this Cons.prems(4-6), of now]
  have "recovering (k + 1 + length ticks) T M (guarded_calls ticks (guarded_calls [now] b))"
    by (rule Cons.IH) (use Cons.prems next_state in auto)
  then show ?case using guarded_calls_append [of "[now]" ticks b] by simp
qed simp

text \<open>
  C26: once the cooldown of an open circuit is over, successful calls made one after the other close
  it exactly when there are as many as the configuration asks for and it admits that many, the call
  that ended the cooldown and the probes. A configuration that asks for more never closes.
\<close>

theorem recovers_iff:
  assumes "cb_state b = Open" and "cb_opened_at b = Some since" and "since + bc_open_duration (cb_config b) \<le> now"
    and "length ticks < 2 ^ 32"
  shows "cb_state (guarded_calls (now # ticks) b) = Closed \<longleftrightarrow>
    unat (bc_success_threshold (cb_config b)) \<le> min (1 + length ticks) (1 + unat (bc_half_open_max_requests (cb_config b)))"
proof -
  let ?T = "unat (bc_success_threshold (cb_config b))" and ?M = "unat (bc_half_open_max_requests (cb_config b))"
  let ?b = "guarded_calls [now] b"
  have first: "recovering 1 ?T ?M ?b" "cb_config ?b = cb_config b"
    using assms(1-3) by (auto simp: recovering_def can_execute_def breaker_defs word_le_nat_alt)
  have "?T < 2 ^ 32" by (rule order_less_le_trans [OF unsigned_less]) simp
  then have "recovering (1 + length ticks) ?T ?M (guarded_calls ticks ?b)"
    by (intro recovering_run) (use first assms(4) in auto)
  moreover have "guarded_calls (now # ticks) b = guarded_calls ticks ?b"
    using guarded_calls_append [of "[now]" ticks b] by simp
  ultimately show ?thesis by (auto simp: recovering_def split: if_splits)
qed

section \<open>Samples\<close>

definition tripped :: "breaker_config \<Rightarrow> breaker" where
  "tripped config = force_open 0 ''down'' (breaker_new 0 ''p'' config)"

lemma tripped_open: "cb_state (tripped config) = Open" "cb_opened_at (tripped config) = Some 0" "cb_config (tripped config) = config"
  by (simp_all add: tripped_def force_open_def breaker_new_def)

lemma tripped_run: "breaker_run (alone (breaker_new 0 ''p'' config)) [(0, ForcedOpen ''down'')] (alone (tripped config))"
  using run_one [OF breaker_step.force_open [of 0 "alone (breaker_new 0 ''p'' config)" "''down''"]]
  by (simp add: alone_def tripped_def)

theorem breaker_reachable_witness:
  "(cb_opened_at (sy_breaker (alone (tripped aggressive))) = None) = (cb_state (sy_breaker (alone (tripped aggressive))) = Closed)"
  using breaker_reachable [OF tripped_run [of aggressive]] by blast

theorem open_circuit_refuses_witness:
  "\<exists>evs s. breaker_run (alone (tripped aggressive)) (evs @ [(14999, Refused 1)]) s \<and> Admitted \<notin> snd ` set (evs @ [(14999, Refused 1)])
     \<and> cb_state (sy_breaker s) = Open"
proof -
  have "can_execute 14999 (tripped aggressive) = (Inl 1, tripped aggressive)"
    by (simp add: can_execute_def tripped_open aggressive_def from_secs_def)
  then obtain evs where evs: "breaker_run (alone (tripped aggressive)) (evs @ [(14999, Refused 1)]) (alone (tripped aggressive))"
    "set evs \<subseteq> {(14999, Arrived), (14999, CooldownOver)}" using can_execute_is_run by fastforce
  have "Admitted \<notin> snd ` set (evs @ [(14999, Refused 1)]) \<and> cb_state (sy_breaker (alone (tripped aggressive))) = Open"
    by (rule open_circuit_refuses [OF evs(1) tripped_open(1,2)])
      (use evs(2) in \<open>auto simp: tripped_open aggressive_def from_secs_def\<close>)
  then show ?thesis using evs(1) by blast
qed

lemma aggressive_recovers:
  "\<exists>evs s. breaker_run (alone (tripped aggressive)) evs s \<and> (\<forall>(now, e) \<in> set evs. e \<noteq> ForcedClosed)
     \<and> cb_state (sy_breaker s) = Closed"
proof -
  let ?b = "transition_to_half_open 15000 (tripped aggressive)"
  have "can_execute 15000 (tripped aggressive) = (Inr (), ?b)"
    by (simp add: can_execute_def tripped_open aggressive_def from_secs_def)
  then obtain evs where evs: "breaker_run (alone (tripped aggressive)) (evs @ [(15000, Admitted)]) (alone ?b)"
    "set evs \<subseteq> {(15000, Arrived), (15000, CooldownOver)}" using can_execute_is_run by fastforce
  let ?s = "(alone ?b)\<lparr>sy_breaker := record_success 15001 ?b\<rparr>"
  let ?t = "?s\<lparr>sy_breaker := record_success 15002 (record_success 15001 ?b)\<rparr>"
  have "breaker_step 15001 (alone ?b) Succeeded ?s" "breaker_step 15002 ?s Succeeded ?t"
    using breaker_step.success [of 15001 "alone ?b"] breaker_step.success [of 15002 ?s] by (simp_all add: alone_def)
  then have "breaker_run (alone (tripped aggressive)) (((evs @ [(15000, Admitted)]) @ [(15001, Succeeded)]) @ [(15002, Succeeded)]) ?t"
    using evs(1) breaker_run.step by blast
  moreover have "cb_state (sy_breaker ?t) = Closed"
    by (simp add: transition_to_half_open_def tripped_open record_success_def aggressive_def Let_def)
  ultimately show ?thesis
    using evs(2) by (intro exI conjI) (assumption, auto)
qed

theorem closes_on_enough_successes_witness:
  "\<exists>evs s. breaker_run (alone (tripped aggressive)) evs s \<and> cb_state (sy_breaker s) = Closed \<and> 2 \<le> successes_in evs"
proof -
  obtain evs s where run: "breaker_run (alone (tripped aggressive)) evs s" "\<forall>(now, e) \<in> set evs. e \<noteq> ForcedClosed"
    "cb_state (sy_breaker s) = Closed" using aggressive_recovers by blast
  then show ?thesis
    using closes_on_enough_successes [OF run(1) tripped_open(1) run(2,3)] by (auto simp: tripped_open aggressive_def)
qed

text \<open>The default configuration asks for as many successes as it admits; the conservative one for one more.\<close>

theorem recovers_iff_witness:
  "cb_state (guarded_calls [30000, 30001, 30002] (tripped default_breaker_config)) = Closed
   \<and> cb_state (guarded_calls (60000 # replicate 1000 60000) (tripped conservative)) \<noteq> Closed"
  using recovers_iff [of "tripped default_breaker_config" 0 30000 "[30001, 30002]"]
    recovers_iff [of "tripped conservative" 0 60000 "replicate 1000 60000"]
  by (simp add: tripped_open default_breaker_config_def conservative_def from_secs_def)

end
