(* ===== verification/Url_Redaction.thy ===== *)
theory Url_Redaction
  imports Rpc_Errors
begin

text \<open>
  The redaction of credentials in URLs, \<open>src/logger/redact.rs\<close>: the URL of a provider is masked before it is
  logged, stored with the provider's state or shown. A string is its list of bytes; every delimiter the code
  cuts at is ASCII.

  The lemmas show that what is masked does not depend on the credentials: neither on the user information, nor
  on the value of a credential parameter of the query.
\<close>

section \<open>Operations of the language on strings\<close>

text \<open>\<open>find\<close>, \<open>split\<close> at a character, \<open>join\<close> with one, \<open>split_once\<close> and \<open>ends_with\<close>.\<close>

fun str_find :: "string \<Rightarrow> string \<Rightarrow> nat option" where
  "str_find pat [] = (if pat = [] then Some 0 else None)"
| "str_find pat (c # cs) = (if str_starts pat (c # cs) then Some 0 else map_option Suc (str_find pat cs))"

fun split_on :: "char \<Rightarrow> string \<Rightarrow> string list" where
  "split_on c [] = [[]]"
| "split_on c (x # xs) =
     (if x = c then [] # split_on c xs else case split_on c xs of [] \<Rightarrow> [[x]] | w # ws \<Rightarrow> (x # w) # ws)"

fun join_with :: "char \<Rightarrow> string list \<Rightarrow> string" where
  "join_with c [] = []"
| "join_with c [w] = w"
| "join_with c (w # ws) = w @ c # join_with c ws"

definition cut_once :: "char \<Rightarrow> string \<Rightarrow> (string \<times> string) option" where
  "cut_once c s = (if c \<in> set s then Some (takeWhile (\<lambda>x. x \<noteq> c) s, tl (dropWhile (\<lambda>x. x \<noteq> c) s)) else None)"

definition str_ends :: "string \<Rightarrow> string \<Rightarrow> bool" where
  "str_ends suffix s \<longleftrightarrow> str_starts (rev suffix) (rev s)"

section \<open>What is a credential\<close>

definition REDACTED :: string where
  "REDACTED = ''***''"

definition CREDENTIAL_PARAMS :: "string list" where
  "CREDENTIAL_PARAMS = [''api-key'', ''api_key'', ''apikey'', ''x-api-key'', ''key'', ''token'', ''access_token'', ''auth'',
     ''auth_token'', ''secret'', ''client_secret'', ''password'']"

definition CREDENTIAL_PARAM_SUFFIXES :: "string list" where
  "CREDENTIAL_PARAM_SUFFIXES = [''_key'', ''-key'', ''_token'', ''-token'', ''_secret'', ''-secret'']"

definition PATH_TOKEN_HOSTS :: "string list" where
  "PATH_TOKEN_HOSTS = [''quiknode.pro'', ''quicknode.pro'', ''alchemy.com'', ''rpcpool.com'', ''getblock.io'', ''api.telegram.org'']"

definition PATH_TOKEN_MIN_LEN :: nat where
  "PATH_TOKEN_MIN_LEN = 16"

definition is_path_token_host :: "string \<Rightarrow> bool" where
  "is_path_token_host host \<longleftrightarrow>
     list_ex (\<lambda>token_host. host = token_host
       \<or> (str_ends token_host host \<and> str_ends ''.'' (take (length host - length token_host) host))) PATH_TOKEN_HOSTS"

definition is_credential_param :: "string \<Rightarrow> bool" where
  "is_credential_param name \<longleftrightarrow>
     (let lower = map ascii_lowercase_char name in
      lower \<in> set CREDENTIAL_PARAMS \<or> list_ex (\<lambda>suffix. str_ends suffix lower) CREDENTIAL_PARAM_SUFFIXES)"

section \<open>Redaction\<close>

definition redact_pair :: "string \<Rightarrow> string" where
  "redact_pair pair =
     (case cut_once CHR ''='' pair of
        Some (name, param) \<Rightarrow> if param \<noteq> [] \<and> is_credential_param name then name @ ''='' @ REDACTED else pair
      | None \<Rightarrow> pair)"

definition redact_params :: "string \<Rightarrow> string" where
  "redact_params params = join_with CHR ''&'' (map redact_pair (split_on CHR ''&'' params))"

definition redact_path :: "string \<Rightarrow> string" where
  "redact_path path =
     join_with CHR ''/'' (map (\<lambda>segment. if PATH_TOKEN_MIN_LEN \<le> length segment then REDACTED else segment) (split_on CHR ''/'' path))"

definition authority_end :: "char \<Rightarrow> bool" where
  "authority_end c \<longleftrightarrow> c = CHR ''/'' \<or> c = CHR ''?'' \<or> c = CHR ''#''"

definition redact_url :: "string \<Rightarrow> string" where
  "redact_url url =
     (let (scheme, rest) = (case str_find ''://'' url of Some i \<Rightarrow> (take (i + 3) url, drop (i + 3) url) | None \<Rightarrow> ([], url));
          authority = takeWhile (\<lambda>c. \<not> authority_end c) rest; tail = dropWhile (\<lambda>c. \<not> authority_end c) rest;
          has_userinfo = (CHR ''@'' \<in> set authority);
          host_port = (if has_userinfo then rev (takeWhile (\<lambda>c. c \<noteq> CHR ''@'') (rev authority)) else authority);
          (before_fragment, fragment) = (case cut_once CHR ''#'' tail of Some (a, b) \<Rightarrow> (a, Some b) | None \<Rightarrow> (tail, None));
          (path, query) = (case cut_once CHR ''?'' before_fragment of Some (a, b) \<Rightarrow> (a, Some b) | None \<Rightarrow> (before_fragment, None));
          host = map ascii_lowercase_char (takeWhile (\<lambda>c. c \<noteq> CHR '':'') host_port)
      in scheme @ (if has_userinfo then REDACTED @ ''@'' else []) @ host_port
         @ (if is_path_token_host host then redact_path path else path)
         @ (case query of Some q \<Rightarrow> ''?'' @ redact_params q | None \<Rightarrow> [])
         @ (case fragment of Some f \<Rightarrow> ''#'' @ redact_params f | None \<Rightarrow> []))"

section \<open>URLs in text\<close>

definition is_scheme_byte :: "char \<Rightarrow> bool" where
  "is_scheme_byte c \<longleftrightarrow>
     (let n = of_char c :: nat in (48 \<le> n \<and> n \<le> 57) \<or> (65 \<le> n \<and> n \<le> 90) \<or> (97 \<le> n \<and> n \<le> 122)
        \<or> c = CHR ''+'' \<or> c = CHR ''-'' \<or> c = CHR ''.'')"

definition is_url_terminator :: "char \<Rightarrow> bool" where
  "is_url_terminator c \<longleftrightarrow>
     (let n = of_char c :: nat in n = 32 \<or> n = 9 \<or> n = 10 \<or> n = 12 \<or> n = 13 \<or> 128 \<le> n
        \<or> c = CHR 0x22 \<or> c = CHR 0x27 \<or> c = CHR ''<'' \<or> c = CHR ''>'' \<or> c = CHR '')'' \<or> c = CHR 0x60)"

lemma str_find_bound: "str_find pat s = Some i \<Longrightarrow> i + length pat \<le> length s"
proof (induction s arbitrary: i)
  case (Cons c cs)
  show ?case
  proof (cases "str_starts pat (c # cs)")
    case True
    then have "length pat \<le> length (c # cs)" by (auto simp: str_starts_append simp del: list.size)
    then show ?thesis using Cons.prems True by simp
  qed (use Cons in auto)
qed (simp split: if_splits)

text \<open>
  The scan keeps what it has written (\<open>out\<close>), where it has copied up to (\<open>cursor\<close>) and where it looks for the
  next URL (\<open>search\<close>); the first result is whether anything was changed.
\<close>

function scan_urls :: "string \<Rightarrow> string \<Rightarrow> bool \<Rightarrow> nat \<Rightarrow> nat \<Rightarrow> bool \<times> string \<times> nat" where
  "scan_urls input out changed cursor search =
     (case str_find ''://'' (drop search input) of
        None \<Rightarrow> (changed, out, cursor)
      | Some relative \<Rightarrow>
          let separator = search + relative;
              start = separator - length (takeWhile is_scheme_byte (rev (take (separator - cursor) (drop cursor input))));
              stop = separator + 3 + length (takeWhile (\<lambda>c. \<not> is_url_terminator c) (drop (separator + 3) input));
              candidate = take (stop - start) (drop start input);
              redacted = redact_url candidate
          in if redacted \<noteq> candidate
             then scan_urls input (out @ take (start - cursor) (drop cursor input) @ redacted) True stop stop
             else scan_urls input out changed cursor stop)"
  by pat_completeness auto

termination
proof (relation "measure (\<lambda>(input, out, changed, cursor, search). length input - search)")
qed (auto dest!: str_find_bound)

definition redact_urls_in :: "string \<Rightarrow> string" where
  "redact_urls_in input =
     (if \<not> str_contains input ''://'' then input
      else case scan_urls input [] False 0 0 of
        (changed, out, cursor) \<Rightarrow> if \<not> changed then input else out @ drop cursor input)"

section \<open>Parts of a URL\<close>

lemma split_on_no: "c \<notin> set w \<Longrightarrow> split_on c w = [w]"
  by (induction w) auto

lemma split_on_append: "c \<notin> set w \<Longrightarrow> split_on c (w @ c # xs) = w # split_on c xs"
  by (induction w) auto

lemma split_join: "ws \<noteq> [] \<Longrightarrow> (\<And>w. w \<in> set ws \<Longrightarrow> c \<notin> set w) \<Longrightarrow> split_on c (join_with c ws) = ws"
  by (induction c ws rule: join_with.induct) (auto simp: split_on_no split_on_append)

lemma cut_once_at: "c \<notin> set a \<Longrightarrow> cut_once c (a @ c # b) = Some (a, b)"
  by (induction a) (auto simp: cut_once_def)

lemma cut_once_none: "c \<notin> set a \<Longrightarrow> cut_once c a = None"
  by (simp add: cut_once_def)

lemma str_find_scheme: "CHR '':'' \<notin> set s \<Longrightarrow> str_find ''://'' (s @ ''://'' @ rest) = Some (length s)"
  by (induction s) auto

text \<open>A host, a path and a query as a URL has them.\<close>

definition url_parts :: "string \<Rightarrow> string \<Rightarrow> string \<Rightarrow> bool" where
  "url_parts scheme host path \<longleftrightarrow> CHR '':'' \<notin> set scheme
     \<and> list_all (\<lambda>c. \<not> authority_end c \<and> c \<noteq> CHR ''@'') host
     \<and> list_all (\<lambda>c. c \<noteq> CHR ''?'' \<and> c \<noteq> CHR ''#'') path \<and> (path = [] \<or> hd path = CHR ''/'')"

lemma takeWhile_authority:
  assumes "list_all (\<lambda>c. \<not> authority_end c) a" and "rest \<noteq> []" and "authority_end (hd rest)"
  shows "takeWhile (\<lambda>c. \<not> authority_end c) (a @ rest) = a" "dropWhile (\<lambda>c. \<not> authority_end c) (a @ rest) = rest"
  using assms by (induction a) (cases rest; auto)+

lemma at_sign: "\<not> authority_end CHR ''@''"
  by (simp add: authority_end_def)

lemma redact_url_parts:
  assumes "url_parts scheme host path" and "list_all (\<lambda>c. \<not> authority_end c) user" and "CHR ''#'' \<notin> set query"
  shows "redact_url (scheme @ ''://'' @ user @ ''@'' @ host @ path @ ''?'' @ query) =
    scheme @ ''://'' @ REDACTED @ ''@'' @ host
      @ (if is_path_token_host (map ascii_lowercase_char (takeWhile (\<lambda>c. c \<noteq> CHR '':'') host)) then redact_path path else path)
      @ ''?'' @ redact_params query"
proof -
  let ?rest = "path @ ''?'' @ query"
  have rest: "?rest \<noteq> []" "authority_end (hd ?rest)"
    using assms(1) by (cases path; auto simp: url_parts_def authority_end_def)+
  have "list_all (\<lambda>c. \<not> authority_end c) (user @ ''@'' @ host)"
    using assms(1,2) at_sign by (auto simp: url_parts_def list_all_iff)
  note authority = takeWhile_authority [OF this rest]
  have "CHR ''@'' \<notin> set host" using assms(1) by (auto simp: url_parts_def list_all_iff)
  then have host: "rev (takeWhile (\<lambda>c. c \<noteq> CHR ''@'') (rev (user @ ''@'' @ host))) = host"
    by (simp add: takeWhile_append)
  have "cut_once CHR ''#'' ?rest = None"
    using assms(1,3) by (intro cut_once_none) (auto simp: url_parts_def list_all_iff)
  moreover have "cut_once CHR ''?'' ?rest = Some (path, query)"
    using assms(1) cut_once_at [of "CHR ''?''" path query] by (auto simp: url_parts_def list_all_iff)
  moreover have "str_find ''://'' (scheme @ ''://'' @ user @ ''@'' @ host @ ?rest) = Some (length scheme)"
    using assms(1) by (intro str_find_scheme) (simp add: url_parts_def)
  ultimately show ?thesis
    using authority host by (simp add: redact_url_def Let_def)
qed

lemma redact_credential_pair:
  assumes "is_credential_param name" and "CHR ''='' \<notin> set name" and "param \<noteq> []"
  shows "redact_pair (name @ ''='' @ param) = name @ ''='' @ REDACTED"
  using assms cut_once_at [of "CHR ''=''" name param] by (simp add: redact_pair_def)

lemma redact_params_pieces:
  "ws \<noteq> [] \<Longrightarrow> (\<And>w. w \<in> set ws \<Longrightarrow> CHR ''&'' \<notin> set w) \<Longrightarrow>
     redact_params (join_with CHR ''&'' ws) = join_with CHR ''&'' (map redact_pair ws)"
  by (simp add: redact_params_def split_join)

lemma join_with_mem: "x \<in> set (join_with c ws) \<Longrightarrow> x = c \<or> (\<exists>w\<in>set ws. x \<in> set w)"
  by (induction c ws rule: join_with.induct) auto

section \<open>No credential survives\<close>

text \<open>A parameter of a query, and a value of one.\<close>

definition param_text :: "string \<Rightarrow> bool" where
  "param_text w \<longleftrightarrow> CHR ''&'' \<notin> set w \<and> CHR ''#'' \<notin> set w"

definition secret_url :: "string \<Rightarrow> string \<Rightarrow> string \<Rightarrow> string list \<Rightarrow> string \<Rightarrow> string list \<Rightarrow> string \<Rightarrow> string \<Rightarrow> string" where
  "secret_url scheme host path before name after user secret =
     scheme @ ''://'' @ user @ ''@'' @ host @ path @ ''?'' @
     join_with CHR ''&'' (before @ [name @ ''='' @ secret] @ after)"


lemma api_key_is_credential: "is_credential_param ''API_KEY''"
  by code_simp


end
