(* ===== verification/Provider_Selector.thy ===== *)
theory Provider_Selector
  imports Rate_Limiter Circuit_Breaker Url_Redaction
begin

text \<open>
  The configured node providers and the choice among them: \<open>src/rpc/provider/\<close> (configuration,
  detection of the kind, identifiers), the runtime state of a provider (\<open>src/rpc/types.rs\<close>) and the
  selectors of \<open>src/rpc/selector.rs\<close>. The hash function of the standard library is a parameter. Strings
  are ASCII where the code changes their case.

  The interface of a selector is the locale \<open>provider_selector\<close>; the lemmas show what a caller gets that
  keeps asking a selector while excluding what it has tried.
\<close>

section \<open>Providers\<close>

record provider_config =
  pc_id :: string
  pc_url :: string
  pc_kind :: provider_kind
  pc_priority :: u8
  pc_rate_limit :: u32
  pc_enabled :: bool
  pc_timeout_secs :: u64
  pc_max_retries :: u32
  pc_weight :: u32

fun kind_display :: "provider_kind \<Rightarrow> string" where
  "kind_display Helius = ''Helius''"
| "kind_display QuickNode = ''QuickNode''"
| "kind_display Triton = ''Triton''"
| "kind_display Alchemy = ''Alchemy''"
| "kind_display GetBlock = ''GetBlock''"
| "kind_display Shyft = ''Shyft''"
| "kind_display Public = ''Public''"
| "kind_display UnknownKind = ''Unknown''"

definition detect_provider_kind :: "string \<Rightarrow> provider_kind" where
  "detect_provider_kind url =
     (let lower = map ascii_lowercase_char url in
      if str_contains lower ''helius'' then Helius
      else if str_contains lower ''quiknode'' \<or> str_contains lower ''quicknode'' then QuickNode
      else if str_contains lower ''triton'' \<or> str_contains lower ''rpcpool'' then Triton
      else if str_contains lower ''alchemy'' then Alchemy
      else if str_contains lower ''getblock'' then GetBlock
      else if str_contains lower ''shyft'' then Shyft
      else if str_contains lower ''api.mainnet-beta.solana.com'' \<or> str_contains lower ''api.devnet.solana.com''
        \<or> str_contains lower ''api.testnet.solana.com'' then Public
      else UnknownKind)"

text \<open>The format directives \<open>{:x}\<close> and \<open>trim\<close> of the language.\<close>

definition hex_digit :: "nat \<Rightarrow> char" where
  "hex_digit n = ''0123456789abcdef'' ! (n mod 16)"

fun hex :: "nat \<Rightarrow> string" where
  "hex n = (if n < 16 then [hex_digit n] else hex (n div 16) @ [hex_digit n])"

declare hex.simps [simp del]

definition is_space :: "char \<Rightarrow> bool" where
  "is_space c \<longleftrightarrow> (let n = of_char c :: nat in n = 32 \<or> (9 \<le> n \<and> n \<le> 13))"

definition trim :: "string \<Rightarrow> string" where
  "trim s = rev (dropWhile is_space (rev (dropWhile is_space s)))"

definition generate_provider_id :: "(string \<Rightarrow> u64) \<Rightarrow> string \<Rightarrow> string" where
  "generate_provider_id hash_of url =
     (let hash = hash_of url; kind = detect_provider_kind url in
      map ascii_lowercase_char (kind_display kind) @ ''_'' @ hex (unat (hash AND 0xFFFF)))"

definition derive_websocket_url :: "string \<Rightarrow> string option" where
  "derive_websocket_url http_url =
     (let url = trim http_url in
      if str_starts ''wss://'' url \<or> str_starts ''ws://'' url then Some url
      else if str_starts ''https://'' url then Some (''wss://'' @ drop (length ''https://'') url)
      else if str_starts ''http://'' url then Some (''ws://'' @ drop (length ''http://'') url)
      else None)"

definition from_url :: "(string \<Rightarrow> u64) \<Rightarrow> string \<Rightarrow> provider_config" where
  "from_url hash_of url =
     (let kind = detect_provider_kind url; i = generate_provider_id hash_of url in
      \<lparr>pc_id = i, pc_url = url, pc_kind = kind, pc_priority = 100, pc_rate_limit = 0, pc_enabled = True,
       pc_timeout_secs = 30, pc_max_retries = 3, pc_weight = 100\<rparr>)"

definition from_url_with_priority :: "(string \<Rightarrow> u64) \<Rightarrow> string \<Rightarrow> u8 \<Rightarrow> provider_config" where
  "from_url_with_priority hash_of url priority = (from_url hash_of url)\<lparr>pc_priority := priority\<rparr>"

definition effective_rate_limit :: "provider_config \<Rightarrow> u32" where
  "effective_rate_limit p = (if 0 < pc_rate_limit p then pc_rate_limit p else default_rate_limit (pc_kind p))"

definition default_provider_config :: provider_config where
  "default_provider_config = \<lparr>pc_id = ''default'', pc_url = [], pc_kind = UnknownKind, pc_priority = 100,
     pc_rate_limit = 0, pc_enabled = True, pc_timeout_secs = 30, pc_max_retries = 3, pc_weight = 100\<rparr>"

section \<open>The runtime state of a provider\<close>

record provider_state =
  ps_id :: string
  ps_url_masked :: string
  ps_kind :: provider_kind
  ps_priority :: u8
  ps_enabled :: bool
  ps_circuit_state :: circuit_state
  ps_consecutive_failures :: u32
  ps_consecutive_successes :: u32
  ps_last_success :: "nat option"
  ps_last_failure :: "nat option"
  ps_last_error :: "string option"
  ps_avg_latency_ms :: flt
  ps_total_calls :: u64
  ps_total_errors :: u64
  ps_current_rate_limit :: u32
  ps_base_rate_limit :: u32

type_synonym provider_states = "(string \<times> provider_state) list"

definition provider_state_new :: "string \<Rightarrow> string \<Rightarrow> provider_kind \<Rightarrow> u8 \<Rightarrow> provider_state" where
  "provider_state_new i url kind priority =
     (let rate_limit = default_rate_limit kind in
      \<lparr>ps_id = i, ps_url_masked = redact_url url, ps_kind = kind, ps_priority = priority, ps_enabled = True,
       ps_circuit_state = Closed, ps_consecutive_failures = 0, ps_consecutive_successes = 0, ps_last_success = None,
       ps_last_failure = None, ps_last_error = None, ps_avg_latency_ms = Fin 0, ps_total_calls = 0, ps_total_errors = 0,
       ps_current_rate_limit = rate_limit, ps_base_rate_limit = rate_limit\<rparr>)"

definition success_rate :: "provider_state \<Rightarrow> flt" where
  "success_rate s =
     (if ps_total_calls s = 0 then Fin 100
      else flt_div (flt_mul (Fin 100) (Fin (real (unat (ps_total_calls s - ps_total_errors s))))) (Fin (real (unat (ps_total_calls s)))))"

definition is_healthy :: "provider_state \<Rightarrow> bool" where
  "is_healthy s \<longleftrightarrow> ps_enabled s \<and> ps_circuit_state s = Closed"

section \<open>Selection strategies\<close>

datatype selection_strategy = RoundRobin | Priority | LatencyBased | Adaptive

definition strategy_from_str :: "string \<Rightarrow> selection_strategy" where
  "strategy_from_str s =
     (let lower = map ascii_lowercase_char s in
      if lower \<in> {''round_robin'', ''roundrobin''} then RoundRobin
      else if lower = ''priority'' then Priority
      else if lower \<in> {''latency'', ''latency_based''} then LatencyBased
      else Adaptive)"

fun strategy_display :: "selection_strategy \<Rightarrow> string" where
  "strategy_display RoundRobin = ''round_robin''"
| "strategy_display Priority = ''priority''"
| "strategy_display LatencyBased = ''latency_based''"
| "strategy_display Adaptive = ''adaptive''"

text \<open>
  \<open>Iterator::min_by\<close> keeps the first of the least elements and \<open>max_by\<close> the last of the greatest; the
  comparison says whether its first argument is the greater. Floats that do not compare are equal.
\<close>

fun min_by :: "('a \<Rightarrow> 'a \<Rightarrow> bool) \<Rightarrow> 'a list \<Rightarrow> 'a option" where
  "min_by gt [] = None"
| "min_by gt (x # xs) = Some (fold (\<lambda>y x. if gt x y then y else x) xs x)"

fun max_by :: "('a \<Rightarrow> 'a \<Rightarrow> bool) \<Rightarrow> 'a list \<Rightarrow> 'a option" where
  "max_by gt [] = None"
| "max_by gt (x # xs) = Some (fold (\<lambda>y x. if gt x y then x else y) xs x)"

definition F64_MAX :: flt where
  "F64_MAX = Fin ((2 - 1 / 2 ^ 52) * 2 ^ 1023)"

definition flt_min :: "flt \<Rightarrow> flt \<Rightarrow> flt" where
  "flt_min a b = (if a = NaN then b else if b = NaN then a else if flt_lt b a then b else a)"

definition selectable :: "provider_states \<Rightarrow> string list \<Rightarrow> provider_config \<Rightarrow> bool" where
  "selectable states excluded p \<longleftrightarrow>
     pc_enabled p \<and> pc_id p \<notin> set excluded
     \<and> (case map_of states (pc_id p) of None \<Rightarrow> True | Some s \<Rightarrow> is_healthy s)"

definition latency_of :: "provider_states \<Rightarrow> provider_config \<Rightarrow> flt" where
  "latency_of states p = unwrap_or (map_option ps_avg_latency_ms (map_of states (pc_id p))) F64_MAX"

definition score :: "provider_state option \<Rightarrow> u8 \<Rightarrow> flt" where
  "score state priority =
     (case state of
        None \<Rightarrow> Fin 50
      | Some s \<Rightarrow>
          let success_score = flt_mul (success_rate s) (Fin (7 / 10));
              latency_score = (if flt_lt (Fin 0) (ps_avg_latency_ms s)
                then flt_min (flt_div (Fin 1000) (ps_avg_latency_ms s)) (Fin 20) else Fin 20);
              priority_score = flt_sub (Fin 10) (flt_div (Fin (real (unat priority))) (Fin (255 / 10)))
          in flt_add (flt_add success_score latency_score) priority_score)"

section \<open>The selectors\<close>

definition round_robin_select ::
  "u64 \<Rightarrow> provider_config list \<Rightarrow> provider_states \<Rightarrow> string list \<Rightarrow> provider_config option \<times> u64" where
  "round_robin_select index providers states excluded =
     (let available = filter (selectable states excluded) providers in
      if available = [] then (find (\<lambda>p. pc_enabled p \<and> pc_id p \<notin> set excluded) providers, index)
      else let idx = unat index mod length available in (Some (available ! idx), index + 1))"

definition priority_select :: "provider_config list \<Rightarrow> provider_states \<Rightarrow> string list \<Rightarrow> provider_config option" where
  "priority_select providers states excluded =
     min_by (\<lambda>a b. pc_priority b < pc_priority a) (filter (selectable states excluded) providers)"

definition latency_select :: "provider_config list \<Rightarrow> provider_states \<Rightarrow> string list \<Rightarrow> provider_config option" where
  "latency_select providers states excluded =
     min_by (\<lambda>a b. flt_lt (latency_of states b) (latency_of states a)) (filter (selectable states excluded) providers)"

definition adaptive_select :: "provider_config list \<Rightarrow> provider_states \<Rightarrow> string list \<Rightarrow> provider_config option" where
  "adaptive_select providers states excluded =
     max_by (\<lambda>a b. flt_lt (score (map_of states (pc_id b)) (pc_priority b)) (score (map_of states (pc_id a)) (pc_priority a)))
       (filter (selectable states excluded) providers)"

text \<open>The selector that \<open>create_selector\<close> makes for a strategy, with the round-robin counter as its state.\<close>

fun create_selector ::
  "selection_strategy \<Rightarrow> u64 \<Rightarrow> provider_config list \<Rightarrow> provider_states \<Rightarrow> string list \<Rightarrow> provider_config option \<times> u64" where
  "create_selector RoundRobin index providers states excluded = round_robin_select index providers states excluded"
| "create_selector Priority index providers states excluded = (priority_select providers states excluded, index)"
| "create_selector LatencyBased index providers states excluded = (latency_select providers states excluded, index)"
| "create_selector Adaptive index providers states excluded = (adaptive_select providers states excluded, index)"

text \<open>A caller that asks a selector again and again, excluding what it was given.\<close>

primrec failover ::
  "('st \<Rightarrow> provider_config list \<Rightarrow> provider_states \<Rightarrow> string list \<Rightarrow> provider_config option \<times> 'st) \<Rightarrow> nat \<Rightarrow> 'st \<Rightarrow>
   provider_config list \<Rightarrow> provider_states \<Rightarrow> string list \<Rightarrow> provider_config list" where
  "failover select 0 st providers states excluded = []"
| "failover select (Suc n) st providers states excluded =
     (case select st providers states excluded of
        (None, _) \<Rightarrow> []
      | (Some p, st) \<Rightarrow> p # failover select n st providers states (pc_id p # excluded))"

section \<open>Least and greatest elements\<close>

lemma fold_choice_mem: "fold (\<lambda>y x. if P x y then y else x) xs x \<in> insert x (set xs)"
  by (induction xs arbitrary: x) (auto split: if_splits)

lemma min_by_mem: "min_by g xs = Some x \<Longrightarrow> x \<in> set xs"
  by (cases xs) (use fold_choice_mem [of g] in fastforce)+

lemma max_by_as_min_by: "max_by g xs = min_by (\<lambda>a b. \<not> g a b) xs"
  by (cases xs) (auto intro!: arg_cong [where f = "\<lambda>f. fold f _ _"] simp: fun_eq_iff)

lemma min_by_eq_None [simp]: "min_by g xs = None \<longleftrightarrow> xs = []"
  by (cases xs) simp_all

lemma fold_keeps: "\<forall>y\<in>set xs. \<not> g x y \<Longrightarrow> fold (\<lambda>y x. if g x y then y else x) xs x = x"
  by (induction xs) simp_all

section \<open>The interface of a selector\<close>

locale provider_selector =
  fixes select :: "'st \<Rightarrow> provider_config list \<Rightarrow> provider_states \<Rightarrow> string list \<Rightarrow> provider_config option \<times> 'st"
  assumes select_sound: "select st providers states excluded = (Some p, st') \<Longrightarrow>
      p \<in> set providers \<and> pc_enabled p \<and> pc_id p \<notin> set excluded"
    and select_complete: "q \<in> set providers \<Longrightarrow> selectable states excluded q \<Longrightarrow>
      \<exists>p st'. select st providers states excluded = (Some p, st') \<and> selectable states excluded p"
begin

lemma failover_sound:
  "p \<in> set (failover select n st providers states excluded) \<Longrightarrow>
     p \<in> set providers \<and> pc_enabled p \<and> pc_id p \<notin> set excluded"
proof (induction n arbitrary: st excluded)
  case (Suc n)
  obtain r st' where r: "select st providers states excluded = (r, st')" by (cases "select st providers states excluded")
  then show ?case using Suc select_sound [of st providers states excluded] by (cases r) fastforce+
qed simp

lemma failover_distinct: "distinct (map pc_id (failover select n st providers states excluded))"
proof (induction n arbitrary: st excluded)
  case (Suc n)
  obtain r st' where r: "select st providers states excluded = (r, st')" by (cases "select st providers states excluded")
  show ?case
  proof (cases r)
    case (Some p)
    have "pc_id p \<notin> pc_id ` set (failover select n st' providers states (pc_id p # excluded))"
      using failover_sound by fastforce
    then show ?thesis using r Some Suc.IH by simp
  qed (simp add: r)
qed simp

lemma failover_covers:
  assumes "q \<in> set providers" and "selectable states excluded q"
    and "card (pc_id ` {p \<in> set providers. selectable states excluded p}) \<le> n"
  shows "pc_id q \<in> pc_id ` set (failover select n st providers states excluded)"
  using assms
proof (induction n arbitrary: st excluded)
  case 0
  then show ?case by auto
next
  case (Suc n)
  let ?S = "\<lambda>excluded. {p \<in> set providers. selectable states excluded p}"
  obtain p st' where p: "select st providers states excluded = (Some p, st')" "selectable states excluded p"
    using select_complete [OF Suc.prems(1,2)] by blast
  show ?case
  proof (cases "pc_id q = pc_id p")
    case False
    have "pc_id ` ?S (pc_id p # excluded) = pc_id ` ?S excluded - {pc_id p}"
      by (auto simp: selectable_def)
    moreover have "pc_id p \<in> pc_id ` ?S excluded" using p select_sound [OF p(1)] by auto
    ultimately have "card (pc_id ` ?S (pc_id p # excluded)) \<le> n" using Suc.prems(3) by simp
    moreover have "selectable states (pc_id p # excluded) q" using Suc.prems(2) False by (simp add: selectable_def)
    ultimately show ?thesis using Suc.IH [OF Suc.prems(1)] p(1) by auto
  qed (use p in auto)
qed

end

section \<open>The selectors implement the interface\<close>

lemma pick_available:
  assumes "min_by g (filter (selectable states excluded) providers) = Some p"
  shows "p \<in> set providers" "selectable states excluded p"
  using min_by_mem [OF assms] by simp_all

lemma create_selector_None:
  "fst (create_selector strategy index providers states excluded) = None \<Longrightarrow>
     filter (selectable states excluded) providers = []"
  by (cases strategy)
    (auto simp: round_robin_select_def priority_select_def latency_select_def adaptive_select_def max_by_as_min_by Let_def
      split: if_splits)

lemma cyclic_mem: "xs \<noteq> [] \<Longrightarrow> xs ! (n mod length xs) \<in> set xs"
  by (intro nth_mem) simp

lemma create_selector_Some:
  assumes "create_selector strategy index providers states excluded = (Some p, index')"
  shows "p \<in> set providers" "pc_enabled p" "pc_id p \<notin> set excluded"
    "filter (selectable states excluded) providers = [] \<or> selectable states excluded p"
proof -
  let ?A = "filter (selectable states excluded) providers"
  have "?A \<noteq> [] \<Longrightarrow> ?A ! (unat index mod length ?A) \<in> set ?A" by (rule cyclic_mem)
  then have "p \<in> set ?A \<or> ?A = [] \<and> find (\<lambda>p. pc_enabled p \<and> pc_id p \<notin> set excluded) providers = Some p"
    using assms
    by (cases strategy)
      (auto simp: round_robin_select_def priority_select_def latency_select_def adaptive_select_def max_by_as_min_by Let_def
        dest: pick_available split: if_splits)
  then show "p \<in> set providers" "pc_enabled p" "pc_id p \<notin> set excluded" "?A = [] \<or> selectable states excluded p"
    by (auto simp: selectable_def find_Some_iff)
qed

interpretation selector: provider_selector "create_selector strategy" for strategy
proof unfold_locales
  fix st providers states excluded p st'
  assume "create_selector strategy st providers states excluded = (Some p, st')"
  then show "p \<in> set providers \<and> pc_enabled p \<and> pc_id p \<notin> set excluded" by (simp add: create_selector_Some(1-3))
next
  fix q providers states excluded st
  assume q: "q \<in> set providers" "selectable states excluded q"
  then have some: "filter (selectable states excluded) providers \<noteq> []" by (auto simp: filter_empty_conv)
  obtain r st' where r: "create_selector strategy st providers states excluded = (r, st')"
    by (cases "create_selector strategy st providers states excluded")
  then obtain p where "r = Some p" using create_selector_None [of strategy st providers states excluded] some by (cases r) simp_all
  then show "\<exists>p st'. create_selector strategy st providers states excluded = (Some p, st') \<and> selectable states excluded p"
    using r create_selector_Some(4) [of strategy st providers states excluded p st'] some by simp
qed

section \<open>What a caller gets\<close>

text \<open>C25: Whatever the strategy, a caller that excludes what it has tried is given enabled providers only, none of
  them twice, and every healthy provider among them.\<close>

theorem failover_exhaustive:
  "let tried = failover (create_selector strategy) (length providers) index providers states [] in
     distinct (map pc_id tried) \<and> set tried \<subseteq> {p \<in> set providers. pc_enabled p} \<and>
     pc_id ` {p \<in> set providers. selectable states [] p} \<subseteq> pc_id ` set tried"
proof -
  let ?tried = "failover (create_selector strategy) (length providers) index providers states []"
  have card: "card (pc_id ` {p \<in> set providers. selectable states [] p}) \<le> length providers"
    by (rule order_trans [OF card_image_le order_trans [OF card_mono card_length]]) auto
  have "pc_id ` {p \<in> set providers. selectable states [] p} \<subseteq> pc_id ` set ?tried"
  proof
    fix i assume "i \<in> pc_id ` {p \<in> set providers. selectable states [] p}"
    then obtain q where "i = pc_id q" "q \<in> set providers" "selectable states [] q" by auto
    then show "i \<in> pc_id ` set ?tried" using selector.failover_covers [OF _ _ card] by simp
  qed
  moreover have "set ?tried \<subseteq> {p \<in> set providers. pc_enabled p}"
    by (rule subsetI) (drule selector.failover_sound, simp)
  ultimately show ?thesis by (simp add: Let_def selector.failover_distinct del: set_map)
qed

text \<open>Round robin is fair: over as many calls as there are healthy providers, each of them is selected exactly
  once, in the configured order starting from the counter.\<close>

theorem round_robin_fair:
  assumes "available = filter (selectable states excluded) providers" and "available \<noteq> []"
    and "unat index + length available < 2 ^ 64"
  shows "map (\<lambda>k. round_robin_select (index + of_nat k) providers states excluded) [0..<length available] =
    zip (map Some (rotate (unat index) available)) (map (\<lambda>k. index + of_nat (Suc k)) [0..<length available])"
proof (rule nth_equalityI)
  fix k assume k: "k < length (map (\<lambda>k. round_robin_select (index + of_nat k) providers states excluded) [0..<length available])"
  have "unat (index + of_nat k) = unat index + k" using k assms(3) by (simp add: unat_word_ariths unat_of_nat)
  then show "map (\<lambda>k. round_robin_select (index + of_nat k) providers states excluded) [0..<length available] ! k =
      zip (map Some (rotate (unat index) available)) (map (\<lambda>k. index + of_nat (Suc k)) [0..<length available]) ! k"
    using k assms(1,2) by (simp add: round_robin_select_def Let_def nth_rotate add.assoc add.commute)
qed simp

theorem round_robin_fair_witness:
  "let p = default_provider_config; q = p\<lparr>pc_id := ''q''\<rparr>; r = p\<lparr>pc_id := ''r'', pc_enabled := False\<rparr> in
   map (\<lambda>k. round_robin_select (3 + of_nat k) [p, q, r] [] []) [0..<length [p, q]] =
     zip (map Some (rotate (unat (3 :: u64)) [p, q])) (map (\<lambda>k. 3 + of_nat (Suc k)) [0..<length [p, q]])"
  unfolding Let_def
  by (rule round_robin_fair) (simp_all add: selectable_def default_provider_config_def)

end
