(* ===== verification/Rpc_Gateway.thy ===== *)
theory Rpc_Gateway
  imports Provider_Selector
begin

text \<open>
  The submission relay and what its answers say about delivery (\<open>src/rpc/gateway.rs\<close>), with the
  classification of a refused service request (\<open>src/data_server/mod.rs\<close>) and the state of the access to
  the service (\<open>src/data_server/access.rs\<close>). The JSON library is a parameter, \<open>json_api\<close>; the account, the
  network and the clocks are fields of \<open>relay_env\<close>. Instants and durations are milliseconds.

  The lemmas show when the service is reported as unreachable, and that a relayed answer lets a send go out
  again only if it proves that nothing was delivered.
\<close>

section \<open>JSON and HTTP\<close>

record 'v json_api =
  ja_parse :: "string \<Rightarrow> string + 'v"
  ja_get :: "'v \<Rightarrow> string \<Rightarrow> 'v option"
  ja_as_i64 :: "'v \<Rightarrow> i64 option"
  ja_as_u64 :: "'v \<Rightarrow> nat option"
  ja_as_str :: "'v \<Rightarrow> string option"
  ja_as_bool :: "'v \<Rightarrow> bool option"
  ja_is_null :: "'v \<Rightarrow> bool"
  ja_to_string :: "'v \<Rightarrow> string"
  ja_null :: 'v

definition is_success :: "nat \<Rightarrow> bool" where
  "is_success code \<longleftrightarrow> 200 \<le> code \<and> code < 300"

definition is_client_error :: "nat \<Rightarrow> bool" where
  "is_client_error code \<longleftrightarrow> 400 \<le> code \<and> code < 500"

text \<open>The field of an object, read with an accessor.\<close>

definition field :: "'v json_api \<Rightarrow> ('v \<Rightarrow> 'a option) \<Rightarrow> 'v \<Rightarrow> string \<Rightarrow> 'a option" where
  "field js read v name = Option.bind (ja_get js v name) read"

text \<open>\<open>str::split_whitespace\<close> and \<open>char::is_ascii_digit\<close>.\<close>

fun split_words :: "string \<Rightarrow> string \<Rightarrow> string list" where
  "split_words word [] = (if word = [] then [] else [rev word])"
| "split_words word (c # cs) =
     (if is_space c then (if word = [] then split_words [] cs else rev word # split_words [] cs)
      else split_words (c # word) cs)"

definition is_ascii_digit :: "char \<Rightarrow> bool" where
  "is_ascii_digit c \<longleftrightarrow> (let n = of_char c :: nat in 48 \<le> n \<and> n \<le> 57)"

section \<open>Access to the service\<close>

datatype data_access =
    DaReady | DaDisabled | DaOffline | DaSignedOut | DaReauthorizationRequired
  | DaVersionUnsupported string | DaUnreachable | DaUnknown

fun access_key :: "data_access \<Rightarrow> string" where
  "access_key DaReady = ''ready''"
| "access_key DaDisabled = ''disabled''"
| "access_key DaOffline = ''offline''"
| "access_key DaSignedOut = ''signed_out''"
| "access_key DaReauthorizationRequired = ''reauthorization_required''"
| "access_key (DaVersionUnsupported _) = ''version_unsupported''"
| "access_key DaUnreachable = ''unreachable''"
| "access_key DaUnknown = ''unknown''"

definition access_available :: "data_access \<Rightarrow> bool" where
  "access_available a \<longleftrightarrow> a = DaReady"

fun actionable :: "data_access \<Rightarrow> bool" where
  "actionable DaSignedOut \<longleftrightarrow> True"
| "actionable DaReauthorizationRequired \<longleftrightarrow> True"
| "actionable (DaVersionUnsupported _) \<longleftrightarrow> True"
| "actionable DaDisabled \<longleftrightarrow> True"
| "actionable _ \<longleftrightarrow> False"

record snapshot =
  sn_access :: data_access
  sn_checked_at :: "int option"
  sn_transport_failures :: u32
  sn_failing_since :: "nat option"

definition snapshot_initial :: snapshot where
  "snapshot_initial = \<lparr>sn_access = DaUnknown, sn_checked_at = None, sn_transport_failures = 0, sn_failing_since = None\<rparr>"

definition UNREACHABLE_AFTER_FAILURES :: u32 where
  "UNREACHABLE_AFTER_FAILURES = 3"

definition UNREACHABLE_AFTER_FAILING_FOR :: nat where
  "UNREACHABLE_AFTER_FAILING_FOR = from_secs 10"

definition record_access :: "int \<Rightarrow> nat \<Rightarrow> data_access \<Rightarrow> snapshot \<Rightarrow> snapshot" where
  "record_access utc now access previous =
     (let (transport_failures, failing_since) =
        (if access = DaUnreachable
         then (saturating_add (sn_transport_failures previous) 1, Some (unwrap_or (sn_failing_since previous) now))
         else (0, None))
      in \<lparr>sn_access = access, sn_checked_at = Some utc, sn_transport_failures = transport_failures,
          sn_failing_since = failing_since\<rparr>)"

definition record_transport_failure_at :: "int \<Rightarrow> nat \<Rightarrow> snapshot \<Rightarrow> snapshot" where
  "record_transport_failure_at utc now previous =
     (let failures = saturating_add (sn_transport_failures previous) 1;
          failing_since = unwrap_or (sn_failing_since previous) now;
          outage = UNREACHABLE_AFTER_FAILURES \<le> failures \<and> UNREACHABLE_AFTER_FAILING_FOR \<le> now - failing_since
      in if sn_access previous = DaUnreachable \<or> outage then record_access utc now DaUnreachable previous
         else previous\<lparr>sn_transport_failures := failures, sn_failing_since := Some failing_since\<rparr>)"

definition forget_refusals :: "snapshot \<Rightarrow> snapshot" where
  "forget_refusals current =
     (case sn_access current of
        DaReauthorizationRequired \<Rightarrow> current\<lparr>sn_access := DaUnknown, sn_transport_failures := 0, sn_failing_since := None\<rparr>
      | DaVersionUnsupported _ \<Rightarrow> current\<lparr>sn_access := DaUnknown, sn_transport_failures := 0, sn_failing_since := None\<rparr>
      | _ \<Rightarrow> current)"

section \<open>Refused service requests\<close>

datatype service_refusal =
    RefDisabled | RefOffline | RefSignedOut | RefReauthorizationRequired | RefChainScopeMissing
  | RefVersionUnsupported string | RefBusy nat | RefDailyLimit nat | RefWalletChangeLimited nat
  | RefWalletNotBound | RefNotFound | RefInvalid string | RefUnreachable | RefUnreadable

definition DEFAULT_RETRY_AFTER :: nat where
  "DEFAULT_RETRY_AFTER = from_secs 30"

definition body_retry_after :: "'v json_api \<Rightarrow> 'v \<Rightarrow> nat option \<Rightarrow> nat \<Rightarrow> nat" where
  "body_retry_after js body header fallback =
     unwrap_or (map_option from_secs (case field js (ja_as_u64 js) body ''retry_after'' of Some n \<Rightarrow> Some n | None \<Rightarrow> header)) fallback"

definition until_utc_midnight :: "int \<Rightarrow> nat" where
  "until_utc_midnight utc = from_secs (nat (86400 - utc mod 86400))"

definition access_for_refusal :: "nat \<Rightarrow> string \<Rightarrow> string option \<Rightarrow> data_access" where
  "access_for_refusal code_http code minimum =
     (if code \<in> {''signin_required'', ''token_invalid'', ''token_expired'', ''token_wrong_audience''} then DaSignedOut
      else if code \<in> {''reauthorization_required'', ''scope_missing''} then DaReauthorizationRequired
      else if code = ''version_unsupported'' then DaVersionUnsupported (unwrap_or minimum ''a newer release'')
      else if code_http = 401 then DaSignedOut
      else if code_http = 403 then DaReauthorizationRequired
      else if code_http = 426 then DaVersionUnsupported (unwrap_or minimum ''a newer release'')
      else if code_http = 400 then DaReady
      else DaUnreachable)"

definition refusal_code :: "'v json_api \<Rightarrow> 'v \<Rightarrow> string \<times> string option" where
  "refusal_code js body =
     (let code = unwrap_or (field js (ja_as_str js) body ''code'') [];
          minimum = Option.bind (field js (ja_as_str js) body ''error'') (\<lambda>message.
            map_option (\<lambda>word. rev (dropWhile (\<lambda>c. c = CHR ''.'' \<or> c = CHR '','') (rev word)))
              (find (\<lambda>word. word \<noteq> [] \<and> is_ascii_digit (hd word)) (split_words [] message)))
      in (code, minimum))"

definition classify_refusal ::
  "'v json_api \<Rightarrow> int \<Rightarrow> nat \<Rightarrow> nat \<Rightarrow> string \<Rightarrow> string option \<Rightarrow> 'v \<Rightarrow> nat option \<Rightarrow> snapshot \<Rightarrow> service_refusal \<times> snapshot" where
  "classify_refusal js utc now code_http code minimum body header sn =
     (if code = ''chain_scope_missing'' then (RefChainScopeMissing, sn)
      else if code \<in> {''service_busy'', ''chain_unavailable'', ''quota_exceeded''}
        then (RefBusy (body_retry_after js body header DEFAULT_RETRY_AFTER), sn)
      else if code = ''daily_limit'' then (RefDailyLimit (body_retry_after js body header (until_utc_midnight utc)), sn)
      else if code = ''wallet_change_limited''
        then (RefWalletChangeLimited (body_retry_after js body header (until_utc_midnight utc)), sn)
      else if code = ''wallet_not_bound'' then (RefWalletNotBound, sn)
      else case access_for_refusal code_http code minimum of
          DaSignedOut \<Rightarrow> (RefSignedOut, record_access utc now DaSignedOut sn)
        | DaReauthorizationRequired \<Rightarrow> (RefReauthorizationRequired, record_access utc now DaReauthorizationRequired sn)
        | DaVersionUnsupported m \<Rightarrow> (RefVersionUnsupported m, record_access utc now (DaVersionUnsupported m) sn)
        | DaReady \<Rightarrow> (RefInvalid code, record_access utc now DaReady sn)
        | _ \<Rightarrow> if code_http = 404 then (RefNotFound, record_access utc now DaReady sn)
              else (RefUnreachable, record_transport_failure_at utc now sn))"

section \<open>The relay\<close>

definition RELAYED_METHODS :: "string list" where
  "RELAYED_METHODS = [''sendTransaction'', ''getLatestBlockhash'', ''getSignatureStatuses'', ''simulateTransaction'', ''getFeeForMessage'']"

definition is_relayable :: "string \<Rightarrow> bool" where
  "is_relayable method \<longleftrightarrow> method \<in> set RELAYED_METHODS"

datatype chain_access_mode = OwnRpc | Service

record relay_settings =
  rs_active_mode :: chain_access_mode
  rs_use_gateway_rpc :: bool
  rs_is_signed_in :: bool
  rs_has_submit_scope :: bool

definition should_relay :: "relay_settings \<Rightarrow> string \<Rightarrow> bool" where
  "should_relay s method \<longleftrightarrow>
     (if \<not> is_relayable method then False
      else let chosen = rs_active_mode s = Service \<or> rs_use_gateway_rpc s in
        if \<not> chosen then False else rs_is_signed_in s \<and> rs_has_submit_scope s)"

datatype 'v relayed =
    Answered 'v
  | Refused_by rpc_error bool
  | Unanswered bool
  | NotAsked service_refusal

definition classify_transport_failure :: "bool \<Rightarrow> 'v relayed" where
  "classify_transport_failure is_connect = Unanswered (\<not> is_connect)"

definition INVALID_PARAMS :: i64 where
  "INVALID_PARAMS = - 32602"

definition classify_response ::
  "'v json_api \<Rightarrow> int \<Rightarrow> nat \<Rightarrow> string \<Rightarrow> nat \<Rightarrow> 'v option \<Rightarrow> nat option \<Rightarrow> snapshot \<Rightarrow> 'v relayed \<times> snapshot" where
  "classify_response js utc now method code_http body header sn =
     (let body_value = unwrap_or body (ja_null js);
          after_delivery = field js (ja_as_bool js) body_value ''after_delivery'' in
      if is_success code_http then
        (case ja_get js body_value ''result'' of Some result \<Rightarrow> (Answered result, sn) | None \<Rightarrow> (Unanswered True, sn))
      else
        let code = unwrap_or (field js (ja_as_str js) body_value ''code'') [] in
        if code_http = 502 \<and> code = ''rpc_error'' then
          let rpc = unwrap_or (ja_get js body_value ''rpc_error'') (ja_null js) in
          (Refused_by (ProviderError (unwrap_or (field js (ja_as_i64 js) rpc ''code'') 0)
             (unwrap_or (field js (ja_as_str js) rpc ''message'') [])
             (case ja_get js rpc ''data'' of
                None \<Rightarrow> None
              | Some d \<Rightarrow> if ja_is_null js d then None
                  else case ja_as_str js d of Some data \<Rightarrow> Some data | None \<Rightarrow> Some (ja_to_string js d)))
             (unwrap_or after_delivery False), sn)
        else if code_http = 502 \<and> code = ''relay_unavailable'' then (Unanswered (unwrap_or after_delivery False), sn)
        else if code_http = 502 then (Unanswered (method = ''sendTransaction''), sn)
        else if code_http = 400 \<and> code = ''param_refused'' then
          (Refused_by (ProviderError INVALID_PARAMS
             (unwrap_or (field js (ja_as_str js) body_value ''error'') ''parameter refused by the relay'') None) False, sn)
        else if is_client_error code_http \<or> code_http = 503 then
          (let (code, minimum) = refusal_code js body_value in
           case classify_refusal js utc now code_http code minimum body_value header sn of
             (RefUnreachable, sn) \<Rightarrow> (Unanswered False, sn)
           | (refusal, sn) \<Rightarrow> (NotAsked refusal, sn))
        else (Unanswered (method = ''sendTransaction''), sn))"

text \<open>
  The relay request ends in a transport failure, of which \<open>is_connect\<close> is asked, or in a status, the
  \<open>Retry-After\<close> header and a body if it is JSON.
\<close>

record ('w, 'v) relay_env =
  re_json :: "'v json_api"
  re_offline :: "'w \<Rightarrow> bool"
  re_access_token :: "'w \<Rightarrow> string option \<times> 'w"
  re_send :: "string \<Rightarrow> string \<Rightarrow> 'v \<Rightarrow> 'w \<Rightarrow> (bool + nat \<times> string option \<times> 'v option) \<times> 'w"
  re_utc :: "'w \<Rightarrow> int"
  re_now :: "'w \<Rightarrow> nat"

definition relay :: "('w, 'v, 'x) relay_env_scheme \<Rightarrow> string \<Rightarrow> 'v \<Rightarrow> snapshot \<Rightarrow> 'w \<Rightarrow> 'v relayed \<times> snapshot \<times> 'w" where
  "relay env method params sn w =
     (if re_offline env w then (NotAsked RefOffline, sn, w)
      else case re_access_token env w of
        (None, w) \<Rightarrow> (NotAsked RefSignedOut, sn, w)
      | (Some token, w) \<Rightarrow>
          (case re_send env token method params w of
             (Inl is_connect, w) \<Rightarrow> (classify_transport_failure is_connect, sn, w)
           | (Inr (code_http, header, body), w) \<Rightarrow>
               let (r, sn) = classify_response (re_json env) (re_utc env w) (re_now env w) method code_http body
                 (Option.bind header (\<lambda>h. parse_unsigned 64 (trim h))) sn
               in (r, sn, w)))"

section \<open>After a relay attempt\<close>

datatype 'v after_relay = Return "rpc_error + 'v" | Continue u32

definition relay_fallthrough :: "string \<Rightarrow> 'v relayed \<Rightarrow> 'v after_relay" where
  "relay_fallthrough method relayed =
     (let is_send = (method_from_str method = SendTransaction) in
      case relayed of
        Answered result \<Rightarrow> Return (Inr result)
      | NotAsked _ \<Rightarrow> Continue 0
      | Unanswered maybe_delivered \<Rightarrow>
          if \<not> maybe_delivered then Continue 0
          else if is_send then Return (Inl (RpcNetwork
            ''the submission relay did not answer after it may have forwarded the send'' True))
          else Continue 1
      | Refused_by error after_delivery \<Rightarrow>
          if \<not> after_delivery then Continue 0
          else if is_send then Return (Inl (RefusedAfterDelivery 1 error))
          else Continue 1)"

text \<open>The outcomes that prove that no node was handed the request.\<close>

fun nothing_delivered :: "'v relayed \<Rightarrow> bool" where
  "nothing_delivered (Answered _) \<longleftrightarrow> False"
| "nothing_delivered (Refused_by _ after_delivery) \<longleftrightarrow> \<not> after_delivery"
| "nothing_delivered (Unanswered maybe_delivered) \<longleftrightarrow> \<not> maybe_delivered"
| "nothing_delivered (NotAsked _) \<longleftrightarrow> True"

lemma send_continues:
  "relay_fallthrough ''sendTransaction'' r = Continue n \<Longrightarrow> n = 0 \<and> nothing_delivered r"
  by (cases r) (auto simp: relay_fallthrough_def Let_def send_transaction_name split: if_splits)

lemma send_returns_no_refusal:
  "relay_fallthrough ''sendTransaction'' r = Return (Inl e) \<Longrightarrow> \<not> is_send_refusal e"
  by (cases r)
    (auto simp: relay_fallthrough_def Let_def send_transaction_name is_send_refusal_def split: if_splits)

section \<open>When the service counts as unreachable\<close>

text \<open>A request at a time was answered with an access state, or got no answer.\<close>

datatype access_event = AnsweredAt nat data_access | FailedAt nat

primrec event_time :: "access_event \<Rightarrow> nat" where
  "event_time (AnsweredAt t _) = t"
| "event_time (FailedAt t) = t"

fun failed :: "access_event \<Rightarrow> bool" where
  "failed (FailedAt _) \<longleftrightarrow> True"
| "failed (AnsweredAt _ _) \<longleftrightarrow> False"

primrec access_apply :: "access_event \<Rightarrow> snapshot \<Rightarrow> snapshot" where
  "access_apply (AnsweredAt t a) sn = record_access (int (t div 1000)) t a sn"
| "access_apply (FailedAt t) sn = record_transport_failure_at (int (t div 1000)) t sn"

definition failing_run :: "access_event list \<Rightarrow> nat list" where
  "failing_run es = map event_time (rev (takeWhile failed (rev es)))"

definition outage :: "nat list \<Rightarrow> bool" where
  "outage run \<longleftrightarrow> 3 \<le> length run \<and> hd run + 10000 \<le> last run"

lemma failing_run_snoc [simp]:
  "failing_run (es @ [AnsweredAt t a]) = []"
  "failing_run (es @ [FailedAt t]) = failing_run es @ [t]"
  "failing_run [] = []"
  by (simp_all add: failing_run_def)

lemma failing_run_subset: "set (failing_run es) \<subseteq> event_time ` set es"
  unfolding failing_run_def by (auto dest: set_takeWhileD)

lemma hd_failing_run: "run \<noteq> [] \<Longrightarrow> hd (run @ [t]) = hd run"
  by simp

definition tracks :: "nat list \<Rightarrow> snapshot \<Rightarrow> bool" where
  "tracks run sn \<longleftrightarrow> sn_failing_since sn = (if run = [] then None else Some (hd run))
     \<and> unat (sn_transport_failures sn) = min (length run) (2 ^ 32 - 1)
     \<and> (sn_access sn = DaUnreachable \<longleftrightarrow> outage run)"

lemma tracks_answer: "a \<noteq> DaUnreachable \<Longrightarrow> tracks [] (record_access utc t a sn)"
  by (simp add: tracks_def record_access_def outage_def)

lemma tracks_failure:
  assumes "tracks run sn" and "\<And>u. u \<in> set run \<Longrightarrow> u \<le> t"
  shows "tracks (run @ [t]) (record_transport_failure_at utc t sn)"
proof -
  let ?n = "saturating_add (sn_transport_failures sn) 1"
  have n: "unat ?n = min (length (run @ [t])) (2 ^ 32 - 1)"
    using assms(1) by (simp add: unat_saturating_add tracks_def)
  have since: "unwrap_or (sn_failing_since sn) t = hd (run @ [t])"
    using assms(1) by (simp add: tracks_def unwrap_or_def hd_append)
  have three: "UNREACHABLE_AFTER_FAILURES \<le> ?n \<longleftrightarrow> 3 \<le> length (run @ [t])"
    using n by (simp add: UNREACHABLE_AFTER_FAILURES_def word_le_nat_alt)
  have "UNREACHABLE_AFTER_FAILING_FOR \<le> t - hd (run @ [t]) \<longleftrightarrow> hd (run @ [t]) + 10000 \<le> t"
    by (auto simp: UNREACHABLE_AFTER_FAILING_FOR_def from_secs_def)
  then have now_out: "(UNREACHABLE_AFTER_FAILURES \<le> ?n \<and> UNREACHABLE_AFTER_FAILING_FOR \<le> t - hd (run @ [t])) \<longleftrightarrow> outage (run @ [t])"
    using three by (simp add: outage_def)
  have grows: "outage run \<Longrightarrow> outage (run @ [t])"
  proof -
    assume o: "outage run"
    then have "run \<noteq> []" by (auto simp: outage_def)
    then show "outage (run @ [t])" using o assms(2) [OF last_in_set] by (fastforce simp: outage_def)
  qed
  have down: "sn_access sn = DaUnreachable \<longleftrightarrow> outage run" using assms(1) by (simp add: tracks_def)
  show ?thesis
  proof (cases "outage (run @ [t])")
    case True
    then show ?thesis using n since now_out
      by (simp add: tracks_def record_transport_failure_at_def record_access_def Let_def)
  next
    case False
    then show ?thesis using n since now_out down grows
      by (auto simp: tracks_def record_transport_failure_at_def Let_def)
  qed
qed

lemma access_fold_tracks:
  "sorted (map event_time es) \<Longrightarrow> (\<And>t a. AnsweredAt t a \<in> set es \<Longrightarrow> a \<noteq> DaUnreachable) \<Longrightarrow>
     tracks (failing_run es) (fold access_apply es snapshot_initial)"
proof (induction es rule: rev_induct)
  case Nil
  then show ?case by (simp add: tracks_def snapshot_initial_def outage_def)
next
  case (snoc e es)
  have IH: "tracks (failing_run es) (fold access_apply es snapshot_initial)" 
    by (rule snoc.IH) (use snoc.prems in \<open>auto simp: sorted_append\<close>)
  show ?case
  proof (cases e)
    case (AnsweredAt t a)
    then show ?thesis using snoc.prems(2) [of t a] tracks_answer by simp
  next
    case (FailedAt t)
    have "u \<le> t" if "u \<in> set (failing_run es)" for u
      using that snoc.prems(1) failing_run_subset [of es] FailedAt by (auto simp: sorted_append)
    then show ?thesis using FailedAt tracks_failure [OF IH] by simp
  qed
qed

text \<open>Whatever answers and failures came before, the service is reported as unreachable exactly while the
  requests since the last answered one all failed, were at least three, and span at least ten seconds.\<close>

theorem unreachable_iff_outage:
  assumes "sorted (map event_time es)" and "\<And>t a. AnsweredAt t a \<in> set es \<Longrightarrow> a \<noteq> DaUnreachable"
  shows "sn_access (fold access_apply es snapshot_initial) = DaUnreachable \<longleftrightarrow> outage (failing_run es)"
  using access_fold_tracks [OF assms] by (simp add: tracks_def)

theorem unreachable_iff_outage_witness:
  "let es = [FailedAt 0, AnsweredAt 5 DaReady, FailedAt 100, FailedAt 200, FailedAt 10100] in
   sn_access (fold access_apply es snapshot_initial) = DaUnreachable \<longleftrightarrow> outage (failing_run es)"
  unfolding Let_def by (rule unreachable_iff_outage) auto

end
