(* ===== verification/Rpc_Manager.thy ===== *)
theory Rpc_Manager
  imports Rpc_Gateway
begin

text \<open>
  The manager of the node providers, \<open>src/rpc/manager.rs\<close>: its construction from the configured URLs, the
  choice of a provider, one request, the attempts of a call with their retries, and the relay before them.
  A call is modelled as it runs alone; the world it runs in is a parameter, \<open>node_env\<close>: the clock, the
  HTTP client, the cell-rate limiter of each provider and the text of a formatted error. The call results
  handed to the statistics are kept as a list.

  The lemmas show that a call that reports a transaction as refused has handed it to one node only, that
  the number of attempts is bounded and each is made at an enabled provider of the required kind, and that
  a call is told that there are no providers only if there are none.
\<close>

section \<open>State\<close>

record call_result =
  cr_provider_id :: string
  cr_method :: rpc_method
  cr_success :: bool
  cr_latency_ms :: u64
  cr_error :: "string option"
  cr_timestamp :: nat
  cr_retry_count :: u32
  cr_was_rate_limited :: bool

record rpc_manager =
  rm_providers :: "provider_config list"
  rm_provider_states :: provider_states
  rm_rate_limiters :: limiter_manager
  rm_circuit_breakers :: breaker_manager
  rm_stats :: "call_result list"
  rm_round_robin_index :: u64
  rm_selection_strategy :: selection_strategy
  rm_default_timeout :: nat
  rm_max_retries :: u32
  rm_retry_delay_base :: nat
  rm_retry_delay_max :: nat
  rm_force_single_provider :: bool

record transport_error =
  te_message :: string
  te_is_timeout :: bool
  te_is_connect :: bool

text \<open>A response has a status and a body that may fail to arrive.\<close>

record ('w, 'v) node_env = "('w, 'v) relay_env" +
  ne_sleep :: "nat \<Rightarrow> 'w \<Rightarrow> 'w"
  ne_until_ready :: "string \<Rightarrow> 'w \<Rightarrow> 'w"
  ne_post :: "provider_config \<Rightarrow> string \<Rightarrow> 'v \<Rightarrow> 'w \<Rightarrow> (transport_error + nat \<times> (transport_error + string)) \<times> 'w"
  ne_utc_ms :: "'w \<Rightarrow> nat"
  ne_error_text :: "rpc_error \<Rightarrow> string"

section \<open>Construction\<close>

record rpc_config =
  rc_urls :: "string list"
  rc_request_timeout_secs :: nat
  rc_max_retries :: u32
  rc_retry_base_delay_ms :: nat
  rc_retry_max_delay_ms :: nat
  rc_circuit_breaker_enabled :: bool
  rc_circuit_breaker_failure_threshold :: u32
  rc_circuit_breaker_success_threshold :: u32
  rc_circuit_breaker_open_duration_secs :: nat
  rc_circuit_breaker_half_open_requests :: u32
  rc_selection_strategy :: string
  rc_rates :: rpc_rates

definition breaker_config_from :: "rpc_config \<Rightarrow> breaker_config" where
  "breaker_config_from rpc =
     (if rc_circuit_breaker_enabled rpc
      then default_breaker_config\<lparr>bc_failure_threshold := rc_circuit_breaker_failure_threshold rpc,
             bc_success_threshold := rc_circuit_breaker_success_threshold rpc,
             bc_open_duration := from_secs (rc_circuit_breaker_open_duration_secs rpc),
             bc_half_open_max_requests := rc_circuit_breaker_half_open_requests rpc\<rparr>
      else default_breaker_config\<lparr>bc_failure_threshold := - 1\<rparr>)"

text \<open>\<open>(i * 10) as u8\<close> keeps the low eight bits.\<close>

definition configured_providers :: "(string \<Rightarrow> u64) \<Rightarrow> string list \<Rightarrow> provider_config list" where
  "configured_providers hash_of urls =
     map (\<lambda>(i, url). from_url_with_priority hash_of url (of_nat (i * 10))) (zip [0..<length urls] urls)"

definition from_urls ::
  "(string \<Rightarrow> u64) \<Rightarrow> string list \<Rightarrow> rpc_config \<Rightarrow> string + rpc_manager" where
  "from_urls hash_of urls rpc =
     (if urls = [] then Inl ''No RPC URLs provided''
      else let providers = configured_providers hash_of urls;
               states = fold (\<lambda>p. AList.update (pc_id p)
                 (provider_state_new (pc_id p) (pc_url p) (pc_kind p) (pc_priority p))) providers []
        in Inr \<lparr>rm_providers = providers, rm_provider_states = states, rm_rate_limiters = from_config (rc_rates rpc),
             rm_circuit_breakers = with_config (breaker_config_from rpc), rm_stats = [], rm_round_robin_index = 0,
             rm_selection_strategy = strategy_from_str (rc_selection_strategy rpc),
             rm_default_timeout = from_secs (rc_request_timeout_secs rpc), rm_max_retries = rc_max_retries rpc,
             rm_retry_delay_base = rc_retry_base_delay_ms rpc, rm_retry_delay_max = rc_retry_max_delay_ms rpc,
             rm_force_single_provider = False\<rparr>)"

definition manager_new :: "(string \<Rightarrow> u64) \<Rightarrow> rpc_config \<Rightarrow> string + rpc_manager" where
  "manager_new hash_of rpc =
     (if rc_urls rpc = [] then Inl ''No RPC URLs configured'' else from_urls hash_of (rc_urls rpc) rpc)"

section \<open>Choice of a provider\<close>

definition provider_matches_required_kind :: "provider_config \<Rightarrow> provider_kind option \<Rightarrow> bool" where
  "provider_matches_required_kind p required_kind \<longleftrightarrow> (case required_kind of None \<Rightarrow> True | Some kind \<Rightarrow> pc_kind p = kind)"

definition calculate_provider_score :: "provider_states \<Rightarrow> string \<Rightarrow> u8 \<Rightarrow> flt" where
  "calculate_provider_score states provider_id priority =
     (case map_of states provider_id of
        None \<Rightarrow> Fin 50
      | Some s \<Rightarrow>
          let success_score = flt_mul (success_rate s) (Fin (7 / 10));
              latency_score = (if flt_lt (Fin 0) (ps_avg_latency_ms s)
                then flt_min (flt_div (Fin 1000) (ps_avg_latency_ms s)) (Fin 20) else Fin 20);
              priority_score = flt_sub (Fin 10) (flt_div (Fin (real (unat priority))) (Fin (255 / 10)))
          in flt_add (flt_add success_score latency_score) priority_score)"

definition select_provider ::
  "string list \<Rightarrow> provider_kind option \<Rightarrow> rpc_manager \<Rightarrow> provider_config option \<times> rpc_manager" where
  "select_provider excluded required_kind m =
     (let providers = rm_providers m; states = rm_provider_states m;
          available = filter (\<lambda>p. pc_enabled p \<and> pc_id p \<notin> set excluded \<and> provider_matches_required_kind p required_kind
            \<and> (case map_of states (pc_id p) of None \<Rightarrow> True | Some s \<Rightarrow> is_healthy s)) providers in
      if available = [] then
        (case find (\<lambda>p. pc_enabled p \<and> pc_id p \<notin> set excluded \<and> provider_matches_required_kind p required_kind) providers of
           Some p \<Rightarrow> (Some p, m)
         | None \<Rightarrow> (find (\<lambda>p. pc_enabled p \<and> provider_matches_required_kind p required_kind) providers, m))
      else case rm_selection_strategy m of
          RoundRobin \<Rightarrow> (Some (available ! (unat (rm_round_robin_index m) mod length available)),
             m\<lparr>rm_round_robin_index := rm_round_robin_index m + 1\<rparr>)
        | Priority \<Rightarrow> (Some (hd available), m)
        | LatencyBased \<Rightarrow> (min_by (\<lambda>a b. flt_lt (latency_of states b) (latency_of states a)) available, m)
        | Adaptive \<Rightarrow> (max_by (\<lambda>a b. flt_lt (calculate_provider_score states (pc_id b) (pc_priority b))
            (calculate_provider_score states (pc_id a) (pc_priority a))) available, m))"

section \<open>One request\<close>

definition from_reqwest :: "transport_error \<Rightarrow> rpc_error" where
  "from_reqwest err =
     (if te_is_timeout err then RpcNetwork (te_message err) True
      else if te_is_connect err then RpcNetwork (''Connection failed: '' @ te_message err) False
      else RpcNetwork (te_message err) False)"

definition parse_retry_after :: "'v json_api \<Rightarrow> string \<Rightarrow> nat option" where
  "parse_retry_after js body =
     (case ja_parse js body of
        Inl _ \<Rightarrow> Some (from_secs 1)
      | Inr json \<Rightarrow>
          (case field js (ja_as_u64 js) json ''retryAfter'' of
             Some secs \<Rightarrow> Some (from_secs secs)
           | None \<Rightarrow> (case field js (ja_as_u64 js) json ''retry_after'' of
               Some secs \<Rightarrow> Some (from_secs secs)
             | None \<Rightarrow> Some (from_secs 1))))"

definition from_http_response :: "'v json_api \<Rightarrow> nat \<Rightarrow> string \<Rightarrow> string \<Rightarrow> rpc_error" where
  "from_http_response js code_http body provider_id =
     (if code_http = 429 then RateLimited provider_id (parse_retry_after js body)
      else if code_http = 408 \<or> code_http = 504 then RpcTimeout provider_id (from_secs 30)
      else if code_http = 502 \<or> code_http = 503 then RpcNetwork ''Service unavailable ({status}): {}'' False
      else RpcOther ''HTTP {status}: {}'')"

definition execute_single ::
  "('w, 'v) node_env \<Rightarrow> provider_config \<Rightarrow> string \<Rightarrow> 'v \<Rightarrow> 'w \<Rightarrow> (rpc_error + 'v) \<times> 'w" where
  "execute_single env provider method params w =
     (let js = re_json env in
      case ne_post env provider method params w of
        (Inl err, w) \<Rightarrow> (Inl (from_reqwest err), w)
      | (Inr (code_http, Inl err), w) \<Rightarrow> (Inl (from_reqwest err), w)
      | (Inr (code_http, Inr body), w) \<Rightarrow>
          (if \<not> is_success code_http then Inl (from_http_response js code_http body (pc_id provider))
           else case ja_parse js body of
               Inl _ \<Rightarrow> Inl (InvalidResponse ''Invalid JSON: {e}'')
             | Inr json \<Rightarrow>
                 (case ja_get js json ''error'' of
                    Some error \<Rightarrow>
                      Inl (from_jsonrpc_error (unwrap_or (field js (ja_as_i64 js) error ''code'') (- 1))
                        (unwrap_or (field js (ja_as_str js) error ''message'') ''Unknown error'')
                        (map_option (ja_to_string js) (ja_get js error ''data'')))
                  | None \<Rightarrow> (case ja_get js json ''result'' of
                      Some result \<Rightarrow> Inr result
                    | None \<Rightarrow> Inl (InvalidResponse ''Missing result field''))), w))"

section \<open>After a request\<close>

definition update_provider_state ::
  "nat \<Rightarrow> string \<Rightarrow> bool \<Rightarrow> u64 \<Rightarrow> string option \<Rightarrow> rpc_manager \<Rightarrow> rpc_manager" where
  "update_provider_state utc provider_id success latency_ms error m =
     (case map_of (rm_provider_states m) provider_id of
        None \<Rightarrow> m
      | Some s \<Rightarrow>
          let s = s\<lparr>ps_total_calls := ps_total_calls s + 1\<rparr>; latency = Fin (real (unat latency_ms));
              s = (if success then
                     s\<lparr>ps_consecutive_failures := 0, ps_consecutive_successes := ps_consecutive_successes s + 1,
                       ps_last_success := Some utc,
                       ps_avg_latency_ms := (if flt_eq (ps_avg_latency_ms s) (Fin 0) then latency
                         else flt_add (flt_mul (ps_avg_latency_ms s) (Fin (9 / 10))) (flt_mul latency (Fin (1 / 10))))\<rparr>
                   else
                     s\<lparr>ps_total_errors := ps_total_errors s + 1, ps_consecutive_failures := ps_consecutive_failures s + 1,
                       ps_consecutive_successes := 0, ps_last_failure := Some utc, ps_last_error := error\<rparr>)
          in m\<lparr>rm_provider_states := AList.update provider_id s (rm_provider_states m)\<rparr>)"

definition record_call_result :: "call_result \<Rightarrow> rpc_manager \<Rightarrow> rpc_manager" where
  "record_call_result r m = m\<lparr>rm_stats := rm_stats m @ [r]\<rparr>"

text \<open>The breaker and the limiter of a provider are shared: what a call does to them is kept in the manager.\<close>

definition with_breaker :: "nat \<Rightarrow> string \<Rightarrow> (breaker \<Rightarrow> breaker) \<Rightarrow> rpc_manager \<Rightarrow> rpc_manager" where
  "with_breaker now provider_id f m =
     (let (b, bm) = get_breaker now provider_id (rm_circuit_breakers m) in
      m\<lparr>rm_circuit_breakers := put_breaker provider_id (f b) bm\<rparr>)"

definition with_limiter :: "provider_config \<Rightarrow> (limiter \<Rightarrow> limiter) \<Rightarrow> rpc_manager \<Rightarrow> rpc_manager" where
  "with_limiter p f m =
     (let (l, lm) = get_limiter (pc_id p) (Some (effective_rate_limit p)) (pc_kind p) (rm_rate_limiters m) in
      m\<lparr>rm_rate_limiters := lm\<lparr>lm_limiters := AList.update (pc_id p) (f l) (lm_limiters lm)\<rparr>\<rparr>)"

definition on_success ::
  "('w, 'v) node_env \<Rightarrow> provider_config \<Rightarrow> rpc_method \<Rightarrow> u32 \<Rightarrow> u64 \<Rightarrow> rpc_manager \<Rightarrow> 'w \<Rightarrow> rpc_manager" where
  "on_success env p m_id retry latency_ms m w =
     (let m = with_breaker (re_now env w) (pc_id p) (record_success (re_now env w)) m;
          m = with_limiter p limiter_success m;
          m = update_provider_state (ne_utc_ms env w) (pc_id p) True latency_ms None m
      in record_call_result \<lparr>cr_provider_id = pc_id p, cr_method = m_id, cr_success = True, cr_latency_ms = latency_ms,
           cr_error = None, cr_timestamp = ne_utc_ms env w, cr_retry_count = retry, cr_was_rate_limited = False\<rparr> m)"

definition on_failure ::
  "('w, 'v) node_env \<Rightarrow> provider_config \<Rightarrow> rpc_method \<Rightarrow> u32 \<Rightarrow> u64 \<Rightarrow> rpc_error \<Rightarrow> rpc_manager \<Rightarrow> 'w \<Rightarrow> rpc_manager \<times> 'w" where
  "on_failure env p m_id retry latency_ms e m w =
     (let rate_limited = is_rate_limited e; health_failure = is_provider_health_failure e;
          (m, w) = (if rate_limited then
                      (with_limiter p (\<lambda>l. fst (record_429 (re_now env w) (rpc_retry_after e) l)) m,
                       ne_sleep env (snd (record_429 (re_now env w) (rpc_retry_after e)
                         (fst (get_limiter (pc_id p) (Some (effective_rate_limit p)) (pc_kind p) (rm_rate_limiters m))))) w)
                    else if health_failure then
                      (with_breaker (re_now env w) (pc_id p) (record_failure (re_now env w) (ne_error_text env e) rate_limited) m, w)
                    else (m, w));
          m = (if health_failure
               then update_provider_state (ne_utc_ms env w) (pc_id p) False latency_ms (Some (ne_error_text env e)) m else m)
      in (record_call_result \<lparr>cr_provider_id = pc_id p, cr_method = m_id, cr_success = False, cr_latency_ms = latency_ms,
            cr_error = Some (ne_error_text env e), cr_timestamp = ne_utc_ms env w, cr_retry_count = retry,
            cr_was_rate_limited = rate_limited\<rparr> m, w))"

section \<open>A call with its retries\<close>

definition refusal_answers_for_call :: "rpc_method \<Rightarrow> u32 \<Rightarrow> rpc_error \<Rightarrow> bool" where
  "refusal_answers_for_call m_id dispatched error \<longleftrightarrow>
     m_id \<noteq> SendTransaction \<or> dispatched = 0 \<or> \<not> is_send_refusal error"

definition retry_delay :: "rpc_manager \<Rightarrow> u32 \<Rightarrow> nat" where
  "retry_delay m retry = min (rm_retry_delay_base m * unat ((2 :: u32) ^ unat retry)) (rm_retry_delay_max m)"

text \<open>
  One iteration of the loop: what the circuit said, or the answer of the request, with the manager and the
  world after it; and the loop over \<open>0..=max_retries\<close>.
\<close>

datatype 'v attempt = CircuitSkipped nat | AttemptFailed rpc_error | AttemptDone 'v

definition attempt_once ::
  "('w, 'v) node_env \<Rightarrow> string \<Rightarrow> 'v \<Rightarrow> u32 \<Rightarrow> provider_config \<Rightarrow> rpc_manager \<Rightarrow> 'w \<Rightarrow> 'v attempt \<times> rpc_manager \<times> 'w" where
  "attempt_once env method params retry p m w =
     (let now = re_now env w; (b, bm) = get_breaker now (pc_id p) (rm_circuit_breakers m); (admitted, b) = can_execute now b;
          m = m\<lparr>rm_circuit_breakers := put_breaker (pc_id p) b bm\<rparr> in
      case admitted of
        Inl wait_time \<Rightarrow> (CircuitSkipped wait_time, m, w)
      | Inr _ \<Rightarrow>
          let m = with_limiter p id m;
              w = acquire_cells (ne_until_ready env (pc_id p)) (method_from_str method) w;
              request_start = re_now env w;
              (answer, w) = execute_single env p method params w;
              latency_ms = of_nat (re_now env w - request_start)
          in case answer of
              Inr result \<Rightarrow> (AttemptDone result, on_success env p (method_from_str method) retry latency_ms m w, w)
            | Inl e \<Rightarrow> (let (m, w) = on_failure env p (method_from_str method) retry latency_ms e m w in (AttemptFailed e, m, w)))"

primrec attempts ::
  "('w, 'v) node_env \<Rightarrow> string \<Rightarrow> 'v \<Rightarrow> provider_kind option \<Rightarrow> u32 list \<Rightarrow> u32 \<Rightarrow> string list \<Rightarrow> rpc_error option \<Rightarrow>
   rpc_manager \<Rightarrow> 'w \<Rightarrow> (rpc_error + 'v) \<times> rpc_manager \<times> 'w" where
  "attempts env method params required_kind [] dispatched tried last_error m w =
     (Inl (unwrap_or last_error (NoProvidersAvailable None)), m, w)"
| "attempts env method params required_kind (retry # retries) dispatched tried last_error m w =
     (case select_provider tried required_kind m of
        (None, m) \<Rightarrow> (Inl (NoProvidersAvailable (map_option (ne_error_text env) last_error)), m, w)
      | (Some p, m) \<Rightarrow>
          (case attempt_once env method params retry p m w of
             (CircuitSkipped wait_time, m, w) \<Rightarrow>
               attempts env method params required_kind retries dispatched (tried @ [pc_id p])
                 (Some (CircuitOpen (pc_id p) wait_time)) m w
           | (AttemptDone result, m, w) \<Rightarrow> (Inr result, m, w)
           | (AttemptFailed e, m, w) \<Rightarrow>
               if \<not> is_retryable e then
                 (Inl (if refusal_answers_for_call (method_from_str method) dispatched e then e
                       else RefusedAfterDelivery dispatched e), m, w)
               else attempts env method params required_kind retries (dispatched + 1) (tried @ [pc_id p]) (Some e) m
                 (if retry < rm_max_retries m then ne_sleep env (retry_delay m retry) w else w)))"

definition execute_raw_restricted ::
  "('w, 'v) node_env \<Rightarrow> string \<Rightarrow> 'v \<Rightarrow> provider_kind option \<Rightarrow> u32 \<Rightarrow> rpc_manager \<Rightarrow> 'w \<Rightarrow> (rpc_error + 'v) \<times> rpc_manager \<times> 'w" where
  "execute_raw_restricted env method params required_kind dispatched m w =
     attempts env method params required_kind (map of_nat [0..<Suc (unat (rm_max_retries m))]) dispatched [] None m w"

definition refuse_send_in_paper_scope :: "bool \<Rightarrow> string \<Rightarrow> rpc_error + unit" where
  "refuse_send_in_paper_scope in_paper_scope method =
     (if in_paper_scope \<and> method_from_str method = SendTransaction then Inl PaperScopeRefused else Inr ())"

definition execute_raw ::
  "('w, 'v) node_env \<Rightarrow> relay_settings \<Rightarrow> bool \<Rightarrow> string \<Rightarrow> 'v \<Rightarrow> rpc_manager \<Rightarrow> snapshot \<Rightarrow> 'w \<Rightarrow>
   (rpc_error + 'v) \<times> rpc_manager \<times> snapshot \<times> 'w" where
  "execute_raw env settings in_paper_scope method params m sn w =
     (case refuse_send_in_paper_scope in_paper_scope method of
        Inl e \<Rightarrow> (Inl e, m, sn, w)
      | Inr _ \<Rightarrow>
          if should_relay settings method then
            (case relay env method params sn w of (relayed, sn, w) \<Rightarrow>
               case relay_fallthrough method relayed of
                 Return result \<Rightarrow> (result, m, sn, w)
               | Continue delivered \<Rightarrow>
                   let (r, m, w) = execute_raw_restricted env method params None delivered m w in (r, m, sn, w))
          else let (r, m, w) = execute_raw_restricted env method params None 0 m w in (r, m, sn, w))"

definition execute_raw_for_provider_kind ::
  "('w, 'v) node_env \<Rightarrow> bool \<Rightarrow> provider_kind \<Rightarrow> string \<Rightarrow> 'v \<Rightarrow> rpc_manager \<Rightarrow> 'w \<Rightarrow> (rpc_error + 'v) \<times> rpc_manager \<times> 'w" where
  "execute_raw_for_provider_kind env in_paper_scope kind method params m w =
     (case refuse_send_in_paper_scope in_paper_scope method of
        Inl e \<Rightarrow> (Inl e, m, w)
      | Inr _ \<Rightarrow> execute_raw_restricted env method params (Some kind) 0 m w)"

section \<open>Questions and settings\<close>

definition has_enabled_provider_kind :: "provider_kind \<Rightarrow> rpc_manager \<Rightarrow> bool" where
  "has_enabled_provider_kind kind m \<longleftrightarrow> list_ex (\<lambda>p. pc_enabled p \<and> pc_kind p = kind) (rm_providers m)"

definition healthy_provider_count :: "rpc_manager \<Rightarrow> nat" where
  "healthy_provider_count m = length (filter (is_healthy \<circ> snd) (rm_provider_states m))"

definition has_healthy_provider :: "rpc_manager \<Rightarrow> bool" where
  "has_healthy_provider m \<longleftrightarrow> 0 < healthy_provider_count m"

definition primary_url :: "rpc_manager \<Rightarrow> string option" where
  "primary_url m = (case rm_providers m of [] \<Rightarrow> None | p # _ \<Rightarrow> Some (pc_url p))"

definition all_urls :: "rpc_manager \<Rightarrow> string list" where
  "all_urls m = map pc_url (rm_providers m)"

definition set_selection_strategy :: "selection_strategy \<Rightarrow> rpc_manager \<Rightarrow> rpc_manager" where
  "set_selection_strategy strategy m = m\<lparr>rm_selection_strategy := strategy\<rparr>"

definition reset_circuit_breakers :: "nat \<Rightarrow> rpc_manager \<Rightarrow> rpc_manager" where
  "reset_circuit_breakers now m = m\<lparr>rm_circuit_breakers := reset_all now (rm_circuit_breakers m)\<rparr>"

definition reset_rate_limiters :: "rpc_manager \<Rightarrow> rpc_manager" where
  "reset_rate_limiters m = m\<lparr>rm_rate_limiters := reset_limiters (rm_rate_limiters m)\<rparr>"

fun enable_first :: "string \<Rightarrow> bool \<Rightarrow> provider_config list \<Rightarrow> provider_config list" where
  "enable_first provider_id enabled [] = []"
| "enable_first provider_id enabled (p # ps) =
     (if pc_id p = provider_id then p\<lparr>pc_enabled := enabled\<rparr> # ps else p # enable_first provider_id enabled ps)"

definition set_provider_enabled :: "string \<Rightarrow> bool \<Rightarrow> rpc_manager \<Rightarrow> rpc_manager" where
  "set_provider_enabled provider_id enabled m =
     (let m = m\<lparr>rm_providers := enable_first provider_id enabled (rm_providers m)\<rparr> in
      case map_of (rm_provider_states m) provider_id of
        Some s \<Rightarrow> m\<lparr>rm_provider_states := AList.update provider_id (s\<lparr>ps_enabled := enabled\<rparr>) (rm_provider_states m)\<rparr>
      | None \<Rightarrow> m)"

section \<open>Lemmas on the choice\<close>

abbreviation eligible :: "provider_kind option \<Rightarrow> rpc_manager \<Rightarrow> provider_config set" where
  "eligible required_kind m \<equiv> {p \<in> set (rm_providers m). pc_enabled p \<and> provider_matches_required_kind p required_kind}"

lemma select_provider_frame:
  assumes "select_provider excluded required_kind m = (r, m')"
  shows "rm_providers m' = rm_providers m" "rm_stats m' = rm_stats m" "rm_max_retries m' = rm_max_retries m"
  using assms by (auto simp: select_provider_def Let_def split: if_splits option.splits selection_strategy.splits)

lemma select_provider_Some:
  assumes "select_provider excluded required_kind m = (Some p, m')"
  shows "p \<in> eligible required_kind m"
proof -
  let ?A = "filter (\<lambda>p. pc_enabled p \<and> pc_id p \<notin> set excluded \<and> provider_matches_required_kind p required_kind
      \<and> (case map_of (rm_provider_states m) (pc_id p) of None \<Rightarrow> True | Some s \<Rightarrow> is_healthy s)) (rm_providers m)"
  have sub: "set ?A \<subseteq> eligible required_kind m" by auto
  show ?thesis
  proof (cases "?A = []")
    case True
    then show ?thesis using assms
      by (auto simp: select_provider_def Let_def find_Some_iff in_set_conv_nth split: option.splits)
  next
    case False
    then have "p \<in> set ?A"
      using assms cyclic_mem [OF False] min_by_mem
      by (auto simp: select_provider_def Let_def max_by_as_min_by simp del: set_filter
          split: selection_strategy.splits intro: hd_in_set)
    then show ?thesis using sub by blast
  qed
qed

lemma select_provider_None:
  "fst (select_provider excluded required_kind m) = None \<longleftrightarrow> eligible required_kind m = {}"
proof
  assume none: "fst (select_provider excluded required_kind m) = None"
  then have "find (\<lambda>p. pc_enabled p \<and> provider_matches_required_kind p required_kind) (rm_providers m) = None"
    by (auto simp: select_provider_def Let_def max_by_as_min_by split: if_splits option.splits selection_strategy.splits)
  then show "eligible required_kind m = {}" by (auto simp: find_None_iff)
next
  assume none: "eligible required_kind m = {}"
  show "fst (select_provider excluded required_kind m) = None"
  proof (rule ccontr)
    assume "fst (select_provider excluded required_kind m) \<noteq> None"
    then obtain p m' where "select_provider excluded required_kind m = (Some p, m')"
      by (metis option.exhaust prod.exhaust_sel)
    then show False using select_provider_Some none by blast
  qed
qed

section \<open>Lemmas on one attempt\<close>

text \<open>The errors a node or the way to it can give.\<close>

fun node_error :: "rpc_error \<Rightarrow> bool" where
  "node_error (CircuitOpen _ _) \<longleftrightarrow> False"
| "node_error (NoProvidersAvailable _) \<longleftrightarrow> False"
| "node_error (RefusedAfterDelivery _ _) \<longleftrightarrow> False"
| "node_error PaperScopeRefused \<longleftrightarrow> False"
| "node_error _ \<longleftrightarrow> True"

lemma execute_single_error: "execute_single env p method params w = (Inl e, w') \<Longrightarrow> node_error e"
  by (auto simp: execute_single_def Let_def from_reqwest_def from_http_response_def from_jsonrpc_error_def
      split: if_splits option.splits sum.splits prod.splits)

lemma frame_simps [simp]:
  "rm_providers (with_breaker now i f m) = rm_providers m" "rm_stats (with_breaker now i f m) = rm_stats m"
  "rm_max_retries (with_breaker now i f m) = rm_max_retries m"
  "rm_providers (with_limiter p g m) = rm_providers m" "rm_stats (with_limiter p g m) = rm_stats m"
  "rm_max_retries (with_limiter p g m) = rm_max_retries m"
  "rm_providers (update_provider_state t i b n e m) = rm_providers m"
  "rm_stats (update_provider_state t i b n e m) = rm_stats m"
  "rm_max_retries (update_provider_state t i b n e m) = rm_max_retries m"
  by (simp_all add: with_breaker_def with_limiter_def update_provider_state_def Let_def split: prod.splits option.splits)

text \<open>What an attempt at a provider leaves in the statistics.\<close>

fun logged :: "provider_config \<Rightarrow> 'v attempt \<Rightarrow> call_result list \<Rightarrow> bool" where
  "logged p (CircuitSkipped _) rows \<longleftrightarrow> rows = []"
| "logged p (AttemptFailed e) rows \<longleftrightarrow> node_error e \<and> (\<exists>r. rows = [r] \<and> cr_provider_id r = pc_id p \<and> \<not> cr_success r)"
| "logged p (AttemptDone _) rows \<longleftrightarrow> (\<exists>r. rows = [r] \<and> cr_provider_id r = pc_id p \<and> cr_success r)"

lemma attempt_once_frame:
  assumes "attempt_once env method params retry p m w = (a, m', w')"
  shows "rm_providers m' = rm_providers m" "rm_max_retries m' = rm_max_retries m"
    "\<exists>rows. rm_stats m' = rm_stats m @ rows \<and> logged p a rows"
  using assms
  by (auto simp: attempt_once_def Let_def on_success_def on_failure_def record_call_result_def
      split: prod.splits sum.splits if_splits dest: execute_single_error)

section \<open>Lemmas on a call\<close>

text \<open>What a call leaves in the statistics: failures only, and after them one success if it succeeded.\<close>

fun call_rows :: "rpc_error + 'v \<Rightarrow> call_result list \<Rightarrow> bool" where
  "call_rows (Inl _) rows \<longleftrightarrow> list_all (\<lambda>x. \<not> cr_success x) rows"
| "call_rows (Inr _) rows \<longleftrightarrow> rows \<noteq> [] \<and> cr_success (last rows) \<and> list_all (\<lambda>x. \<not> cr_success x) (butlast rows)"

lemma call_rows_Cons: "\<not> cr_success x \<Longrightarrow> call_rows r rows \<Longrightarrow> call_rows r (x # rows)"
  by (cases r) auto

lemma attempts_rows:
  "attempts env method params required_kind retries dispatched tried last_error m w = (r, m', w') \<Longrightarrow>
     \<exists>rows. rm_stats m' = rm_stats m @ rows \<and> length rows \<le> length retries \<and>
       cr_provider_id ` set rows \<subseteq> pc_id ` eligible required_kind m \<and> call_rows r rows"
proof (induction retries arbitrary: dispatched tried last_error m w)
  case Nil
  then show ?case by auto
next
  case (Cons retry retries)
  obtain s m1 where s: "select_provider tried required_kind m = (s, m1)" by fastforce
  note m1 = select_provider_frame [OF s]
  show ?case
  proof (cases s)
    case None
    then show ?thesis using Cons.prems s m1 by auto
  next
    case (Some p)
    obtain a m2 w2 where a: "attempt_once env method params retry p m1 w = (a, m2, w2)" using prod_cases3 by blast
    note m2 = attempt_once_frame(1) [OF a]
    obtain rows where rows: "rm_stats m2 = rm_stats m @ rows" "logged p a rows" using attempt_once_frame(3) [OF a] m1 by auto
    have p: "p \<in> eligible required_kind m" using select_provider_Some s Some by auto
    have rest: "\<exists>rows. rm_stats m' = rm_stats m2 @ rows \<and> length rows \<le> length retries \<and>
        cr_provider_id ` set rows \<subseteq> pc_id ` eligible required_kind m \<and> call_rows r rows"
      if "attempts env method params required_kind retries d t l m2 w3 = (r, m', w')" for d t l w3
      using Cons.IH [OF that] m1 m2 by simp
    show ?thesis
    proof (cases a)
      case (CircuitSkipped wait_time)
      then show ?thesis using rest Cons.prems s Some a rows by (fastforce dest: le_SucI)
    next
      case (AttemptDone result)
      then show ?thesis using Cons.prems s Some a rows p by auto
    next
      case (AttemptFailed e)
      then obtain x where x: "rows = [x]" "cr_provider_id x = pc_id p" "\<not> cr_success x" using rows by auto
      show ?thesis
      proof (cases "is_retryable e")
        case True
        then obtain rs where "rm_stats m' = rm_stats m2 @ rs" "length rs \<le> length retries"
          "cr_provider_id ` set rs \<subseteq> pc_id ` eligible required_kind m" "call_rows r rs"
          using rest Cons.prems s Some a AttemptFailed by fastforce
        then show ?thesis using x rows p call_rows_Cons by (intro exI [of _ "x # rs"]) auto
      next
        case False
        then show ?thesis using Cons.prems s Some a AttemptFailed rows x p by auto
      qed
    qed
  qed
qed

lemma attempts_refusal:
  "attempts env method params required_kind retries dispatched tried last_error m w = (Inl e, m', w') \<Longrightarrow>
     is_send_refusal e \<Longrightarrow> method_from_str method = SendTransaction \<Longrightarrow> unat dispatched + length retries < 2 ^ 32 \<Longrightarrow>
     \<not> is_send_refusal (unwrap_or last_error (NoProvidersAvailable None)) \<Longrightarrow>
     dispatched = 0 \<and> node_error e \<and> (\<exists>x. rm_stats m' = rm_stats m @ [x] \<and> \<not> cr_success x)"
proof (induction retries arbitrary: dispatched tried last_error m w)
  case Nil
  then show ?case by simp
next
  case (Cons retry retries)
  obtain s m1 where s: "select_provider tried required_kind m = (s, m1)" by fastforce
  note m1 = select_provider_frame [OF s]
  obtain p where p: "s = Some p" using Cons.prems(1,2) s by (cases s) (auto simp: is_send_refusal_def)
  obtain a m2 w2 where a: "attempt_once env method params retry p m1 w = (a, m2, w2)" using prod_cases3 by blast
  obtain rows where rows: "rm_stats m2 = rm_stats m @ rows" "logged p a rows" using attempt_once_frame(3) [OF a] m1 by auto
  show ?case
  proof (cases a)
    case (CircuitSkipped wait_time)
    then show ?thesis
      using Cons.IH [of dispatched "tried @ [pc_id p]" "Some (CircuitOpen (pc_id p) wait_time)" m2 w2] Cons.prems s p a rows
      by (simp add: unwrap_or_def is_send_refusal_def)
  next
    case (AttemptDone result)
    then show ?thesis using Cons.prems s p a by simp
  next
    case (AttemptFailed e')
    show ?thesis
    proof (cases "is_retryable e'")
      case True
      have bound: "unat dispatched + 1 < 2 ^ 32" using Cons.prems(4) by simp
      then have next_count: "unat (dispatched + 1) = unat dispatched + 1" by (simp add: unat_word_ariths)
      have "\<not> is_send_refusal e'" using True send_refusal_not_retryable by blast
      then have "dispatched + 1 = 0"
        using Cons.IH [of "dispatched + 1" "tried @ [pc_id p]" "Some e'" m2] Cons.prems s p a AttemptFailed True next_count
        by (auto simp: unwrap_or_def)
      then show ?thesis using next_count by simp
    next
      case False
      then have "e = (if refusal_answers_for_call (method_from_str method) dispatched e' then e'
          else RefusedAfterDelivery dispatched e')" "m' = m2" using Cons.prems(1) s p a AttemptFailed by auto
      then have "e = e'" "dispatched = 0"
        using Cons.prems(2,3) by (auto simp: refusal_answers_for_call_def refused_after_delivery_unproven split: if_splits)
      then show ?thesis using rows AttemptFailed \<open>m' = m2\<close> by auto
    qed
  qed
qed

lemma attempts_no_providers:
  "attempts env method params required_kind retries dispatched tried last_error m w = (Inl (NoProvidersAvailable x), m', w') \<Longrightarrow>
     retries \<noteq> [] \<or> last_error \<noteq> None \<Longrightarrow> (\<And>y. last_error \<noteq> Some (NoProvidersAvailable y)) \<Longrightarrow>
     eligible required_kind m = {}"
proof (induction retries arbitrary: dispatched tried last_error m w)
  case Nil
  then show ?case by (cases last_error) (auto simp: unwrap_or_def)
next
  case (Cons retry retries)
  obtain s m1 where s: "select_provider tried required_kind m = (s, m1)" by fastforce
  note m1 = select_provider_frame [OF s]
  show ?case
  proof (cases s)
    case None
    then show ?thesis using select_provider_None [of tried required_kind m] s by simp
  next
    case (Some p)
    obtain a m2 w2 where a: "attempt_once env method params retry p m1 w = (a, m2, w2)" using prod_cases3 by blast
    note m2 = attempt_once_frame [OF a]
    have rest: "eligible required_kind m = {}"
      if "attempts env method params required_kind retries d t (Some e) m2 w3 = (Inl (NoProvidersAvailable x), m', w')"
        and "\<And>y. e \<noteq> NoProvidersAvailable y" for d t e w3
      using Cons.IH [OF that(1)] that(2) m1 m2 by simp
    show ?thesis
    proof (cases a)
      case (CircuitSkipped wait_time)
      then show ?thesis using Cons.prems(1) s Some a by (intro rest) auto
    next
      case (AttemptDone result)
      then show ?thesis using Cons.prems(1) s Some a by simp
    next
      case (AttemptFailed e)
      then have e: "e \<noteq> NoProvidersAvailable y" for y using m2(3) by auto
      then have "is_retryable e" using Cons.prems(1) s Some a AttemptFailed by (auto split: if_splits)
      then show ?thesis using Cons.prems(1) s Some a AttemptFailed e by (intro rest) auto
    qed
  qed
qed

section \<open>Agreement with the selectors\<close>

lemma calculate_provider_score_eq: "calculate_provider_score states i priority = score (map_of states i) priority"
  by (simp add: calculate_provider_score_def score_def)

lemma hd_least:
  assumes "sorted (map f xs)" and "xs \<noteq> []"
  shows "min_by (\<lambda>a b. f b < (f a :: 'b::linorder)) xs = Some (hd xs)"
proof (cases xs)
  case (Cons x ys)
  then have "\<forall>y\<in>set ys. \<not> f y < f x" using assms(1) by (auto simp: not_less)
  then show ?thesis using Cons fold_keeps [of ys "\<lambda>a b. f b < f a" x] by simp
qed (use assms in simp)

lemma select_provider_agrees:
  assumes "sorted (map pc_priority (rm_providers m))"
    and "filter (selectable (rm_provider_states m) excluded) (rm_providers m) \<noteq> []"
  shows "fst (select_provider excluded None m) =
    fst (create_selector (rm_selection_strategy m) (rm_round_robin_index m) (rm_providers m) (rm_provider_states m) excluded)"
proof -
  let ?A = "filter (selectable (rm_provider_states m) excluded) (rm_providers m)"
  have "sorted (map pc_priority ?A)" using assms(1) by (rule sorted_filter)
  then have least: "min_by (\<lambda>a b. pc_priority b < pc_priority a) ?A = Some (hd ?A)" using assms(2) by (rule hd_least)
  have A: "filter (\<lambda>p. pc_enabled p \<and> pc_id p \<notin> set excluded \<and> provider_matches_required_kind p None
      \<and> (case map_of (rm_provider_states m) (pc_id p) of None \<Rightarrow> True | Some s \<Rightarrow> is_healthy s)) (rm_providers m) = ?A"
    by (rule filter_cong) (auto simp: selectable_def provider_matches_required_kind_def)
  show ?thesis
    using assms(2) least
    by (cases "rm_selection_strategy m")
      (simp_all add: select_provider_def A Let_def round_robin_select_def priority_select_def latency_select_def
        adaptive_select_def calculate_provider_score_eq del: filter_empty_conv)
qed

lemma configured_priority:
  "i < length urls \<Longrightarrow> pc_priority (configured_providers hash_of urls ! i) = of_nat (i * 10)"
  by (simp add: configured_providers_def from_url_with_priority_def)

lemma configured_sorted:
  assumes "length urls \<le> 26"
  shows "sorted (map pc_priority (configured_providers hash_of urls))"
proof -
  have len: "length (configured_providers hash_of urls) = length urls" by (simp add: configured_providers_def)
  have "(of_nat (i * 10) :: u8) \<le> of_nat (j * 10)" if "i \<le> j" "j < 26" for i j
    using that by (simp only: word_le_nat_alt unat_of_nat) simp
  then show ?thesis using assms len by (auto simp: sorted_iff_nth_mono configured_priority)
qed

section \<open>An example\<close>

text \<open>A node that refuses every request as invalid, and a manager with that node alone.\<close>

definition refusing_env :: "(unit, string) node_env" where
  "refusing_env = \<lparr>re_json = \<lparr>ja_parse = Inr, ja_get = (\<lambda>v name. if name = ''data'' then None else Some v), ja_as_i64 = (\<lambda>_. Some INVALID_PARAMS),
       ja_as_u64 = (\<lambda>_. None), ja_as_str = Some, ja_as_bool = (\<lambda>_. None), ja_is_null = (\<lambda>_. False), ja_to_string = id, ja_null = []\<rparr>,
     re_offline = (\<lambda>_. True), re_access_token = (\<lambda>_. (None, ())), re_send = (\<lambda>_ _ _ _. (Inl True, ())), re_utc = (\<lambda>_. 0),
     re_now = (\<lambda>_. 0), ne_sleep = (\<lambda>_ _. ()), ne_until_ready = (\<lambda>_ _. ()), ne_post = (\<lambda>_ _ _ _. (Inr (200, Inr ''invalid''), ())),
     ne_utc_ms = (\<lambda>_. 0), ne_error_text = (\<lambda>_. ''refused'')\<rparr>"

definition single_manager :: rpc_manager where
  "single_manager = \<lparr>rm_providers = [default_provider_config], rm_provider_states = [], rm_rate_limiters = limiter_manager_new,
     rm_circuit_breakers = breaker_manager_new, rm_stats = [], rm_round_robin_index = 0, rm_selection_strategy = Priority,
     rm_default_timeout = 30000, rm_max_retries = 3, rm_retry_delay_base = 100, rm_retry_delay_max = 5000,
     rm_force_single_provider = False\<rparr>"

definition relaying :: relay_settings where
  "relaying = \<lparr>rs_active_mode = OwnRpc, rs_use_gateway_rpc = True, rs_is_signed_in = True, rs_has_submit_scope = True\<rparr>"

lemma single_select: "select_provider [] None single_manager = (Some default_provider_config, single_manager)"
  by (simp add: select_provider_def single_manager_def default_provider_config_def provider_matches_required_kind_def)

lemma refusing_single:
  "execute_single refusing_env p method params w = (Inl (ProviderError INVALID_PARAMS ''invalid'' None), ())"
  by (simp add: execute_single_def refusing_env_def is_success_def field_def unwrap_or_def from_jsonrpc_error_def Let_def
      ascii_lowercase_char_def)

lemma refusing_attempt:
  "fst (attempt_once refusing_env method params retry default_provider_config single_manager w) =
     AttemptFailed (ProviderError INVALID_PARAMS ''invalid'' None)"
  by (simp add: attempt_once_def refusing_single single_manager_def breaker_manager_new_def get_breaker_def breaker_new_def
      can_execute_def Let_def split: prod.splits)

lemma refusing_call:
  "fst (execute_raw refusing_env relaying False ''sendTransaction'' [] single_manager snapshot_initial ()) =
     Inl (ProviderError INVALID_PARAMS ''invalid'' None)"
proof -
  obtain m' where a: "attempt_once refusing_env ''sendTransaction'' [] 0 default_provider_config single_manager () =
      (AttemptFailed (ProviderError INVALID_PARAMS ''invalid'' None), m', ())"
    using refusing_attempt [of "''sendTransaction''" "[]" 0 "()"]
    by (cases "attempt_once refusing_env ''sendTransaction'' [] 0 default_provider_config single_manager ()") auto
  have "relay refusing_env ''sendTransaction'' [] snapshot_initial () = (NotAsked RefOffline, snapshot_initial, ())"
    by (simp add: relay_def refusing_env_def)
  moreover have "[0..<Suc (unat (rm_max_retries single_manager))] = 0 # [1..<4]"
    by (simp add: single_manager_def upt_rec)
  moreover have "\<not> is_retryable (ProviderError INVALID_PARAMS ''invalid'' None)" by (simp add: INVALID_PARAMS_def)
  ultimately show ?thesis
    using a single_select
    by (simp add: execute_raw_def refuse_send_in_paper_scope_def relay_fallthrough_def execute_raw_restricted_def
        refusal_answers_for_call_def Let_def del: is_retryable.simps split: prod.splits)
qed

section \<open>What a call promises\<close>

text \<open>C6: A send that is reported as refused was handed to one node at most. Either paper trading refused it and nothing
  was asked, or the call made exactly one request, which the node refused, and the relay, if it was asked before, proved
  that it had delivered nothing.\<close>

theorem refusal_proves_unsent:
  assumes "execute_raw env settings in_paper_scope ''sendTransaction'' params m sn w = (Inl e, m', sn', w')"
    and "is_send_refusal e" and "unat (rm_max_retries m) < 2 ^ 32 - 1"
  shows "if in_paper_scope then e = PaperScopeRefused \<and> m' = m \<and> w' = w
    else (\<exists>x. rm_stats m' = rm_stats m @ [x] \<and> \<not> cr_success x) \<and>
      (should_relay settings ''sendTransaction'' \<longrightarrow> nothing_delivered (fst (relay env ''sendTransaction'' params sn w)))"
proof (cases in_paper_scope)
  case True
  then show ?thesis
    using assms(1) by (simp add: execute_raw_def refuse_send_in_paper_scope_def send_transaction_name)
next
  case False
  have one: "d = 0 \<and> (\<exists>x. rm_stats m'' = rm_stats m @ [x] \<and> \<not> cr_success x)"
    if "execute_raw_restricted env ''sendTransaction'' params None d m w1 = (Inl e, m'', w'')" and "d = 0" for d w1 m'' w''
    using attempts_refusal [OF that(1) [unfolded execute_raw_restricted_def] assms(2)] that(2) assms(3)
    by (simp add: send_transaction_name unwrap_or_def is_send_refusal_def)
  show ?thesis
  proof (cases "should_relay settings ''sendTransaction''")
    case relay: True
    obtain r sn1 w1 where r: "relay env ''sendTransaction'' params sn w = (r, sn1, w1)" using prod_cases3 by blast
    show ?thesis
    proof (cases "relay_fallthrough ''sendTransaction'' r")
      case (Return x)
      then have "x = Inl e" using assms(1) False relay r by (simp add: execute_raw_def refuse_send_in_paper_scope_def)
      then show ?thesis using Return send_returns_no_refusal assms(2) by blast
    next
      case (Continue d)
      then have "d = 0" "nothing_delivered r" using send_continues by blast+
      then show ?thesis
        using one [of d w1 m' w'] assms(1) False relay r Continue
        by (auto simp: execute_raw_def refuse_send_in_paper_scope_def Let_def split: prod.splits)
    qed
  next
    case direct: False
    then show ?thesis
      using one [of 0 w m' w'] assms(1) False
      by (auto simp: execute_raw_def refuse_send_in_paper_scope_def Let_def split: prod.splits)
  qed
qed

theorem refusal_proves_unsent_witness:
  "\<exists>x. rm_stats (fst (snd (execute_raw refusing_env relaying False ''sendTransaction'' [] single_manager snapshot_initial ()))) = [x]
     \<and> \<not> cr_success x"
proof -
  obtain m' sn' w' where call: "execute_raw refusing_env relaying False ''sendTransaction'' [] single_manager snapshot_initial () =
      (Inl (ProviderError INVALID_PARAMS ''invalid'' None), m', sn', w')"
    using refusing_call by (cases "execute_raw refusing_env relaying False ''sendTransaction'' [] single_manager snapshot_initial ()") auto
  have "unat (rm_max_retries single_manager) < 2 ^ 32 - 1" by (simp add: single_manager_def)
  moreover have "is_send_refusal (ProviderError INVALID_PARAMS ''invalid'' None)" by (simp add: is_send_refusal_def INVALID_PARAMS_def)
  ultimately show ?thesis using refusal_proves_unsent [OF call] call by (simp add: single_manager_def)
qed

text \<open>C23: A call restricted to a kind of provider makes at most one request more than the allowed retries, each at an enabled
  provider of that kind; all of them fail but the last of a call that succeeds.\<close>

theorem restricted_call_rows:
  assumes "execute_raw_for_provider_kind env in_paper_scope kind method params m w = (r, m', w')"
  shows "\<exists>rows. rm_stats m' = rm_stats m @ rows \<and> length rows \<le> Suc (unat (rm_max_retries m)) \<and>
    cr_provider_id ` set rows \<subseteq> pc_id ` {p \<in> set (rm_providers m). pc_enabled p \<and> pc_kind p = kind} \<and> call_rows r rows"
proof (cases "refuse_send_in_paper_scope in_paper_scope method")
  case (Inl e)
  then show ?thesis using assms by (auto simp: execute_raw_for_provider_kind_def)
next
  case (Inr u)
  then have "attempts env method params (Some kind) (map of_nat [0..<Suc (unat (rm_max_retries m))]) 0 [] None m w = (r, m', w')"
    using assms by (simp add: execute_raw_for_provider_kind_def execute_raw_restricted_def)
  from attempts_rows [OF this] show ?thesis by (simp add: provider_matches_required_kind_def)
qed

theorem restricted_call_rows_witness:
  "let m = fst (snd (execute_raw_for_provider_kind refusing_env False UnknownKind ''getSlot'' [] single_manager ())) in
     length (rm_stats m) \<le> 4 \<and> cr_provider_id ` set (rm_stats m) \<subseteq> {''default''}"
proof -
  obtain r m' w' where call: "execute_raw_for_provider_kind refusing_env False UnknownKind ''getSlot'' [] single_manager () = (r, m', w')"
    using prod_cases3 by blast
  have "{p \<in> set (rm_providers single_manager). pc_enabled p \<and> pc_kind p = UnknownKind} \<subseteq> {default_provider_config}"
    unfolding single_manager_def by auto
  then have ids: "pc_id ` {p \<in> set (rm_providers single_manager). pc_enabled p \<and> pc_kind p = UnknownKind} \<subseteq> {''default''}"
    unfolding default_provider_config_def by auto
  have start: "rm_stats single_manager = []" "unat (rm_max_retries single_manager) = 3" by (simp_all add: single_manager_def)
  obtain rows where "rm_stats m' = rm_stats single_manager @ rows" "length rows \<le> Suc (unat (rm_max_retries single_manager))"
    "cr_provider_id ` set rows \<subseteq> pc_id ` {p \<in> set (rm_providers single_manager). pc_enabled p \<and> pc_kind p = UnknownKind}"
    using restricted_call_rows [OF call] by blast
  then show ?thesis using ids by (simp add: call start Let_def)
qed

text \<open>C24: A call ends with the report that no provider is available exactly when there is no enabled provider of the
  required kind: excluding the providers it has tried never makes it run out of them.\<close>

theorem no_providers_iff:
  "(\<exists>last_error. fst (execute_raw_restricted env method params required_kind dispatched m w) = Inl (NoProvidersAvailable last_error))
     \<longleftrightarrow> {p \<in> set (rm_providers m). pc_enabled p \<and> provider_matches_required_kind p required_kind} = {}"
proof -
  let ?retries = "map of_nat [0..<Suc (unat (rm_max_retries m))] :: u32 list"
  obtain r m' w' where call: "attempts env method params required_kind ?retries dispatched [] None m w = (r, m', w')"
    using prod_cases3 by blast
  have "eligible required_kind m = {}" if "r = Inl (NoProvidersAvailable x)" for x
    using attempts_no_providers [OF call [unfolded that]] by simp
  moreover have "\<exists>x. r = Inl (NoProvidersAvailable x)" if "eligible required_kind m = {}"
  proof -
    have "fst (select_provider [] required_kind m) = None" using that select_provider_None by blast
    then obtain m1 where "select_provider [] required_kind m = (None, m1)" by (cases "select_provider [] required_kind m") auto
    moreover obtain x xs where "?retries = x # xs" by (cases ?retries) auto
    ultimately show ?thesis using call by auto
  qed
  ultimately show ?thesis using call by (auto simp: execute_raw_restricted_def)
qed

text \<open>A manager configured with at most twenty-six URLs chooses, whatever its strategy, the provider that the selector
  of that strategy would choose, as long as a healthy one is left.\<close>

theorem manager_agrees_with_selector:
  assumes "rm_providers m = configured_providers hash_of urls" and "length urls \<le> 26"
    and "filter (selectable (rm_provider_states m) excluded) (rm_providers m) \<noteq> []"
  shows "fst (select_provider excluded None m) =
    fst (create_selector (rm_selection_strategy m) (rm_round_robin_index m) (rm_providers m) (rm_provider_states m) excluded)"
  using select_provider_agrees [OF _ assms(3)] assms(1) configured_sorted [OF assms(2)] by simp

theorem manager_agrees_with_selector_witness:
  "let m = single_manager\<lparr>rm_providers := configured_providers (\<lambda>_. 7) [''a'', ''b'']\<rparr> in
   fst (select_provider [] None m) =
     fst (create_selector Priority 0 (rm_providers m) [] [])"
proof -
  let ?m = "single_manager\<lparr>rm_providers := configured_providers (\<lambda>_. 7) [''a'', ''b'']\<rparr>"
  have "filter (selectable (rm_provider_states ?m) []) (rm_providers ?m) \<noteq> []"
    by (simp add: single_manager_def configured_providers_def selectable_def from_url_with_priority_def from_url_def Let_def)
  then show ?thesis using manager_agrees_with_selector [of ?m "\<lambda>_. 7" "[''a'', ''b'']" "[]"] by (simp add: single_manager_def)
qed

text \<open>The priority of the twenty-seventh URL is higher than that of the second.\<close>

lemma priority_wraps:
  "length urls = 27 \<Longrightarrow> pc_priority (configured_providers hash_of urls ! 26) < pc_priority (configured_providers hash_of urls ! 1)"
  by (simp add: configured_priority)

text \<open>The limiter a call asks for is never made with the configured rate of its kind.\<close>

lemma configured_rates_ignored:
  assumes "map_of (lm_limiters (rm_rate_limiters m)) (pc_id p) = None"
  shows "rl_base_rate (fst (get_limiter (pc_id p) (Some (effective_rate_limit p)) (pc_kind p) (rm_rate_limiters m))) =
    max (effective_rate_limit p) 1"
  using assms by (simp add: get_limiter_def Let_def)

end
