(* ===== verification/Exit_Sizing.thy ===== *)
theory Exit_Sizing
  imports Position_Booking Wallet_Ledger
begin

text \<open>
  How many raw tokens an exit sells, \<open>src/positions/operations/exit_sizing.rs\<close>: the full close, which sweeps the
  wallet but leaves what is not the position's, and the partial exit of a percentage. What the chain and the
  store of the positions answer is an argument. The text of a note keeps its literal.

  The lemmas show that an exit never sells more than the wallet holds, what other positions hold, or, for a
  quote asset, more than the position books.
\<close>

section \<open>Readings\<close>

datatype exit_share = ShareAll | SharePart flt

datatype other_open_held = Booked u128 | Unattributable i64

record exit_sale =
  es_amount :: u128
  es_note :: "string option"
  es_wallet_holding :: u128

datatype exit_readings =
    ReadAll u64 u64 u128 other_open_held bool
  | ReadPart u128 u128 flt

section \<open>The full close\<close>

record exit_sizing =
  xs_amount :: u64
  xs_note :: "string option"

definition swept_amount :: "u64 \<Rightarrow> u64 \<Rightarrow> u64 \<times> string option" where
  "swept_amount held primary =
     (if primary = 0 \<and> 0 < held then (held, Some ''primary_ata_empty_using_total'')
      else if primary < held \<and> 0 < primary then
        (primary, Some ''multi_account_total={total} primary={primary} shortfall={}, limiting_to_primary'')
      else (held, None))"

definition full_exit_amount :: "u64 \<Rightarrow> u64 \<Rightarrow> u128 \<Rightarrow> other_open_held \<Rightarrow> bool \<Rightarrow> exit_sizing" where
  "full_exit_amount held primary own_remaining others quote_asset =
     (let (swept, why) = swept_amount held primary; own = unwrap_or (try_into_u64 own_remaining) (- 1) in
      if quote_asset then
        (if swept \<le> own then \<lparr>xs_amount = swept, xs_note = why\<rparr>
         else \<lparr>xs_amount = own, xs_note = Some ''wallet_total={total} swept={swept} quote_asset_limiting_to_booked={own}''\<rparr>)
      else
        let cap = (\<lambda>own_cap. if swept \<le> own_cap then \<lparr>xs_amount = swept, xs_note = why\<rparr>
              else \<lparr>xs_amount = own_cap, xs_note = Some ''wallet_total={total} swept={swept} limiting_to_own_holding={own_cap}''\<rparr>)
        in case others of
            Booked other \<Rightarrow>
              if other = 0 then \<lparr>xs_amount = swept, xs_note = why\<rparr>
              else cap (case try_into_u64 other of None \<Rightarrow> 0 | Some other \<Rightarrow> saturating_sub held other)
          | Unattributable _ \<Rightarrow> cap own)"

section \<open>The partial exit\<close>

definition calculate_partial_amount :: "u128 \<Rightarrow> flt \<Rightarrow> u128" where
  "calculate_partial_amount total_amount percentage =
     (if total_amount = 0 \<or> percentage = NaN \<or> flt_le percentage (Fin 0) then 0
      else if flt_le (Fin 100) percentage then total_amount
      else let partial = (case flt_div (flt_mul (Fin (real (unat total_amount))) percentage) (Fin 100) of
               Fin r \<Rightarrow> Fin (of_int (if 0 \<le> r then \<lfloor>r\<rfloor> else \<lceil>r\<rceil>)) | x \<Rightarrow> x)
        in case from_integral_f64 partial of None \<Rightarrow> total_amount | Some partial \<Rightarrow> min partial total_amount)"

definition partial_exit_amount :: "u128 \<Rightarrow> u128 \<Rightarrow> flt \<Rightarrow> u128" where
  "partial_exit_amount remaining on_chain percentage = calculate_partial_amount (min on_chain remaining) percentage"

section \<open>Sizing an exit\<close>

fun size_exit :: "exit_readings \<Rightarrow> exit_sale" where
  "size_exit (ReadAll held primary own_remaining others quote_asset) =
     (let sizing = full_exit_amount held primary own_remaining others quote_asset in
      \<lparr>es_amount = ucast (xs_amount sizing), es_note = xs_note sizing, es_wallet_holding = ucast held\<rparr>)"
| "size_exit (ReadPart holding own_remaining percentage) =
     \<lparr>es_amount = partial_exit_amount own_remaining holding percentage, es_note = None, es_wallet_holding = holding\<rparr>"

text \<open>What the reads of the wallet and of the store answer, an error of type \<open>'e\<close> each.\<close>

record 'e exit_reads =
  xr_holding :: "'e + u128"
  xr_primary_holding :: "'e + u128"
  xr_other_open_held :: "i64 option \<Rightarrow> 'e + other_open_held"
  xr_store_chain :: "'e + unit"

datatype 'e exit_error = ReadFailed 'e | ExitAmountOverflow string string

definition read_exit_sale :: "'e exit_reads \<Rightarrow> string \<Rightarrow> position_row option \<Rightarrow> exit_share \<Rightarrow> 'e exit_error + exit_sale" where
  "read_exit_sale reads mint own share =
     (let own_remaining = unwrap_or (Option.bind own held_amount) 0 in
      case share of
        ShareAll \<Rightarrow>
          (case xr_holding reads of
             Inl e \<Rightarrow> Inl (ReadFailed e)
           | Inr holding \<Rightarrow>
               (case try_into_u64 holding of
                  None \<Rightarrow> Inl (ExitAmountOverflow mint ''sizing a full exit from the wallet holding'')
                | Some held \<Rightarrow>
                    let primary = unwrap_or (case xr_primary_holding reads of Inl _ \<Rightarrow> None | Inr amount \<Rightarrow> try_into_u64 amount) 0 in
                    case xr_other_open_held reads (Option.bind own po_id) of
                      Inl e \<Rightarrow> Inl (ReadFailed e)
                    | Inr others \<Rightarrow>
                        (case xr_store_chain reads of
                           Inl e \<Rightarrow> Inl (ReadFailed e)
                         | Inr _ \<Rightarrow> Inr (size_exit (ReadAll held primary own_remaining others (is_quote_asset mint))))))
      | SharePart percentage \<Rightarrow>
          (case xr_holding reads of
             Inl e \<Rightarrow> Inl (ReadFailed e)
           | Inr holding \<Rightarrow> Inr (size_exit (ReadPart holding own_remaining percentage))))"

section \<open>Lemmas\<close>

lemma unat_try_into: "try_into_u64 raw = Some w \<Longrightarrow> unat w = unat raw"
  by (auto simp: try_into_u64_def unat_narrow_64 split: if_splits)

lemma own_cap: "unat (unwrap_or (try_into_u64 raw) (- 1)) = min (unat raw) (2 ^ 64 - 1)"
  by (auto simp: try_into_u64_def unwrap_or_def unat_narrow_64 unat_all_ones)

lemma swept_bounds: "swept_amount held primary = (swept, why) \<Longrightarrow>
    unat swept = (if primary = 0 then unat held else min (unat held) (unat primary))"
  by (auto simp: swept_amount_def word_less_nat_alt min_def unat_eq_0 unat_gt_0 split: if_splits)

text \<open>What a full close may sell: the swept amount, up to what is the position's.\<close>

definition sellable :: "nat \<Rightarrow> nat \<Rightarrow> nat \<Rightarrow> other_open_held \<Rightarrow> bool \<Rightarrow> nat" where
  "sellable held swept own others quote_asset =
     (if quote_asset then min swept own
      else case others of Booked other \<Rightarrow> if other = 0 then swept else min swept (held - unat other) | Unattributable _ \<Rightarrow> min swept own)"

lemma full_exit_sellable:
  "unat (xs_amount (full_exit_amount held primary own others quote_asset)) =
     sellable (unat held) (if primary = 0 then unat held else min (unat held) (unat primary)) (unat own) others quote_asset"
proof -
  obtain swept why where s: "swept_amount held primary = (swept, why)" by fastforce
  have sw: "unat swept = (if primary = 0 then unat held else min (unat held) (unat primary))" by (rule swept_bounds [OF s])
  have "unat swept < 2 ^ 64" by (rule order_less_le_trans [OF unsigned_less]) simp
  then have top: "min (unat swept) (min n 18446744073709551615) = min (unat swept) n" for n by simp
  let ?own = "unwrap_or (try_into_u64 own) (- 1) :: u64"
  have capped: "unat (if swept \<le> c then swept else c) = min (unat swept) (unat c)" for c :: u64
    by (simp add: word_le_nat_alt min_def)
  have booked: "min (unat swept) (unat (case try_into_u64 other of None \<Rightarrow> 0 | Some other \<Rightarrow> saturating_sub held other))
      = min (unat swept) (unat held - unat other)" for other :: u128
  proof (cases "try_into_u64 other")
    case None
    then have "unat held \<le> unat other" using u64_bound [of held] by (simp add: try_into_u64_def split: if_splits)
    then show ?thesis using None by simp
  next
    case (Some w)
    then show ?thesis using unat_try_into [OF Some] by (simp add: unat_saturating_sub)
  qed
  have pick: "xs_amount (if b then \<lparr>xs_amount = x, xs_note = n\<rparr> else \<lparr>xs_amount = y, xs_note = n'\<rparr>) = (if b then x else y)" for b x y n n'
    by simp
  show ?thesis
    unfolding full_exit_amount_def s sellable_def Let_def prod.case sw [symmetric]
    by (cases others) (simp_all add: pick capped own_cap top booked)
qed

lemma sellable_bounds:
  assumes "swept \<le> held"
  shows "sellable held swept own others quote_asset \<le> held"
    "if quote_asset then sellable held swept own others quote_asset \<le> own
     else case others of Booked other \<Rightarrow> sellable held swept own others quote_asset + min (unat other) held \<le> held
       | Unattributable _ \<Rightarrow> sellable held swept own others quote_asset \<le> own"
  using assms by (auto simp: sellable_def split: other_open_held.splits)

text \<open>C11: A full close sells out of the holding it read and at most that. Beside it stays what the other open positions
  are booked with, as far as the wallet covers it; a quote asset, and a token whose other holdings cannot be attributed,
  is sold at most up to what the position itself books.\<close>

theorem full_close_leaves_others:
  assumes "read_exit_sale reads mint own ShareAll = Inr sale" and "xr_other_open_held reads (Option.bind own po_id) = Inr others"
  shows "xr_holding reads = Inr (es_wallet_holding sale) \<and> unat (es_amount sale) \<le> unat (es_wallet_holding sale) \<and>
    (if is_quote_asset mint then unat (es_amount sale) \<le> unat (unwrap_or (Option.bind own held_amount) 0)
     else case others of
         Booked other \<Rightarrow> unat (es_amount sale) + min (unat other) (unat (es_wallet_holding sale)) \<le> unat (es_wallet_holding sale)
       | Unattributable _ \<Rightarrow> unat (es_amount sale) \<le> unat (unwrap_or (Option.bind own held_amount) 0))"
proof -
  obtain holding held primary where r: "xr_holding reads = Inr holding" "try_into_u64 holding = Some held"
    "sale = size_exit (ReadAll held primary (unwrap_or (Option.bind own held_amount) 0) others (is_quote_asset mint))"
    using assms by (auto simp: read_exit_sale_def Let_def split: sum.splits option.splits)
  have held: "unat held = unat holding" by (rule unat_try_into [OF r(2)])
  let ?swept = "if primary = 0 then unat held else min (unat held) (unat primary)"
  let ?n = "sellable (unat held) ?swept (unat (unwrap_or (Option.bind own held_amount) 0)) others (is_quote_asset mint)"
  have amount: "unat (es_amount sale) = ?n" 
    unfolding full_exit_sellable [symmetric] r(3) by (simp add: Let_def unat_widen_128)
  have wallet: "es_wallet_holding sale = holding" using r(3) held by (intro word_nat_eqI) (simp add: Let_def unat_widen_128)
  have "?swept \<le> unat held" by simp
  note bounds = sellable_bounds [OF this, where own = "unat (unwrap_or (Option.bind own held_amount) 0)" and others = others
    and quote_asset = "is_quote_asset mint"]
  show ?thesis
    unfolding amount wallet r(1) held [symmetric] by (intro conjI refl bounds)
qed

lemma calculate_partial_floor:
  assumes "0 < pct" and "pct < 100"
  shows "int (unat (calculate_partial_amount base (Fin pct))) = \<lfloor>real (unat base) * pct / 100\<rfloor>"
proof (cases "base = 0")
  case False
  define r where "r = real (unat base) * pct / 100"
  have r0: "0 \<le> r" unfolding r_def using assms(1) by (intro divide_nonneg_nonneg mult_nonneg_nonneg) (simp_all del: of_nat_unat)
  have "real (unat base) * pct \<le> real (unat base) * 100" using assms(2) by (intro mult_left_mono) (simp_all del: of_nat_unat)
  then have rb: "r \<le> real (unat base)" unfolding r_def by (simp del: of_nat_unat)
  then have fb: "\<lfloor>r\<rfloor> \<le> int (unat base)" by (simp add: floor_le_iff del: of_nat_unat)
  have "unat base < 2 ^ 128" by (rule order_less_le_trans [OF unsigned_less]) simp
  then have "int (unat base) < int (2 ^ 128)" by (simp only: of_nat_less_iff)
  then have "\<lfloor>r\<rfloor> < int (2 ^ 128)" using fb by (rule order_le_less_trans [rotated])
  then have small: "\<lfloor>r\<rfloor> < 2 ^ 128" by (simp only: of_nat_power of_nat_numeral)
  then have some: "from_integral_f64 (Fin (of_int \<lfloor>r\<rfloor>)) = Some (word_of_int \<lfloor>r\<rfloor>)"
    using r0 by (simp add: from_integral_f64_def)
  have w: "int (unat (word_of_int \<lfloor>r\<rfloor> :: u128)) = \<lfloor>r\<rfloor>"
    using r0 small by (simp add: uint_word_of_int)
  have "unat (word_of_int \<lfloor>r\<rfloor> :: u128) \<le> unat base" using w fb by linarith
  then have "min (word_of_int \<lfloor>r\<rfloor>) base = (word_of_int \<lfloor>r\<rfloor> :: u128)" by (simp add: min_def word_le_nat_alt)
  moreover have "calculate_partial_amount base (Fin pct) = min (word_of_int \<lfloor>r\<rfloor>) base"
    using False assms r0 some unfolding calculate_partial_amount_def r_def by (simp add: not_le del: of_nat_unat)
  ultimately show ?thesis using w unfolding r_def by simp
qed (simp add: calculate_partial_amount_def)

definition sample_reads :: "string exit_reads" where
  "sample_reads = \<lparr>xr_holding = Inr 2000, xr_primary_holding = Inr 1500, xr_other_open_held = (\<lambda>_. Inr (Booked 600)), xr_store_chain = Inr ()\<rparr>"

lemma sample_full_close:
  "read_exit_sale sample_reads ''mint'' None ShareAll = Inr (size_exit (ReadAll 2000 1500 0 (Booked 600) (is_quote_asset ''mint'')))"
  by (simp add: read_exit_sale_def sample_reads_def try_into_u64_def unwrap_or_def Let_def)

lemma mint_not_quote: "\<not> is_quote_asset ''mint''"
  by code_simp

theorem full_close_leaves_others_witness:
  "unat (es_amount (size_exit (ReadAll 2000 1500 0 (Booked 600) False))) + 600 \<le> 2000"
  using full_close_leaves_others [OF sample_full_close, of "Booked 600"] mint_not_quote by (simp add: sample_reads_def Let_def)

text \<open>A partial exit sells its percentage of what the position holds and the wallet has, whichever is less, rounded down
  to a raw unit.\<close>

theorem partial_exit_exact:
  assumes "read_exit_sale reads mint own (SharePart (Fin pct)) = Inr sale" and "0 < pct" and "pct < 100"
  shows "xr_holding reads = Inr (es_wallet_holding sale) \<and>
    int (unat (es_amount sale)) =
      \<lfloor>real (min (unat (es_wallet_holding sale)) (unat (unwrap_or (Option.bind own held_amount) 0))) * pct / 100\<rfloor>"
proof -
  let ?own = "unwrap_or (Option.bind own held_amount) 0"
  obtain holding where h: "xr_holding reads = Inr holding" "sale = size_exit (ReadPart holding ?own (Fin pct))"
    using assms(1) by (auto simp: read_exit_sale_def Let_def split: sum.splits)
  have "int (unat (calculate_partial_amount base (Fin pct))) = \<lfloor>real (unat base) * pct / 100\<rfloor>" for base
    by (rule calculate_partial_floor [OF assms(2,3)])
  then show ?thesis using h by (simp add: partial_exit_amount_def unat_min_word del: of_nat_unat)
qed

theorem partial_exit_exact_witness:
  "int (unat (es_amount (size_exit (ReadPart 2000 1000 (Fin 25))))) = \<lfloor>real (min (unat (2000 :: u128)) (unat (1000 :: u128))) * 25 / 100\<rfloor>"
proof -
  let ?own = "Some (sample_row\<lparr>po_remaining_token_amount := Some 1000\<rparr>)"
  have own: "Option.bind ?own held_amount = Some 1000" by (simp add: held_amount_def)
  have "read_exit_sale sample_reads ''mint'' ?own (SharePart (Fin 25)) = Inr (size_exit (ReadPart 2000 1000 (Fin 25)))"
    unfolding read_exit_sale_def own by (simp add: sample_reads_def unwrap_or_def Let_def)
  from partial_exit_exact [OF this] show ?thesis unfolding own by (simp add: unwrap_or_def)
qed

end
