(* ===== verification/Loss_Limit.thy ===== *)
theory Loss_Limit
  imports Float_Value
begin

text \<open>
  The loss limit of a period, \<open>src/trader/safety/loss_limit.rs\<close>: entries are paused while the loss the books
  realized in the period is at the limit. Times are milliseconds; the readings of the clock and of the books
  are arguments. A read of the books takes time, in which other callers may act; the model of a read keeps
  what they did. A poisoned lock is not modelled.

  The lemmas show that the figure always belongs to the current window, that entries are open only below the
  limit unless somebody resumed them, and that a pause lasts until its period is over or it is lifted.
\<close>

section \<open>State\<close>

record loss_config =
  lc_enabled :: bool
  lc_limit_native :: flt
  lc_period_hours :: nat
  lc_auto_resume :: bool

record loss_limit_state_internal =
  li_period_start :: int
  li_counted_since :: int
  li_cumulative_loss_native :: flt
  li_is_limited :: bool
  li_limited_at :: "int option"

record loss_limit_state =
  ls_period_start :: int
  ls_cumulative_loss_native :: flt
  ls_is_limited :: bool
  ls_limited_at :: "int option"
  ls_period_remaining_secs :: i64

definition hours :: "nat \<Rightarrow> int" where
  "hours n = int n * 3600000"

definition loss_limit_initial :: "int \<Rightarrow> loss_limit_state_internal" where
  "loss_limit_initial now = \<lparr>li_period_start = now, li_counted_since = now, li_cumulative_loss_native = Fin 0,
     li_is_limited = False, li_limited_at = None\<rparr>"

section \<open>Operations\<close>

definition check_and_reset_period_if_needed :: "loss_config \<Rightarrow> int \<Rightarrow> loss_limit_state_internal \<Rightarrow> loss_limit_state_internal" where
  "check_and_reset_period_if_needed cfg now s =
     (if li_period_start s + hours (lc_period_hours cfg) \<le> now then
        let s = (if lc_auto_resume cfg then s\<lparr>li_is_limited := False, li_limited_at := None\<rparr> else s)
        in s\<lparr>li_period_start := now, li_counted_since := now, li_cumulative_loss_native := Fin 0\<rparr>
      else s)"

definition is_entry_blocked_by_loss_limit ::
  "loss_config \<Rightarrow> int \<Rightarrow> loss_limit_state_internal \<Rightarrow> bool \<times> loss_limit_state_internal" where
  "is_entry_blocked_by_loss_limit cfg now s =
     (if \<not> lc_enabled cfg then (False, s)
      else let s = check_and_reset_period_if_needed cfg now s in (li_is_limited s, s))"

definition get_loss_limit_status ::
  "loss_config \<Rightarrow> int \<Rightarrow> loss_limit_state_internal \<Rightarrow> loss_limit_state \<times> loss_limit_state_internal" where
  "get_loss_limit_status cfg now s =
     (let s = check_and_reset_period_if_needed cfg now s;
          period_end = li_period_start s + hours (lc_period_hours cfg);
          remaining = max 0 ((period_end - now) div 1000)
      in (\<lparr>ls_period_start = li_period_start s, ls_cumulative_loss_native = li_cumulative_loss_native s,
           ls_is_limited = li_is_limited s, ls_limited_at = li_limited_at s, ls_period_remaining_secs = remaining\<rparr>, s))"

definition resume_from_loss_limit :: "loss_limit_state_internal \<Rightarrow> loss_limit_state_internal" where
  "resume_from_loss_limit s = (if li_is_limited s then s\<lparr>li_is_limited := False, li_limited_at := None\<rparr> else s)"

definition reset_loss_limit_state :: "int \<Rightarrow> loss_limit_state_internal \<Rightarrow> loss_limit_state_internal" where
  "reset_loss_limit_state now s = \<lparr>li_period_start = now, li_counted_since = now, li_cumulative_loss_native = Fin 0,
     li_is_limited = False, li_limited_at = None\<rparr>"

section \<open>Following the books\<close>

text \<open>What other callers do at a time, all of it under the lock of the state.\<close>

datatype loss_op = EntryCheck | StatusRead | Resume | ResetState

fun loss_op_apply :: "loss_config \<Rightarrow> int \<times> loss_op \<Rightarrow> loss_limit_state_internal \<Rightarrow> loss_limit_state_internal" where
  "loss_op_apply cfg (now, EntryCheck) s = snd (is_entry_blocked_by_loss_limit cfg now s)"
| "loss_op_apply cfg (now, StatusRead) s = snd (get_loss_limit_status cfg now s)"
| "loss_op_apply cfg (now, Resume) s = resume_from_loss_limit s"
| "loss_op_apply cfg (now, ResetState) s = reset_loss_limit_state now s"

text \<open>A read of the books: when it starts, what the others do meanwhile, what the books say and when it ends.\<close>

record books_read =
  br_before :: int
  br_others :: "(int \<times> loss_op) list"
  br_loss :: "int \<Rightarrow> string + flt"
  br_after :: int

definition follow_figure :: "loss_config \<Rightarrow> int \<Rightarrow> flt \<Rightarrow> loss_limit_state_internal \<Rightarrow> loss_limit_state_internal" where
  "follow_figure cfg now loss s =
     (let rose = flt_lt (li_cumulative_loss_native s) loss; limit = lc_limit_native cfg;
          s = s\<lparr>li_cumulative_loss_native := loss\<rparr> in
      if \<not> li_is_limited s \<and> rose \<and> flt_le limit loss then s\<lparr>li_is_limited := True, li_limited_at := Some now\<rparr> else s)"

fun follow_books :: "loss_config \<Rightarrow> books_read list \<Rightarrow> loss_limit_state_internal \<Rightarrow> loss_limit_state_internal" where
  "follow_books cfg [] s = s"
| "follow_books cfg (r # rs) s =
     (let s = check_and_reset_period_if_needed cfg (br_before r) s; counted_since = li_counted_since s;
          s = fold (loss_op_apply cfg) (br_others r) s in
      case br_loss r counted_since of
        Inl _ \<Rightarrow> s
      | Inr loss \<Rightarrow>
          if li_counted_since s \<noteq> counted_since then follow_books cfg rs s
          else follow_figure cfg (br_after r) loss s)"

definition PERIOD_ROLLOVER_REREADS :: nat where
  "PERIOD_ROLLOVER_REREADS = 1"

definition sync_from_books :: "loss_config \<Rightarrow> books_read list \<Rightarrow> loss_limit_state_internal \<Rightarrow> loss_limit_state_internal" where
  "sync_from_books cfg reads s =
     (if \<not> lc_enabled cfg then s else follow_books cfg (take (Suc PERIOD_ROLLOVER_REREADS) reads) s)"

text \<open>At startup the window begins one period before the period does; the status that is logged at the end is read at
  \<open>after\<close>, which may begin a new period.\<close>

definition initialize_from_history ::
  "loss_config \<Rightarrow> int \<Rightarrow> books_read list \<Rightarrow> int \<Rightarrow> loss_limit_state_internal \<Rightarrow> loss_limit_state_internal" where
  "initialize_from_history cfg now reads after s =
     (if \<not> lc_enabled cfg then s
      else let s = s\<lparr>li_period_start := now, li_counted_since := now - hours (lc_period_hours cfg)\<rparr>;
          s = sync_from_books cfg reads s
        in snd (get_loss_limit_status cfg after s))"

section \<open>A life of the limiter\<close>

datatype loss_event = Other "int \<times> loss_op" | Sync "books_read list"

primrec loss_event_apply :: "loss_config \<Rightarrow> loss_event \<Rightarrow> loss_limit_state_internal \<Rightarrow> loss_limit_state_internal" where
  "loss_event_apply cfg (Other x) s = loss_op_apply cfg x s"
| "loss_event_apply cfg (Sync reads) s = sync_from_books cfg reads s"

definition reads_of :: "loss_event list \<Rightarrow> books_read list" where
  "reads_of es = concat (map (\<lambda>e. case e of Sync reads \<Rightarrow> reads | Other _ \<Rightarrow> []) es)"

text \<open>The operations of other callers, with the times at which anything looks at the period.\<close>

definition ops_of :: "loss_event list \<Rightarrow> (int \<times> loss_op) list" where
  "ops_of es = concat (map (\<lambda>e. case e of
     Sync reads \<Rightarrow> concat (map (\<lambda>r. (br_before r, StatusRead) # br_others r) reads) | Other x \<Rightarrow> [x]) es)"

section \<open>Below the limit or paused\<close>

definition guarded :: "loss_config \<Rightarrow> loss_limit_state_internal \<Rightarrow> bool" where
  "guarded cfg s \<longleftrightarrow> is_finite (li_cumulative_loss_native s)
     \<and> (li_is_limited s \<or> flt_lt (li_cumulative_loss_native s) (lc_limit_native cfg))"

lemma guarded_reset_period: "usable (lc_limit_native cfg) \<Longrightarrow> guarded cfg s \<Longrightarrow> guarded cfg (check_and_reset_period_if_needed cfg now s)"
  by (auto simp: guarded_def check_and_reset_period_if_needed_def Let_def)

lemma guarded_op:
  assumes "usable (lc_limit_native cfg)" and "guarded cfg s" and "snd x \<noteq> Resume"
  shows "guarded cfg (loss_op_apply cfg x s)"
  using assms guarded_reset_period [OF assms(1,2)]
  by (cases "(cfg, x, s)" rule: loss_op_apply.cases)
    (auto simp: is_entry_blocked_by_loss_limit_def get_loss_limit_status_def reset_loss_limit_state_def guarded_def Let_def)

lemma guarded_ops:
  "usable (lc_limit_native cfg) \<Longrightarrow> guarded cfg s \<Longrightarrow> (\<And>x. x \<in> set xs \<Longrightarrow> snd x \<noteq> Resume) \<Longrightarrow>
     guarded cfg (fold (loss_op_apply cfg) xs s)"
  by (induction xs arbitrary: s) (simp_all add: guarded_op)

lemma guarded_follow_figure:
  "usable (lc_limit_native cfg) \<Longrightarrow> guarded cfg s \<Longrightarrow> is_finite loss \<Longrightarrow> guarded cfg (follow_figure cfg now loss s)"
  by (cases "lc_limit_native cfg"; cases "li_cumulative_loss_native s"; cases loss)
    (auto simp: guarded_def follow_figure_def Let_def)

definition unresumed :: "books_read \<Rightarrow> bool" where
  "unresumed r \<longleftrightarrow> Resume \<notin> snd ` set (br_others r)"

definition finite_losses :: "books_read \<Rightarrow> bool" where
  "finite_losses r \<longleftrightarrow> (\<forall>since loss. br_loss r since = Inr loss \<longrightarrow> is_finite loss)"

lemma guarded_follow_books:
  "usable (lc_limit_native cfg) \<Longrightarrow> guarded cfg s \<Longrightarrow> (\<And>r. r \<in> set rs \<Longrightarrow> unresumed r \<and> finite_losses r) \<Longrightarrow>
     guarded cfg (follow_books cfg rs s)"
proof (induction rs arbitrary: s)
  case (Cons r rs)
  let ?s = "check_and_reset_period_if_needed cfg (br_before r) s"
  have r: "unresumed r" "finite_losses r" using Cons.prems(3) [of r] by simp_all
  have "snd x \<noteq> Resume" if "x \<in> set (br_others r)" for x using r(1) that by (metis image_eqI unresumed_def)
  then have g: "guarded cfg (fold (loss_op_apply cfg) (br_others r) ?s)"
    by (rule guarded_ops [OF Cons.prems(1) guarded_reset_period [OF Cons.prems(1,2)]])
  show ?case
  proof (cases "br_loss r (li_counted_since ?s)")
    case (Inl e)
    then show ?thesis using g by (simp add: Let_def)
  next
    case (Inr loss)
    then have "is_finite loss" using r(2) by (auto simp: finite_losses_def)
    then show ?thesis using Inr g Cons.IH [OF Cons.prems(1) g] Cons.prems guarded_follow_figure by (simp add: Let_def)
  qed
qed simp

lemma guarded_events:
  "usable (lc_limit_native cfg) \<Longrightarrow> guarded cfg s \<Longrightarrow> (\<And>x. Other x \<in> set es \<Longrightarrow> snd x \<noteq> Resume) \<Longrightarrow>
     (\<And>r. r \<in> set (reads_of es) \<Longrightarrow> unresumed r \<and> finite_losses r) \<Longrightarrow> guarded cfg (fold (loss_event_apply cfg) es s)"
proof (induction es arbitrary: s)
  case (Cons e es)
  have "guarded cfg (loss_event_apply cfg e s)"
  proof (cases e)
    case (Other x)
    then show ?thesis using Cons.prems by (simp add: guarded_op)
  next
    case (Sync reads)
    have "unresumed r \<and> finite_losses r" if "r \<in> set (take n reads)" for r n
      using in_set_takeD [OF that] Cons.prems(4) [of r] Sync by (simp add: reads_of_def)
    then show ?thesis
      using Sync Cons.prems(1,2) by (auto simp: sync_from_books_def intro: guarded_follow_books)
  qed
  moreover have "unresumed r \<and> finite_losses r" if "r \<in> set (reads_of es)" for r
    using that Cons.prems(4) [of r] by (cases e) (simp_all add: reads_of_def)
  ultimately show ?case using Cons.IH [OF Cons.prems(1)] Cons.prems(3) by simp
qed simp

section \<open>The figure and its window\<close>

definition of_window :: "books_read set \<Rightarrow> loss_limit_state_internal \<Rightarrow> bool" where
  "of_window R s \<longleftrightarrow> li_cumulative_loss_native s = Fin 0
     \<or> (\<exists>r\<in>R. br_loss r (li_counted_since s) = Inr (li_cumulative_loss_native s))"

lemma of_window_reset_period: "of_window R s \<Longrightarrow> of_window R (check_and_reset_period_if_needed cfg now s)"
  by (auto simp: of_window_def check_and_reset_period_if_needed_def Let_def)

lemma of_window_op: "of_window R s \<Longrightarrow> of_window R (loss_op_apply cfg x s)"
  using of_window_reset_period [of R s cfg]
  by (cases "(cfg, x, s)" rule: loss_op_apply.cases)
    (auto simp: is_entry_blocked_by_loss_limit_def get_loss_limit_status_def reset_loss_limit_state_def
      resume_from_loss_limit_def of_window_def Let_def)

lemma of_window_ops: "of_window R s \<Longrightarrow> of_window R (fold (loss_op_apply cfg) xs s)"
  by (induction xs arbitrary: s) (simp_all add: of_window_op)

lemma of_window_follow_books: "of_window R s \<Longrightarrow> set rs \<subseteq> R \<Longrightarrow> of_window R (follow_books cfg rs s)"
proof (induction rs arbitrary: s)
  case (Cons r rs)
  let ?s = "check_and_reset_period_if_needed cfg (br_before r) s"
  have w: "of_window R (fold (loss_op_apply cfg) (br_others r) ?s)"
    by (intro of_window_ops of_window_reset_period Cons.prems)
  show ?case
  proof (cases "br_loss r (li_counted_since ?s)")
    case (Inl e)
    then show ?thesis using w by (simp add: Let_def)
  next
    case (Inr loss)
    have "of_window R (follow_figure cfg (br_after r) loss (fold (loss_op_apply cfg) (br_others r) ?s))"
      if "li_counted_since (fold (loss_op_apply cfg) (br_others r) ?s) = li_counted_since ?s"
      using that Inr Cons.prems(2) by (auto simp: of_window_def follow_figure_def Let_def)
    then show ?thesis using Inr Cons.IH [OF w] Cons.prems(2) by (simp add: Let_def)
  qed
qed simp

lemma of_window_events:
  "of_window R s \<Longrightarrow> set (reads_of es) \<subseteq> R \<Longrightarrow> of_window R (fold (loss_event_apply cfg) es s)"
proof (induction es arbitrary: s)
  case (Cons e es)
  have "of_window R (loss_event_apply cfg e s)"
  proof (cases e)
    case (Other x)
    then show ?thesis using Cons.prems(1) of_window_op by simp
  next
    case (Sync reads)
    then have "set (take n reads) \<subseteq> R" for n
      using Cons.prems(2) set_take_subset [of n reads] by (auto simp: reads_of_def)
    then show ?thesis using Sync Cons.prems(1) by (simp add: sync_from_books_def of_window_follow_books)
  qed
  then show ?case using Cons.IH Cons.prems(2) by (simp add: reads_of_def)
qed simp

text \<open>C13: The figure is never one read for another period: whatever interleaves with the reads of the books, it is zero or
  what the books said about the window it is counted in.\<close>

theorem figure_of_window:
  "let s = fold (loss_event_apply cfg) es (loss_limit_initial now) in
   li_cumulative_loss_native s = Fin 0
     \<or> (\<exists>r\<in>set (reads_of es). br_loss r (li_counted_since s) = Inr (li_cumulative_loss_native s))"
  using of_window_events [of "set (reads_of es)" "loss_limit_initial now" es cfg]
  by (simp add: Let_def of_window_def loss_limit_initial_def)

text \<open>Without a manual resume entries are open only while the loss of the period is below the limit, whatever periods
  end, whatever the books say and whatever interleaves with reading them.\<close>

theorem entries_open_below_limit:
  assumes "usable (lc_limit_native cfg)" and "lc_enabled cfg" and "\<And>x. Other x \<in> set es \<Longrightarrow> snd x \<noteq> Resume"
    and "\<And>r. r \<in> set (reads_of es) \<Longrightarrow> unresumed r \<and> finite_losses r"
  shows "let (blocked, s) = is_entry_blocked_by_loss_limit cfg t (fold (loss_event_apply cfg) es (loss_limit_initial now)) in
    blocked \<or> flt_lt (li_cumulative_loss_native s) (lc_limit_native cfg)"
proof -
  have "guarded cfg (loss_limit_initial now)" using assms(1) by (simp add: guarded_def loss_limit_initial_def)
  then have "guarded cfg (fold (loss_event_apply cfg) es (loss_limit_initial now))" by (rule guarded_events [OF assms(1) _ assms(3,4)])
  from guarded_reset_period [OF assms(1) this] show ?thesis
    using assms(2) by (auto simp: is_entry_blocked_by_loss_limit_def guarded_def Let_def)
qed

text \<open>A read on a sample: the books say what they realized since an instant.\<close>

definition plain_read :: "int \<Rightarrow> flt \<Rightarrow> books_read" where
  "plain_read now loss = \<lparr>br_before = now, br_others = [], br_loss = (\<lambda>_. Inr loss), br_after = now\<rparr>"

definition sample_loss_config :: loss_config where
  "sample_loss_config = \<lparr>lc_enabled = True, lc_limit_native = Fin 1, lc_period_hours = 24, lc_auto_resume = True\<rparr>"

theorem entries_open_below_limit_witness:
  "let (blocked, s) = is_entry_blocked_by_loss_limit sample_loss_config 30
      (fold (loss_event_apply sample_loss_config) [Sync [plain_read 10 (Fin (1 / 2))], Other (15, StatusRead), Sync [plain_read 20 (Fin 2)]]
        (loss_limit_initial 0)) in
    blocked \<or> flt_lt (li_cumulative_loss_native s) (lc_limit_native sample_loss_config)"
  by (rule entries_open_below_limit)
    (auto simp: sample_loss_config_def plain_read_def reads_of_def unresumed_def finite_losses_def)

text \<open>A restart keeps both: the figure it starts from is below the limit or paused, and losses the books realized in the
  period before the restart pause entries again.\<close>

lemma guarded_startup:
  assumes "usable (lc_limit_native cfg)" and "guarded cfg s" and "\<And>r. r \<in> set reads \<Longrightarrow> unresumed r \<and> finite_losses r"
  shows "guarded cfg (initialize_from_history cfg now reads after s)"
proof -
  let ?s = "s\<lparr>li_period_start := now, li_counted_since := now - hours (lc_period_hours cfg)\<rparr>"
  have "guarded cfg ?s" using assms(2) by (simp add: guarded_def)
  then have "guarded cfg (follow_books cfg (take (Suc PERIOD_ROLLOVER_REREADS) reads) ?s)"
    by (rule guarded_follow_books [OF assms(1)]) (meson assms(3) in_set_takeD)
  then have "guarded cfg (check_and_reset_period_if_needed cfg after (sync_from_books cfg reads ?s))"
    using \<open>guarded cfg ?s\<close> by (simp add: sync_from_books_def guarded_reset_period [OF assms(1)])
  then show ?thesis using assms(2) by (simp add: initialize_from_history_def get_loss_limit_status_def Let_def)
qed

lemma restart_keeps_pause:
  assumes "lc_enabled cfg" and "br_others r = []" and "br_loss r (now - hours (lc_period_hours cfg)) = Inr loss"
    and "flt_lt (Fin 0) loss" and "flt_le (lc_limit_native cfg) loss"
    and "br_before r < now + hours (lc_period_hours cfg)" and "after < now + hours (lc_period_hours cfg)"
  shows "li_is_limited (initialize_from_history cfg now (r # reads) after (loss_limit_initial start))"
  using assms
  by (simp add: initialize_from_history_def sync_from_books_def get_loss_limit_status_def follow_figure_def
      check_and_reset_period_if_needed_def loss_limit_initial_def Let_def)

section \<open>How long a pause lasts\<close>

text \<open>Something that happens at a time neither lifts the pause nor, where a new period lifts it, comes after the end.\<close>

definition lasting :: "loss_config \<Rightarrow> int \<Rightarrow> int \<times> loss_op \<Rightarrow> bool" where
  "lasting cfg period_end x \<longleftrightarrow> snd x \<noteq> Resume \<and> snd x \<noteq> ResetState \<and> (\<not> lc_auto_resume cfg \<or> fst x < period_end)"

definition paused :: "loss_config \<Rightarrow> int \<Rightarrow> loss_limit_state_internal \<Rightarrow> bool" where
  "paused cfg period_end s \<longleftrightarrow> li_is_limited s
     \<and> (\<not> lc_auto_resume cfg \<or> li_period_start s + hours (lc_period_hours cfg) = period_end)"

lemma paused_reset_period:
  "paused cfg e s \<Longrightarrow> lasting cfg e (now, x) \<Longrightarrow> paused cfg e (check_and_reset_period_if_needed cfg now s)"
  by (auto simp: paused_def lasting_def check_and_reset_period_if_needed_def Let_def)

lemma paused_op:
  assumes "paused cfg e s" and "lasting cfg e x"
  shows "paused cfg e (loss_op_apply cfg x s)"
proof -
  obtain now y where x: "x = (now, y)" by (cases x)
  have "paused cfg e (check_and_reset_period_if_needed cfg now s)" using paused_reset_period assms x by blast
  then show ?thesis
    using assms x by (cases y) (auto simp: lasting_def is_entry_blocked_by_loss_limit_def get_loss_limit_status_def Let_def)
qed

lemma paused_ops: "paused cfg e s \<Longrightarrow> list_all (lasting cfg e) xs \<Longrightarrow> paused cfg e (fold (loss_op_apply cfg) xs s)"
  by (induction xs arbitrary: s) (simp_all add: paused_op)

lemma paused_follow_figure: "paused cfg e s \<Longrightarrow> paused cfg e (follow_figure cfg now loss s)"
  by (simp add: paused_def follow_figure_def Let_def)

lemma paused_follow_books:
  "paused cfg e s \<Longrightarrow> list_all (lasting cfg e) (concat (map (\<lambda>r. (br_before r, StatusRead) # br_others r) rs)) \<Longrightarrow>
     paused cfg e (follow_books cfg rs s)"
proof (induction rs arbitrary: s)
  case (Cons r rs)
  let ?s = "fold (loss_op_apply cfg) (br_others r) (check_and_reset_period_if_needed cfg (br_before r) s)"
  have "paused cfg e ?s"
    using Cons.prems by (intro paused_ops paused_reset_period [of cfg e s _ StatusRead]) simp_all
  then show ?case using Cons.IH [of ?s] Cons.prems(2) paused_follow_figure by (simp add: Let_def split: sum.splits)
qed simp

lemma ops_of_take:
  "list_all P (concat (map f rs)) \<Longrightarrow> list_all P (concat (map f (take n rs)))"
  by (auto simp: list_all_iff dest: in_set_takeD)

lemma paused_events:
  "paused cfg e s \<Longrightarrow> list_all (lasting cfg e) (ops_of es) \<Longrightarrow> paused cfg e (fold (loss_event_apply cfg) es s)"
proof (induction es arbitrary: s)
  case (Cons ev es)
  have "paused cfg e (loss_event_apply cfg ev s)"
    using Cons.prems
    by (cases ev) (auto simp: ops_of_def sync_from_books_def paused_op intro!: paused_follow_books ops_of_take)
  moreover have "list_all (lasting cfg e) (ops_of es)" using Cons.prems(2) by (simp add: ops_of_def)
  ultimately show ?case using Cons.IH by simp
qed simp

text \<open>C12: A pause lasts: unless somebody resumes or resets, and, where a new period lifts it, until the period it was
  reached in is over, no entry is let through, whatever the books say meanwhile.\<close>

theorem pause_lasts:
  assumes "lc_enabled cfg" and "li_is_limited s"
    and "list_all (lasting cfg (li_period_start s + hours (lc_period_hours cfg))) (ops_of es @ [(now, EntryCheck)])"
  shows "fst (is_entry_blocked_by_loss_limit cfg now (fold (loss_event_apply cfg) es s))"
proof -
  let ?e = "li_period_start s + hours (lc_period_hours cfg)"
  have "paused cfg ?e (fold (loss_event_apply cfg) es s)" using assms by (intro paused_events) (simp_all add: paused_def)
  then have "paused cfg ?e (check_and_reset_period_if_needed cfg now (fold (loss_event_apply cfg) es s))"
    using assms(3) by (intro paused_reset_period [where x = EntryCheck]) simp_all
  then show ?thesis using assms(1) by (simp add: is_entry_blocked_by_loss_limit_def Let_def paused_def)
qed

theorem pause_lasts_witness:
  "fst (is_entry_blocked_by_loss_limit sample_loss_config 86399999
     (fold (loss_event_apply sample_loss_config) [Sync [plain_read 20 (Fin 0)], Other (15, EntryCheck)]
       ((loss_limit_initial 0)\<lparr>li_is_limited := True\<rparr>)))"
  by (rule pause_lasts)
    (simp_all add: sample_loss_config_def loss_limit_initial_def plain_read_def ops_of_def lasting_def hours_def)

end
