(* ===== verification/Entry_Admission.thy ===== *)
theory Entry_Admission
  imports Loss_Limit
begin

text \<open>
  Which entries may happen at all: \<open>src/trader/admission.rs\<close>, the halt of \<open>src/trader/controller.rs\<close> and the
  checks of \<open>src/trader/safety/\<close>. The readings a check takes of the stores, the books, the monitors and the
  configuration are the fields of \<open>entry_world\<close>; the state of the loss limit is passed through, because asking
  it may begin a new period. Times are milliseconds.

  The lemmas show exactly which entries are admitted, that an admitted live entry is below the loss limit, and
  which block is reported when no mode is admitted.
\<close>

section \<open>Blocks\<close>

datatype trading_mode = PaperMode | LiveMode

datatype entry_block =
    ForceStopped | LossLimitHit | ConnectivityDown string | StorageUnavailable string | PositionLimitReached
  | AlreadyOpen | InReentryCooldown | OpenCooldownWait nat | EntryReserved | BlacklistedToken
  | PaperBalanceExhausted | CheckFailed string

text \<open>\<open>num_seconds\<close> and \<open>num_minutes\<close> round toward zero.\<close>

definition open_cooldown_wait_secs :: "int option \<Rightarrow> int \<Rightarrow> nat \<Rightarrow> nat option" where
  "open_cooldown_wait_secs last_open now cooldown_secs =
     (case last_open of
        None \<Rightarrow> None
      | Some t \<Rightarrow>
          let elapsed = nat (max 0 (trunc_div (now - t) 1000))
          in if elapsed < cooldown_secs then Some (cooldown_secs - elapsed) else None)"

section \<open>Stores\<close>

datatype store_health =
    Healthy | Rebuilding int string | Restored "int option" string | Recovered string | UnavailableStore string bool string

fun store_is_open :: "store_health \<Rightarrow> bool" where
  "store_is_open (UnavailableStore _ _ _) \<longleftrightarrow> False"
| "store_is_open (Rebuilding _ _) \<longleftrightarrow> False"
| "store_is_open _ \<longleftrightarrow> True"

fun health_as_str :: "store_health \<Rightarrow> string" where
  "health_as_str Healthy = ''healthy''"
| "health_as_str (Rebuilding _ _) = ''rebuilding''"
| "health_as_str (Restored _ _) = ''restored''"
| "health_as_str (Recovered _) = ''recovered''"
| "health_as_str (UnavailableStore _ _ _) = ''unavailable''"

record store_status =
  st_store :: string
  st_health :: store_health
  st_reconciled :: bool

definition is_settled :: "store_status \<Rightarrow> bool" where
  "is_settled st \<longleftrightarrow> store_is_open (st_health st) \<and> st_reconciled st"

definition storage_block :: "store_status option list \<Rightarrow> entry_block option" where
  "storage_block statuses =
     map_option (\<lambda>st. StorageUnavailable
         (if store_is_open (st_health st) then st_store st @ '': '' @ health_as_str (st_health st) @ '', not yet reconciled''
          else st_store st @ '': '' @ health_as_str (st_health st)))
       (find (\<lambda>st. \<not> is_settled st) (List.map_filter (\<lambda>x. x) statuses))"

definition check_storage :: "store_status option list \<Rightarrow> entry_block + unit" where
  "check_storage statuses = (case storage_block statuses of Some block \<Rightarrow> Inl block | None \<Rightarrow> Inr ())"

section \<open>Readings\<close>

record entry_world =
  ew_now :: int
  ew_force_stopped :: bool
  ew_loss_config :: loss_config
  ew_entry_stores :: "store_status option list"
  ew_paper_stores :: "store_status option list"
  ew_endpoint_offline :: "string \<Rightarrow> bool"
  ew_max_open_positions :: nat
  ew_capacity_used :: nat
  ew_paper_book :: "nat option"
  ew_paper_last_open :: "int option"
  ew_holds_open_round :: "trading_mode \<Rightarrow> string \<Rightarrow> bool"
  ew_latest_exit :: "trading_mode \<Rightarrow> string \<Rightarrow> string + int option option"
  ew_close_cooldown_minutes :: nat
  ew_open_cooldown_secs :: int
  ew_blacklist_db :: "(string \<Rightarrow> string + bool) option"
  ew_blacklisted_tokens :: "string list"
  ew_last_open :: "int option"

section \<open>Safety checks\<close>

record position_capacity =
  cap_used :: nat
  cap_limit :: nat

definition has_room :: "position_capacity \<Rightarrow> bool" where
  "has_room c \<longleftrightarrow> cap_used c < cap_limit c"

definition position_capacity_of :: "entry_world \<Rightarrow> position_capacity" where
  "position_capacity_of ew = \<lparr>cap_used = ew_capacity_used ew, cap_limit = ew_max_open_positions ew\<rparr>"

definition is_in_reentry_cooldown :: "entry_world \<Rightarrow> trading_mode \<Rightarrow> string \<Rightarrow> bool" where
  "is_in_reentry_cooldown ew book mint =
     (let cooldown_minutes = ew_close_cooldown_minutes ew in
      if cooldown_minutes = 0 then False
      else case ew_latest_exit ew book mint of
          Inr (Some (Some exit_time)) \<Rightarrow> trunc_div (ew_now ew - exit_time) 60000 < int cooldown_minutes
        | _ \<Rightarrow> False)"

definition is_blacklisted :: "entry_world \<Rightarrow> string \<Rightarrow> bool" where
  "is_blacklisted ew mint =
     (case ew_blacklist_db ew of
        Some db \<Rightarrow> (case db mint of Inr b \<Rightarrow> b | Inl _ \<Rightarrow> False)
      | None \<Rightarrow> mint \<in> set (ew_blacklisted_tokens ew))"

fun join_names :: "string list \<Rightarrow> string" where
  "join_names [] = []"
| "join_names [n] = n"
| "join_names (n # ns) = n @ '', '' @ join_names ns"

definition check_endpoints_usable :: "entry_world \<Rightarrow> string list \<Rightarrow> string option" where
  "check_endpoints_usable ew endpoint_names =
     (let offline = filter (ew_endpoint_offline ew) endpoint_names in
      if offline = [] then None else Some (join_names offline))"

definition paper_book_not_loaded :: entry_block where
  "paper_book_not_loaded = StorageUnavailable ''paper_positions: not loaded''"

fun check_slots :: "entry_world \<Rightarrow> trading_mode \<Rightarrow> entry_block + unit" where
  "check_slots ew LiveMode = (if has_room (position_capacity_of ew) then Inr () else Inl PositionLimitReached)"
| "check_slots ew PaperMode =
     (case ew_paper_book ew of
        None \<Rightarrow> Inl paper_book_not_loaded
      | Some open_positions \<Rightarrow> if open_positions < ew_max_open_positions ew then Inr () else Inl PositionLimitReached)"

definition check_open_cooldown :: "entry_world \<Rightarrow> entry_block + unit" where
  "check_open_cooldown ew =
     (case open_cooldown_wait_secs (ew_last_open ew) (ew_now ew) (nat (max 0 (ew_open_cooldown_secs ew))) of
        Some wait_secs \<Rightarrow> Inl (OpenCooldownWait wait_secs) | None \<Rightarrow> Inr ())"

definition F64_EPSILON :: real where
  "F64_EPSILON = 1 / 2 ^ 52"

definition paper_cash_covers :: "(entry_block + flt) option \<Rightarrow> flt \<Rightarrow> entry_block + unit" where
  "paper_cash_covers cash needed_native =
     (case cash of
        Some (Inr cash) \<Rightarrow> if flt_lt (flt_add cash (Fin F64_EPSILON)) needed_native then Inl PaperBalanceExhausted else Inr ()
      | Some (Inl block) \<Rightarrow> Inl block
      | None \<Rightarrow> Inl (CheckFailed ''the paper cash of this entry cycle was not read''))"

section \<open>Admission\<close>

definition entry_halt_of :: "trading_mode \<Rightarrow> bool \<Rightarrow> bool \<Rightarrow> entry_block option" where
  "entry_halt_of mode force_stopped loss_limited =
     (if force_stopped then Some ForceStopped
      else if mode = LiveMode \<and> loss_limited then Some LossLimitHit
      else None)"

definition entry_halt ::
  "entry_world \<Rightarrow> trading_mode \<Rightarrow> loss_limit_state_internal \<Rightarrow> entry_block option \<times> loss_limit_state_internal" where
  "entry_halt ew mode ls =
     (let (limited, ls) = (if mode = LiveMode then is_entry_blocked_by_loss_limit (ew_loss_config ew) (ew_now ew) ls else (False, ls))
      in (entry_halt_of mode (ew_force_stopped ew) limited, ls))"

definition check_entry_admission ::
  "entry_world \<Rightarrow> string \<Rightarrow> string list \<Rightarrow> loss_limit_state_internal \<Rightarrow> (entry_block + unit) \<times> loss_limit_state_internal" where
  "check_entry_admission ew mint required_endpoints ls =
     (let (halt, ls) = entry_halt ew LiveMode ls in
      (case halt of
         Some block \<Rightarrow> Inl block
       | None \<Rightarrow>
           and_then (check_storage (ew_entry_stores ew)) (\<lambda>_.
           case check_endpoints_usable ew required_endpoints of
             Some unhealthy \<Rightarrow> Inl (ConnectivityDown unhealthy)
           | None \<Rightarrow>
               and_then (check_slots ew LiveMode) (\<lambda>_.
               if ew_holds_open_round ew LiveMode mint then Inl AlreadyOpen
               else if is_in_reentry_cooldown ew LiveMode mint then Inl InReentryCooldown
               else if is_blacklisted ew mint then Inl BlacklistedToken
               else Inr ())), ls))"

definition check_paper_entry_admission ::
  "entry_world \<Rightarrow> string \<Rightarrow> string list \<Rightarrow> (entry_block + flt) option \<Rightarrow> flt \<Rightarrow> entry_block + unit" where
  "check_paper_entry_admission ew mint required_endpoints paper_cash entry_size_native =
     (case entry_halt_of PaperMode (ew_force_stopped ew) False of
        Some block \<Rightarrow> Inl block
      | None \<Rightarrow>
          and_then (check_storage (ew_paper_stores ew)) (\<lambda>_.
          case check_endpoints_usable ew required_endpoints of
            Some unhealthy \<Rightarrow> Inl (ConnectivityDown unhealthy)
          | None \<Rightarrow>
              and_then (check_slots ew PaperMode) (\<lambda>_.
              if ew_paper_book ew = None then Inl paper_book_not_loaded
              else case open_cooldown_wait_secs (ew_paper_last_open ew) (ew_now ew) (nat (max 0 (ew_open_cooldown_secs ew))) of
                  Some wait_secs \<Rightarrow> Inl (OpenCooldownWait wait_secs)
                | None \<Rightarrow>
                    if ew_holds_open_round ew PaperMode mint then Inl AlreadyOpen
                    else if is_in_reentry_cooldown ew PaperMode mint then Inl InReentryCooldown
                    else and_then (paper_cash_covers paper_cash entry_size_native) (\<lambda>_.
                      if is_blacklisted ew mint then Inl BlacklistedToken else Inr ()))))"

fun gauntlet ::
  "entry_world \<Rightarrow> string \<Rightarrow> string list \<Rightarrow> (entry_block + flt) option \<Rightarrow> flt \<Rightarrow> trading_mode \<Rightarrow> loss_limit_state_internal \<Rightarrow>
   (entry_block + unit) \<times> loss_limit_state_internal" where
  "gauntlet ew mint endpoints paper_cash entry_size LiveMode ls = check_entry_admission ew mint endpoints ls"
| "gauntlet ew mint endpoints paper_cash entry_size PaperMode ls =
     (check_paper_entry_admission ew mint endpoints paper_cash entry_size, ls)"

definition admitted_modes :: "(trading_mode \<times> (entry_block + unit)) list \<Rightarrow> entry_block + trading_mode list" where
  "admitted_modes outcomes =
     (let admitted = map fst (filter (\<lambda>(_, r). \<not> isl r) outcomes);
          blocks = filter (\<lambda>(_, r). isl r) outcomes;
          first_block = (case blocks of [] \<Rightarrow> None | (_, r) # _ \<Rightarrow> Some (projl r));
          live_block = (case rev (filter (\<lambda>(mode, _). mode = LiveMode) blocks) of [] \<Rightarrow> None | (_, r) # _ \<Rightarrow> Some (projl r))
      in if admitted = [] then
           Inl (case live_block of Some b \<Rightarrow> b | None \<Rightarrow> unwrap_or first_block (CheckFailed ''no trading mode was requested''))
         else Inr admitted)"

primrec run_gauntlets ::
  "(trading_mode \<Rightarrow> 's \<Rightarrow> (entry_block + unit) \<times> 's) \<Rightarrow> trading_mode list \<Rightarrow> 's \<Rightarrow> (trading_mode \<times> (entry_block + unit)) list \<times> 's" where
  "run_gauntlets g [] s = ([], s)"
| "run_gauntlets g (mode # modes) s =
     (let (r, s) = g mode s; (rs, s) = run_gauntlets g modes s in ((mode, r) # rs, s))"

definition admit_each ::
  "trading_mode list \<Rightarrow> (trading_mode \<Rightarrow> 's \<Rightarrow> (entry_block + unit) \<times> 's) \<Rightarrow> 's \<Rightarrow> (entry_block + trading_mode list) \<times> 's" where
  "admit_each modes g s = (let (outcomes, s) = run_gauntlets g modes s in (admitted_modes outcomes, s))"

definition admit_modes ::
  "entry_world \<Rightarrow> string \<Rightarrow> string list \<Rightarrow> (entry_block + flt) option \<Rightarrow> trading_mode list \<Rightarrow> flt \<Rightarrow> loss_limit_state_internal \<Rightarrow>
   (entry_block + trading_mode list) \<times> loss_limit_state_internal" where
  "admit_modes ew mint endpoints paper_cash modes entry_size ls =
     admit_each modes (gauntlet ew mint endpoints paper_cash entry_size) ls"

text \<open>What refuses every entry on a mode right now, whatever the token. \<open>standing_cash\<close> is the reading of the paper
  account and \<open>default_size\<close> the size of an entry that names none.\<close>

definition entry_blocks ::
  "entry_world \<Rightarrow> entry_block + flt \<Rightarrow> flt \<Rightarrow> trading_mode \<Rightarrow> loss_limit_state_internal \<Rightarrow>
   entry_block option \<times> loss_limit_state_internal" where
  "entry_blocks ew standing_cash default_size mode ls =
     (let (halt, ls) = entry_halt ew mode ls in
      (case halt of
         Some block \<Rightarrow> Some block
       | None \<Rightarrow>
           (case check_slots ew mode of
              Inl block \<Rightarrow> Some block
            | Inr _ \<Rightarrow>
                (case mode of
                   LiveMode \<Rightarrow> None
                 | PaperMode \<Rightarrow> (case paper_cash_covers (Some standing_cash) default_size of Inl block \<Rightarrow> Some block | Inr _ \<Rightarrow> None))), ls))"

section \<open>Lemmas\<close>

lemma storage_block_None: "storage_block statuses = None \<longleftrightarrow> (\<forall>st. Some st \<in> set statuses \<longrightarrow> is_settled st)"
  by (auto simp: storage_block_def find_None_iff map_filter_def image_iff)

lemma check_storage_Inr: "check_storage statuses = Inr u \<longleftrightarrow> (\<forall>st. Some st \<in> set statuses \<longrightarrow> is_settled st)"
  using storage_block_None [of statuses] by (auto simp: check_storage_def split: option.splits)

lemma endpoints_usable_None: "check_endpoints_usable ew names = None \<longleftrightarrow> list_all (\<lambda>n. \<not> ew_endpoint_offline ew n) names"
  by (auto simp: check_endpoints_usable_def Let_def filter_empty_conv list_all_iff)

text \<open>A live entry is admitted exactly when the trader is not stopped, the loss limit does not pause it, every entry
  store is settled, no required endpoint is down, a slot is free, the token has no open position, its cooldown is over and
  it is not blacklisted.\<close>

theorem live_entry_admitted_iff:
  "fst (check_entry_admission ew mint endpoints ls) = Inr () \<longleftrightarrow>
     \<not> ew_force_stopped ew \<and> \<not> fst (is_entry_blocked_by_loss_limit (ew_loss_config ew) (ew_now ew) ls)
     \<and> list_all (\<lambda>st. case st of Some st \<Rightarrow> is_settled st | None \<Rightarrow> True) (ew_entry_stores ew)
     \<and> list_all (\<lambda>n. \<not> ew_endpoint_offline ew n) endpoints \<and> ew_capacity_used ew < ew_max_open_positions ew
     \<and> \<not> ew_holds_open_round ew LiveMode mint \<and> \<not> is_in_reentry_cooldown ew LiveMode mint \<and> \<not> is_blacklisted ew mint"
proof -
  have stores: "check_storage (ew_entry_stores ew) = Inr () \<longleftrightarrow>
      list_all (\<lambda>st. case st of Some st \<Rightarrow> is_settled st | None \<Rightarrow> True) (ew_entry_stores ew)"
    by (auto simp: check_storage_Inr list_all_iff split: option.splits)
  show ?thesis
    by (cases "check_storage (ew_entry_stores ew)")
      (auto simp: check_entry_admission_def entry_halt_def entry_halt_of_def Let_def case_prod_beta stores [symmetric]
        endpoints_usable_None [symmetric] has_room_def position_capacity_of_def split: option.splits)
qed

text \<open>C10: An entry is admitted on the live book only while the loss the books realized in the period is below the limit,
  whatever the limiter saw before, unless somebody resumed it by hand.\<close>

theorem admitted_live_entry_below_limit:
  assumes "usable (lc_limit_native (ew_loss_config ew))" and "lc_enabled (ew_loss_config ew)"
    and "\<And>x. Other x \<in> set es \<Longrightarrow> snd x \<noteq> Resume" and "\<And>r. r \<in> set (reads_of es) \<Longrightarrow> unresumed r \<and> finite_losses r"
    and "check_entry_admission ew mint endpoints (fold (loss_event_apply (ew_loss_config ew)) es (loss_limit_initial start)) = (Inr (), ls)"
  shows "flt_lt (li_cumulative_loss_native ls) (lc_limit_native (ew_loss_config ew))"
proof -
  let ?cfg = "ew_loss_config ew"
  let ?s = "fold (loss_event_apply ?cfg) es (loss_limit_initial start)"
  have "guarded ?cfg (loss_limit_initial start)" using assms(1) by (simp add: guarded_def loss_limit_initial_def)
  then have "guarded ?cfg ?s" by (rule guarded_events [OF assms(1) _ assms(3,4)])
  then have "guarded ?cfg (check_and_reset_period_if_needed ?cfg (ew_now ew) ?s)" by (rule guarded_reset_period [OF assms(1)])
  moreover have "ls = check_and_reset_period_if_needed ?cfg (ew_now ew) ?s" "\<not> li_is_limited ls"
    using assms(2,5)
    by (auto simp: check_entry_admission_def entry_halt_def entry_halt_of_def is_entry_blocked_by_loss_limit_def Let_def
        split: option.splits if_splits)
  ultimately show ?thesis by (simp add: guarded_def)
qed

lemma entry_blocks_refuse_all:
  assumes "fst (entry_blocks ew cash default_size LiveMode ls) = Some block"
  shows "isl (fst (check_entry_admission ew mint endpoints ls))"
proof -
  obtain halt ls' where halt: "entry_halt ew LiveMode ls = (halt, ls')" by (cases "entry_halt ew LiveMode ls")
  show ?thesis
    using assms unfolding entry_blocks_def check_entry_admission_def halt
    by (auto simp: check_storage_def split: option.splits sum.splits)
qed

definition sample_world :: entry_world where
  "sample_world = \<lparr>ew_now = 30, ew_force_stopped = False, ew_loss_config = sample_loss_config,
     ew_entry_stores = [Some \<lparr>st_store = ''positions'', st_health = Healthy, st_reconciled = True\<rparr>, None], ew_paper_stores = [],
     ew_endpoint_offline = (\<lambda>_. False), ew_max_open_positions = 2, ew_capacity_used = 1, ew_paper_book = None, ew_paper_last_open = None,
     ew_holds_open_round = (\<lambda>_ _. False), ew_latest_exit = (\<lambda>_ _. Inr None), ew_close_cooldown_minutes = 5,
     ew_open_cooldown_secs = 5, ew_blacklist_db = None, ew_blacklisted_tokens = [], ew_last_open = None\<rparr>"

theorem admitted_live_entry_below_limit_witness:
  "flt_lt (li_cumulative_loss_native (snd (check_entry_admission sample_world ''mint'' [''rpc'']
     (fold (loss_event_apply sample_loss_config) [Sync [plain_read 10 (Fin (1 / 2))]] (loss_limit_initial 0))))) (Fin 1)"
proof -
  let ?s = "fold (loss_event_apply sample_loss_config) [Sync [plain_read 10 (Fin (1 / 2))]] (loss_limit_initial 0)"
  let ?r = "check_entry_admission sample_world ''mint'' [''rpc''] ?s"
  have cfg: "ew_loss_config sample_world = sample_loss_config" by (simp add: sample_world_def)
  have "fst ?r = Inr ()"
    by (simp add: check_entry_admission_def entry_halt_def entry_halt_of_def is_entry_blocked_by_loss_limit_def sample_world_def
        sample_loss_config_def sync_from_books_def PERIOD_ROLLOVER_REREADS_def plain_read_def loss_limit_initial_def
        check_and_reset_period_if_needed_def follow_figure_def hours_def check_storage_def storage_block_def is_settled_def map_filter_def
        check_endpoints_usable_def has_room_def position_capacity_of_def is_in_reentry_cooldown_def is_blacklisted_def Let_def)
  then have "?r = (Inr (), snd ?r)" by (simp add: prod_eq_iff)
  then have "flt_lt (li_cumulative_loss_native (snd ?r)) (lc_limit_native (ew_loss_config sample_world))"
    by (intro admitted_live_entry_below_limit [where es = "[Sync [plain_read 10 (Fin (1 / 2))]]" and start = 0, unfolded cfg])
      (auto simp: cfg sample_loss_config_def plain_read_def reads_of_def unresumed_def finite_losses_def)
  then show ?thesis by (simp add: cfg sample_loss_config_def)
qed

lemma not_isl_unit: "\<not> isl r \<longleftrightarrow> r = Inr ()"
  by (cases r) simp_all

lemma live_block_last:
  "rev (filter (\<lambda>(mode, _). mode = LiveMode) bs) = [] \<longleftrightarrow> LiveMode \<notin> fst ` set bs"
  by (auto simp: filter_empty_conv image_iff)

text \<open>The modes an entry is admitted on are the requested ones whose own check passed, in order; when there is none,
  the block reported is one a check gave, and that of the live check if live was requested.\<close>

theorem admitted_modes_exact:
  "case admitted_modes outcomes of
     Inr modes \<Rightarrow> modes = map fst (filter (\<lambda>(_, r). r = Inr ()) outcomes) \<and> modes \<noteq> []
   | Inl block \<Rightarrow> filter (\<lambda>(_, r). r = Inr ()) outcomes = []
       \<and> (if LiveMode \<in> fst ` set outcomes then (LiveMode, Inl block) \<in> set outcomes
          else if outcomes = [] then block = CheckFailed ''no trading mode was requested''
          else snd (hd outcomes) = Inl block)"
proof -
  have ok: "filter (\<lambda>(_, r). \<not> isl r) outcomes = filter (\<lambda>(_, r). r = Inr ()) outcomes"
    by (rule filter_cong) (simp_all add: case_prod_beta not_isl_unit)
  show ?thesis
  proof (cases "filter (\<lambda>(_, r). r = Inr ()) outcomes = []")
    case False
    then show ?thesis by (simp add: admitted_modes_def ok Let_def)
  next
    case True
    have all: "filter (\<lambda>(_, r). isl r) outcomes = outcomes"
      using True by (auto simp: filter_empty_conv filter_id_conv not_isl_unit [symmetric])
    show ?thesis
    proof (cases "LiveMode \<in> fst ` set outcomes")
      case live: True
      then obtain m r rest where rest: "rev (filter (\<lambda>(mode, _). mode = LiveMode) outcomes) = (m, r) # rest"
        using live_block_last [of outcomes] by (cases "rev (filter (\<lambda>(mode, _). mode = LiveMode) outcomes)") auto
      then have "(m, r) \<in> set (filter (\<lambda>(mode, _). mode = LiveMode) outcomes)" by (metis list.set_intros(1) set_rev)
      then have mr: "m = LiveMode" "(LiveMode, r) \<in> set outcomes" by auto
      then have "isl r" using all by (metis (mono_tags, lifting) case_prodD filter_id_conv)
      then obtain b where "r = Inl b" by (cases r) auto
      then show ?thesis using live mr by (simp add: admitted_modes_def ok Let_def True rest all)
    next
      case none: False
      then have "rev (filter (\<lambda>(mode, _). mode = LiveMode) outcomes) = []" using live_block_last by blast
      then have adm: "admitted_modes outcomes = Inl (unwrap_or (case outcomes of [] \<Rightarrow> None | (_, r) # _ \<Rightarrow> Some (projl r))
          (CheckFailed ''no trading mode was requested''))"
        by (simp add: admitted_modes_def ok Let_def True all)
      have first: "isl (snd (hd outcomes))" if "outcomes \<noteq> []"
        using all that by (metis (mono_tags, lifting) case_prod_beta filter_id_conv hd_in_set)
      show ?thesis
      proof (cases outcomes)
        case Nil
        then show ?thesis unfolding adm by (simp add: unwrap_or_def)
      next
        case (Cons x rest)
        with first obtain m b where "x = (m, Inl b)" by (cases x; cases "snd x") auto
        then show ?thesis using True none unfolding adm by (simp add: Cons unwrap_or_def)
      qed
    qed
  qed
qed

end
