(* ===== verification/Spec2Isabelle.thy ===== *)
theory Spec2Isabelle
  imports Dca_Ladder Round_State Ledger_Rounds Direct_Swap Rpc_Manager Exit_Sizing Entry_Admission
begin

text \<open>
  The direct swap engine, the trading rules, the position books and the node calls of ScreenerBot.

  ScreenerBot is a trading bot for Solana. Three parts of it decide about money: the engine under
  \<open>src/src/chains/solana/swaps/direct/\<close>, which reads a pool's accounts, computes what a swap
  through the pool's program would pay, builds the transaction, sends it and reads back what
  arrived; the trading rules under \<open>src/src/trader/\<close>, which decide when an open position is sold
  or added to; and the books under \<open>src/src/positions/\<close>, which record what the fills did to a
  position and rebuild the positions of a wallet from its history. All of them reach the chain
  through the node calls under \<open>src/src/rpc/\<close>. This development models the
  engine from the arithmetic up to the settled transaction, the rules from the validated
  configuration up to the decision, the books from exact amounts up to reconciled rounds and the
  calls from the choice of a provider up to the answer, and proves what their callers rely on.

  \<^bold>\<open>The parts and how they interact.\<close> A caller has an intent: a pool, an owner, two mints, an
  amount and a slippage. The registry finds the venue of the pool's program; the venue loads the
  pool's accounts through a reader and decodes them; \<open>quote_with_market\<close> takes the platform
  fee, asks the venue for a quote and assembles it with the slippage floor; \<open>build_plan\<close>
  turns the quote into the instruction list of one transaction; \<open>execute_plan\<close> checks the
  wallet's balance, signs, simulates, sends, settles the signature and reads the receipt.

  The trader's section of the configuration is validated when it is stored and turned into an exit
  policy, which a copy task may override. For each open position the six built-in exit rules are
  checked against the policy in one order and the first that fires sells; the DCA ladder of the
  same policy decides whether the position is added to. A new entry is admitted per book by a list of
  checks, the first of which asks the loss limit; an exit is sized from what the wallet holds, what
  the position books and what other open positions of the token hold.

  A verified fill is booked on the position's row: an entry, an add, a partial or a full exit, a
  write-off. The row keeps raw amounts, the invested and received totals, the fees and the
  moving-average entry price the exit rules read; a swap that lands after its round closed reopens
  the round or hands its tokens over to the open one. Independently, the balance movements of the
  wallet are reduced to rounds and reconciled with what the wallet holds.

  A node call first tries the submission relay where the account has one, then the configured
  providers: the manager selects one, asks its circuit breaker and its rate limiter, makes the
  request and, on a failure that may pass, retries at another provider with a growing delay. The
  pre-send gate of the engine takes a refused send as a proof that nothing was sent; that the manager
  gives such an error only when it holds is the main property of this part.

  \<^bold>\<open>Theories and sources\<close> (paths below \<open>src/src/\<close>; \<open>direct/\<close> is \<open>chains/solana/swaps/direct/\<close>).
    \<^item> \<open>Rust_Prelude\<close>: machine integers, \<open>Result\<close>, \<open>?\<close>, saturating and checked operations,
      little-endian bytes, chunks; the lemmas and simplification sets the rest shares.
    \<^item> \<open>Amount_Math\<close>: \<open>chains/amount/math.rs\<close>. \<open>Layout\<close>: \<open>chains/solana/layout.rs\<close>.
    \<^item> \<open>Direct_Types\<close>: \<open>direct/error.rs\<close>, \<open>direct/venue.rs\<close>, \<open>chains/solana/pools/types.rs\<close>.
      The trait \<open>PoolMarket\<close> is the record \<open>pool_market\<close>, the Solana SDK the record \<open>sdk\<close>.
    \<^item> \<open>Curve_Math\<close>, \<open>Token2022\<close>: \<open>direct/venues/math.rs\<close>, \<open>direct/venues/token2022.rs\<close>.
    \<^item> \<open>Swap_Fee\<close>: \<open>direct/fee.rs\<close> and \<open>chains/solana/swaps/revenue.rs\<close>. \<open>Swap_Quote\<close>:
      \<open>direct/intent.rs\<close>, \<open>direct/quote.rs\<close>. \<open>Compute_Budget\<close>: \<open>direct/compute.rs\<close>.
      \<open>Swap_Plan\<close>: \<open>direct/accounts.rs\<close>, \<open>direct/plan.rs\<close>, with the locale \<open>market\<close>.
    \<^item> One theory per venue, for \<open>direct/venues/<name>.rs\<close> and
      \<open>chains/solana/pools/layouts/<name>.rs\<close>: \<open>Raydium_Cpmm\<close>, \<open>Raydium_Amm_V4\<close>,
      \<open>Raydium_Clmm\<close> over \<open>Clmm_Ticks\<close>, \<open>Meteora_Damm\<close>, \<open>Meteora_Dbc\<close>, \<open>Meteora_Dlmm\<close>,
      \<open>Orca_Whirlpool\<close>, \<open>Fluxbeam\<close>, \<open>Moonit_Curve\<close>, \<open>Pumpfun_Amm\<close> and \<open>Pumpfun_Legacy\<close>. The last three
      share \<open>Native_Sol\<close> (a leg in native SOL), the two of pump share \<open>Pump_Fees\<close> (fee tiers and
      the search for the amount a spend affords).
    \<^item> \<open>Engine\<close>: \<open>direct/registry.rs\<close> and \<open>quote_with_market\<close> of \<open>direct/mod.rs\<close>; a loaded market of
      any of the eleven venues. \<open>Direct_Swap\<close>: \<open>load_market\<close>, \<open>quote\<close> and \<open>swap\<close> of \<open>direct/mod.rs\<close>.
    \<^item> \<open>Receipt\<close>: \<open>direct/verify.rs\<close>. \<open>Rpc_Errors\<close>: \<open>rpc/errors.rs\<close>, \<open>chains/error.rs\<close>,
      \<open>chains/execution.rs\<close>. \<open>Settlement\<close>: \<open>chains/settlement.rs\<close>,
      \<open>chains/solana/settlement.rs\<close>. \<open>Presend\<close>: \<open>chains/solana/swaps/presend.rs\<close>.
      \<open>Execute\<close>: \<open>direct/execute.rs\<close>.
    \<^item> \<open>Float_Value\<close>: \<open>f64\<close> with its infinities and NaN. \<open>Trader_Config\<close>, \<open>Trader_Validation\<close>:
      \<open>config/schemas/trader.rs\<close>. \<open>Exit_Policy\<close>: \<open>trader/policy.rs\<close>. \<open>Exit_Rules\<close>:
      \<open>trader/evaluators/exit_*.rs\<close>. \<open>Dca_Ladder\<close>: \<open>trader/evaluators/dca.rs\<close>. \<open>Position_Types\<close>: the
      origin, the ownership and the fields of a position in \<open>positions/types.rs\<close>.
    \<^item> \<open>Raw_Amount\<close>: \<open>chains/amount.rs\<close>. \<open>Cost_Basis\<close>: \<open>positions/cost_basis.rs\<close>.
      \<open>Position_Booking\<close>: \<open>positions/holdings.rs\<close>, \<open>booking.rs\<close> and \<open>pnl.rs\<close>. \<open>Round_State\<close>:
      \<open>positions/round_state.rs\<close>. \<open>Wallet_Ledger\<close>: \<open>positions/ledger/mod.rs\<close> and \<open>reducer.rs\<close>, with
      the invariant of one round; \<open>Ledger_Rounds\<close>: what the whole reduction reports. \<open>Exit_Sizing\<close>:
      \<open>positions/operations/exit_sizing.rs\<close>.
    \<^item> \<open>Loss_Limit\<close>: \<open>trader/safety/loss_limit.rs\<close>, with the calls that interleave with a read of the
      books. \<open>Entry_Admission\<close>: \<open>trader/admission.rs\<close>, the entry halt of \<open>trader/controller.rs\<close>, the
      checks of \<open>trader/safety/\<close> and the store states of \<open>database/health.rs\<close>.
    \<^item> \<open>Circuit_Breaker\<close>: \<open>rpc/circuit_breaker/\<close>, with the step relation of its concurrent callers.
      \<open>Rate_Limiter\<close>: \<open>rpc/rate_limiter/\<close> and the methods and provider kinds of \<open>rpc/types.rs\<close>.
      \<open>Url_Redaction\<close>: \<open>logger/redact.rs\<close>. \<open>Provider_Selector\<close>: \<open>rpc/provider/\<close>, \<open>rpc/selector.rs\<close>, with
      the locale \<open>provider_selector\<close> for the trait of that name. \<open>Rpc_Gateway\<close>: \<open>rpc/gateway.rs\<close>,
      \<open>data_server/access.rs\<close> and the refusals of \<open>data_server/mod.rs\<close>. \<open>Rpc_Manager\<close>: \<open>rpc/manager.rs\<close>.

  \<^bold>\<open>How the code is read.\<close> Unsigned and signed integers are words of their width; \<open>+\<close>, \<open>-\<close> and
  \<open>*\<close> wrap, as the release build does, and checked and saturating operations are definitions of
  the prelude. \<open>f64\<close> values of the engine, which only feed reported percentages and conservative
  estimates, are reals; in the trader, where a configuration or a price may be infinite or not a
  number, they are \<open>flt\<close>, whose finite values are exact reals. A \<open>Result\<close> is a sum, every \<open>return Err\<close> and \<open>?\<close> is a branch, and where the code would
  abort there is the extra error \<open>Panic\<close>. Texts of errors keep their literal and not what is
  interpolated. Structs are records and their methods take the record.

  Code outside the repository is a parameter: the SDK's instruction builders and address
  derivations (\<open>sdk\<close>), account reads (a function from keys to accounts or an error), the node's
  answers and the clock readings of the settle loop (\<open>execution_env\<close>, \<open>settle_round\<close>), the
  printing of keys and JSON (\<open>display\<close>), the JSON library (\<open>json_api\<close>), the HTTP client, the clocks and
  the cell-rate limiter of a node call (\<open>relay_env\<close>, \<open>node_env\<close>), the hash of a URL. So is what a
  part reads of storage and of the wallet (\<open>books_read\<close>, \<open>exit_reads\<close>, \<open>entry_world\<close>). Where a theorem needs more of it than its type there is
  a named hypothesis: \<open>budget_encoding\<close> for the documented bytes of the two budget instructions,
  \<open>decodes_apart\<close> for program ids that decode to different keys, \<open>finds_finalized\<close> for a
  lookup that finds finalized transactions. The samples of the theories instantiate them.

  \<^bold>\<open>What the lemmas show.\<close>
    \<^item> Arithmetic: the 256-bit products and divisions are the exact floor and ceiling; prices and
      fees have exact specifications over \<open>nat\<close> with the conditions under which nothing wraps.
    \<^item> Venues: a quote is covered by the reserves and strictly below the vault, charges at most
      its input, and never pays better than the curve; loading and quoting fail with the error
      the code documents and never index out of range.
    \<^item> Plans: the locale \<open>market\<close> states what a plan needs of a venue, its interpretations show it
      for every venue and for the sum of them, and the instruction list refines the documented
      order with the quoted amounts in the swap instruction.
    \<^item> Sending: every verdict of the settle loop is backed by a node's answer, an error that
      allows a second route proves the first one dead, and a receipt is never below the minimum.
    \<^item> Trading: a validated section describes rules that never err, overrides keep a policy valid,
      the first firing rule of the order decides, the stop loss always sells, a trailing exit
      sells in profit, a ladder sells exactly its shares and an add is bounded. An admitted live entry
      is below the loss limit under any history of periods, reads and interleaved calls, a pause lasts
      until it is lifted, and the figure belongs to its window; a full close leaves what other
      positions hold and a partial exit sells exactly its share, rounded down.
    \<^item> Books: amounts parse exactly from the text they print as; any sequence of bookings refines an
      abstract trade book over reals and fails exactly on an amount beyond 128 bits, changing
      nothing; the incremental average is the one a replay of all records gives and lies between
      the prices paid; a late buy is split without loss; a round of the ledger balances, its profit
      is what it received less what it paid, keys are unique, and reconciled rounds show exactly
      what the wallet holds.
    \<^item> Node calls: a send reported as refused was handed to one node at most; a call makes at most one
      request more than its retries, at enabled providers of the required kind, and misses providers
      only when there are none; a selector never repeats an excluded provider and reaches every healthy
      one; an open circuit admits nobody before its time under any interleaving and closes again exactly
      for the configurations that allow enough probes; the reported rate stays between floor and base; the
      service counts as unreachable exactly in an outage; a masked URL is independent of its credentials.

  \<^bold>\<open>Loops, fuel and bounds.\<close> The walks of the venues are structural or have a measure: the tick
  walk over the list of loaded ticks, the bin walk over the loaded bins, the bonding-curve walk over
  its segments, so no fuel is involved. The binary search of the pump venues is a partial function:
  it returns for every spend below the largest \<open>u64\<close> and \<open>spend_search_hangs\<close> shows that it does not
  for that one; a quote that would wait for it is a \<open>Panic\<close>. The settle loop may run as long as its timeout allows; its
  model reads a list of rounds and is \<open>None\<close> while they last, and \<open>execution_ends\<close> proves that
  one round past the deadline is enough. A receipt is read six times, as in the code. The attempts of a
  node call are a recursion over \<open>0..=max_retries\<close>; the scan for URLs in a text has a measure.

  \<^bold>\<open>Not modelled.\<close> The aggregator routes and their cost guard, discovery and price caches, the
  storage of positions and the synchronisation of rounds with it, the trader's loops and monitors, the databases, wallets, the rest of the
  configuration, the statistics of node calls and the typed client over them, HTTP routes, chat and model
  tools: they are bound to external services and
  storage, and the engine does not depend on them. Logging has no effect on the modelled state.
\<close>

section \<open>Properties across the components\<close>

text \<open>
  The registry is a bijection between the supported kinds and their program ids: the pool's
  owner and the kind find the same venue, and a kind is supported exactly when it is known.
\<close>

theorem registry_round_trip:
  assumes "decodes_apart sdk" and "kind \<noteq> Unknown"
  shows "venue_for_program_id sdk (venue_program_id sdk kind) = Some kind
       \<and> venue_for_kind kind = Some kind \<and> require_venue sdk (venue_program_id sdk kind) = Inr kind
       \<and> supports kind \<and> kind \<in> set supported_kinds"
  using registry_lookups [OF assms(1)] assms(2)
  by (simp add: set_venues supports_def supported_kinds_def)

theorem registry_round_trip_witness:
  "venue_for_program_id sample_sdk (venue_program_id sample_sdk OrcaWhirlpool) = Some OrcaWhirlpool"
  using registry_round_trip [OF sample_decodes_apart] by simp

lemma sample_sides: "for_pair sample_sdk (sample_key ''token'') (sample_key SOL_MINT) = FeeOutput"
  by (simp add: for_pair_def is_reference_mint_def wsol_mint_def sample_sdk_def)

lemma sample_venue_quote:
  obtains vq where "cpmm_quote sample_cpmm (sample_key ''token'') 1000000 = Inr vq" and "vq_expected_out vq = 498501"
proof -
  obtain vq where vq: "cpmm_quote sample_cpmm (sample_key ''token'') 1000000 = Inr vq"
    using sample_cpmm_quote [OF sample_cpmm_sides(2)] by fastforce
  have rate: "cpmm_input_fee_rate sample_cpmm = 2500" "cpmm_transfer_fee sample_cpmm s = None" for s
    by (simp_all add: cpmm_input_fee_rate_def sample_cpmm_def sample_cpmm_state_def cpmm_transfer_fee_def)
  have fee: "fee_amount 1000000 2500 FEE_RATE_DENOMINATOR = 2500"
    by (simp add: word_unat_eq_iff unat_fee_amount FEE_RATE_DENOMINATOR_def ceil_nat_def)
  have out: "constant_product_out 2000000000 1000000000 997500 = 498501"
    by (simp add: word_unat_eq_iff unat_constant_product_out)
  have "vq_expected_out vq = 498501"
    by (rule cpmm_quote_ok [OF vq])
      (use sample_cpmm_sides(2) in \<open>simp add: sample_cpmm_reserves rate fee out net_of_fee_def saturating_sub_def\<close>)
  then show ?thesis using that [OF vq] by simp
qed

lemma sample_quote:
  obtains q where "quote_with_market sample_sdk sample_intent (cpmm_as_market sample_sdk sample_cpmm) = Inr q"
    and "dq_swap_amount_in q = 1000000" and "pf_side (dq_fee q) = FeeOutput"
    and "pf_mint (dq_fee q) = Some (sample_key SOL_MINT)"
proof -
  obtain vq where vq: "cpmm_quote sample_cpmm (sample_key ''token'') 1000000 = Inr vq" and out: "vq_expected_out vq = 498501"
    by (rule sample_venue_quote)
  have valid: "validate sample_intent = Inr ()"
    using sample_keys_apart by (auto simp: validate_def sample_intent_def MAX_SLIPPAGE_BPS_def)
  have pair: "trades (cpmm_as_market sample_sdk sample_cpmm) (sample_key ''token'') (sample_key SOL_MINT)"
    by (simp add: trades_def cpmm_as_market_def sample_cpmm_def sample_cpmm_state_def)
  have sol: "wsol_mint sample_sdk = sample_key SOL_MINT" by (simp add: wsol_mint_def sample_sdk_def)
  have out': "min_out_after_slippage 498501 100 = 493515" "platform_fee_amount 498501 = 2492"
    by (simp_all add: word_unat_eq_iff unat_min_out unat_platform_fee_amount)
  have intent: "in_input_mint sample_intent = sample_key ''token''" "in_output_mint sample_intent = sample_key SOL_MINT"
    "in_amount_in sample_intent = 1000000" "in_slippage_bps sample_intent = 100"
    by (simp_all add: sample_intent_def)
  have m: "pm_quote (cpmm_as_market sample_sdk sample_cpmm) = cpmm_quote sample_cpmm"
    by (simp add: cpmm_as_market_def)
  show ?thesis
    by (rule that, simp add: quote_with_market_def valid intent pair sample_sides Let_def resolve_fee_def sol m vq
         assemble_def out out' saturating_sub_def)
       (simp_all)
qed

lemma sample_plan:
  obtains q plan where "quote_with_market sample_sdk sample_intent (cpmm_as_market sample_sdk sample_cpmm) = Inr q"
    and "build_plan sample_sdk 1000 sample_intent (cpmm_as_market sample_sdk sample_cpmm) q = Inr plan"
proof -
  obtain q where q: "quote_with_market sample_sdk sample_intent (cpmm_as_market sample_sdk sample_cpmm) = Inr q"
    "dq_swap_amount_in q = 1000000" "pf_side (dq_fee q) = FeeOutput" "pf_mint (dq_fee q) = Some (sample_key SOL_MINT)"
    by (rule sample_quote)
  have sol: "wsol_mint sample_sdk = sample_key SOL_MINT" by (simp add: wsol_mint_def sample_sdk_def)
  have intent: "in_input_mint sample_intent = sample_key ''token''" "in_output_mint sample_intent = sample_key SOL_MINT"
    by (simp_all add: sample_intent_def)
  have sdk: "token_close_account sample_sdk a b c \<noteq> None" for a b c by (simp add: sample_sdk_def)
  have wsol: "\<not> is_wsol sample_sdk (sample_key ''token'')" "is_wsol sample_sdk (sample_key SOL_MINT)" "is_native sample_sdk (dq_fee q)"
    using sample_keys_apart by (auto simp: is_wsol_def sol is_native_def q)
  have "\<exists>plan. build_plan sample_sdk 1000 sample_intent (cpmm_as_market sample_sdk sample_cpmm) q = Inr plan"
    using sample_cpmm_sides sdk
    by (simp add: build_plan_def resolve_legs_def cpmm_as_market_def cpmm_token_program_def intent Let_def
       push_wrap_def wraps_native_def push_input_fee_def q wsol cpmm_swap_instruction_def oriented_pair_def output_fee_instruction_def
       transfer_instruction_def push_close_def wsol_account_def split: option.splits)
  then show ?thesis using that q by blast
qed

text \<open>
  C1: from intent to plan, for every venue. The swap instruction of a plan comes after the budget
  and the two account creations, trades the intent's own pair, carries exactly the amount left
  after the input fee and exactly the quoted minimum, which guarantees the wallet a positive
  net output, and nobody but the wallet's owner signs it.
\<close>

theorem plan_enforces_minimum:
  assumes "quote_with_market sdk intent (loaded_as_market sdk m) = Inr q"
    and "build_plan sdk price intent (loaded_as_market sdk m) q = Inr plan"
  shows "\<exists>pre swap post. sp_instructions plan = pre @ [swap] @ post \<and> 4 \<le> length pre
     \<and> trades (loaded_as_market sdk m) (in_input_mint intent) (in_output_mint intent)
     \<and> u64_at (ix_data swap) (amount_offset m (in_input_mint intent)) = Some (dq_swap_amount_in q)
     \<and> u64_at (ix_data swap) (min_offset m (in_input_mint intent)) = Some (dq_min_out q)
     \<and> 0 < unat (dq_min_net_out q) \<and> unat (dq_min_net_out q) \<le> unat (dq_min_out q)
     \<and> unat (dq_min_out q) \<le> unat (dq_expected_out q)
     \<and> list_all (\<lambda>meta. \<not> (meta_signer meta \<and> meta_pubkey meta \<noteq> in_owner intent)) (ix_accounts swap)"
  by (rule loaded.engine_contract [OF assms]) (auto simp: list_all_iff)

theorem plan_enforces_minimum_witness:
  "\<exists>q plan pre swap post.
     quote_with_market sample_sdk sample_intent (loaded_as_market sample_sdk (LoadedCpmm sample_cpmm)) = Inr q
     \<and> build_plan sample_sdk 1000 sample_intent (loaded_as_market sample_sdk (LoadedCpmm sample_cpmm)) q = Inr plan
     \<and> sp_instructions plan = pre @ [swap] @ post \<and> u64_at (ix_data swap) 16 = Some (dq_min_out q)"
proof -
  let ?m = "LoadedCpmm sample_cpmm"
  obtain q plan where q: "quote_with_market sample_sdk sample_intent (loaded_as_market sample_sdk ?m) = Inr q"
    and plan: "build_plan sample_sdk 1000 sample_intent (loaded_as_market sample_sdk ?m) q = Inr plan"
    using sample_plan by auto
  show ?thesis using plan_enforces_minimum [OF q plan] q plan by auto
qed

text \<open>
  C31: the order of a plan's instructions, which is its safety argument: budget, account creation,
  wrapping of the exact swap amount, an input-side fee, the swap, a token fee, closing the WSOL
  account, and last a native fee, which is paid out of the closed account.
\<close>

theorem plan_order:
  assumes "build_plan sdk price intent mkt quote = Inr plan"
  shows "\<exists>legs s. resolve_legs sdk (in_owner intent) mkt (in_input_mint intent) (in_output_mint intent) = Inr legs
     \<and> shape_of_plan sdk price intent mkt legs quote s \<and> sp_instructions plan = shape_list s
     \<and> sp_output_account plan = wl_output_account legs
     \<and> sp_output_is_native plan = unwraps_native sdk intent \<and> sp_quote plan = quote"
  by (rule build_plan_shape [OF assms]) blast

theorem plan_order_witness:
  "\<exists>q plan s. build_plan sample_sdk 1000 sample_intent (cpmm_as_market sample_sdk sample_cpmm) q = Inr plan
     \<and> sp_instructions plan = shape_list s"
proof -
  obtain q plan where plan: "build_plan sample_sdk 1000 sample_intent (cpmm_as_market sample_sdk sample_cpmm) q = Inr plan"
    by (rule sample_plan)
  show ?thesis using plan_order [OF plan] plan by blast
qed

text \<open>The intent's amount is split exactly between the input-side fee and the pool.\<close>

theorem quote_splits_amount:
  assumes "quote_with_market sdk intent mkt = Inr q"
  shows "dq_amount_in q = in_amount_in intent
    \<and> unat (dq_swap_amount_in q) + (if for_pair sdk (in_input_mint intent) (in_output_mint intent) = FeeInput
          then unat (in_amount_in intent) * 50 div 10000 else 0) = unat (in_amount_in intent)"
proof -
  obtain fee :: platform_fee where "pf_side fee = for_pair sdk (in_input_mint intent) (in_output_mint intent)"
    and "pf_amount fee = (if pf_side fee = FeeInput then platform_fee_amount (in_amount_in intent) else 0)"
    and "dq_swap_amount_in q = saturating_sub (in_amount_in intent) (pf_amount fee)"
    by (rule quote_with_market_ok [OF assms]) blast
  then show ?thesis
    using quote_splits_input(2) [OF assms] by (simp add: unat_simps unat_platform_fee_amount)
qed

theorem quote_splits_amount_witness:
  "\<exists>q. quote_with_market sample_sdk sample_intent (cpmm_as_market sample_sdk sample_cpmm) = Inr q
     \<and> unat (dq_swap_amount_in q) = 1000000"
proof -
  obtain q where q: "quote_with_market sample_sdk sample_intent (cpmm_as_market sample_sdk sample_cpmm) = Inr q"
    by (rule sample_quote)
  show ?thesis
    using quote_splits_amount [OF q] q sample_sides by (simp add: sample_intent_def)
qed

text \<open>
  A pool is never asked to trade a pair it does not hold. The quote is refused with the
  pair's own error, and a plan with any quote is refused as well.
\<close>

theorem foreign_pair_never_trades:
  assumes "\<not> trades (loaded_as_market sdk m) (in_input_mint intent) (in_output_mint intent)"
    and "validate intent = Inr ()"
  shows "quote_with_market sdk intent (loaded_as_market sdk m)
           = Inl (PairNotInPool (pm_pool (loaded_as_market sdk m)) (in_input_mint intent) (in_output_mint intent))
       \<and> (\<exists>e. build_plan sdk price intent (loaded_as_market sdk m) quote = Inl e)"
  using loaded.foreign_pair_refused [OF assms(1)] assms by (simp add: quote_with_market_def)

theorem foreign_pair_never_trades_witness:
  "\<exists>e. quote_with_market sample_sdk (sample_intent\<lparr>in_output_mint := sample_key USDC_MINT\<rparr>)
          (loaded_as_market sample_sdk (LoadedCpmm sample_cpmm)) = Inl e"
proof -
  have "\<not> trades (loaded_as_market sample_sdk (LoadedCpmm sample_cpmm)) (sample_key ''token'') (sample_key USDC_MINT)"
    using sample_keys_apart by (auto simp: trades_def cpmm_as_market_def sample_cpmm_def sample_cpmm_state_def)
  moreover have "validate (sample_intent\<lparr>in_output_mint := sample_key USDC_MINT\<rparr>) = Inr ()"
    using sample_keys_apart by (auto simp: validate_def sample_intent_def MAX_SLIPPAGE_BPS_def)
  ultimately show ?thesis
    using foreign_pair_never_trades
      [of sample_sdk "LoadedCpmm sample_cpmm" "sample_intent\<lparr>in_output_mint := sample_key USDC_MINT\<rparr>"]
    by (simp add: sample_intent_def)
qed

end
